(* ===== verification/RC_Prelude.thy ===== *)
theory RC_Prelude
  imports Complex_Main
begin

text \<open>
  Shared material of the RouteCairn development: the theorem collections the component proofs
  draw on, the part of the JavaScript number and string library the modelled sources use, the
  sum-typed results that stand for \<^verbatim>\<open>throw\<close>, and generic list lemmas.
\<close>

named_theorems js_num \<open>unfolding of the JavaScript number operations\<close>
named_theorems js_str \<open>unfolding of the JavaScript string operations\<close>
named_theorems result_split \<open>inversion of result-typed sequencing\<close>

section \<open>Results: a thrown error or a value\<close>

text \<open>
  A function of the source that may throw is modelled with the type \<open>'e + 'a\<close>: \<open>Inl e\<close> is the
  thrown error, \<open>Inr x\<close> the returned value. \<open>ebind\<close> is statement sequencing (a throw skips
  the rest) and \<open>guard_err\<close> is \<^verbatim>\<open>if (c) throw e\<close>.
\<close>

definition ebind :: "'e + 'a \<Rightarrow> ('a \<Rightarrow> 'e + 'b) \<Rightarrow> 'e + 'b" where
  "ebind m f = (case m of Inl e \<Rightarrow> Inl e | Inr x \<Rightarrow> f x)"

definition guard_err :: "bool \<Rightarrow> 'e \<Rightarrow> 'e + unit" where
  "guard_err c e = (if c then Inl e else Inr ())"

lemma ebind_simps [simp]:
  "ebind (Inl e) f = Inl e"
  "ebind (Inr x) f = f x"
  by (simp_all add: ebind_def)

lemma ebind_Inr_iff [result_split]: "ebind m f = Inr y \<longleftrightarrow> (\<exists>x. m = Inr x \<and> f x = Inr y)"
  by (cases m) simp_all

lemma ebind_Inl_iff [result_split]:
  "ebind m f = Inl e \<longleftrightarrow> m = Inl e \<or> (\<exists>x. m = Inr x \<and> f x = Inl e)"
  by (cases m) simp_all

lemma guard_err_Inr_iff [result_split]: "guard_err c e = Inr u \<longleftrightarrow> \<not> c"
  by (simp add: guard_err_def)

lemma guard_err_Inl_iff [result_split]: "guard_err c e = Inl e' \<longleftrightarrow> c \<and> e' = e"
  by (auto simp: guard_err_def)

lemma ebind_cong [fundef_cong]:
  "m = m' \<Longrightarrow> (\<And>x. m' = Inr x \<Longrightarrow> f x = g x) \<Longrightarrow> ebind m f = ebind m' g"
  by (cases m') simp_all

text \<open>A loop whose body may throw: the first error ends it.\<close>

fun each_err :: "('a \<Rightarrow> 'e + unit) \<Rightarrow> 'a list \<Rightarrow> 'e + unit" where
  "each_err f [] = Inr ()"
| "each_err f (x # xs) = ebind (f x) (\<lambda>_. each_err f xs)"

lemma each_err_Inr_iff [result_split]: "each_err f xs = Inr u \<longleftrightarrow> (\<forall>x \<in> set xs. f x = Inr ())"
  by (induction xs) (auto simp: result_split)

lemma each_err_InlD: "each_err f xs = Inl e \<Longrightarrow> \<exists>x \<in> set xs. f x = Inl e"
  by (induction xs) (auto simp: result_split)

section \<open>Numbers\<close>

text \<open>
  A JavaScript number is a finite value, one of the infinities or NaN. A finite value is kept as
  the exact rational it denotes. The modelled code compares numbers, takes minima and maxima,
  rounds up and scales by small constants; the results of those on the integers the program uses
  (all below $2^{53}$) are exact in IEEE double arithmetic.
\<close>

datatype jsnum = JFin rat | JPosInf | JNegInf | JNaN

abbreviation jsint :: "int \<Rightarrow> jsnum" where
  "jsint n \<equiv> JFin (of_int n)"

fun js_isFinite :: "jsnum \<Rightarrow> bool" where
  "js_isFinite (JFin q) = True"
| "js_isFinite _ = False"

fun js_isInteger :: "jsnum \<Rightarrow> bool" where
  "js_isInteger (JFin q) = (of_int \<lfloor>q\<rfloor> = q)"
| "js_isInteger _ = False"

text \<open>\<^verbatim>\<open>a < b\<close> and \<^verbatim>\<open>a <= b\<close>: every comparison with NaN is false.\<close>

fun js_less :: "jsnum \<Rightarrow> jsnum \<Rightarrow> bool" where
  "js_less JNaN _ = False"
| "js_less _ JNaN = False"
| "js_less (JFin a) (JFin b) = (a < b)"
| "js_less (JFin _) JPosInf = True"
| "js_less JNegInf (JFin _) = True"
| "js_less JNegInf JPosInf = True"
| "js_less _ _ = False"

fun js_leq :: "jsnum \<Rightarrow> jsnum \<Rightarrow> bool" where
  "js_leq JNaN _ = False"
| "js_leq _ JNaN = False"
| "js_leq (JFin a) (JFin b) = (a \<le> b)"
| "js_leq _ JPosInf = True"
| "js_leq JNegInf _ = True"
| "js_leq _ _ = False"

text \<open>\<^verbatim>\<open>Math.min\<close> and \<^verbatim>\<open>Math.max\<close> of two numbers: NaN if either is NaN.\<close>

definition js_min :: "jsnum \<Rightarrow> jsnum \<Rightarrow> jsnum" where
  "js_min a b = (if a = JNaN \<or> b = JNaN then JNaN else if js_leq a b then a else b)"

definition js_max :: "jsnum \<Rightarrow> jsnum \<Rightarrow> jsnum" where
  "js_max a b = (if a = JNaN \<or> b = JNaN then JNaN else if js_leq a b then b else a)"

text \<open>The truth value of a number in a condition: zero and NaN are false.\<close>

fun js_truthy :: "jsnum \<Rightarrow> bool" where
  "js_truthy (JFin q) = (q \<noteq> 0)"
| "js_truthy JNaN = False"
| "js_truthy _ = True"

fun js_ceil :: "jsnum \<Rightarrow> jsnum" where
  "js_ceil (JFin q) = JFin (of_int \<lceil>q\<rceil>)"
| "js_ceil x = x"

text \<open>The integer a number denotes, where it denotes one.\<close>

fun js_floor_int :: "jsnum \<Rightarrow> int" where
  "js_floor_int (JFin q) = \<lfloor>q\<rfloor>"
| "js_floor_int _ = 0"

text \<open>Multiplication by a positive finite constant.\<close>

fun js_scale :: "rat \<Rightarrow> jsnum \<Rightarrow> jsnum" where
  "js_scale k (JFin q) = JFin (k * q)"
| "js_scale k x = x"

lemma js_min_JFin [simp]: "js_min (JFin a) (JFin b) = JFin (min a b)"
  by (simp add: js_min_def min_def)

lemma js_max_JFin [simp]: "js_max (JFin a) (JFin b) = JFin (max a b)"
  by (simp add: js_max_def max_def)

lemma js_isFinite_iff: "js_isFinite x \<longleftrightarrow> (\<exists>q. x = JFin q)"
  by (cases x) auto

lemma js_leq_refl [simp]: "js_leq x x \<longleftrightarrow> x \<noteq> JNaN"
  by (cases x) auto

lemma js_leq_trans: "js_leq a b \<Longrightarrow> js_leq b c \<Longrightarrow> js_leq a c"
  by (cases a; cases b; cases c) auto

lemma js_leq_nanD: "js_leq a b \<Longrightarrow> a \<noteq> JNaN \<and> b \<noteq> JNaN"
  by (cases a; cases b) auto

lemma js_not_less: "a \<noteq> JNaN \<Longrightarrow> b \<noteq> JNaN \<Longrightarrow> \<not> js_less a b \<longleftrightarrow> js_leq b a"
  by (cases a; cases b) auto

lemma js_leq_linear: "a \<noteq> JNaN \<Longrightarrow> b \<noteq> JNaN \<Longrightarrow> js_leq a b \<or> js_leq b a"
  by (cases a; cases b) auto

lemma js_min_leq1: "js_min a b \<noteq> JNaN \<Longrightarrow> js_leq (js_min a b) a"
  using js_leq_linear [of a b] by (auto simp: js_min_def split: if_splits)

lemma js_min_leq2: "js_min a b \<noteq> JNaN \<Longrightarrow> js_leq (js_min a b) b"
  using js_leq_linear [of a b] by (auto simp: js_min_def split: if_splits)

lemma js_min_NaN_iff [simp]: "js_min a b = JNaN \<longleftrightarrow> a = JNaN \<or> b = JNaN"
  by (auto simp: js_min_def)

section \<open>Strings\<close>

text \<open>
  A JavaScript string is a list of characters. The strings the modelled code compares (URLs,
  method names, header names, identifiers) are ASCII; case mapping is modelled on ASCII letters.
\<close>

definition starts_with :: "string \<Rightarrow> string \<Rightarrow> bool" where
  "starts_with s p \<longleftrightarrow> take (length p) s = p"

definition ends_with :: "string \<Rightarrow> string \<Rightarrow> bool" where
  "ends_with s p \<longleftrightarrow> length p \<le> length s \<and> drop (length s - length p) s = p"

definition char_upper :: "char \<Rightarrow> char" where
  "char_upper c = (let n = of_char c :: nat in if 97 \<le> n \<and> n \<le> 122 then char_of (n - 32) else c)"

definition char_lower :: "char \<Rightarrow> char" where
  "char_lower c = (let n = of_char c :: nat in if 65 \<le> n \<and> n \<le> 90 then char_of (n + 32) else c)"

definition to_upper :: "string \<Rightarrow> string" where
  "to_upper = map char_upper"

definition to_lower :: "string \<Rightarrow> string" where
  "to_lower = map char_lower"

text \<open>\<^verbatim>\<open>s.split(c)\<close> for a one-character separator: never empty.\<close>

fun split_on :: "char \<Rightarrow> string \<Rightarrow> string list" where
  "split_on c [] = [[]]"
| "split_on c (x # xs) =
     (if x = c then [] # split_on c xs
      else case split_on c xs of [] \<Rightarrow> [[x]] | w # ws \<Rightarrow> (x # w) # ws)"

text \<open>\<^verbatim>\<open>s.includes(p)\<close>.\<close>

fun includes_sub :: "string \<Rightarrow> string \<Rightarrow> bool" where
  "includes_sub [] p = (p = [])"
| "includes_sub (x # xs) p = (starts_with (x # xs) p \<or> includes_sub xs p)"

lemma starts_with_iff: "starts_with s p \<longleftrightarrow> (\<exists>r. s = p @ r)"
  by (auto simp: starts_with_def) (metis append_take_drop_id)

lemma ends_with_iff: "ends_with s p \<longleftrightarrow> (\<exists>r. s = r @ p)"
proof
  assume "ends_with s p"
  then have "s = take (length s - length p) s @ p"
    by (metis append_take_drop_id ends_with_def)
  then show "\<exists>r. s = r @ p" by blast
qed (auto simp: ends_with_def)

lemma starts_with_trans: "starts_with a b \<Longrightarrow> starts_with b c \<Longrightarrow> starts_with a c"
  by (auto simp: starts_with_iff)

lemma split_on_not_Nil [simp]: "split_on c s \<noteq> []"
  by (induction s) (auto split: list.splits)

lemma length_to_upper [simp]: "length (to_upper s) = length s"
  by (simp add: to_upper_def)

section \<open>Lists and optional values\<close>

text \<open>\<^verbatim>\<open>a ?? b\<close> on an optional value.\<close>

abbreviation or_else :: "'a option \<Rightarrow> 'a \<Rightarrow> 'a" where
  "or_else x d \<equiv> (case x of None \<Rightarrow> d | Some v \<Rightarrow> v)"

text \<open>\<^verbatim>\<open>new Set(xs).size !== xs.length\<close> says that a list has a duplicate.\<close>

abbreviation has_duplicates :: "'a list \<Rightarrow> bool" where
  "has_duplicates xs \<equiv> \<not> distinct xs"

text \<open>\<^verbatim>\<open>xs.find(p)\<close> is \<^const>\<open>List.find\<close>.\<close>

lemma find_Some_set: "List.find p xs = Some x \<Longrightarrow> x \<in> set xs \<and> p x"
  by (auto simp: find_Some_iff in_set_conv_nth)

lemma length_filter_mono:
  "(\<And>x. x \<in> set xs \<Longrightarrow> p x \<Longrightarrow> q x) \<Longrightarrow> length (filter p xs) \<le> length (filter q xs)"
  by (induction xs) auto

lemma length_remove1_mem: "x \<in> set xs \<Longrightarrow> Suc (length (remove1 x xs)) = length xs"
  by (simp add: length_remove1) (metis Suc_pred length_pos_if_in_set)

section \<open>Sorting with a comparator, and insertion-ordered maps\<close>

text \<open>\<^verbatim>\<open>xs.sort(cmp)\<close> is stable: of two elements that compare equal the earlier one stays first.\<close>

fun insert_by :: "('a \<Rightarrow> 'a \<Rightarrow> int) \<Rightarrow> 'a \<Rightarrow> 'a list \<Rightarrow> 'a list" where
  "insert_by cmp x [] = [x]"
| "insert_by cmp x (y # ys) = (if cmp x y \<le> 0 then x # y # ys else y # insert_by cmp x ys)"

fun sort_by :: "('a \<Rightarrow> 'a \<Rightarrow> int) \<Rightarrow> 'a list \<Rightarrow> 'a list" where
  "sort_by cmp [] = []"
| "sort_by cmp (x # xs) = insert_by cmp x (sort_by cmp xs)"

lemma set_insert_by [simp]: "set (insert_by cmp x xs) = insert x (set xs)"
  by (induction xs) auto

lemma set_sort_by [simp]: "set (sort_by cmp xs) = set xs"
  by (induction xs) auto

lemma length_insert_by [simp]: "length (insert_by cmp x xs) = Suc (length xs)"
  by (induction xs) auto

lemma length_sort_by [simp]: "length (sort_by cmp xs) = length xs"
  by (induction xs) auto

lemma sort_by_Nil_iff [simp]: "sort_by cmp xs = [] \<longleftrightarrow> xs = []"
  by (metis length_0_conv length_sort_by)

text \<open>\<^verbatim>\<open>a.localeCompare(b)\<close> on identifiers of lower-case letters and hyphens: every character has its own
  primary weight, in ASCII order, so the comparison is lexicographic.\<close>

fun locale_compare :: "string \<Rightarrow> string \<Rightarrow> int" where
  "locale_compare [] [] = 0"
| "locale_compare [] (_ # _) = -1"
| "locale_compare (_ # _) [] = 1"
| "locale_compare (x # xs) (y # ys) =
     (if (of_char x :: nat) < of_char y then -1 else if (of_char y :: nat) < of_char x then 1 else locale_compare xs ys)"

lemma locale_compare_0_iff: "locale_compare a b = 0 \<longleftrightarrow> a = b"
  by (induction a b rule: locale_compare.induct) auto

text \<open>\<^verbatim>\<open>m.set(k, v)\<close> of a \<^verbatim>\<open>Map\<close> or an object: a present key keeps its position.\<close>

fun js_map_set :: "'k \<Rightarrow> 'v \<Rightarrow> ('k \<times> 'v) list \<Rightarrow> ('k \<times> 'v) list" where
  "js_map_set k v [] = [(k, v)]"
| "js_map_set k v ((k', v') # m) = (if k = k' then (k, v) # m else (k', v') # js_map_set k v m)"

lemma map_of_js_map_set [simp]: "map_of (js_map_set k v m) = (map_of m)(k \<mapsto> v)"
  by (induction m) auto

lemma keys_js_map_set: "fst ` set (js_map_set k v m) = insert k (fst ` set m)"
  by (induction k v m rule: js_map_set.induct) auto

lemma js_map_set_fresh: "k \<notin> fst ` set m \<Longrightarrow> js_map_set k v m = m @ [(k, v)]"
  by (induction m) auto

text \<open>\<^verbatim>\<open>xs.indexOf(x)\<close>.\<close>

fun index_of :: "'a \<Rightarrow> 'a list \<Rightarrow> int" where
  "index_of x [] = -1"
| "index_of x (y # ys) = (if x = y then 0 else (let i = index_of x ys in if i < 0 then -1 else i + 1))"

lemma index_of_neg_iff: "index_of x xs < 0 \<longleftrightarrow> x \<notin> set xs"
  by (induction xs) (auto simp: Let_def)

lemma index_of_ge: "-1 \<le> index_of x xs"
  by (induction xs) (auto simp: Let_def)

lemma index_of_take: "take (nat (max 0 (index_of x xs))) xs = (if x \<in> set xs then takeWhile (\<lambda>y. y \<noteq> x) xs else [])"
proof (induction xs)
  case (Cons y ys)
  show ?case
  proof (cases "x = y")
    case False
    show ?thesis
    proof (cases "x \<in> set ys")
      case True
      then have i: "0 \<le> index_of x ys" using index_of_neg_iff [of x ys] by linarith
      then have n: "nat (max 0 (index_of x (y # ys))) = Suc (nat (max 0 (index_of x ys)))"
        using False by (simp add: Let_def nat_add_distrib)
      show ?thesis unfolding n using Cons False True by simp
    next
      case False
      then show ?thesis using \<open>x \<noteq> y\<close> index_of_neg_iff [of x ys] by (simp add: Let_def)
    qed
  qed simp
qed simp

end
