(* ===== verification/RC_Catalog.thy ===== *)
theory RC_Catalog
  imports RC_Prelude
begin

text \<open>
  The module catalog of \<^verbatim>\<open>core/planning/ModuleCatalog.ts\<close> with the types it is written in
  (\<^verbatim>\<open>core/planning/ScanPlan.ts\<close>, \<^verbatim>\<open>core/plugins/Plugin.ts\<close>), and the plugin registry of
  \<^verbatim>\<open>core/plugins/PluginRegistry.ts\<close> with its ordering of metadata. The lemmas show that the ordering
  constraints of the catalog have no cycle and that the registry hands back what was registered.
\<close>

section \<open>Types\<close>

datatype (plugins only: code) module_id =
    M_baseline | M_tech_fingerprint | M_js_intelligence | M_browser_crawler | M_path_discovery | M_api_mapper
    | M_api_probe | M_auth_surface | M_parameter_analysis | M_nextjs_review | M_vulnerability_workflows
    | M_active_vulnerability_validation | M_workflow_validation | M_authenticated_testing | M_role_comparison
    | M_state_aware_api | M_object_pair_testing | M_field_exposure_testing | M_authorization_matrix_testing
    | M_collection_authorization_testing | M_bulk_authorization_testing | M_file_authorization_testing
    | M_privilege_mutation_testing | M_supabase_authorization | M_authentication_lifecycle | M_business_invariant
    | M_controlled_race | M_api_graphql_authorization | M_protocol_security | M_link_portal_export_security
    | M_operational_endpoint_security | M_billing_entitlement_security | M_secret_boundary | M_assisted_review
    | M_equivalent_route_testing | M_header_review | M_cookie_review | M_cors_review | M_method_review
    | M_exposure_review | M_proof_mode

fun module_id_text :: "module_id \<Rightarrow> string" where
  "module_id_text M_baseline = ''baseline''"
| "module_id_text M_tech_fingerprint = ''tech-fingerprint''"
| "module_id_text M_js_intelligence = ''js-intelligence''"
| "module_id_text M_browser_crawler = ''browser-crawler''"
| "module_id_text M_path_discovery = ''path-discovery''"
| "module_id_text M_api_mapper = ''api-mapper''"
| "module_id_text M_api_probe = ''api-probe''"
| "module_id_text M_auth_surface = ''auth-surface''"
| "module_id_text M_parameter_analysis = ''parameter-analysis''"
| "module_id_text M_nextjs_review = ''nextjs-review''"
| "module_id_text M_vulnerability_workflows = ''vulnerability-workflows''"
| "module_id_text M_active_vulnerability_validation = ''active-vulnerability-validation''"
| "module_id_text M_workflow_validation = ''workflow-validation''"
| "module_id_text M_authenticated_testing = ''authenticated-testing''"
| "module_id_text M_role_comparison = ''role-comparison''"
| "module_id_text M_state_aware_api = ''state-aware-api''"
| "module_id_text M_object_pair_testing = ''object-pair-testing''"
| "module_id_text M_field_exposure_testing = ''field-exposure-testing''"
| "module_id_text M_authorization_matrix_testing = ''authorization-matrix-testing''"
| "module_id_text M_collection_authorization_testing = ''collection-authorization-testing''"
| "module_id_text M_bulk_authorization_testing = ''bulk-authorization-testing''"
| "module_id_text M_file_authorization_testing = ''file-authorization-testing''"
| "module_id_text M_privilege_mutation_testing = ''privilege-mutation-testing''"
| "module_id_text M_supabase_authorization = ''supabase-authorization''"
| "module_id_text M_authentication_lifecycle = ''authentication-lifecycle''"
| "module_id_text M_business_invariant = ''business-invariant''"
| "module_id_text M_controlled_race = ''controlled-race''"
| "module_id_text M_api_graphql_authorization = ''api-graphql-authorization''"
| "module_id_text M_protocol_security = ''protocol-security''"
| "module_id_text M_link_portal_export_security = ''link-portal-export-security''"
| "module_id_text M_operational_endpoint_security = ''operational-endpoint-security''"
| "module_id_text M_billing_entitlement_security = ''billing-entitlement-security''"
| "module_id_text M_secret_boundary = ''secret-boundary''"
| "module_id_text M_assisted_review = ''assisted-review''"
| "module_id_text M_equivalent_route_testing = ''equivalent-route-testing''"
| "module_id_text M_header_review = ''header-review''"
| "module_id_text M_cookie_review = ''cookie-review''"
| "module_id_text M_cors_review = ''cors-review''"
| "module_id_text M_method_review = ''method-review''"
| "module_id_text M_exposure_review = ''exposure-review''"
| "module_id_text M_proof_mode = ''proof-mode''"

datatype (plugins only: code) module_capability =
    Cap_assisted_review | Cap_baseline | Cap_fingerprint | Cap_javascript | Cap_browser | Cap_discovery | Cap_api
    | Cap_auth_surface | Cap_auth_comparison | Cap_role_comparison | Cap_state_aware_api | Cap_object_pair
    | Cap_field_exposure | Cap_authorization_matrix | Cap_collection_authorization | Cap_bulk_authorization
    | Cap_file_authorization | Cap_controlled_mutation | Cap_supabase_authorization | Cap_authentication_lifecycle
    | Cap_business_invariant | Cap_controlled_race | Cap_api_graphql_authorization | Cap_protocol_security
    | Cap_link_portal_export_security | Cap_operational_endpoint_security | Cap_billing_entitlement_security
    | Cap_secret_boundary | Cap_equivalent_route | Cap_headers | Cap_cookies | Cap_cors | Cap_methods
    | Cap_exposure | Cap_nextjs | Cap_workflow | Cap_active_vulnerability_validation | Cap_proof

fun capability_text :: "module_capability \<Rightarrow> string" where
  "capability_text Cap_assisted_review = ''assisted-review''"
| "capability_text Cap_baseline = ''baseline''"
| "capability_text Cap_fingerprint = ''fingerprint''"
| "capability_text Cap_javascript = ''javascript''"
| "capability_text Cap_browser = ''browser''"
| "capability_text Cap_discovery = ''discovery''"
| "capability_text Cap_api = ''api''"
| "capability_text Cap_auth_surface = ''auth-surface''"
| "capability_text Cap_auth_comparison = ''auth-comparison''"
| "capability_text Cap_role_comparison = ''role-comparison''"
| "capability_text Cap_state_aware_api = ''state-aware-api''"
| "capability_text Cap_object_pair = ''object-pair''"
| "capability_text Cap_field_exposure = ''field-exposure''"
| "capability_text Cap_authorization_matrix = ''authorization-matrix''"
| "capability_text Cap_collection_authorization = ''collection-authorization''"
| "capability_text Cap_bulk_authorization = ''bulk-authorization''"
| "capability_text Cap_file_authorization = ''file-authorization''"
| "capability_text Cap_controlled_mutation = ''controlled-mutation''"
| "capability_text Cap_supabase_authorization = ''supabase-authorization''"
| "capability_text Cap_authentication_lifecycle = ''authentication-lifecycle''"
| "capability_text Cap_business_invariant = ''business-invariant''"
| "capability_text Cap_controlled_race = ''controlled-race''"
| "capability_text Cap_api_graphql_authorization = ''api-graphql-authorization''"
| "capability_text Cap_protocol_security = ''protocol-security''"
| "capability_text Cap_link_portal_export_security = ''link-portal-export-security''"
| "capability_text Cap_operational_endpoint_security = ''operational-endpoint-security''"
| "capability_text Cap_billing_entitlement_security = ''billing-entitlement-security''"
| "capability_text Cap_secret_boundary = ''secret-boundary''"
| "capability_text Cap_equivalent_route = ''equivalent-route''"
| "capability_text Cap_headers = ''headers''"
| "capability_text Cap_cookies = ''cookies''"
| "capability_text Cap_cors = ''cors''"
| "capability_text Cap_methods = ''methods''"
| "capability_text Cap_exposure = ''exposure''"
| "capability_text Cap_nextjs = ''nextjs''"
| "capability_text Cap_workflow = ''workflow''"
| "capability_text Cap_active_vulnerability_validation = ''active-vulnerability-validation''"
| "capability_text Cap_proof = ''proof''"

datatype plugin_phase = PhBaseline | PhFingerprint | PhIntelligence | PhDiscovery | PhAnalysis
datatype module_cost = CostLow | CostMedium | CostHigh
datatype module_readiness = ReadinessProduction | ReadinessExperimental
datatype authentication_level = LevelNone | LevelSingleProfile | LevelAccountPair

text \<open>
  A settings object is the list of its own keys with their values, in the order of \<^verbatim>\<open>Object.keys\<close>;
  \<open>spread\<close> is \<^verbatim>\<open>{ ...a, ...b }\<close>: a key of \<open>b\<close> replaces the value in place, new keys go last.
\<close>

datatype setting = SNum jsnum | SBool bool | SStr string | SStrs "string list"

type_synonym module_settings = "(string \<times> setting) list"

definition spread :: "('k \<times> 'v) list \<Rightarrow> ('k \<times> 'v) list \<Rightarrow> ('k \<times> 'v) list" where
  "spread a b =
     map (\<lambda>(k, v). (k, case map_of (rev b) k of None \<Rightarrow> v | Some w \<Rightarrow> w)) a @ filter (\<lambda>(k, _). k \<notin> fst ` set a) b"

record module_metadata =
  mm_id :: module_id
  mm_displayName :: string
  mm_description :: string
  mm_phase :: plugin_phase
  mm_capabilities :: "module_capability list"
  mm_requiresAuthentication :: authentication_level
  mm_monitoringCompatible :: bool
  mm_supportsEvidence :: bool
  mm_dependencies :: "module_id list"
  mm_orderAfter :: "module_id list"
  mm_cost :: module_cost
  mm_readiness :: module_readiness
  mm_defaultSettings :: module_settings
  mm_supportedSettings :: "string list"

section \<open>The catalog\<close>

text \<open>Each entry spreads \<^verbatim>\<open>defaults\<close> first: no dependencies, no predecessors, no settings, readiness
  \<open>ReadinessProduction\<close>.\<close>

definition catalog_assisted_review :: module_metadata where
  "catalog_assisted_review =
    \<lparr>mm_id = M_assisted_review, mm_displayName = ''Assisted Trust & Security Review'',
     mm_description = ''Aggregates explicit review cases, coverage, evidence, human review, and completion gates.'',
     mm_phase = PhAnalysis, mm_capabilities = [Cap_assisted_review], mm_requiresAuthentication = LevelNone,
     mm_monitoringCompatible = False, mm_supportsEvidence = True, mm_dependencies = [],
     mm_orderAfter = [M_baseline, M_browser_crawler, M_object_pair_testing, M_field_exposure_testing,
        M_authorization_matrix_testing, M_equivalent_route_testing, M_collection_authorization_testing,
        M_bulk_authorization_testing, M_file_authorization_testing, M_privilege_mutation_testing,
        M_supabase_authorization, M_authentication_lifecycle, M_business_invariant, M_controlled_race,
        M_api_graphql_authorization, M_link_portal_export_security, M_operational_endpoint_security,
        M_billing_entitlement_security, M_secret_boundary, M_proof_mode],
     mm_cost = CostLow, mm_readiness = ReadinessProduction, mm_defaultSettings = [], mm_supportedSettings = []\<rparr>"

definition catalog_baseline :: module_metadata where
  "catalog_baseline =
    \<lparr>mm_id = M_baseline, mm_displayName = ''Baseline Detector'',
     mm_description = ''Soft-404 and wildcard baseline probes.'', mm_phase = PhBaseline,
     mm_capabilities = [Cap_baseline], mm_requiresAuthentication = LevelNone, mm_monitoringCompatible = True,
     mm_supportsEvidence = True, mm_dependencies = [], mm_orderAfter = [], mm_cost = CostLow,
     mm_readiness = ReadinessProduction, mm_defaultSettings = [], mm_supportedSettings = []\<rparr>"

definition catalog_tech_fingerprint :: module_metadata where
  "catalog_tech_fingerprint =
    \<lparr>mm_id = M_tech_fingerprint, mm_displayName = ''Technology Fingerprint'',
     mm_description = ''Classifies technologies from collected responses.'', mm_phase = PhFingerprint,
     mm_capabilities = [Cap_fingerprint], mm_requiresAuthentication = LevelNone, mm_monitoringCompatible = True,
     mm_supportsEvidence = True, mm_dependencies = [M_baseline], mm_orderAfter = [], mm_cost = CostLow,
     mm_readiness = ReadinessProduction, mm_defaultSettings = [], mm_supportedSettings = []\<rparr>"

definition catalog_js_intelligence :: module_metadata where
  "catalog_js_intelligence =
    \<lparr>mm_id = M_js_intelligence, mm_displayName = ''JavaScript Intelligence'',
     mm_description = ''Downloads same-origin JavaScript and extracts routes/config signals.'',
     mm_phase = PhIntelligence, mm_capabilities = [Cap_javascript, Cap_discovery], mm_requiresAuthentication = LevelNone,
     mm_monitoringCompatible = False, mm_supportsEvidence = True, mm_dependencies = [M_baseline], mm_orderAfter = [],
     mm_cost = CostMedium, mm_readiness = ReadinessProduction, mm_defaultSettings = [], mm_supportedSettings = []\<rparr>"

definition catalog_browser_crawler :: module_metadata where
  "catalog_browser_crawler =
    \<lparr>mm_id = M_browser_crawler, mm_displayName = ''Browser Crawler'',
     mm_description = ''Renders the target with Playwright, including isolated authenticated bootstrap and redacted traffic learning.'',
     mm_phase = PhIntelligence, mm_capabilities = [Cap_browser, Cap_discovery], mm_requiresAuthentication = LevelNone,
     mm_monitoringCompatible = False, mm_supportsEvidence = True, mm_dependencies = [M_baseline], mm_orderAfter = [],
     mm_cost = CostHigh, mm_readiness = ReadinessProduction,
     mm_defaultSettings = [(''browserMaxPages'', SNum (jsint 3)), (''browserMaxLinksPerPage'', SNum (jsint 25)),
        (''browserMaxPolicyEvents'', SNum (jsint 200)), (''browserMaxRequestsPerPage'', SNum (jsint 80)),
        (''browserBlockThirdParty'', SBool True), (''browserAllowedResourceTypes'', SStrs [''document'', ''stylesheet'',
        ''script'', ''xhr'', ''fetch'', ''manifest'']), (''browserCaptureScreenshot'', SBool True),
        (''browserAllowPopups'', SBool False), (''browserAllowDownloads'', SBool False), (''browserAllowUploads'', SBool
        False), (''browserAllowServiceWorkers'', SBool False), (''browserAllowWebSockets'', SBool False),
        (''browserAllowPrivateNetwork'', SBool False), (''browserAllowedPrivateOrigins'', SStrs []),
        (''browserAllowedThirdPartyOrigins'', SStrs [])],
     mm_supportedSettings = [''browserMaxPages'', ''browserMaxLinksPerPage'', ''browserMaxPolicyEvents'',
        ''browserMaxRequestsPerPage'', ''browserBlockThirdParty'', ''browserAllowedResourceTypes'',
        ''browserCaptureScreenshot'', ''browserAllowPopups'', ''browserAllowDownloads'', ''browserAllowUploads'',
        ''browserAllowServiceWorkers'', ''browserAllowWebSockets'', ''browserAllowPrivateNetwork'',
        ''browserAllowedPrivateOrigins'', ''browserAllowedThirdPartyOrigins'']\<rparr>"

definition catalog_path_discovery :: module_metadata where
  "catalog_path_discovery =
    \<lparr>mm_id = M_path_discovery, mm_displayName = ''Path Discovery'',
     mm_description = ''Checks configured path sources and queued candidates.'', mm_phase = PhDiscovery,
     mm_capabilities = [Cap_discovery], mm_requiresAuthentication = LevelNone, mm_monitoringCompatible = True,
     mm_supportsEvidence = True, mm_dependencies = [M_baseline],
     mm_orderAfter = [M_js_intelligence, M_browser_crawler, M_tech_fingerprint], mm_cost = CostMedium,
     mm_readiness = ReadinessProduction,
     mm_defaultSettings = [(''pathSources'', SStrs [''wordlist:common'', ''wordlist:admin'', ''wordlist:api''])],
     mm_supportedSettings = [''pathSources'']\<rparr>"

definition catalog_api_mapper :: module_metadata where
  "catalog_api_mapper =
    \<lparr>mm_id = M_api_mapper, mm_displayName = ''API Mapper'', mm_description = ''Classifies discovered API endpoints.'',
     mm_phase = PhAnalysis, mm_capabilities = [Cap_api], mm_requiresAuthentication = LevelNone,
     mm_monitoringCompatible = True, mm_supportsEvidence = True, mm_dependencies = [], mm_orderAfter = [],
     mm_cost = CostLow, mm_readiness = ReadinessProduction, mm_defaultSettings = [], mm_supportedSettings = []\<rparr>"

definition catalog_api_probe :: module_metadata where
  "catalog_api_probe =
    \<lparr>mm_id = M_api_probe, mm_displayName = ''API Probe'',
     mm_description = ''Safely probes API behavior with GET, HEAD, and OPTIONS.'', mm_phase = PhAnalysis,
     mm_capabilities = [Cap_api], mm_requiresAuthentication = LevelNone, mm_monitoringCompatible = True,
     mm_supportsEvidence = True, mm_dependencies = [M_api_mapper], mm_orderAfter = [], mm_cost = CostMedium,
     mm_readiness = ReadinessProduction,
     mm_defaultSettings = [(''maxEndpoints'', SNum (jsint 40)), (''safeMethods'', SStrs [''OPTIONS'', ''HEAD'', ''GET''])],
     mm_supportedSettings = [''maxEndpoints'', ''safeMethods'']\<rparr>"

definition catalog_auth_surface :: module_metadata where
  "catalog_auth_surface =
    \<lparr>mm_id = M_auth_surface, mm_displayName = ''Auth Surface'',
     mm_description = ''Detects login, registration, reset, and session routes.'', mm_phase = PhAnalysis,
     mm_capabilities = [Cap_auth_surface], mm_requiresAuthentication = LevelNone, mm_monitoringCompatible = True,
     mm_supportsEvidence = True, mm_dependencies = [M_api_mapper], mm_orderAfter = [], mm_cost = CostLow,
     mm_readiness = ReadinessProduction, mm_defaultSettings = [], mm_supportedSettings = []\<rparr>"

definition catalog_parameter_analysis :: module_metadata where
  "catalog_parameter_analysis =
    \<lparr>mm_id = M_parameter_analysis, mm_displayName = ''Parameter Analysis'',
     mm_description = ''Classifies URL and API parameters.'', mm_phase = PhAnalysis, mm_capabilities = [Cap_api],
     mm_requiresAuthentication = LevelNone, mm_monitoringCompatible = True, mm_supportsEvidence = True,
     mm_dependencies = [M_api_mapper], mm_orderAfter = [], mm_cost = CostLow, mm_readiness = ReadinessProduction,
     mm_defaultSettings = [], mm_supportedSettings = []\<rparr>"

definition catalog_nextjs_review :: module_metadata where
  "catalog_nextjs_review =
    \<lparr>mm_id = M_nextjs_review, mm_displayName = ''Next.js Deep Review'',
     mm_description = ''Safely correlates Next.js router metadata, manifests, known data/RSC surfaces, referenced source maps, serialized data, and cache evidence.'',
     mm_phase = PhAnalysis, mm_capabilities = [Cap_nextjs], mm_requiresAuthentication = LevelNone,
     mm_monitoringCompatible = False, mm_supportsEvidence = True, mm_dependencies = [M_tech_fingerprint],
     mm_orderAfter = [], mm_cost = CostMedium, mm_readiness = ReadinessProduction,
     mm_defaultSettings = [(''maxNextJsManifestRequests'', SNum (jsint 4)), (''maxNextJsDataSurfaceRequests'', SNum
        (jsint 8)), (''maxNextJsSourceMapRequests'', SNum (jsint 4)), (''maxNextJsCacheDifferentialRequests'', SNum
        (jsint 0)), (''maxNextJsAssetsInspected'', SNum (jsint 50)), (''maxNextJsRoutesProcessed'', SNum (jsint 200)),
        (''inspectNextJsSourceMaps'', SBool True), (''inspectKnownNextJsDataSurfaces'', SBool True),
        (''nextJsCacheReviewMode'', SStr ''PASSIVE_CACHE_REVIEW'')],
     mm_supportedSettings = [''maxDataRoutes'', ''maxNextJsManifestRequests'', ''maxNextJsDataSurfaceRequests'',
        ''maxNextJsSourceMapRequests'', ''maxNextJsCacheDifferentialRequests'', ''maxNextJsAssetsInspected'',
        ''maxNextJsRoutesProcessed'', ''inspectNextJsSourceMaps'', ''inspectKnownNextJsDataSurfaces'',
        ''nextJsCacheReviewMode'']\<rparr>"

definition catalog_vulnerability_workflows :: module_metadata where
  "catalog_vulnerability_workflows =
    \<lparr>mm_id = M_vulnerability_workflows, mm_displayName = ''Vulnerability Workflows'',
     mm_description = ''Builds manual verification workflow candidates.'', mm_phase = PhAnalysis,
     mm_capabilities = [Cap_workflow], mm_requiresAuthentication = LevelNone, mm_monitoringCompatible = True,
     mm_supportsEvidence = True, mm_dependencies = [M_api_mapper, M_auth_surface, M_parameter_analysis],
     mm_orderAfter = [], mm_cost = CostLow, mm_readiness = ReadinessProduction, mm_defaultSettings = [],
     mm_supportedSettings = []\<rparr>"

definition catalog_active_vulnerability_validation :: module_metadata where
  "catalog_active_vulnerability_validation =
    \<lparr>mm_id = M_active_vulnerability_validation, mm_displayName = ''Active Vulnerability Validation'',
     mm_description = ''Executes bounded automated injection, browser, callback, cache, and parser proof cases.'',
     mm_phase = PhAnalysis, mm_capabilities = [Cap_active_vulnerability_validation],
     mm_requiresAuthentication = LevelNone, mm_monitoringCompatible = False, mm_supportsEvidence = True,
     mm_dependencies = [M_parameter_analysis], mm_orderAfter = [M_vulnerability_workflows], mm_cost = CostHigh,
     mm_readiness = ReadinessProduction, mm_defaultSettings = [], mm_supportedSettings = []\<rparr>"

definition catalog_workflow_validation :: module_metadata where
  "catalog_workflow_validation =
    \<lparr>mm_id = M_workflow_validation, mm_displayName = ''Workflow Validation'',
     mm_description = ''Creates safe evidence templates.'', mm_phase = PhAnalysis, mm_capabilities = [Cap_workflow],
     mm_requiresAuthentication = LevelNone, mm_monitoringCompatible = False, mm_supportsEvidence = True,
     mm_dependencies = [M_vulnerability_workflows], mm_orderAfter = [], mm_cost = CostLow,
     mm_readiness = ReadinessProduction, mm_defaultSettings = [], mm_supportedSettings = []\<rparr>"

definition catalog_authenticated_testing :: module_metadata where
  "catalog_authenticated_testing =
    \<lparr>mm_id = M_authenticated_testing, mm_displayName = ''Authenticated Testing'',
     mm_description = ''Compares anonymous and authenticated responses.'', mm_phase = PhAnalysis,
     mm_capabilities = [Cap_auth_comparison], mm_requiresAuthentication = LevelSingleProfile,
     mm_monitoringCompatible = False, mm_supportsEvidence = True, mm_dependencies = [M_auth_surface], mm_orderAfter = [],
     mm_cost = CostMedium, mm_readiness = ReadinessProduction,
     mm_defaultSettings = [(''maxComparisons'', SNum (jsint 40))], mm_supportedSettings = [''maxComparisons'']\<rparr>"

definition catalog_role_comparison :: module_metadata where
  "catalog_role_comparison =
    \<lparr>mm_id = M_role_comparison, mm_displayName = ''Role Comparison'',
     mm_description = ''Compares anonymous, Account A, and Account B access.'', mm_phase = PhAnalysis,
     mm_capabilities = [Cap_role_comparison], mm_requiresAuthentication = LevelAccountPair,
     mm_monitoringCompatible = False, mm_supportsEvidence = True, mm_dependencies = [M_authenticated_testing],
     mm_orderAfter = [], mm_cost = CostMedium, mm_readiness = ReadinessProduction,
     mm_defaultSettings = [(''maxComparisons'', SNum (jsint 40))], mm_supportedSettings = [''maxComparisons'']\<rparr>"

definition catalog_state_aware_api :: module_metadata where
  "catalog_state_aware_api =
    \<lparr>mm_id = M_state_aware_api, mm_displayName = ''State-Aware API'',
     mm_description = ''Safely reviews API access-control behavior with non-mutating methods.'', mm_phase = PhAnalysis,
     mm_capabilities = [Cap_state_aware_api], mm_requiresAuthentication = LevelNone, mm_monitoringCompatible = False,
     mm_supportsEvidence = True, mm_dependencies = [M_api_mapper], mm_orderAfter = [], mm_cost = CostMedium,
     mm_readiness = ReadinessProduction, mm_defaultSettings = [(''maxEndpointReviews'', SNum (jsint 30))],
     mm_supportedSettings = [''maxEndpointReviews'']\<rparr>"

definition catalog_object_pair_testing :: module_metadata where
  "catalog_object_pair_testing =
    \<lparr>mm_id = M_object_pair_testing, mm_displayName = ''Object Pair Testing'',
     mm_description = ''Verifies supplied Account A/Account B object pairs with a fixed read-only request matrix.'',
     mm_phase = PhAnalysis, mm_capabilities = [Cap_object_pair, Cap_auth_comparison],
     mm_requiresAuthentication = LevelAccountPair, mm_monitoringCompatible = False, mm_supportsEvidence = True,
     mm_dependencies = [], mm_orderAfter = [], mm_cost = CostMedium, mm_readiness = ReadinessProduction,
     mm_defaultSettings = [(''maxObjectPairs'', SNum (jsint 5))], mm_supportedSettings = [''maxObjectPairs'']\<rparr>"

definition catalog_field_exposure_testing :: module_metadata where
  "catalog_field_exposure_testing =
    \<lparr>mm_id = M_field_exposure_testing, mm_displayName = ''Field Exposure Testing'',
     mm_description = ''Verifies explicitly supplied field-visibility expectations for one supplied object across declared principals.'',
     mm_phase = PhAnalysis, mm_capabilities = [Cap_field_exposure, Cap_auth_comparison],
     mm_requiresAuthentication = LevelAccountPair, mm_monitoringCompatible = False, mm_supportsEvidence = True,
     mm_dependencies = [], mm_orderAfter = [], mm_cost = CostMedium, mm_readiness = ReadinessProduction,
     mm_defaultSettings = [(''maxFieldExposureCases'', SNum (jsint 5)), (''maxFieldExposureFields'', SNum (jsint 20))],
     mm_supportedSettings = [''maxFieldExposureCases'', ''maxFieldExposureFields'']\<rparr>"

definition catalog_authorization_matrix_testing :: module_metadata where
  "catalog_authorization_matrix_testing =
    \<lparr>mm_id = M_authorization_matrix_testing, mm_displayName = ''Authorization Matrix Testing'',
     mm_description = ''Verifies explicitly supplied role, tenant, account-state, and object-state authorization matrix cells.'',
     mm_phase = PhAnalysis, mm_capabilities = [Cap_authorization_matrix, Cap_auth_comparison],
     mm_requiresAuthentication = LevelAccountPair, mm_monitoringCompatible = False, mm_supportsEvidence = True,
     mm_dependencies = [], mm_orderAfter = [], mm_cost = CostMedium, mm_readiness = ReadinessProduction,
     mm_defaultSettings = [(''maxAuthorizationMatrixCases'', SNum (jsint 20))],
     mm_supportedSettings = [''maxAuthorizationMatrixCases'']\<rparr>"

definition catalog_equivalent_route_testing :: module_metadata where
  "catalog_equivalent_route_testing =
    \<lparr>mm_id = M_equivalent_route_testing, mm_displayName = ''Equivalent Route Testing'',
     mm_description = ''Verifies explicitly supplied equivalent routes enforce the same configured authorization boundary.'',
     mm_phase = PhAnalysis, mm_capabilities = [Cap_equivalent_route, Cap_auth_comparison],
     mm_requiresAuthentication = LevelAccountPair, mm_monitoringCompatible = False, mm_supportsEvidence = True,
     mm_dependencies = [], mm_orderAfter = [], mm_cost = CostMedium, mm_readiness = ReadinessProduction,
     mm_defaultSettings = [(''maxEquivalentRouteSets'', SNum (jsint 5)), (''maxEquivalentRouteCells'', SNum (jsint 40))],
     mm_supportedSettings = [''maxEquivalentRouteSets'', ''maxEquivalentRouteCells'']\<rparr>"

definition catalog_collection_authorization_testing :: module_metadata where
  "catalog_collection_authorization_testing =
    \<lparr>mm_id = M_collection_authorization_testing, mm_displayName = ''Collection Authorization Testing'',
     mm_description = ''Verifies explicitly supplied collection/list/search/count/summary authorization membership cases.'',
     mm_phase = PhAnalysis, mm_capabilities = [Cap_collection_authorization, Cap_auth_comparison],
     mm_requiresAuthentication = LevelAccountPair, mm_monitoringCompatible = False, mm_supportsEvidence = True,
     mm_dependencies = [], mm_orderAfter = [], mm_cost = CostMedium, mm_readiness = ReadinessProduction,
     mm_defaultSettings = [(''maxCollectionAuthorizationCollections'', SNum (jsint 3)),
        (''maxCollectionAuthorizationCases'', SNum (jsint 20))],
     mm_supportedSettings = [''maxCollectionAuthorizationCollections'', ''maxCollectionAuthorizationCases'']\<rparr>"

definition catalog_bulk_authorization_testing :: module_metadata where
  "catalog_bulk_authorization_testing =
    \<lparr>mm_id = M_bulk_authorization_testing, mm_displayName = ''Bulk Authorization Testing'',
     mm_description = ''Verifies explicitly supplied non-mutating bulk preview, validation, dry-run, and summary authorization cases.'',
     mm_phase = PhAnalysis, mm_capabilities = [Cap_bulk_authorization, Cap_auth_comparison],
     mm_requiresAuthentication = LevelAccountPair, mm_monitoringCompatible = False, mm_supportsEvidence = True,
     mm_dependencies = [], mm_orderAfter = [], mm_cost = CostMedium, mm_readiness = ReadinessProduction,
     mm_defaultSettings = [(''maxBulkAuthorizationCases'', SNum (jsint 10))],
     mm_supportedSettings = [''maxBulkAuthorizationCases'']\<rparr>"

definition catalog_file_authorization_testing :: module_metadata where
  "catalog_file_authorization_testing =
    \<lparr>mm_id = M_file_authorization_testing, mm_displayName = ''File Authorization Testing'',
     mm_description = ''Verifies explicitly supplied metadata, preview, content, and signed URL file authorization cases.'',
     mm_phase = PhAnalysis, mm_capabilities = [Cap_file_authorization, Cap_auth_comparison],
     mm_requiresAuthentication = LevelAccountPair, mm_monitoringCompatible = False, mm_supportsEvidence = True,
     mm_dependencies = [], mm_orderAfter = [], mm_cost = CostMedium, mm_readiness = ReadinessProduction,
     mm_defaultSettings = [(''maxFileAuthorizationCases'', SNum (jsint 10))],
     mm_supportedSettings = [''maxFileAuthorizationCases'']\<rparr>"

definition catalog_privilege_mutation_testing :: module_metadata where
  "catalog_privilege_mutation_testing =
    \<lparr>mm_id = M_privilege_mutation_testing, mm_displayName = ''Privilege Mutation Testing'',
     mm_description = ''Executes explicitly authorized authority-boundary mutation cases with mandatory rollback verification.'',
     mm_phase = PhAnalysis, mm_capabilities = [Cap_controlled_mutation], mm_requiresAuthentication = LevelSingleProfile,
     mm_monitoringCompatible = False, mm_supportsEvidence = True, mm_dependencies = [], mm_orderAfter = [],
     mm_cost = CostHigh, mm_readiness = ReadinessProduction, mm_defaultSettings = [], mm_supportedSettings = []\<rparr>"

definition catalog_supabase_authorization :: module_metadata where
  "catalog_supabase_authorization =
    \<lparr>mm_id = M_supabase_authorization, mm_displayName = ''Supabase Authorization'',
     mm_description = ''Verifies explicit PostgREST/RLS, storage, signed URL, RPC, relationship, Account A/B, and service-role boundaries.'',
     mm_phase = PhAnalysis,
     mm_capabilities = [Cap_supabase_authorization, Cap_authorization_matrix, Cap_controlled_mutation],
     mm_requiresAuthentication = LevelNone, mm_monitoringCompatible = False, mm_supportsEvidence = True,
     mm_dependencies = [], mm_orderAfter = [], mm_cost = CostHigh, mm_readiness = ReadinessProduction,
     mm_defaultSettings = [], mm_supportedSettings = []\<rparr>"

definition catalog_authentication_lifecycle :: module_metadata where
  "catalog_authentication_lifecycle =
    \<lparr>mm_id = M_authentication_lifecycle, mm_displayName = ''Authentication Lifecycle'',
     mm_description = ''Verifies explicit login, session, reset, OAuth, MFA, passkey, recovery, invitation, and disabled-user lifecycle contracts.'',
     mm_phase = PhAnalysis, mm_capabilities = [Cap_authentication_lifecycle, Cap_controlled_mutation],
     mm_requiresAuthentication = LevelNone, mm_monitoringCompatible = False, mm_supportsEvidence = True,
     mm_dependencies = [], mm_orderAfter = [M_browser_crawler], mm_cost = CostHigh, mm_readiness = ReadinessProduction,
     mm_defaultSettings = [], mm_supportedSettings = []\<rparr>"

definition catalog_business_invariant :: module_metadata where
  "catalog_business_invariant =
    \<lparr>mm_id = M_business_invariant, mm_displayName = ''Business Invariant Validation'',
     mm_description = ''Verifies explicit multi-step business rules with authoritative pre/post state, bounded concurrency, and cleanup.'',
     mm_phase = PhAnalysis, mm_capabilities = [Cap_business_invariant, Cap_controlled_mutation],
     mm_requiresAuthentication = LevelNone, mm_monitoringCompatible = False, mm_supportsEvidence = True,
     mm_dependencies = [], mm_orderAfter = [], mm_cost = CostHigh, mm_readiness = ReadinessProduction,
     mm_defaultSettings = [], mm_supportedSettings = []\<rparr>"

definition catalog_controlled_race :: module_metadata where
  "catalog_controlled_race =
    \<lparr>mm_id = M_controlled_race, mm_displayName = ''Controlled Race Testing'',
     mm_description = ''Tests explicit 2-5 request application races with a synchronization barrier, authoritative state verification, and cleanup.'',
     mm_phase = PhAnalysis, mm_capabilities = [Cap_controlled_race, Cap_controlled_mutation],
     mm_requiresAuthentication = LevelNone, mm_monitoringCompatible = False, mm_supportsEvidence = True,
     mm_dependencies = [], mm_orderAfter = [], mm_cost = CostHigh, mm_readiness = ReadinessProduction,
     mm_defaultSettings = [], mm_supportedSettings = []\<rparr>"

definition catalog_api_graphql_authorization :: module_metadata where
  "catalog_api_graphql_authorization =
    \<lparr>mm_id = M_api_graphql_authorization, mm_displayName = ''API and GraphQL Authorization'',
     mm_description = ''Verifies explicit REST and GraphQL object, function, field, tenant, method, schema, limit, and version contracts.'',
     mm_phase = PhAnalysis, mm_capabilities = [Cap_api_graphql_authorization, Cap_api],
     mm_requiresAuthentication = LevelNone, mm_monitoringCompatible = False, mm_supportsEvidence = True,
     mm_dependencies = [], mm_orderAfter = [], mm_cost = CostHigh, mm_readiness = ReadinessProduction,
     mm_defaultSettings = [], mm_supportedSettings = []\<rparr>"

definition catalog_protocol_security :: module_metadata where
  "catalog_protocol_security =
    \<lparr>mm_id = M_protocol_security, mm_displayName = ''Protocol-Level Security'',
     mm_description = ''Validates bounded WebSocket, SSE, GraphQL mutation/subscription, gRPC, multipart, HTTP/2, and HTTP/3 contracts.'',
     mm_phase = PhAnalysis, mm_capabilities = [Cap_protocol_security, Cap_api, Cap_controlled_mutation],
     mm_requiresAuthentication = LevelNone, mm_monitoringCompatible = False, mm_supportsEvidence = True,
     mm_dependencies = [], mm_orderAfter = [], mm_cost = CostHigh, mm_readiness = ReadinessProduction,
     mm_defaultSettings = [], mm_supportedSettings = []\<rparr>"

definition catalog_link_portal_export_security :: module_metadata where
  "catalog_link_portal_export_security =
    \<lparr>mm_id = M_link_portal_export_security, mm_displayName = ''Signed Link, Portal, Invite, and Export Security'',
     mm_description = ''Verifies explicit signed-link, invitation, portal, export, evidence-artifact, and object-path contracts with controlled lifecycle cleanup.'',
     mm_phase = PhAnalysis, mm_capabilities = [Cap_link_portal_export_security, Cap_controlled_mutation],
     mm_requiresAuthentication = LevelNone, mm_monitoringCompatible = False, mm_supportsEvidence = True,
     mm_dependencies = [], mm_orderAfter = [], mm_cost = CostHigh, mm_readiness = ReadinessProduction,
     mm_defaultSettings = [], mm_supportedSettings = []\<rparr>"

definition catalog_operational_endpoint_security :: module_metadata where
  "catalog_operational_endpoint_security =
    \<lparr>mm_id = M_operational_endpoint_security, mm_displayName = ''Webhook, Cron, and Operational Endpoint Security'',
     mm_description = ''Validates explicit webhook signatures and lifecycle effects plus cron, job, incident, health, admin, and worker endpoint boundaries.'',
     mm_phase = PhAnalysis, mm_capabilities = [Cap_operational_endpoint_security, Cap_controlled_mutation],
     mm_requiresAuthentication = LevelNone, mm_monitoringCompatible = False, mm_supportsEvidence = True,
     mm_dependencies = [], mm_orderAfter = [], mm_cost = CostHigh, mm_readiness = ReadinessProduction,
     mm_defaultSettings = [], mm_supportedSettings = []\<rparr>"

definition catalog_billing_entitlement_security :: module_metadata where
  "catalog_billing_entitlement_security =
    \<lparr>mm_id = M_billing_entitlement_security, mm_displayName = ''Checkout, Billing, Entitlement, and Premium Security'',
     mm_description = ''Validates explicit synthetic checkout, payment-event, subscription, entitlement, and premium-access contracts without real payment execution.'',
     mm_phase = PhAnalysis,
     mm_capabilities = [Cap_billing_entitlement_security, Cap_controlled_mutation, Cap_controlled_race],
     mm_requiresAuthentication = LevelNone, mm_monitoringCompatible = False, mm_supportsEvidence = True,
     mm_dependencies = [], mm_orderAfter = [], mm_cost = CostHigh, mm_readiness = ReadinessProduction,
     mm_defaultSettings = [], mm_supportedSettings = []\<rparr>"

definition catalog_secret_boundary :: module_metadata where
  "catalog_secret_boundary =
    \<lparr>mm_id = M_secret_boundary, mm_displayName = ''Secret Boundary and Sensitive Exposure'',
     mm_description = ''Correlates client-visible responses, bundles, maps, browser storage, cookies, metadata, debug surfaces, GraphQL, and logs while distinguishing publishable keys from privileged credentials.'',
     mm_phase = PhAnalysis, mm_capabilities = [Cap_secret_boundary, Cap_exposure], mm_requiresAuthentication = LevelNone,
     mm_monitoringCompatible = False, mm_supportsEvidence = True, mm_dependencies = [M_baseline],
     mm_orderAfter = [M_js_intelligence, M_browser_crawler, M_nextjs_review, M_api_graphql_authorization,
        M_exposure_review],
     mm_cost = CostMedium, mm_readiness = ReadinessProduction,
     mm_defaultSettings = [(''maxSecretBoundaryObservedResponses'', SNum (jsint 250)),
        (''maxSecretBoundaryAdditionalRequests'', SNum (jsint 12)), (''maxSecretBoundarySourceMaps'', SNum (jsint 4)),
        (''maxSecretBoundaryCandidatesPerSource'', SNum (jsint 100)), (''maxSecretBoundaryCandidates'', SNum (jsint
        1000)), (''maxSecretBoundaryAnalysisBytes'', SNum (jsint 262144)), (''inspectSecretBoundarySourceMaps'', SBool
        True), (''secretBoundaryProbePaths'', SStrs [''/config.json'', ''/runtime-config.js'', ''/env.js'',
        ''/asset-manifest.json'', ''/build-info.json'', ''/api/config'', ''/debug'', ''/debug/config'', ''/debug.log'',
        ''/error.log'', ''/server.log'', ''/graphql''])],
     mm_supportedSettings = [''maxSecretBoundaryObservedResponses'', ''maxSecretBoundaryAdditionalRequests'',
        ''maxSecretBoundarySourceMaps'', ''maxSecretBoundaryCandidatesPerSource'', ''maxSecretBoundaryCandidates'',
        ''maxSecretBoundaryAnalysisBytes'', ''inspectSecretBoundarySourceMaps'', ''secretBoundaryProbePaths'']\<rparr>"

definition catalog_header_review :: module_metadata where
  "catalog_header_review =
    \<lparr>mm_id = M_header_review, mm_displayName = ''Header Review'', mm_description = ''Reviews security headers.'',
     mm_phase = PhAnalysis, mm_capabilities = [Cap_headers], mm_requiresAuthentication = LevelNone,
     mm_monitoringCompatible = False, mm_supportsEvidence = True, mm_dependencies = [M_baseline], mm_orderAfter = [],
     mm_cost = CostLow, mm_readiness = ReadinessProduction, mm_defaultSettings = [], mm_supportedSettings = []\<rparr>"

definition catalog_cookie_review :: module_metadata where
  "catalog_cookie_review =
    \<lparr>mm_id = M_cookie_review, mm_displayName = ''Cookie Review'', mm_description = ''Reviews Set-Cookie attributes.'',
     mm_phase = PhAnalysis, mm_capabilities = [Cap_cookies], mm_requiresAuthentication = LevelNone,
     mm_monitoringCompatible = False, mm_supportsEvidence = True, mm_dependencies = [M_baseline], mm_orderAfter = [],
     mm_cost = CostLow, mm_readiness = ReadinessProduction, mm_defaultSettings = [], mm_supportedSettings = []\<rparr>"

definition catalog_cors_review :: module_metadata where
  "catalog_cors_review =
    \<lparr>mm_id = M_cors_review, mm_displayName = ''CORS Review'',
     mm_description = ''Reviews CORS behavior with controlled safe requests.'', mm_phase = PhAnalysis,
     mm_capabilities = [Cap_cors], mm_requiresAuthentication = LevelNone, mm_monitoringCompatible = False,
     mm_supportsEvidence = True, mm_dependencies = [M_baseline], mm_orderAfter = [], mm_cost = CostLow,
     mm_readiness = ReadinessProduction, mm_defaultSettings = [], mm_supportedSettings = []\<rparr>"

definition catalog_method_review :: module_metadata where
  "catalog_method_review =
    \<lparr>mm_id = M_method_review, mm_displayName = ''Method Review'',
     mm_description = ''Checks advertised HTTP methods through safe OPTIONS requests.'', mm_phase = PhAnalysis,
     mm_capabilities = [Cap_methods], mm_requiresAuthentication = LevelNone, mm_monitoringCompatible = False,
     mm_supportsEvidence = True, mm_dependencies = [M_baseline], mm_orderAfter = [], mm_cost = CostLow,
     mm_readiness = ReadinessProduction, mm_defaultSettings = [], mm_supportedSettings = []\<rparr>"

definition catalog_exposure_review :: module_metadata where
  "catalog_exposure_review =
    \<lparr>mm_id = M_exposure_review, mm_displayName = ''Exposure Review'',
     mm_description = ''Checks sensitive files, backups, debug paths, and source maps.'', mm_phase = PhAnalysis,
     mm_capabilities = [Cap_exposure], mm_requiresAuthentication = LevelNone, mm_monitoringCompatible = False,
     mm_supportsEvidence = True, mm_dependencies = [M_baseline], mm_orderAfter = [], mm_cost = CostMedium,
     mm_readiness = ReadinessProduction, mm_defaultSettings = [], mm_supportedSettings = []\<rparr>"

definition catalog_proof_mode :: module_metadata where
  "catalog_proof_mode =
    \<lparr>mm_id = M_proof_mode, mm_displayName = ''Proof Mode'',
     mm_description = ''Re-tests selected targets and creates reproducible proof blocks.'', mm_phase = PhAnalysis,
     mm_capabilities = [Cap_proof], mm_requiresAuthentication = LevelNone, mm_monitoringCompatible = False,
     mm_supportsEvidence = True, mm_dependencies = [M_vulnerability_workflows], mm_orderAfter = [M_state_aware_api],
     mm_cost = CostMedium, mm_readiness = ReadinessProduction,
     mm_defaultSettings = [(''enabled'', SBool False), (''maxProofTargets'', SNum (jsint 12))],
     mm_supportedSettings = [''enabled'', ''maxProofTargets'']\<rparr>"

fun moduleCatalog :: "module_id \<Rightarrow> module_metadata" where
  "moduleCatalog M_baseline = catalog_baseline"
| "moduleCatalog M_tech_fingerprint = catalog_tech_fingerprint"
| "moduleCatalog M_js_intelligence = catalog_js_intelligence"
| "moduleCatalog M_browser_crawler = catalog_browser_crawler"
| "moduleCatalog M_path_discovery = catalog_path_discovery"
| "moduleCatalog M_api_mapper = catalog_api_mapper"
| "moduleCatalog M_api_probe = catalog_api_probe"
| "moduleCatalog M_auth_surface = catalog_auth_surface"
| "moduleCatalog M_parameter_analysis = catalog_parameter_analysis"
| "moduleCatalog M_nextjs_review = catalog_nextjs_review"
| "moduleCatalog M_vulnerability_workflows = catalog_vulnerability_workflows"
| "moduleCatalog M_active_vulnerability_validation = catalog_active_vulnerability_validation"
| "moduleCatalog M_workflow_validation = catalog_workflow_validation"
| "moduleCatalog M_authenticated_testing = catalog_authenticated_testing"
| "moduleCatalog M_role_comparison = catalog_role_comparison"
| "moduleCatalog M_state_aware_api = catalog_state_aware_api"
| "moduleCatalog M_object_pair_testing = catalog_object_pair_testing"
| "moduleCatalog M_field_exposure_testing = catalog_field_exposure_testing"
| "moduleCatalog M_authorization_matrix_testing = catalog_authorization_matrix_testing"
| "moduleCatalog M_collection_authorization_testing = catalog_collection_authorization_testing"
| "moduleCatalog M_bulk_authorization_testing = catalog_bulk_authorization_testing"
| "moduleCatalog M_file_authorization_testing = catalog_file_authorization_testing"
| "moduleCatalog M_privilege_mutation_testing = catalog_privilege_mutation_testing"
| "moduleCatalog M_supabase_authorization = catalog_supabase_authorization"
| "moduleCatalog M_authentication_lifecycle = catalog_authentication_lifecycle"
| "moduleCatalog M_business_invariant = catalog_business_invariant"
| "moduleCatalog M_controlled_race = catalog_controlled_race"
| "moduleCatalog M_api_graphql_authorization = catalog_api_graphql_authorization"
| "moduleCatalog M_protocol_security = catalog_protocol_security"
| "moduleCatalog M_link_portal_export_security = catalog_link_portal_export_security"
| "moduleCatalog M_operational_endpoint_security = catalog_operational_endpoint_security"
| "moduleCatalog M_billing_entitlement_security = catalog_billing_entitlement_security"
| "moduleCatalog M_secret_boundary = catalog_secret_boundary"
| "moduleCatalog M_assisted_review = catalog_assisted_review"
| "moduleCatalog M_equivalent_route_testing = catalog_equivalent_route_testing"
| "moduleCatalog M_header_review = catalog_header_review"
| "moduleCatalog M_cookie_review = catalog_cookie_review"
| "moduleCatalog M_cors_review = catalog_cors_review"
| "moduleCatalog M_method_review = catalog_method_review"
| "moduleCatalog M_exposure_review = catalog_exposure_review"
| "moduleCatalog M_proof_mode = catalog_proof_mode"

definition moduleMetadata :: "module_id \<Rightarrow> module_metadata" where
  "moduleMetadata i = moduleCatalog i"

section \<open>The plugin registry\<close>

text \<open>A registered plugin is known to planning by its name; running it is outside the model.\<close>

record registered_plugin =
  rp_name :: string
  rp_metadata :: module_metadata

type_synonym plugin_registry = "(module_id \<times> registered_plugin) list"

definition new_plugin_registry :: plugin_registry where
  "new_plugin_registry = []"

definition register :: "string \<Rightarrow> module_metadata \<Rightarrow> plugin_registry \<Rightarrow> string + plugin_registry" where
  "register name md reg =
     (if name \<noteq> module_id_text (mm_id md) then Inl ''Plugin name does not match metadata id''
      else if mm_id md \<in> fst ` set reg then Inl ''Plugin already registered''
      else Inr (js_map_set (mm_id md) \<lparr>rp_name = name, rp_metadata = md\<rparr> reg))"

definition registry_get :: "plugin_registry \<Rightarrow> module_id \<Rightarrow> registered_plugin option" where
  "registry_get reg i = map_of reg i"

definition phaseOrder :: "plugin_phase \<Rightarrow> int" where
  "phaseOrder p =
     (if p = PhBaseline then 0 else if p = PhFingerprint then 1 else if p = PhIntelligence then 2
      else if p = PhDiscovery then 3 else 4)"

definition compareMetadata :: "module_metadata \<Rightarrow> module_metadata \<Rightarrow> int" where
  "compareMetadata l r =
     (let phaseDelta = phaseOrder (mm_phase l) - phaseOrder (mm_phase r) in
      if phaseDelta \<noteq> 0 then phaseDelta else locale_compare (module_id_text (mm_id l)) (module_id_text (mm_id r)))"

definition registry_list :: "plugin_registry \<Rightarrow> registered_plugin list" where
  "registry_list reg = sort_by (\<lambda>l r. compareMetadata (rp_metadata l) (rp_metadata r)) (map snd reg)"

text \<open>\<^verbatim>\<open>new DeferredPlugin(moduleMetadata(i), load)\<close> takes its name from the metadata.\<close>

definition deferred_name :: "module_metadata \<Rightarrow> string" where
  "deferred_name md = module_id_text (mm_id md)"

definition default_modules :: "module_id list" where
  "default_modules =
    [M_baseline, M_tech_fingerprint, M_js_intelligence, M_browser_crawler, M_path_discovery, M_api_mapper,
     M_api_probe, M_auth_surface, M_parameter_analysis, M_nextjs_review, M_vulnerability_workflows,
     M_active_vulnerability_validation, M_workflow_validation, M_authenticated_testing, M_role_comparison,
     M_state_aware_api, M_object_pair_testing, M_field_exposure_testing, M_authorization_matrix_testing,
     M_collection_authorization_testing, M_bulk_authorization_testing, M_file_authorization_testing,
     M_equivalent_route_testing, M_privilege_mutation_testing, M_supabase_authorization,
     M_authentication_lifecycle, M_business_invariant, M_controlled_race, M_api_graphql_authorization,
     M_protocol_security, M_link_portal_export_security, M_operational_endpoint_security,
     M_billing_entitlement_security, M_secret_boundary, M_assisted_review, M_header_review, M_cookie_review,
     M_cors_review, M_method_review, M_exposure_review, M_proof_mode]"

fun register_all :: "module_id list \<Rightarrow> plugin_registry \<Rightarrow> string + plugin_registry" where
  "register_all [] reg = Inr reg"
| "register_all (i # is) reg =
     ebind (register (deferred_name (moduleMetadata i)) (moduleMetadata i) reg) (register_all is)"

definition createDefaultPluginRegistry :: "string + plugin_registry" where
  "createDefaultPluginRegistry = register_all default_modules new_plugin_registry"

section \<open>Facts about the catalog\<close>

lemmas catalog_defs =
  catalog_baseline_def catalog_tech_fingerprint_def catalog_js_intelligence_def catalog_browser_crawler_def
  catalog_path_discovery_def catalog_api_mapper_def catalog_api_probe_def catalog_auth_surface_def
  catalog_parameter_analysis_def catalog_nextjs_review_def catalog_vulnerability_workflows_def
  catalog_active_vulnerability_validation_def catalog_workflow_validation_def catalog_authenticated_testing_def
  catalog_role_comparison_def catalog_state_aware_api_def catalog_object_pair_testing_def
  catalog_field_exposure_testing_def catalog_authorization_matrix_testing_def
  catalog_collection_authorization_testing_def catalog_bulk_authorization_testing_def
  catalog_file_authorization_testing_def catalog_privilege_mutation_testing_def
  catalog_supabase_authorization_def catalog_authentication_lifecycle_def catalog_business_invariant_def
  catalog_controlled_race_def catalog_api_graphql_authorization_def catalog_protocol_security_def
  catalog_link_portal_export_security_def catalog_operational_endpoint_security_def
  catalog_billing_entitlement_security_def catalog_secret_boundary_def catalog_assisted_review_def
  catalog_equivalent_route_testing_def catalog_header_review_def catalog_cookie_review_def
  catalog_cors_review_def catalog_method_review_def catalog_exposure_review_def catalog_proof_mode_def

lemma mm_id_catalog [simp]: "mm_id (moduleCatalog i) = i"
  by (cases i) (simp_all add: catalog_defs)

lemma default_modules_complete [simp]: "i \<in> set default_modules"
  by (cases i) (simp_all add: default_modules_def)

lemma default_modules_distinct: "distinct default_modules"
  by (simp add: default_modules_def)

lemma register_all_fresh:
  "distinct is \<Longrightarrow> set is \<inter> fst ` set reg = {} \<Longrightarrow>
     \<exists>reg'. register_all is reg = Inr reg' \<and>
       (\<forall>i. registry_get reg' i =
          (if i \<in> set is then Some \<lparr>rp_name = module_id_text i, rp_metadata = moduleCatalog i\<rparr> else registry_get reg i))"
proof (induction "is" arbitrary: reg)
  case (Cons i rest)
  let ?rp = "\<lparr>rp_name = module_id_text i, rp_metadata = moduleCatalog i\<rparr>"
  have reg: "register (deferred_name (moduleMetadata i)) (moduleMetadata i) reg = Inr (js_map_set i ?rp reg)"
    using Cons.prems(2) by (simp add: register_def deferred_name_def moduleMetadata_def)
  have "set rest \<inter> fst ` set (js_map_set i ?rp reg) = {}" using Cons.prems by (auto simp: keys_js_map_set)
  then obtain reg' where "register_all rest (js_map_set i ?rp reg) = Inr reg'"
    "\<forall>j. registry_get reg' j = (if j \<in> set rest then Some \<lparr>rp_name = module_id_text j, rp_metadata = moduleCatalog j\<rparr>
          else registry_get (js_map_set i ?rp reg) j)"
    using Cons.IH Cons.prems(1) by (meson distinct.simps(2))
  then show ?case using reg by (auto simp: registry_get_def)
qed simp

text \<open>
  Building the default registry succeeds, and it registers every module of the catalog under its own id,
  exactly once: looking up any module gives the catalog's metadata and the module's name.
\<close>

theorem default_registry_complete:
  "\<exists>reg. createDefaultPluginRegistry = Inr reg \<and>
     (\<forall>i. registry_get reg i = Some \<lparr>rp_name = module_id_text i, rp_metadata = moduleMetadata i\<rparr>)"
  using register_all_fresh [OF default_modules_distinct, of new_plugin_registry]
  by (simp add: createDefaultPluginRegistry_def moduleMetadata_def new_plugin_registry_def)

text \<open>A rank that every ordering constraint of the catalog decreases.\<close>

fun module_rank :: "module_id \<Rightarrow> nat" where
  "module_rank M_baseline = 0"
| "module_rank M_tech_fingerprint = 1"
| "module_rank M_js_intelligence = 1"
| "module_rank M_browser_crawler = 1"
| "module_rank M_path_discovery = 2"
| "module_rank M_api_mapper = 0"
| "module_rank M_api_probe = 1"
| "module_rank M_auth_surface = 1"
| "module_rank M_parameter_analysis = 1"
| "module_rank M_nextjs_review = 2"
| "module_rank M_vulnerability_workflows = 2"
| "module_rank M_active_vulnerability_validation = 3"
| "module_rank M_workflow_validation = 3"
| "module_rank M_authenticated_testing = 2"
| "module_rank M_role_comparison = 3"
| "module_rank M_state_aware_api = 1"
| "module_rank M_object_pair_testing = 0"
| "module_rank M_field_exposure_testing = 0"
| "module_rank M_authorization_matrix_testing = 0"
| "module_rank M_collection_authorization_testing = 0"
| "module_rank M_bulk_authorization_testing = 0"
| "module_rank M_file_authorization_testing = 0"
| "module_rank M_privilege_mutation_testing = 0"
| "module_rank M_supabase_authorization = 0"
| "module_rank M_authentication_lifecycle = 2"
| "module_rank M_business_invariant = 0"
| "module_rank M_controlled_race = 0"
| "module_rank M_api_graphql_authorization = 0"
| "module_rank M_protocol_security = 0"
| "module_rank M_link_portal_export_security = 0"
| "module_rank M_operational_endpoint_security = 0"
| "module_rank M_billing_entitlement_security = 0"
| "module_rank M_secret_boundary = 3"
| "module_rank M_assisted_review = 4"
| "module_rank M_equivalent_route_testing = 0"
| "module_rank M_header_review = 1"
| "module_rank M_cookie_review = 1"
| "module_rank M_cors_review = 1"
| "module_rank M_method_review = 1"
| "module_rank M_exposure_review = 1"
| "module_rank M_proof_mode = 3"

lemma catalog_constraints_rank:
  "d \<in> set (mm_dependencies (moduleCatalog i)) \<union> set (mm_orderAfter (moduleCatalog i)) \<Longrightarrow> module_rank d < module_rank i"
  by (cases i) (auto simp: catalog_defs)

text \<open>The default settings of a module are settings it supports.\<close>

lemma catalog_defaults_supported: "fst ` set (mm_defaultSettings (moduleCatalog i)) \<subseteq> set (mm_supportedSettings (moduleCatalog i))"
  by (cases i) (simp_all add: catalog_defs)

end
