(* ===== verification/RC_Rate.thy ===== *)
theory RC_Rate
  imports RC_Prelude "HOL-Library.Multiset"
begin

text \<open>
  Pacing and admission of single requests: \<^verbatim>\<open>core/http/RateLimiter.ts\<close>,
  \<^verbatim>\<open>core/http/RetryPolicy.ts\<close> and \<^verbatim>\<open>core/http/RequestQueue.ts\<close>. The locale
  \<open>slot_gate\<close> states what a bounded concurrency gate promises; the request queue here and
  the scan ledger of \<open>RC_Ledger\<close> both provide it.
\<close>

section \<open>RateLimiter\<close>

text \<open>
  Calls of \<^verbatim>\<open>wait\<close> are serialised by the promise chain \<^verbatim>\<open>this.queue\<close>: the n-th call
  runs its body only after the turn of the call before it was released, also when that call was
  aborted. The model therefore runs the bodies one after the other. A \<open>wait_call\<close> holds what the
  environment decides during one call: the clock at the start of its turn, the clock when the
  timer (if one was needed) has fired, and whether the signal aborts it.
\<close>

record rate_limiter =
  requestsPerSecond :: rat
  nextAvailableAt :: int

record wait_call =
  wc_count :: jsnum
  wc_turnClock :: int
  wc_releaseClock :: int
  wc_aborted :: bool

datatype wait_result = RateReservationInvalid | WaitAborted | Released int

definition new_rate_limiter :: "rat \<Rightarrow> rate_limiter" where
  "new_rate_limiter rps = \<lparr>requestsPerSecond = rps, nextAvailableAt = 0\<rparr>"

definition intervalMs :: "rate_limiter \<Rightarrow> int" where
  "intervalMs r = \<lceil>1000 / requestsPerSecond r\<rceil>"

definition rate_delay :: "rate_limiter \<Rightarrow> int \<Rightarrow> int" where
  "rate_delay r now = max 0 (nextAvailableAt r - now)"

definition reservation_count_invalid :: "jsnum \<Rightarrow> bool" where
  "reservation_count_invalid n \<longleftrightarrow> \<not> js_isInteger n \<or> js_less n (jsint 1)"

definition rate_wait :: "rate_limiter \<Rightarrow> wait_call \<Rightarrow> wait_result \<times> rate_limiter" where
  "rate_wait r c =
     (if reservation_count_invalid (wc_count c) then (RateReservationInvalid, r)
      else if wc_aborted c then (WaitAborted, r)
      else (Released (wc_releaseClock c),
            r\<lparr>nextAvailableAt := wc_releaseClock c + intervalMs r * js_floor_int (wc_count c)\<rparr>))"

text \<open>The calls of one limiter in the order of their turns: the release times it grants.\<close>

fun rate_run :: "rate_limiter \<Rightarrow> wait_call list \<Rightarrow> int list" where
  "rate_run r [] = []"
| "rate_run r (c # cs) =
     (case rate_wait r c of
        (Released t, r') \<Rightarrow> t # rate_run r' cs
      | (_, r') \<Rightarrow> rate_run r' cs)"

text \<open>
  What the runtime promises: a timer armed for a delay fires no earlier than that delay after it
  was armed, and where no timer is armed the clock does not go back.
\<close>

definition timer_ok :: "rate_limiter \<Rightarrow> wait_call \<Rightarrow> bool" where
  "timer_ok r c \<longleftrightarrow> wc_turnClock c + rate_delay r (wc_turnClock c) \<le> wc_releaseClock c"

fun timers_ok :: "rate_limiter \<Rightarrow> wait_call list \<Rightarrow> bool" where
  "timers_ok r [] = True"
| "timers_ok r (c # cs) = (timer_ok r c \<and> timers_ok (snd (rate_wait r c)) cs)"

fun spaced_by :: "int \<Rightarrow> int list \<Rightarrow> bool" where
  "spaced_by d [] = True"
| "spaced_by d [t] = True"
| "spaced_by d (t # u # ts) = (t + d \<le> u \<and> spaced_by d (u # ts))"

lemma timer_ok_release: "timer_ok r c \<Longrightarrow> nextAvailableAt r \<le> wc_releaseClock c"
  by (auto simp: timer_ok_def rate_delay_def max_def split: if_splits)

lemma intervalMs_rate_wait [simp]: "intervalMs (snd (rate_wait r c)) = intervalMs r"
  by (simp add: rate_wait_def intervalMs_def)

lemma intervalMs_pos: "0 < requestsPerSecond r \<Longrightarrow> 0 < intervalMs r"
  by (simp add: intervalMs_def)

lemma valid_count_ge_1: "\<not> reservation_count_invalid n \<Longrightarrow> 1 \<le> js_floor_int n"
  by (cases n) (auto simp: reservation_count_invalid_def)

lemma rate_wait_next:
  assumes "0 \<le> intervalMs r" and "rate_wait r c = (Released t, r')"
  shows "t = wc_releaseClock c \<and> t + intervalMs r \<le> nextAvailableAt r' \<and> intervalMs r' = intervalMs r"
proof -
  from assms(2) have valid: "\<not> reservation_count_invalid (wc_count c)"
    and t: "t = wc_releaseClock c"
    and r': "r' = r\<lparr>nextAvailableAt := wc_releaseClock c + intervalMs r * js_floor_int (wc_count c)\<rparr>"
    by (auto simp: rate_wait_def split: if_splits)
  have "intervalMs r * 1 \<le> intervalMs r * js_floor_int (wc_count c)"
    by (rule mult_left_mono [OF valid_count_ge_1 [OF valid] assms(1)])
  with t r' show ?thesis by (simp add: intervalMs_def)
qed

lemma spaced_by_Cons:
  "spaced_by d (t # ts) \<longleftrightarrow> spaced_by d ts \<and> (ts \<noteq> [] \<longrightarrow> t + d \<le> hd ts)"
  by (cases ts) auto

lemma rate_run_spaced_aux:
  assumes "0 \<le> intervalMs r" and "timers_ok r cs"
  shows "spaced_by (intervalMs r) (rate_run r cs) \<and>
         (rate_run r cs \<noteq> [] \<longrightarrow> nextAvailableAt r \<le> hd (rate_run r cs))"
  using assms
proof (induction cs arbitrary: r)
  case Nil
  show ?case by simp
next
  case (Cons c cs)
  obtain res r' where w: "rate_wait r c = (res, r')" by (cases "rate_wait r c")
  have i: "intervalMs r' = intervalMs r" using w intervalMs_rate_wait [of r c] by simp
  have IH: "spaced_by (intervalMs r) (rate_run r' cs) \<and>
            (rate_run r' cs \<noteq> [] \<longrightarrow> nextAvailableAt r' \<le> hd (rate_run r' cs))"
    using Cons.IH [of r'] Cons.prems w i by simp
  show ?case
  proof (cases res)
    case (Released t)
    with w Cons.prems(1) have "t = wc_releaseClock c" "t + intervalMs r \<le> nextAvailableAt r'"
      using rate_wait_next by blast+
    moreover have "nextAvailableAt r \<le> wc_releaseClock c"
      using Cons.prems(2) by (auto intro: timer_ok_release)
    ultimately show ?thesis
      using IH w Released by (auto simp: spaced_by_Cons)
  next
    case RateReservationInvalid
    with w have "r' = r" by (auto simp: rate_wait_def split: if_splits)
    with IH w RateReservationInvalid show ?thesis by simp
  next
    case WaitAborted
    with w have "r' = r" by (auto simp: rate_wait_def split: if_splits)
    with IH w WaitAborted show ?thesis by simp
  qed
qed

lemma rate_run_spaced:
  "0 < requestsPerSecond r \<Longrightarrow> timers_ok r cs \<Longrightarrow> spaced_by (intervalMs r) (rate_run r cs)"
  using rate_run_spaced_aux [of r cs] intervalMs_pos [of r] by simp

text \<open>A list spaced by \<open>d\<close> has few elements in a window.\<close>

lemma spaced_by_ge:
  "0 \<le> d \<Longrightarrow> spaced_by d (t # ts) \<Longrightarrow> x \<in> set ts \<Longrightarrow> t + d \<le> x"
proof (induction ts arbitrary: t)
  case Nil
  then show ?case by simp
next
  case (Cons u ts)
  then show ?case by fastforce
qed

lemma spaced_window:
  assumes "0 < d" and "spaced_by d ts"
  shows "d * (int (length (filter (\<lambda>t. a \<le> t \<and> t < a + w) ts)) - 1) < w \<or>
         filter (\<lambda>t. a \<le> t \<and> t < a + w) ts = []"
  using assms(2)
proof (induction ts arbitrary: a w)
  case Nil
  show ?case by simp
next
  case (Cons t ts)
  let ?F = "\<lambda>a w. filter (\<lambda>t. a \<le> t \<and> t < a + w) ts"
  have sp: "spaced_by d ts" using Cons.prems by (simp add: spaced_by_Cons)
  show ?case
  proof (cases "a \<le> t \<and> t < a + w")
    case False
    then show ?thesis using Cons.IH [OF sp, of a w] by auto
  next
    case True
    have "?F a w = ?F (t + d) (a + w - (t + d))"
    proof (rule filter_cong [OF refl])
      fix x assume "x \<in> set ts"
      then have "t + d \<le> x" using spaced_by_ge Cons.prems assms(1) by fastforce
      with True assms(1) show "(a \<le> x \<and> x < a + w) = (t + d \<le> x \<and> x < t + d + (a + w - (t + d)))"
        by auto
    qed
    with Cons.IH [OF sp, of "t + d" "a + w - (t + d)"]
    have "d * (int (length (?F a w)) - 1) < a + w - (t + d) \<or> ?F a w = []" by simp
    then show ?thesis
    proof
      assume "d * (int (length (?F a w)) - 1) < a + w - (t + d)"
      then have "d * int (length (?F a w)) < w" using True by (simp add: algebra_simps)
      with True show ?thesis by simp
    next
      assume "?F a w = []"
      with True show ?thesis by simp
    qed
  qed
qed

text \<open>
  For a whole number \<open>n\<close> of requests per second, no window of one second ever
  contains more than \<open>n\<close> of the releases a \<^verbatim>\<open>RateLimiter\<close> grants, whatever the reservation
  counts, the aborts and the clock readings are, provided timers do not fire early.
\<close>

theorem rate_limiter_one_second_window:
  assumes rps: "requestsPerSecond r = of_int n" and n: "0 < n" and ok: "timers_ok r cs"
  shows "int (length (filter (\<lambda>t. a \<le> t \<and> t < a + 1000) (rate_run r cs))) \<le> n"
proof -
  let ?k = "int (length (filter (\<lambda>t. a \<le> t \<and> t < a + 1000) (rate_run r cs)))"
  have pos: "0 < requestsPerSecond r" using rps n by simp
  have "d * (?k - 1) < 1000 \<or> ?k = 0" if "d = intervalMs r" for d
    using spaced_window [of d "rate_run r cs" a 1000] rate_run_spaced [OF pos ok] intervalMs_pos [OF pos] that
    by auto
  moreover have "1000 \<le> intervalMs r * n"
  proof -
    have "1000 / of_int n \<le> (of_int (intervalMs r) :: rat)" by (simp add: intervalMs_def rps)
    then have "(1000 :: rat) \<le> of_int (intervalMs r * n)" using n by (simp add: field_simps)
    then show ?thesis by linarith
  qed
  ultimately have "intervalMs r * (?k - 1) < intervalMs r * n \<or> ?k = 0" by fastforce
  then show ?thesis
    using intervalMs_pos [OF pos] n by (auto simp: mult_less_cancel_left)
qed

theorem rate_limiter_one_second_window_witness:
  "rate_run (new_rate_limiter 2)
     [\<lparr>wc_count = jsint 1, wc_turnClock = 5, wc_releaseClock = 5, wc_aborted = False\<rparr>,
      \<lparr>wc_count = jsint 1, wc_turnClock = 6, wc_releaseClock = 505, wc_aborted = False\<rparr>,
      \<lparr>wc_count = jsint 1, wc_turnClock = 507, wc_releaseClock = 1005, wc_aborted = False\<rparr>] = [5, 505, 1005]
   \<and> int (length (filter (\<lambda>t. 5 \<le> t \<and> t < 5 + 1000) [5, 505, 1005 :: int])) \<le> 2"
proof -
  let ?r = "new_rate_limiter 2"
  let ?c = "\<lambda>a b. \<lparr>wc_count = jsint 1, wc_turnClock = a, wc_releaseClock = b, wc_aborted = False\<rparr>"
  have run: "rate_run ?r [?c 5 5, ?c 6 505, ?c 507 1005] = [5, 505, 1005]"
    by (simp add: rate_wait_def new_rate_limiter_def intervalMs_def reservation_count_invalid_def)
  have ok: "timers_ok ?r [?c 5 5, ?c 6 505, ?c 507 1005]"
    by (simp add: rate_wait_def new_rate_limiter_def intervalMs_def reservation_count_invalid_def
        timer_ok_def rate_delay_def)
  have rps: "requestsPerSecond ?r = of_int 2" by (simp add: new_rate_limiter_def)
  show ?thesis using rate_limiter_one_second_window [OF rps _ ok, of 5] run by simp
qed

section \<open>RetryPolicy\<close>

record retry_options =
  maxAttempts :: jsnum
  baseDelayMs :: jsnum
  maxDelayMs :: jsnum
  retryStatusCodes :: "int list"

text \<open>What the policy reads of a response: its status and the name of its error, if any.\<close>

record retry_result =
  rr_statusCode :: "int option"
  rr_error :: "string option"

definition isNonRetriableError :: "string \<Rightarrow> bool" where
  "isNonRetriableError name \<longleftrightarrow> name = ''RequestBudgetExceeded''"

definition shouldRetry :: "retry_options \<Rightarrow> retry_result \<Rightarrow> nat \<Rightarrow> bool" where
  "shouldRetry opts res attempt =
     (if js_leq (maxAttempts opts) (jsint (int attempt)) then False
      else case rr_error res of
             Some name \<Rightarrow> (if isNonRetriableError name then False else True)
           | None \<Rightarrow> (case rr_statusCode res of
                        Some code \<Rightarrow> code \<in> set (retryStatusCodes opts)
                      | None \<Rightarrow> False))"

definition delayForAttempt :: "retry_options \<Rightarrow> nat \<Rightarrow> jsnum" where
  "delayForAttempt opts attempt = js_min (js_scale (2 ^ (attempt - 1)) (baseDelayMs opts)) (maxDelayMs opts)"

text \<open>
  The loop of \<^verbatim>\<open>run\<close>. The task is what its successive calls return; the result is the value
  \<^verbatim>\<open>run\<close> resolves to (\<open>None\<close> inside when no attempt was made) with the delays it slept. The fuel
  bounds the iterations: \<open>None\<close> outside means that it did not suffice, which an infinite
  \<^verbatim>\<open>maxAttempts\<close> would allow.
\<close>

fun retry_loop :: "nat \<Rightarrow> retry_options \<Rightarrow> (nat \<Rightarrow> retry_result) \<Rightarrow> nat \<Rightarrow> retry_result option \<Rightarrow> jsnum list
    \<Rightarrow> (retry_result option \<times> jsnum list) option" where
  "retry_loop 0 opts task attempt lastResult slept = None"
| "retry_loop (Suc fuel) opts task attempt lastResult slept =
     (if js_leq (jsint (int attempt)) (maxAttempts opts) then
        (let result = task attempt in
         if \<not> shouldRetry opts result attempt then Some (Some result, slept)
         else retry_loop fuel opts task (Suc attempt) (Some result)
                (slept @ [delayForAttempt opts attempt]))
      else Some (lastResult, slept))"

definition retry_run :: "nat \<Rightarrow> retry_options \<Rightarrow> (nat \<Rightarrow> retry_result) \<Rightarrow> (retry_result option \<times> jsnum list) option" where
  "retry_run fuel opts task = retry_loop fuel opts task 1 None []"

lemma retry_loop_returns:
  assumes m: "maxAttempts opts = jsint (int m)" and "1 \<le> attempt" and "attempt \<le> m" and "m < attempt + fuel"
  shows "\<exists>k. retry_loop fuel opts task attempt res slept =
              Some (Some (task k), slept @ map (delayForAttempt opts) [attempt..<k])
           \<and> attempt \<le> k \<and> k \<le> m \<and> \<not> shouldRetry opts (task k) k
           \<and> (\<forall>i\<in>{attempt..<k}. shouldRetry opts (task i) i)"
  using assms(2-)
proof (induction fuel arbitrary: attempt res slept)
  case 0
  then show ?case by simp
next
  case (Suc fuel)
  show ?case
  proof (cases "shouldRetry opts (task attempt) attempt")
    case False
    then show ?thesis using Suc.prems m
      by (intro exI [of _ attempt]) (simp add: Let_def)
  next
    case True
    then have lt: "attempt < m"
      using m by (auto simp: shouldRetry_def split: if_splits)
    from Suc.IH [of "Suc attempt" "Some (task attempt)" "slept @ [delayForAttempt opts attempt]"] lt Suc.prems
    obtain k where
      k: "retry_loop fuel opts task (Suc attempt) (Some (task attempt)) (slept @ [delayForAttempt opts attempt])
            = Some (Some (task k), (slept @ [delayForAttempt opts attempt]) @ map (delayForAttempt opts) [Suc attempt..<k])"
         "Suc attempt \<le> k" "k \<le> m" "\<not> shouldRetry opts (task k) k"
         "\<forall>i\<in>{Suc attempt..<k}. shouldRetry opts (task i) i"
      by auto
    have "shouldRetry opts (task i) i" if "i \<in> {attempt..<k}" for i
      using k(5) True that by (cases "i = attempt") auto
    moreover have "retry_loop (Suc fuel) opts task attempt res slept
        = Some (Some (task k), slept @ map (delayForAttempt opts) [attempt..<k])"
      using k(1,2) True lt m by (simp add: Let_def upt_conv_Cons)
    ultimately show ?thesis using k(2-4) by (intro exI [of _ k]) auto
  qed
qed

lemma delayForAttempt_le: "delayForAttempt opts i \<noteq> JNaN \<Longrightarrow> js_leq (delayForAttempt opts i) (maxDelayMs opts)"
  by (auto simp: delayForAttempt_def intro: js_min_leq2)

text \<open>
  With \<open>m \<ge> 1\<close> attempts allowed, \<^verbatim>\<open>RetryPolicy.run\<close> returns, after at most \<open>m\<close> calls of the
  task: the result of the first attempt that must not be retried, having slept the backoff delay
  of every earlier one. An exhausted request budget is never retried.
\<close>

theorem retry_run_total:
  assumes "maxAttempts opts = jsint (int m)" and "1 \<le> m" and "m < Suc fuel"
  shows "\<exists>k\<in>{1..m}. retry_run fuel opts task = Some (Some (task k), map (delayForAttempt opts) [1..<k])
           \<and> \<not> shouldRetry opts (task k) k
           \<and> (\<forall>i\<in>{1..<k}. shouldRetry opts (task i) i \<and> rr_error (task i) \<noteq> Some ''RequestBudgetExceeded'')"
proof -
  from retry_loop_returns [OF assms(1), of 1 fuel task None "[]"] assms(2,3)
  obtain k where k: "retry_run fuel opts task = Some (Some (task k), map (delayForAttempt opts) [1..<k])"
      "1 \<le> k" "k \<le> m" "\<not> shouldRetry opts (task k) k" "\<forall>i\<in>{1..<k}. shouldRetry opts (task i) i"
    by (auto simp: retry_run_def)
  have "rr_error (task i) \<noteq> Some ''RequestBudgetExceeded''" if "shouldRetry opts (task i) i" for i
    using that by (auto simp: shouldRetry_def isNonRetriableError_def split: if_splits)
  with k show ?thesis by (intro bexI [of _ k]) auto
qed

theorem retry_run_total_witness:
  "retry_run 5 \<lparr>maxAttempts = jsint 3, baseDelayMs = jsint 250, maxDelayMs = jsint 400, retryStatusCodes = [503]\<rparr>
     (\<lambda>k. \<lparr>rr_statusCode = Some (if k < 3 then 503 else 200), rr_error = None\<rparr>)
   = Some (Some \<lparr>rr_statusCode = Some 200, rr_error = None\<rparr>, [jsint 250, jsint 400])"
proof -
  let ?o = "\<lparr>maxAttempts = jsint (int 3), baseDelayMs = jsint 250, maxDelayMs = jsint 400, retryStatusCodes = [503]\<rparr>"
  let ?t = "\<lambda>k::nat. \<lparr>rr_statusCode = Some (if k < 3 then 503 else 200), rr_error = None\<rparr>"
  have "\<exists>k\<in>{1..3}. retry_run 5 ?o ?t = Some (Some (?t k), map (delayForAttempt ?o) [1..<k]) \<and>
      \<not> shouldRetry ?o (?t k) k \<and>
      (\<forall>i\<in>{1..<k}. shouldRetry ?o (?t i) i \<and> rr_error (?t i) \<noteq> Some ''RequestBudgetExceeded'')"
    by (rule retry_run_total) simp_all
  then obtain k where "k \<in> {1..3}" and r: "retry_run 5 ?o ?t = Some (Some (?t k), map (delayForAttempt ?o) [1..<k])"
    and n: "\<not> shouldRetry ?o (?t k) k"
    by blast
  then have "k = 3" by (cases "k < 3") (auto simp: shouldRetry_def)
  with r show ?thesis by (simp add: delayForAttempt_def upt_rec)
qed

section \<open>A bounded concurrency gate\<close>

text \<open>
  The contract a gate offers its client: \<open>acquire\<close> either grants a slot or queues the caller;
  \<open>release\<close> passes the slot to a queued caller, or frees it when nobody waits.
\<close>

locale slot_gate =
  fixes acquire :: "'g \<Rightarrow> 't \<Rightarrow> 'g \<times> bool"
    and release :: "'g \<Rightarrow> 'g \<times> 't option"
    and in_use :: "'g \<Rightarrow> int"
    and queued :: "'g \<Rightarrow> 't list"
    and capacity :: "'g \<Rightarrow> int"
  assumes acquire_granted: "in_use g < capacity g \<Longrightarrow>
      snd (acquire g t) \<and> in_use (fst (acquire g t)) = in_use g + 1 \<and> queued (fst (acquire g t)) = queued g"
    and acquire_queued: "\<not> in_use g < capacity g \<Longrightarrow>
      \<not> snd (acquire g t) \<and> in_use (fst (acquire g t)) = in_use g \<and> queued (fst (acquire g t)) = queued g @ [t]"
    and release_handoff: "queued g \<noteq> [] \<Longrightarrow>
      \<exists>u. snd (release g) = Some u \<and> in_use (fst (release g)) = in_use g
          \<and> mset (queued g) = add_mset u (mset (queued (fst (release g))))"
    and release_idle: "queued g = [] \<Longrightarrow>
      snd (release g) = None \<and> in_use (fst (release g)) = in_use g - 1 \<and> queued (fst (release g)) = []"
    and acquire_capacity: "capacity (fst (acquire g t)) = capacity g"
    and release_capacity: "capacity (fst (release g)) = capacity g"

text \<open>
  The client of a gate: tasks acquire a slot, run, and give it back exactly once when they end
  (the \<^verbatim>\<open>finally\<close> of \<^verbatim>\<open>RequestQueue.run\<close> and of \<^verbatim>\<open>ScanRequestLedger.transmit\<close>).
\<close>

datatype 't gate_event = GateAcquire 't | GateFinish 't

fun gate_step :: "('g \<Rightarrow> 't \<Rightarrow> 'g \<times> bool) \<Rightarrow> ('g \<Rightarrow> 'g \<times> 't option) \<Rightarrow> 't gate_event \<Rightarrow> 'g \<times> 't list \<Rightarrow> 'g \<times> 't list" where
  "gate_step acquire release (GateAcquire t) (g, running) =
     (case acquire g t of (g', granted) \<Rightarrow> (g', if granted then running @ [t] else running))"
| "gate_step acquire release (GateFinish t) (g, running) =
     (if t \<in> set running then
        (case release g of
           (g', None) \<Rightarrow> (g', remove1 t running)
         | (g', Some u) \<Rightarrow> (g', remove1 t running @ [u]))
      else (g, running))"

definition gate_run :: "('g \<Rightarrow> 't \<Rightarrow> 'g \<times> bool) \<Rightarrow> ('g \<Rightarrow> 'g \<times> 't option) \<Rightarrow> 't gate_event list \<Rightarrow> 'g \<times> 't list \<Rightarrow> 'g \<times> 't list" where
  "gate_run acquire release = fold (gate_step acquire release)"

context slot_gate
begin

definition gate_inv :: "'g \<times> 't list \<Rightarrow> bool" where
  "gate_inv s \<longleftrightarrow> (case s of (g, running) \<Rightarrow>
     in_use g = int (length running) \<and> in_use g \<le> capacity g \<and> (queued g \<noteq> [] \<longrightarrow> in_use g = capacity g))"

lemma gate_inv_acquire: "gate_inv (g, running) \<Longrightarrow> gate_inv (gate_step acquire release (GateAcquire t) (g, running))"
proof (cases "in_use g < capacity g")
  case True
  assume "gate_inv (g, running)"
  with True acquire_granted [OF True, of t] acquire_capacity [of g t] show ?thesis
    by (auto simp: gate_inv_def split: prod.splits)
next
  case False
  assume "gate_inv (g, running)"
  with False acquire_queued [OF False, of t] acquire_capacity [of g t] show ?thesis
    by (auto simp: gate_inv_def split: prod.splits)
qed

lemma gate_inv_finish: "gate_inv (g, running) \<Longrightarrow> gate_inv (gate_step acquire release (GateFinish t) (g, running))"
proof (cases "t \<in> set running")
  case True
  assume inv: "gate_inv (g, running)"
  obtain g' o' where r: "release g = (g', o')" by (cases "release g")
  have len: "Suc (length (remove1 t running)) = length running" by (rule length_remove1_mem [OF True])
  show ?thesis
  proof (cases "queued g = []")
    case qe: True
    with release_idle [OF qe] release_capacity [of g] r inv True len show ?thesis
      by (auto simp: gate_inv_def)
  next
    case qn: False
    from release_handoff [OF qn] r obtain u where "o' = Some u" "in_use g' = in_use g" by auto
    with qn release_capacity [of g] r inv True len show ?thesis
      by (auto simp: gate_inv_def)
  qed
qed simp

lemma gate_inv_step: "gate_inv s \<Longrightarrow> gate_inv (gate_step acquire release e s)"
  by (cases e; cases s) (auto intro: gate_inv_acquire gate_inv_finish simp del: gate_step.simps)

lemma gate_inv_run: "gate_inv s \<Longrightarrow> gate_inv (gate_run acquire release es s)"
  unfolding gate_run_def
proof (induction es arbitrary: s)
  case (Cons e es)
  from Cons.IH [OF gate_inv_step [OF Cons.prems]] show ?case by simp
qed simp

lemma gate_run_bounded:
  assumes "in_use g = 0" and "queued g = []" and "0 \<le> capacity g" and "gate_run acquire release es (g, []) = (g', running)"
  shows "int (length running) = in_use g' \<and> in_use g' \<le> capacity g' \<and> (queued g' \<noteq> [] \<longrightarrow> in_use g' = capacity g')"
  using gate_inv_run [of "(g, [])" es] assms by (auto simp: gate_inv_def)

lemma gate_step_capacity: "capacity (fst (gate_step acquire release e s)) = capacity (fst s)"
  using acquire_capacity release_capacity
  by (cases e; cases s) (auto split: prod.splits option.splits, (metis fst_conv)+)

lemma gate_run_capacity: "capacity (fst (gate_run acquire release es s)) = capacity (fst s)"
  unfolding gate_run_def by (induction es arbitrary: s) (auto simp: gate_step_capacity)

text \<open>No task is lost or duplicated: a task is running or queued from its acquire to its finish.\<close>

definition gate_tasks :: "'g \<times> 't list \<Rightarrow> 't multiset" where
  "gate_tasks s = mset (snd s) + mset (queued (fst s))"

lemma gate_tasks_acquire: "gate_tasks (gate_step acquire release (GateAcquire t) s) = add_mset t (gate_tasks s)"
proof (cases s)
  case (Pair g running)
  then show ?thesis
    using acquire_granted [of g t] acquire_queued [of g t]
    by (cases "in_use g < capacity g") (auto simp: gate_tasks_def split: prod.splits)
qed

lemma gate_tasks_finish:
  assumes "t \<in> set (snd s)"
  shows "add_mset t (gate_tasks (gate_step acquire release (GateFinish t) s)) = gate_tasks s"
proof -
  obtain g running where s: "s = (g, running)" by (cases s)
  obtain g' w where r: "release g = (g', w)" by (cases "release g")
  have rm: "add_mset t (mset (remove1 t running)) = mset running" using assms s by simp
  show ?thesis
  proof (cases "queued g = []")
    case True
    with release_idle [OF True] r s assms rm show ?thesis by (simp add: gate_tasks_def)
  next
    case False
    from release_handoff [OF False] r obtain u where "w = Some u" "mset (queued g) = add_mset u (mset (queued g'))" by auto
    with r s assms rm show ?thesis by (simp add: gate_tasks_def)
  qed
qed

end

section \<open>RequestQueue\<close>

text \<open>
  The queue keeps the number of active tasks and the resolvers of the waiting ones, oldest first.
  A waiting task is named by the value \<open>'t\<close> that identifies its resolver.
\<close>

record 't request_queue =
  rq_concurrency :: int
  rq_active :: int
  rq_waiting :: "'t list"

definition new_request_queue :: "int \<Rightarrow> 't request_queue" where
  "new_request_queue n = \<lparr>rq_concurrency = n, rq_active = 0, rq_waiting = []\<rparr>"

definition rq_acquire :: "'t request_queue \<Rightarrow> 't \<Rightarrow> 't request_queue \<times> bool" where
  "rq_acquire q t =
     (if rq_active q < rq_concurrency q then (q\<lparr>rq_active := rq_active q + 1\<rparr>, True)
      else (q\<lparr>rq_waiting := rq_waiting q @ [t]\<rparr>, False))"

definition rq_release :: "'t request_queue \<Rightarrow> 't request_queue \<times> 't option" where
  "rq_release q =
     (case rq_waiting q of
        next # rest \<Rightarrow> (q\<lparr>rq_waiting := rest\<rparr>, Some next)
      | [] \<Rightarrow> (q\<lparr>rq_active := rq_active q - 1\<rparr>, None))"

interpretation rq: slot_gate rq_acquire rq_release rq_active rq_waiting rq_concurrency
  by unfold_locales (auto simp: rq_acquire_def rq_release_def neq_Nil_conv split: list.splits)

text \<open>
  Whatever the interleaving of task starts and ends, a \<^verbatim>\<open>RequestQueue\<close> never runs more
  tasks than its concurrency, its counter \<^verbatim>\<open>active\<close> is the number of running tasks, and tasks wait
  only while every slot is taken.
\<close>

theorem request_queue_bounded:
  assumes "0 \<le> n" and "gate_run rq_acquire rq_release es (new_request_queue n, []) = (q, running)"
  shows "int (length running) = rq_active q \<and> rq_active q \<le> n \<and> (rq_waiting q \<noteq> [] \<longrightarrow> rq_active q = n)"
proof -
  have "rq_concurrency q = n"
    using rq.gate_run_capacity [of es "(new_request_queue n, [])"] assms(2) by (simp add: new_request_queue_def)
  then show ?thesis
    using rq.gate_run_bounded [OF _ _ _ assms(2)] assms(1) by (simp add: new_request_queue_def)
qed

theorem request_queue_bounded_witness:
  "gate_run rq_acquire rq_release [GateAcquire ''a'', GateAcquire ''b'', GateAcquire ''c'', GateFinish ''a'']
     (new_request_queue 2, []) = (\<lparr>rq_concurrency = 2, rq_active = 2, rq_waiting = []\<rparr>, [''b'', ''c''])
   \<and> int (length [''b'', ''c'']) \<le> 2"
proof -
  have run: "gate_run rq_acquire rq_release [GateAcquire ''a'', GateAcquire ''b'', GateAcquire ''c'', GateFinish ''a'']
     (new_request_queue 2, []) = (\<lparr>rq_concurrency = 2, rq_active = 2, rq_waiting = []\<rparr>, [''b'', ''c''])"
    by (simp add: gate_run_def rq_acquire_def rq_release_def new_request_queue_def)
  show ?thesis using request_queue_bounded [OF _ run] run by simp
qed

text \<open>The queue is fair: the slot of a finished task goes to the task that has waited longest.\<close>

lemma request_queue_fifo:
  "rq_waiting q = next # rest \<Longrightarrow> rq_release q = (q\<lparr>rq_waiting := rest\<rparr>, Some next)"
  by (simp add: rq_release_def)

end
