(* ===== verification/RC_Profiles.thy ===== *)
theory RC_Profiles
  imports RC_Catalog RC_Rate
begin

text \<open>
  The built-in scan profiles of \<^verbatim>\<open>core/planning/ProfileDefinitions.ts\<close>, with the plan types of
  \<^verbatim>\<open>core/planning/ScanPlan.ts\<close> that they are written in. Limits are JavaScript numbers: an override
  comes from outside and may be any number, including NaN.
\<close>

datatype scan_profile_name = ProfQuick | ProfFull | ProfAuthenticated | ProfMonitor | ProfProof | ProfPreHandover

fun profile_name_text :: "scan_profile_name \<Rightarrow> string" where
  "profile_name_text ProfQuick = ''quick''"
| "profile_name_text ProfFull = ''full''"
| "profile_name_text ProfAuthenticated = ''authenticated''"
| "profile_name_text ProfMonitor = ''monitor''"
| "profile_name_text ProfProof = ''proof''"
| "profile_name_text ProfPreHandover = ''pre-handover''"

datatype evidence_level = EvMinimal | EvNormal | EvStrong
datatype failure_policy = FailFast | ContinueOnModuleError

record scan_limits =
  lm_maxDepth :: jsnum
  lm_rateLimitPerSecond :: jsnum
  lm_concurrency :: jsnum
  lm_requestTimeoutMs :: jsnum
  lm_bodyPreviewBytes :: jsnum
  lm_maxResponseBytes :: jsnum
  lm_maxRequests :: jsnum
  lm_cleanupReservedRequests :: jsnum
  lm_maxScanDurationMs :: jsnum
  lm_retry :: retry_options

text \<open>\<^verbatim>\<open>Partial<ScanLimits>\<close>: a missing key is \<open>None\<close>.\<close>

record partial_limits =
  pl_maxDepth :: "jsnum option"
  pl_rateLimitPerSecond :: "jsnum option"
  pl_concurrency :: "jsnum option"
  pl_requestTimeoutMs :: "jsnum option"
  pl_bodyPreviewBytes :: "jsnum option"
  pl_maxResponseBytes :: "jsnum option"
  pl_maxRequests :: "jsnum option"
  pl_cleanupReservedRequests :: "jsnum option"
  pl_maxScanDurationMs :: "jsnum option"
  pl_retry :: "retry_options option"

record authentication_requirements =
  ar_required :: bool
  ar_level :: authentication_level
  ar_requireSingleProfile :: bool
  ar_requireAccountPair :: bool

record evidence_policy =
  ep_level :: evidence_level
  ep_collectRequestAudit :: bool
  ep_collectBodyPreview :: bool
  ep_requireReproducibleEvidence :: bool
  ep_retainProofBlocks :: bool

text \<open>The three format flags of \<^verbatim>\<open>OutputExpectations\<close> are the literal \<^verbatim>\<open>true\<close>.\<close>

record output_expectations =
  oe_stableForDiff :: bool
  oe_includePlan :: bool
  oe_includeRequestAudit :: bool

record scan_profile_definition =
  pd_name :: scan_profile_name
  pd_displayName :: string
  pd_description :: string
  pd_enabledModules :: "module_id list"
  pd_disabledModules :: "module_id list"
  pd_moduleSettings :: "(module_id \<times> module_settings) list"
  pd_authentication :: authentication_requirements
  pd_limits :: partial_limits
  pd_perModuleLimits :: "(module_id \<times> partial_limits) list"
  pd_evidence :: evidence_policy
  pd_output :: output_expectations
  pd_failurePolicy :: failure_policy
  pd_optionalModulesMayBeSkipped :: bool
  pd_reportFocus :: "string list"

section \<open>The profiles\<close>

definition profile_pre_handover :: scan_profile_definition where
  "profile_pre_handover =
    \<lparr>pd_name = ProfPreHandover,
     pd_displayName = ''Internal Pre-Handover Assault'',
     pd_description = ''Explicit disposable-actor workflow sequencing with authoritative setup and handover gates.'',
     pd_enabledModules = [M_assisted_review],
     pd_disabledModules = [],
     pd_moduleSettings = [],
     pd_authentication = \<lparr>ar_required = True, ar_level = LevelAccountPair, ar_requireSingleProfile = False,
        ar_requireAccountPair = True\<rparr>,
     pd_limits = \<lparr>pl_maxDepth = Some (jsint 1), pl_rateLimitPerSecond = Some (jsint 5), pl_concurrency = Some
        (jsint 2), pl_requestTimeoutMs = Some (jsint 15000), pl_bodyPreviewBytes = Some (jsint 8192),
        pl_maxResponseBytes = None, pl_maxRequests = Some (jsint 500), pl_cleanupReservedRequests = None,
        pl_maxScanDurationMs = Some (jsint 900000), pl_retry = Some \<lparr>maxAttempts = jsint 1, baseDelayMs =
        jsint 250, maxDelayMs = jsint 1000, retryStatusCodes = []\<rparr>\<rparr>,
     pd_perModuleLimits = [],
     pd_evidence = \<lparr>ep_level = EvStrong, ep_collectRequestAudit = True, ep_collectBodyPreview = False,
        ep_requireReproducibleEvidence = True, ep_retainProofBlocks = True\<rparr>,
     pd_output = \<lparr>oe_stableForDiff = True, oe_includePlan = True, oe_includeRequestAudit = True\<rparr>,
     pd_failurePolicy = FailFast,
     pd_optionalModulesMayBeSkipped = False,
     pd_reportFocus = [''disposable object ownership'', ''critical workflows'', ''cleanup'', ''fix/regression'', ''handover readiness'']\<rparr>"

definition profile_quick :: scan_profile_definition where
  "profile_quick =
    \<lparr>pd_name = ProfQuick,
     pd_displayName = ''Quick Recon'',
     pd_description = ''Fast first-pass reconnaissance with core discovery and low scan volume.'',
     pd_enabledModules = [M_baseline, M_tech_fingerprint, M_js_intelligence, M_path_discovery, M_api_mapper,
        M_api_probe, M_auth_surface, M_parameter_analysis, M_vulnerability_workflows],
     pd_disabledModules = [M_browser_crawler, M_authenticated_testing, M_role_comparison, M_state_aware_api,
        M_object_pair_testing, M_field_exposure_testing, M_authorization_matrix_testing,
        M_collection_authorization_testing, M_bulk_authorization_testing, M_file_authorization_testing,
        M_equivalent_route_testing, M_proof_mode],
     pd_moduleSettings = [(M_path_discovery, [(''pathSources'', SStrs [''wordlist:common'', ''wordlist:api''])]),
        (M_api_probe, [(''maxEndpoints'', SNum (jsint 12)), (''safeMethods'', SStrs [''OPTIONS'', ''HEAD'',
        ''GET''])]), (M_parameter_analysis, []), (M_vulnerability_workflows, [])],
     pd_authentication = \<lparr>ar_required = False, ar_level = LevelNone, ar_requireSingleProfile = False,
        ar_requireAccountPair = False\<rparr>,
     pd_limits = \<lparr>pl_maxDepth = Some (jsint 1), pl_rateLimitPerSecond = Some (jsint 4), pl_concurrency = Some
        (jsint 3), pl_requestTimeoutMs = Some (jsint 10000), pl_bodyPreviewBytes = Some (jsint 4096),
        pl_maxResponseBytes = None, pl_maxRequests = Some (jsint 80), pl_cleanupReservedRequests = None,
        pl_maxScanDurationMs = Some (jsint 120000), pl_retry = Some \<lparr>maxAttempts = jsint 1, baseDelayMs =
        jsint 250, maxDelayMs = jsint 1000, retryStatusCodes = [408, 429, 500, 502, 503, 504]\<rparr>\<rparr>,
     pd_perModuleLimits = [],
     pd_evidence = \<lparr>ep_level = EvMinimal, ep_collectRequestAudit = True, ep_collectBodyPreview = False,
        ep_requireReproducibleEvidence = False, ep_retainProofBlocks = False\<rparr>,
     pd_output = \<lparr>oe_stableForDiff = False, oe_includePlan = True, oe_includeRequestAudit = True\<rparr>,
     pd_failurePolicy = ContinueOnModuleError,
     pd_optionalModulesMayBeSkipped = True,
     pd_reportFocus = [''surface map'', ''technologies'', ''API hints'', ''manual testing leads'']\<rparr>"

definition profile_full :: scan_profile_definition where
  "profile_full =
    \<lparr>pd_name = ProfFull,
     pd_displayName = ''Full Review'',
     pd_description = ''Broad safe review with browser crawling, security checks, exposure review, workflows, and reports.'',
     pd_enabledModules = [M_baseline, M_tech_fingerprint, M_js_intelligence, M_browser_crawler, M_path_discovery,
        M_api_mapper, M_api_probe, M_auth_surface, M_parameter_analysis, M_nextjs_review, M_vulnerability_workflows,
        M_workflow_validation, M_header_review, M_cookie_review, M_cors_review, M_method_review, M_exposure_review,
        M_secret_boundary],
     pd_disabledModules = [M_authenticated_testing, M_role_comparison, M_state_aware_api, M_object_pair_testing,
        M_field_exposure_testing, M_authorization_matrix_testing, M_collection_authorization_testing,
        M_bulk_authorization_testing, M_file_authorization_testing, M_equivalent_route_testing, M_proof_mode],
     pd_moduleSettings = [(M_browser_crawler, [(''browserMaxPages'', SNum (jsint 3)), (''browserMaxLinksPerPage'',
        SNum (jsint 25)), (''browserMaxPolicyEvents'', SNum (jsint 200)), (''browserMaxRequestsPerPage'', SNum (jsint
        80)), (''browserBlockThirdParty'', SBool True), (''browserCaptureScreenshot'', SBool True)]),
        (M_path_discovery, [(''pathSources'', SStrs [''wordlist:common'', ''wordlist:admin'', ''wordlist:api''])]),
        (M_api_probe, [(''maxEndpoints'', SNum (jsint 40)), (''safeMethods'', SStrs [''OPTIONS'', ''HEAD'',
        ''GET''])]), (M_nextjs_review, [(''maxNextJsManifestRequests'', SNum (jsint 4)),
        (''maxNextJsDataSurfaceRequests'', SNum (jsint 8)), (''maxNextJsSourceMapRequests'', SNum (jsint 4)),
        (''maxNextJsCacheDifferentialRequests'', SNum (jsint 0)), (''maxNextJsRoutesProcessed'', SNum (jsint 200)),
        (''nextJsCacheReviewMode'', SStr ''PASSIVE_CACHE_REVIEW'')])],
     pd_authentication = \<lparr>ar_required = False, ar_level = LevelNone, ar_requireSingleProfile = False,
        ar_requireAccountPair = False\<rparr>,
     pd_limits = \<lparr>pl_maxDepth = Some (jsint 2), pl_rateLimitPerSecond = Some (jsint 8), pl_concurrency = Some
        (jsint 5), pl_requestTimeoutMs = Some (jsint 15000), pl_bodyPreviewBytes = Some (jsint 8192),
        pl_maxResponseBytes = None, pl_maxRequests = Some (jsint 300), pl_cleanupReservedRequests = None,
        pl_maxScanDurationMs = Some (jsint 600000), pl_retry = Some \<lparr>maxAttempts = jsint 2, baseDelayMs =
        jsint 250, maxDelayMs = jsint 2000, retryStatusCodes = [408, 429, 500, 502, 503, 504]\<rparr>\<rparr>,
     pd_perModuleLimits = [],
     pd_evidence = \<lparr>ep_level = EvNormal, ep_collectRequestAudit = True, ep_collectBodyPreview = True,
        ep_requireReproducibleEvidence = False, ep_retainProofBlocks = False\<rparr>,
     pd_output = \<lparr>oe_stableForDiff = False, oe_includePlan = True, oe_includeRequestAudit = True\<rparr>,
     pd_failurePolicy = ContinueOnModuleError,
     pd_optionalModulesMayBeSkipped = True,
     pd_reportFocus = [''findings'', ''browser evidence'', ''manual test pack'', ''safe security review'']\<rparr>"

definition profile_authenticated :: scan_profile_definition where
  "profile_authenticated =
    \<lparr>pd_name = ProfAuthenticated,
     pd_displayName = ''Authenticated Review'',
     pd_description = ''Logged-in review with explicit auth validation, authenticated comparison, Account A/B comparison, and state-aware API review.'',
     pd_enabledModules = [M_baseline, M_tech_fingerprint, M_js_intelligence, M_browser_crawler, M_path_discovery,
        M_api_mapper, M_api_probe, M_auth_surface, M_parameter_analysis, M_nextjs_review, M_vulnerability_workflows,
        M_workflow_validation, M_authenticated_testing, M_role_comparison, M_state_aware_api, M_header_review,
        M_cookie_review, M_cors_review, M_method_review, M_exposure_review, M_secret_boundary, M_proof_mode],
     pd_disabledModules = [M_object_pair_testing, M_field_exposure_testing, M_authorization_matrix_testing,
        M_collection_authorization_testing, M_bulk_authorization_testing, M_file_authorization_testing,
        M_equivalent_route_testing],
     pd_moduleSettings = [(M_browser_crawler, [(''browserMaxPages'', SNum (jsint 4)), (''browserMaxLinksPerPage'',
        SNum (jsint 30)), (''browserMaxPolicyEvents'', SNum (jsint 250)), (''browserMaxRequestsPerPage'', SNum (jsint
        90)), (''browserBlockThirdParty'', SBool True), (''browserCaptureScreenshot'', SBool True)]),
        (M_path_discovery, [(''pathSources'', SStrs [''wordlist:common'', ''wordlist:admin'', ''wordlist:api''])]),
        (M_api_probe, [(''maxEndpoints'', SNum (jsint 45)), (''safeMethods'', SStrs [''OPTIONS'', ''HEAD'',
        ''GET''])]), (M_authenticated_testing, [(''maxComparisons'', SNum (jsint 20))]), (M_role_comparison,
        [(''maxComparisons'', SNum (jsint 20))]), (M_state_aware_api, [(''maxEndpointReviews'', SNum (jsint 30))]),
        (M_nextjs_review, [(''maxNextJsManifestRequests'', SNum (jsint 4)), (''maxNextJsDataSurfaceRequests'', SNum
        (jsint 8)), (''maxNextJsSourceMapRequests'', SNum (jsint 4)), (''maxNextJsCacheDifferentialRequests'', SNum
        (jsint 0)), (''maxNextJsRoutesProcessed'', SNum (jsint 200)), (''nextJsCacheReviewMode'', SStr
        ''PASSIVE_CACHE_REVIEW'')]), (M_proof_mode, [(''enabled'', SBool True), (''maxProofTargets'', SNum (jsint
        6))])],
     pd_authentication = \<lparr>ar_required = True, ar_level = LevelSingleProfile, ar_requireSingleProfile = True,
        ar_requireAccountPair = False\<rparr>,
     pd_limits = \<lparr>pl_maxDepth = Some (jsint 2), pl_rateLimitPerSecond = Some (jsint 12), pl_concurrency = Some
        (jsint 3), pl_requestTimeoutMs = Some (jsint 18000), pl_bodyPreviewBytes = Some (jsint 8192),
        pl_maxResponseBytes = None, pl_maxRequests = Some (jsint 360), pl_cleanupReservedRequests = None,
        pl_maxScanDurationMs = Some (jsint 720000), pl_retry = Some \<lparr>maxAttempts = jsint 2, baseDelayMs =
        jsint 300, maxDelayMs = jsint 2500, retryStatusCodes = [408, 429, 500, 502, 503, 504]\<rparr>\<rparr>,
     pd_perModuleLimits = [],
     pd_evidence = \<lparr>ep_level = EvStrong, ep_collectRequestAudit = True, ep_collectBodyPreview = False,
        ep_requireReproducibleEvidence = True, ep_retainProofBlocks = True\<rparr>,
     pd_output = \<lparr>oe_stableForDiff = False, oe_includePlan = True, oe_includeRequestAudit = True\<rparr>,
     pd_failurePolicy = FailFast,
     pd_optionalModulesMayBeSkipped = True,
     pd_reportFocus = [''anonymous vs authenticated'', ''Account A/B differences'', ''auth-only surfaces'', ''state-aware API candidates'']\<rparr>"

definition profile_monitor :: scan_profile_definition where
  "profile_monitor =
    \<lparr>pd_name = ProfMonitor,
     pd_displayName = ''Monitor'',
     pd_description = ''Repeatable low-noise monitoring profile for comparing changes over time.'',
     pd_enabledModules = [M_baseline, M_tech_fingerprint, M_path_discovery, M_api_mapper, M_api_probe,
        M_auth_surface, M_parameter_analysis, M_vulnerability_workflows],
     pd_disabledModules = [M_browser_crawler, M_authenticated_testing, M_role_comparison, M_state_aware_api,
        M_object_pair_testing, M_field_exposure_testing, M_authorization_matrix_testing,
        M_collection_authorization_testing, M_bulk_authorization_testing, M_file_authorization_testing,
        M_equivalent_route_testing, M_proof_mode, M_exposure_review],
     pd_moduleSettings = [(M_path_discovery, [(''pathSources'', SStrs [''wordlist:common'', ''wordlist:api''])]),
        (M_api_probe, [(''maxEndpoints'', SNum (jsint 20)), (''safeMethods'', SStrs [''OPTIONS'', ''HEAD'',
        ''GET''])])],
     pd_authentication = \<lparr>ar_required = False, ar_level = LevelNone, ar_requireSingleProfile = False,
        ar_requireAccountPair = False\<rparr>,
     pd_limits = \<lparr>pl_maxDepth = Some (jsint 1), pl_rateLimitPerSecond = Some (jsint 2), pl_concurrency = Some
        (jsint 2), pl_requestTimeoutMs = Some (jsint 12000), pl_bodyPreviewBytes = Some (jsint 4096),
        pl_maxResponseBytes = None, pl_maxRequests = Some (jsint 120), pl_cleanupReservedRequests = None,
        pl_maxScanDurationMs = Some (jsint 180000), pl_retry = Some \<lparr>maxAttempts = jsint 1, baseDelayMs =
        jsint 250, maxDelayMs = jsint 1000, retryStatusCodes = [408, 429, 500, 502, 503, 504]\<rparr>\<rparr>,
     pd_perModuleLimits = [],
     pd_evidence = \<lparr>ep_level = EvMinimal, ep_collectRequestAudit = True, ep_collectBodyPreview = False,
        ep_requireReproducibleEvidence = False, ep_retainProofBlocks = False\<rparr>,
     pd_output = \<lparr>oe_stableForDiff = True, oe_includePlan = True, oe_includeRequestAudit = True\<rparr>,
     pd_failurePolicy = ContinueOnModuleError,
     pd_optionalModulesMayBeSkipped = False,
     pd_reportFocus = [''new URLs'', ''removed URLs'', ''technology changes'', ''finding changes'']\<rparr>"

definition profile_proof :: scan_profile_definition where
  "profile_proof =
    \<lparr>pd_name = ProfProof,
     pd_displayName = ''Proof Mode'',
     pd_description = ''Reproducible evidence profile for suspected findings and manual verification packs.'',
     pd_enabledModules = [M_baseline, M_tech_fingerprint, M_js_intelligence, M_path_discovery, M_api_mapper,
        M_api_probe, M_auth_surface, M_parameter_analysis, M_nextjs_review, M_vulnerability_workflows,
        M_workflow_validation, M_state_aware_api, M_header_review, M_cookie_review, M_cors_review, M_method_review,
        M_exposure_review, M_secret_boundary, M_proof_mode],
     pd_disabledModules = [M_browser_crawler, M_object_pair_testing, M_field_exposure_testing,
        M_authorization_matrix_testing, M_collection_authorization_testing, M_bulk_authorization_testing,
        M_file_authorization_testing, M_equivalent_route_testing],
     pd_moduleSettings = [(M_path_discovery, [(''pathSources'', SStrs [''wordlist:common'', ''wordlist:admin'',
        ''wordlist:api''])]), (M_api_probe, [(''maxEndpoints'', SNum (jsint 45)), (''safeMethods'', SStrs
        [''OPTIONS'', ''HEAD'', ''GET''])]), (M_state_aware_api, [(''maxEndpointReviews'', SNum (jsint 25))]),
        (M_nextjs_review, [(''maxNextJsManifestRequests'', SNum (jsint 8)), (''maxNextJsDataSurfaceRequests'', SNum
        (jsint 16)), (''maxNextJsSourceMapRequests'', SNum (jsint 8)), (''maxNextJsCacheDifferentialRequests'', SNum
        (jsint 6)), (''maxNextJsRoutesProcessed'', SNum (jsint 500)), (''nextJsCacheReviewMode'', SStr
        ''PASSIVE_CACHE_REVIEW'')]), (M_proof_mode, [(''enabled'', SBool True), (''maxProofTargets'', SNum (jsint
        16))])],
     pd_authentication = \<lparr>ar_required = False, ar_level = LevelNone, ar_requireSingleProfile = False,
        ar_requireAccountPair = False\<rparr>,
     pd_limits = \<lparr>pl_maxDepth = Some (jsint 2), pl_rateLimitPerSecond = Some (jsint 10), pl_concurrency = Some
        (jsint 4), pl_requestTimeoutMs = Some (jsint 20000), pl_bodyPreviewBytes = Some (jsint 16384),
        pl_maxResponseBytes = None, pl_maxRequests = Some (jsint 260), pl_cleanupReservedRequests = None,
        pl_maxScanDurationMs = Some (jsint 600000), pl_retry = Some \<lparr>maxAttempts = jsint 3, baseDelayMs =
        jsint 300, maxDelayMs = jsint 3000, retryStatusCodes = [408, 429, 500, 502, 503, 504]\<rparr>\<rparr>,
     pd_perModuleLimits = [],
     pd_evidence = \<lparr>ep_level = EvStrong, ep_collectRequestAudit = True, ep_collectBodyPreview = True,
        ep_requireReproducibleEvidence = True, ep_retainProofBlocks = True\<rparr>,
     pd_output = \<lparr>oe_stableForDiff = False, oe_includePlan = True, oe_includeRequestAudit = True\<rparr>,
     pd_failurePolicy = ContinueOnModuleError,
     pd_optionalModulesMayBeSkipped = True,
     pd_reportFocus = [''curl commands'', ''redacted evidence'', ''manual verification'', ''retest-ready proof'']\<rparr>"

fun scanProfileDefinitions :: "scan_profile_name \<Rightarrow> scan_profile_definition option" where
  "scanProfileDefinitions ProfPreHandover = Some profile_pre_handover"
| "scanProfileDefinitions ProfQuick = Some profile_quick"
| "scanProfileDefinitions ProfFull = Some profile_full"
| "scanProfileDefinitions ProfAuthenticated = Some profile_authenticated"
| "scanProfileDefinitions ProfMonitor = Some profile_monitor"
| "scanProfileDefinitions ProfProof = Some profile_proof"

section \<open>Facts about the profiles\<close>

lemmas profile_defs =
  profile_pre_handover_def profile_quick_def profile_full_def profile_authenticated_def profile_monitor_def profile_proof_def

lemma profile_name [simp]: "scanProfileDefinitions n = Some d \<Longrightarrow> pd_name d = n"
  by (cases n) (auto simp: profile_defs)

text \<open>The consistency that planning later demands of a profile holds of every built-in one.\<close>

definition profile_consistent :: "scan_profile_definition \<Rightarrow> bool" where
  "profile_consistent d \<longleftrightarrow>
     distinct (pd_enabledModules d) \<and>
     list_all (\<lambda>i. i \<notin> set (pd_disabledModules d)) (pd_enabledModules d) \<and>
     list_all (\<lambda>i. list_all (\<lambda>x. x \<in> set (pd_enabledModules d)) (mm_dependencies (moduleCatalog i))) (pd_enabledModules d) \<and>
     list_all (\<lambda>(i, st). list_all (\<lambda>(k, _). k \<in> set (mm_supportedSettings (moduleCatalog i))) st) (pd_moduleSettings d) \<and>
     (ep_requireReproducibleEvidence (pd_evidence d) \<longrightarrow>
        list_all (\<lambda>i. mm_supportsEvidence (moduleCatalog i)) (pd_enabledModules d)) \<and>
     (pd_name d = ProfMonitor \<longrightarrow> list_all (\<lambda>i. mm_monitoringCompatible (moduleCatalog i)) (pd_enabledModules d))"

lemma builtin_profiles_consistent: "scanProfileDefinitions n = Some d \<Longrightarrow> profile_consistent d"
  by (cases n; simp; (drule sym; simp)?; code_simp)

end
