(* ===== verification/RC_Url.thy ===== *)
theory RC_Url
  imports RC_Prelude
begin

text \<open>
  Parsed URLs and the facts of the runtime the request policy rests on. Parsing a URL
  (\<^verbatim>\<open>new URL(s)\<close>, the WHATWG algorithm of the JavaScript runtime) and SHA-256 are parameters of the
  model, collected in the record \<open>runtime\<close>; every theorem holds for all of them unless it states a
  hypothesis. The record \<open>url\<close> holds the components the code reads, with its accessors
  \<^verbatim>\<open>origin\<close>, \<^verbatim>\<open>host\<close> and \<^verbatim>\<open>toString\<close> defined on them.
\<close>

record url =
  u_protocol :: string
  u_username :: string
  u_password :: string
  u_hostname :: string
  u_port :: string
  u_pathname :: string
  u_search :: string
  u_hash :: string

record runtime =
  rt_newURL :: "string \<Rightarrow> url option"
  rt_sha256 :: "string \<Rightarrow> string"

definition url_host :: "url \<Rightarrow> string" where
  "url_host u = (if u_port u = [] then u_hostname u else u_hostname u @ '':'' @ u_port u)"

definition url_origin :: "url \<Rightarrow> string" where
  "url_origin u =
     (if u_protocol u \<in> {''http:'', ''https:'', ''ws:'', ''wss:'', ''ftp:''}
      then u_protocol u @ ''//'' @ url_host u else ''null'')"

definition is_web_protocol :: "string \<Rightarrow> bool" where
  "is_web_protocol p \<longleftrightarrow> p = ''http:'' \<or> p = ''https:''"

text \<open>\<^verbatim>\<open>s.replace(/\/$/, "")\<close>.\<close>

definition strip_trailing_slash :: "string \<Rightarrow> string" where
  "strip_trailing_slash s = (if s \<noteq> [] \<and> last s = CHR ''/'' then butlast s else s)"

text \<open>\<^verbatim>\<open>/[cs]/.test(s)\<close> for a set of characters.\<close>

definition contains_any :: "char list \<Rightarrow> string \<Rightarrow> bool" where
  "contains_any cs s \<longleftrightarrow> list_ex (\<lambda>c. c \<in> set cs) s"

definition is_hex_lower :: "char \<Rightarrow> bool" where
  "is_hex_lower c \<longleftrightarrow> c \<in> set ''0123456789abcdef''"

text \<open>\<^verbatim>\<open>/^[a-f0-9]{n}$/\<close>.\<close>

definition is_hex_digest :: "nat \<Rightarrow> string \<Rightarrow> bool" where
  "is_hex_digest n s \<longleftrightarrow> length s = n \<and> list_all is_hex_lower s"

definition len_between :: "nat \<Rightarrow> nat \<Rightarrow> 'a list \<Rightarrow> bool" where
  "len_between lo hi xs \<longleftrightarrow> lo \<le> length xs \<and> length xs \<le> hi"

definition int_between :: "int \<Rightarrow> int \<Rightarrow> int \<Rightarrow> bool" where
  "int_between lo hi n \<longleftrightarrow> lo \<le> n \<and> n \<le> hi"

definition has_dot_segment :: "string \<Rightarrow> bool" where
  "has_dot_segment s \<longleftrightarrow> list_ex (\<lambda>part. part = ''.'' \<or> part = ''..'') (split_on (CHR ''/'') s)"

lemma len_betweenD: "len_between lo hi xs \<Longrightarrow> lo \<le> length xs \<and> length xs \<le> hi"
  by (simp add: len_between_def)

lemma int_betweenD: "int_between lo hi n \<Longrightarrow> lo \<le> n \<and> n \<le> hi"
  by (simp add: int_between_def)

text \<open>A small concrete runtime for the examples: it recognises a few spelled-out URLs.\<close>

definition url_of_parts :: "string \<Rightarrow> string \<Rightarrow> string \<Rightarrow> url" where
  "url_of_parts protocol hostname pathname =
     \<lparr>u_protocol = protocol, u_username = [], u_password = [], u_hostname = hostname, u_port = [],
      u_pathname = pathname, u_search = [], u_hash = []\<rparr>"

definition split_https :: "string \<Rightarrow> url option" where
  "split_https s =
     (if starts_with s ''https://'' \<and> 8 < length s then
        (let rest = drop 8 s; h = takeWhile (\<lambda>c. c \<noteq> CHR ''/'') rest; p = dropWhile (\<lambda>c. c \<noteq> CHR ''/'') rest
         in Some (url_of_parts ''https:'' h (if p = [] then ''/'' else p)))
      else None)"

definition example_runtime :: runtime where
  "example_runtime = \<lparr>rt_newURL = split_https, rt_sha256 = (\<lambda>s. replicate 64 (CHR ''0''))\<rparr>"

end
