(* ===== verification/RC_Ledger.thy ===== *)
theory RC_Ledger
  imports RC_Rate
begin

text \<open>
  The scan-wide request ledger, \<^verbatim>\<open>core/http/ScanRequestLedger.ts\<close>: reservation accounting for the
  ordinary and the cleanup lane, the concurrency gate with cleanup priority, and the transmission
  protocol that every HTTP attempt goes through. The locale \<open>request_budget\<close> states what a
  counted budget promises; the ledger lanes and the target-authorization guard provide it.
\<close>

section \<open>A counted request budget\<close>

text \<open>
  \<open>reserve\<close> answers whether a request was admitted. An admitted request is charged its cost and
  stays within the limit; a refused one leaves the charge as it was.
\<close>

locale request_budget =
  fixes reserve :: "'s \<Rightarrow> 'r \<Rightarrow> 's \<times> bool"
    and governed :: "'s \<Rightarrow> bool"
    and spent :: "'s \<Rightarrow> int"
    and limit :: "'s \<Rightarrow> int"
    and cost :: "'r \<Rightarrow> int"
  assumes reserve_accepted: "governed s \<Longrightarrow> snd (reserve s r) \<Longrightarrow>
      spent (fst (reserve s r)) = spent s + cost r \<and> spent s + cost r \<le> limit s \<and> 1 \<le> cost r"
    and reserve_refused: "governed s \<Longrightarrow> \<not> snd (reserve s r) \<Longrightarrow> spent (fst (reserve s r)) = spent s"
    and reserve_limit: "limit (fst (reserve s r)) = limit s"
    and reserve_governed: "governed (fst (reserve s r)) = governed s"

text \<open>A sequence of reservations: the final state and the total cost of the admitted ones.\<close>

fun budget_run :: "('s \<Rightarrow> 'r \<Rightarrow> 's \<times> bool) \<Rightarrow> ('r \<Rightarrow> int) \<Rightarrow> 's \<Rightarrow> 'r list \<Rightarrow> 's \<times> int" where
  "budget_run reserve cost s [] = (s, 0)"
| "budget_run reserve cost s (r # rs) =
     (case reserve s r of (s', ok) \<Rightarrow>
        (case budget_run reserve cost s' rs of (s'', n) \<Rightarrow> (s'', if ok then cost r + n else n)))"

context request_budget
begin

lemma budget_run_frame:
  "limit (fst (budget_run reserve cost s rs)) = limit s \<and> governed (fst (budget_run reserve cost s rs)) = governed s"
proof (induction rs arbitrary: s)
  case (Cons r rs)
  show ?case using Cons.IH [of "fst (reserve s r)"] reserve_limit [of s r] reserve_governed [of s r]
    by (auto split: prod.splits)
qed simp

lemma budget_run_spent:
  "governed s \<Longrightarrow> spent (fst (budget_run reserve cost s rs)) = spent s + snd (budget_run reserve cost s rs)"
proof (induction rs arbitrary: s)
  case (Cons r rs)
  have "governed (fst (reserve s r))" using Cons.prems reserve_governed by simp
  from Cons.IH [OF this] show ?case
    using reserve_accepted [OF Cons.prems, of r] reserve_refused [OF Cons.prems, of r]
    by (auto split: prod.splits)
qed simp

lemma budget_run_bounded:
  "governed s \<Longrightarrow> spent s \<le> limit s \<Longrightarrow> spent (fst (budget_run reserve cost s rs)) \<le> limit s"
proof (induction rs arbitrary: s)
  case (Cons r rs)
  let ?s = "fst (reserve s r)"
  have "spent ?s \<le> limit ?s"
    using Cons.prems reserve_accepted [of s r] reserve_refused [of s r] reserve_limit [of s r]
    by (cases "snd (reserve s r)") auto
  moreover have "governed ?s" using Cons.prems reserve_governed by simp
  ultimately have "spent (fst (budget_run reserve cost ?s rs)) \<le> limit ?s" by (rule Cons.IH [rotated])
  then show ?case using reserve_limit [of s r] by (auto split: prod.splits)
qed simp

lemma budget_run_admitted:
  "governed s \<Longrightarrow> spent s \<le> limit s \<Longrightarrow> snd (budget_run reserve cost s rs) \<le> limit s - spent s"
  using budget_run_spent [of s rs] budget_run_bounded [of s rs] by simp

end

section \<open>The ledger\<close>

datatype lane = Scan | Cleanup

record ledger_snapshot =
  snap_maxRequests :: int
  snap_cleanupReservedRequests :: int
  snap_scanCapacity :: int
  snap_scanTransmitted :: int
  snap_cleanupTransmitted :: int
  snap_totalTransmitted :: int
  snap_scanRemaining :: int
  snap_cleanupRemaining :: int
  snap_inFlight :: int
  snap_queued :: nat

text \<open>
  \<open>sl_updates\<close> is the sequence of calls of \<^verbatim>\<open>onUpdate\<close>, oldest first. A waiter is the pair of the
  value that identifies the pending call and its lane.
\<close>

record 't scan_ledger =
  sl_maxRequests :: int
  sl_cleanupReservedRequests :: int
  sl_concurrency :: int
  sl_scanCapacity :: int
  sl_scanTransmitted :: int
  sl_cleanupTransmitted :: int
  sl_active :: int
  sl_waiting :: "('t \<times> lane) list"
  sl_updates :: "(ledger_snapshot \<times> bool) list"

definition new_scan_ledger :: "jsnum \<Rightarrow> jsnum \<Rightarrow> jsnum \<Rightarrow> string + 't scan_ledger" where
  "new_scan_ledger maxRequests cleanupReservedRequests concurrency =
     (if \<not> js_isInteger maxRequests \<or> js_less maxRequests (jsint 1)
      then Inl ''SCAN_REQUEST_LEDGER_LIMIT_INVALID''
      else if \<not> js_isInteger cleanupReservedRequests \<or> js_less cleanupReservedRequests (jsint 0)
              \<or> js_less maxRequests cleanupReservedRequests
      then Inl ''SCAN_CLEANUP_RESERVE_INVALID''
      else if \<not> js_isInteger concurrency \<or> js_less concurrency (jsint 1)
      then Inl ''SCAN_REQUEST_LEDGER_CONCURRENCY_INVALID''
      else Inr \<lparr>sl_maxRequests = js_floor_int maxRequests,
                sl_cleanupReservedRequests = js_floor_int cleanupReservedRequests,
                sl_concurrency = js_floor_int concurrency,
                sl_scanCapacity = js_floor_int maxRequests - js_floor_int cleanupReservedRequests,
                sl_scanTransmitted = 0, sl_cleanupTransmitted = 0, sl_active = 0,
                sl_waiting = [], sl_updates = []\<rparr>)"

definition ledger_snapshot_of :: "'t scan_ledger \<Rightarrow> ledger_snapshot" where
  "ledger_snapshot_of l =
     \<lparr>snap_maxRequests = sl_maxRequests l,
      snap_cleanupReservedRequests = sl_cleanupReservedRequests l,
      snap_scanCapacity = sl_scanCapacity l,
      snap_scanTransmitted = sl_scanTransmitted l,
      snap_cleanupTransmitted = sl_cleanupTransmitted l,
      snap_totalTransmitted = sl_scanTransmitted l + sl_cleanupTransmitted l,
      snap_scanRemaining = max 0 (sl_scanCapacity l - sl_scanTransmitted l),
      snap_cleanupRemaining = max 0 (sl_cleanupReservedRequests l - sl_cleanupTransmitted l),
      snap_inFlight = sl_active l,
      snap_queued = length (sl_waiting l)\<rparr>"

definition publish :: "bool \<Rightarrow> 't scan_ledger \<Rightarrow> 't scan_ledger" where
  "publish budgetChanged l = l\<lparr>sl_updates := sl_updates l @ [(ledger_snapshot_of l, budgetChanged)]\<rparr>"

definition hasCapacity :: "'t scan_ledger \<Rightarrow> lane \<Rightarrow> jsnum \<Rightarrow> bool" where
  "hasCapacity l lane cnt =
     (if \<not> js_isInteger cnt \<or> js_less cnt (jsint 1) then False
      else let snapshot = ledger_snapshot_of l in
           case lane of
             Cleanup \<Rightarrow> js_floor_int cnt \<le> snap_cleanupRemaining snapshot
           | Scan \<Rightarrow> js_floor_int cnt \<le> snap_scanRemaining snapshot)"

definition tryReserve :: "'t scan_ledger \<Rightarrow> lane \<Rightarrow> jsnum \<Rightarrow> 't scan_ledger \<times> bool" where
  "tryReserve l lane cnt =
     (if \<not> hasCapacity l lane cnt then (publish True l, False)
      else (publish True
              (case lane of
                 Cleanup \<Rightarrow> l\<lparr>sl_cleanupTransmitted := sl_cleanupTransmitted l + js_floor_int cnt\<rparr>
               | Scan \<Rightarrow> l\<lparr>sl_scanTransmitted := sl_scanTransmitted l + js_floor_int cnt\<rparr>),
            True))"

text \<open>\<^verbatim>\<open>acquire\<close> after \<^verbatim>\<open>throwIfAborted\<close>: a slot now, or a place in the queue.\<close>

definition ledger_acquire :: "'t scan_ledger \<Rightarrow> 't \<times> lane \<Rightarrow> 't scan_ledger \<times> bool" where
  "ledger_acquire l w =
     (if sl_active l < sl_concurrency l then (publish False (l\<lparr>sl_active := sl_active l + 1\<rparr>), True)
      else (publish False (l\<lparr>sl_waiting := sl_waiting l @ [w]\<rparr>), False))"

text \<open>The abort listener of a queued waiter.\<close>

definition ledger_abort_waiter :: "'t scan_ledger \<Rightarrow> 't \<times> lane \<Rightarrow> 't scan_ledger" where
  "ledger_abort_waiter l w = publish False (l\<lparr>sl_waiting := remove1 w (sl_waiting l)\<rparr>)"

text \<open>The first call of a release handle: the oldest cleanup waiter goes first, then the oldest.\<close>

definition next_waiter :: "('t \<times> lane) list \<Rightarrow> ('t \<times> lane) option" where
  "next_waiter ws =
     (case List.find (\<lambda>w. snd w = Cleanup) ws of
        Some w \<Rightarrow> Some w
      | None \<Rightarrow> (case ws of [] \<Rightarrow> None | w # _ \<Rightarrow> Some w))"

definition ledger_release :: "'t scan_ledger \<Rightarrow> 't scan_ledger \<times> ('t \<times> lane) option" where
  "ledger_release l =
     (case next_waiter (sl_waiting l) of
        Some w \<Rightarrow> (publish False (l\<lparr>sl_waiting := remove1 w (sl_waiting l)\<rparr>), Some w)
      | None \<Rightarrow> (publish False (l\<lparr>sl_active := sl_active l - 1\<rparr>), None))"

lemma publish_simps [simp]:
  "sl_maxRequests (publish b l) = sl_maxRequests l"
  "sl_cleanupReservedRequests (publish b l) = sl_cleanupReservedRequests l"
  "sl_concurrency (publish b l) = sl_concurrency l"
  "sl_scanCapacity (publish b l) = sl_scanCapacity l"
  "sl_scanTransmitted (publish b l) = sl_scanTransmitted l"
  "sl_cleanupTransmitted (publish b l) = sl_cleanupTransmitted l"
  "sl_active (publish b l) = sl_active l"
  "sl_waiting (publish b l) = sl_waiting l"
  by (simp_all add: publish_def)

lemma next_waiter_Some: "next_waiter ws = Some w \<Longrightarrow> w \<in> set ws"
  by (auto simp: next_waiter_def dest: find_Some_set split: option.splits list.splits)

lemma next_waiter_None_iff [simp]: "next_waiter ws = None \<longleftrightarrow> ws = []"
  by (auto simp: next_waiter_def split: option.splits list.splits)

lemma next_waiter_Nil [simp]: "next_waiter [] = None"
  by simp

lemma next_waiter_cleanup_first:
  "\<exists>w\<in>set ws. snd w = Cleanup \<Longrightarrow> next_waiter ws = Some v \<Longrightarrow> snd v = Cleanup"
  by (auto simp: next_waiter_def find_None_iff dest: find_Some_set split: option.splits)

lemma hasCapacity_iff:
  "hasCapacity l lane cnt \<longleftrightarrow> js_isInteger cnt \<and> 1 \<le> js_floor_int cnt \<and>
     (case lane of Cleanup \<Rightarrow> sl_cleanupTransmitted l + js_floor_int cnt \<le> sl_cleanupReservedRequests l
                 | Scan \<Rightarrow> sl_scanTransmitted l + js_floor_int cnt \<le> sl_scanCapacity l)"
  by (cases cnt) (auto simp: hasCapacity_def ledger_snapshot_of_def Let_def max_def split: lane.splits)

interpretation ledger_gate: slot_gate ledger_acquire ledger_release sl_active sl_waiting sl_concurrency
proof unfold_locales
  fix l :: "'t scan_ledger"
  assume "sl_waiting l \<noteq> []"
  then obtain w where w: "next_waiter (sl_waiting l) = Some w"
    using next_waiter_None_iff [of "sl_waiting l"] by blast
  then have "mset (sl_waiting l) = add_mset w (mset (remove1 w (sl_waiting l)))"
    using next_waiter_Some by fastforce
  with w show "\<exists>u. snd (ledger_release l) = Some u \<and> sl_active (fst (ledger_release l)) = sl_active l \<and>
      mset (sl_waiting l) = add_mset u (mset (sl_waiting (fst (ledger_release l))))"
    by (simp add: ledger_release_def)
qed (auto simp: ledger_acquire_def ledger_release_def split: option.splits)

abbreviation lane_reserve :: "lane \<Rightarrow> 't scan_ledger \<Rightarrow> jsnum \<Rightarrow> 't scan_ledger \<times> bool" where
  "lane_reserve lane l cnt \<equiv> tryReserve l lane cnt"

interpretation scan_budget: request_budget "lane_reserve Scan" "\<lambda>_. True" sl_scanTransmitted sl_scanCapacity js_floor_int
  by unfold_locales (auto simp: tryReserve_def hasCapacity_iff)

interpretation cleanup_budget: request_budget "lane_reserve Cleanup" "\<lambda>_. True" sl_cleanupTransmitted sl_cleanupReservedRequests js_floor_int
  by unfold_locales (auto simp: tryReserve_def hasCapacity_iff)

section \<open>The transmission protocol\<close>

text \<open>
  \<^verbatim>\<open>transmit\<close> suspends where it waits for a slot, for the rate limiter and for the operation;
  the code between two suspensions runs without interruption. \<open>transmit_admit\<close> is the code from the
  granted slot to the rate limiter, \<open>transmit_commit\<close> the code from there to the call of the
  operation. \<open>None\<close> means that the call goes on, \<open>Some r\<close> that it ends with \<open>r\<close> and gives its slot back.
\<close>

datatype tx_result = TxAccepted | TxRefused | TxPolicyDenied | TxCancelled

text \<open>What the optional guard \<^verbatim>\<open>beforeTransmit\<close> does: it answers true, it answers anything else or
  throws an ordinary error, or it throws \<^verbatim>\<open>ScanCancelledError\<close>.\<close>

datatype guard_outcome = GuardPermits | GuardDenies | GuardCancels

record tx_options =
  rateAlreadyReserved :: bool
  beforeTransmit :: "guard_outcome option"
  reserveAtInitiation :: bool
  reservationCount :: jsnum

definition transmit_admit :: "'t scan_ledger \<Rightarrow> lane \<Rightarrow> tx_options \<Rightarrow> bool \<Rightarrow> 't scan_ledger \<times> tx_result option" where
  "transmit_admit l lane opts aborted =
     (if aborted then (l, Some TxCancelled)
      else if \<not> hasCapacity l lane (reservationCount opts) then (publish True l, Some TxRefused)
      else (l, None))"

definition transmit_commit :: "'t scan_ledger \<Rightarrow> lane \<Rightarrow> tx_options \<Rightarrow> bool \<Rightarrow> bool \<Rightarrow> 't scan_ledger \<times> tx_result option" where
  "transmit_commit l lane opts aborted abortedInGuard =
     (if aborted then (l, Some TxCancelled)
      else if \<not> hasCapacity l lane (reservationCount opts) then (l, Some TxRefused)
      else if beforeTransmit opts = Some GuardCancels then (l, Some TxCancelled)
      else if beforeTransmit opts \<noteq> None \<and> abortedInGuard then (l, Some TxCancelled)
      else if beforeTransmit opts = Some GuardDenies then (l, Some TxPolicyDenied)
      else if \<not> reserveAtInitiation opts then
        (case tryReserve l lane (reservationCount opts) of
           (l', ok) \<Rightarrow> (l', if ok then None else Some TxRefused))
      else (l, None))"

text \<open>Before it asks for a slot, \<^verbatim>\<open>transmit\<close> rejects a malformed reservation count.\<close>

definition transmit_precheck :: "tx_options \<Rightarrow> string + unit" where
  "transmit_precheck opts =
     guard_err (reservation_count_invalid (reservationCount opts)) ''SCAN_REQUEST_RESERVATION_COUNT_INVALID''"

text \<open>\<^verbatim>\<open>dispatchReserved\<close> runs the same gate without touching the budget: after the rate limiter
  only the abort check is left before the operation.\<close>

definition dispatch_commit :: "bool \<Rightarrow> tx_result option" where
  "dispatch_commit aborted = (if aborted then Some TxCancelled else None)"

text \<open>
  The calls in flight. \<open>ls_running\<close> are the calls that hold a slot, \<open>ls_phase\<close> says how far each of
  them is. A step is one uninterrupted piece of one call; which call moves next, when signals
  abort and what guards answer is up to the environment.
\<close>

datatype tx_phase = TxSlot | TxPaced | TxOperating

record 't ledger_sys =
  ls_ledger :: "'t scan_ledger"
  ls_running :: "('t \<times> lane) list"
  ls_phase :: "'t \<times> lane \<Rightarrow> tx_phase"

definition sys_finish :: "'t ledger_sys \<Rightarrow> 't scan_ledger \<Rightarrow> 't \<times> lane \<Rightarrow> 't ledger_sys" where
  "sys_finish s l w =
     (case ledger_release l of
        (l', None) \<Rightarrow> s\<lparr>ls_ledger := l', ls_running := remove1 w (ls_running s)\<rparr>
      | (l', Some u) \<Rightarrow> s\<lparr>ls_ledger := l', ls_running := remove1 w (ls_running s) @ [u],
                          ls_phase := (ls_phase s)(u := TxSlot)\<rparr>)"

inductive ledger_step :: "'t ledger_sys \<Rightarrow> 't ledger_sys \<Rightarrow> bool" where
  call_granted: "transmit_precheck opts = Inr () \<Longrightarrow> ledger_acquire (ls_ledger s) w = (l', True) \<Longrightarrow>
     ledger_step s (s\<lparr>ls_ledger := l', ls_running := ls_running s @ [w], ls_phase := (ls_phase s)(w := TxSlot)\<rparr>)"
| call_queued: "transmit_precheck opts = Inr () \<Longrightarrow> ledger_acquire (ls_ledger s) w = (l', False) \<Longrightarrow> ledger_step s (s\<lparr>ls_ledger := l'\<rparr>)"
| waiter_aborted: "w \<in> set (sl_waiting (ls_ledger s)) \<Longrightarrow>
     ledger_step s (s\<lparr>ls_ledger := ledger_abort_waiter (ls_ledger s) w\<rparr>)"
| admitted: "w \<in> set (ls_running s) \<Longrightarrow> ls_phase s w = TxSlot \<Longrightarrow>
     transmit_admit (ls_ledger s) (snd w) opts aborted = (l', None) \<Longrightarrow>
     ledger_step s (s\<lparr>ls_ledger := l', ls_phase := (ls_phase s)(w := TxPaced)\<rparr>)"
| not_admitted: "w \<in> set (ls_running s) \<Longrightarrow> ls_phase s w = TxSlot \<Longrightarrow>
     transmit_admit (ls_ledger s) (snd w) opts aborted = (l', Some r) \<Longrightarrow> ledger_step s (sys_finish s l' w)"
| committed: "w \<in> set (ls_running s) \<Longrightarrow> ls_phase s w = TxPaced \<Longrightarrow>
     transmit_commit (ls_ledger s) (snd w) opts aborted ag = (l', None) \<Longrightarrow>
     ledger_step s (s\<lparr>ls_ledger := l', ls_phase := (ls_phase s)(w := TxOperating)\<rparr>)"
| not_committed: "w \<in> set (ls_running s) \<Longrightarrow> ls_phase s w = TxPaced \<Longrightarrow>
     transmit_commit (ls_ledger s) (snd w) opts aborted ag = (l', Some r) \<Longrightarrow> ledger_step s (sys_finish s l' w)"
| dispatched: "w \<in> set (ls_running s) \<Longrightarrow> ls_phase s w = TxSlot \<Longrightarrow> dispatch_commit aborted = None \<Longrightarrow>
     ledger_step s (s\<lparr>ls_phase := (ls_phase s)(w := TxOperating)\<rparr>)"
| not_dispatched: "w \<in> set (ls_running s) \<Longrightarrow> ls_phase s w = TxSlot \<Longrightarrow> dispatch_commit aborted = Some r \<Longrightarrow>
     ledger_step s (sys_finish s (ls_ledger s) w)"
| reserved_outside: "tryReserve (ls_ledger s) lane n = (l', ok) \<Longrightarrow> ledger_step s (s\<lparr>ls_ledger := l'\<rparr>)"
| operation_ended: "w \<in> set (ls_running s) \<Longrightarrow> ls_phase s w = TxOperating \<Longrightarrow>
     ledger_step s (sys_finish s (ls_ledger s) w)"

inductive ledger_reachable :: "'t scan_ledger \<Rightarrow> 't ledger_sys \<Rightarrow> bool" for l0 where
  ledger_start: "ledger_reachable l0 \<lparr>ls_ledger = l0, ls_running = [], ls_phase = (\<lambda>_. TxSlot)\<rparr>"
| ledger_next: "ledger_reachable l0 s \<Longrightarrow> ledger_step s s' \<Longrightarrow> ledger_reachable l0 s'"

text \<open>The fields no operation changes, and the bounds every operation keeps.\<close>

definition same_limits :: "'t scan_ledger \<Rightarrow> 't scan_ledger \<Rightarrow> bool" where
  "same_limits l l' \<longleftrightarrow> sl_maxRequests l' = sl_maxRequests l \<and>
     sl_cleanupReservedRequests l' = sl_cleanupReservedRequests l \<and>
     sl_concurrency l' = sl_concurrency l \<and> sl_scanCapacity l' = sl_scanCapacity l"

definition ledger_within :: "'t scan_ledger \<Rightarrow> bool" where
  "ledger_within l \<longleftrightarrow> 0 \<le> sl_scanTransmitted l \<and> sl_scanTransmitted l \<le> sl_scanCapacity l \<and>
     0 \<le> sl_cleanupTransmitted l \<and> sl_cleanupTransmitted l \<le> sl_cleanupReservedRequests l"

definition sys_inv :: "'t ledger_sys \<Rightarrow> bool" where
  "sys_inv s \<longleftrightarrow> ledger_within (ls_ledger s) \<and>
     sl_active (ls_ledger s) = int (length (ls_running s)) \<and>
     sl_active (ls_ledger s) \<le> sl_concurrency (ls_ledger s) \<and>
     (sl_waiting (ls_ledger s) \<noteq> [] \<longrightarrow> sl_active (ls_ledger s) = sl_concurrency (ls_ledger s))"

text \<open>What one synchronous piece may do to the ledger while a call keeps its slot.\<close>

definition keeps_gate :: "'t scan_ledger \<Rightarrow> 't scan_ledger \<Rightarrow> bool" where
  "keeps_gate l l' \<longleftrightarrow> same_limits l l' \<and> sl_active l' = sl_active l \<and> sl_waiting l' = sl_waiting l \<and>
     (ledger_within l \<longrightarrow> ledger_within l')"

lemmas ledger_op_defs = ledger_acquire_def ledger_release_def ledger_abort_waiter_def
  same_limits_def ledger_within_def keeps_gate_def

lemma keeps_gate_refl: "keeps_gate l l"
  by (simp add: keeps_gate_def same_limits_def)

lemma tryReserve_keeps: "tryReserve l lane n = (l', ok) \<Longrightarrow> keeps_gate l l'"
  by (auto simp: tryReserve_def hasCapacity_iff ledger_op_defs split: if_splits lane.splits)

lemma transmit_admit_keeps: "transmit_admit l lane opts a = (l', r) \<Longrightarrow> keeps_gate l l'"
  by (auto simp: transmit_admit_def ledger_op_defs split: if_splits)

lemma transmit_commit_keeps: "transmit_commit l lane opts a ag = (l', r) \<Longrightarrow> keeps_gate l l'"
  by (cases "tryReserve l lane (reservationCount opts)")
     (auto simp: transmit_commit_def dest: tryReserve_keeps split: if_splits, auto simp: ledger_op_defs)

lemma sys_inv_keeps: "sys_inv s \<Longrightarrow> keeps_gate (ls_ledger s) l' \<Longrightarrow> sys_inv (s\<lparr>ls_ledger := l', ls_phase := p\<rparr>)"
  by (auto simp: sys_inv_def keeps_gate_def same_limits_def)

lemma sys_inv_finish:
  assumes "sys_inv s" and "keeps_gate (ls_ledger s) l" and "w \<in> set (ls_running s)"
  shows "sys_inv (sys_finish s l w)"
proof -
  have len: "Suc (length (remove1 w (ls_running s))) = length (ls_running s)"
    by (rule length_remove1_mem [OF assms(3)])
  show ?thesis
  proof (cases "next_waiter (sl_waiting l)")
    case None
    with assms len show ?thesis
      by (auto simp: sys_finish_def sys_inv_def ledger_op_defs)
  next
    case (Some u)
    then have "sl_waiting l \<noteq> []" using next_waiter_None_iff by fastforce
    with Some assms len show ?thesis
      by (auto simp: sys_finish_def sys_inv_def ledger_op_defs)
  qed
qed

lemma ledger_step_inv: "ledger_step s s' \<Longrightarrow> sys_inv s \<Longrightarrow> sys_inv s'"
proof (induction rule: ledger_step.induct)
  case (call_granted opts s w l')
  then show ?case by (auto simp: sys_inv_def ledger_op_defs split: if_splits)
next
  case (call_queued opts s w l')
  then show ?case by (auto simp: sys_inv_def ledger_op_defs split: if_splits)
next
  case (waiter_aborted w s)
  then show ?case by (auto simp: sys_inv_def ledger_op_defs)
next
  case (admitted w s opts aborted l')
  then show ?case by (auto dest: transmit_admit_keeps sys_inv_keeps)
next
  case (not_admitted w s opts aborted l' r)
  then show ?case by (auto dest: transmit_admit_keeps intro: sys_inv_finish)
next
  case (committed w s opts aborted ag l')
  then show ?case by (auto dest: transmit_commit_keeps sys_inv_keeps)
next
  case (not_committed w s opts aborted ag l' r)
  then show ?case by (auto dest: transmit_commit_keeps intro: sys_inv_finish)
next
  case (reserved_outside s lane n l' ok)
  then show ?case using sys_inv_keeps [of s l' "ls_phase s"] by (auto dest: tryReserve_keeps)
next
  case (dispatched w s aborted)
  then show ?case by (auto simp: sys_inv_def)
next
  case (not_dispatched w s aborted r)
  then show ?case by (blast intro: sys_inv_finish keeps_gate_refl)
next
  case (operation_ended w s)
  then show ?case by (blast intro: sys_inv_finish keeps_gate_refl)
qed

lemma ledger_step_limits: "ledger_step s s' \<Longrightarrow> same_limits (ls_ledger s) (ls_ledger s')"
proof (induction rule: ledger_step.induct)
  case (not_admitted w s opts aborted l' r)
  then show ?case by (auto dest!: transmit_admit_keeps simp: sys_finish_def ledger_op_defs split: option.splits)
next
  case (not_committed w s opts aborted ag l' r)
  then show ?case by (auto dest!: transmit_commit_keeps simp: sys_finish_def ledger_op_defs split: option.splits)
qed (auto simp: sys_finish_def ledger_op_defs split: option.splits if_splits
      dest!: transmit_admit_keeps transmit_commit_keeps tryReserve_keeps)

lemma new_scan_ledger_Inr:
  assumes "new_scan_ledger m c k = Inr l"
  shows "1 \<le> sl_maxRequests l \<and> 0 \<le> sl_cleanupReservedRequests l \<and>
         sl_cleanupReservedRequests l \<le> sl_maxRequests l \<and> 1 \<le> sl_concurrency l \<and>
         sl_scanCapacity l = sl_maxRequests l - sl_cleanupReservedRequests l \<and>
         sl_scanTransmitted l = 0 \<and> sl_cleanupTransmitted l = 0 \<and> sl_active l = 0 \<and> sl_waiting l = []"
proof -
  from assms obtain a b d where "m = JFin a" "c = JFin b" "k = JFin d"
    "of_int \<lfloor>a\<rfloor> = a" "of_int \<lfloor>b\<rfloor> = b" "of_int \<lfloor>d\<rfloor> = d" "1 \<le> a" "0 \<le> b" "b \<le> a" "1 \<le> d"
    by (cases m; cases c; cases k) (auto simp: new_scan_ledger_def not_less split: if_splits)
  with assms show ?thesis by (auto simp: new_scan_ledger_def floor_mono split: if_splits)
qed

lemma ledger_reachable_inv:
  assumes "new_scan_ledger m c k = Inr l0" and "ledger_reachable l0 s"
  shows "sys_inv s \<and> same_limits l0 (ls_ledger s)"
  using assms(2)
proof (induction rule: ledger_reachable.induct)
  case ledger_start
  show ?case using new_scan_ledger_Inr [OF assms(1)] by (simp add: sys_inv_def ledger_op_defs)
next
  case (ledger_next s s')
  then show ?case using ledger_step_inv ledger_step_limits by (fastforce simp: same_limits_def)
qed

text \<open>
  C6: In every state the ledger of a scan can reach, under any interleaving of
  transmissions, aborts and reservations, the ordinary lane has spent at most the capacity left
  beside the cleanup reserve, the cleanup lane at most the reserve, and both together at most
  \<^verbatim>\<open>maxRequests\<close>: ordinary traffic never consumes cleanup capacity.
\<close>

theorem ledger_budget_safe:
  assumes "new_scan_ledger m c k = Inr l0" and "ledger_reachable l0 s"
  shows "sl_scanTransmitted (ls_ledger s) \<le> sl_maxRequests l0 - sl_cleanupReservedRequests l0 \<and>
         sl_cleanupTransmitted (ls_ledger s) \<le> sl_cleanupReservedRequests l0 \<and>
         snap_totalTransmitted (ledger_snapshot_of (ls_ledger s)) \<le> sl_maxRequests l0"
  using ledger_reachable_inv [OF assms] new_scan_ledger_Inr [OF assms(1)]
  by (auto simp: sys_inv_def ledger_within_def same_limits_def ledger_snapshot_of_def)

text \<open>
  In every reachable state the number of calls that hold a slot is the ledger's
  \<^verbatim>\<open>inFlight\<close> counter and at most the configured concurrency, and calls wait only while all slots
  are taken.
\<close>

theorem ledger_concurrency_safe:
  assumes "new_scan_ledger m c k = Inr l0" and "ledger_reachable l0 s"
  shows "int (length (ls_running s)) = snap_inFlight (ledger_snapshot_of (ls_ledger s)) \<and>
         int (length (ls_running s)) \<le> sl_concurrency l0 \<and>
         (snap_queued (ledger_snapshot_of (ls_ledger s)) \<noteq> 0 \<longrightarrow> int (length (ls_running s)) = sl_concurrency l0)"
  using ledger_reachable_inv [OF assms]
  by (auto simp: sys_inv_def same_limits_def ledger_snapshot_of_def)

definition example_ledger :: "nat scan_ledger" where
  "example_ledger = \<lparr>sl_maxRequests = 3, sl_cleanupReservedRequests = 1, sl_concurrency = 1, sl_scanCapacity = 2,
     sl_scanTransmitted = 0, sl_cleanupTransmitted = 0, sl_active = 0, sl_waiting = [], sl_updates = []\<rparr>"

lemma example_ledger_new: "new_scan_ledger (jsint 3) (jsint 1) (jsint 1) = Inr example_ledger"
  by (simp add: new_scan_ledger_def example_ledger_def)

lemma example_ledger_reach:
  "\<exists>s. ledger_reachable example_ledger s \<and> sl_scanTransmitted (ls_ledger s) = 2 \<and> ls_running s = [(7, Scan)]"
proof -
  let ?s0 = "\<lparr>ls_ledger = example_ledger, ls_running = [], ls_phase = (\<lambda>_. TxSlot)\<rparr>"
  let ?o = "\<lparr>rateAlreadyReserved = False, beforeTransmit = None, reserveAtInitiation = False, reservationCount = jsint 1\<rparr>"
  obtain l1 where l1: "ledger_acquire example_ledger (7, Scan) = (l1, True)"
    and l1': "sl_scanTransmitted l1 = 0" "sl_scanCapacity l1 = 2"
    by (simp add: ledger_acquire_def example_ledger_def)
  obtain l2 where l2: "tryReserve l1 Scan (jsint 2) = (l2, True)" and l2': "sl_scanTransmitted l2 = 2"
    using l1' by (simp add: tryReserve_def hasCapacity_iff)
  have "ledger_reachable example_ledger ?s0" by (rule ledger_start)
  moreover have "ledger_step ?s0 (?s0\<lparr>ls_ledger := l1, ls_running := [(7, Scan)], ls_phase := (\<lambda>_. TxSlot)((7, Scan) := TxSlot)\<rparr>)"
    using call_granted [of ?o ?s0 "(7, Scan)" l1] l1
    by (simp add: transmit_precheck_def reservation_count_invalid_def guard_err_def)
  moreover have "ledger_step (?s0\<lparr>ls_ledger := l1, ls_running := [(7, Scan)], ls_phase := (\<lambda>_. TxSlot)((7, Scan) := TxSlot)\<rparr>)
     (?s0\<lparr>ls_ledger := l2, ls_running := [(7, Scan)], ls_phase := (\<lambda>_. TxSlot)((7, Scan) := TxSlot)\<rparr>)"
    using reserved_outside [of "?s0\<lparr>ls_ledger := l1, ls_running := [(7, Scan)], ls_phase := (\<lambda>_. TxSlot)((7, Scan) := TxSlot)\<rparr>" Scan "jsint 2" l2 True] l2
    by simp
  ultimately have "ledger_reachable example_ledger
     (?s0\<lparr>ls_ledger := l2, ls_running := [(7, Scan)], ls_phase := (\<lambda>_. TxSlot)((7, Scan) := TxSlot)\<rparr>)"
    by (blast intro: ledger_next)
  with l2' show ?thesis by fastforce
qed

theorem ledger_budget_safe_witness:
  "\<exists>s. ledger_reachable example_ledger s \<and> sl_scanTransmitted (ls_ledger s) = 2 \<and>
       snap_totalTransmitted (ledger_snapshot_of (ls_ledger s)) \<le> 3"
proof -
  obtain s where "ledger_reachable example_ledger s" "sl_scanTransmitted (ls_ledger s) = 2"
    using example_ledger_reach by blast
  with ledger_budget_safe [OF example_ledger_new this(1)] show ?thesis
    by (auto simp: example_ledger_def)
qed

theorem ledger_concurrency_safe_witness:
  "\<exists>s. ledger_reachable example_ledger s \<and> ls_running s = [(7, Scan)] \<and>
       snap_inFlight (ledger_snapshot_of (ls_ledger s)) = 1"
proof -
  obtain s where s: "ledger_reachable example_ledger s" "ls_running s = [(7, Scan)]"
    using example_ledger_reach by blast
  with ledger_concurrency_safe [OF example_ledger_new s(1)] show ?thesis by auto
qed

text \<open>
  When a slot is given back while calls wait, it goes to the oldest waiting cleanup
  call if there is one and to the oldest waiting call otherwise; that waiter leaves the queue and
  the number of busy slots does not change.
\<close>

theorem ledger_release_priority:
  assumes "sl_waiting l = ws @ w # vs" and "\<forall>v\<in>set ws. snd v = Scan"
    and "snd w = Cleanup \<or> ws = [] \<and> (\<forall>v\<in>set vs. snd v = Scan)" and "w \<notin> set ws"
  shows "\<exists>l'. ledger_release l = (l', Some w) \<and> sl_waiting l' = ws @ vs \<and> sl_active l' = sl_active l"
proof -
  have "next_waiter (sl_waiting l) = Some w"
  proof (cases "snd w = Cleanup")
    case True
    have "List.find (\<lambda>v. snd v = Cleanup) (ws @ w # vs) = Some w"
      using assms(2) True by (induction ws) auto
    then show ?thesis by (simp add: next_waiter_def assms(1))
  next
    case False
    then have "List.find (\<lambda>v. snd v = Cleanup) (w # vs) = None" and "ws = []"
      using assms(3) by (auto simp: find_None_iff)
    then show ?thesis by (simp add: next_waiter_def assms(1))
  qed
  moreover have "remove1 w (ws @ w # vs) = ws @ vs" using assms(4) by (simp add: remove1_append)
  ultimately show ?thesis using assms(1) by (simp add: ledger_release_def)
qed

theorem ledger_release_priority_witness:
  "\<exists>l'. ledger_release (example_ledger\<lparr>sl_active := 1, sl_waiting := [(1, Scan), (2, Cleanup), (3, Scan)]\<rparr>) = (l', Some (2, Cleanup)) \<and>
        sl_waiting l' = [(1, Scan), (3, Scan)] \<and> sl_active l' = 1"
  using ledger_release_priority [of "example_ledger\<lparr>sl_active := 1, sl_waiting := [(1, Scan), (2, Cleanup), (3, Scan)]\<rparr>"
      "[(1, Scan)]" "(2, Cleanup)" "[(3, Scan)]"]
  by simp

end
