(* ===== verification/RC_Authorization.thy ===== *)
theory RC_Authorization
  imports RC_Url RC_Ledger
begin

text \<open>
  Target authorization: the contracts of \<^verbatim>\<open>core/authorization/TargetAuthorization.ts\<close> and
  \<^verbatim>\<open>core/authorization/ProductionCampaign.ts\<close> with their schema refinements, and the guard that a
  scan shares between all its HTTP and browser brokers. A contract field whose schema admits one
  literal value only (a schema version, a report mode, the retention policy) is not a field of the
  model. A date is the number \<^verbatim>\<open>Date.parse\<close> gives for it.
\<close>

section \<open>Contracts\<close>

record asset =
  as_origin :: string
  as_pathPrefix :: string

datatype effect = EffRead | EffAuthentication | EffMutation | EffDestructive

text \<open>\<open>ru_expectedStatuses\<close> belongs to campaign requests only; it is empty in a program rule.\<close>

record request_rule =
  ru_origin :: string
  ru_path :: string
  ru_method :: string
  ru_effect :: effect
  ru_bodySha256 :: "string option"
  ru_expectedStatuses :: "int list"

text \<open>The fields that a bug-bounty program and a production campaign share.\<close>

record request_program =
  pr_program :: string
  pr_platform :: string
  pr_inScope :: "asset list"
  pr_outOfScope :: "asset list"
  pr_rules :: "string list"
  pr_prohibitedActions :: "string list"
  pr_startsAt :: int
  pr_expiresAt :: int
  pr_maxRequests :: int
  pr_rateLimitPerSecond :: int
  pr_authenticationPermitted :: bool
  pr_mutationPermitted :: bool
  pr_destructivePermitted :: bool
  pr_racePermitted :: bool
  pr_requests :: "request_rule list"

record bug_bounty = request_program +
  bb_scopeDocumentSha256 :: string
  bb_disposableAccountsSupplied :: bool

record static_asset =
  sa_origin :: string
  sa_pathPrefix :: string
  sa_extensions :: "string list"

datatype campaign_workflow = PublicDiscovery | PublicReadOnly | AuthenticatedReadOnly
datatype housekeeping = NonePublicUnauthenticated | SessionLastUsedAtUpdate
datatype identity_slot = SlotPrimary | SlotAccountA | SlotAccountB
datatype identity_model = TenantAware | PrincipalRole

record campaign_identity =
  ci_slot :: identity_slot
  ci_identityModel :: identity_model
  ci_principalFingerprint :: string
  ci_credentialSha256 :: string
  ci_provisionedAt :: int
  ci_syntheticNamespace :: string

record workflow_authorization =
  wa_id :: string
  wa_family :: string
  wa_actorIds :: "string list"
  wa_ownerPolicySha256 :: "string option"
  wa_applicable :: bool

text \<open>The two versions of the identity part of a campaign.\<close>

datatype campaign_contract =
    LegacyContract (lc_disposableAccountsSupplied: bool) (lc_identities: "campaign_identity list")
  | ContractV2 (v2_actorRegistryDigest: string) (v2_actorIds: "string list")
      (v2_workflowAuthorizations: "workflow_authorization list")

record production_campaign = request_program +
  pc_campaignId :: string
  pc_concurrency :: int
  pc_requestTimeoutMs :: int
  pc_maxDurationMs :: int
  pc_maxResponseBytes :: int
  pc_staticAssets :: "static_asset list"
  pc_workflows :: "campaign_workflow list"
  pc_sessionHousekeeping :: housekeeping
  pc_contract :: campaign_contract

datatype auth_mode = OwnedProduction | InternalStaging | PreHandoverAssault | BugBountyAuthorized

record target_authorization =
  ta_mode :: auth_mode
  ta_targetOrigin :: string
  ta_proofReference :: string
  ta_proofSha256 :: string
  ta_productionCampaign :: "production_campaign option"
  ta_bugBounty :: "bug_bounty option"

section \<open>Schema refinements\<close>

text \<open>\<^verbatim>\<open>originSchema\<close>: an exact HTTP(S) origin.\<close>

definition origin_valid :: "runtime \<Rightarrow> string \<Rightarrow> bool" where
  "origin_valid rt v =
     (case rt_newURL rt v of None \<Rightarrow> False | Some u \<Rightarrow> is_web_protocol (u_protocol u) \<and> url_origin u = v)"

text \<open>\<^verbatim>\<open>pathSchema\<close> of the target authorization.\<close>

definition path_valid :: "string \<Rightarrow> bool" where
  "path_valid v \<longleftrightarrow> len_between 1 1000 v \<and> starts_with v ''/'' \<and>
     \<not> contains_any [CHR ''?'', CHR ''#'', CHR ''%'', CHR 0x5C] v \<and> \<not> has_dot_segment v"

text \<open>The path schema of a production campaign also refuses \<^verbatim>\<open>;\<close> and empty segments.\<close>

definition campaign_path_valid :: "string \<Rightarrow> bool" where
  "campaign_path_valid v \<longleftrightarrow> len_between 1 1000 v \<and> starts_with v ''/'' \<and>
     \<not> contains_any [CHR ''?'', CHR ''#'', CHR ''%'', CHR 0x5C, CHR '';''] v \<and>
     \<not> includes_sub v ''//'' \<and> \<not> has_dot_segment v"

definition matchesAsset :: "url \<Rightarrow> asset \<Rightarrow> bool" where
  "matchesAsset u a =
     (let prefix = strip_trailing_slash (as_pathPrefix a) in
      url_origin u = as_origin a \<and>
      (prefix = [] \<or> u_pathname u = prefix \<or> starts_with (u_pathname u) (prefix @ ''/'')))"

definition productionAssetMatches :: "url \<Rightarrow> asset \<Rightarrow> bool" where
  "productionAssetMatches u a =
     (let p = strip_trailing_slash (as_pathPrefix a) in
      url_origin u = as_origin a \<and>
      (p = [] \<or> u_pathname u = p \<or> starts_with (u_pathname u) (p @ ''/'')))"

definition asset_valid :: "runtime \<Rightarrow> (string \<Rightarrow> bool) \<Rightarrow> asset \<Rightarrow> bool" where
  "asset_valid rt path_ok a \<longleftrightarrow> origin_valid rt (as_origin a) \<and> path_ok (as_pathPrefix a)"

definition rule_valid :: "runtime \<Rightarrow> request_rule \<Rightarrow> bool" where
  "rule_valid rt r \<longleftrightarrow> origin_valid rt (ru_origin r) \<and> path_valid (ru_path r) \<and>
     ru_method r \<in> {''GET'', ''HEAD'', ''OPTIONS'', ''POST'', ''PUT'', ''PATCH'', ''DELETE'', ''CONNECT''} \<and>
     (case ru_bodySha256 r of None \<Rightarrow> True | Some h \<Rightarrow> is_hex_digest 64 h) \<and> ru_expectedStatuses r = []"

text \<open>A declared location lies inside the scope: its URL parses, an in-scope asset holds it, no
  out-of-scope asset does.\<close>

definition location_in_scope :: "runtime \<Rightarrow> (url \<Rightarrow> asset \<Rightarrow> bool) \<Rightarrow> asset list \<Rightarrow> asset list \<Rightarrow> string \<Rightarrow> bool" where
  "location_in_scope rt matches inScope outOfScope loc =
     (case rt_newURL rt loc of
        None \<Rightarrow> False
      | Some u \<Rightarrow> list_ex (matches u) inScope \<and> \<not> list_ex (matches u) outOfScope)"

definition bugBounty_shape_valid :: "runtime \<Rightarrow> bug_bounty \<Rightarrow> bool" where
  "bugBounty_shape_valid rt b \<longleftrightarrow>
     len_between 3 160 (pr_program b) \<and> len_between 2 120 (pr_platform b) \<and>
     is_hex_digest 64 (bb_scopeDocumentSha256 b) \<and>
     len_between 1 100 (pr_inScope b) \<and> list_all (asset_valid rt path_valid) (pr_inScope b) \<and>
     len_between 0 100 (pr_outOfScope b) \<and> list_all (asset_valid rt path_valid) (pr_outOfScope b) \<and>
     len_between 1 100 (pr_rules b) \<and> list_all (len_between 1 500) (pr_rules b) \<and>
     len_between 1 100 (pr_prohibitedActions b) \<and> list_all (len_between 1 240) (pr_prohibitedActions b) \<and>
     int_between 1 10000 (pr_maxRequests b) \<and> int_between 1 50 (pr_rateLimitPerSecond b) \<and>
     len_between 0 200 (pr_requests b) \<and> list_all (rule_valid rt) (pr_requests b)"

definition rule_refined :: "runtime \<Rightarrow> bug_bounty \<Rightarrow> request_rule \<Rightarrow> bool" where
  "rule_refined rt b r \<longleftrightarrow>
     location_in_scope rt matchesAsset (pr_inScope b) (pr_outOfScope b) (ru_origin r @ ru_path r) \<and>
     \<not> (ru_effect r = EffRead \<and> ru_method r \<notin> {''GET'', ''HEAD'', ''OPTIONS''} \<and> ru_bodySha256 r = None) \<and>
     \<not> (ru_method r = ''DELETE'' \<and> ru_effect r \<noteq> EffDestructive)"

definition bugBounty_refined :: "runtime \<Rightarrow> bug_bounty \<Rightarrow> bool" where
  "bugBounty_refined rt b \<longleftrightarrow>
     pr_startsAt b < pr_expiresAt b \<and>
     \<not> ((pr_destructivePermitted b \<or> pr_racePermitted b) \<and> \<not> pr_mutationPermitted b) \<and>
     \<not> (pr_mutationPermitted b \<and> \<not> bb_disposableAccountsSupplied b) \<and>
     \<not> has_duplicates (map (\<lambda>r. ru_origin r @ ru_path r @ '':'' @ ru_method r) (pr_requests b)) \<and>
     list_all (rule_refined rt b) (pr_requests b)"

definition campaign_request_valid :: "runtime \<Rightarrow> request_rule \<Rightarrow> bool" where
  "campaign_request_valid rt r \<longleftrightarrow> origin_valid rt (ru_origin r) \<and> campaign_path_valid (ru_path r) \<and>
     ru_method r \<in> {''GET'', ''HEAD'', ''OPTIONS''} \<and> ru_effect r = EffRead \<and> ru_bodySha256 r = None \<and>
     len_between 1 10 (ru_expectedStatuses r) \<and> list_all (int_between 100 599) (ru_expectedStatuses r)"

definition static_asset_valid :: "runtime \<Rightarrow> static_asset \<Rightarrow> bool" where
  "static_asset_valid rt a \<longleftrightarrow> origin_valid rt (sa_origin a) \<and> campaign_path_valid (sa_pathPrefix a) \<and>
     2 < length (sa_pathPrefix a) \<and> ends_with (sa_pathPrefix a) ''/'' \<and>
     len_between 1 8 (sa_extensions a) \<and>
     list_all (\<lambda>e. e \<in> {''.js'', ''.css'', ''.woff2'', ''.woff'', ''.png'', ''.svg'', ''.ico'', ''.webp''}) (sa_extensions a)"

definition namespace_valid :: "string \<Rightarrow> bool" where
  "namespace_valid s \<longleftrightarrow> starts_with s ''routecairn-'' \<and> len_between 19 91 s \<and>
     list_all (\<lambda>c. c \<in> set ''abcdefghijklmnopqrstuvwxyz0123456789-'') (drop 11 s)"

definition campaign_identity_valid :: "campaign_identity \<Rightarrow> bool" where
  "campaign_identity_valid i \<longleftrightarrow> is_hex_digest 16 (ci_principalFingerprint i) \<and>
     is_hex_digest 64 (ci_credentialSha256 i) \<and> namespace_valid (ci_syntheticNamespace i)"

definition actor_id_valid :: "string \<Rightarrow> bool" where
  "actor_id_valid s \<longleftrightarrow> len_between 1 64 s \<and> hd s \<in> set ''abcdefghijklmnopqrstuvwxyz'' \<and>
     list_all (\<lambda>c. c \<in> set ''abcdefghijklmnopqrstuvwxyz0123456789_-'') (tl s) \<and>
     s \<notin> {''__proto__'', ''constructor'', ''prototype''}"

definition workflow_authorization_valid :: "workflow_authorization \<Rightarrow> bool" where
  "workflow_authorization_valid w \<longleftrightarrow> actor_id_valid (wa_id w) \<and>
     wa_family w \<in> {''PUBLIC_OBSERVATION'', ''AUTHENTICATED_OBSERVATION'', ''PRINCIPAL_OBSERVATION'',
       ''OWNERSHIP_COMPARISON'', ''ROLE_COMPARISON'', ''TENANT_COMPARISON'', ''BROWSER_OBSERVATION'', ''LEGACY_SPECIALIZED''} \<and>
     len_between 0 8 (wa_actorIds w) \<and> list_all actor_id_valid (wa_actorIds w) \<and>
     (case wa_ownerPolicySha256 w of None \<Rightarrow> True | Some h \<Rightarrow> is_hex_digest 64 h)"

definition is_hex_any :: "char \<Rightarrow> bool" where
  "is_hex_any c \<longleftrightarrow> c \<in> set ''0123456789abcdefABCDEF''"

definition is_uuid :: "string \<Rightarrow> bool" where
  "is_uuid s \<longleftrightarrow> map length (split_on (CHR ''-'') s) = [8, 4, 4, 4, 12] \<and>
     list_all (list_all is_hex_any) (split_on (CHR ''-'') s)"

definition campaign_shape_valid :: "runtime \<Rightarrow> production_campaign \<Rightarrow> bool" where
  "campaign_shape_valid rt c \<longleftrightarrow>
     is_uuid (pc_campaignId c) \<and> len_between 3 160 (pr_program c) \<and> pr_platform c = ''OWNER_CONTROLLED'' \<and>
     int_between 1 300 (pr_maxRequests c) \<and> int_between 1 3 (pr_rateLimitPerSecond c) \<and>
     int_between 1 2 (pc_concurrency c) \<and> int_between 1000 30000 (pc_requestTimeoutMs c) \<and>
     int_between 1000 600000 (pc_maxDurationMs c) \<and> int_between 512 (1024 * 1024) (pc_maxResponseBytes c) \<and>
     len_between 1 8 (pr_inScope c) \<and> list_all (asset_valid rt campaign_path_valid) (pr_inScope c) \<and>
     len_between 0 100 (pr_outOfScope c) \<and> list_all (asset_valid rt campaign_path_valid) (pr_outOfScope c) \<and>
     len_between 1 30 (pr_rules c) \<and> list_all (len_between 3 240) (pr_rules c) \<and>
     len_between 1 30 (pr_prohibitedActions c) \<and> list_all (len_between 3 240) (pr_prohibitedActions c) \<and>
     len_between 1 100 (pr_requests c) \<and> list_all (campaign_request_valid rt) (pr_requests c) \<and>
     len_between 0 8 (pc_staticAssets c) \<and> list_all (static_asset_valid rt) (pc_staticAssets c) \<and>
     len_between 1 3 (pc_workflows c) \<and>
     \<not> pr_mutationPermitted c \<and> \<not> pr_destructivePermitted c \<and> \<not> pr_racePermitted c \<and>
     (case pc_contract c of
        LegacyContract d ids \<Rightarrow> len_between 0 3 ids \<and> list_all campaign_identity_valid ids
      | ContractV2 digest actorIds ws \<Rightarrow>
          is_hex_digest 64 digest \<and> len_between 0 8 actorIds \<and> list_all (len_between 1 64) actorIds \<and>
          len_between 0 64 ws \<and> list_all workflow_authorization_valid ws)"

definition campaign_locations :: "production_campaign \<Rightarrow> string list" where
  "campaign_locations c =
     map (\<lambda>r. ru_origin r @ ru_path r) (pr_requests c) @ map (\<lambda>a. sa_origin a @ sa_pathPrefix a) (pc_staticAssets c)"

text \<open>The refinements both campaign versions share.\<close>

definition campaign_common_refined :: "runtime \<Rightarrow> production_campaign \<Rightarrow> bool" where
  "campaign_common_refined rt c \<longleftrightarrow>
     pr_startsAt c < pr_expiresAt c \<and>
     \<not> has_duplicates (map (\<lambda>r. ru_origin r @ ru_path r @ '':'' @ ru_method r) (pr_requests c)) \<and>
     list_all (location_in_scope rt productionAssetMatches (pr_inScope c) (pr_outOfScope c)) (campaign_locations c)"

definition legacy_campaign_refined :: "production_campaign \<Rightarrow> bool \<Rightarrow> campaign_identity list \<Rightarrow> bool" where
  "legacy_campaign_refined c disposable ids =
     (if pr_authenticationPermitted c then
        \<not> (\<not> disposable \<or> length ids \<noteq> 3 \<or> card (set (map ci_slot ids)) \<noteq> 3 \<or>
           card (set (map ci_principalFingerprint ids)) \<noteq> 3 \<or> AuthenticatedReadOnly \<notin> set (pc_workflows c) \<or>
           pc_sessionHousekeeping c \<noteq> SessionLastUsedAtUpdate \<or> pc_staticAssets c \<noteq> []) \<and>
        \<not> list_ex (\<lambda>i. ci_provisionedAt i < pr_startsAt c \<or> pr_expiresAt c \<le> ci_provisionedAt i) ids
      else \<not> (ids \<noteq> [] \<or> disposable \<or> AuthenticatedReadOnly \<in> set (pc_workflows c) \<or>
              pc_sessionHousekeeping c \<noteq> NonePublicUnauthenticated))"

definition v2_campaign_refined :: "production_campaign \<Rightarrow> string list \<Rightarrow> workflow_authorization list \<Rightarrow> bool" where
  "v2_campaign_refined c actorIds ws \<longleftrightarrow>
     \<not> has_duplicates (map wa_id ws) \<and>
     \<not> (pr_authenticationPermitted c \<and> AuthenticatedReadOnly \<notin> set (pc_workflows c)) \<and>
     \<not> (\<not> pr_authenticationPermitted c \<and>
        (AuthenticatedReadOnly \<in> set (pc_workflows c) \<or> pc_sessionHousekeeping c \<noteq> NonePublicUnauthenticated)) \<and>
     \<not> has_duplicates actorIds \<and>
     \<not> list_ex (\<lambda>w. list_ex (\<lambda>i. i \<notin> set actorIds) (wa_actorIds w)) ws \<and>
     \<not> (\<not> pr_authenticationPermitted c \<and> actorIds \<noteq> []) \<and>
     \<not> (pr_authenticationPermitted c \<and>
        (pc_sessionHousekeeping c \<noteq> SessionLastUsedAtUpdate \<or> pc_staticAssets c \<noteq> []))"

definition productionCampaign_valid :: "runtime \<Rightarrow> production_campaign \<Rightarrow> bool" where
  "productionCampaign_valid rt c \<longleftrightarrow> campaign_shape_valid rt c \<and> campaign_common_refined rt c \<and>
     (case pc_contract c of
        LegacyContract d ids \<Rightarrow> legacy_campaign_refined c d ids
      | ContractV2 digest actorIds ws \<Rightarrow> v2_campaign_refined c actorIds ws)"

text \<open>\<^verbatim>\<open>targetAuthorizationSchema\<close>: whether \<^verbatim>\<open>parse\<close> accepts a contract.\<close>

definition targetAuthorization_valid :: "runtime \<Rightarrow> target_authorization \<Rightarrow> bool" where
  "targetAuthorization_valid rt v \<longleftrightarrow>
     origin_valid rt (ta_targetOrigin v) \<and> len_between 3 240 (ta_proofReference v) \<and>
     is_hex_digest 64 (ta_proofSha256 v) \<and>
     (case ta_productionCampaign v of None \<Rightarrow> True | Some c \<Rightarrow> productionCampaign_valid rt c) \<and>
     (case ta_bugBounty v of None \<Rightarrow> True | Some b \<Rightarrow> bugBounty_shape_valid rt b) \<and>
     (ta_mode v = BugBountyAuthorized \<longleftrightarrow> ta_bugBounty v \<noteq> None) \<and>
     (case ta_productionCampaign v of
        None \<Rightarrow> True
      | Some c \<Rightarrow> \<not> (ta_bugBounty v \<noteq> None \<or> ta_mode v \<notin> {OwnedProduction, InternalStaging}) \<and>
          \<not> (pr_authenticationPermitted c \<and>
             (list_ex (\<lambda>a. as_origin a \<noteq> ta_targetOrigin v) (pr_inScope c) \<or>
              list_ex (\<lambda>r. ru_origin r \<noteq> ta_targetOrigin v) (pr_requests c)))) \<and>
     (case ta_bugBounty v of None \<Rightarrow> True | Some b \<Rightarrow> bugBounty_refined rt b)"

lemma productionAssetMatches_eq: "productionAssetMatches = matchesAsset"
  by (simp add: fun_eq_iff productionAssetMatches_def matchesAsset_def)

end
