(* ===== verification/RC_Guard.thy ===== *)
theory RC_Guard
  imports RC_Authorization
begin

text \<open>
  The \<^verbatim>\<open>TargetAuthorizationGuard\<close> of \<^verbatim>\<open>core/authorization/TargetAuthorization.ts\<close>: the decision
  \<^verbatim>\<open>check\<close>, the reservations that charge the request budget and the one-second rate window, and the
  private permits of native browser attempts. The lemmas show that a charged request was approved
  by the contract, that the budget and the rate window hold over every sequence of operations, and
  that a permit is good for one initiation of exactly the request it was given for.
\<close>

section \<open>Decisions\<close>

datatype denial =
    CampaignBodyProhibited | InvalidUrl | AmbiguousPath | CampaignRequestNotApproved | WindowClosed
  | AssetOutOfScope | RequestNotApproved | AuthenticationProhibited | MutationProhibited
  | DestructiveProhibited | BodyMismatch | BudgetExhausted | RateLimited | InvalidGroup | UrlTypeError

fun denial_text :: "denial \<Rightarrow> string" where
  "denial_text CampaignBodyProhibited = ''authorization-campaign-body-prohibited''"
| "denial_text InvalidUrl = ''authorization-invalid-url''"
| "denial_text AmbiguousPath = ''authorization-ambiguous-path''"
| "denial_text CampaignRequestNotApproved = ''authorization-campaign-request-not-approved''"
| "denial_text WindowClosed = ''authorization-window-closed''"
| "denial_text AssetOutOfScope = ''authorization-asset-out-of-scope''"
| "denial_text RequestNotApproved = ''authorization-request-not-approved''"
| "denial_text AuthenticationProhibited = ''authorization-authentication-prohibited''"
| "denial_text MutationProhibited = ''authorization-mutation-prohibited''"
| "denial_text DestructiveProhibited = ''authorization-destructive-prohibited''"
| "denial_text BodyMismatch = ''authorization-body-mismatch''"
| "denial_text BudgetExhausted = ''authorization-budget-exhausted''"
| "denial_text RateLimited = ''authorization-rate-limit''"
| "denial_text InvalidGroup = ''authorization-invalid-group''"
| "denial_text UrlTypeError = ''TypeError: Invalid URL''"

text \<open>A native browser reservation, held in a \<^verbatim>\<open>WeakMap\<close> under a fresh permit object.\<close>

record browser_reservation =
  rv_time :: int
  rv_url :: string
  rv_method :: string
  rv_bodyHash :: string

record auth_guard =
  gd_plan :: target_authorization
  gd_startedAt :: int
  gd_transmitted :: int
  gd_recent :: "int list"
  gd_permits :: "nat \<rightharpoonup> browser_reservation"
  gd_nextPermit :: nat

definition new_auth_guard :: "runtime \<Rightarrow> target_authorization \<Rightarrow> int \<Rightarrow> string + auth_guard" where
  "new_auth_guard rt input now =
     (if targetAuthorization_valid rt input then
        Inr \<lparr>gd_plan = input, gd_startedAt = now, gd_transmitted = 0, gd_recent = [],
             gd_permits = Map.empty, gd_nextPermit = 0\<rparr>
      else Inl ''ZodError'')"

definition requestPolicy :: "target_authorization \<Rightarrow> request_program option" where
  "requestPolicy plan =
     (case ta_productionCampaign plan of
        Some c \<Rightarrow> Some (request_program.truncate c)
      | None \<Rightarrow> map_option request_program.truncate (ta_bugBounty plan))"

definition productionCampaignRequestAllowed :: "production_campaign \<Rightarrow> url \<Rightarrow> string \<Rightarrow> bool" where
  "productionCampaignRequestAllowed p u verb =
     (if u_search u \<noteq> [] \<or> u_hash u \<noteq> [] then False
      else if list_ex (\<lambda>r. ru_origin r = url_origin u \<and> ru_path r = u_pathname u \<and> ru_method r = verb) (pr_requests p)
      then True
      else verb = ''GET'' \<and>
           list_ex (\<lambda>a. url_origin u = sa_origin a \<and> starts_with (u_pathname u) (sa_pathPrefix a) \<and>
                        list_ex (\<lambda>e. ends_with (u_pathname u) e) (sa_extensions a)) (pc_staticAssets p))"

text \<open>\<^verbatim>\<open>url.split(/[?#]/, 1)[0].replace(/^https?:\/\//, "")\<close>.\<close>

definition before_query :: "string \<Rightarrow> string" where
  "before_query s = takeWhile (\<lambda>c. c \<noteq> CHR ''?'' \<and> c \<noteq> CHR ''#'') s"

definition strip_web_scheme :: "string \<Rightarrow> string" where
  "strip_web_scheme s =
     (if starts_with s ''http://'' then drop 7 s else if starts_with s ''https://'' then drop 8 s else s)"

definition ambiguous_path :: "string \<Rightarrow> url \<Rightarrow> bool" where
  "ambiguous_path s u \<longleftrightarrow>
     contains_any [CHR ''%'', CHR 0x5C, CHR '';''] (strip_web_scheme (before_query s)) \<or>
     includes_sub (u_pathname u) ''//''"

definition rule_for :: "request_program \<Rightarrow> url \<Rightarrow> string \<Rightarrow> request_rule option" where
  "rule_for program u verb =
     List.find (\<lambda>item. ru_origin item = url_origin u \<and> ru_path item = u_pathname u \<and> ru_method item = to_upper verb)
       (pr_requests program)"

text \<open>The effect of a request: that of its rule, \<open>EffRead\<close> for an unlisted safe method, \<open>None\<close> for
  the value \<^verbatim>\<open>UNAPPROVED\<close>.\<close>

definition effect_of :: "request_rule option \<Rightarrow> string \<Rightarrow> effect option" where
  "effect_of rule verb =
     (case rule of
        Some r \<Rightarrow> Some (ru_effect r)
      | None \<Rightarrow> if to_upper verb \<in> {''GET'', ''HEAD'', ''OPTIONS''} then Some EffRead else None)"

definition check :: "runtime \<Rightarrow> auth_guard \<Rightarrow> int \<Rightarrow> string \<Rightarrow> string \<Rightarrow> string option \<Rightarrow> denial option" where
  "check rt g now url verb body =
     (case requestPolicy (gd_plan g) of
        None \<Rightarrow> None
      | Some program \<Rightarrow>
         (if ta_productionCampaign (gd_plan g) \<noteq> None \<and> body \<noteq> None \<and> body \<noteq> Some [] then Some CampaignBodyProhibited
          else case rt_newURL rt url of
            None \<Rightarrow> Some InvalidUrl
          | Some parsed \<Rightarrow>
             (if u_username parsed \<noteq> [] \<or> u_password parsed \<noteq> [] \<or> \<not> is_web_protocol (u_protocol parsed) then Some InvalidUrl
              else if ambiguous_path url parsed then Some AmbiguousPath
              else if (case ta_productionCampaign (gd_plan g) of
                         None \<Rightarrow> False
                       | Some c \<Rightarrow> pc_maxDurationMs c \<le> now - gd_startedAt g \<or>
                                   \<not> productionCampaignRequestAllowed c parsed (to_upper verb))
                   then Some CampaignRequestNotApproved
              else if now < pr_startsAt program \<or> pr_expiresAt program \<le> now then Some WindowClosed
              else if list_ex (matchesAsset parsed) (pr_outOfScope program) \<or>
                      \<not> list_ex (matchesAsset parsed) (pr_inScope program) then Some AssetOutOfScope
              else (let rule = rule_for program parsed verb in
                case effect_of rule verb of
                  None \<Rightarrow> Some RequestNotApproved
                | Some eff \<Rightarrow>
                   (if eff = EffAuthentication \<and> \<not> pr_authenticationPermitted program then Some AuthenticationProhibited
                    else if (eff = EffMutation \<or> eff = EffDestructive) \<and> \<not> pr_mutationPermitted program then Some MutationProhibited
                    else if eff = EffDestructive \<and> \<not> pr_destructivePermitted program then Some DestructiveProhibited
                    else case (Option.bind rule ru_bodySha256, body) of
                           (Some h, Some b) \<Rightarrow> if rt_sha256 rt b \<noteq> h then Some BodyMismatch else None
                         | _ \<Rightarrow> None)))))"

section \<open>Reservations\<close>

definition window :: "int \<Rightarrow> int list \<Rightarrow> int list" where
  "window now = filter (\<lambda>time. now - time < 1000)"

text \<open>
  The exact-body test of \<^verbatim>\<open>reserve\<close> finds its rule by comparing concatenated strings; in
  \<^verbatim>\<open>reserveBatch\<close> it compares origin and path separately.
\<close>

definition reserve_rule :: "runtime \<Rightarrow> request_program \<Rightarrow> string \<Rightarrow> string \<Rightarrow> request_rule option" where
  "reserve_rule rt program url verb =
     (case rt_newURL rt url of
        None \<Rightarrow> None
      | Some u \<Rightarrow> List.find (\<lambda>item. ru_origin item @ ru_path item = url_origin u @ u_pathname u \<and>
                               ru_method item = to_upper verb) (pr_requests program))"

definition body_mismatch :: "runtime \<Rightarrow> request_rule option \<Rightarrow> string option \<Rightarrow> bool" where
  "body_mismatch rt rule body =
     (case Option.bind rule ru_bodySha256 of
        None \<Rightarrow> False
      | Some h \<Rightarrow> rt_sha256 rt (or_else body []) \<noteq> h)"

text \<open>The clock is read once by \<^verbatim>\<open>check\<close> (\<open>nowC\<close>) and once for the rate window (\<open>nowR\<close>).\<close>

definition reserve :: "runtime \<Rightarrow> auth_guard \<Rightarrow> int \<Rightarrow> int \<Rightarrow> string \<Rightarrow> string \<Rightarrow> string option \<Rightarrow> denial option \<times> auth_guard" where
  "reserve rt g nowC nowR url verb body =
     (case check rt g nowC url verb body of
        Some d \<Rightarrow> (Some d, g)
      | None \<Rightarrow>
         (case requestPolicy (gd_plan g) of
            None \<Rightarrow> (None, g)
          | Some program \<Rightarrow>
             (if body_mismatch rt (reserve_rule rt program url verb) body then (Some BodyMismatch, g)
              else if pr_maxRequests program \<le> gd_transmitted g then (Some BudgetExhausted, g)
              else (let g1 = g\<lparr>gd_recent := window nowR (gd_recent g)\<rparr> in
                if pr_rateLimitPerSecond program \<le> int (length (gd_recent g1)) then (Some RateLimited, g1)
                else (None, g1\<lparr>gd_recent := gd_recent g1 @ [nowR], gd_transmitted := gd_transmitted g1 + 1\<rparr>)))))"

datatype browser_reserve_result = BrowserDenied denial | BrowserUngoverned | BrowserPermit nat

definition reserveBrowserAttempt ::
    "runtime \<Rightarrow> auth_guard \<Rightarrow> int \<Rightarrow> int \<Rightarrow> string \<Rightarrow> string \<Rightarrow> string option \<Rightarrow> browser_reserve_result \<times> auth_guard" where
  "reserveBrowserAttempt rt g nowC nowR url verb body =
     (case reserve rt g nowC nowR url verb body of
        (Some d, g') \<Rightarrow> (BrowserDenied d, g')
      | (None, g') \<Rightarrow>
         (case requestPolicy (gd_plan g) of
            None \<Rightarrow> (BrowserUngoverned, g')
          | Some _ \<Rightarrow>
             (BrowserPermit (gd_nextPermit g'),
              g'\<lparr>gd_permits := (gd_permits g')(gd_nextPermit g' \<mapsto>
                    \<lparr>rv_time = last (gd_recent g'), rv_url = url, rv_method = to_upper verb,
                     rv_bodyHash = rt_sha256 rt (or_else body [])\<rparr>),
                 gd_nextPermit := Suc (gd_nextPermit g')\<rparr>)))"

definition drop_permit :: "nat option \<Rightarrow> auth_guard \<Rightarrow> auth_guard" where
  "drop_permit permit g = (case permit of None \<Rightarrow> g | Some p \<Rightarrow> g\<lparr>gd_permits := (gd_permits g)(p := None)\<rparr>)"

definition beginReservedBrowserAttempt ::
    "runtime \<Rightarrow> auth_guard \<Rightarrow> int \<Rightarrow> int \<Rightarrow> nat option \<Rightarrow> string \<Rightarrow> string \<Rightarrow> string \<Rightarrow> denial option \<times> auth_guard" where
  "beginReservedBrowserAttempt rt g nowC nowR permit url verb body =
     (case requestPolicy (gd_plan g) of
        None \<Rightarrow> (None, g)
      | Some program \<Rightarrow>
         (let g1 = drop_permit permit g in
          case Option.bind permit (gd_permits g) of
            None \<Rightarrow> (Some RequestNotApproved, g1)
          | Some rv \<Rightarrow>
             (if rv_url rv \<noteq> url \<or> rv_method rv \<noteq> to_upper verb \<or> rv_bodyHash rv \<noteq> rt_sha256 rt body
              then (Some RequestNotApproved, g1)
              else case check rt g1 nowC url verb (Some body) of
                Some d \<Rightarrow> (Some d, g1)
              | None \<Rightarrow>
                 (if pr_maxRequests program < gd_transmitted g1 then (Some BudgetExhausted, g1)
                  else (let rest = remove1 (rv_time rv) (window nowR (gd_recent g1)) in
                    if pr_rateLimitPerSecond program \<le> int (length rest) then (Some RateLimited, g1)
                    else (None, g1\<lparr>gd_recent := rest @ [nowR]\<rparr>))))))"

record batch_request =
  br_url :: string
  br_method :: string
  br_body :: "string option"
  br_checkedAt :: int

text \<open>Without a request policy an unparsable member still throws in \<^verbatim>\<open>new URL\<close> (\<open>UrlTypeError\<close>).\<close>

definition batch_member :: "runtime \<Rightarrow> auth_guard \<Rightarrow> batch_request \<Rightarrow> denial + unit" where
  "batch_member rt g r =
     (case check rt g (br_checkedAt r) (br_url r) (br_method r) (br_body r) of
        Some d \<Rightarrow> Inl d
      | None \<Rightarrow>
         (case rt_newURL rt (br_url r) of
            None \<Rightarrow> Inl UrlTypeError
          | Some u \<Rightarrow>
              guard_err
                (body_mismatch rt (Option.bind (requestPolicy (gd_plan g)) (\<lambda>program. rule_for program u (br_method r))) (br_body r))
                BodyMismatch))"

definition reserveBatch :: "runtime \<Rightarrow> auth_guard \<Rightarrow> int \<Rightarrow> batch_request list \<Rightarrow> denial option \<times> auth_guard" where
  "reserveBatch rt g nowR requests =
     (if requests = [] \<or> 5 < length requests then (Some InvalidGroup, g)
      else case each_err (batch_member rt g) requests of
        Inl d \<Rightarrow> (Some d, g)
      | Inr _ \<Rightarrow>
         (case requestPolicy (gd_plan g) of
            None \<Rightarrow> (None, g)
          | Some program \<Rightarrow>
             (if pr_maxRequests program < gd_transmitted g + int (length requests) then (Some BudgetExhausted, g)
              else (let recent = window nowR (gd_recent g) in
                if pr_rateLimitPerSecond program < int (length recent) + int (length requests) then (Some RateLimited, g)
                else (None, g\<lparr>gd_recent := recent @ map (\<lambda>_. nowR) requests,
                              gd_transmitted := gd_transmitted g + int (length requests)\<rparr>)))))"

definition requireRemainingBudget :: "auth_guard \<Rightarrow> int \<Rightarrow> string + unit" where
  "requireRemainingBudget g requests =
     (case requestPolicy (gd_plan g) of
        None \<Rightarrow> Inr ()
      | Some program \<Rightarrow>
          guard_err (pr_maxRequests program < gd_transmitted g + requests)
            ''TARGET_AUTHORIZATION_INSUFFICIENT_EXECUTION_AND_CLEANUP_BUDGET'')"

text \<open>
  \<^verbatim>\<open>waitForRate\<close> loops over wake-ups. A wake-up is the clock it reads and whether the signal has
  aborted; running out of wake-ups means the loop is still waiting.
\<close>

datatype rate_wait_result = RateFree | RateAborted | RateExceedsLimit | RateWaiting

fun wait_for_rate_loop :: "int \<Rightarrow> int \<Rightarrow> auth_guard \<Rightarrow> (int \<times> bool) list \<Rightarrow> rate_wait_result \<times> auth_guard" where
  "wait_for_rate_loop rate slots g [] = (RateWaiting, g)"
| "wait_for_rate_loop rate slots g ((now, aborted) # wakes) =
     (if aborted then (RateAborted, g)
      else (let g1 = g\<lparr>gd_recent := window now (gd_recent g)\<rparr> in
        if int (length (gd_recent g1)) + slots \<le> rate then (RateFree, g1)
        else wait_for_rate_loop rate slots g1 wakes))"

definition waitForRate :: "auth_guard \<Rightarrow> int \<Rightarrow> (int \<times> bool) list \<Rightarrow> rate_wait_result \<times> auth_guard" where
  "waitForRate g slots wakes =
     (case requestPolicy (gd_plan g) of
        None \<Rightarrow> (RateFree, g)
      | Some program \<Rightarrow>
          if pr_rateLimitPerSecond program < slots then (RateExceedsLimit, g)
          else wait_for_rate_loop (pr_rateLimitPerSecond program) slots g wakes)"

text \<open>The time the loop sleeps after a wake-up that found no room.\<close>

definition rate_sleep :: "int \<Rightarrow> int list \<Rightarrow> int" where
  "rate_sleep now recent = (case recent of [] \<Rightarrow> 1 | t # _ \<Rightarrow> min 1000 (max 1 (1000 - (now - t))))"

record guard_snapshot =
  gs_mode :: auth_mode
  gs_proofSha256 :: string
  gs_transmittedRequests :: int
  gs_program :: "(string \<times> int) option"

definition guard_snapshot_of :: "auth_guard \<Rightarrow> guard_snapshot" where
  "guard_snapshot_of g =
     \<lparr>gs_mode = ta_mode (gd_plan g), gs_proofSha256 = ta_proofSha256 (gd_plan g),
      gs_transmittedRequests = gd_transmitted g,
      gs_program = map_option (\<lambda>b. (pr_program b, pr_maxRequests b)) (ta_bugBounty (gd_plan g))\<rparr>"

section \<open>What a passed check approves\<close>

text \<open>
  The conditions of the contract on the URL, method and time of a request. What the contract says of
  its body is \<open>body_approved\<close>: the body (the empty one where none is given) has the digest that the
  rule lists, and under a production campaign there is none.
\<close>

definition contract_approves :: "target_authorization \<Rightarrow> request_program \<Rightarrow> int \<Rightarrow> int \<Rightarrow> url \<Rightarrow> string \<Rightarrow> bool" where
  "contract_approves plan program startedAt now u verb \<longleftrightarrow>
     is_web_protocol (u_protocol u) \<and> u_username u = [] \<and> u_password u = [] \<and>
     pr_startsAt program \<le> now \<and> now < pr_expiresAt program \<and>
     (\<exists>a \<in> set (pr_inScope program). matchesAsset u a) \<and> (\<forall>a \<in> set (pr_outOfScope program). \<not> matchesAsset u a) \<and>
     (to_upper verb \<in> {''GET'', ''HEAD'', ''OPTIONS''} \<or>
      (\<exists>r \<in> set (pr_requests program). ru_origin r = url_origin u \<and> ru_path r = u_pathname u \<and> ru_method r = to_upper verb)) \<and>
     (\<forall>r. rule_for program u verb = Some r \<longrightarrow>
        (ru_effect r = EffAuthentication \<longrightarrow> pr_authenticationPermitted program) \<and>
        (ru_effect r \<in> {EffMutation, EffDestructive} \<longrightarrow> pr_mutationPermitted program) \<and>
        (ru_effect r = EffDestructive \<longrightarrow> pr_destructivePermitted program)) \<and>
     (\<forall>c. ta_productionCampaign plan = Some c \<longrightarrow>
        now - startedAt < pc_maxDurationMs c \<and> productionCampaignRequestAllowed c u (to_upper verb))"

definition body_approved :: "runtime \<Rightarrow> target_authorization \<Rightarrow> request_rule option \<Rightarrow> string option \<Rightarrow> bool" where
  "body_approved rt plan rule body \<longleftrightarrow>
     (\<forall>r h. rule = Some r \<longrightarrow> ru_bodySha256 r = Some h \<longrightarrow> rt_sha256 rt (or_else body []) = h) \<and>
     (ta_productionCampaign plan \<noteq> None \<longrightarrow> body = None \<or> body = Some [])"

lemma check_passed:
  assumes "check rt g now url verb body = None" "requestPolicy (gd_plan g) = Some program"
  obtains u where "rt_newURL rt url = Some u" "\<not> ambiguous_path url u"
    "contract_approves (gd_plan g) program (gd_startedAt g) now u verb"
    "ta_productionCampaign (gd_plan g) = None \<or> body = None \<or> body = Some []"
    "effect_of (rule_for program u verb) verb \<noteq> None"
proof -
  obtain u where u: "rt_newURL rt url = Some u"
    using assms by (auto simp: check_def split: if_splits option.splits)
  have "contract_approves (gd_plan g) program (gd_startedAt g) now u verb"
    using assms u
    by (auto simp: check_def contract_approves_def Let_def effect_of_def list_ex_iff rule_for_def
        dest!: find_Some_set split: if_splits option.splits)
  moreover have "\<not> ambiguous_path url u" "ta_productionCampaign (gd_plan g) = None \<or> body = None \<or> body = Some []"
    "effect_of (rule_for program u verb) verb \<noteq> None"
    using assms u by (auto simp: check_def Let_def split: if_splits option.splits)
  ultimately show ?thesis using that u by blast
qed

text \<open>The check compares the digest of a body that is given; a missing body is left to the reservations.\<close>

lemma check_passed_body:
  assumes "check rt g now url verb body = None" "requestPolicy (gd_plan g) = Some program"
    and "rt_newURL rt url = Some u" "body \<noteq> None"
  shows "body_approved rt (gd_plan g) (rule_for program u verb) body"
  using assms by (auto simp: check_def body_approved_def Let_def split: if_splits option.splits)

lemma body_approvedI:
  "\<not> body_mismatch rt rule body \<Longrightarrow> ta_productionCampaign plan = None \<or> body = None \<or> body = Some [] \<Longrightarrow>
     body_approved rt plan rule body"
  by (auto simp: body_mismatch_def body_approved_def)

section \<open>The request budget\<close>

text \<open>A request to the guard: a single reservation or an atomic group.\<close>

datatype guard_request =
    SingleRequest (gr_checkedAt: int) (gr_reservedAt: int) (gr_url: string) (gr_method: string) (gr_body: "string option")
  | GroupRequest (gr_reservedAt: int) (gr_requests: "batch_request list")

fun guard_reserve :: "runtime \<Rightarrow> auth_guard \<Rightarrow> guard_request \<Rightarrow> auth_guard \<times> bool" where
  "guard_reserve rt g (SingleRequest c n url verb body) = (case reserve rt g c n url verb body of (d, g') \<Rightarrow> (g', d = None))"
| "guard_reserve rt g (GroupRequest n rs) = (case reserveBatch rt g n rs of (d, g') \<Rightarrow> (g', d = None))"

fun guard_cost :: "guard_request \<Rightarrow> int" where
  "guard_cost (SingleRequest _ _ _ _ _) = 1"
| "guard_cost (GroupRequest _ rs) = int (length rs)"

definition guard_limit :: "auth_guard \<Rightarrow> int" where
  "guard_limit g = (case requestPolicy (gd_plan g) of None \<Rightarrow> 0 | Some p \<Rightarrow> pr_maxRequests p)"

definition guard_governed :: "auth_guard \<Rightarrow> bool" where
  "guard_governed g \<longleftrightarrow> requestPolicy (gd_plan g) \<noteq> None"

lemmas reservation_splits = if_splits option.splits sum.splits prod.splits

lemma reserve_frame:
  "reserve rt g c n url verb body = (d, g') \<Longrightarrow>
     gd_plan g' = gd_plan g \<and> gd_startedAt g' = gd_startedAt g \<and> gd_permits g' = gd_permits g \<and> gd_nextPermit g' = gd_nextPermit g"
  by (auto simp: reserve_def Let_def split: reservation_splits)

lemma reserveBatch_frame:
  "reserveBatch rt g n rs = (d, g') \<Longrightarrow>
     gd_plan g' = gd_plan g \<and> gd_startedAt g' = gd_startedAt g \<and> gd_permits g' = gd_permits g \<and> gd_nextPermit g' = gd_nextPermit g"
  by (auto simp: reserveBatch_def Let_def split: reservation_splits)

lemma reserve_charged:
  "reserve rt g c n url verb body = (None, g') \<Longrightarrow> requestPolicy (gd_plan g) = Some p \<Longrightarrow>
     check rt g c url verb body = None \<and> gd_transmitted g < pr_maxRequests p \<and> gd_transmitted g' = gd_transmitted g + 1 \<and>
     int (length (window n (gd_recent g))) < pr_rateLimitPerSecond p \<and> gd_recent g' = window n (gd_recent g) @ [n]"
  by (auto simp: reserve_def Let_def split: reservation_splits)

lemma reserve_denied:
  "reserve rt g c n url verb body = (Some d, g') \<Longrightarrow>
     gd_transmitted g' = gd_transmitted g \<and> (gd_recent g' = gd_recent g \<or> gd_recent g' = window n (gd_recent g))"
  by (auto simp: reserve_def Let_def split: reservation_splits)

lemma reserveBatch_charged:
  "reserveBatch rt g n rs = (None, g') \<Longrightarrow> requestPolicy (gd_plan g) = Some p \<Longrightarrow>
     rs \<noteq> [] \<and> length rs \<le> 5 \<and>
     (\<forall>r \<in> set rs. check rt g (br_checkedAt r) (br_url r) (br_method r) (br_body r) = None) \<and>
     gd_transmitted g + int (length rs) \<le> pr_maxRequests p \<and> gd_transmitted g' = gd_transmitted g + int (length rs) \<and>
     int (length (window n (gd_recent g))) + int (length rs) \<le> pr_rateLimitPerSecond p \<and>
     gd_recent g' = window n (gd_recent g) @ replicate (length rs) n"
  by (auto simp: reserveBatch_def Let_def map_replicate_const result_split batch_member_def split: reservation_splits)

lemma reserve_body:
  "reserve rt g c n url verb body = (None, g') \<Longrightarrow> requestPolicy (gd_plan g) = Some p \<Longrightarrow>
     \<not> body_mismatch rt (reserve_rule rt p url verb) body"
  by (auto simp: reserve_def Let_def split: reservation_splits)

lemma reserveBatch_body:
  "reserveBatch rt g n rs = (None, g') \<Longrightarrow> requestPolicy (gd_plan g) = Some p \<Longrightarrow> r \<in> set rs \<Longrightarrow>
     rt_newURL rt (br_url r) = Some u \<Longrightarrow> \<not> body_mismatch rt (rule_for p u (br_method r)) (br_body r)"
  by (fastforce simp: reserveBatch_def Let_def result_split batch_member_def guard_err_def split: reservation_splits)

text \<open>What a charged reservation was checked for.\<close>

lemma reserve_approved:
  assumes "reserve rt g c n url verb body = (None, g')" "requestPolicy (gd_plan g) = Some p"
  shows "\<exists>u. rt_newURL rt url = Some u \<and> contract_approves (gd_plan g) p (gd_startedAt g) c u verb \<and>
       body_approved rt (gd_plan g) (reserve_rule rt p url verb) body \<and>
       (body \<noteq> None \<longrightarrow> body_approved rt (gd_plan g) (rule_for p u verb) body)"
proof -
  have chk: "check rt g c url verb body = None" using reserve_charged [OF assms] by blast
  obtain u where u: "rt_newURL rt url = Some u" "contract_approves (gd_plan g) p (gd_startedAt g) c u verb"
    "ta_productionCampaign (gd_plan g) = None \<or> body = None \<or> body = Some []"
    by (rule check_passed [OF chk assms(2)])
  have "body_approved rt (gd_plan g) (reserve_rule rt p url verb) body"
    by (rule body_approvedI [OF reserve_body [OF assms] u(3)])
  then show ?thesis using u check_passed_body [OF chk assms(2) u(1)] by blast
qed

lemma batch_approved:
  assumes "reserveBatch rt g n rs = (None, g')" "requestPolicy (gd_plan g) = Some p" "r \<in> set rs"
  shows "\<exists>u. rt_newURL rt (br_url r) = Some u \<and>
       contract_approves (gd_plan g) p (gd_startedAt g) (br_checkedAt r) u (br_method r) \<and>
       body_approved rt (gd_plan g) (rule_for p u (br_method r)) (br_body r)"
proof -
  have chk: "check rt g (br_checkedAt r) (br_url r) (br_method r) (br_body r) = None"
    using reserveBatch_charged [OF assms(1,2)] assms(3) by blast
  obtain u where u: "rt_newURL rt (br_url r) = Some u"
    "contract_approves (gd_plan g) p (gd_startedAt g) (br_checkedAt r) u (br_method r)"
    "ta_productionCampaign (gd_plan g) = None \<or> br_body r = None \<or> br_body r = Some []"
    by (rule check_passed [OF chk assms(2)])
  then show ?thesis using body_approvedI [OF reserveBatch_body [OF assms u(1)] u(3)] by blast
qed

lemma reserveBatch_denied: "reserveBatch rt g n rs = (Some d, g') \<Longrightarrow> g' = g"
  by (auto simp: reserveBatch_def Let_def split: reservation_splits)

interpretation guard_budget: request_budget "guard_reserve rt" guard_governed gd_transmitted guard_limit guard_cost
proof unfold_locales
  fix s r
  show "gd_transmitted (fst (guard_reserve rt s r)) = gd_transmitted s + guard_cost r \<and>
        gd_transmitted s + guard_cost r \<le> guard_limit s \<and> 1 \<le> guard_cost r"
    if "guard_governed s" "snd (guard_reserve rt s r)"
    using that reserve_charged [of rt s] reserveBatch_charged [of rt s]
    by (cases r) (fastforce simp: guard_governed_def guard_limit_def Suc_le_eq split: prod.splits)+
  show "gd_transmitted (fst (guard_reserve rt s r)) = gd_transmitted s"
    if "guard_governed s" "\<not> snd (guard_reserve rt s r)"
    using that by (cases r) (auto split: prod.splits dest: reserve_denied reserveBatch_denied)
  show "guard_limit (fst (guard_reserve rt s r)) = guard_limit s"
    by (cases r) (auto simp: guard_limit_def split: prod.splits dest!: reserve_frame reserveBatch_frame)
  show "guard_governed (fst (guard_reserve rt s r)) = guard_governed s"
    by (cases r) (auto simp: guard_governed_def split: prod.splits dest!: reserve_frame reserveBatch_frame)
qed

lemma new_auth_guard_Inr:
  "new_auth_guard rt plan now = Inr g \<Longrightarrow>
     g = \<lparr>gd_plan = plan, gd_startedAt = now, gd_transmitted = 0, gd_recent = [], gd_permits = Map.empty, gd_nextPermit = 0\<rparr> \<and>
     targetAuthorization_valid rt plan"
  by (simp add: new_auth_guard_def split: if_splits)

lemma valid_plan_policy:
  "targetAuthorization_valid rt plan \<Longrightarrow> requestPolicy plan = Some p \<Longrightarrow> 1 \<le> pr_maxRequests p \<and> 1 \<le> pr_rateLimitPerSecond p"
  by (auto simp: targetAuthorization_valid_def requestPolicy_def productionCampaign_valid_def campaign_shape_valid_def
      bugBounty_shape_valid_def int_between_def request_program.defs split: option.splits)

section \<open>Sequences of guard operations\<close>

text \<open>
  The operations of the guard that brokers call, with the clock readings each makes, and the log of
  rate slots a sequence of them takes: one slot per charged request, at the time of its charge, or
  at the time of its initiation once a browser attempt has begun.
\<close>

datatype guard_op =
    OpReserve int int string string "string option"
  | OpBrowserReserve int int string string "string option"
  | OpBegin int int "nat option" string string string
  | OpBatch int "batch_request list"
  | OpWait int int

text \<open>\<open>OpWait\<close> is one unaborted turn of the \<^verbatim>\<open>waitForRate\<close> loop.\<close>

fun guard_exec :: "runtime \<Rightarrow> auth_guard \<Rightarrow> guard_op \<Rightarrow> auth_guard" where
  "guard_exec rt g (OpReserve c n url verb body) = snd (reserve rt g c n url verb body)"
| "guard_exec rt g (OpBrowserReserve c n url verb body) = snd (reserveBrowserAttempt rt g c n url verb body)"
| "guard_exec rt g (OpBegin c n permit url verb body) = snd (beginReservedBrowserAttempt rt g c n permit url verb body)"
| "guard_exec rt g (OpBatch n rs) = snd (reserveBatch rt g n rs)"
| "guard_exec rt g (OpWait slots n) = snd (waitForRate g slots [(n, False)])"

fun guard_slots :: "runtime \<Rightarrow> auth_guard \<Rightarrow> guard_op \<Rightarrow> int list \<Rightarrow> int list" where
  "guard_slots rt g (OpReserve c n url verb body) lg =
     (if fst (reserve rt g c n url verb body) = None then lg @ [n] else lg)"
| "guard_slots rt g (OpBrowserReserve c n url verb body) lg =
     (if fst (reserve rt g c n url verb body) = None then lg @ [n] else lg)"
| "guard_slots rt g (OpBegin c n permit url verb body) lg =
     (if fst (beginReservedBrowserAttempt rt g c n permit url verb body) = None
      then (case Option.bind permit (gd_permits g) of None \<Rightarrow> lg | Some rv \<Rightarrow> remove1 (rv_time rv) lg @ [n])
      else lg)"
| "guard_slots rt g (OpBatch n rs) lg =
     (if fst (reserveBatch rt g n rs) = None then lg @ map (\<lambda>_. n) rs else lg)"
| "guard_slots rt g (OpWait slots n) lg = lg"

fun op_clock :: "guard_op \<Rightarrow> int" where
  "op_clock (OpReserve c n url verb body) = n"
| "op_clock (OpBrowserReserve c n url verb body) = n"
| "op_clock (OpBegin c n permit url verb body) = n"
| "op_clock (OpBatch n rs) = n"
| "op_clock (OpWait slots n) = n"

fun guard_run :: "runtime \<Rightarrow> auth_guard \<Rightarrow> int list \<Rightarrow> guard_op list \<Rightarrow> auth_guard \<times> int list" where
  "guard_run rt g lg [] = (g, lg)"
| "guard_run rt g lg (x # xs) = guard_run rt (guard_exec rt g x) (guard_slots rt g x lg) xs"

lemma guard_run_append:
  "guard_run rt g lg (xs @ ys) = (case guard_run rt g lg xs of (g', lg') \<Rightarrow> guard_run rt g' lg' ys)"
  by (induction xs arbitrary: g lg) auto

lemma reserveBrowserAttempt_base:
  "reserveBrowserAttempt rt g c n url verb body = (r, g') \<Longrightarrow>
     \<exists>d g1. reserve rt g c n url verb body = (d, g1) \<and> gd_plan g' = gd_plan g \<and> gd_startedAt g' = gd_startedAt g \<and>
       gd_transmitted g' = gd_transmitted g1 \<and> gd_recent g' = gd_recent g1"
  by (auto simp: reserveBrowserAttempt_def dest: reserve_frame split: prod.splits option.splits)

lemma guard_exec_plan [simp]:
  "gd_plan (guard_exec rt g x) = gd_plan g"
  by (cases x)
     (auto simp: reserve_def reserveBrowserAttempt_def beginReservedBrowserAttempt_def drop_permit_def reserveBatch_def
        waitForRate_def Let_def split: reservation_splits)

text \<open>
  The invariant of the rate pool at clock \<open>t\<close>: seen from any later clock, the guard's list agrees
  with the log; no slot lies in the future; every window so far held at most \<open>rate\<close> slots.
\<close>

definition in_window :: "int \<Rightarrow> int \<Rightarrow> bool" where
  "in_window t x \<longleftrightarrow> t - 1000 < x \<and> x \<le> t"

definition pool_inv :: "int \<Rightarrow> auth_guard \<Rightarrow> int list \<Rightarrow> int \<Rightarrow> bool" where
  "pool_inv rate g lg t \<longleftrightarrow>
     (\<forall>now \<ge> t. window now (gd_recent g) = window now lg) \<and> (\<forall>x \<in> set lg. x \<le> t) \<and>
     (\<forall>s. int (length (filter (in_window s) lg)) \<le> rate)"

lemma window_idem: "s \<le> now \<Longrightarrow> window now (window s xs) = window now xs"
  by (induction xs) (auto simp: window_def)

lemma window_append [simp]: "window now (xs @ ys) = window now xs @ window now ys"
  by (simp add: window_def)

lemma window_remove1 [simp]: "window now (remove1 x xs) = remove1 x (window now xs)"
  by (simp add: window_def filter_remove1)

lemma in_window_len: "\<forall>x \<in> set lg. x \<le> now \<Longrightarrow> now \<le> s \<Longrightarrow>
    length (filter (in_window s) lg) \<le> length (window now lg)"
  unfolding window_def by (rule length_filter_mono) (auto simp: in_window_def)

text \<open>Adding \<open>k\<close> slots at the current clock, where the window has room for them.\<close>

lemma pool_inv_add:
  assumes inv: "pool_inv rate g lg t" and t: "t \<le> now"
    and room: "int (length (window now lg')) + int k \<le> rate"
    and sub: "lg' = lg \<or> (\<exists>x. lg' = remove1 x lg)"
    and recent: "\<And>s. now \<le> s \<Longrightarrow> window s (gd_recent g') = window s (lg' @ replicate k now)"
  shows "pool_inv rate g' (lg' @ replicate k now) now"
proof -
  have sub': "set lg' \<subseteq> set lg" using sub set_remove1_subset by (metis order_refl)
  have past: "\<forall>x \<in> set lg'. x \<le> now" using inv t sub' unfolding pool_inv_def by fastforce
  have len: "length (filter P lg') \<le> length (filter P lg)" for P
    using sub by (metis filter_remove1 length_remove1 diff_le_self order_refl)
  have "int (length (filter (in_window s) (lg' @ replicate k now))) \<le> rate" for s
  proof (cases "now \<le> s")
    case True
    have "length (filter (in_window s) (lg' @ replicate k now)) \<le> length (filter (in_window s) lg') + k"
      by (simp add: le_trans [OF length_filter_le])
    then show ?thesis using in_window_len [OF past True] room by linarith
  next
    case False
    then have "filter (in_window s) (replicate k now) = []" by (auto simp: in_window_def filter_empty_conv)
    then have "length (filter (in_window s) (lg' @ replicate k now)) \<le> length (filter (in_window s) lg)"
      using len [of "in_window s"] by simp
    moreover have "int (length (filter (in_window s) lg)) \<le> rate" using inv by (simp add: pool_inv_def)
    ultimately show ?thesis by linarith
  qed
  then show ?thesis using recent past by (auto simp: pool_inv_def)
qed

lemma pool_inv_later:
  assumes "pool_inv rate g lg t" "t \<le> now" "gd_recent g' = gd_recent g \<or> gd_recent g' = window now (gd_recent g)"
  shows "pool_inv rate g' lg now"
  using assms unfolding pool_inv_def by (auto simp: window_idem)

lemma pool_inv_reserve:
  assumes inv: "pool_inv (pr_rateLimitPerSecond p) g lg t" and pol: "requestPolicy (gd_plan g) = Some p" and t: "t \<le> n"
    and step: "reserve rt g c n url verb body = (d, g1)" and g': "gd_recent g' = gd_recent g1"
  shows "pool_inv (pr_rateLimitPerSecond p) g' (if d = None then lg @ [n] else lg) n"
proof (cases d)
  case None
  note ch = reserve_charged [OF step [unfolded None] pol]
  have w: "window n (gd_recent g) = window n lg" using inv t by (simp add: pool_inv_def)
  have "window s (gd_recent g') = window s (lg @ replicate 1 n)" if "n \<le> s" for s
    using ch w that by (simp add: g' window_idem)
  from pool_inv_add [OF inv t _ _ this] show ?thesis using None ch w by simp
next
  case (Some e)
  from reserve_denied [OF step [unfolded Some]] show ?thesis
    using pool_inv_later [OF inv t, of g'] Some g' by auto
qed

lemma pool_inv_batch:
  assumes inv: "pool_inv (pr_rateLimitPerSecond p) g lg t" and pol: "requestPolicy (gd_plan g) = Some p" and t: "t \<le> n"
    and step: "reserveBatch rt g n rs = (d, g')"
  shows "pool_inv (pr_rateLimitPerSecond p) g' (if d = None then lg @ map (\<lambda>_. n) rs else lg) n"
proof (cases d)
  case None
  note ch = reserveBatch_charged [OF step [unfolded None] pol]
  have w: "window n (gd_recent g) = window n lg" using inv t by (simp add: pool_inv_def)
  have "window s (gd_recent g') = window s (lg @ replicate (length rs) n)" if "n \<le> s" for s
    using ch w that by (simp add: window_idem)
  from pool_inv_add [OF inv t _ _ this] show ?thesis
    using None ch w by (simp add: map_replicate_const)
next
  case (Some e)
  then have "g' = g" using reserveBatch_denied step by blast
  then show ?thesis using pool_inv_later [OF inv t, of g'] Some by simp
qed

lemma begin_moved:
  assumes "beginReservedBrowserAttempt rt g c n permit url verb body = (None, g')" "requestPolicy (gd_plan g) = Some p"
  obtains rv where "Option.bind permit (gd_permits g) = Some rv"
    "rv_url rv = url" "rv_method rv = to_upper verb" "rv_bodyHash rv = rt_sha256 rt body"
    "check rt (drop_permit permit g) c url verb (Some body) = None"
    "int (length (remove1 (rv_time rv) (window n (gd_recent g)))) < pr_rateLimitPerSecond p"
    "g' = (drop_permit permit g)\<lparr>gd_recent := remove1 (rv_time rv) (window n (gd_recent g)) @ [n]\<rparr>"
  using assms
  by (auto simp: beginReservedBrowserAttempt_def Let_def drop_permit_def split: reservation_splits)

lemma begin_denied:
  "beginReservedBrowserAttempt rt g c n permit url verb body = (Some d, g') \<Longrightarrow> gd_recent g' = gd_recent g"
  by (auto simp: beginReservedBrowserAttempt_def Let_def drop_permit_def split: reservation_splits)

lemma pool_inv_begin:
  assumes inv: "pool_inv (pr_rateLimitPerSecond p) g lg t" and pol: "requestPolicy (gd_plan g) = Some p" and t: "t \<le> n"
  shows "pool_inv (pr_rateLimitPerSecond p) (guard_exec rt g (OpBegin c n permit url verb body))
           (guard_slots rt g (OpBegin c n permit url verb body) lg) n"
proof (cases "beginReservedBrowserAttempt rt g c n permit url verb body")
  case (Pair d g')
  show ?thesis
  proof (cases d)
    case None
    obtain rv where rv: "Option.bind permit (gd_permits g) = Some rv"
      "int (length (remove1 (rv_time rv) (window n (gd_recent g)))) < pr_rateLimitPerSecond p"
      "g' = (drop_permit permit g)\<lparr>gd_recent := remove1 (rv_time rv) (window n (gd_recent g)) @ [n]\<rparr>"
      using begin_moved [OF Pair [unfolded None] pol] by metis
    have w: "window n (gd_recent g) = window n lg" using inv t by (simp add: pool_inv_def)
    have "window s (gd_recent g') = window s (remove1 (rv_time rv) lg @ replicate 1 n)" if "n \<le> s" for s
      using rv w that by (simp add: window_idem)
    from pool_inv_add [OF inv t _ _ this] show ?thesis using None Pair rv w by auto
  next
    case (Some e)
    then show ?thesis using Pair begin_denied pool_inv_later [OF inv t, of g'] by fastforce
  qed
qed

lemma pool_inv_step:
  assumes inv: "pool_inv (pr_rateLimitPerSecond p) g lg t" and pol: "requestPolicy (gd_plan g) = Some p" and t: "t \<le> op_clock x"
  shows "pool_inv (pr_rateLimitPerSecond p) (guard_exec rt g x) (guard_slots rt g x lg) (op_clock x)"
proof (cases x)
  case (OpReserve c n url verb body)
  then show ?thesis using pool_inv_reserve [OF inv pol _ surjective_pairing refl] t by simp
next
  case (OpBrowserReserve c n url verb body)
  obtain d g1 where r: "reserve rt g c n url verb body = (d, g1)" "gd_recent (guard_exec rt g x) = gd_recent g1"
    using reserveBrowserAttempt_base [OF surjective_pairing, of rt g c n url verb body] OpBrowserReserve by auto
  then show ?thesis using pool_inv_reserve [OF inv pol _ r] t OpBrowserReserve by simp
next
  case (OpBegin c n permit url verb body)
  then show ?thesis using pool_inv_begin [OF inv pol] t by simp
next
  case (OpBatch n rs)
  then show ?thesis using pool_inv_batch [OF inv pol _ surjective_pairing] t by simp
next
  case (OpWait slots n)
  then show ?thesis using pool_inv_later [OF inv t] pol by (auto simp: waitForRate_def Let_def)
qed

lemma transmitted_step:
  assumes "requestPolicy (gd_plan g) = Some p" "gd_transmitted g \<le> pr_maxRequests p"
  shows "gd_transmitted (guard_exec rt g x) \<le> pr_maxRequests p \<and> gd_transmitted g \<le> gd_transmitted (guard_exec rt g x)"
  using assms
  by (cases x)
     (auto simp: reserve_def reserveBrowserAttempt_def beginReservedBrowserAttempt_def drop_permit_def reserveBatch_def
        waitForRate_def Let_def split: reservation_splits)

lemma guard_run_inv:
  assumes "pool_inv (pr_rateLimitPerSecond p) g lg t" "requestPolicy (gd_plan g) = Some p"
    "gd_transmitted g \<le> pr_maxRequests p" "sorted (t # map op_clock xs)" "guard_run rt g lg xs = (g', lg')"
  shows "(\<exists>t'. pool_inv (pr_rateLimitPerSecond p) g' lg' t') \<and> gd_transmitted g' \<le> pr_maxRequests p \<and> gd_plan g' = gd_plan g"
  using assms
proof (induction xs arbitrary: g lg t)
  case (Cons x xs)
  have "t \<le> op_clock x" using Cons.prems by simp
  from Cons.IH [OF pool_inv_step [OF Cons.prems(1,2) this]] show ?case
    using Cons.prems transmitted_step by simp
qed auto

text \<open>
  C5: over every sequence of guard operations whose clock does not go back, starting from a new
  guard with a request policy, at most \<^verbatim>\<open>maxRequests\<close> requests are charged and no half-open
  interval of one second holds more than \<^verbatim>\<open>rateLimitPerSecond\<close> of the slots taken, whichever of
  the operations (single, atomic group, browser reservation, begun browser attempt) took them.
\<close>

theorem guard_rate_and_budget:
  assumes "new_auth_guard rt plan now = Inr g" "requestPolicy plan = Some p" "sorted (map op_clock xs)"
    "guard_run rt g [] xs = (g', lg)"
  shows "int (length (filter (\<lambda>x. s - 1000 < x \<and> x \<le> s) lg)) \<le> pr_rateLimitPerSecond p \<and> gd_transmitted g' \<le> pr_maxRequests p"
proof -
  note new = new_auth_guard_Inr [OF assms(1)]
  have pol: "requestPolicy (gd_plan g) = Some p" using new assms(2) by simp
  note pos = valid_plan_policy [OF conjunct2 [OF new] assms(2)]
  define t where "t = (case xs of [] \<Rightarrow> 0 | x # _ \<Rightarrow> op_clock x)"
  have "pool_inv (pr_rateLimitPerSecond p) g [] t" using new pos by (simp add: pool_inv_def window_def)
  moreover have "sorted (t # map op_clock xs)" using assms(3) by (cases xs) (auto simp: t_def)
  ultimately have "\<exists>t'. pool_inv (pr_rateLimitPerSecond p) g' lg t'" "gd_transmitted g' \<le> pr_maxRequests p"
    using guard_run_inv [OF _ pol _ _ assms(4)] new pos by auto
  then show ?thesis by (auto simp: pool_inv_def in_window_def [abs_def])
qed

text \<open>A concrete bug-bounty contract and a guard for it, used in the examples.\<close>

definition example_rule :: request_rule where
  "example_rule = \<lparr>ru_origin = ''https://a.io'', ru_path = ''/login'', ru_method = ''POST'', ru_effect = EffAuthentication,
     ru_bodySha256 = None, ru_expectedStatuses = []\<rparr>"

definition example_bounty :: bug_bounty where
  "example_bounty =
     \<lparr>pr_program = ''demo'', pr_platform = ''own'', pr_inScope = [\<lparr>as_origin = ''https://a.io'', as_pathPrefix = ''/''\<rparr>],
      pr_outOfScope = [\<lparr>as_origin = ''https://a.io'', as_pathPrefix = ''/admin''\<rparr>], pr_rules = [''r''], pr_prohibitedActions = [''dos''],
      pr_startsAt = 0, pr_expiresAt = 100000, pr_maxRequests = 3, pr_rateLimitPerSecond = 2, pr_authenticationPermitted = True,
      pr_mutationPermitted = False, pr_destructivePermitted = False, pr_racePermitted = False, pr_requests = [example_rule],
      bb_scopeDocumentSha256 = replicate 64 (CHR ''0''), bb_disposableAccountsSupplied = False\<rparr>"

definition example_plan :: target_authorization where
  "example_plan = \<lparr>ta_mode = BugBountyAuthorized, ta_targetOrigin = ''https://a.io'', ta_proofReference = ''ticket'',
     ta_proofSha256 = replicate 64 (CHR ''0''), ta_productionCampaign = None, ta_bugBounty = Some example_bounty\<rparr>"

definition example_guard :: auth_guard where
  "example_guard = \<lparr>gd_plan = example_plan, gd_startedAt = 10, gd_transmitted = 0, gd_recent = [],
     gd_permits = Map.empty, gd_nextPermit = 0\<rparr>"

definition example_program :: request_program where
  "example_program = request_program.truncate example_bounty"

lemma example_plan_valid: "targetAuthorization_valid example_runtime example_plan"
  by code_simp

lemma example_guard_new: "new_auth_guard example_runtime example_plan 10 = Inr example_guard"
  by (simp add: new_auth_guard_def example_plan_valid example_guard_def)

lemma example_policy: "requestPolicy example_plan = Some example_program"
  by (simp add: requestPolicy_def example_plan_def example_program_def)

definition example_ops :: "guard_op list" where
  "example_ops =
     [OpBrowserReserve 20 20 ''https://a.io/x'' ''get'' None, OpReserve 30 30 ''https://a.io/login'' ''POST'' (Some ''u''),
      OpReserve 40 40 ''https://a.io/y'' ''GET'' None, OpBegin 50 50 (Some 0) ''https://a.io/x'' ''GET'' [],
      OpWait 1 60, OpBatch 1040 [\<lparr>br_url = ''https://a.io/z'', br_method = ''GET'', br_body = None, br_checkedAt = 1039\<rparr>],
      OpReserve 5000 5000 ''https://a.io/y'' ''GET'' None]"

theorem guard_rate_and_budget_witness:
  "snd (guard_run example_runtime example_guard [] example_ops) = [30, 50, 1040] \<and>
   int (length (filter (\<lambda>x. (60::int) - 1000 < x \<and> x \<le> 60) [30, 50, 1040])) \<le> pr_rateLimitPerSecond example_program \<and>
   gd_transmitted (fst (guard_run example_runtime example_guard [] example_ops)) \<le> pr_maxRequests example_program"
proof -
  have run: "snd (guard_run example_runtime example_guard [] example_ops) = [30, 50, 1040]" by code_simp
  have "sorted (map op_clock example_ops)" by code_simp
  from guard_rate_and_budget [OF example_guard_new example_policy this surjective_pairing, of 60]
  show ?thesis unfolding run by (simp add: run)
qed

text \<open>
  C7: whatever operation charges a request (a single reservation, each member of a group, a browser
  reservation), that request was approved by the contract at the clock the check read: an HTTP(S) URL without
  credentials inside the testing window, on an in-scope and no out-of-scope asset, with a
  safe method or an exact listed rule whose effect is permitted, and, under a production campaign,
  within its duration and in its exact request list. Its body, or the empty body where none is given,
  has the SHA-256 digest of the rule that the reservation found for it, where that rule lists one, and
  under a production campaign it has no body. A body given to a single or browser reservation has
  moreover the digest of the rule that the check found. A denied operation charges nothing, and a
  denied group changes nothing at all.
\<close>

theorem guard_charges_only_approved:
  assumes pol: "requestPolicy (gd_plan g) = Some p"
  shows "(\<forall>g'. reserve rt g c n url verb body = (None, g') \<longrightarrow>
            (\<exists>u. rt_newURL rt url = Some u \<and> contract_approves (gd_plan g) p (gd_startedAt g) c u verb \<and>
               body_approved rt (gd_plan g) (reserve_rule rt p url verb) body \<and>
               (body \<noteq> None \<longrightarrow> body_approved rt (gd_plan g) (rule_for p u verb) body))) \<and>
         (\<forall>k g'. reserveBrowserAttempt rt g c n url verb body = (BrowserPermit k, g') \<longrightarrow>
            (\<exists>u. rt_newURL rt url = Some u \<and> contract_approves (gd_plan g) p (gd_startedAt g) c u verb \<and>
               body_approved rt (gd_plan g) (reserve_rule rt p url verb) body \<and>
               (body \<noteq> None \<longrightarrow> body_approved rt (gd_plan g) (rule_for p u verb) body))) \<and>
         (\<forall>g' r. reserveBatch rt g n rs = (None, g') \<longrightarrow> r \<in> set rs \<longrightarrow>
            (\<exists>u. rt_newURL rt (br_url r) = Some u \<and>
               contract_approves (gd_plan g) p (gd_startedAt g) (br_checkedAt r) u (br_method r) \<and>
               body_approved rt (gd_plan g) (rule_for p u (br_method r)) (br_body r))) \<and>
         (\<forall>d g'. reserve rt g c n url verb body = (Some d, g') \<longrightarrow> gd_transmitted g' = gd_transmitted g) \<and>
         (\<forall>d g'. reserveBatch rt g n rs = (Some d, g') \<longrightarrow> g' = g)"
proof (intro conjI allI impI)
  fix k g'
  assume "reserveBrowserAttempt rt g c n url verb body = (BrowserPermit k, g')"
  then obtain g1 where "reserve rt g c n url verb body = (None, g1)"
    by (cases "reserve rt g c n url verb body") (auto simp: reserveBrowserAttempt_def split: option.splits)
  then show "\<exists>u. rt_newURL rt url = Some u \<and> contract_approves (gd_plan g) p (gd_startedAt g) c u verb \<and>
      body_approved rt (gd_plan g) (reserve_rule rt p url verb) body \<and>
      (body \<noteq> None \<longrightarrow> body_approved rt (gd_plan g) (rule_for p u verb) body)"
    by (rule reserve_approved [OF _ pol])
next
  fix d g'
  show "gd_transmitted g' = gd_transmitted g" if "reserve rt g c n url verb body = (Some d, g')"
    using reserve_denied [OF that] by blast
  show "g' = g" if "reserveBatch rt g n rs = (Some d, g')"
    by (rule reserveBatch_denied [OF that])
qed (rule reserve_approved [OF _ pol] batch_approved [OF _ pol]; assumption)+

text \<open>The same contract with a rule that lists the digest of its body, here that of \<open>''u''\<close>.\<close>

definition digest_runtime :: runtime where
  "digest_runtime = example_runtime\<lparr>rt_sha256 := (\<lambda>s. s)\<rparr>"

definition digest_bounty :: bug_bounty where
  "digest_bounty = example_bounty\<lparr>pr_requests := [example_rule\<lparr>ru_bodySha256 := Some ''u''\<rparr>]\<rparr>"

definition digest_plan :: target_authorization where
  "digest_plan = example_plan\<lparr>ta_bugBounty := Some digest_bounty\<rparr>"

definition digest_guard :: auth_guard where
  "digest_guard = example_guard\<lparr>gd_plan := digest_plan\<rparr>"

theorem guard_charges_only_approved_witness:
  "(\<exists>u. split_https ''https://a.io/login'' = Some u \<and>
      contract_approves digest_plan (request_program.truncate digest_bounty) 10 20 u ''POST'' \<and>
      body_approved digest_runtime digest_plan
        (reserve_rule digest_runtime (request_program.truncate digest_bounty) ''https://a.io/login'' ''POST'') (Some ''u'')) \<and>
   fst (reserve digest_runtime digest_guard 20 20 ''https://a.io/login'' ''POST'' (Some ''v'')) = Some BodyMismatch"
proof
  have pol: "requestPolicy (gd_plan digest_guard) = Some (request_program.truncate digest_bounty)"
    by (simp add: requestPolicy_def digest_guard_def digest_plan_def example_guard_def example_plan_def)
  let ?r = "reserve digest_runtime digest_guard 20 20 ''https://a.io/login'' ''POST'' (Some ''u'')"
  have "fst ?r = None" by code_simp
  then have "?r = (None, snd ?r)" by (simp add: prod_eq_iff)
  then have "\<exists>u. rt_newURL digest_runtime ''https://a.io/login'' = Some u \<and>
      contract_approves (gd_plan digest_guard) (request_program.truncate digest_bounty) (gd_startedAt digest_guard) 20 u ''POST'' \<and>
      body_approved digest_runtime (gd_plan digest_guard)
        (reserve_rule digest_runtime (request_program.truncate digest_bounty) ''https://a.io/login'' ''POST'') (Some ''u'')"
    using guard_charges_only_approved [OF pol] by blast
  then show "\<exists>u. split_https ''https://a.io/login'' = Some u \<and>
      contract_approves digest_plan (request_program.truncate digest_bounty) 10 20 u ''POST'' \<and>
      body_approved digest_runtime digest_plan
        (reserve_rule digest_runtime (request_program.truncate digest_bounty) ''https://a.io/login'' ''POST'') (Some ''u'')"
    by (simp add: digest_runtime_def example_runtime_def digest_guard_def example_guard_def)
  show "fst (reserve digest_runtime digest_guard 20 20 ''https://a.io/login'' ''POST'' (Some ''v'')) = Some BodyMismatch"
    by code_simp
qed

text \<open>A permit once dropped stays dropped: permits are numbered in the order they are issued.\<close>

lemma guard_exec_permit_gone:
  "gd_permits g p = None \<Longrightarrow> p < gd_nextPermit g \<Longrightarrow>
     gd_permits (guard_exec rt g x) p = None \<and> p < gd_nextPermit (guard_exec rt g x)"
  by (cases x)
     (auto simp: reserve_def reserveBrowserAttempt_def beginReservedBrowserAttempt_def drop_permit_def reserveBatch_def
        waitForRate_def Let_def split: reservation_splits)

lemma guard_run_permit_gone:
  "gd_permits g p = None \<Longrightarrow> p < gd_nextPermit g \<Longrightarrow> gd_permits (fst (guard_run rt g lg xs)) p = None"
  by (induction xs arbitrary: g lg) (auto simp: guard_exec_permit_gone)

definition permits_issued :: "auth_guard \<Rightarrow> bool" where
  "permits_issued g \<longleftrightarrow> (\<forall>p. gd_permits g p \<noteq> None \<longrightarrow> p < gd_nextPermit g)"

lemma permits_issued_step: "permits_issued g \<Longrightarrow> permits_issued (guard_exec rt g x)"
  by (cases x)
     (auto simp: permits_issued_def reserve_def reserveBrowserAttempt_def beginReservedBrowserAttempt_def drop_permit_def
        reserveBatch_def waitForRate_def Let_def less_Suc_eq split: reservation_splits)

lemma permits_issued_run: "permits_issued g \<Longrightarrow> permits_issued (fst (guard_run rt g lg xs))"
  by (induction xs arbitrary: g lg) (auto simp: permits_issued_step)

lemma guard_run_plan [simp]: "gd_plan (fst (guard_run rt g lg xs)) = gd_plan g"
  by (induction xs arbitrary: g lg) auto

text \<open>
  a native browser attempt begins at most once per permit, whatever happens in between: in a
  state reached from a new guard, a begun attempt matches the URL, method and body digest its permit was issued for
  and passes the check again, and after any further operations the same permit is refused.
\<close>

theorem browser_permit_single_use:
  assumes "new_auth_guard rt plan now = Inr g0" "requestPolicy plan = Some pol" "fst (guard_run rt g0 [] xs) = g"
    and "beginReservedBrowserAttempt rt g c n permit url verb body = (None, g')"
  shows "\<exists>k rv. permit = Some k \<and> gd_permits g k = Some rv \<and> rv_url rv = url \<and> rv_method rv = to_upper verb \<and>
           rv_bodyHash rv = rt_sha256 rt body \<and>
           (\<exists>u. rt_newURL rt url = Some u \<and> contract_approves plan pol (gd_startedAt g) c u verb) \<and>
           gd_transmitted g' = gd_transmitted g \<and>
           fst (beginReservedBrowserAttempt rt (fst (guard_run rt g' lg ys)) c2 n2 permit url2 method2 body2) = Some RequestNotApproved"
proof -
  note new = new_auth_guard_Inr [OF assms(1)]
  have plan: "gd_plan g = plan" using assms(3) new by auto
  have pol: "requestPolicy (gd_plan g) = Some pol" using plan assms(2) by simp
  obtain rv where rv: "Option.bind permit (gd_permits g) = Some rv" "rv_url rv = url" "rv_method rv = to_upper verb"
    "rv_bodyHash rv = rt_sha256 rt body" "check rt (drop_permit permit g) c url verb (Some body) = None"
    and g': "g' = (drop_permit permit g)\<lparr>gd_recent := remove1 (rv_time rv) (window n (gd_recent g)) @ [n]\<rparr>"
    using begin_moved [OF assms(4) pol] by metis
  obtain k where k: "permit = Some k" "gd_permits g k = Some rv" using rv(1) by (cases permit) auto
  have dp: "gd_plan (drop_permit permit g) = plan" "gd_startedAt (drop_permit permit g) = gd_startedAt g"
    using plan by (auto simp: drop_permit_def split: option.splits)
  have appr: "\<exists>u. rt_newURL rt url = Some u \<and> contract_approves plan pol (gd_startedAt g) c u verb"
    using check_passed [OF rv(5)] assms(2) dp by metis
  have "permits_issued g0" using new by (simp add: permits_issued_def)
  then have "permits_issued g" using permits_issued_run assms(3) by metis
  then have "gd_permits g' k = None" "k < gd_nextPermit g'" using k g' by (auto simp: permits_issued_def drop_permit_def)
  then have gone: "gd_permits (fst (guard_run rt g' lg ys)) k = None" by (rule guard_run_permit_gone)
  have "requestPolicy (gd_plan (fst (guard_run rt g' lg ys))) = Some pol"
    using pol g' k by (simp add: drop_permit_def)
  then have "fst (beginReservedBrowserAttempt rt (fst (guard_run rt g' lg ys)) c2 n2 permit url2 method2 body2) = Some RequestNotApproved"
    using gone k by (simp add: beginReservedBrowserAttempt_def Let_def)
  then show ?thesis using k rv appr g' by (auto simp: drop_permit_def)
qed

theorem browser_permit_single_use_witness:
  "\<exists>k rv. Some 0 = Some k \<and> gd_permits (fst (guard_run example_runtime example_guard [] (take 3 example_ops))) k = Some rv \<and>
     rv_url rv = ''https://a.io/x'' \<and> rv_method rv = ''GET''"
proof -
  let ?g = "fst (guard_run example_runtime example_guard [] (take 3 example_ops))"
  have "fst (beginReservedBrowserAttempt example_runtime ?g 50 50 (Some 0) ''https://a.io/x'' ''GET'' []) = None"
    by code_simp
  then have "beginReservedBrowserAttempt example_runtime ?g 50 50 (Some 0) ''https://a.io/x'' ''GET'' [] =
     (None, snd (beginReservedBrowserAttempt example_runtime ?g 50 50 (Some 0) ''https://a.io/x'' ''GET'' []))"
    by (simp add: prod_eq_iff)
  moreover have "to_upper ''GET'' = ''GET''" by code_simp
  ultimately show ?thesis
    using browser_permit_single_use [OF example_guard_new example_policy refl, of "take 3 example_ops"] by metis
qed

lemma wait_for_rate_free:
  assumes "slots \<le> rate" "\<forall>w \<in> set wakes. \<not> snd w" "w \<in> set wakes" "\<forall>x \<in> set (gd_recent g). x + 1000 \<le> fst w"
  shows "\<exists>g' now. wait_for_rate_loop rate slots g wakes = (RateFree, g') \<and> now \<in> fst ` set wakes \<and>
           int (length (window now (gd_recent g'))) + slots \<le> rate"
  using assms
proof (induction wakes arbitrary: g)
  case (Cons v wakes)
  obtain now where v: "v = (now, False)" using Cons.prems(2) by (cases v) auto
  let ?g = "g\<lparr>gd_recent := window now (gd_recent g)\<rparr>"
  show ?case
  proof (cases "int (length (gd_recent ?g)) + slots \<le> rate")
    case True
    then show ?thesis using v by (intro exI [of _ ?g] exI [of _ now]) (simp add: window_idem)
  next
    case False
    have "w \<in> set wakes"
    proof (rule ccontr)
      assume "w \<notin> set wakes"
      then have "window now (gd_recent g) = []" using Cons.prems(3,4) v by (force simp: window_def filter_empty_conv)
      then show False using False Cons.prems(1) by simp
    qed
    moreover have "\<forall>x \<in> set (gd_recent ?g). x + 1000 \<le> fst w" using Cons.prems(4) by (simp add: window_def)
    ultimately obtain g' now' where "wait_for_rate_loop rate slots ?g wakes = (RateFree, g')" "now' \<in> fst ` set wakes"
      "int (length (window now' (gd_recent g'))) + slots \<le> rate"
      using Cons.IH [of ?g] Cons.prems(1,2) by auto
    then show ?thesis using v False by auto
  qed
qed simp

text \<open>
  \<^verbatim>\<open>waitForRate\<close> returns: unless the signal aborts, once a wake-up reads a clock one second
  after the last slot taken it has found room, and the room is there: the window it left has the
  asked number of slots free. It fails at once exactly when more slots are asked than the rate allows.
\<close>

theorem waitForRate_progress:
  assumes "requestPolicy (gd_plan g) = Some p" "\<forall>w \<in> set wakes. \<not> snd w" "(now, False) \<in> set wakes"
    "\<forall>x \<in> set (gd_recent g). x + 1000 \<le> now"
  shows "if slots \<le> pr_rateLimitPerSecond p
         then \<exists>g' t. waitForRate g slots wakes = (RateFree, g') \<and> t \<in> fst ` set wakes \<and>
                int (length (window t (gd_recent g'))) + slots \<le> pr_rateLimitPerSecond p
         else waitForRate g slots wakes = (RateExceedsLimit, g)"
  using wait_for_rate_free [of slots "pr_rateLimitPerSecond p" wakes "(now, False)" g] assms
  by (auto simp: waitForRate_def)

theorem waitForRate_progress_witness:
  "\<exists>g' t. waitForRate (example_guard\<lparr>gd_recent := [100, 200]\<rparr>) 2 [(900, False), (1300, False)] = (RateFree, g') \<and>
     t \<in> fst ` set [(900, False), (1300 :: int, False)] \<and>
     int (length (window t (gd_recent g'))) + 2 \<le> pr_rateLimitPerSecond example_program"
proof -
  have "requestPolicy (gd_plan (example_guard\<lparr>gd_recent := [100, 200]\<rparr>)) = Some example_program"
    by (simp add: example_guard_def example_policy)
  moreover have "pr_rateLimitPerSecond example_program = 2"
    by (simp add: example_program_def example_bounty_def request_program.defs)
  ultimately show ?thesis
    using waitForRate_progress [of "example_guard\<lparr>gd_recent := [100, 200]\<rparr>" example_program
        "[(900, False), (1300, False)]" 1300 2] by simp
qed

text \<open>
  a production campaign is read-only. Under an accepted contract with a campaign, a request that
  passes the check has a safe method, no body, no query and no fragment, and is either exactly a
  listed request or a GET below a listed static-asset prefix with a listed extension.
\<close>

theorem campaign_read_only:
  assumes "targetAuthorization_valid rt (gd_plan g)" "ta_productionCampaign (gd_plan g) = Some c"
    "check rt g now url verb body = None"
  shows "to_upper verb \<in> {''GET'', ''HEAD'', ''OPTIONS''} \<and> (body = None \<or> body = Some []) \<and>
    (\<exists>u. rt_newURL rt url = Some u \<and> u_search u = [] \<and> u_hash u = [] \<and>
      ((\<exists>r \<in> set (pr_requests c). ru_origin r = url_origin u \<and> ru_path r = u_pathname u \<and> ru_method r = to_upper verb) \<or>
       to_upper verb = ''GET'' \<and>
       (\<exists>a \<in> set (pc_staticAssets c). url_origin u = sa_origin a \<and> starts_with (u_pathname u) (sa_pathPrefix a) \<and>
          (\<exists>e \<in> set (sa_extensions a). ends_with (u_pathname u) e))))"
proof -
  have pol: "requestPolicy (gd_plan g) = Some (request_program.truncate c)" using assms(2) by (simp add: requestPolicy_def)
  obtain u where u: "rt_newURL rt url = Some u"
    and ok: "contract_approves (gd_plan g) (request_program.truncate c) (gd_startedAt g) now u verb"
    and body: "ta_productionCampaign (gd_plan g) = None \<or> body = None \<or> body = Some []"
    using check_passed [OF assms(3) pol] by metis
  have "productionCampaignRequestAllowed c u (to_upper verb)" using ok assms(2) by (simp add: contract_approves_def)
  then have req: "u_search u = [] \<and> u_hash u = [] \<and>
      ((\<exists>r \<in> set (pr_requests c). ru_origin r = url_origin u \<and> ru_path r = u_pathname u \<and> ru_method r = to_upper verb) \<or>
       to_upper verb = ''GET'' \<and>
       (\<exists>a \<in> set (pc_staticAssets c). url_origin u = sa_origin a \<and> starts_with (u_pathname u) (sa_pathPrefix a) \<and>
          (\<exists>e \<in> set (sa_extensions a). ends_with (u_pathname u) e)))"
    by (auto simp: productionCampaignRequestAllowed_def list_ex_iff split: if_splits)
  have "\<forall>r \<in> set (pr_requests c). ru_method r \<in> {''GET'', ''HEAD'', ''OPTIONS''}"
    using assms(1,2)
    by (auto simp: targetAuthorization_valid_def productionCampaign_valid_def campaign_shape_valid_def
        campaign_request_valid_def list_all_iff)
  then have "to_upper verb \<in> {''GET'', ''HEAD'', ''OPTIONS''}" using req by force
  then show ?thesis using req u body assms(2) by auto
qed

definition example_campaign :: production_campaign where
  "example_campaign =
     \<lparr>pr_program = ''demo'', pr_platform = ''OWNER_CONTROLLED'', pr_inScope = [\<lparr>as_origin = ''https://a.io'', as_pathPrefix = ''/''\<rparr>],
      pr_outOfScope = [], pr_rules = [''none''], pr_prohibitedActions = [''dos''],
      pr_startsAt = 0, pr_expiresAt = 100000, pr_maxRequests = 3, pr_rateLimitPerSecond = 2, pr_authenticationPermitted = False,
      pr_mutationPermitted = False, pr_destructivePermitted = False, pr_racePermitted = False,
      pr_requests = [\<lparr>ru_origin = ''https://a.io'', ru_path = ''/'', ru_method = ''GET'', ru_effect = EffRead, ru_bodySha256 = None,
                      ru_expectedStatuses = [200]\<rparr>],
      pc_campaignId = ''01234567-89ab-cdef-0123-456789abcdef'', pc_concurrency = 1, pc_requestTimeoutMs = 1000,
      pc_maxDurationMs = 60000, pc_maxResponseBytes = 512,
      pc_staticAssets = [\<lparr>sa_origin = ''https://a.io'', sa_pathPrefix = ''/js/'', sa_extensions = [''.js'']\<rparr>],
      pc_workflows = [PublicDiscovery], pc_sessionHousekeeping = NonePublicUnauthenticated, pc_contract = LegacyContract False []\<rparr>"

definition example_campaign_guard :: auth_guard where
  "example_campaign_guard = example_guard\<lparr>gd_plan := example_plan\<lparr>ta_mode := OwnedProduction, ta_bugBounty := None,
     ta_productionCampaign := Some example_campaign\<rparr>\<rparr>"

theorem campaign_read_only_witness:
  "check example_runtime example_campaign_guard 50 ''https://a.io/js/app.js'' ''get'' None = None \<and>
   to_upper ''get'' \<in> {''GET'', ''HEAD'', ''OPTIONS''}"
proof -
  have "targetAuthorization_valid example_runtime (gd_plan example_campaign_guard)" by code_simp
  moreover have "ta_productionCampaign (gd_plan example_campaign_guard) = Some example_campaign"
    by (simp add: example_campaign_guard_def)
  moreover have ok: "check example_runtime example_campaign_guard 50 ''https://a.io/js/app.js'' ''get'' None = None" by code_simp
  ultimately show ?thesis using campaign_read_only by blast
qed

end
