(* ===== verification/RC_Scope.thy ===== *)
theory RC_Scope
  imports RC_Guard
begin

text \<open>
  The declared scope: URL normalisation (\<^verbatim>\<open>core/urls/UrlNormalizer.ts\<close>), the scope matcher
  (\<^verbatim>\<open>core/scope/ScopeMatcher.ts\<close>, \<^verbatim>\<open>ScopeTypes.ts\<close>, \<^verbatim>\<open>scopeSchema\<close> of \<^verbatim>\<open>config/ConfigSchema.ts\<close>), and the
  redirect rules of \<^verbatim>\<open>core/http/RedirectSafety.ts\<close>. The lemmas characterise when a URL is allowed.
\<close>

section \<open>Normalisation\<close>

text \<open>
  The further operations of the runtime's URL class: resolution against a base, the decoded entries of
  a query string, the encoding of entries, the comparison of strings, and serialisation.
\<close>

record url_runtime = runtime +
  ur_resolve :: "string \<Rightarrow> url \<Rightarrow> url option"
  ur_searchEntries :: "string \<Rightarrow> (string \<times> string) list"
  ur_searchString :: "(string \<times> string) list \<Rightarrow> string"
  ur_localeCompare :: "string \<Rightarrow> string \<Rightarrow> int"
  ur_toString :: "url \<Rightarrow> string"

definition is_alpha :: "char \<Rightarrow> bool" where
  "is_alpha c \<longleftrightarrow> char_lower c \<in> set ''abcdefghijklmnopqrstuvwxyz''"

definition is_scheme_char :: "char \<Rightarrow> bool" where
  "is_scheme_char c \<longleftrightarrow> is_alpha c \<or> c \<in> set ''0123456789+.-''"

text \<open>\<^verbatim>\<open>/^[a-z][a-z0-9+.-]*:\/\//i.test(input)\<close>: the scheme characters end at the first colon.\<close>

definition has_protocol :: "string \<Rightarrow> bool" where
  "has_protocol s =
     (case s of [] \<Rightarrow> False | c # cs \<Rightarrow> is_alpha c \<and> starts_with (dropWhile is_scheme_char cs) ''://'')"

definition ensureProtocol :: "string \<Rightarrow> string" where
  "ensureProtocol s = (if has_protocol s then s else ''https://'' @ s)"

definition isDefaultPort :: "url \<Rightarrow> bool" where
  "isDefaultPort u \<longleftrightarrow>
     (u_protocol u = ''https:'' \<and> u_port u = ''443'') \<or> (u_protocol u = ''http:'' \<and> u_port u = ''80'')"

text \<open>\<^verbatim>\<open>pathname.replace(/\/{2,}/g, "/")\<close>: runs of slashes become one.\<close>

fun collapse_slashes :: "string \<Rightarrow> string" where
  "collapse_slashes (x # y # s) =
     (if x = CHR ''/'' \<and> y = CHR ''/'' then collapse_slashes (y # s) else x # collapse_slashes (y # s))"
| "collapse_slashes s = s"

definition normalizePathname :: "string \<Rightarrow> string" where
  "normalizePathname p = (if p = [] then ''/'' else collapse_slashes p)"

definition compare_entries :: "url_runtime \<Rightarrow> string \<times> string \<Rightarrow> string \<times> string \<Rightarrow> int" where
  "compare_entries rt l r =
     (let keyComparison = ur_localeCompare rt (fst l) (fst r) in
      if keyComparison = 0 then ur_localeCompare rt (snd l) (snd r) else keyComparison)"

definition normalizeSearchParams :: "url_runtime \<Rightarrow> string \<Rightarrow> string" where
  "normalizeSearchParams rt search =
     (let query = ur_searchString rt (sort_by (compare_entries rt) (ur_searchEntries rt search)) in
      if query = [] then [] else ''?'' @ query)"

definition normalize_parts :: "url_runtime \<Rightarrow> url \<Rightarrow> url" where
  "normalize_parts rt u =
     (let u1 = u\<lparr>u_hash := [], u_hostname := to_lower (u_hostname u)\<rparr>;
          u2 = (if isDefaultPort u1 then u1\<lparr>u_port := []\<rparr> else u1) in
      u2\<lparr>u_pathname := normalizePathname (u_pathname u2), u_search := normalizeSearchParams rt (u_search u2)\<rparr>)"

definition normalizeUrl :: "url_runtime \<Rightarrow> string \<Rightarrow> url option \<Rightarrow> string option" where
  "normalizeUrl rt input base =
     map_option (\<lambda>u. ur_toString rt (normalize_parts rt u))
       (case base of Some b \<Rightarrow> ur_resolve rt input b | None \<Rightarrow> rt_newURL rt (ensureProtocol input))"

section \<open>The scope matcher\<close>

record routecairn_scope =
  sc_program :: string
  sc_allowedDomains :: "string list"
  sc_disallowedPaths :: "string list"
  sc_allowedMethods :: "string list"
  sc_rateLimitPerSecond :: jsnum
  sc_concurrency :: jsnum
  sc_maxDepth :: jsnum
  sc_sameOriginOnly :: bool
  sc_includeSubdomains :: bool
  sc_respectRobotsTxt :: bool
  sc_userAgent :: string

text \<open>\<^verbatim>\<open>scopeSchema\<close>.\<close>

definition scope_valid :: "routecairn_scope \<Rightarrow> bool" where
  "scope_valid s \<longleftrightarrow>
     sc_program s \<noteq> [] \<and> sc_allowedDomains s \<noteq> [] \<and> list_all (\<lambda>d. d \<noteq> []) (sc_allowedDomains s) \<and>
     list_all (\<lambda>p. starts_with p ''/'') (sc_disallowedPaths s) \<and>
     list_all (\<lambda>m. m \<in> {''GET'', ''HEAD'', ''OPTIONS'', ''POST'', ''PATCH'', ''PUT'', ''DELETE'', ''CONNECT''}) (sc_allowedMethods s) \<and>
     js_less (jsint 0) (sc_rateLimitPerSecond s) \<and> js_leq (sc_rateLimitPerSecond s) (jsint 50) \<and>
     js_isInteger (sc_concurrency s) \<and> js_less (jsint 0) (sc_concurrency s) \<and> js_leq (sc_concurrency s) (jsint 50) \<and>
     js_isInteger (sc_maxDepth s) \<and> js_leq (jsint 0) (sc_maxDepth s) \<and> js_leq (sc_maxDepth s) (jsint 10) \<and>
     sc_userAgent s \<noteq> []"

datatype scope_reason =
    Allowed | TargetAuthorizationDenied | InvalidScopeUrl | DomainNotAllowed | SubdomainNotAllowed | DifferentOrigin
  | DisallowedPath | MethodNotAllowed

record scope_decision =
  sd_allowed :: bool
  sd_reason :: scope_reason
  sd_normalizedUrl :: "string option"

record scope_matcher =
  sm_target :: url
  sm_scope :: routecairn_scope
  sm_authorization :: "auth_guard option"

definition new_scope_matcher ::
    "url_runtime \<Rightarrow> string \<Rightarrow> routecairn_scope \<Rightarrow> auth_guard option \<Rightarrow> string + scope_matcher" where
  "new_scope_matcher rt targetUrl scope authorization =
     (case Option.bind (normalizeUrl rt targetUrl None) (rt_newURL rt) of
        None \<Rightarrow> Inl ''TypeError: Invalid URL''
      | Some u \<Rightarrow> Inr \<lparr>sm_target = u, sm_scope = scope, sm_authorization = authorization\<rparr>)"

definition domain_matches :: "bool \<Rightarrow> string \<Rightarrow> string \<Rightarrow> bool" where
  "domain_matches includeSubdomains normalizedHostname domain =
     (let normalizedDomain = to_lower domain in
      if starts_with normalizedDomain ''*.'' then
        includeSubdomains \<and> ends_with normalizedHostname (''.'' @ drop 2 normalizedDomain)
      else if normalizedHostname = normalizedDomain then True
      else includeSubdomains \<and> ends_with normalizedHostname (''.'' @ normalizedDomain))"

definition isAllowedHostname :: "routecairn_scope \<Rightarrow> string \<Rightarrow> bool" where
  "isAllowedHostname s hostname =
     list_ex (domain_matches (sc_includeSubdomains s) (to_lower hostname)) (sc_allowedDomains s)"

definition isDisallowedPath :: "routecairn_scope \<Rightarrow> string \<Rightarrow> bool" where
  "isDisallowedPath s pathname =
     list_ex (\<lambda>p. pathname = p \<or> starts_with pathname (p @ ''/'')) (sc_disallowedPaths s)"

definition decide :: "url_runtime \<Rightarrow> scope_matcher \<Rightarrow> int \<Rightarrow> string \<Rightarrow> string \<Rightarrow> string option \<Rightarrow> scope_decision" where
  "decide rt m now url method body =
     (case normalizeUrl rt url (Some (sm_target m)) of
        None \<Rightarrow> \<lparr>sd_allowed = False, sd_reason = InvalidScopeUrl, sd_normalizedUrl = None\<rparr>
      | Some normalizedUrl \<Rightarrow>
         (case rt_newURL rt normalizedUrl of
            None \<Rightarrow> \<lparr>sd_allowed = False, sd_reason = InvalidScopeUrl, sd_normalizedUrl = None\<rparr>
          | Some parsed \<Rightarrow>
             (let refuse = (\<lambda>r. \<lparr>sd_allowed = False, sd_reason = r, sd_normalizedUrl = Some normalizedUrl\<rparr>) in
              if to_upper method \<notin> set (sc_allowedMethods (sm_scope m)) then refuse MethodNotAllowed
              else if sc_sameOriginOnly (sm_scope m) \<and> url_origin parsed \<noteq> url_origin (sm_target m) then refuse DifferentOrigin
              else if \<not> isAllowedHostname (sm_scope m) (u_hostname parsed) then refuse DomainNotAllowed
              else if isDisallowedPath (sm_scope m) (u_pathname parsed) then refuse DisallowedPath
              else if (case sm_authorization m of
                         None \<Rightarrow> False
                       | Some g \<Rightarrow> check (runtime.truncate rt) g now normalizedUrl method body \<noteq> None)
              then refuse TargetAuthorizationDenied
              else \<lparr>sd_allowed = True, sd_reason = Allowed, sd_normalizedUrl = Some normalizedUrl\<rparr>)))"

definition isAllowed :: "url_runtime \<Rightarrow> scope_matcher \<Rightarrow> int \<Rightarrow> string \<Rightarrow> string \<Rightarrow> bool" where
  "isAllowed rt m now url method = sd_allowed (decide rt m now url method None)"

definition targetOrigin :: "scope_matcher \<Rightarrow> string" where
  "targetOrigin m = url_origin (sm_target m)"

section \<open>Redirects\<close>

text \<open>What \<^verbatim>\<open>crossesRequestMaterialBoundary\<close> reads of a request: its header names and its body.\<close>

definition crossesRequestMaterialBoundary ::
    "runtime \<Rightarrow> string list \<Rightarrow> string option \<Rightarrow> string \<Rightarrow> string \<Rightarrow> string + bool" where
  "crossesRequestMaterialBoundary rt headerNames body currentUrl nextUrl =
     (case rt_newURL rt nextUrl of
        None \<Rightarrow> Inl ''TypeError: Invalid URL''
      | Some next \<Rightarrow>
         (case rt_newURL rt currentUrl of
            None \<Rightarrow> Inl ''TypeError: Invalid URL''
          | Some current \<Rightarrow>
              Inr (url_origin next \<noteq> url_origin current \<and>
                   (headerNames \<noteq> [] \<or> (case body of None \<Rightarrow> False | Some b \<Rightarrow> b \<noteq> [])))))"

section \<open>Properties\<close>

lemma collapse_slashes_no_double: "\<not> includes_sub (collapse_slashes s) ''//''"
proof (induction s rule: collapse_slashes.induct)
  case (1 x y s)
  have hd: "collapse_slashes (y # s) \<noteq> [] \<and> hd (collapse_slashes (y # s)) = y" for y s
    by (induction s arbitrary: y) auto
  show ?case
  proof (cases "x = CHR ''/'' \<and> y = CHR ''/''")
    case False
    have "\<not> starts_with (x # collapse_slashes (y # s)) ''//''"
      using hd [of y s] False by (cases "collapse_slashes (y # s)") (auto simp: starts_with_def)
    then show ?thesis using 1(2) [OF False] False by auto
  qed (use 1(1) in auto)
qed (auto simp: starts_with_def)

lemma collapse_slashes_idem: "collapse_slashes (collapse_slashes s) = collapse_slashes s"
proof (induction s rule: collapse_slashes.induct)
  case (1 x y s)
  have hd: "\<exists>r. collapse_slashes (y # s) = y # r" for y s
    by (induction s arbitrary: y) auto
  obtain r where "collapse_slashes (y # s) = y # r" using hd by blast
  then show ?case using 1 by (cases "x = CHR ''/'' \<and> y = CHR ''/''") auto
qed auto

text \<open>
  A path in normal form has no empty segment, starts as the input does, and normalising again
  changes nothing; a default port is dropped and the fragment never survives.
\<close>

theorem normalize_parts_normal_form:
  "let n = normalize_parts rt u in
     u_hash n = [] \<and> \<not> isDefaultPort n \<and> u_hostname n = to_lower (u_hostname u) \<and> u_pathname n \<noteq> [] \<and>
     \<not> includes_sub (u_pathname n) ''//'' \<and> normalizePathname (u_pathname n) = u_pathname n"
proof -
  have ne: "collapse_slashes s \<noteq> []" if "s \<noteq> []" for s
    using that by (induction s rule: collapse_slashes.induct) auto
  have "normalizePathname q \<noteq> [] \<and> \<not> includes_sub (normalizePathname q) ''//'' \<and>
        normalizePathname (normalizePathname q) = normalizePathname q" for q
    using ne [of q] collapse_slashes_no_double [of q] collapse_slashes_idem [of q]
    by (cases "q = []") (simp_all add: normalizePathname_def starts_with_def)
  then show ?thesis by (auto simp: normalize_parts_def Let_def isDefaultPort_def)
qed

text \<open>The host condition in words: the name itself, or with subdomains enabled a name below it.\<close>

lemma domain_matches_iff:
  "domain_matches sub h d \<longleftrightarrow>
     (if starts_with (to_lower d) ''*.'' then sub \<and> (\<exists>p. h = p @ ''.'' @ drop 2 (to_lower d))
      else h = to_lower d \<or> sub \<and> (\<exists>p. h = p @ ''.'' @ to_lower d))"
  by (auto simp: domain_matches_def Let_def ends_with_iff)

text \<open>
  what the matcher allows is inside the declared scope. The request's method is declared, its
  normalised URL has the target's origin where the scope demands it, its host is a declared domain or, with
  subdomains enabled, a name strictly below one, its path is no declared exclusion nor below one, and the
  target authorization, where there is one, passes its check for exactly the normalised URL.
\<close>

theorem scope_allowed_is_in_scope:
  assumes "decide rt m now url method body = d" "sd_allowed d"
  shows "\<exists>norm parsed. sd_normalizedUrl d = Some norm \<and> normalizeUrl rt url (Some (sm_target m)) = Some norm \<and>
    rt_newURL rt norm = Some parsed \<and> to_upper method \<in> set (sc_allowedMethods (sm_scope m)) \<and>
    (sc_sameOriginOnly (sm_scope m) \<longrightarrow> url_origin parsed = targetOrigin m) \<and>
    (\<exists>dom \<in> set (sc_allowedDomains (sm_scope m)).
       if starts_with (to_lower dom) ''*.''
       then sc_includeSubdomains (sm_scope m) \<and> (\<exists>p. to_lower (u_hostname parsed) = p @ ''.'' @ drop 2 (to_lower dom))
       else to_lower (u_hostname parsed) = to_lower dom \<or>
            sc_includeSubdomains (sm_scope m) \<and> (\<exists>p. to_lower (u_hostname parsed) = p @ ''.'' @ to_lower dom)) \<and>
    (\<forall>x \<in> set (sc_disallowedPaths (sm_scope m)). u_pathname parsed \<noteq> x \<and> \<not> starts_with (u_pathname parsed) (x @ ''/'')) \<and>
    (\<forall>g. sm_authorization m = Some g \<longrightarrow> check (runtime.truncate rt) g now norm method body = None)"
proof -
  obtain norm parsed where n: "normalizeUrl rt url (Some (sm_target m)) = Some norm" "rt_newURL rt norm = Some parsed"
    using assms by (auto simp: decide_def split: option.splits)
  then have "sd_normalizedUrl d = Some norm" "to_upper method \<in> set (sc_allowedMethods (sm_scope m))"
    "sc_sameOriginOnly (sm_scope m) \<longrightarrow> url_origin parsed = targetOrigin m"
    "isAllowedHostname (sm_scope m) (u_hostname parsed)" "\<not> isDisallowedPath (sm_scope m) (u_pathname parsed)"
    "\<forall>g. sm_authorization m = Some g \<longrightarrow> check (runtime.truncate rt) g now norm method body = None"
    using assms by (auto simp: decide_def Let_def targetOrigin_def split: if_splits option.splits)
  then show ?thesis
    using n by (auto simp: isAllowedHostname_def isDisallowedPath_def list_ex_iff domain_matches_iff)
qed

text \<open>A small concrete runtime and scope for the examples.\<close>

definition example_url_runtime :: url_runtime where
  "example_url_runtime =
     \<lparr>rt_newURL = split_https, rt_sha256 = (\<lambda>s. replicate 64 (CHR ''0'')), ur_resolve = (\<lambda>s b. split_https s),
      ur_searchEntries = (\<lambda>s. []), ur_searchString = (\<lambda>e. []), ur_localeCompare = locale_compare,
      ur_toString = (\<lambda>u. u_protocol u @ ''//'' @ url_host u @ u_pathname u @ u_search u)\<rparr>"

definition example_scope :: routecairn_scope where
  "example_scope = \<lparr>sc_program = ''demo'', sc_allowedDomains = [''a.io''], sc_disallowedPaths = [''/logout'', ''/admin/''],
     sc_allowedMethods = [''GET'', ''HEAD'', ''OPTIONS''], sc_rateLimitPerSecond = jsint 3, sc_concurrency = jsint 5,
     sc_maxDepth = jsint 2, sc_sameOriginOnly = False, sc_includeSubdomains = True, sc_respectRobotsTxt = False,
     sc_userAgent = ''RouteCairn/0.1''\<rparr>"

definition example_matcher :: scope_matcher where
  "example_matcher = \<lparr>sm_target = url_of_parts ''https:'' ''a.io'' ''/'', sm_scope = example_scope, sm_authorization = None\<rparr>"

theorem scope_allowed_is_in_scope_witness:
  "\<exists>norm parsed. sd_normalizedUrl (decide example_url_runtime example_matcher 0 ''https://www.a.io//x'' ''get'' None) = Some norm \<and>
     rt_newURL example_url_runtime norm = Some parsed"
proof -
  have "sd_allowed (decide example_url_runtime example_matcher 0 ''https://www.a.io//x'' ''get'' None)" by code_simp
  from scope_allowed_is_in_scope [OF refl this] show ?thesis by blast
qed

text \<open>
  an excluded path written with a trailing slash excludes nothing below it. The schema accepts
  \<^verbatim>\<open>/admin/\<close>, but the matcher tests for the prefix \<^verbatim>\<open>/admin//\<close>, which no normalised path has: every
  path in normal form other than the entry itself passes that entry.
\<close>

theorem trailing_slash_exclusion_is_exact:
  assumes "ends_with x ''/''" "\<not> includes_sub (u_pathname parsed) ''//''"
  shows "isDisallowedPath (s\<lparr>sc_disallowedPaths := [x]\<rparr>) (u_pathname parsed) \<longleftrightarrow> u_pathname parsed = x"
proof -
  have sub: "includes_sub (p @ ''//'' @ r) ''//''" for p r
    by (induction p) (simp_all add: starts_with_def)
  obtain y where y: "x = y @ ''/''" using assms(1) by (auto simp: ends_with_iff)
  have "\<not> starts_with (u_pathname parsed) (x @ ''/'')"
    using assms(2) sub [of y] by (auto simp: y starts_with_iff)
  then show ?thesis by (simp add: isDisallowedPath_def)
qed

theorem trailing_slash_exclusion_is_exact_witness:
  "\<not> isDisallowedPath (example_scope\<lparr>sc_disallowedPaths := [''/admin/'']\<rparr>) (u_pathname (url_of_parts ''https:'' ''a.io'' ''/admin/users''))"
proof -
  have "ends_with ''/admin/'' ''/''" by code_simp
  moreover have "\<not> includes_sub (u_pathname (url_of_parts ''https:'' ''a.io'' ''/admin/users'')) ''//''" by code_simp
  ultimately show ?thesis
    using trailing_slash_exclusion_is_exact [of "''/admin/''" "url_of_parts ''https:'' ''a.io'' ''/admin/users''" example_scope]
    by (simp add: url_of_parts_def)
qed

end
