(* ===== verification/RC_Planner.thy ===== *)
theory RC_Planner
  imports RC_Profiles RC_Scope
begin

text \<open>
  The scan planner, \<^verbatim>\<open>core/planning/ScanPlanner.ts\<close>, with the pre-handover bindings of
  \<^verbatim>\<open>modules/preHandover/PreHandoverPlanner.ts\<close>: it turns a profile, the declared scope, the overrides of a
  run and the supplied test plans into one resolved plan or a named error. A thrown error is the
  string of its code. A test plan is modelled by the fields the planner reads; a plan it only
  tests for presence is a flag.
\<close>

section \<open>Inputs\<close>

text \<open>\<open>ap_proofCaseIds\<close> are the case ids of \<^verbatim>\<open>browserBootstrap?.proofCases\<close>.\<close>

record auth_profile =
  ap_principalId :: "string option"
  ap_proofCaseIds :: "string list option"

record auth_profile_set =
  aps_accountA :: auth_profile
  aps_accountB :: auth_profile

record mutation_case = mc_caseId :: string  mc_verificationAttempts :: int
record supabase_case = sb_id :: string  sb_mutationContractCaseId :: "string option"
record phased_case = ph_id :: string  ph_steps :: "string list"
record lifecycle_plan = lp_cases :: "phased_case list"  lp_automationCategories :: "string list option"
record invariant_case = iv_id :: string  iv_invariants :: "string list"  iv_cleanup :: nat  iv_cleanupVerification :: nat
record race_case = rc_id :: string  rc_cleanup :: nat  rc_cleanupVerification :: nat
record protocol_case = pt_kind :: string  pt_readOnly :: bool
record billing_case = bl_id :: string  bl_steps :: "(string \<times> int) list"
record active_case = ac_cleanupUrl :: "string option"  ac_cleanupMethod :: "string option"
record matrix_cell = mx_authSlot :: "string option"  mx_actorRelationship :: string

record review_case = rw_workflowId :: string  rw_caseId :: string

text \<open>\<open>arv_json\<close> is the text \<^verbatim>\<open>JSON.stringify\<close> gives for the review.\<close>

record assisted_review =
  arv_json :: string
  arv_requireVerifiedIdentity :: bool
  arv_requireAccountPair :: bool
  arv_cases :: "review_case list"

record pre_handover =
  hv_targetOrigin :: string
  hv_invariants :: "(string \<times> string) list"
  hv_races :: "string list"
  hv_sequence :: "module_id list"
  hv_review :: assisted_review

text \<open>The supplied test plans.\<close>

record test_plans =
  tp_objectPairTesting :: bool
  tp_fieldExposureTesting :: bool
  tp_authorizationMatrixTesting :: bool
  tp_collectionAuthorizationTesting :: "matrix_cell list option"
  tp_bulkAuthorizationTesting :: bool
  tp_fileAuthorizationTesting :: "matrix_cell list option"
  tp_equivalentRouteTesting :: bool
  tp_privilegeMutationTesting :: "mutation_case list option"
  tp_supabaseAuthorization :: "supabase_case list option"
  tp_authenticationLifecycle :: "lifecycle_plan option"
  tp_businessInvariant :: "invariant_case list option"
  tp_controlledRace :: "race_case list option"
  tp_apiGraphql :: "string list option"
  tp_protocolSecurity :: "protocol_case list option"
  tp_linkPortalSecurity :: "phased_case list option"
  tp_operationalEndpointSecurity :: "phased_case list option"
  tp_billingEntitlement :: "billing_case list option"
  tp_activeVulnerability :: "active_case list option"

record plan_overrides =
  ov_rateLimitPerSecond :: "jsnum option"
  ov_concurrency :: "jsnum option"
  ov_maxRequests :: "jsnum option"
  ov_cleanupReservedRequests :: "jsnum option"
  ov_includeModules :: "module_id list option"
  ov_excludeModules :: "module_id list"
  ov_moduleSettings :: "(module_id \<times> module_settings) list"
  ov_evidenceLevel :: "evidence_level option"

record planner_input =
  pi_actorRegistry :: bool
  pi_targetAuthorization :: "target_authorization option"
  pi_preHandover :: "pre_handover option"
  pi_assistedReview :: "assisted_review option"
  pi_requestedProfile :: scan_profile_name
  pi_scope :: routecairn_scope
  pi_configRequestTimeoutMs :: jsnum
  pi_configBodyPreviewBytes :: jsnum
  pi_authProfile :: "auth_profile option"
  pi_authProfileSet :: "auth_profile_set option"
  pi_overrides :: plan_overrides
  pi_plans :: test_plans

section \<open>Resolved plans\<close>

record module_plan =
  mp_id :: module_id
  mp_phase :: plugin_phase
  mp_settings :: module_settings
  mp_limits :: partial_limits
  mp_includedBecause :: "string list"

record plan_authentication = authentication_requirements +
  pa_hasSingleProfile :: bool
  pa_hasAccountPair :: bool

record resolved_scan_plan =
  sp_actorRegistry :: bool
  sp_profile :: scan_profile_name
  sp_displayName :: string
  sp_description :: string
  sp_modules :: "module_plan list"
  sp_skippedModules :: "(module_id \<times> string) list"
  sp_limits :: scan_limits
  sp_authentication :: plan_authentication
  sp_evidence :: evidence_policy
  sp_output :: output_expectations
  sp_failurePolicy :: failure_policy
  sp_optionalModulesMayBeSkipped :: bool
  sp_reportFocus :: "string list"
  sp_targetAuthorization :: "target_authorization option"
  sp_preHandover :: "pre_handover option"
  sp_assistedReview :: "assisted_review option"
  sp_plans :: test_plans

section \<open>Limits\<close>

definition defaultRetry :: retry_options where
  "defaultRetry = \<lparr>maxAttempts = jsint 2, baseDelayMs = jsint 250, maxDelayMs = jsint 2000,
     retryStatusCodes = [408, 429, 500, 502, 503, 504]\<rparr>"

text \<open>\<open>truthy_or x d\<close> is \<^verbatim>\<open>...(x ? { k: x } : {})\<close> over a previous value \<open>d\<close>.\<close>

definition truthy_or :: "jsnum option \<Rightarrow> jsnum \<Rightarrow> jsnum" where
  "truthy_or x d = (case x of None \<Rightarrow> d | Some v \<Rightarrow> if js_truthy v then v else d)"

definition truthy_str :: "string option \<Rightarrow> bool" where
  "truthy_str s \<longleftrightarrow> s \<noteq> None \<and> s \<noteq> Some []"

definition cleanup_steps :: "phased_case list \<Rightarrow> int" where
  "cleanup_steps cs = sum_list (map (\<lambda>c. int (length (filter (\<lambda>p. p = ''CLEANUP'') (ph_steps c)))) cs)"

definition protocol_needs_cleanup :: "protocol_case \<Rightarrow> bool" where
  "protocol_needs_cleanup c \<longleftrightarrow>
     pt_kind c = ''GRAPHQL_MUTATION'' \<or> pt_kind c = ''STREAMING_UPLOAD_INTERRUPT'' \<or>
     (pt_kind c = ''MULTIPART_UPLOAD'' \<or> pt_kind c = ''WEBSOCKET'' \<or> pt_kind c = ''WEBSOCKET_AUTH_STATE_MACHINE'' \<or>
      pt_kind c = ''GRPC_UNARY'' \<or> pt_kind c = ''GRPC_SERVER_STREAM'' \<or> pt_kind c = ''GRPC_CLIENT_STREAM'' \<or>
      pt_kind c = ''GRPC_BIDI_STREAM'') \<and> \<not> pt_readOnly c"

definition minimumCleanupRequests :: "planner_input \<Rightarrow> int" where
  "minimumCleanupRequests input = (let p = pi_plans input in
     sum_list (map (\<lambda>c. 1 + mc_verificationAttempts c +
         (if mc_caseId c \<in> set (or_else (Option.bind (pi_authProfile input) ap_proofCaseIds) []) then 20 else 0))
       (or_else (tp_privilegeMutationTesting p) [])) +
     2 * int (length (filter (\<lambda>c. truthy_str (sb_mutationContractCaseId c)) (or_else (tp_supabaseAuthorization p) []))) +
     (case tp_authenticationLifecycle p of
        None \<Rightarrow> 0
      | Some l \<Rightarrow> cleanup_steps (lp_cases l) + int (length (or_else (lp_automationCategories l) []))) +
     sum_list (map (\<lambda>c. int (iv_cleanup c + iv_cleanupVerification c)) (or_else (tp_businessInvariant p) [])) +
     sum_list (map (\<lambda>c. int (rc_cleanup c + rc_cleanupVerification c)) (or_else (tp_controlledRace p) [])) +
     int (length (filter protocol_needs_cleanup (or_else (tp_protocolSecurity p) []))) +
     cleanup_steps (or_else (tp_linkPortalSecurity p) []) +
     cleanup_steps (or_else (tp_operationalEndpointSecurity p) []) +
     sum_list (map (\<lambda>c. sum_list (map snd (filter (\<lambda>s. fst s = ''CLEANUP'') (bl_steps c)))) (or_else (tp_billingEntitlement p) [])) +
     int (length (filter (\<lambda>c. truthy_str (ac_cleanupUrl c) \<and> truthy_str (ac_cleanupMethod c)) (or_else (tp_activeVulnerability p) []))))"

definition merged_limits :: "scan_profile_definition \<Rightarrow> planner_input \<Rightarrow> scan_limits" where
  "merged_limits definition input = (let l = pd_limits definition; s = pi_scope input; ov = pi_overrides input in
     \<lparr>lm_maxDepth = js_min (or_else (pl_maxDepth l) (sc_maxDepth s)) (sc_maxDepth s),
      lm_rateLimitPerSecond =
        js_min (truthy_or (ov_rateLimitPerSecond ov) (or_else (pl_rateLimitPerSecond l) (sc_rateLimitPerSecond s)))
          (sc_rateLimitPerSecond s),
      lm_concurrency = js_min (truthy_or (ov_concurrency ov) (or_else (pl_concurrency l) (sc_concurrency s))) (sc_concurrency s),
      lm_requestTimeoutMs = or_else (pl_requestTimeoutMs l) (pi_configRequestTimeoutMs input),
      lm_bodyPreviewBytes = or_else (pl_bodyPreviewBytes l) (pi_configBodyPreviewBytes input),
      lm_maxResponseBytes =
        (case pl_bodyPreviewBytes l of
           Some b \<Rightarrow> if js_truthy b then js_scale 4 b
                     else or_else (pl_maxResponseBytes l) (js_scale 4 (pi_configBodyPreviewBytes input))
         | None \<Rightarrow> or_else (pl_maxResponseBytes l) (js_scale 4 (pi_configBodyPreviewBytes input))),
      lm_maxRequests = truthy_or (ov_maxRequests ov) (or_else (pl_maxRequests l) (jsint 200)),
      lm_cleanupReservedRequests = or_else (pl_cleanupReservedRequests l) (jsint 0),
      lm_maxScanDurationMs = or_else (pl_maxScanDurationMs l) (jsint 300000),
      lm_retry = or_else (pl_retry l) defaultRetry\<rparr>)"

definition resolveLimits :: "scan_profile_definition \<Rightarrow> planner_input \<Rightarrow> string + scan_limits" where
  "resolveLimits definition input =
     (let merged = merged_limits definition input;
          minimumCleanup = jsint (minimumCleanupRequests input);
          cleanupReservedRequests =
            (case ov_cleanupReservedRequests (pi_overrides input) of
               Some v \<Rightarrow> v
             | None \<Rightarrow>
                (case pl_cleanupReservedRequests (pd_limits definition) of
                   Some v \<Rightarrow> v
                 | None \<Rightarrow>
                    if js_less (jsint 0) minimumCleanup
                    then js_min (lm_maxRequests merged) (js_max minimumCleanup (js_ceil (js_scale (1 / 5) (lm_maxRequests merged))))
                    else jsint 0)) in
      ebind (guard_err (js_less cleanupReservedRequests minimumCleanup) ''SCAN_PLAN_CLEANUP_RESERVE_INSUFFICIENT'') (\<lambda>_.
      ebind (guard_err (js_less (jsint 0) minimumCleanup \<and> js_leq (lm_maxRequests merged) cleanupReservedRequests)
               ''SCAN_PLAN_ATTACK_CAPACITY_EMPTY'') (\<lambda>_.
      Inr (merged\<lparr>lm_cleanupReservedRequests := cleanupReservedRequests\<rparr>))))"

text \<open>The clamp that a bug-bounty program or a production campaign puts on the resolved limits.\<close>

definition clamp_to_program :: "target_authorization option \<Rightarrow> scan_limits \<Rightarrow> scan_limits" where
  "clamp_to_program authorization l =
     (case Option.bind authorization requestPolicy of
        None \<Rightarrow> l
      | Some program \<Rightarrow>
         (let l1 = (case Option.bind authorization ta_productionCampaign of
                      None \<Rightarrow> l
                    | Some c \<Rightarrow> l\<lparr>lm_concurrency := js_min (lm_concurrency l) (jsint (pc_concurrency c)),
                        lm_requestTimeoutMs := js_min (lm_requestTimeoutMs l) (jsint (pc_requestTimeoutMs c)),
                        lm_maxScanDurationMs := js_min (lm_maxScanDurationMs l) (jsint (pc_maxDurationMs c)),
                        lm_maxResponseBytes := js_min (lm_maxResponseBytes l) (jsint (pc_maxResponseBytes c)),
                        lm_bodyPreviewBytes := js_min (lm_bodyPreviewBytes l) (jsint (pc_maxResponseBytes c))\<rparr>) in
          l1\<lparr>lm_rateLimitPerSecond := js_min (lm_rateLimitPerSecond l) (jsint (pr_rateLimitPerSecond program)),
             lm_maxRequests := js_min (lm_maxRequests l) (jsint (pr_maxRequests program)),
             lm_cleanupReservedRequests :=
               js_min (js_min (lm_cleanupReservedRequests l) (lm_maxRequests l)) (jsint (pr_maxRequests program))\<rparr>))"

text \<open>The entries \<^verbatim>\<open>validatePositiveLimits\<close> loops over, with whether zero is allowed.\<close>

definition numeric_limits :: "scan_limits \<Rightarrow> (bool \<times> jsnum) list" where
  "numeric_limits l =
     [(True, lm_maxDepth l), (False, lm_rateLimitPerSecond l), (False, lm_concurrency l), (False, lm_requestTimeoutMs l),
      (False, lm_bodyPreviewBytes l), (False, lm_maxResponseBytes l), (False, lm_maxRequests l),
      (True, lm_cleanupReservedRequests l), (False, lm_maxScanDurationMs l), (False, maxAttempts (lm_retry l))]"

definition positive_limit :: "bool \<times> jsnum \<Rightarrow> string + unit" where
  "positive_limit e = (case e of (zeroAllowed, v) \<Rightarrow>
     guard_err (\<not> js_isFinite v \<or> js_less v (jsint 0) \<or> (\<not> zeroAllowed \<and> v = jsint 0)) ''SCAN_PLAN_INVALID_LIMIT'')"

definition ceiling_check :: "int \<Rightarrow> jsnum \<Rightarrow> string + unit" where
  "ceiling_check limit v = guard_err (js_less (jsint limit) v) ''SCAN_PLAN_LIMIT_EXCEEDS_CEILING''"

definition validatePositiveLimits :: "scan_limits \<Rightarrow> string + unit" where
  "validatePositiveLimits l =
     ebind (each_err positive_limit (numeric_limits l)) (\<lambda>_.
     ebind (ceiling_check 10 (lm_maxDepth l)) (\<lambda>_.
     ebind (ceiling_check 50 (lm_rateLimitPerSecond l)) (\<lambda>_.
     ebind (ceiling_check 50 (lm_concurrency l)) (\<lambda>_.
     ebind (ceiling_check (1024 * 1024) (lm_bodyPreviewBytes l)) (\<lambda>_.
     ebind (ceiling_check (4 * 1024 * 1024) (lm_maxResponseBytes l)) (\<lambda>_.
     ebind (ceiling_check 10000 (lm_maxRequests l)) (\<lambda>_.
     ebind (guard_err (\<not> js_isInteger (lm_cleanupReservedRequests l) \<or> js_less (lm_cleanupReservedRequests l) (jsint 0) \<or>
              js_less (lm_maxRequests l) (lm_cleanupReservedRequests l)) ''SCAN_PLAN_INVALID_CLEANUP_RESERVE'') (\<lambda>_.
     ebind (ceiling_check 5000 (lm_cleanupReservedRequests l)) (\<lambda>_.
     ebind (ceiling_check (60 * 60 * 1000) (lm_maxScanDurationMs l)) (\<lambda>_.
     ceiling_check 5 (maxAttempts (lm_retry l))))))))))))"

section \<open>Modules\<close>

definition authSkipForModule :: "authentication_level \<Rightarrow> plan_authentication \<Rightarrow> string option" where
  "authSkipForModule requirement a =
     (if requirement = LevelSingleProfile \<and> \<not> pa_hasSingleProfile a then Some ''single-profile''
      else if requirement = LevelAccountPair \<and> \<not> pa_hasAccountPair a then Some ''account-pair''
      else None)"

definition all_public :: "matrix_cell list option \<Rightarrow> bool" where
  "all_public cells =
     (case cells of
        None \<Rightarrow> False
      | Some cs \<Rightarrow> cs \<noteq> [] \<and> list_all (\<lambda>c. \<not> truthy_str (mx_authSlot c) \<and> mx_actorRelationship c = ''PUBLIC'') cs)"

definition effectiveAuthenticationRequirement :: "module_id \<Rightarrow> authentication_level \<Rightarrow> planner_input \<Rightarrow> authentication_level" where
  "effectiveAuthenticationRequirement i declared input =
     (if i = M_collection_authorization_testing \<and> all_public (tp_collectionAuthorizationTesting (pi_plans input)) then LevelNone
      else if i = M_file_authorization_testing \<and> all_public (tp_fileAuthorizationTesting (pi_plans input)) then LevelNone
      else declared)"

definition browserResourceTypes :: "string list" where
  "browserResourceTypes =
     [''document'', ''stylesheet'', ''image'', ''media'', ''font'', ''script'', ''texttrack'', ''xhr'', ''fetch'',
      ''eventsource'', ''websocket'', ''manifest'', ''other'']"

definition isBrowserOrigin :: "runtime \<Rightarrow> string \<Rightarrow> bool" where
  "isBrowserOrigin rt v =
     (case rt_newURL rt v of
        None \<Rightarrow> False
      | Some u \<Rightarrow> u_protocol u \<in> {''http:'', ''https:'', ''ws:'', ''wss:''} \<and> url_origin u = strip_trailing_slash v)"

definition validate_setting :: "runtime \<Rightarrow> string list \<Rightarrow> string \<times> setting \<Rightarrow> string + unit" where
  "validate_setting rt supported kv = (case kv of (key, v) \<Rightarrow>
     (let invalid = ''SCAN_PLAN_INVALID_MODULE_SETTING''; zeroAllowed = (key = ''maxNextJsCacheDifferentialRequests'') in
      ebind (guard_err (key \<notin> set supported) ''SCAN_PLAN_UNSUPPORTED_MODULE_OVERRIDE'') (\<lambda>_.
      ebind (guard_err (case v of SNum n \<Rightarrow> \<not> js_isFinite n \<or> (if zeroAllowed then js_less n (jsint 0) else js_leq n (jsint 0))
                                | _ \<Rightarrow> False) invalid) (\<lambda>_.
      ebind (guard_err (key = ''nextJsCacheReviewMode'' \<and> v \<noteq> SStr ''PASSIVE_CACHE_REVIEW'' \<and>
               v \<noteq> SStr ''CONTROLLED_CACHE_DIFFERENTIAL'') invalid) (\<lambda>_.
      ebind (guard_err (key = ''browserAllowedResourceTypes'' \<and>
               (case v of SStrs xs \<Rightarrow> list_ex (\<lambda>x. x \<notin> set browserResourceTypes) xs | _ \<Rightarrow> False)) invalid) (\<lambda>_.
      guard_err ((key = ''browserAllowedThirdPartyOrigins'' \<or> key = ''browserAllowedPrivateOrigins'') \<and>
               (case v of SStrs xs \<Rightarrow> list_ex (\<lambda>x. \<not> isBrowserOrigin rt x) xs | _ \<Rightarrow> False)) invalid))))))"

definition validateSettings :: "runtime \<Rightarrow> module_settings \<Rightarrow> string list \<Rightarrow> string + unit" where
  "validateSettings rt settings supportedSettings = each_err (validate_setting rt supportedSettings) settings"

definition meta_of :: "plugin_registry \<Rightarrow> module_id \<Rightarrow> module_metadata option" where
  "meta_of reg i = map_option rp_metadata (registry_get reg i)"

definition constraintsFor :: "plugin_registry \<Rightarrow> module_id \<Rightarrow> module_id list" where
  "constraintsFor reg i = (case meta_of reg i of None \<Rightarrow> [] | Some md \<Rightarrow> mm_dependencies md @ mm_orderAfter md)"

definition compare_plans :: "plugin_registry \<Rightarrow> module_plan \<Rightarrow> module_plan \<Rightarrow> int" where
  "compare_plans reg l r =
     (case (meta_of reg (mp_id l), meta_of reg (mp_id r)) of
        (Some a, Some b) \<Rightarrow> compareMetadata a b
      | _ \<Rightarrow> locale_compare (module_id_text (mp_id l)) (module_id_text (mp_id r)))"

text \<open>A remaining module is ready when none of its constraints and none of the modules that come
  before it in the explicit sequence remains.\<close>

definition module_ready :: "plugin_registry \<Rightarrow> module_id list \<Rightarrow> module_plan list \<Rightarrow> module_plan \<Rightarrow> bool" where
  "module_ready reg sequence remaining p \<longleftrightarrow>
     list_all (\<lambda>d. d \<notin> mp_id ` set remaining) (constraintsFor reg (mp_id p)) \<and>
     list_all (\<lambda>d. d \<notin> mp_id ` set remaining) (take (nat (max 0 (index_of (mp_id p) sequence))) sequence)"

text \<open>The loop of \<^verbatim>\<open>orderModules\<close>; the map of the remaining modules is the list of its values.\<close>

function order_loop :: "plugin_registry \<Rightarrow> module_id list \<Rightarrow> module_plan list \<Rightarrow> string + module_plan list" where
  "order_loop reg sequence remaining =
     (if remaining = [] then Inr []
      else case sort_by (compare_plans reg) (filter (module_ready reg sequence remaining) remaining) of
        [] \<Rightarrow> Inl ''SCAN_PLAN_INVALID_ORDER''
      | nxt # _ \<Rightarrow>
          ebind (order_loop reg sequence (filter (\<lambda>p. mp_id p \<noteq> mp_id nxt) remaining)) (\<lambda>rest. Inr (nxt # rest)))"
  by pat_completeness auto

lemma order_pick_in:
  assumes "sort_by cmp (filter P xs) = y # ys"
  shows "y \<in> set xs \<and> P y"
proof -
  have "y \<in> set (sort_by cmp (filter P xs))" using assms by simp
  then show ?thesis by simp
qed

termination order_loop
proof (relation "measure (\<lambda>(_, _, remaining). length remaining)")
  fix reg sequence remaining nxt ys
  assume "sort_by (compare_plans reg) (filter (module_ready reg sequence remaining) remaining) = nxt # ys"
  then have "nxt \<in> set remaining" by (rule conjunct1 [OF order_pick_in])
  then have "length (filter (\<lambda>p. mp_id p \<noteq> mp_id nxt) remaining) < length remaining"
    by (intro length_filter_less [where x = nxt]) auto
  then show "((reg, sequence, filter (\<lambda>p. mp_id p \<noteq> mp_id nxt) remaining), (reg, sequence, remaining))
      \<in> measure (\<lambda>(_, _, remaining). length remaining)" by simp
qed simp

declare order_loop.simps [simp del]

definition orderModules :: "plugin_registry \<Rightarrow> module_plan list \<Rightarrow> module_id list \<Rightarrow> string + module_plan list" where
  "orderModules reg modulePlans sequence =
     order_loop reg sequence (map snd (fold (\<lambda>p. js_map_set (mp_id p) p) modulePlans []))"

text \<open>The position of a module: a later entry of the same id would win, as in \<^verbatim>\<open>new Map(pairs)\<close>.\<close>

definition position_of :: "module_plan list \<Rightarrow> module_id \<Rightarrow> nat option" where
  "position_of modules i = map_of (rev (zip (map mp_id modules) [0..<length modules])) i"

definition validate_module_dependencies :: "plugin_registry \<Rightarrow> module_plan list \<Rightarrow> module_plan \<Rightarrow> string + unit" where
  "validate_module_dependencies reg modules p =
     (case meta_of reg (mp_id p) of
        None \<Rightarrow> Inr ()
      | Some md \<Rightarrow> (let own = or_else (position_of modules (mp_id p)) 0 in
          ebind (each_err (\<lambda>d. case position_of modules d of
                                None \<Rightarrow> Inl ''SCAN_PLAN_MISSING_DEPENDENCY''
                              | Some dp \<Rightarrow> guard_err (own < dp) ''SCAN_PLAN_INVALID_ORDER'') (mm_dependencies md)) (\<lambda>_.
          each_err (\<lambda>d. case position_of modules d of
                          None \<Rightarrow> Inr ()
                        | Some dp \<Rightarrow> guard_err (own < dp) ''SCAN_PLAN_INVALID_ORDER'') (mm_orderAfter md))))"

definition validateDependencies :: "plugin_registry \<Rightarrow> module_plan list \<Rightarrow> string + unit" where
  "validateDependencies reg modules = each_err (validate_module_dependencies reg modules) modules"

definition validateEvidence :: "plugin_registry \<Rightarrow> scan_profile_definition \<Rightarrow> module_plan list \<Rightarrow> string + unit" where
  "validateEvidence reg definition modules =
     guard_err (ep_requireReproducibleEvidence (pd_evidence definition) \<and>
        list_ex (\<lambda>p. map_option mm_supportsEvidence (meta_of reg (mp_id p)) = Some False) modules) ''SCAN_PLAN_EVIDENCE_INCOMPATIBLE''"

definition validateMonitoring :: "plugin_registry \<Rightarrow> scan_profile_definition \<Rightarrow> module_plan list \<Rightarrow> string + unit" where
  "validateMonitoring reg definition modules =
     guard_err (pd_name definition = ProfMonitor \<and>
        list_ex (\<lambda>p. map_option mm_monitoringCompatible (meta_of reg (mp_id p)) = Some False) modules) ''SCAN_PLAN_MONITORING_INCOMPATIBLE''"

definition no_partial_limits :: partial_limits where
  "no_partial_limits = \<lparr>pl_maxDepth = None, pl_rateLimitPerSecond = None, pl_concurrency = None, pl_requestTimeoutMs = None,
     pl_bodyPreviewBytes = None, pl_maxResponseBytes = None, pl_maxRequests = None, pl_cleanupReservedRequests = None,
     pl_maxScanDurationMs = None, pl_retry = None\<rparr>"

definition module_plan_for :: "scan_profile_definition \<Rightarrow> planner_input \<Rightarrow> module_metadata \<Rightarrow> module_id \<Rightarrow> module_settings \<Rightarrow> module_plan" where
  "module_plan_for definition input md i overrides =
     \<lparr>mp_id = i, mp_phase = mm_phase md, mp_settings = spread (mm_defaultSettings md) overrides,
      mp_limits = or_else (map_of (pd_perModuleLimits definition) i) no_partial_limits,
      mp_includedBecause = (''profile:'' @ profile_name_text (pd_name definition)) #
        map (\<lambda>c. ''capability:'' @ capability_text c) (mm_capabilities md)\<rparr>"

definition setting_overrides :: "scan_profile_definition \<Rightarrow> planner_input \<Rightarrow> module_id \<Rightarrow> module_settings" where
  "setting_overrides definition input i =
     spread (or_else (map_of (pd_moduleSettings definition) i) [])
            (or_else (map_of (ov_moduleSettings (pi_overrides input)) i) [])"

fun resolve_enabled ::
    "runtime \<Rightarrow> plugin_registry \<Rightarrow> scan_profile_definition \<Rightarrow> plan_authentication \<Rightarrow> planner_input \<Rightarrow> module_id list \<Rightarrow>
     module_id list \<Rightarrow> string + (module_plan list \<times> (module_id \<times> string) list)" where
  "resolve_enabled rt reg definition a input seen [] = Inr ([], [])"
| "resolve_enabled rt reg definition a input seen (i # rest) =
     (let included = ov_includeModules (pi_overrides input) in
      ebind (guard_err (i \<in> set seen) ''SCAN_PLAN_DUPLICATE_MODULE'') (\<lambda>_.
      ebind (guard_err (included = None \<and> i \<in> set (pd_disabledModules definition)) ''SCAN_PLAN_CONFLICT'') (\<lambda>_.
      (case meta_of reg i of
         None \<Rightarrow> Inl ''SCAN_PLAN_UNKNOWN_MODULE''
       | Some md \<Rightarrow>
          (case authSkipForModule (effectiveAuthenticationRequirement i (mm_requiresAuthentication md) input) a of
             Some reason \<Rightarrow>
               ebind (guard_err (i \<in> set (or_else included []) \<or> \<not> pd_optionalModulesMayBeSkipped definition) ''SCAN_AUTH_MODULE_REQUIRED'') (\<lambda>_.
               ebind (resolve_enabled rt reg definition a input (i # seen) rest) (\<lambda>(plans, skipped).
               Inr (plans, (i, ''missing-'' @ reason) # skipped)))
           | None \<Rightarrow>
               ebind (validateSettings rt (setting_overrides definition input i) (mm_supportedSettings md)) (\<lambda>_.
               ebind (resolve_enabled rt reg definition a input (i # seen) rest) (\<lambda>(plans, skipped).
               Inr (module_plan_for definition input md i (setting_overrides definition input i) # plans, skipped))))))))"

text \<open>\<^verbatim>\<open>[...new Set(xs)]\<close>: the first occurrence of each element.\<close>

definition set_values :: "'a list \<Rightarrow> 'a list" where
  "set_values xs = rev (remdups (rev xs))"

definition enabled_modules :: "scan_profile_definition \<Rightarrow> planner_input \<Rightarrow> module_id list" where
  "enabled_modules definition input =
     filter (\<lambda>i. i \<notin> set (ov_excludeModules (pi_overrides input)))
       (case ov_includeModules (pi_overrides input) of Some xs \<Rightarrow> set_values xs | None \<Rightarrow> pd_enabledModules definition)"

definition resolveModules ::
    "runtime \<Rightarrow> plugin_registry \<Rightarrow> scan_profile_definition \<Rightarrow> scan_limits \<Rightarrow> plan_authentication \<Rightarrow> planner_input \<Rightarrow>
     string + (module_plan list \<times> (module_id \<times> string) list)" where
  "resolveModules rt reg definition limits a input =
     ebind (resolve_enabled rt reg definition a input [] (enabled_modules definition input)) (\<lambda>(plans, skipped).
     ebind (orderModules reg plans (case pi_preHandover input of None \<Rightarrow> [] | Some h \<Rightarrow> hv_sequence h)) (\<lambda>sorted.
     ebind (validateDependencies reg sorted) (\<lambda>_.
     ebind (validateEvidence reg definition sorted) (\<lambda>_.
     ebind (validateMonitoring reg definition sorted) (\<lambda>_.
     ebind (validatePositiveLimits limits) (\<lambda>_.
     Inr (sorted, skipped)))))))"

section \<open>Plan checks\<close>

text \<open>Each entry: the module, whether its test plan is there, and the two error codes of the pair.\<close>

definition selected :: "resolved_scan_plan \<Rightarrow> module_id \<Rightarrow> bool" where
  "selected plan i \<longleftrightarrow> list_ex (\<lambda>p. mp_id p = i) (sp_modules plan)"

definition plan_pairs_first :: "test_plans \<Rightarrow> (module_id \<times> bool \<times> string \<times> string) list" where
  "plan_pairs_first p =
     [(M_object_pair_testing, tp_objectPairTesting p, ''OBJECT_PAIR_PLAN_REQUIRED'', ''OBJECT_PAIR_MODULE_REQUIRED''),
      (M_field_exposure_testing, tp_fieldExposureTesting p, ''FIELD_EXPOSURE_PLAN_REQUIRED'', ''FIELD_EXPOSURE_MODULE_REQUIRED''),
      (M_authorization_matrix_testing, tp_authorizationMatrixTesting p, ''AUTHORIZATION_MATRIX_PLAN_REQUIRED'',
        ''AUTHORIZATION_MATRIX_MODULE_REQUIRED''),
      (M_collection_authorization_testing, tp_collectionAuthorizationTesting p \<noteq> None, ''COLLECTION_AUTHORIZATION_PLAN_REQUIRED'',
        ''COLLECTION_AUTHORIZATION_MODULE_REQUIRED''),
      (M_bulk_authorization_testing, tp_bulkAuthorizationTesting p, ''BULK_AUTHORIZATION_PLAN_REQUIRED'',
        ''BULK_AUTHORIZATION_MODULE_REQUIRED''),
      (M_file_authorization_testing, tp_fileAuthorizationTesting p \<noteq> None, ''FILE_AUTHORIZATION_PLAN_REQUIRED'',
        ''FILE_AUTHORIZATION_MODULE_REQUIRED''),
      (M_equivalent_route_testing, tp_equivalentRouteTesting p, ''EQUIVALENT_ROUTE_PLAN_REQUIRED'',
        ''EQUIVALENT_ROUTE_MODULE_REQUIRED'')]"

definition plan_pairs_second :: "test_plans \<Rightarrow> (module_id \<times> bool \<times> string \<times> string) list" where
  "plan_pairs_second p =
     [(M_privilege_mutation_testing, tp_privilegeMutationTesting p \<noteq> None, ''PRIVILEGE_MUTATION_PLAN_REQUIRED'',
        ''PRIVILEGE_MUTATION_MODULE_REQUIRED''),
      (M_supabase_authorization, tp_supabaseAuthorization p \<noteq> None, ''SUPABASE_AUTH_PLAN_REQUIRED'', ''SUPABASE_AUTH_MODULE_REQUIRED''),
      (M_authentication_lifecycle, tp_authenticationLifecycle p \<noteq> None, ''AUTH_LIFECYCLE_PLAN_REQUIRED'',
        ''AUTH_LIFECYCLE_MODULE_REQUIRED''),
      (M_business_invariant, tp_businessInvariant p \<noteq> None, ''BUSINESS_INVARIANT_PLAN_REQUIRED'',
        ''BUSINESS_INVARIANT_MODULE_REQUIRED''),
      (M_controlled_race, tp_controlledRace p \<noteq> None, ''CONTROLLED_RACE_PLAN_REQUIRED'', ''CONTROLLED_RACE_MODULE_REQUIRED''),
      (M_api_graphql_authorization, tp_apiGraphql p \<noteq> None, ''API_GRAPHQL_PLAN_REQUIRED'', ''API_GRAPHQL_MODULE_REQUIRED''),
      (M_protocol_security, tp_protocolSecurity p \<noteq> None, ''PROTOCOL_SECURITY_PLAN_REQUIRED'', ''PROTOCOL_SECURITY_MODULE_REQUIRED''),
      (M_link_portal_export_security, tp_linkPortalSecurity p \<noteq> None, ''LINK_PORTAL_PLAN_REQUIRED'', ''LINK_PORTAL_MODULE_REQUIRED''),
      (M_operational_endpoint_security, tp_operationalEndpointSecurity p \<noteq> None, ''OPERATIONAL_ENDPOINT_PLAN_REQUIRED'',
        ''OPERATIONAL_ENDPOINT_MODULE_REQUIRED''),
      (M_billing_entitlement_security, tp_billingEntitlement p \<noteq> None, ''BILLING_ENTITLEMENT_PLAN_REQUIRED'',
        ''BILLING_ENTITLEMENT_MODULE_REQUIRED'')]"

definition check_pair :: "resolved_scan_plan \<Rightarrow> module_id \<times> bool \<times> string \<times> string \<Rightarrow> string + unit" where
  "check_pair plan e = (case e of (i, supplied, planRequired, moduleRequired) \<Rightarrow>
     ebind (guard_err (selected plan i \<and> \<not> supplied) planRequired) (\<lambda>_.
     guard_err (supplied \<and> \<not> selected plan i) moduleRequired))"

definition validate :: "resolved_scan_plan \<Rightarrow> string + unit" where
  "validate plan =
     ebind (guard_err (selected plan M_assisted_review \<noteq> (sp_assistedReview plan \<noteq> None)) ''ASSISTED_REVIEW_PLAN_REQUIRED'') (\<lambda>_.
     ebind (guard_err (sp_modules plan = []) ''SCAN_PLAN_EMPTY'') (\<lambda>_.
     ebind (each_err (check_pair plan) (plan_pairs_first (sp_plans plan))) (\<lambda>_.
     each_err (check_pair plan) (plan_pairs_second (sp_plans plan)))))"

fun evidence_rank :: "evidence_level \<Rightarrow> nat" where
  "evidence_rank EvMinimal = 0"
| "evidence_rank EvNormal = 1"
| "evidence_rank EvStrong = 2"

definition resolveEvidencePolicy :: "evidence_policy \<Rightarrow> evidence_level option \<Rightarrow> evidence_policy" where
  "resolveEvidencePolicy profilePolicy requested =
     (case requested of
        None \<Rightarrow> profilePolicy
      | Some r \<Rightarrow>
          if evidence_rank r \<le> evidence_rank (ep_level profilePolicy) then profilePolicy
          else if r = EvNormal then
            \<lparr>ep_level = EvNormal, ep_collectRequestAudit = True, ep_collectBodyPreview = True,
             ep_requireReproducibleEvidence = False, ep_retainProofBlocks = False\<rparr>
          else
            \<lparr>ep_level = EvStrong, ep_collectRequestAudit = True, ep_collectBodyPreview = True,
             ep_requireReproducibleEvidence = True, ep_retainProofBlocks = True\<rparr>)"

section \<open>Pre-handover\<close>

definition handover_inventory :: "test_plans \<Rightarrow> (string \<times> string list) list" where
  "handover_inventory p =
     [(''authentication-lifecycle'', map ph_id (case tp_authenticationLifecycle p of None \<Rightarrow> [] | Some l \<Rightarrow> lp_cases l)),
      (''business-invariant'', map iv_id (or_else (tp_businessInvariant p) [])),
      (''controlled-race'', map rc_id (or_else (tp_controlledRace p) [])),
      (''supabase-authorization'', map sb_id (or_else (tp_supabaseAuthorization p) [])),
      (''api-graphql-authorization'', or_else (tp_apiGraphql p) []),
      (''link-portal-export-security'', map ph_id (or_else (tp_linkPortalSecurity p) [])),
      (''operational-endpoint-security'', map ph_id (or_else (tp_operationalEndpointSecurity p) [])),
      (''billing-entitlement-security'', map bl_id (or_else (tp_billingEntitlement p) [])),
      (''privilege-mutation-testing'', map mc_caseId (or_else (tp_privilegeMutationTesting p) []))]"

definition validatePreHandoverBindings :: "planner_input \<Rightarrow> string + unit" where
  "validatePreHandoverBindings input =
     (case pi_preHandover input of
        None \<Rightarrow> guard_err (pi_requestedProfile input = ProfPreHandover) ''PRE_HANDOVER_MANIFEST_REQUIRED''
      | Some plan \<Rightarrow> (let p = pi_plans input; invariantCases = or_else (tp_businessInvariant p) []; raceCases = or_else (tp_controlledRace p) [] in
         ebind (guard_err (pi_requestedProfile input \<noteq> ProfPreHandover \<or>
                  (case pi_targetAuthorization input of
                     None \<Rightarrow> True
                   | Some a \<Rightarrow> ta_mode a \<noteq> PreHandoverAssault \<or> ta_targetOrigin a \<noteq> hv_targetOrigin plan))
                ''PRE_HANDOVER_TARGET_AUTHORIZATION_REQUIRED'') (\<lambda>_.
         ebind (guard_err (case pi_authProfileSet input of
                     None \<Rightarrow> True
                   | Some s \<Rightarrow> \<not> truthy_str (ap_principalId (aps_accountA s)) \<or> \<not> truthy_str (ap_principalId (aps_accountB s)) \<or>
                       ap_principalId (aps_accountA s) = ap_principalId (aps_accountB s))
                ''PRE_HANDOVER_DISTINCT_DECLARED_ACTORS_REQUIRED'') (\<lambda>_.
         ebind (guard_err (list_ex (\<lambda>(caseId, invariantId). \<not> list_ex (\<lambda>c. iv_id c = caseId \<and> invariantId \<in> set (iv_invariants c)) invariantCases)
                  (hv_invariants plan)) ''PRE_HANDOVER_INVARIANT_NOT_CONFIGURED'') (\<lambda>_.
         ebind (guard_err (list_ex (\<lambda>caseId. caseId \<notin> set (map rc_id raceCases)) (hv_races plan)) ''PRE_HANDOVER_RACE_NOT_CONFIGURED'') (\<lambda>_.
         ebind (guard_err (list_ex (\<lambda>c. iv_id c \<notin> set (map fst (hv_invariants plan))) invariantCases) ''PRE_HANDOVER_INVARIANT_NOT_REGISTERED'') (\<lambda>_.
         ebind (guard_err (list_ex (\<lambda>c. rc_id c \<notin> set (hv_races plan)) raceCases) ''PRE_HANDOVER_RACE_NOT_REGISTERED'') (\<lambda>_.
         guard_err (list_ex (\<lambda>(workflowId, ids).
             list_ex (\<lambda>i. \<not> list_ex (\<lambda>r. rw_workflowId r = workflowId \<and> rw_caseId r = i) (arv_cases (hv_review plan))) ids)
             (handover_inventory p)) ''PRE_HANDOVER_EXECUTABLE_CASE_NOT_IN_REVIEW''))))))))"

text \<open>
  \<^verbatim>\<open>addDependencies\<close> is a depth-first walk; the pending dependencies of the callers are the rest of the
  stack. The outer loop iterates over the set while it grows.
\<close>

definition dependencies_of :: "plugin_registry \<Rightarrow> module_id \<Rightarrow> module_id list" where
  "dependencies_of reg i = (case meta_of reg i of None \<Rightarrow> [] | Some md \<Rightarrow> mm_dependencies md)"

lemma finite_module_ids: "finite (A :: module_id set)"
  by (rule finite_subset [of _ "set default_modules"]) auto

function addDependencies :: "plugin_registry \<Rightarrow> module_id list \<Rightarrow> module_id list \<Rightarrow> module_id list" where
  "addDependencies reg [] sel = sel"
| "addDependencies reg (d # stack) sel =
     (if d \<in> set sel then addDependencies reg stack sel
      else addDependencies reg (dependencies_of reg d @ stack) (sel @ [d]))"
  by pat_completeness auto
termination
  by (relation "measures [\<lambda>(_, _, sel). card (- set sel), \<lambda>(_, stack, _). length stack]")
     (auto intro!: psubset_card_mono finite_module_ids)

lemma addDependencies_grows: "\<exists>xs. addDependencies reg stack sel = sel @ xs \<and> set xs \<inter> set sel = {}"
proof (induction reg stack sel rule: addDependencies.induct)
  case (2 reg d stack sel)
  show ?case
  proof (cases "d \<in> set sel")
    case True
    then show ?thesis using 2(1) by simp
  next
    case False
    with 2(2) obtain xs where "addDependencies reg (d # stack) sel = sel @ [d] @ xs" "set xs \<inter> set (sel @ [d]) = {}"
      by auto
    then show ?thesis using False by (intro exI [of _ "[d] @ xs"]) auto
  qed
qed simp

function close_selected :: "plugin_registry \<Rightarrow> nat \<Rightarrow> module_id list \<Rightarrow> module_id list" where
  "close_selected reg k sel =
     (if k < length sel then close_selected reg (Suc k) (addDependencies reg (dependencies_of reg (sel ! k)) sel) else sel)"
  by pat_completeness auto
termination
proof (relation "measures [\<lambda>(_, _, sel). card (- set sel), \<lambda>(_, k, sel). length sel - k]")
  fix reg :: plugin_registry and k :: nat and sel :: "module_id list"
  assume k: "k < length sel"
  obtain xs where xs: "addDependencies reg (dependencies_of reg (sel ! k)) sel = sel @ xs" "set xs \<inter> set sel = {}"
    using addDependencies_grows by blast
  have "card (- set (sel @ xs)) < card (- set sel)" if "xs \<noteq> []"
    using xs(2) that by (intro psubset_card_mono finite_module_ids) (cases xs; auto)
  then show "((reg, Suc k, addDependencies reg (dependencies_of reg (sel ! k)) sel), reg, k, sel)
      \<in> measures [\<lambda>(_, _, sel). card (- set sel), \<lambda>(_, k, sel). length sel - k]"
    using k xs(1) by (cases "xs = []") auto
qed simp

declare close_selected.simps [simp del]

definition handover_input :: "plugin_registry \<Rightarrow> planner_input \<Rightarrow> string + planner_input" where
  "handover_input reg input =
     (case pi_preHandover input of
        None \<Rightarrow> Inr input
      | Some h \<Rightarrow>
         (let ov = pi_overrides input;
              sel = close_selected reg 0 (set_values (or_else (ov_includeModules ov) [] @ hv_sequence h @ [M_assisted_review])) in
          ebind (guard_err (case pi_assistedReview input of None \<Rightarrow> False | Some r \<Rightarrow> arv_json r \<noteq> arv_json (hv_review h))
                   ''PRE_HANDOVER_REVIEW_CONFLICT'') (\<lambda>_.
          ebind (guard_err (list_ex (\<lambda>i. i \<in> set sel) (ov_excludeModules ov)) ''PRE_HANDOVER_REQUIRED_MODULE_EXCLUDED'') (\<lambda>_.
          Inr (input\<lparr>pi_assistedReview := Some (hv_review h), pi_overrides := ov\<lparr>ov_includeModules := Some sel\<rparr>\<rparr>)))))"

section \<open>Resolution\<close>

definition check_authorization :: "runtime \<Rightarrow> planner_input \<Rightarrow> string + unit" where
  "check_authorization rt input =
     (case pi_targetAuthorization input of
        None \<Rightarrow> Inr ()
      | Some a \<Rightarrow>
          ebind (guard_err (\<not> targetAuthorization_valid rt a) ''ZodError'') (\<lambda>_.
          guard_err (case requestPolicy a of
                       None \<Rightarrow> False
                     | Some program \<Rightarrow> \<not> pr_authenticationPermitted program \<and>
                         (pi_authProfile input \<noteq> None \<or> pi_authProfileSet input \<noteq> None)) ''TARGET_AUTHENTICATION_PROHIBITED''))"

definition plan_authentication_of :: "scan_profile_definition \<Rightarrow> planner_input \<Rightarrow> plan_authentication" where
  "plan_authentication_of definition input =
     (let r = pd_authentication definition; open = pi_actorRegistry input in
      \<lparr>ar_required = ar_required r \<and> \<not> open, ar_level = ar_level r,
       ar_requireSingleProfile = ar_requireSingleProfile r \<and> \<not> open, ar_requireAccountPair = ar_requireAccountPair r \<and> \<not> open,
       pa_hasSingleProfile = pi_authProfile input \<noteq> None, pa_hasAccountPair = pi_authProfileSet input \<noteq> None\<rparr>)"

definition check_review_identity :: "planner_input \<Rightarrow> string + unit" where
  "check_review_identity input =
     ebind (guard_err (\<not> pi_actorRegistry input \<and>
              (case pi_assistedReview input of None \<Rightarrow> False | Some r \<Rightarrow> arv_requireVerifiedIdentity r) \<and>
              pi_authProfile input = None \<and> pi_authProfileSet input = None) ''ASSISTED_REVIEW_AUTH_REQUIRED'') (\<lambda>_.
     guard_err (\<not> pi_actorRegistry input \<and>
              (case pi_assistedReview input of None \<Rightarrow> False | Some r \<Rightarrow> arv_requireAccountPair r) \<and>
              pi_authProfileSet input = None) ''ASSISTED_REVIEW_AUTH_PAIR_REQUIRED'')"

definition assemble_plan ::
    "scan_profile_definition \<Rightarrow> planner_input \<Rightarrow> scan_limits \<Rightarrow> plan_authentication \<Rightarrow>
     module_plan list \<Rightarrow> (module_id \<times> string) list \<Rightarrow> resolved_scan_plan" where
  "assemble_plan definition input limits a modules skipped =
     \<lparr>sp_actorRegistry = pi_actorRegistry input, sp_profile = pd_name definition, sp_displayName = pd_displayName definition,
      sp_description = pd_description definition, sp_modules = modules,
      sp_skippedModules = map (\<lambda>i. (i, ''disabled-by-profile'')) (pd_disabledModules definition) @ skipped,
      sp_limits = limits, sp_authentication = a,
      sp_evidence = resolveEvidencePolicy (pd_evidence definition) (ov_evidenceLevel (pi_overrides input)),
      sp_output = pd_output definition, sp_failurePolicy = pd_failurePolicy definition,
      sp_optionalModulesMayBeSkipped = pd_optionalModulesMayBeSkipped definition, sp_reportFocus = pd_reportFocus definition,
      sp_targetAuthorization = pi_targetAuthorization input, sp_preHandover = pi_preHandover input,
      sp_assistedReview = pi_assistedReview input, sp_plans = pi_plans input\<rparr>"

definition resolve ::
    "runtime \<Rightarrow> plugin_registry \<Rightarrow> (scan_profile_name \<Rightarrow> scan_profile_definition option) \<Rightarrow> planner_input \<Rightarrow>
     string + resolved_scan_plan" where
  "resolve rt reg definitions input0 =
     ebind (guard_err (pi_actorRegistry input0 \<and> (pi_authProfile input0 \<noteq> None \<or> pi_authProfileSet input0 \<noteq> None))
              ''MIXED_ACTOR_CONTRACTS_FORBIDDEN'') (\<lambda>_.
     ebind (validatePreHandoverBindings input0) (\<lambda>_.
     ebind (check_authorization rt input0) (\<lambda>_.
     ebind (handover_input reg input0) (\<lambda>input.
     (case definitions (pi_requestedProfile input) of
        None \<Rightarrow> Inl ''SCAN_PROFILE_INVALID''
      | Some definition \<Rightarrow> (let a = plan_authentication_of definition input in
          ebind (guard_err (ar_requireSingleProfile a \<and> \<not> pa_hasSingleProfile a) ''SCAN_AUTH_REQUIRED'') (\<lambda>_.
          ebind (guard_err (ar_requireAccountPair a \<and> \<not> pa_hasAccountPair a) ''SCAN_AUTH_PAIR_REQUIRED'') (\<lambda>_.
          ebind (resolveLimits definition input) (\<lambda>resolvedLimits.
          (let limits = clamp_to_program (pi_targetAuthorization input) resolvedLimits in
           ebind (check_review_identity input) (\<lambda>_.
           ebind (resolveModules rt reg definition limits a input) (\<lambda>(modules, skipped).
           (let plan = assemble_plan definition input limits a modules skipped in
            ebind (validate plan) (\<lambda>_. Inr plan))))))))))))))"

end
