(* ===== verification/RC_PlanFacts.thy ===== *)
theory RC_PlanFacts
  imports RC_Planner
begin

text \<open>
  What a resolved plan promises: its modules are ordered by their constraints, its limits stay below the
  scope, the program and the hard ceilings, and its test plans and modules match.
\<close>

section \<open>Scheduling by readiness\<close>

text \<open>
  A scheduler emits, one at a time, an item none of whose blockers remains, and fails when every
  remaining item is blocked. \<open>blockers\<close> may name items that are not there at all.
\<close>

locale ready_scheduler =
  fixes order :: "'p list \<Rightarrow> 'e + 'p list"
    and ident :: "'p \<Rightarrow> 'i"
    and blockers :: "'i \<Rightarrow> 'i set"
  assumes order_Nil: "order [] = Inr []"
    and order_step: "rem \<noteq> [] \<Longrightarrow>
        (\<exists>p \<in> set rem. blockers (ident p) \<inter> ident ` set rem = {} \<and>
           order rem = ebind (order (filter (\<lambda>q. ident q \<noteq> ident p) rem)) (\<lambda>r. Inr (p # r))) \<or>
        (\<forall>p \<in> set rem. blockers (ident p) \<inter> ident ` set rem \<noteq> {}) \<and> (\<exists>e. order rem = Inl e)"

context ready_scheduler
begin

lemma order_cases:
  assumes "order rem = Inr xs" "rem \<noteq> []"
  obtains p ys where "p \<in> set rem" "blockers (ident p) \<inter> ident ` set rem = {}" "xs = p # ys"
    "order (filter (\<lambda>q. ident q \<noteq> ident p) rem) = Inr ys"
    "length (filter (\<lambda>q. ident q \<noteq> ident p) rem) < length rem"
proof -
  obtain p where p: "p \<in> set rem" "blockers (ident p) \<inter> ident ` set rem = {}"
    "order rem = ebind (order (filter (\<lambda>q. ident q \<noteq> ident p) rem)) (\<lambda>r. Inr (p # r))"
    using order_step [OF assms(2)] assms(1) by auto
  obtain ys where "order (filter (\<lambda>q. ident q \<noteq> ident p) rem) = Inr ys" "xs = p # ys"
    using p(3) assms(1) by (cases "order (filter (\<lambda>q. ident q \<noteq> ident p) rem)") auto
  moreover have "length (filter (\<lambda>q. ident q \<noteq> ident p) rem) < length rem"
    using p(1) by (intro length_filter_less [where x = p]) auto
  ultimately show ?thesis using that p by blast
qed

lemma order_members:
  "distinct (map ident rem) \<Longrightarrow> order rem = Inr xs \<Longrightarrow> set xs = set rem \<and> distinct (map ident xs)"
proof (induction "length rem" arbitrary: rem xs rule: less_induct)
  case less
  show ?case
  proof (cases "rem = []")
    case False
    with less.prems(2) obtain p ys where o: "p \<in> set rem" "xs = p # ys"
      "order (filter (\<lambda>q. ident q \<noteq> ident p) rem) = Inr ys" "length (filter (\<lambda>q. ident q \<noteq> ident p) rem) < length rem"
      using order_cases by metis
    have ys: "set ys = {q \<in> set rem. ident q \<noteq> ident p}" "distinct (map ident ys)"
      using less.hyps [OF o(4) _ o(3)] less.prems(1) by (simp_all add: distinct_map_filter)
    have "{q \<in> set rem. ident q = ident p} = {p}" using less.prems(1) o(1) by (auto simp: distinct_map inj_on_def)
    then have "set rem = insert p (set ys)" using ys(1) by blast
    moreover have "ident p \<notin> ident ` set ys" 
    proof
      assume "ident p \<in> ident ` set ys"
      then obtain q where q: "ident p = ident q" "q \<in> set ys" by (rule imageE)
      from q(2) have "ident q \<noteq> ident p" unfolding ys(1) by (elim CollectE conjE)
      then show False using q(1) [symmetric] by (rule notE)
    qed
    ultimately show ?thesis using ys(2) o(2) by simp
  qed (use less.prems order_Nil in auto)
qed

lemma order_respects:
  "order rem = Inr xs \<Longrightarrow> ident (xs ! j) \<in> blockers (ident (xs ! i)) \<Longrightarrow> i < length xs \<Longrightarrow> j < length xs \<Longrightarrow>
     distinct (map ident rem) \<Longrightarrow> j < i"
proof (induction "length rem" arbitrary: rem xs i j rule: less_induct)
  case less
  show ?case
  proof (cases "rem = []")
    case False
    with less.prems(1) obtain p ys where o: "p \<in> set rem" "blockers (ident p) \<inter> ident ` set rem = {}" "xs = p # ys"
      "order (filter (\<lambda>q. ident q \<noteq> ident p) rem) = Inr ys" "length (filter (\<lambda>q. ident q \<noteq> ident p) rem) < length rem"
      using order_cases by metis
    have all: "set xs = set rem" using order_members less.prems(1,5) by blast
    show ?thesis
    proof (cases i)
      case 0
      have "xs ! j \<in> set rem" using less.prems(4) all nth_mem by blast
      then show ?thesis using less.prems(2) o(2,3) 0 by auto
    next
      case (Suc k)
      show ?thesis
      proof (cases j)
        case (Suc l)
        then have "l < k" using less.hyps [OF o(5,4)] less.prems \<open>i = Suc k\<close> o(3) by (simp add: distinct_map_filter)
        then show ?thesis using Suc \<open>i = Suc k\<close> by simp
      qed (use Suc in simp)
    qed
  qed (use less.prems order_Nil in auto)
qed

text \<open>If some rank decreases along every blocker, the scheduler never fails.\<close>

lemma order_succeeds:
  fixes rank :: "'i \<Rightarrow> nat"
  assumes "\<And>i d. d \<in> blockers i \<Longrightarrow> rank d < rank i"
  shows "\<exists>xs. order rem = Inr xs"
proof (induction "length rem" arbitrary: rem rule: less_induct)
  case less
  show ?case
  proof (cases "rem = []")
    case False
    define p where "p = arg_min_on (\<lambda>q. rank (ident q)) (set rem)"
    have p: "p \<in> set rem" "\<not> (\<exists>q \<in> set rem. rank (ident q) < rank (ident p))"
      using False arg_min_if_finite [of "set rem" "\<lambda>q. rank (ident q)"] by (simp_all add: p_def)
    have "blockers (ident p) \<inter> ident ` set rem = {}" using assms p(2) by blast
    then obtain q where q: "q \<in> set rem" "order rem = ebind (order (filter (\<lambda>r. ident r \<noteq> ident q) rem)) (\<lambda>r. Inr (q # r))"
      using order_step [OF False] p(1) by blast
    have "length (filter (\<lambda>r. ident r \<noteq> ident q) rem) < length rem"
      using q(1) by (intro length_filter_less [where x = q]) auto
    then obtain ys where "order (filter (\<lambda>r. ident r \<noteq> ident q) rem) = Inr ys" using less by blast
    then show ?thesis using q by simp
  qed (use order_Nil in auto)
qed

end

definition module_blockers :: "plugin_registry \<Rightarrow> module_id list \<Rightarrow> module_id \<Rightarrow> module_id set" where
  "module_blockers reg sequence i =
     set (constraintsFor reg i) \<union> set (take (nat (max 0 (index_of i sequence))) sequence)"

lemma module_ready_iff:
  "module_ready reg sequence rem p \<longleftrightarrow> module_blockers reg sequence (mp_id p) \<inter> mp_id ` set rem = {}"
  unfolding module_ready_def module_blockers_def list_all_iff by blast

interpretation modules: ready_scheduler "order_loop reg sequence" mp_id "module_blockers reg sequence"
proof
  show "order_loop reg sequence [] = Inr []" by (simp add: order_loop.simps)
  fix rem :: "module_plan list" assume ne: "rem \<noteq> []"
  show "(\<exists>p \<in> set rem. module_blockers reg sequence (mp_id p) \<inter> mp_id ` set rem = {} \<and>
           order_loop reg sequence rem = ebind (order_loop reg sequence (filter (\<lambda>q. mp_id q \<noteq> mp_id p) rem)) (\<lambda>r. Inr (p # r))) \<or>
        (\<forall>p \<in> set rem. module_blockers reg sequence (mp_id p) \<inter> mp_id ` set rem \<noteq> {}) \<and> (\<exists>e. order_loop reg sequence rem = Inl e)"
  proof (cases "sort_by (compare_plans reg) (filter (module_ready reg sequence rem) rem)")
    case Nil
    then have "\<forall>p \<in> set rem. \<not> module_ready reg sequence rem p" by (simp add: filter_empty_conv)
    then show ?thesis using Nil ne by (auto simp: order_loop.simps [of reg sequence rem] module_ready_iff)
  next
    case (Cons p ys)
    from order_pick_in [OF this] have "p \<in> set rem" "module_ready reg sequence rem p" by simp_all
    then show ?thesis using Cons ne by (auto simp: order_loop.simps [of reg sequence rem] module_ready_iff)
  qed
qed

lemma fold_map_set_distinct:
  "distinct (map mp_id ps) \<Longrightarrow> mp_id ` set ps \<inter> fst ` set m = {} \<Longrightarrow>
     fold (\<lambda>p. js_map_set (mp_id p) p) ps m = m @ map (\<lambda>p. (mp_id p, p)) ps"
proof (induction ps arbitrary: m)
  case (Cons p ps)
  have "js_map_set (mp_id p) p m = m @ [(mp_id p, p)]" using Cons.prems(2) by (intro js_map_set_fresh) auto
  moreover have "mp_id ` set ps \<inter> fst ` set (m @ [(mp_id p, p)]) = {}" using Cons.prems by auto
  ultimately show ?case using Cons.IH [of "m @ [(mp_id p, p)]"] Cons.prems(1) by simp
qed simp

lemma orderModules_distinct:
  "distinct (map mp_id ps) \<Longrightarrow> orderModules reg ps sequence = order_loop reg sequence ps"
  using fold_map_set_distinct [of ps "[]"] by (simp add: orderModules_def comp_def)

lemma position_of_nth:
  assumes "distinct (map mp_id ms)"
  shows "position_of ms i = Some k \<longleftrightarrow> k < length ms \<and> mp_id (ms ! k) = i"
proof -
  have "distinct (map fst (rev (zip (map mp_id ms) [0..<length ms])))"
    using assms by (simp add: rev_map [symmetric])
  then have "position_of ms i = Some k \<longleftrightarrow> (i, k) \<in> set (zip (map mp_id ms) [0..<length ms])"
    by (simp add: position_of_def map_of_eq_Some_iff)
  also have "\<dots> \<longleftrightarrow> k < length ms \<and> mp_id (ms ! k) = i" by (auto simp: set_zip intro!: exI [of _ k])
  finally show ?thesis .
qed

section \<open>Inversion of resolution\<close>

lemma resolve_enabled_Inr:
  assumes "resolve_enabled rt reg dfn a input seen is = Inr (plans, skipped)"
  shows "distinct (map mp_id plans) \<and> mp_id ` set plans \<subseteq> set is - set seen \<and>
    (\<forall>p \<in> set plans. \<exists>md. meta_of reg (mp_id p) = Some md \<and>
       authSkipForModule (effectiveAuthenticationRequirement (mp_id p) (mm_requiresAuthentication md) input) a = None \<and>
       validateSettings rt (setting_overrides dfn input (mp_id p)) (mm_supportedSettings md) = Inr () \<and>
       p = module_plan_for dfn input md (mp_id p) (setting_overrides dfn input (mp_id p)))"
  using assms
proof (induction "is" arbitrary: seen plans skipped)
  case (Cons i rest)
  obtain md where md: "meta_of reg i = Some md" and ns: "i \<notin> set seen"
    using Cons.prems by (auto simp: Let_def result_split split: option.splits)
  show ?case
  proof (cases "authSkipForModule (effectiveAuthenticationRequirement i (mm_requiresAuthentication md) input) a")
    case None
    obtain ps where ps: "resolve_enabled rt reg dfn a input (i # seen) rest = Inr (ps, skipped)"
      "plans = module_plan_for dfn input md i (setting_overrides dfn input i) # ps"
      "validateSettings rt (setting_overrides dfn input i) (mm_supportedSettings md) = Inr ()"
      using Cons.prems md None by (auto simp: Let_def result_split)
    show ?thesis using Cons.IH [OF ps(1)] ps(2,3) md None ns by (auto simp: module_plan_for_def)
  next
    case (Some r)
    obtain sk where "resolve_enabled rt reg dfn a input (i # seen) rest = Inr (plans, sk)"
      using Cons.prems md Some by (auto simp: Let_def result_split)
    from Cons.IH [OF this] show ?thesis by auto
  qed
qed simp

lemma resolve_Inr:
  assumes "resolve rt reg definitions input0 = Inr plan"
  obtains input dfn rl skipped where
    "handover_input reg input0 = Inr input" "definitions (pi_requestedProfile input) = Some dfn"
    "check_authorization rt input0 = Inr ()"
    "resolveLimits dfn input = Inr rl"
    "resolveModules rt reg dfn (clamp_to_program (pi_targetAuthorization input) rl)
       (plan_authentication_of dfn input) input = Inr (sp_modules plan, skipped)"
    "plan = assemble_plan dfn input (clamp_to_program (pi_targetAuthorization input) rl)
       (plan_authentication_of dfn input) (sp_modules plan) skipped"
    "validate plan = Inr ()"
  using assms
  by (auto simp: resolve_def Let_def result_split assemble_plan_def split: option.splits)

lemma handover_input_frame:
  "handover_input reg input0 = Inr input \<Longrightarrow>
     pi_scope input = pi_scope input0 \<and> pi_targetAuthorization input = pi_targetAuthorization input0 \<and>
     pi_plans input = pi_plans input0 \<and> pi_requestedProfile input = pi_requestedProfile input0 \<and>
     pi_preHandover input = pi_preHandover input0 \<and>
     ov_excludeModules (pi_overrides input) = ov_excludeModules (pi_overrides input0) \<and>
     ov_evidenceLevel (pi_overrides input) = ov_evidenceLevel (pi_overrides input0)"
  by (auto simp: handover_input_def Let_def result_split split: option.splits)

lemma resolveModules_Inr:
  assumes "resolveModules rt reg dfn limits a input = Inr (modules, skipped)"
  obtains plans where "resolve_enabled rt reg dfn a input [] (enabled_modules dfn input) = Inr (plans, skipped)"
    "order_loop reg (case pi_preHandover input of None \<Rightarrow> [] | Some h \<Rightarrow> hv_sequence h) plans = Inr modules"
    "set modules = set plans" "distinct (map mp_id modules)" "distinct (map mp_id plans)"
    "validateDependencies reg modules = Inr ()" "validatePositiveLimits limits = Inr ()"
proof -
  obtain plans where p: "resolve_enabled rt reg dfn a input [] (enabled_modules dfn input) = Inr (plans, skipped)"
    "orderModules reg plans (case pi_preHandover input of None \<Rightarrow> [] | Some h \<Rightarrow> hv_sequence h) = Inr modules"
    "validateDependencies reg modules = Inr ()" "validatePositiveLimits limits = Inr ()"
    using assms by (auto simp: resolveModules_def result_split)
  have d: "distinct (map mp_id plans)" using resolve_enabled_Inr [OF p(1)] by blast
  have o: "order_loop reg (case pi_preHandover input of None \<Rightarrow> [] | Some h \<Rightarrow> hv_sequence h) plans = Inr modules"
    using p(2) orderModules_distinct [OF d] by simp
  show ?thesis using that p d o modules.order_members [OF d o] by blast
qed

section \<open>Modules of a plan\<close>

lemma validateDependencies_positions:
  assumes "validateDependencies reg ms = Inr ()" "distinct (map mp_id ms)" "k < length ms" "meta_of reg (mp_id (ms ! k)) = Some md"
    "d \<in> set (mm_dependencies md)"
  shows "\<exists>j \<le> k. mp_id (ms ! j) = d"
proof -
  have own: "position_of ms (mp_id (ms ! k)) = Some k" using assms(2,3) by (simp add: position_of_nth)
  have "validate_module_dependencies reg ms (ms ! k) = Inr ()"
    using assms(1,3) by (simp add: validateDependencies_def result_split)
  then obtain j where "position_of ms d = Some j" "\<not> k < j"
    using assms(4,5) own
    by (auto simp: validate_module_dependencies_def result_split split: option.splits)
  then show ?thesis using position_of_nth [OF assms(2)] by (auto simp: not_less)
qed

lemma effectiveAuthenticationRequirement_plans:
  "pi_plans input = pi_plans input0 \<Longrightarrow> effectiveAuthenticationRequirement i r input = effectiveAuthenticationRequirement i r input0"
  by (simp add: effectiveAuthenticationRequirement_def)

lemma handover_input_settings:
  "handover_input reg input0 = Inr input \<Longrightarrow> setting_overrides dfn input i = setting_overrides dfn input0 i"
  by (auto simp: handover_input_def setting_overrides_def Let_def result_split split: option.splits)

lemma resolve_modules_obtain:
  assumes res: "resolve rt reg definitions input0 = Inr plan"
  obtains input dfn skipped plans where "handover_input reg input0 = Inr input"
    "definitions (pi_requestedProfile input) = Some dfn" "sp_authentication plan = plan_authentication_of dfn input"
    "resolve_enabled rt reg dfn (plan_authentication_of dfn input) input [] (enabled_modules dfn input) = Inr (plans, skipped)"
    "order_loop reg (case pi_preHandover input of None \<Rightarrow> [] | Some h \<Rightarrow> hv_sequence h) plans = Inr (sp_modules plan)"
    "set (sp_modules plan) = set plans" "distinct (map mp_id (sp_modules plan))" "distinct (map mp_id plans)"
    "validateDependencies reg (sp_modules plan) = Inr ()"
proof -
  obtain input dfn rl skipped where inv:
    "handover_input reg input0 = Inr input" "definitions (pi_requestedProfile input) = Some dfn"
    "resolveModules rt reg dfn (clamp_to_program (pi_targetAuthorization input) rl)
       (plan_authentication_of dfn input) input = Inr (sp_modules plan, skipped)"
    "plan = assemble_plan dfn input (clamp_to_program (pi_targetAuthorization input) rl)
       (plan_authentication_of dfn input) (sp_modules plan) skipped"
    using resolve_Inr [OF res] by metis
  have "sp_authentication plan = plan_authentication_of dfn input" by (subst inv(4)) (simp add: assemble_plan_def)
  then show thesis using that inv(1,2) resolveModules_Inr [OF inv(3)] by metis
qed

text \<open>
  C33: the modules of a resolved plan. No module occurs twice and none that the run excludes occurs; each is registered and
  the authentication it needs is supplied; its settings are the module's defaults with the overrides of the requested profile
  and of the run laid over them, and these overrides passed \<^verbatim>\<open>validateSettings\<close>; every
  dependency of a module is in the plan before it, and whatever it must come after, where
  present, is before it too; under a pre-handover sequence, modules follow the sequence.
\<close>

theorem resolved_modules_sound:
  assumes res: "resolve rt reg definitions input0 = Inr plan" and k: "k < length (sp_modules plan)"
    and acyclic: "\<forall>i md. meta_of reg i = Some md \<longrightarrow> i \<notin> set (mm_dependencies md)"
  shows "distinct (map mp_id (sp_modules plan)) \<and>
    mp_id (sp_modules plan ! k) \<notin> set (ov_excludeModules (pi_overrides input0)) \<and>
    (\<exists>md. meta_of reg (mp_id (sp_modules plan ! k)) = Some md \<and>
       authSkipForModule (effectiveAuthenticationRequirement (mp_id (sp_modules plan ! k)) (mm_requiresAuthentication md) input0)
         (sp_authentication plan) = None \<and>
       (\<exists>dfn. definitions (pi_requestedProfile input0) = Some dfn \<and>
          mp_settings (sp_modules plan ! k) =
            spread (mm_defaultSettings md) (setting_overrides dfn input0 (mp_id (sp_modules plan ! k))) \<and>
          validateSettings rt (setting_overrides dfn input0 (mp_id (sp_modules plan ! k))) (mm_supportedSettings md) = Inr ()) \<and>
       (\<forall>d \<in> set (mm_dependencies md). \<exists>j < k. mp_id (sp_modules plan ! j) = d) \<and>
       (\<forall>j < length (sp_modules plan). mp_id (sp_modules plan ! j) \<in> set (mm_orderAfter md) \<longrightarrow> j < k)) \<and>
    (\<forall>h j. pi_preHandover input0 = Some h \<longrightarrow> j < length (sp_modules plan) \<longrightarrow>
       mp_id (sp_modules plan ! j) \<in> set (take (nat (max 0 (index_of (mp_id (sp_modules plan ! k)) (hv_sequence h)))) (hv_sequence h)) \<longrightarrow> j < k)"
proof -
  let ?ms = "sp_modules plan" and ?i = "mp_id (sp_modules plan ! k)"
  obtain input dfn skipped plans where inv: "handover_input reg input0 = Inr input" "definitions (pi_requestedProfile input) = Some dfn" "sp_authentication plan = plan_authentication_of dfn input"
    and m: "resolve_enabled rt reg dfn (plan_authentication_of dfn input) input [] (enabled_modules dfn input) = Inr (plans, skipped)"
    "order_loop reg (case pi_preHandover input of None \<Rightarrow> [] | Some h \<Rightarrow> hv_sequence h) plans = Inr ?ms" "set ?ms = set plans"
    "distinct (map mp_id ?ms)" "distinct (map mp_id plans)" "validateDependencies reg ?ms = Inr ()"
    by (rule resolve_modules_obtain [OF res])
  let ?seq = "case pi_preHandover input of None \<Rightarrow> [] | Some h \<Rightarrow> hv_sequence h"
  note frame = handover_input_frame [OF inv(1)]
  note en = resolve_enabled_Inr [OF m(1)]
  have mem: "?ms ! k \<in> set plans" using k m(3) nth_mem by blast
  obtain md where md: "meta_of reg ?i = Some md"
    "authSkipForModule (effectiveAuthenticationRequirement ?i (mm_requiresAuthentication md) input) (plan_authentication_of dfn input) = None"
    "validateSettings rt (setting_overrides dfn input ?i) (mm_supportedSettings md) = Inr ()"
    "?ms ! k = module_plan_for dfn input md ?i (setting_overrides dfn input ?i)"
    using en mem by blast
  have settings: "mp_settings (?ms ! k) = spread (mm_defaultSettings md) (setting_overrides dfn input0 ?i)"
    by (subst md(4)) (simp add: module_plan_for_def handover_input_settings [OF inv(1)])
  have valid: "validateSettings rt (setting_overrides dfn input0 ?i) (mm_supportedSettings md) = Inr ()"
    using md(3) handover_input_settings [OF inv(1)] by simp
  have profile: "definitions (pi_requestedProfile input0) = Some dfn" using inv(2) frame by simp
  have before: "j < k" if "j < length ?ms" "mp_id (?ms ! j) \<in> module_blockers reg ?seq ?i" for j
    using modules.order_respects [OF m(2) that(2) k that(1) m(5)] .
  have "\<exists>j < k. mp_id (?ms ! j) = d" if d: "d \<in> set (mm_dependencies md)" for d
  proof -
    obtain j where "j \<le> k" "mp_id (?ms ! j) = d"
      using validateDependencies_positions [OF m(6,4) k md(1) d] by blast
    moreover have "d \<noteq> ?i" using acyclic md(1) d by blast
    ultimately show ?thesis by (metis le_neq_implies_less)
  qed
  moreover have "\<forall>j < length ?ms. mp_id (?ms ! j) \<in> set (mm_orderAfter md) \<longrightarrow> j < k"
    using before md(1) by (simp add: module_blockers_def constraintsFor_def)
  moreover have "authSkipForModule (effectiveAuthenticationRequirement ?i (mm_requiresAuthentication md) input0)
      (sp_authentication plan) = None"
    using md(2) inv(3) effectiveAuthenticationRequirement_plans [of input input0] frame by simp
  moreover have "?i \<notin> set (ov_excludeModules (pi_overrides input0))"
    using en mem frame by (auto simp: enabled_modules_def)
  moreover have "j < k" if "pi_preHandover input0 = Some h" "j < length ?ms"
    "mp_id (?ms ! j) \<in> set (take (nat (max 0 (index_of ?i (hv_sequence h)))) (hv_sequence h))" for h j
    using before [OF that(2)] that frame by (simp add: module_blockers_def)
  ultimately show ?thesis using m(4) md(1) settings valid profile by blast
qed

section \<open>Limits of a plan\<close>

lemma validatePositiveLimits_Inr:
  assumes "validatePositiveLimits l = Inr ()"
  shows "\<forall>(z, v) \<in> set (numeric_limits l). js_isFinite v \<and> js_leq (jsint 0) v \<and> (z \<or> js_less (jsint 0) v)"
    "js_leq (lm_maxDepth l) (jsint 10)" "js_leq (lm_rateLimitPerSecond l) (jsint 50)" "js_leq (lm_concurrency l) (jsint 50)"
    "js_leq (lm_bodyPreviewBytes l) (jsint 1048576)" "js_leq (lm_maxResponseBytes l) (jsint 4194304)"
    "js_leq (lm_maxRequests l) (jsint 10000)" "js_isInteger (lm_cleanupReservedRequests l)"
    "js_leq (lm_cleanupReservedRequests l) (lm_maxRequests l)" "js_leq (lm_cleanupReservedRequests l) (jsint 5000)"
    "js_leq (lm_maxScanDurationMs l) (jsint 3600000)" "js_leq (maxAttempts (lm_retry l)) (jsint 5)"
proof -
  have pos: "js_isFinite v \<and> \<not> js_less v (jsint 0) \<and> (z \<or> v \<noteq> jsint 0)" if "(z, v) \<in> set (numeric_limits l)" for z v
    using assms that by (auto simp: validatePositiveLimits_def result_split positive_limit_def)
  have "list_all (\<lambda>(z, v). js_isFinite v) (numeric_limits l)" using pos by (auto simp: list_all_iff)
  then have fin: "js_isFinite (lm_maxDepth l)" "js_isFinite (lm_rateLimitPerSecond l)" "js_isFinite (lm_concurrency l)"
    "js_isFinite (lm_bodyPreviewBytes l)" "js_isFinite (lm_maxResponseBytes l)" "js_isFinite (lm_maxRequests l)"
    "js_isFinite (lm_cleanupReservedRequests l)" "js_isFinite (lm_maxScanDurationMs l)" "js_isFinite (maxAttempts (lm_retry l))"
    by (simp_all add: numeric_limits_def)
  have leq: "js_isFinite v \<Longrightarrow> \<not> js_less (jsint n) v \<Longrightarrow> js_leq v (jsint n)" for v n
    by (cases v) auto
  have nn: "js_isFinite v \<and> \<not> js_less v (jsint 0) \<and> (z \<or> v \<noteq> jsint 0) \<Longrightarrow>
      js_isFinite v \<and> js_leq (jsint 0) v \<and> (z \<or> js_less (jsint 0) v)" for v z
    by (cases v) auto
  show "\<forall>(z, v) \<in> set (numeric_limits l). js_isFinite v \<and> js_leq (jsint 0) v \<and> (z \<or> js_less (jsint 0) v)"
    using pos nn by blast
  have ceil: "\<not> js_less (jsint 10) (lm_maxDepth l)" "\<not> js_less (jsint 50) (lm_rateLimitPerSecond l)"
    "\<not> js_less (jsint 50) (lm_concurrency l)" "\<not> js_less (jsint 1048576) (lm_bodyPreviewBytes l)"
    "\<not> js_less (jsint 4194304) (lm_maxResponseBytes l)" "\<not> js_less (jsint 10000) (lm_maxRequests l)"
    "\<not> js_less (jsint 5000) (lm_cleanupReservedRequests l)" "\<not> js_less (jsint 3600000) (lm_maxScanDurationMs l)"
    "\<not> js_less (jsint 5) (maxAttempts (lm_retry l))"
    and cl: "js_isInteger (lm_cleanupReservedRequests l)" "\<not> js_less (lm_maxRequests l) (lm_cleanupReservedRequests l)"
    using assms by (auto simp: validatePositiveLimits_def result_split ceiling_check_def)
  show "js_leq (lm_maxDepth l) (jsint 10)" "js_leq (lm_rateLimitPerSecond l) (jsint 50)" "js_leq (lm_concurrency l) (jsint 50)"
    "js_leq (lm_bodyPreviewBytes l) (jsint 1048576)" "js_leq (lm_maxResponseBytes l) (jsint 4194304)"
    "js_leq (lm_maxRequests l) (jsint 10000)" "js_leq (lm_cleanupReservedRequests l) (jsint 5000)"
    "js_leq (lm_maxScanDurationMs l) (jsint 3600000)" "js_leq (maxAttempts (lm_retry l)) (jsint 5)"
    by (rule leq; fact fin ceil)+
  show "js_isInteger (lm_cleanupReservedRequests l)" by (rule cl)
  show "js_leq (lm_cleanupReservedRequests l) (lm_maxRequests l)"
    using fin cl(2) by (cases "lm_maxRequests l"; cases "lm_cleanupReservedRequests l") auto
qed

lemma resolve_limits_validated:
  assumes "resolve rt reg definitions input0 = Inr plan"
  shows "validatePositiveLimits (sp_limits plan) = Inr ()"
proof -
  obtain input dfn rl skipped where inv:
    "resolveModules rt reg dfn (clamp_to_program (pi_targetAuthorization input) rl)
       (plan_authentication_of dfn input) input = Inr (sp_modules plan, skipped)"
    "plan = assemble_plan dfn input (clamp_to_program (pi_targetAuthorization input) rl)
       (plan_authentication_of dfn input) (sp_modules plan) skipped"
    using resolve_Inr [OF assms] by metis
  have "sp_limits plan = clamp_to_program (pi_targetAuthorization input) rl"
    by (subst inv(2)) (simp add: assemble_plan_def)
  then show ?thesis using resolveModules_Inr [OF inv(1)] by metis
qed

text \<open>
  C24: the limits of a resolved plan are usable and below every hard safety ceiling, whatever numbers the profile
  and the overrides bring in (a NaN, an infinity or a negative number never survives): all are finite, rate,
  concurrency, timeouts, sizes, request budget and attempts are positive, and the cleanup reserve is an integer within the budget.
\<close>

theorem resolved_limits_safe:
  assumes "resolve rt reg definitions input = Inr plan"
  shows "(\<forall>(zeroAllowed, v) \<in> set (numeric_limits (sp_limits plan)).
            js_isFinite v \<and> js_leq (jsint 0) v \<and> (zeroAllowed \<or> js_less (jsint 0) v)) \<and>
    js_leq (lm_maxDepth (sp_limits plan)) (jsint 10) \<and> js_leq (lm_rateLimitPerSecond (sp_limits plan)) (jsint 50) \<and>
    js_leq (lm_concurrency (sp_limits plan)) (jsint 50) \<and> js_leq (lm_bodyPreviewBytes (sp_limits plan)) (jsint 1048576) \<and>
    js_leq (lm_maxResponseBytes (sp_limits plan)) (jsint 4194304) \<and> js_leq (lm_maxRequests (sp_limits plan)) (jsint 10000) \<and>
    js_leq (lm_cleanupReservedRequests (sp_limits plan)) (jsint 5000) \<and>
    js_leq (lm_maxScanDurationMs (sp_limits plan)) (jsint 3600000) \<and> js_leq (maxAttempts (lm_retry (sp_limits plan))) (jsint 5) \<and>
    js_isInteger (lm_cleanupReservedRequests (sp_limits plan)) \<and>
    js_leq (lm_cleanupReservedRequests (sp_limits plan)) (lm_maxRequests (sp_limits plan))"
  using validatePositiveLimits_Inr [OF resolve_limits_validated [OF assms]] by blast

lemma clamp_within:
  assumes "a = Some auth" "requestPolicy auth = Some p"
  shows "lm_maxRequests (clamp_to_program a l) = js_min (lm_maxRequests l) (jsint (pr_maxRequests p)) \<and>
    lm_rateLimitPerSecond (clamp_to_program a l) = js_min (lm_rateLimitPerSecond l) (jsint (pr_rateLimitPerSecond p)) \<and>
    (\<forall>c. ta_productionCampaign auth = Some c \<longrightarrow>
       lm_concurrency (clamp_to_program a l) = js_min (lm_concurrency l) (jsint (pc_concurrency c)) \<and>
       lm_requestTimeoutMs (clamp_to_program a l) = js_min (lm_requestTimeoutMs l) (jsint (pc_requestTimeoutMs c)) \<and>
       lm_maxScanDurationMs (clamp_to_program a l) = js_min (lm_maxScanDurationMs l) (jsint (pc_maxDurationMs c)) \<and>
       lm_maxResponseBytes (clamp_to_program a l) = js_min (lm_maxResponseBytes l) (jsint (pc_maxResponseBytes c)) \<and>
       lm_bodyPreviewBytes (clamp_to_program a l) = js_min (lm_bodyPreviewBytes l) (jsint (pc_maxResponseBytes c)))"
  using assms by (auto simp: clamp_to_program_def Let_def split: option.splits)

lemma clamp_below_scope:
  "lm_maxDepth (clamp_to_program a l) = lm_maxDepth l \<and>
   (\<exists>x. lm_rateLimitPerSecond (clamp_to_program a l) = lm_rateLimitPerSecond l \<or>
        lm_rateLimitPerSecond (clamp_to_program a l) = js_min (lm_rateLimitPerSecond l) x) \<and>
   (\<exists>x. lm_concurrency (clamp_to_program a l) = lm_concurrency l \<or> lm_concurrency (clamp_to_program a l) = js_min (lm_concurrency l) x)"
  by (auto simp: clamp_to_program_def Let_def split: option.splits)

lemma js_min_leq_chain:
  assumes "js_isFinite y" "y = x \<or> (\<exists>z. y = js_min x z)" "x = js_min w s"
  shows "js_leq y s"
proof -
  have y: "y \<noteq> JNaN" using assms(1) by (cases y) auto
  have "js_leq y x \<and> x \<noteq> JNaN"
  proof (cases "y = x")
    case False
    then obtain z where z: "y = js_min x z" using assms(2) by blast
    have "js_leq y x" using y unfolding z by (rule js_min_leq1)
    then show ?thesis using js_leq_nanD by blast
  qed (use y in simp)
  moreover from this have "js_leq x s" unfolding assms(3) using js_min_leq2 by blast
  ultimately show ?thesis using js_leq_trans by blast
qed

lemma resolveLimits_merged:
  "resolveLimits dfn input = Inr rl \<Longrightarrow> \<exists>c. rl = (merged_limits dfn input)\<lparr>lm_cleanupReservedRequests := c\<rparr>"
  by (auto simp: resolveLimits_def Let_def result_split)

lemma resolved_limits_finite:
  assumes "resolve rt reg definitions input0 = Inr plan"
  shows "js_isFinite (lm_maxDepth (sp_limits plan))" "js_isFinite (lm_rateLimitPerSecond (sp_limits plan))" "js_isFinite (lm_concurrency (sp_limits plan))"
    "js_isFinite (lm_requestTimeoutMs (sp_limits plan))" "js_isFinite (lm_bodyPreviewBytes (sp_limits plan))" "js_isFinite (lm_maxResponseBytes (sp_limits plan))"
    "js_isFinite (lm_maxRequests (sp_limits plan))" "js_isFinite (lm_maxScanDurationMs (sp_limits plan))"
proof -
  have "\<forall>(z, v) \<in> set (numeric_limits (sp_limits plan)). js_isFinite v"
    using validatePositiveLimits_Inr(1) [OF resolve_limits_validated [OF assms]] by auto
  then show "js_isFinite (lm_maxDepth (sp_limits plan))" "js_isFinite (lm_rateLimitPerSecond (sp_limits plan))" "js_isFinite (lm_concurrency (sp_limits plan))"
    "js_isFinite (lm_requestTimeoutMs (sp_limits plan))" "js_isFinite (lm_bodyPreviewBytes (sp_limits plan))" "js_isFinite (lm_maxResponseBytes (sp_limits plan))"
    "js_isFinite (lm_maxRequests (sp_limits plan))" "js_isFinite (lm_maxScanDurationMs (sp_limits plan))"
    by (simp_all add: numeric_limits_def)
qed

lemma js_finite_min_leq:
  assumes "js_isFinite y" "y = js_min x z"
  shows "js_leq y z"
proof -
  have "y \<noteq> JNaN" using assms(1) by (cases y) auto
  then show ?thesis unfolding assms(2) by (rule js_min_leq2)
qed

text \<open>
  the declared scope and the target's contract are ceilings. Depth, rate and concurrency of a resolved plan
  never exceed the declared scope, whatever profile and overrides ask for; with a bug-bounty program or campaign,
  budget and rate never exceed the program's, and with a campaign neither do concurrency, timeout, duration and sizes.
\<close>

theorem resolved_limits_within_authorization:
  assumes "resolve rt reg definitions input0 = Inr plan"
  shows "js_leq (lm_maxDepth (sp_limits plan)) (sc_maxDepth (pi_scope input0)) \<and>
    js_leq (lm_rateLimitPerSecond (sp_limits plan)) (sc_rateLimitPerSecond (pi_scope input0)) \<and>
    js_leq (lm_concurrency (sp_limits plan)) (sc_concurrency (pi_scope input0)) \<and>
    (\<forall>auth p. pi_targetAuthorization input0 = Some auth \<longrightarrow> requestPolicy auth = Some p \<longrightarrow>
       js_leq (lm_maxRequests (sp_limits plan)) (jsint (pr_maxRequests p)) \<and>
       js_leq (lm_rateLimitPerSecond (sp_limits plan)) (jsint (pr_rateLimitPerSecond p)) \<and>
       (\<forall>c. ta_productionCampaign auth = Some c \<longrightarrow>
          js_leq (lm_concurrency (sp_limits plan)) (jsint (pc_concurrency c)) \<and>
          js_leq (lm_requestTimeoutMs (sp_limits plan)) (jsint (pc_requestTimeoutMs c)) \<and>
          js_leq (lm_maxScanDurationMs (sp_limits plan)) (jsint (pc_maxDurationMs c)) \<and>
          js_leq (lm_maxResponseBytes (sp_limits plan)) (jsint (pc_maxResponseBytes c)) \<and>
          js_leq (lm_bodyPreviewBytes (sp_limits plan)) (jsint (pc_maxResponseBytes c))))"
proof -
  obtain input dfn rl skipped where inv:
    "handover_input reg input0 = Inr input" "resolveLimits dfn input = Inr rl"
    "plan = assemble_plan dfn input (clamp_to_program (pi_targetAuthorization input) rl)
       (plan_authentication_of dfn input) (sp_modules plan) skipped"
    using resolve_Inr [OF assms] by metis
  note frame = handover_input_frame [OF inv(1)]
  let ?L = "clamp_to_program (pi_targetAuthorization input) rl"
  have L: "sp_limits plan = ?L" by (subst inv(3)) (simp add: assemble_plan_def)
  note fin = resolved_limits_finite [OF assms, unfolded L]
  have rl: "\<exists>w. lm_maxDepth rl = js_min w (sc_maxDepth (pi_scope input0))"
    "\<exists>w. lm_rateLimitPerSecond rl = js_min w (sc_rateLimitPerSecond (pi_scope input0))"
    "\<exists>w. lm_concurrency rl = js_min w (sc_concurrency (pi_scope input0))"
    using resolveLimits_merged [OF inv(2)] frame by (auto simp: merged_limits_def Let_def)
  note cb = clamp_below_scope [of "pi_targetAuthorization input" rl]
  have scope: "js_leq (lm_maxDepth ?L) (sc_maxDepth (pi_scope input0))"
    "js_leq (lm_rateLimitPerSecond ?L) (sc_rateLimitPerSecond (pi_scope input0))"
    "js_leq (lm_concurrency ?L) (sc_concurrency (pi_scope input0))"
    using js_min_leq_chain [OF fin(1)] js_min_leq_chain [OF fin(2)] js_min_leq_chain [OF fin(3)] rl cb by metis+
  show ?thesis unfolding L
  proof (intro conjI allI impI scope)
    fix auth p c
    assume a: "pi_targetAuthorization input0 = Some auth" "requestPolicy auth = Some p"
    note w = clamp_within [OF trans [OF conjunct1 [OF conjunct2 [OF frame]] a(1)] a(2), of rl]
    show "js_leq (lm_maxRequests ?L) (jsint (pr_maxRequests p))" using js_finite_min_leq [OF fin(7)] w by blast
    show "js_leq (lm_rateLimitPerSecond ?L) (jsint (pr_rateLimitPerSecond p))" using js_finite_min_leq [OF fin(2)] w by blast
    assume c: "ta_productionCampaign auth = Some c"
    show "js_leq (lm_concurrency ?L) (jsint (pc_concurrency c))" using js_finite_min_leq [OF fin(3)] w c by blast
    show "js_leq (lm_requestTimeoutMs ?L) (jsint (pc_requestTimeoutMs c))" using js_finite_min_leq [OF fin(4)] w c by blast
    show "js_leq (lm_maxScanDurationMs ?L) (jsint (pc_maxDurationMs c))" using js_finite_min_leq [OF fin(8)] w c by blast
    show "js_leq (lm_maxResponseBytes ?L) (jsint (pc_maxResponseBytes c))" using js_finite_min_leq [OF fin(6)] w c by blast
    show "js_leq (lm_bodyPreviewBytes ?L) (jsint (pc_maxResponseBytes c))" using js_finite_min_leq [OF fin(5)] w c by blast
  qed
qed

section \<open>Test plans, evidence, ordering\<close>

text \<open>
  In a resolved plan the workflow modules and the supplied test plans match: assisted review and each of the
  seventeen checked workflows is selected exactly when its plan was supplied, and the plan is not empty.
\<close>

theorem resolved_plans_match_modules:
  assumes "resolve rt reg definitions input = Inr plan"
  shows "sp_modules plan \<noteq> [] \<and>
    (M_assisted_review \<in> mp_id ` set (sp_modules plan) \<longleftrightarrow> sp_assistedReview plan \<noteq> None) \<and>
    (\<forall>(i, supplied, _, _) \<in> set (plan_pairs_first (pi_plans input)) \<union> set (plan_pairs_second (pi_plans input)).
       i \<in> mp_id ` set (sp_modules plan) \<longleftrightarrow> supplied)"
proof -
  obtain input' dfn rl skipped where inv: "handover_input reg input = Inr input'"
    "plan = assemble_plan dfn input' (clamp_to_program (pi_targetAuthorization input') rl)
       (plan_authentication_of dfn input') (sp_modules plan) skipped" "validate plan = Inr ()"
    using resolve_Inr [OF assms] by metis
  have "sp_plans plan = pi_plans input'" by (subst inv(2)) (simp add: assemble_plan_def)
  then have p: "sp_plans plan = pi_plans input" using handover_input_frame [OF inv(1)] by simp
  have sel: "selected plan i \<longleftrightarrow> i \<in> mp_id ` set (sp_modules plan)" for i
    by (auto simp: selected_def list_ex_iff)
  have pair: "check_pair plan (i, s, a, b) = Inr () \<longleftrightarrow> (selected plan i \<longleftrightarrow> s)" for i s a b
    by (auto simp: check_pair_def result_split)
  have ok: "sp_modules plan \<noteq> []" "selected plan M_assisted_review \<longleftrightarrow> sp_assistedReview plan \<noteq> None"
    "\<forall>e \<in> set (plan_pairs_first (sp_plans plan)) \<union> set (plan_pairs_second (sp_plans plan)). check_pair plan e = Inr ()"
    using inv(3) by (auto simp: validate_def result_split)
  have "case e of (i, supplied, _, _) \<Rightarrow> selected plan i \<longleftrightarrow> supplied"
    if "e \<in> set (plan_pairs_first (pi_plans input)) \<union> set (plan_pairs_second (pi_plans input))" for e
  proof -
    obtain i s a b where e: "e = (i, s, a, b)" by (cases e)
    have "check_pair plan (i, s, a, b) = Inr ()" using ok(3) that unfolding p e by blast
    then show ?thesis unfolding pair e by simp
  qed
  then show ?thesis unfolding sel [symmetric] using ok(1,2) by blast
qed

text \<open>
  The evidence level of a run is never below the profile's, and a request raises it exactly when it
  asks for a higher level; what the profile collects for the audit is never dropped by raising the level.
\<close>

theorem evidence_policy_monotone:
  "resolveEvidencePolicy p None = p \<and>
   evidence_rank (ep_level (resolveEvidencePolicy p (Some l))) = max (evidence_rank l) (evidence_rank (ep_level p)) \<and>
   (resolveEvidencePolicy p (Some l) = p \<or>
    ep_collectRequestAudit (resolveEvidencePolicy p (Some l)) \<and> ep_collectBodyPreview (resolveEvidencePolicy p (Some l)))"
  by (cases l; cases "ep_level p") (simp_all add: resolveEvidencePolicy_def)

end
