(* ===== verification/RC_BuiltinPlans.thy ===== *)
theory RC_BuiltinPlans
  imports RC_PlanFacts
begin

text \<open>
  Planning on the default registry and the built-in profiles: ordering never fails, the public profiles
  always resolve, the pre-handover selection is closed under dependencies. The concrete plan of the quick
  profile built here is the example for the facts about all resolved plans.
\<close>

section \<open>The default registry and the built-in profiles\<close>

definition default_registry :: plugin_registry where
  "default_registry = (case createDefaultPluginRegistry of Inr reg \<Rightarrow> reg | Inl _ \<Rightarrow> [])"

lemma meta_of_default [simp]: "meta_of default_registry i = Some (moduleCatalog i)"
proof -
  obtain reg where "register_all default_modules new_plugin_registry = Inr reg"
    "\<forall>i. registry_get reg i = Some \<lparr>rp_name = module_id_text i, rp_metadata = moduleCatalog i\<rparr>"
    using register_all_fresh [OF default_modules_distinct, of new_plugin_registry] by (auto simp: new_plugin_registry_def)
  then show ?thesis by (simp add: default_registry_def createDefaultPluginRegistry_def meta_of_def)
qed

lemma default_blockers_rank: "d \<in> module_blockers default_registry [] i \<Longrightarrow> module_rank d < module_rank i"
  using catalog_constraints_rank [of d i] by (auto simp: module_blockers_def constraintsFor_def)

lemma default_order_succeeds: "\<exists>xs. order_loop default_registry [] ps = Inr xs"
  by (rule modules.order_succeeds [of default_registry "[]" module_rank]) (rule default_blockers_rank)

text \<open>
  Ordering the modules of the default registry never fails. For every selection of modules, the ordering loop
  ends with a permutation of them in which each module comes after all it depends on or must follow:
  the catalog's constraints have no cycle.
\<close>

theorem default_ordering_total:
  assumes "distinct (map mp_id plans)"
  shows "\<exists>ms. orderModules default_registry plans [] = Inr ms \<and> set ms = set plans \<and> distinct (map mp_id ms) \<and>
    (\<forall>i < length ms. \<forall>j < length ms.
       mp_id (ms ! j) \<in> set (mm_dependencies (moduleCatalog (mp_id (ms ! i)))) \<union> set (mm_orderAfter (moduleCatalog (mp_id (ms ! i))))
       \<longrightarrow> j < i)"
proof -
  obtain ms where ms: "order_loop default_registry [] plans = Inr ms" using default_order_succeeds by blast
  have "j < i" if "i < length ms" "j < length ms"
    "mp_id (ms ! j) \<in> set (mm_dependencies (moduleCatalog (mp_id (ms ! i)))) \<union> set (mm_orderAfter (moduleCatalog (mp_id (ms ! i))))" for i j
    using modules.order_respects [OF ms _ that(1,2) assms] that(3) by (auto simp: module_blockers_def constraintsFor_def)
  then show ?thesis using ms orderModules_distinct [OF assms, of default_registry] modules.order_members [OF assms ms] by auto
qed

lemma spread_Nil [simp]: "spread a [] = a"
  by (induction a) (auto simp: spread_def)

lemma resolve_enabled_succeeds:
  assumes "ov_includeModules (pi_overrides input) = None" "distinct is" "set is \<inter> set seen = {}"
    "\<forall>i \<in> set is. i \<notin> set (pd_disabledModules dfn) \<and> mm_requiresAuthentication (moduleCatalog i) = LevelNone \<and>
       validateSettings rt (setting_overrides dfn input i) (mm_supportedSettings (moduleCatalog i)) = Inr ()"
  shows "\<exists>plans. resolve_enabled rt default_registry dfn a input seen is = Inr (plans, []) \<and> map mp_id plans = is"
  using assms(2-4)
proof (induction "is" arbitrary: seen)
  case (Cons i rest)
  have dis: "set rest \<inter> set (i # seen) = {}" "distinct rest" using Cons.prems(1,2) by auto
  have all: "\<forall>j \<in> set rest. j \<notin> set (pd_disabledModules dfn) \<and> mm_requiresAuthentication (moduleCatalog j) = LevelNone \<and>
       validateSettings rt (setting_overrides dfn input j) (mm_supportedSettings (moduleCatalog j)) = Inr ()"
    using Cons.prems(3) by (meson list.set_intros(2))
  obtain plans where rest: "resolve_enabled rt default_registry dfn a input (i # seen) rest = Inr (plans, [])"
    and ids: "map mp_id plans = rest" using Cons.IH [OF dis(2,1) all] by (elim exE conjE)
  have skip: "authSkipForModule (effectiveAuthenticationRequirement i LevelNone input) a = None"
    by (simp add: authSkipForModule_def effectiveAuthenticationRequirement_def)
  have i: "i \<notin> set seen" "i \<notin> set (pd_disabledModules dfn)" "mm_requiresAuthentication (moduleCatalog i) = LevelNone"
    "validateSettings rt (setting_overrides dfn input i) (mm_supportedSettings (moduleCatalog i)) = Inr ()"
    using Cons.prems(2,3) by simp_all
  let ?p = "module_plan_for dfn input (moduleCatalog i) i (setting_overrides dfn input i)"
  have eq: "resolve_enabled rt default_registry dfn a input seen (i # rest) = Inr (?p # plans, [])"
    by (simp add: guard_err_def assms(1) rest skip i)
  have "map mp_id (?p # plans) = i # rest" using ids by (simp add: module_plan_for_def)
  then show ?case by (intro exI [of _ "?p # plans"] conjI eq)
qed simp

lemma validateDependencies_succeeds:
  assumes d: "distinct (map mp_id ms)"
    and closed: "\<And>i x. i \<in> mp_id ` set ms \<Longrightarrow> x \<in> set (mm_dependencies (moduleCatalog i)) \<Longrightarrow> x \<in> mp_id ` set ms"
    and order: "\<And>i j. i < length ms \<Longrightarrow> j < length ms \<Longrightarrow>
        mp_id (ms ! j) \<in> set (mm_dependencies (moduleCatalog (mp_id (ms ! i)))) \<union> set (mm_orderAfter (moduleCatalog (mp_id (ms ! i)))) \<Longrightarrow> j < i"
  shows "validateDependencies default_registry ms = Inr ()"
proof -
  have "validate_module_dependencies default_registry ms p = Inr ()" if "p \<in> set ms" for p
  proof -
    obtain i where i: "i < length ms" "p = ms ! i" using \<open>p \<in> set ms\<close> unfolding in_set_conv_nth by blast
    have own: "position_of ms (mp_id p) = Some i" using i d by (simp add: position_of_nth)
    have pos: "\<exists>j. position_of ms x = Some j" if "x \<in> mp_id ` set ms" for x
    proof -
      from that obtain q where "x = mp_id q" "q \<in> set ms" by (rule imageE)
      then obtain j where "j < length ms" "mp_id (ms ! j) = x" unfolding in_set_conv_nth by blast
      then show ?thesis using position_of_nth [OF d] by blast
    qed
    have late: "\<not> i < j" if "position_of ms x = Some j"
      "x \<in> set (mm_dependencies (moduleCatalog (mp_id p))) \<union> set (mm_orderAfter (moduleCatalog (mp_id p)))" for x j
    proof -
      have j: "j < length ms" "mp_id (ms ! j) = x" using that(1) position_of_nth [OF d] by simp_all
      have "j < i" by (rule order [OF i(1) j(1)]) (use that(2) in \<open>simp only: j(2) i(2)\<close>)
      then show ?thesis by simp
    qed
    have "x \<in> mp_id ` set ms" if "x \<in> set (mm_dependencies (moduleCatalog (mp_id p)))" for x
      using closed [OF imageI [OF \<open>p \<in> set ms\<close>] that] .
    then show ?thesis using own pos late
      by (fastforce simp: validate_module_dependencies_def result_split split: option.splits)
  qed
  then show ?thesis by (simp add: validateDependencies_def result_split)
qed

definition no_plans :: test_plans where
  "no_plans = \<lparr>tp_objectPairTesting = False, tp_fieldExposureTesting = False, tp_authorizationMatrixTesting = False,
     tp_collectionAuthorizationTesting = None, tp_bulkAuthorizationTesting = False, tp_fileAuthorizationTesting = None,
     tp_equivalentRouteTesting = False, tp_privilegeMutationTesting = None, tp_supabaseAuthorization = None,
     tp_authenticationLifecycle = None, tp_businessInvariant = None, tp_controlledRace = None, tp_apiGraphql = None,
     tp_protocolSecurity = None, tp_linkPortalSecurity = None, tp_operationalEndpointSecurity = None,
     tp_billingEntitlement = None, tp_activeVulnerability = None\<rparr>"

definition no_overrides :: plan_overrides where
  "no_overrides = \<lparr>ov_rateLimitPerSecond = None, ov_concurrency = None, ov_maxRequests = None, ov_cleanupReservedRequests = None,
     ov_includeModules = None, ov_excludeModules = [], ov_moduleSettings = [], ov_evidenceLevel = None\<rparr>"

text \<open>The input of a run that names a profile and a scope and nothing else.\<close>

definition plain_input :: "scan_profile_name \<Rightarrow> routecairn_scope \<Rightarrow> jsnum \<Rightarrow> jsnum \<Rightarrow> planner_input" where
  "plain_input n scope timeout preview =
     \<lparr>pi_actorRegistry = False, pi_targetAuthorization = None, pi_preHandover = None, pi_assistedReview = None,
      pi_requestedProfile = n, pi_scope = scope, pi_configRequestTimeoutMs = timeout,
      pi_configBodyPreviewBytes = preview, pi_authProfile = None, pi_authProfileSet = None, pi_overrides = no_overrides,
      pi_plans = no_plans\<rparr>"

definition public_profiles :: "scan_profile_definition list" where
  "public_profiles = [profile_quick, profile_full, profile_monitor, profile_proof]"

lemma public_settings_valid:
  assumes "d \<in> set public_profiles" "i \<in> set (pd_enabledModules d)"
  shows "validateSettings rt (or_else (map_of (pd_moduleSettings d) i) []) (mm_supportedSettings (moduleCatalog i)) = Inr ()"
proof -
  have "list_all (\<lambda>d. list_all (\<lambda>i. validateSettings rt (or_else (map_of (pd_moduleSettings d) i) [])
      (mm_supportedSettings (moduleCatalog i)) = Inr ()) (pd_enabledModules d)) public_profiles"
    by code_simp
  then show ?thesis using assms by (simp add: list_all_iff)
qed

lemma public_modules_anonymous:
  assumes "d \<in> set public_profiles" "i \<in> set (pd_enabledModules d)"
  shows "mm_requiresAuthentication (moduleCatalog i) = LevelNone"
proof -
  have "list_all (\<lambda>d. list_all (\<lambda>i. mm_requiresAuthentication (moduleCatalog i) = LevelNone) (pd_enabledModules d)) public_profiles"
    by code_simp
  then show ?thesis using assms by (simp add: list_all_iff)
qed

lemma public_profiles_builtin:
  "d \<in> set public_profiles \<Longrightarrow> scanProfileDefinitions (pd_name d) = Some d \<and> pd_name d \<in> {ProfQuick, ProfFull, ProfMonitor, ProfProof}"
  by (auto simp: public_profiles_def profile_defs)

lemma scope_valid_numbers:
  assumes "scope_valid s"
  obtains r c d where "sc_rateLimitPerSecond s = JFin r" "0 < r" "r \<le> 50" "sc_concurrency s = JFin c" "0 < c" "c \<le> 50"
    "sc_maxDepth s = JFin d" "0 \<le> d" "d \<le> 10"
  using assms
  by (cases "sc_rateLimitPerSecond s"; cases "sc_concurrency s"; cases "sc_maxDepth s") (auto simp: scope_valid_def)

lemma validatePositiveLimits_intro:
  assumes "lm_maxDepth l = JFin a1" "0 \<le> a1" "a1 \<le> 10" "lm_rateLimitPerSecond l = JFin a2" "0 < a2" "a2 \<le> 50"
    "lm_concurrency l = JFin a3" "0 < a3" "a3 \<le> 50" "lm_requestTimeoutMs l = JFin a4" "0 < a4"
    "lm_bodyPreviewBytes l = JFin a5" "0 < a5" "a5 \<le> 1048576" "lm_maxResponseBytes l = JFin a6" "0 < a6" "a6 \<le> 4194304"
    "lm_maxRequests l = JFin a7" "0 < a7" "a7 \<le> 10000" "lm_cleanupReservedRequests l = JFin 0"
    "lm_maxScanDurationMs l = JFin a8" "0 < a8" "a8 \<le> 3600000" "maxAttempts (lm_retry l) = JFin a9" "0 < a9" "a9 \<le> 5"
  shows "validatePositiveLimits l = Inr ()"
  using assms by (simp add: validatePositiveLimits_def numeric_limits_def positive_limit_def ceiling_check_def guard_err_def)

lemma public_limits_valid:
  assumes "d \<in> set public_profiles" "scope_valid scope"
  shows "\<exists>rl. resolveLimits d (plain_input n scope timeout preview) = Inr rl \<and> validatePositiveLimits rl = Inr ()"
proof -
  obtain r c m where s: "sc_rateLimitPerSecond scope = JFin r" "0 < r" "r \<le> 50" "sc_concurrency scope = JFin c" "0 < c" "c \<le> 50"
    "sc_maxDepth scope = JFin m" "0 \<le> m" "m \<le> 10"
    using scope_valid_numbers [OF assms(2)] by metis
  have "minimumCleanupRequests (plain_input n scope timeout preview) = 0"
    by (simp add: minimumCleanupRequests_def plain_input_def no_plans_def cleanup_steps_def)
  then have "resolveLimits d (plain_input n scope timeout preview) = Inr (merged_limits d (plain_input n scope timeout preview))"
    using assms(1) by (auto simp: resolveLimits_def Let_def guard_err_def public_profiles_def profile_defs plain_input_def no_overrides_def
        merged_limits_def)
  moreover have "validatePositiveLimits (merged_limits d (plain_input n scope timeout preview)) = Inr ()"
  proof -
    obtain q1 q2 q3 q4 q5 q6 q7 where l: "pd_limits d = \<lparr>pl_maxDepth = Some (JFin q1), pl_rateLimitPerSecond = Some (JFin q2),
        pl_concurrency = Some (JFin q3), pl_requestTimeoutMs = Some (JFin q4), pl_bodyPreviewBytes = Some (JFin q5),
        pl_maxResponseBytes = None, pl_maxRequests = Some (JFin q6), pl_cleanupReservedRequests = None,
        pl_maxScanDurationMs = Some (JFin q7), pl_retry = pl_retry (pd_limits d)\<rparr>"
      and q: "0 < q1" "0 < q2" "0 < q3" "0 < q4" "0 < q5" "q5 \<le> 1048576" "0 < q6" "q6 \<le> 10000" "0 < q7" "q7 \<le> 3600000"
      and rt: "\<exists>t a. pl_retry (pd_limits d) = Some t \<and> maxAttempts t = JFin a \<and> 0 < a \<and> a \<le> 5"
      using assms(1) by (auto simp: public_profiles_def profile_defs)
    from rt obtain t a where t: "pl_retry (pd_limits d) = Some t" "maxAttempts t = JFin a" "0 < a" "a \<le> 5" by (elim exE conjE)
    show ?thesis
      by (rule validatePositiveLimits_intro [where ?a9.0 = a and ?a1.0 = "min q1 m" and ?a2.0 = "min q2 r" and ?a3.0 = "min q3 c" and ?a4.0 = q4 and
            ?a5.0 = q5 and ?a6.0 = "4 * q5" and ?a7.0 = q6 and ?a8.0 = q7])
         (use l q t s in \<open>auto simp: merged_limits_def Let_def plain_input_def no_overrides_def truthy_or_def\<close>)
  qed
  ultimately show ?thesis by blast
qed

lemma plain_overrides [simp]:
  "setting_overrides d (plain_input n scope timeout preview) i = or_else (map_of (pd_moduleSettings d) i) []"
  "enabled_modules d (plain_input n scope timeout preview) = pd_enabledModules d"
  by (simp_all add: setting_overrides_def enabled_modules_def plain_input_def no_overrides_def)

lemma plain_input_checks:
  "pi_actorRegistry (plain_input n scope timeout preview) = False"
  "pi_requestedProfile (plain_input n scope timeout preview) = n"
  "n \<noteq> ProfPreHandover \<Longrightarrow> validatePreHandoverBindings (plain_input n scope timeout preview) = Inr ()"
  "check_authorization rt (plain_input n scope timeout preview) = Inr ()"
  "handover_input reg (plain_input n scope timeout preview) = Inr (plain_input n scope timeout preview)"
  "check_review_identity (plain_input n scope timeout preview) = Inr ()"
  "clamp_to_program (pi_targetAuthorization (plain_input n scope timeout preview)) l = l"
  by (simp_all add: plain_input_def validatePreHandoverBindings_def check_authorization_def handover_input_def
      check_review_identity_def clamp_to_program_def guard_err_def)

lemma public_modules_resolve:
  assumes d: "d \<in> set public_profiles" and l: "validatePositiveLimits l = Inr ()"
  shows "\<exists>ms. resolveModules rt default_registry d l a (plain_input n scope timeout preview) = Inr (ms, []) \<and>
    mp_id ` set ms = set (pd_enabledModules d)"
proof -
  let ?in = "plain_input n scope timeout preview"
  have con: "profile_consistent d" using public_profiles_builtin [OF d] builtin_profiles_consistent by blast
  have dis: "distinct (pd_enabledModules d)" using con by (simp add: profile_consistent_def)
  have "\<exists>plans. resolve_enabled rt default_registry d a ?in [] (pd_enabledModules d) = Inr (plans, []) \<and> map mp_id plans = pd_enabledModules d"
  proof (rule resolve_enabled_succeeds [OF _ dis])
    show "\<forall>i \<in> set (pd_enabledModules d). i \<notin> set (pd_disabledModules d) \<and> mm_requiresAuthentication (moduleCatalog i) = LevelNone \<and>
       validateSettings rt (setting_overrides d ?in i) (mm_supportedSettings (moduleCatalog i)) = Inr ()"
      using con public_modules_anonymous [OF d] public_settings_valid [OF d] by (simp add: profile_consistent_def list_all_iff)
  qed (simp_all add: plain_input_def no_overrides_def)
  then obtain plans where p: "resolve_enabled rt default_registry d a ?in [] (pd_enabledModules d) = Inr (plans, [])"
    "map mp_id plans = pd_enabledModules d" by (elim exE conjE)
  have dp: "distinct (map mp_id plans)" using dis p(2) by simp
  obtain ms where ms: "order_loop default_registry [] plans = Inr ms" using default_order_succeeds [of plans] by (elim exE)
  note mem = modules.order_members [OF dp ms]
  have ids: "mp_id ` set ms = set (pd_enabledModules d)" using mem p(2) by (metis list.set_map)
  have "validateDependencies default_registry ms = Inr ()"
  proof (rule validateDependencies_succeeds)
    show "x \<in> mp_id ` set ms" if "i \<in> mp_id ` set ms" "x \<in> set (mm_dependencies (moduleCatalog i))" for i x
      using con that unfolding ids by (simp add: profile_consistent_def list_all_iff)
    show "j < i" if "i < length ms" "j < length ms"
      "mp_id (ms ! j) \<in> set (mm_dependencies (moduleCatalog (mp_id (ms ! i)))) \<union> set (mm_orderAfter (moduleCatalog (mp_id (ms ! i))))" for i j
      by (rule modules.order_respects [OF ms _ that(1,2) dp]) (use that(3) in \<open>simp add: module_blockers_def constraintsFor_def\<close>)
  qed (use mem in simp)
  moreover have "validateEvidence default_registry d ms = Inr ()" "validateMonitoring default_registry d ms = Inr ()"
    using con ids by (force simp: validateEvidence_def validateMonitoring_def guard_err_def profile_consistent_def list_all_iff list_ex_iff)+
  moreover have "orderModules default_registry plans (case pi_preHandover ?in of None \<Rightarrow> [] | Some h \<Rightarrow> hv_sequence h) = Inr ms"
    using ms orderModules_distinct [OF dp] by (simp add: plain_input_def)
  ultimately have "resolveModules rt default_registry d l a ?in = Inr (ms, [])"
    using p(1) l by (simp add: resolveModules_def)
  then show ?thesis using ids by blast
qed

lemma public_pairs_absent:
  assumes "d \<in> set public_profiles"
  shows "M_assisted_review \<notin> set (pd_enabledModules d) \<and>
    (\<forall>(i, s, _, _) \<in> set (plan_pairs_first no_plans) \<union> set (plan_pairs_second no_plans). i \<notin> set (pd_enabledModules d) \<and> \<not> s) \<and>
    pd_enabledModules d \<noteq> []"
proof -
  have "list_all (\<lambda>d. M_assisted_review \<notin> set (pd_enabledModules d) \<and>
      list_all (\<lambda>(i, s, _, _). i \<notin> set (pd_enabledModules d) \<and> \<not> s) (plan_pairs_first no_plans @ plan_pairs_second no_plans) \<and>
      pd_enabledModules d \<noteq> []) public_profiles"
    by code_simp
  then show ?thesis using assms by (auto simp: list_all_iff)
qed

lemma public_resolution_full:
  assumes "d \<in> set public_profiles" "scope_valid scope"
  shows "\<exists>plan. resolve rt default_registry scanProfileDefinitions (plain_input (pd_name d) scope timeout preview) = Inr plan \<and>
    mp_id ` set (sp_modules plan) = set (pd_enabledModules d) \<and> sp_profile plan = pd_name d"
proof -
  let ?in = "plain_input (pd_name d) scope timeout preview" and ?a = "plan_authentication_of d (plain_input (pd_name d) scope timeout preview)"
  note b = public_profiles_builtin [OF assms(1)]
  obtain rl where rl: "resolveLimits d ?in = Inr rl" "validatePositiveLimits rl = Inr ()"
    using public_limits_valid [OF assms] by blast
  obtain ms where ms: "resolveModules rt default_registry d rl ?a ?in = Inr (ms, [])" "mp_id ` set ms = set (pd_enabledModules d)"
    using public_modules_resolve [OF assms(1) rl(2)] by blast
  let ?plan = "assemble_plan d ?in rl ?a ms []"
  have sel: "selected ?plan i \<longleftrightarrow> i \<in> set (pd_enabledModules d)" for i
    unfolding ms(2) [symmetric] by (auto simp: selected_def list_ex_iff assemble_plan_def)
  note ab = public_pairs_absent [OF assms(1)]
  have "ms \<noteq> []" using ab ms(2) by auto
  moreover have "\<forall>e \<in> set (plan_pairs_first no_plans) \<union> set (plan_pairs_second no_plans). check_pair ?plan e = Inr ()"
    using ab sel by (fastforce simp: check_pair_def guard_err_def)
  ultimately have "validate ?plan = Inr ()"
    using ab sel by (simp add: validate_def guard_err_def result_split assemble_plan_def plain_input_def)
  moreover have "pd_name d \<noteq> ProfPreHandover" using conjunct2 [OF b] by fastforce
  moreover have "ar_requireSingleProfile ?a = False" "ar_requireAccountPair ?a = False"
    using assms(1) by (auto simp: plan_authentication_of_def public_profiles_def profile_defs Let_def)
  ultimately have res: "resolve rt default_registry scanProfileDefinitions ?in = Inr ?plan"
    using b rl(1) ms(1) by (simp add: plain_input_checks resolve_def Let_def guard_err_def)
  have "mp_id ` set (sp_modules ?plan) = set (pd_enabledModules d)" "sp_profile ?plan = pd_name d"
    using ms(2) by (simp_all add: assemble_plan_def)
  with res show ?thesis by (intro exI [of _ ?plan] conjI)
qed

lemma public_resolution:
  "d \<in> set public_profiles \<Longrightarrow> scope_valid scope \<Longrightarrow>
   \<exists>plan. resolve rt default_registry scanProfileDefinitions (plain_input (pd_name d) scope timeout preview) = Inr plan \<and>
     mp_id ` set (sp_modules plan) = set (pd_enabledModules d)"
  using public_resolution_full by blast

text \<open>
  C34: planning succeeds. For every valid declared scope, each public built-in profile (quick, full, monitor, proof) on the
  default registry resolves to a plan without any error, and the plan has exactly the modules the profile enables.
\<close>

theorem public_profiles_resolve:
  assumes "d \<in> set public_profiles" "scope_valid scope"
  shows "\<exists>plan. resolve rt default_registry scanProfileDefinitions (plain_input (pd_name d) scope timeout preview) = Inr plan \<and>
    mp_id ` set (sp_modules plan) = set (pd_enabledModules d) \<and> sp_profile plan = pd_name d"
  using public_resolution_full [OF assms] .

lemma example_scope_valid: "scope_valid example_scope"
  by (simp add: scope_valid_def example_scope_def starts_with_def)

lemma quick_public: "profile_quick \<in> set public_profiles"
  by (simp add: public_profiles_def)

theorem public_profiles_resolve_witness:
  "\<exists>plan. resolve example_runtime default_registry scanProfileDefinitions
     (plain_input (pd_name profile_quick) example_scope (jsint 15000) (jsint 8192)) = Inr plan \<and>
   mp_id ` set (sp_modules plan) = set (pd_enabledModules profile_quick)"
  using public_profiles_resolve [OF quick_public example_scope_valid] by blast

definition quick_plan :: resolved_scan_plan where
  "quick_plan = (case resolve example_runtime default_registry scanProfileDefinitions
     (plain_input (pd_name profile_quick) example_scope (jsint 15000) (jsint 8192)) of Inr p \<Rightarrow> p | Inl _ \<Rightarrow> undefined)"

text \<open>The plan of the quick profile exists; the examples below use it.\<close>

lemma quick_plan_resolves:
  "resolve example_runtime default_registry scanProfileDefinitions
     (plain_input (pd_name profile_quick) example_scope (jsint 15000) (jsint 8192)) = Inr quick_plan \<and>
   mp_id ` set (sp_modules quick_plan) = set (pd_enabledModules profile_quick)"
proof -
  have "\<exists>plan. resolve example_runtime default_registry scanProfileDefinitions
     (plain_input (pd_name profile_quick) example_scope (jsint 15000) (jsint 8192)) = Inr plan \<and>
     mp_id ` set (sp_modules plan) = set (pd_enabledModules profile_quick)"
    by (rule public_resolution [OF quick_public example_scope_valid])
  then show ?thesis by (auto simp: quick_plan_def)
qed

lemma quick_modules:
  "pd_enabledModules profile_quick = [M_baseline, M_tech_fingerprint, M_js_intelligence, M_path_discovery, M_api_mapper,
     M_api_probe, M_auth_surface, M_parameter_analysis, M_vulnerability_workflows]"
  by (simp add: profile_quick_def)

lemma catalog_dependencies_irreflexive: "\<forall>i md. meta_of default_registry i = Some md \<longrightarrow> i \<notin> set (mm_dependencies md)"
  using catalog_constraints_rank by fastforce

theorem resolved_modules_sound_witness:
  "distinct (map mp_id (sp_modules quick_plan)) \<and>
   (\<exists>md dfn. meta_of default_registry (mp_id (sp_modules quick_plan ! 0)) = Some md \<and>
      scanProfileDefinitions (pd_name profile_quick) = Some dfn \<and>
      validateSettings example_runtime
        (setting_overrides dfn (plain_input (pd_name profile_quick) example_scope (jsint 15000) (jsint 8192)) (mp_id (sp_modules quick_plan ! 0)))
        (mm_supportedSettings md) = Inr ())"
proof -
  have named: "pi_requestedProfile (plain_input (pd_name profile_quick) example_scope (jsint 15000) (jsint 8192)) = pd_name profile_quick"
    by (simp add: plain_input_def)
  have "set (pd_enabledModules profile_quick) \<noteq> {}" by (simp add: quick_modules)
  then have "sp_modules quick_plan \<noteq> []" using conjunct2 [OF quick_plan_resolves] by (metis empty_set image_empty)
  then have "0 < length (sp_modules quick_plan)" by simp
  from resolved_modules_sound [OF conjunct1 [OF quick_plan_resolves] this catalog_dependencies_irreflexive]
  show ?thesis unfolding named by blast
qed

theorem resolved_limits_safe_witness: "js_leq (lm_maxRequests (sp_limits quick_plan)) (jsint 10000)"
  using resolved_limits_safe [OF conjunct1 [OF quick_plan_resolves]] by blast

theorem resolved_limits_within_authorization_witness:
  "js_leq (lm_rateLimitPerSecond (sp_limits quick_plan)) (sc_rateLimitPerSecond example_scope)"
  using resolved_limits_within_authorization [OF conjunct1 [OF quick_plan_resolves]] by (simp add: plain_input_def)

theorem resolved_plans_match_modules_witness:
  "M_assisted_review \<in> mp_id ` set (sp_modules quick_plan) \<longleftrightarrow> sp_assistedReview quick_plan \<noteq> None"
  using resolved_plans_match_modules [OF conjunct1 [OF quick_plan_resolves]] by blast

theorem default_ordering_total_witness:
  "\<exists>ms. orderModules default_registry (map (\<lambda>i. module_plan_for profile_quick (plain_input ProfQuick example_scope JNaN JNaN) (moduleCatalog i) i [])
       (pd_enabledModules profile_quick)) [] = Inr ms \<and> mp_id ` set ms = set (pd_enabledModules profile_quick)"
proof -
  let ?ps = "map (\<lambda>i. module_plan_for profile_quick (plain_input ProfQuick example_scope JNaN JNaN) (moduleCatalog i) i [])
       (pd_enabledModules profile_quick)"
  have ids: "map mp_id ?ps = pd_enabledModules profile_quick" by (simp add: module_plan_for_def comp_def)
  have d: "distinct (map mp_id ?ps)" unfolding ids by (simp add: quick_modules)
  obtain ms where ms: "orderModules default_registry ?ps [] = Inr ms" "set ms = set ?ps"
    using default_ordering_total [OF d] by blast
  have "mp_id ` set ms = set (map mp_id ?ps)" unfolding ms(2) by (simp only: list.set_map)
  then show ?thesis using ms(1) unfolding ids by blast
qed

section \<open>Pre-handover selection\<close>

lemma addDependencies_closed:
  "set stack \<subseteq> set (addDependencies reg stack sel) \<and> set sel \<subseteq> set (addDependencies reg stack sel) \<and>
   (\<forall>x \<in> set (addDependencies reg stack sel) - set sel. set (dependencies_of reg x) \<subseteq> set (addDependencies reg stack sel)) \<and>
   (distinct sel \<longrightarrow> distinct (addDependencies reg stack sel))"
proof (induction reg stack sel rule: addDependencies.induct)
  case (2 reg d stack sel)
  show ?case
  proof (cases "d \<in> set sel")
    case True
    then show ?thesis using 2(1) by auto
  next
    case False
    then show ?thesis using 2(2) by auto
  qed
qed simp

lemma close_selected_closed:
  assumes "\<forall>i < k. set (dependencies_of reg (sel ! i)) \<subseteq> set sel" "k \<le> length sel"
  shows "set sel \<subseteq> set (close_selected reg k sel) \<and>
    (\<forall>x \<in> set (close_selected reg k sel). set (dependencies_of reg x) \<subseteq> set (close_selected reg k sel)) \<and>
    (distinct sel \<longrightarrow> distinct (close_selected reg k sel))"
  using assms
proof (induction reg k sel rule: close_selected.induct)
  case (1 reg k sel)
  let ?s = "addDependencies reg (dependencies_of reg (sel ! k)) sel"
  note c = addDependencies_closed [of "dependencies_of reg (sel ! k)" reg sel]
  show ?case
  proof (cases "k < length sel")
    case True
    obtain xs where xs: "?s = sel @ xs" using addDependencies_grows by blast
    have "set (dependencies_of reg (?s ! i)) \<subseteq> set ?s" if "i < Suc k" for i
    proof (cases "i = k")
      case False
      then have "set (dependencies_of reg (sel ! i)) \<subseteq> set sel" using 1(2) that by auto
      then show ?thesis using c xs True that by (auto simp: nth_append)
    qed (use c xs True in \<open>auto simp: nth_append\<close>)
    moreover have "Suc k \<le> length ?s" using True xs by simp
    ultimately have "set ?s \<subseteq> set (close_selected reg (Suc k) ?s) \<and>
      (\<forall>x \<in> set (close_selected reg (Suc k) ?s). set (dependencies_of reg x) \<subseteq> set (close_selected reg (Suc k) ?s)) \<and>
      (distinct ?s \<longrightarrow> distinct (close_selected reg (Suc k) ?s))"
      using 1(1) [OF True] by blast
    moreover have "close_selected reg k sel = close_selected reg (Suc k) ?s" using True by (simp add: close_selected.simps [of reg k])
    ultimately show ?thesis using c by auto
  next
    case False
    then have "close_selected reg k sel = sel" by (simp add: close_selected.simps)
    moreover have "set (dependencies_of reg x) \<subseteq> set sel" if "x \<in> set sel" for x
      using 1(2) False that by (metis in_set_conv_nth linorder_not_le order_less_le_trans)
    ultimately show ?thesis by auto
  qed
qed

text \<open>
  For a pre-handover run the selection the planner makes is complete: the modules of the sequence, those asked
  for and the assisted review are selected, together with every module they depend on, directly or
  through others; none is selected twice and none is excluded.
\<close>

theorem handover_selection_closed:
  assumes "handover_input reg input0 = Inr input" "pi_preHandover input0 = Some h"
  shows "\<exists>sel. ov_includeModules (pi_overrides input) = Some sel \<and> distinct sel \<and>
    set (hv_sequence h) \<union> {M_assisted_review} \<union> set (or_else (ov_includeModules (pi_overrides input0)) []) \<subseteq> set sel \<and>
    (\<forall>i \<in> set sel. \<forall>md. meta_of reg i = Some md \<longrightarrow> set (mm_dependencies md) \<subseteq> set sel) \<and>
    set sel \<inter> set (ov_excludeModules (pi_overrides input)) = {} \<and> pi_assistedReview input = Some (hv_review h)"
proof -
  let ?start = "set_values (or_else (ov_includeModules (pi_overrides input0)) [] @ hv_sequence h @ [M_assisted_review])"
  let ?sel = "close_selected reg 0 ?start"
  have start: "set ?start = set (or_else (ov_includeModules (pi_overrides input0)) []) \<union> set (hv_sequence h) \<union> {M_assisted_review}"
    "distinct ?start" by (auto simp: set_values_def)
  have c: "set ?start \<subseteq> set ?sel" "\<forall>x \<in> set ?sel. set (dependencies_of reg x) \<subseteq> set ?sel" "distinct ?sel"
    using close_selected_closed [of 0 reg ?start] start(2) by simp_all
  have i: "ov_includeModules (pi_overrides input) = Some ?sel" "pi_assistedReview input = Some (hv_review h)"
    "ov_excludeModules (pi_overrides input) = ov_excludeModules (pi_overrides input0)"
    "\<forall>x \<in> set (ov_excludeModules (pi_overrides input0)). x \<notin> set ?sel"
    using assms by (auto simp: handover_input_def Let_def result_split list_ex_iff)
  have "set (mm_dependencies md) \<subseteq> set ?sel" if "x \<in> set ?sel" "meta_of reg x = Some md" for x md
  proof -
    from c(2) that(1) have "set (dependencies_of reg x) \<subseteq> set ?sel" by (rule bspec)
    then show ?thesis using that(2) by (simp add: dependencies_of_def)
  qed
  moreover have "set ?sel \<inter> set (ov_excludeModules (pi_overrides input)) = {}" using i(3,4) by auto
  moreover have "set (hv_sequence h) \<union> {M_assisted_review} \<union> set (or_else (ov_includeModules (pi_overrides input0)) []) \<subseteq> set ?sel"
    using c(1) unfolding start(1) by blast
  ultimately show ?thesis using i(1,2) c(3) by (intro exI [of _ ?sel]) blast
qed

definition example_review :: assisted_review where
  "example_review = \<lparr>arv_json = ''{}'', arv_requireVerifiedIdentity = True, arv_requireAccountPair = True, arv_cases = []\<rparr>"

definition example_handover :: planner_input where
  "example_handover = (plain_input ProfPreHandover example_scope (jsint 15000) (jsint 8192))\<lparr>pi_preHandover :=
     Some \<lparr>hv_targetOrigin = ''https://a.io'', hv_invariants = [], hv_races = [], hv_sequence = [M_proof_mode], hv_review = example_review\<rparr>\<rparr>"

theorem handover_selection_closed_witness:
  "\<exists>sel. ov_includeModules (pi_overrides (case handover_input default_registry example_handover of Inr i \<Rightarrow> i | Inl _ \<Rightarrow> example_handover)) = Some sel \<and>
     {M_proof_mode, M_assisted_review, M_vulnerability_workflows} \<subseteq> set sel"
proof -
  obtain h where h: "pi_preHandover example_handover = Some h" "hv_sequence h = [M_proof_mode]"
    by (auto simp: example_handover_def)
  have "\<exists>i. handover_input default_registry example_handover = Inr i"
    by (auto simp: handover_input_def example_handover_def plain_input_def no_overrides_def guard_err_def Let_def)
  then obtain i where i: "handover_input default_registry example_handover = Inr i" by (elim exE)
  obtain sel where sel: "ov_includeModules (pi_overrides i) = Some sel" "M_proof_mode \<in> set sel" "M_assisted_review \<in> set sel"
    "\<forall>i \<in> set sel. \<forall>md. meta_of default_registry i = Some md \<longrightarrow> set (mm_dependencies md) \<subseteq> set sel"
    using handover_selection_closed [OF i h(1)] h(2) by auto
  have "set (mm_dependencies (moduleCatalog M_proof_mode)) \<subseteq> set sel" using sel(2,4) meta_of_default by blast
  then have "M_vulnerability_workflows \<in> set sel" by (simp add: catalog_proof_mode_def)
  then show ?thesis using i sel(1,2,3) by simp
qed

section \<open>The program clamp and the cleanup reserve\<close>

text \<open>
  the check that a plan leaves capacity for ordinary requests runs before the program's clamp. Where a
  program allows no more requests than the cleanup reserve that passed the check, the clamped plan
  reserves its whole budget for cleanup, the limit validation still accepts it, and the ordinary lane has no request left.
\<close>

theorem program_clamp_empties_scan_lane:
  assumes "resolveLimits dfn input = Inr rl" "requestPolicy auth = Some p"
    "lm_cleanupReservedRequests rl = jsint c" "lm_maxRequests rl = jsint m" "c \<le> m" "pr_maxRequests p \<le> c"
  shows "lm_cleanupReservedRequests (clamp_to_program (Some auth) rl) = jsint (pr_maxRequests p) \<and>
         lm_maxRequests (clamp_to_program (Some auth) rl) = jsint (pr_maxRequests p)"
  using assms by (auto simp: clamp_to_program_def Let_def min_def split: option.splits)

definition mutation_registry :: plugin_registry where
  "mutation_registry = [(M_privilege_mutation_testing,
     \<lparr>rp_name = ''privilege-mutation-testing'', rp_metadata = catalog_privilege_mutation_testing\<rparr>)]"

definition mutation_input :: planner_input where
  "mutation_input = (plain_input ProfQuick example_scope (jsint 15000) (jsint 8192))\<lparr>
     pi_targetAuthorization := Some example_plan, pi_authProfile := Some \<lparr>ap_principalId = None, ap_proofCaseIds = None\<rparr>,
     pi_plans := no_plans\<lparr>tp_privilegeMutationTesting := Some [\<lparr>mc_caseId = ''c'', mc_verificationAttempts = 3\<rparr>]\<rparr>,
     pi_overrides := no_overrides\<lparr>ov_includeModules := Some [M_privilege_mutation_testing]\<rparr>\<rparr>"

lemma mutation_plan_accepted:
  "case resolve example_runtime mutation_registry scanProfileDefinitions mutation_input of
     Inr p \<Rightarrow> lm_cleanupReservedRequests (sp_limits p) = jsint 3 \<and> lm_maxRequests (sp_limits p) = jsint 3
   | Inl _ \<Rightarrow> False"
  by code_simp

definition mutation_limits :: scan_limits where
  "mutation_limits = (case resolveLimits profile_quick mutation_input of Inr l \<Rightarrow> l | Inl _ \<Rightarrow> undefined)"

theorem program_clamp_empties_scan_lane_witness:
  "minimumCleanupRequests mutation_input = 4 \<and>
   (case resolve example_runtime mutation_registry scanProfileDefinitions mutation_input of
      Inr p \<Rightarrow> lm_cleanupReservedRequests (sp_limits p) = jsint 3 \<and> lm_maxRequests (sp_limits p) = jsint 3
    | Inl _ \<Rightarrow> False) \<and>
   lm_cleanupReservedRequests (clamp_to_program (Some example_plan) mutation_limits) = jsint (pr_maxRequests example_program)"
proof -
  have ok: "resolveLimits profile_quick mutation_input = Inr mutation_limits"
  proof -
    have "\<not> (case resolveLimits profile_quick mutation_input of Inl _ \<Rightarrow> True | Inr _ \<Rightarrow> False)" by code_simp
    then show ?thesis by (simp add: mutation_limits_def split: sum.splits)
  qed
  have "case resolveLimits profile_quick mutation_input of
      Inr l \<Rightarrow> lm_cleanupReservedRequests l = jsint 16 \<and> lm_maxRequests l = jsint 80 | Inl _ \<Rightarrow> False" by code_simp
  then have l: "lm_cleanupReservedRequests mutation_limits = jsint 16" "lm_maxRequests mutation_limits = jsint 80"
    by (simp_all add: ok)
  have "pr_maxRequests example_program \<le> 16" by code_simp
  from program_clamp_empties_scan_lane [OF ok example_policy l _ this] mutation_plan_accepted
  have "lm_cleanupReservedRequests (clamp_to_program (Some example_plan) mutation_limits) = jsint (pr_maxRequests example_program)"
    by simp
  moreover have "minimumCleanupRequests mutation_input = 4" by code_simp
  ultimately show ?thesis using mutation_plan_accepted by blast
qed

end
