(* ===== verification/RC_MutationPolicy.thy ===== *)
theory RC_MutationPolicy
  imports RC_Url
begin

text \<open>
  Controlled mutation contracts (\<^verbatim>\<open>core/offensive/ControlledMutationTypes.ts\<close>) and their authorization
  (\<^verbatim>\<open>core/offensive/MutationPolicy.ts\<close>). \<^verbatim>\<open>JSON.parse\<close> and \<^verbatim>\<open>JSON.stringify\<close> are parameters of the model. An
  error is a safety code (\<open>Safety\<close>) or a fault of another class, which the executor rethrows.
\<close>

section \<open>JSON\<close>

datatype json = JNull | JBool bool | JNumber string | JString string | JArray "json list" | JObject "(string \<times> json) list"

record json_runtime = runtime +
  jr_parse :: "string \<Rightarrow> json option"
  jr_stringify :: "json \<Rightarrow> string"
  jr_property :: "json \<Rightarrow> string \<Rightarrow> json option option"

text \<open>\<open>jr_property\<close> is the property lookup of an object or array, own or inherited: \<open>None\<close> where \<^verbatim>\<open>segment in current\<close>
  is false, \<open>Some None\<close> for a present value that JSON cannot write (a method).\<close>

fun digit_char :: "nat \<Rightarrow> char" where
  "digit_char n = (''0123456789'' ! n)"

text \<open>\<^verbatim>\<open>String(index)\<close>.\<close>

fun show_nat :: "nat \<Rightarrow> string" where
  "show_nat n = (if n < 10 then [digit_char n] else show_nat (n div 10) @ [digit_char (n mod 10)])"

declare show_nat.simps [simp del]

definition child_path :: "string \<Rightarrow> string \<Rightarrow> string" where
  "child_path prefix key = (if prefix \<noteq> [] then prefix @ ''.'' @ key else key)"

text \<open>\<^verbatim>\<open>jsonLeaves\<close>; the two list functions are its \<^verbatim>\<open>flatMap\<close> over elements and over entries.\<close>

fun jsonLeaves :: "json \<Rightarrow> string \<Rightarrow> (string \<times> json) list"
  and leaves_from :: "nat \<Rightarrow> json list \<Rightarrow> string \<Rightarrow> (string \<times> json) list"
  and leaves_entries :: "(string \<times> json) list \<Rightarrow> string \<Rightarrow> (string \<times> json) list" where
  "jsonLeaves (JArray xs) prefix = leaves_from 0 xs prefix"
| "jsonLeaves (JObject kvs) prefix = leaves_entries kvs prefix"
| "jsonLeaves v prefix = (if prefix \<noteq> [] then [(prefix, v)] else [])"
| "leaves_from i [] prefix = []"
| "leaves_from i (x # xs) prefix = jsonLeaves x (child_path prefix (show_nat i)) @ leaves_from (Suc i) xs prefix"
| "leaves_entries [] prefix = []"
| "leaves_entries ((k, x) # kvs) prefix = jsonLeaves x (child_path prefix k) @ leaves_entries kvs prefix"

section \<open>Contracts\<close>

datatype offensive_mode = Observe | SafeActive | ControlledMutation | ControlledDeletion | LabDestructive
datatype mutation_intent = SecurityNegative | AuthorizedAcceptance | RollbackAcceptance | RecoveryAcceptance
datatype environment = EnvLocal | EnvTest | EnvStaging | EnvProduction
datatype semantic_effect = UpdateExisting | CreateDisposable | DeleteEffect
datatype assertion_operator = OpEquals | OpNotEquals | OpPresent | OpAbsent

record mutation_request =
  mr_url :: string
  mr_method :: string
  mr_body :: "string option"

text \<open>An absent \<^verbatim>\<open>expectedValue\<close> is \<^verbatim>\<open>undefined\<close>.\<close>

record mutation_assertion =
  ma_path :: string
  ma_operator :: assertion_operator
  ma_expectedValue :: "json option"

record mutation_verification =
  mv_request :: mutation_request
  mv_assertions :: "mutation_assertion list option"
  mv_matchPreStateHash :: bool
  mv_attempts :: nat
  mv_delayMs :: int

record identity_binding =
  ib_identityFingerprint :: string
  ib_path :: string
  ib_expectedValue :: "json option"

record mutation_contract =
  ct_caseId :: string
  ct_targetOrigin :: string
  ct_mode :: offensive_mode
  ct_intent :: mutation_intent
  ct_environment :: environment
  ct_productionAcknowledged :: bool
  ct_authorizedAt :: int
  ct_expiresAt :: int
  ct_actor :: "identity_binding option"
  ct_identity :: "mutation_verification option"
  ct_target :: identity_binding
  ct_attackRequest :: mutation_request
  ct_allowedFields :: "string list"
  ct_allowedValues :: "(string \<times> json list) list"
  ct_semanticEffect :: semantic_effect
  ct_precondition :: mutation_verification
  ct_impact :: mutation_verification
  ct_protectedAction :: "mutation_verification option"
  ct_rollbackRequest :: mutation_request
  ct_rollbackVerification :: mutation_verification

section \<open>Authorization\<close>

datatype mutation_error = Safety string | Fault string

text \<open>\<^verbatim>\<open>xs.some(p)\<close> for a predicate that may throw.\<close>

fun some_err :: "('a \<Rightarrow> 'e + bool) \<Rightarrow> 'a list \<Rightarrow> 'e + bool" where
  "some_err p [] = Inr False"
| "some_err p (x # xs) = ebind (p x) (\<lambda>b. if b then Inr True else some_err p xs)"

text \<open>\<^verbatim>\<open>constantTimeJsonEqual\<close>: comparing \<^verbatim>\<open>undefined\<close> throws in \<^verbatim>\<open>Buffer.from\<close>.\<close>

definition constantTimeJsonEqual :: "json_runtime \<Rightarrow> json option \<Rightarrow> json option \<Rightarrow> mutation_error + bool" where
  "constantTimeJsonEqual rt l r =
     (case (l, r) of (Some a, Some b) \<Rightarrow> Inr (jr_stringify rt a = jr_stringify rt b) | _ \<Rightarrow> Inl (Fault ''TypeError''))"

definition fingerprint :: "json_runtime \<Rightarrow> json option \<Rightarrow> mutation_error + string" where
  "fingerprint rt v = (case v of None \<Rightarrow> Inl (Fault ''TypeError'') | Some j \<Rightarrow> Inr (rt_sha256 rt (jr_stringify rt j)))"

definition validateOrigin :: "json_runtime \<Rightarrow> string \<Rightarrow> string \<Rightarrow> mutation_error + unit" where
  "validateOrigin rt targetOrigin rawUrl =
     (case (rt_newURL rt rawUrl, rt_newURL rt targetOrigin) of
        (Some u, Some t) \<Rightarrow> guard_err (url_origin u \<noteq> url_origin t) (Safety ''ENDPOINT_ORIGIN_MISMATCH'')
      | _ \<Rightarrow> Inl (Fault ''TypeError''))"

definition reconstructive :: "string \<Rightarrow> bool" where
  "reconstructive m \<longleftrightarrow> m \<in> {''POST'', ''PATCH'', ''PUT''}"

definition empty_body :: "string option \<Rightarrow> bool" where
  "empty_body b \<longleftrightarrow> b = None \<or> b = Some []"

definition validateControlledDeletion :: "mutation_contract \<Rightarrow> bool \<Rightarrow> mutation_error + unit" where
  "validateControlledDeletion c deletion =
     ebind (guard_err (\<not> deletion \<or> mr_method (ct_attackRequest c) \<noteq> ''DELETE'' \<or> ct_semanticEffect c \<noteq> DeleteEffect)
              (Safety ''DELETION_CONTRACT_MISMATCH'')) (\<lambda>_.
     ebind (guard_err (ct_environment c = EnvProduction) (Safety ''PRODUCTION_DELETION_UNAVAILABLE'')) (\<lambda>_.
     ebind (guard_err (\<not> reconstructive (mr_method (ct_rollbackRequest c)) \<or> empty_body (mr_body (ct_rollbackRequest c)))
              (Safety ''DELETION_RESTORATION_REQUIRED'')) (\<lambda>_.
     guard_err (\<not> mv_matchPreStateHash (ct_rollbackVerification c)) (Safety ''DELETION_HASH_RESTORATION_REQUIRED''))))"

definition validateControlledMutationMethods :: "mutation_contract \<Rightarrow> bool \<Rightarrow> mutation_error + unit" where
  "validateControlledMutationMethods c deletion =
     (let createCleanupDelete = (ct_semanticEffect c = CreateDisposable \<and> mr_method (ct_rollbackRequest c) = ''DELETE'') in
      ebind (guard_err deletion (Safety ''DELETION_MODE_REQUIRED'')) (\<lambda>_.
      ebind (guard_err (\<not> reconstructive (mr_method (ct_attackRequest c))) (Safety ''METHOD_NOT_MUTATING'')) (\<lambda>_.
      ebind (guard_err (\<not> reconstructive (mr_method (ct_rollbackRequest c)) \<and> \<not> createCleanupDelete)
               (Safety ''ROLLBACK_METHOD_UNAVAILABLE'')) (\<lambda>_.
      guard_err (createCleanupDelete \<and> \<not> mv_matchPreStateHash (ct_rollbackVerification c)) (Safety ''CREATE_CLEANUP_HASH_REQUIRED'')))))"

text \<open>The test that the assertions of a verification confirm an identity.\<close>

definition identity_asserted :: "json_runtime \<Rightarrow> mutation_verification \<Rightarrow> identity_binding \<Rightarrow> mutation_error + bool" where
  "identity_asserted rt v b =
     some_err (\<lambda>a. if ma_path a = ib_path b \<and> ma_operator a = OpEquals
                   then constantTimeJsonEqual rt (ma_expectedValue a) (ib_expectedValue b) else Inr False)
       (case mv_assertions v of None \<Rightarrow> [] | Some xs \<Rightarrow> xs)"

definition validateActorIdentity :: "json_runtime \<Rightarrow> mutation_contract \<Rightarrow> mutation_error + unit" where
  "validateActorIdentity rt c =
     (case (ct_actor c, ct_identity c) of
        (Some actor, Some identity) \<Rightarrow>
          ebind (fingerprint rt (ib_expectedValue actor)) (\<lambda>fp.
          ebind (constantTimeJsonEqual rt (Some (JString fp)) (Some (JString (ib_identityFingerprint actor)))) (\<lambda>same.
          ebind (guard_err (\<not> same) (Safety ''ACTOR_FINGERPRINT_MISMATCH'')) (\<lambda>_.
          ebind (identity_asserted rt identity actor) (\<lambda>ok.
          guard_err (\<not> ok) (Safety ''ACTOR_IDENTITY_NOT_VERIFIED'')))))
      | _ \<Rightarrow> Inl (Safety ''ACTOR_IDENTITY_BINDING_INCOMPLETE''))"

definition check_leaf :: "json_runtime \<Rightarrow> mutation_contract \<Rightarrow> string \<times> json \<Rightarrow> mutation_error + unit" where
  "check_leaf rt c leaf =
     ebind (guard_err (fst leaf \<notin> set (ct_allowedFields c)) (Safety ''FIELD_NOT_ALLOWED'')) (\<lambda>_.
     (case map_of (ct_allowedValues c) (fst leaf) of
        None \<Rightarrow> Inl (Safety ''VALUE_NOT_ALLOWED'')
      | Some allowed \<Rightarrow>
          guard_err (\<not> list_ex (\<lambda>candidate. jr_stringify rt candidate = jr_stringify rt (snd leaf)) allowed) (Safety ''VALUE_NOT_ALLOWED'')))"

definition validateAttackBody :: "json_runtime \<Rightarrow> mutation_contract \<Rightarrow> mutation_error + unit" where
  "validateAttackBody rt c =
     (if empty_body (mr_body (ct_attackRequest c)) then Inl (Safety ''BODY_REQUIRED'')
      else case jr_parse rt (the (mr_body (ct_attackRequest c))) of
        None \<Rightarrow> Inl (Safety ''BODY_NOT_JSON'')
      | Some body \<Rightarrow> (let leaves = jsonLeaves body [] in
          ebind (guard_err (leaves = []) (Safety ''BODY_EMPTY'')) (\<lambda>_. each_err (check_leaf rt c) leaves)))"

definition is_deletion :: "mutation_contract \<Rightarrow> bool" where
  "is_deletion c \<longleftrightarrow> mr_method (ct_attackRequest c) = ''DELETE'' \<or> ct_semanticEffect c = DeleteEffect"

text \<open>The endpoints of a contract, in the order they are checked.\<close>

definition contract_urls :: "mutation_contract \<Rightarrow> string list" where
  "contract_urls c =
     mr_url (ct_attackRequest c) # (case ct_identity c of None \<Rightarrow> [] | Some v \<Rightarrow> [mr_url (mv_request v)]) @
     [mr_url (mv_request (ct_precondition c)), mr_url (mv_request (ct_impact c)), mr_url (ct_rollbackRequest c),
      mr_url (mv_request (ct_rollbackVerification c))]"

definition authorizeControlledMutation :: "json_runtime \<Rightarrow> mutation_contract \<Rightarrow> int \<Rightarrow> mutation_error + unit" where
  "authorizeControlledMutation rt c now =
     ebind (guard_err (ct_mode c \<noteq> ControlledMutation \<and> ct_mode c \<noteq> ControlledDeletion) (Safety ''MODE_UNAVAILABLE'')) (\<lambda>_.
     ebind (guard_err (ct_expiresAt c \<le> now) (Safety ''AUTHORIZATION_EXPIRED'')) (\<lambda>_.
     ebind (guard_err (now + 60000 < ct_authorizedAt c) (Safety ''AUTHORIZATION_NOT_YET_VALID'')) (\<lambda>_.
     ebind (guard_err (ct_environment c = EnvProduction \<and> \<not> ct_productionAcknowledged c) (Safety ''PRODUCTION_NOT_ACKNOWLEDGED'')) (\<lambda>_.
     ebind (if ct_mode c = ControlledDeletion then validateControlledDeletion c (is_deletion c)
            else validateControlledMutationMethods c (is_deletion c)) (\<lambda>_.
     ebind (each_err (validateOrigin rt (ct_targetOrigin c)) (contract_urls c)) (\<lambda>_.
     ebind (guard_err (ct_environment c = EnvProduction \<and> (ct_actor c = None \<or> ct_identity c = None))
              (Safety ''ACTOR_IDENTITY_VERIFICATION_REQUIRED'')) (\<lambda>_.
     ebind (if ct_actor c \<noteq> None \<or> ct_identity c \<noteq> None then validateActorIdentity rt c else Inr ()) (\<lambda>_.
     ebind (fingerprint rt (ib_expectedValue (ct_target c))) (\<lambda>fp.
     ebind (constantTimeJsonEqual rt (Some (JString fp)) (Some (JString (ib_identityFingerprint (ct_target c))))) (\<lambda>same.
     ebind (guard_err (\<not> same) (Safety ''TARGET_FINGERPRINT_MISMATCH'')) (\<lambda>_.
     ebind (identity_asserted rt (ct_precondition c) (ct_target c)) (\<lambda>ok.
     ebind (guard_err (\<not> ok) (Safety ''TARGET_IDENTITY_NOT_VERIFIED'')) (\<lambda>_.
     if is_deletion c then Inr () else validateAttackBody rt c)))))))))))))"

section \<open>What authorization enforces\<close>

text \<open>An independent reading of a body: the scalar \<open>v\<close> lies at the segments \<open>p\<close>.\<close>

fun scalar :: "json \<Rightarrow> bool" where
  "scalar (JArray _) = False"
| "scalar (JObject _) = False"
| "scalar _ = True"

inductive scalar_at :: "json \<Rightarrow> string list \<Rightarrow> json \<Rightarrow> bool" where
  here: "scalar v \<Longrightarrow> scalar_at v [] v"
| element: "i < length xs \<Longrightarrow> scalar_at (xs ! i) p v \<Longrightarrow> scalar_at (JArray xs) (show_nat i # p) v"
| entry: "(k, x) \<in> set kvs \<Longrightarrow> scalar_at x p v \<Longrightarrow> scalar_at (JObject kvs) (k # p) v"

inductive_cases scalar_at_NilE: "scalar_at j [] v"

text \<open>
  The name that the leaf at the segments \<open>p\<close> is checked under: the segments joined by dots, where a prefix that is still
  empty contributes no dot.
\<close>

definition joined :: "string list \<Rightarrow> string" where
  "joined p = foldl child_path [] p"

lemma show_nat_ne [simp]: "show_nat n \<noteq> []"
  by (cases "n < 10") (simp_all add: show_nat.simps)

lemma leaves_from_member:
  "j < length xs \<Longrightarrow> l \<in> set (jsonLeaves (xs ! j) (child_path prefix (show_nat (i + j)))) \<Longrightarrow> l \<in> set (leaves_from i xs prefix)"
proof (induction xs arbitrary: i j)
  case (Cons x xs)
  show ?case
  proof (cases j)
    case (Suc k)
    then show ?thesis using Cons.IH [of k "Suc i"] Cons.prems by simp
  qed (use Cons.prems in simp)
qed simp

lemma leaves_entries_member:
  "(k, x) \<in> set kvs \<Longrightarrow> l \<in> set (jsonLeaves x (child_path prefix k)) \<Longrightarrow> l \<in> set (leaves_entries kvs prefix)"
  by (induction kvs) auto

lemma joined_ne: "foldl child_path prefix p \<noteq> [] \<longleftrightarrow> prefix \<noteq> [] \<or> (\<exists>s \<in> set p. s \<noteq> [])"
  by (induction p arbitrary: prefix) (auto simp: child_path_def)

lemma jsonLeaves_scalar: "scalar v \<Longrightarrow> prefix \<noteq> [] \<Longrightarrow> jsonLeaves v prefix = [(prefix, v)]"
  by (cases v) auto

lemma jsonLeaves_complete:
  "scalar_at j p v \<Longrightarrow> foldl child_path prefix p \<noteq> [] \<Longrightarrow> (foldl child_path prefix p, v) \<in> set (jsonLeaves j prefix)"
proof (induction arbitrary: prefix rule: scalar_at.induct)
  case (here v)
  then show ?case by (simp add: jsonLeaves_scalar)
next
  case (element i xs p v)
  then have "(foldl child_path prefix (show_nat i # p), v) \<in> set (jsonLeaves (xs ! i) (child_path prefix (show_nat i)))" by simp
  then show ?case using leaves_from_member [OF element.hyps(1), of _ prefix 0] by simp
next
  case (entry k x kvs p v)
  then have "(foldl child_path prefix (k # p), v) \<in> set (jsonLeaves x (child_path prefix k))" by simp
  then show ?case using leaves_entries_member [OF entry.hyps(1)] by simp
qed

lemma authorize_Inr:
  assumes "authorizeControlledMutation rt c now = Inr ()"
  shows "now < ct_expiresAt c" "ct_mode c = ControlledMutation \<or> ct_mode c = ControlledDeletion"
    "\<forall>u \<in> set (contract_urls c). validateOrigin rt (ct_targetOrigin c) u = Inr ()"
    "ct_mode c = ControlledDeletion \<Longrightarrow> validateControlledDeletion c (is_deletion c) = Inr ()"
    "ct_mode c \<noteq> ControlledDeletion \<Longrightarrow> validateControlledMutationMethods c (is_deletion c) = Inr ()"
    "\<not> is_deletion c \<Longrightarrow> validateAttackBody rt c = Inr ()"
    "identity_asserted rt (ct_precondition c) (ct_target c) = Inr True"
    "ct_environment c = EnvProduction \<Longrightarrow> ct_productionAcknowledged c \<and> ct_actor c \<noteq> None \<and> ct_identity c \<noteq> None"
  using assms by (auto simp: authorizeControlledMutation_def result_split split: if_splits)

lemma validateOrigin_Inr:
  "validateOrigin rt t u = Inr () \<longleftrightarrow> (\<exists>a b. rt_newURL rt u = Some a \<and> rt_newURL rt t = Some b \<and> url_origin a = url_origin b)"
  by (auto simp: validateOrigin_def result_split split: option.splits)

text \<open>
  C23: the exact-body rule. When a non-deleting mutation is authorized, every scalar in its JSON body that is reached
  through at least one non-empty key (or through an array index) lies at an allowed field, named as the code names it, and has
  one of the values allowed for that field. A scalar reached through empty keys alone is the exception: the code does not
  look at it (see \<open>empty_keys_unchecked\<close> below).
\<close>

theorem authorized_body_enforced:
  assumes "authorizeControlledMutation rt c now = Inr ()" "\<not> is_deletion c"
    "jr_parse rt (the (mr_body (ct_attackRequest c))) = Some body" "scalar_at body p v" "s \<in> set p" "s \<noteq> []"
  shows "joined p \<in> set (ct_allowedFields c) \<and>
    (\<exists>allowed. map_of (ct_allowedValues c) (joined p) = Some allowed \<and> (\<exists>x \<in> set allowed. jr_stringify rt x = jr_stringify rt v))"
proof -
  have "validateAttackBody rt c = Inr ()" using authorize_Inr(6) [OF assms(1,2)] .
  then have "\<forall>l \<in> set (jsonLeaves body []). check_leaf rt c l = Inr ()"
    using assms(3) by (auto simp: validateAttackBody_def Let_def result_split split: if_splits)
  moreover have "(joined p, v) \<in> set (jsonLeaves body [])"
    using jsonLeaves_complete [OF assms(4)] joined_ne [of "[]" p] assms(5,6) unfolding joined_def by blast
  ultimately have "check_leaf rt c (joined p, v) = Inr ()" by blast
  then show ?thesis by (auto simp: check_leaf_def result_split list_ex_iff split: option.splits)
qed

text \<open>
  what an authorized mutation is limited to. Its authorization has not expired, every endpoint it names has the target's
  origin, its precondition confirms the disposable target, a production contract is acknowledged and bound to an
  actor; deleting is possible only in deletion mode, outside production, with a
  reconstructing rollback verified against the pre-state hash.
\<close>

theorem authorized_mutation_bounded:
  assumes "authorizeControlledMutation rt c now = Inr ()"
  shows "now < ct_expiresAt c \<and>
    (\<forall>u \<in> set (contract_urls c). \<exists>a b. rt_newURL rt u = Some a \<and> rt_newURL rt (ct_targetOrigin c) = Some b \<and> url_origin a = url_origin b) \<and>
    identity_asserted rt (ct_precondition c) (ct_target c) = Inr True \<and>
    (ct_environment c = EnvProduction \<longrightarrow> ct_productionAcknowledged c \<and> ct_actor c \<noteq> None \<and> ct_identity c \<noteq> None \<and> \<not> is_deletion c) \<and>
    (is_deletion c \<longrightarrow> ct_mode c = ControlledDeletion \<and> mr_method (ct_attackRequest c) = ''DELETE'' \<and>
       reconstructive (mr_method (ct_rollbackRequest c)) \<and> mv_matchPreStateHash (ct_rollbackVerification c)) \<and>
    (\<not> is_deletion c \<longrightarrow> ct_mode c = ControlledMutation \<and> reconstructive (mr_method (ct_attackRequest c)))"
proof -
  note a = authorize_Inr [OF assms]
  have "ct_mode c = ControlledDeletion \<and> ct_environment c \<noteq> EnvProduction \<and> mr_method (ct_attackRequest c) = ''DELETE'' \<and>
      reconstructive (mr_method (ct_rollbackRequest c)) \<and> mv_matchPreStateHash (ct_rollbackVerification c)" if "is_deletion c"
    using a(2,4,5) that
    by (cases "ct_mode c = ControlledDeletion")
       (auto simp: validateControlledDeletion_def validateControlledMutationMethods_def result_split Let_def)
  moreover have "ct_mode c = ControlledMutation \<and> reconstructive (mr_method (ct_attackRequest c))" if "\<not> is_deletion c"
    using a(2,4,5) that
    by (auto simp: validateControlledDeletion_def validateControlledMutationMethods_def result_split Let_def)
  ultimately show ?thesis using a(1,3,7,8) unfolding validateOrigin_Inr by blast
qed

text \<open>A concrete contract and JSON runtime for the examples; the runtime knows two bodies.\<close>

definition example_json_runtime :: json_runtime where
  "example_json_runtime =
     \<lparr>rt_newURL = split_https, rt_sha256 = (\<lambda>s. replicate 64 (CHR ''0'')),
      jr_parse = (\<lambda>s. if s = ''A'' then Some (JObject [(''role'', JString ''user'')])
                      else if s = ''B'' then Some (JObject [(''role'', JString ''user''), (''grants'', JArray [])])
                      else None),
      jr_stringify = (\<lambda>j. case j of JString s \<Rightarrow> CHR 0x22 # s @ [CHR 0x22] | _ \<Rightarrow> ''other''),
      jr_property = (\<lambda>j k. case j of JObject kvs \<Rightarrow> map_option Some (map_of kvs k) | _ \<Rightarrow> None)\<rparr>"

definition example_verification :: mutation_verification where
  "example_verification = \<lparr>mv_request = \<lparr>mr_url = ''https://a.io/u/1'', mr_method = ''GET'', mr_body = None\<rparr>,
     mv_assertions = Some [\<lparr>ma_path = ''id'', ma_operator = OpEquals, ma_expectedValue = Some (JString ''1'')\<rparr>],
     mv_matchPreStateHash = True, mv_attempts = 2, mv_delayMs = 0\<rparr>"

definition example_contract :: "string \<Rightarrow> mutation_contract" where
  "example_contract body =
     \<lparr>ct_caseId = ''c1'', ct_targetOrigin = ''https://a.io'', ct_mode = ControlledMutation, ct_intent = SecurityNegative,
      ct_environment = EnvTest, ct_productionAcknowledged = False, ct_authorizedAt = 0, ct_expiresAt = 1000, ct_actor = None,
      ct_identity = None,
      ct_target = \<lparr>ib_identityFingerprint = replicate 64 (CHR ''0''), ib_path = ''id'', ib_expectedValue = Some (JString ''1'')\<rparr>,
      ct_attackRequest = \<lparr>mr_url = ''https://a.io/u/1'', mr_method = ''PATCH'', mr_body = Some body\<rparr>,
      ct_allowedFields = [''role''], ct_allowedValues = [(''role'', [JString ''user''])], ct_semanticEffect = UpdateExisting,
      ct_precondition = example_verification, ct_impact = example_verification, ct_protectedAction = None,
      ct_rollbackRequest = \<lparr>mr_url = ''https://a.io/u/1'', mr_method = ''PATCH'', mr_body = Some ''A''\<rparr>,
      ct_rollbackVerification = example_verification\<rparr>"

lemma example_contract_authorized: "authorizeControlledMutation example_json_runtime (example_contract ''A'') 5 = Inr ()"
  by code_simp

text \<open>A runtime that also knows the body \<^verbatim>\<open>{"":"x","role":"user"}\<close>.\<close>

definition empty_key_runtime :: json_runtime where
  "empty_key_runtime = example_json_runtime\<lparr>jr_parse := (\<lambda>s. if s = ''C''
     then Some (JObject [([], JString ''x''), (''role'', JString ''user'')]) else jr_parse example_json_runtime s)\<rparr>"

lemma empty_key_authorized: "authorizeControlledMutation empty_key_runtime (example_contract ''C'') 5 = Inr ()"
  by code_simp

theorem authorized_body_enforced_witness:
  "joined [''role''] \<in> set (ct_allowedFields (example_contract ''C''))"
proof -
  let ?body = "JObject [([], JString ''x''), (''role'', JString ''user'')]"
  have body: "jr_parse empty_key_runtime (the (mr_body (ct_attackRequest (example_contract ''C'')))) = Some ?body"
    by (simp add: empty_key_runtime_def example_contract_def)
  have "scalar_at ?body [''role''] (JString ''user'')"
    by (intro scalar_at.entry [where x = "JString ''user''"] scalar_at.here) simp_all
  from authorized_body_enforced [OF empty_key_authorized _ body this, of "''role''"] show ?thesis
    by (simp add: is_deletion_def example_contract_def)
qed

text \<open>
  scalars under empty keys escape the field check. At the top level of a body an entry with the empty key and a scalar value
  has no leaf, whatever the value is; the contract below allows the field \<^verbatim>\<open>role\<close> alone, and a body that also sets the field
  with the empty name is authorized.
\<close>

lemma empty_keys_unchecked:
  "(scalar v \<longrightarrow> jsonLeaves (JObject (([], v) # kvs)) [] = jsonLeaves (JObject kvs) []) \<and>
   authorizeControlledMutation empty_key_runtime (example_contract ''C'') 5 = Inr () \<and>
   scalar_at (the (jr_parse empty_key_runtime ''C'')) [[]] (JString ''x'') \<and>
   joined [[]] \<notin> set (ct_allowedFields (example_contract ''C''))"
proof (intro conjI)
  show "scalar v \<longrightarrow> jsonLeaves (JObject (([], v) # kvs)) [] = jsonLeaves (JObject kvs) []"
    by (cases v) (simp_all add: child_path_def)
  show "authorizeControlledMutation empty_key_runtime (example_contract ''C'') 5 = Inr ()" by (rule empty_key_authorized)
  show "scalar_at (the (jr_parse empty_key_runtime ''C'')) [[]] (JString ''x'')"
    by (auto simp: empty_key_runtime_def intro!: scalar_at.entry [where x = "JString ''x''"] scalar_at.here)
  show "joined [[]] \<notin> set (ct_allowedFields (example_contract ''C''))" by code_simp
qed

theorem authorized_mutation_bounded_witness: "(5::int) < ct_expiresAt (example_contract ''A'')"
  using authorized_mutation_bounded [OF example_contract_authorized] by blast

text \<open>
  an empty container escapes the field check. A body that sets a field which is not allowed to the empty array has no leaf
  there, so authorization accepts it: the contract allows \<^verbatim>\<open>role\<close> alone, the accepted body also sets \<^verbatim>\<open>grants\<close>.
\<close>

theorem empty_container_unchecked:
  "authorizeControlledMutation example_json_runtime (example_contract ''B'') 5 = Inr () \<and>
   jr_parse example_json_runtime ''B'' = Some (JObject [(''role'', JString ''user''), (''grants'', JArray [])]) \<and>
   ''grants'' \<notin> set (ct_allowedFields (example_contract ''B''))"
proof (intro conjI)
  show "authorizeControlledMutation example_json_runtime (example_contract ''B'') 5 = Inr ()" by code_simp
  show "jr_parse example_json_runtime ''B'' = Some (JObject [(''role'', JString ''user''), (''grants'', JArray [])])" by code_simp
  show "''grants'' \<notin> set (ct_allowedFields (example_contract ''B''))" by code_simp
qed

text \<open>
  the protected action is not part of the origin check. Authorization never reads the protected-action verification of a
  contract, whatever endpoint it names, although the executor sends it like the other verifications.
\<close>

theorem protected_action_unchecked:
  "authorizeControlledMutation rt (c\<lparr>ct_protectedAction := v\<rparr>) now = authorizeControlledMutation rt c now"
proof -
  let ?c = "c\<lparr>ct_protectedAction := v\<rparr>"
  have parts: "is_deletion ?c = is_deletion c" "contract_urls ?c = contract_urls c"
    "validateControlledDeletion ?c = validateControlledDeletion c"
    "validateControlledMutationMethods ?c = validateControlledMutationMethods c"
    "validateActorIdentity rt ?c = validateActorIdentity rt c"
    by (auto simp: is_deletion_def contract_urls_def validateControlledDeletion_def validateControlledMutationMethods_def
        validateActorIdentity_def fun_eq_iff)
  have leaf: "check_leaf rt ?c = check_leaf rt c" by (simp add: check_leaf_def fun_eq_iff)
  have body: "validateAttackBody rt ?c = validateAttackBody rt c" unfolding validateAttackBody_def leaf by simp
  show ?thesis unfolding authorizeControlledMutation_def parts body by simp
qed

end
