(* ===== verification/RC_Mutation.thy ===== *)
theory RC_Mutation
  imports RC_MutationPolicy
begin

text \<open>
  Controlled mutation with its durable journal: \<^verbatim>\<open>core/offensive/MutationJournal.ts\<close> (the journal, its cleanup obligations and
  the check of the global lock), the bundles of \<^verbatim>\<open>MutationRecoveryVault.ts\<close>, and
  \<^verbatim>\<open>ControlledMutationExecutor.ts\<close> (\<open>execute\<close>, \<open>recover\<close>, \<open>rollback\<close>, \<open>verify\<close>).
  The executor runs against a world that may fail or crash at every step; the lemmas show that
  a target that may have been changed is never forgotten.
\<close>

section \<open>The journal\<close>

datatype journal_stage =
    StAuthorized | StActorIdentityVerified | StTargetIdentityVerified | StPreStateCaptured | StMutationArmed | StMutationSent
  | StImpactVerified | StRollbackSent | StRollbackVerified | StCleanupRequired | StCleanupFailed | StSealed

text \<open>An entry by the fields that a decision reads; method, URL and hashes are audit data.\<close>

record journal_entry =
  je_sequence :: nat
  je_caseId :: string
  je_stage :: journal_stage

definition cleanupObligationStages :: "journal_stage list" where
  "cleanupObligationStages =
     [StMutationArmed, StMutationSent, StImpactVerified, StRollbackSent, StCleanupRequired, StCleanupFailed]"

definition case_id_valid :: "string \<Rightarrow> bool" where
  "case_id_valid s \<longleftrightarrow> len_between 1 200 s \<and>
     list_all (\<lambda>c. c \<in> set ''ABCDEFGHIJKLMNOPQRSTUVWXYZabcdefghijklmnopqrstuvwxyz0123456789._-'') s"

definition journal_valid :: "journal_entry list \<Rightarrow> bool" where
  "journal_valid es \<longleftrightarrow> list_all (\<lambda>(i, e). je_sequence e = Suc i \<and> case_id_valid (je_caseId e)) (zip [0..<length es] es)"

definition journal_read :: "journal_entry list \<Rightarrow> string + journal_entry list" where
  "journal_read es = (if journal_valid es then Inr es else Inl ''MUTATION_JOURNAL_INVALID'')"

definition journal_append :: "string \<Rightarrow> journal_stage \<Rightarrow> journal_entry list \<Rightarrow> journal_entry list" where
  "journal_append c st es = es @ [\<lparr>je_sequence = length es + 1, je_caseId = c, je_stage = st\<rparr>]"

text \<open>\<^verbatim>\<open>latest\<close>: a map keyed by case id, filled in journal order.\<close>

definition latest :: "journal_entry list \<Rightarrow> (string \<times> journal_entry) list" where
  "latest es = fold (\<lambda>e. js_map_set (je_caseId e) e) es []"

definition latest_stage :: "journal_entry list \<Rightarrow> string \<Rightarrow> journal_stage option" where
  "latest_stage es c = map_option je_stage (map_of (latest es) c)"

definition unresolvedCaseIds :: "journal_entry list \<Rightarrow> string list" where
  "unresolvedCaseIds es = map je_caseId (filter (\<lambda>e. je_stage e \<in> set cleanupObligationStages) (map snd (latest es)))"

text \<open>A journal directory: its journal and the case ids of its \<^verbatim>\<open>.recovery.enc\<close> files.\<close>

record mutation_dir =
  md_journal :: "journal_entry list"
  md_bundles :: "string list"

text \<open>What acquiring the global lock for new work checks of each directory.\<close>

definition directory_clear :: "mutation_dir \<Rightarrow> string + unit" where
  "directory_clear d =
     ebind (journal_read (md_journal d)) (\<lambda>es.
     ebind (guard_err (list_ex (\<lambda>(_, e). je_stage e \<in> set cleanupObligationStages) (latest es)) ''UNRESOLVED_PRIOR_CLEANUP'') (\<lambda>_.
     guard_err (list_ex (\<lambda>f. latest_stage es f \<noteq> Some StRollbackVerified) (md_bundles d)) ''UNRESOLVED_RECOVERY_CHECKPOINT''))"

definition lock_check :: "bool \<Rightarrow> mutation_dir list \<Rightarrow> string + unit" where
  "lock_check recovery dirs = (if recovery then Inr () else each_err directory_clear dirs)"

section \<open>The world of an execution\<close>

datatype send_kind = AttackSend | RollbackSend | VerifySend

datatype mutation_io =
    IoLock bool | IoRelease | IoRead | IoAppend journal_stage | IoSeal | IoRemove | IoSend send_kind | IoSleep | IoBrowser

text \<open>What the code reads of a response: error, status, body hash and the parsed analysis body.\<close>

record mutation_response =
  rs_failed :: bool
  rs_status :: "int option"
  rs_bodyHash :: "string option"
  rs_json :: "json option"

text \<open>The browser observer answers whether a proof is configured and whether it matched.\<close>

datatype reply = ReplyOk mutation_response | ReplyBrowser bool bool | ReplyFailBefore | ReplyFailAfter

text \<open>
  The world keeps the journal directory of the executor, the directories that the lock checks (the journal directory
  among them when \<open>wd_registered\<close>), the answers still to come and the trace of operations that took effect, each with its case.
  An operation takes the next answer: it is done, it fails before or after taking effect, or, when no answer is
  left, the process ends there.
\<close>

record world =
  wd_dir :: mutation_dir
  wd_registered :: bool
  wd_others :: "mutation_dir list"
  wd_replies :: "reply list"
  wd_trace :: "(string \<times> mutation_io) list"

datatype 'a outcome = Done 'a | Thrown | Crashed

type_synonym 'a exec = "world \<Rightarrow> 'a outcome \<times> world"

definition ret :: "'a \<Rightarrow> 'a exec" where
  "ret x w = (Done x, w)"

definition throw_error :: "'a exec" where
  "throw_error w = (Thrown, w)"

definition seq_exec :: "'a exec \<Rightarrow> ('a \<Rightarrow> 'b exec) \<Rightarrow> 'b exec" where
  "seq_exec m f w = (case m w of (Done x, w') \<Rightarrow> f x w' | (Thrown, w') \<Rightarrow> (Thrown, w') | (Crashed, w') \<Rightarrow> (Crashed, w'))"

text \<open>
  \<^verbatim>\<open>try { m } catch { h }\<close>, \<^verbatim>\<open>try { m } finally { f }\<close>, and one statement \<open>m\<close> of a \<^verbatim>\<open>try\<close> block with the rest \<open>k\<close> of the
  block and its handler \<open>h\<close>, which sees the variables assigned so far; nothing runs after a crash.
\<close>

definition catch_exec :: "'a exec \<Rightarrow> 'a exec \<Rightarrow> 'a exec" where
  "catch_exec m h w = (case m w of (Thrown, w') \<Rightarrow> h w' | r \<Rightarrow> r)"

definition finally_exec :: "'a exec \<Rightarrow> 'b exec \<Rightarrow> 'a exec" where
  "finally_exec m f w =
     (case m w of
        (Done x, w') \<Rightarrow> seq_exec f (\<lambda>_. ret x) w'
      | (Thrown, w') \<Rightarrow> seq_exec f (\<lambda>_. throw_error) w'
      | (Crashed, w') \<Rightarrow> (Crashed, w'))"

definition try_step :: "'b exec \<Rightarrow> 'a exec \<Rightarrow> ('a \<Rightarrow> 'b exec) \<Rightarrow> 'b exec" where
  "try_step h m k w = (case m w of (Done x, w') \<Rightarrow> k x w' | (Thrown, w') \<Rightarrow> h w' | (Crashed, w') \<Rightarrow> (Crashed, w'))"

text \<open>A value of the sum type of errors as an execution that throws.\<close>

definition lift_err :: "'e + 'a \<Rightarrow> 'a exec" where
  "lift_err r = (case r of Inl _ \<Rightarrow> throw_error | Inr x \<Rightarrow> ret x)"

definition dir_effect :: "string \<Rightarrow> mutation_io \<Rightarrow> mutation_dir \<Rightarrow> mutation_dir" where
  "dir_effect c op d =
     (case op of
        IoAppend st \<Rightarrow> d\<lparr>md_journal := journal_append c st (md_journal d)\<rparr>
      | IoSeal \<Rightarrow> d\<lparr>md_bundles := List.insert c (md_bundles d)\<rparr>
      | IoRemove \<Rightarrow> d\<lparr>md_bundles := removeAll c (md_bundles d)\<rparr>
      | _ \<Rightarrow> d)"

definition io_effect :: "string \<Rightarrow> mutation_io \<Rightarrow> world \<Rightarrow> world" where
  "io_effect c op w = w\<lparr>wd_dir := dir_effect c op (wd_dir w), wd_trace := wd_trace w @ [(c, op)]\<rparr>"

definition no_response :: mutation_response where
  "no_response = \<lparr>rs_failed = True, rs_status = None, rs_bodyHash = None, rs_json = None\<rparr>"

text \<open>
  What an operation refuses before it has any effect: the lock checks the directories, an append and a read of the journal
  validate it, sealing a bundle validates the case id.
\<close>

definition io_refused :: "string \<Rightarrow> mutation_io \<Rightarrow> world \<Rightarrow> bool" where
  "io_refused c op w =
     (case op of
        IoLock recovery \<Rightarrow> lock_check recovery ((if wd_registered w then [wd_dir w] else []) @ wd_others w) \<noteq> Inr ()
      | IoRead \<Rightarrow> \<not> journal_valid (md_journal (wd_dir w))
      | IoAppend _ \<Rightarrow> \<not> journal_valid (md_journal (wd_dir w))
      | IoSeal \<Rightarrow> \<not> case_id_valid c
      | _ \<Rightarrow> False)"

definition perform :: "string \<Rightarrow> mutation_io \<Rightarrow> reply exec" where
  "perform c op w =
     (case wd_replies w of
        [] \<Rightarrow> (Crashed, w)
      | r # rs \<Rightarrow> (let w1 = w\<lparr>wd_replies := rs\<rparr> in
          if io_refused c op w \<or> r = ReplyFailBefore then (Thrown, w1)
          else if r = ReplyFailAfter then (Thrown, io_effect c op w1)
          else (Done r, io_effect c op w1)))"

definition response_of :: "reply \<Rightarrow> mutation_response" where
  "response_of r = (case r of ReplyOk x \<Rightarrow> x | _ \<Rightarrow> no_response)"

definition send :: "string \<Rightarrow> send_kind \<Rightarrow> mutation_response exec" where
  "send c k = seq_exec (perform c (IoSend k)) (\<lambda>r. ret (response_of r))"

definition append_entry :: "string \<Rightarrow> journal_stage \<Rightarrow> unit exec" where
  "append_entry c st = seq_exec (perform c (IoAppend st)) (\<lambda>_. ret ())"

text \<open>\<^verbatim>\<open>vault.remove\<close> keeps the file when evidence is retained and ignores a failing unlink.\<close>

definition vault_remove :: "bool \<Rightarrow> string \<Rightarrow> unit exec" where
  "vault_remove retain c =
     (if retain then ret () else catch_exec (seq_exec (perform c IoRemove) (\<lambda>_. ret ())) (ret ()))"

section \<open>Verification\<close>

fun valueAt :: "json_runtime \<Rightarrow> json option \<Rightarrow> string list \<Rightarrow> json option option" where
  "valueAt rt current [] = Some current"
| "valueAt rt current (segment # rest) =
     (case current of
        Some (JArray xs) \<Rightarrow> Option.bind (jr_property rt (JArray xs) segment) (\<lambda>v. valueAt rt v rest)
      | Some (JObject kvs) \<Rightarrow> Option.bind (jr_property rt (JObject kvs) segment) (\<lambda>v. valueAt rt v rest)
      | _ \<Rightarrow> None)"

definition assertion_holds :: "json_runtime \<Rightarrow> json \<Rightarrow> mutation_assertion \<Rightarrow> bool" where
  "assertion_holds rt body a =
     (let lookup = valueAt rt (Some body) (split_on (CHR ''.'') (ma_path a)) in
      case ma_operator a of
        OpPresent \<Rightarrow> lookup \<noteq> None
      | OpAbsent \<Rightarrow> lookup = None
      | OpEquals \<Rightarrow> (case lookup of None \<Rightarrow> False | Some v \<Rightarrow> map_option (jr_stringify rt) v = map_option (jr_stringify rt) (ma_expectedValue a))
      | OpNotEquals \<Rightarrow> (case lookup of None \<Rightarrow> False | Some v \<Rightarrow> map_option (jr_stringify rt) v \<noteq> map_option (jr_stringify rt) (ma_expectedValue a)))"

definition assertionsMatch :: "json_runtime \<Rightarrow> mutation_response \<Rightarrow> mutation_assertion list \<Rightarrow> bool" where
  "assertionsMatch rt r as = (case rs_json r of None \<Rightarrow> False | Some body \<Rightarrow> list_all (assertion_holds rt body) as)"

definition response_matches :: "json_runtime \<Rightarrow> mutation_verification \<Rightarrow> string option \<Rightarrow> mutation_response \<Rightarrow> bool" where
  "response_matches rt v preStateHash r \<longleftrightarrow>
     \<not> rs_failed r \<and>
     (case mv_assertions v of None \<Rightarrow> True | Some as \<Rightarrow> assertionsMatch rt r as) \<and>
     (mv_matchPreStateHash v \<longrightarrow> preStateHash \<noteq> None \<and> preStateHash \<noteq> Some [] \<and> rs_bodyHash r = preStateHash)"

text \<open>The polling loop; \<open>left\<close> counts the attempts after this one.\<close>

fun verify_poll :: "json_runtime \<Rightarrow> string \<Rightarrow> mutation_verification \<Rightarrow> string option \<Rightarrow> nat \<Rightarrow> mutation_response \<Rightarrow> (bool \<times> mutation_response) exec" where
  "verify_poll rt c v h left r =
     (if response_matches rt v h r then ret (True, r)
      else case left of
        0 \<Rightarrow> ret (False, r)
      | Suc n \<Rightarrow> seq_exec (perform c IoSleep) (\<lambda>_. seq_exec (send c VerifySend) (verify_poll rt c v h n)))"

declare verify_poll.simps [simp del]

definition verify :: "json_runtime \<Rightarrow> string \<Rightarrow> mutation_verification \<Rightarrow> string option \<Rightarrow> (bool \<times> mutation_response) exec" where
  "verify rt c v h =
     seq_exec (send c VerifySend) (\<lambda>r. if mv_attempts v = 0 then ret (False, r) else verify_poll rt c v h (mv_attempts v - 1) r)"

section \<open>The executor\<close>

datatype security_outcome =
    ExploitProven | SecureForCase | ExpectedMutationVerified | ExpectedMutationRejected | Inconclusive | BlockedBySafety
datatype cleanup_outcome = RollbackVerified | CleanupFailed | NotRequired

datatype mutation_outcome = OfSecurity security_outcome | OfCleanup cleanup_outcome

record mutation_result =
  er_outcome :: mutation_outcome
  er_security :: security_outcome
  er_cleanup :: cleanup_outcome

definition simple_result :: "security_outcome \<Rightarrow> mutation_result" where
  "simple_result s = \<lparr>er_outcome = OfSecurity s, er_security = s, er_cleanup = NotRequired\<rparr>"

definition rejected :: "mutation_response \<Rightarrow> bool" where
  "rejected r \<longleftrightarrow> (case rs_status r of None \<Rightarrow> False | Some s \<Rightarrow> s \<in> {400, 401, 403, 404, 405, 409, 422})"

definition impact_outcome :: "mutation_intent \<Rightarrow> bool \<Rightarrow> mutation_response \<Rightarrow> security_outcome" where
  "impact_outcome intent matched attack =
     (if matched then (if intent = SecurityNegative then ExploitProven else ExpectedMutationVerified)
      else if rejected attack then (if intent = SecurityNegative then SecureForCase else ExpectedMutationRejected)
      else Inconclusive)"

text \<open>An observer's answer, \<open>None\<close> without an observer or where no proof is configured.\<close>

definition browser_proof :: "bool \<Rightarrow> string \<Rightarrow> bool option exec" where
  "browser_proof observer c =
     (if observer
      then seq_exec (perform c IoBrowser)
             (\<lambda>r. ret (case r of ReplyBrowser configured matched \<Rightarrow> if configured then Some matched else None | _ \<Rightarrow> None))
      else ret None)"

record executor_options =
  eo_retain :: bool
  eo_observer :: bool

definition rollback :: "json_runtime \<Rightarrow> executor_options \<Rightarrow> mutation_contract \<Rightarrow> string option \<Rightarrow> cleanup_outcome exec" where
  "rollback rt opt ct preStateHash = (let c = ct_caseId ct in
     seq_exec (send c RollbackSend) (\<lambda>_.
     seq_exec (append_entry c StRollbackSent) (\<lambda>_.
     seq_exec (verify rt c (ct_rollbackVerification ct) preStateHash) (\<lambda>(matched, _).
     seq_exec (browser_proof (eo_observer opt) c) (\<lambda>proof.
     if matched \<and> proof \<noteq> Some False
     then seq_exec (append_entry c StRollbackVerified) (\<lambda>_. seq_exec (vault_remove (eo_retain opt) c) (\<lambda>_. ret RollbackVerified))
     else seq_exec (append_entry c StCleanupFailed) (\<lambda>_. ret CleanupFailed))))))"

text \<open>
  The steps before arming. \<open>None\<close> is one of the early returns with a sealed journal and nothing sent;
  otherwise the value is the hash of the pre-state.
\<close>

definition prepare_phase :: "json_runtime \<Rightarrow> mutation_contract \<Rightarrow> string option exec" where
  "prepare_phase rt ct = (let c = ct_caseId ct in
     seq_exec (append_entry c StAuthorized) (\<lambda>_.
     seq_exec (case ct_identity ct of
                 None \<Rightarrow> ret True
               | Some v \<Rightarrow> seq_exec (verify rt c v None) (\<lambda>(matched, r).
                   if matched \<and> rs_bodyHash r \<noteq> None \<and> rs_bodyHash r \<noteq> Some []
                   then seq_exec (append_entry c StActorIdentityVerified) (\<lambda>_. ret True) else ret False)) (\<lambda>actorOk.
     if \<not> actorOk then seq_exec (append_entry c StSealed) (\<lambda>_. ret None)
     else seq_exec (verify rt c (ct_precondition ct) None) (\<lambda>(matched, r).
       if \<not> matched \<or> rs_bodyHash r = None \<or> rs_bodyHash r = Some []
       then seq_exec (append_entry c StSealed) (\<lambda>_. ret None)
       else seq_exec (append_entry c StTargetIdentityVerified) (\<lambda>_.
            seq_exec (append_entry c StPreStateCaptured) (\<lambda>_. ret (rs_bodyHash r)))))))"

text \<open>The handler of the outer \<^verbatim>\<open>catch\<close> once the mutation is armed, for the security outcome assigned so far.\<close>

definition cleanup_after :: "json_runtime \<Rightarrow> executor_options \<Rightarrow> mutation_contract \<Rightarrow> string option \<Rightarrow> security_outcome \<Rightarrow> mutation_result exec" where
  "cleanup_after rt opt ct h s =
     seq_exec (catch_exec (rollback rt opt ct h) (ret CleanupFailed)) (\<lambda>cleanup.
     ret \<lparr>er_outcome = OfCleanup cleanup, er_security = s, er_cleanup = cleanup\<rparr>)"

definition finish :: "security_outcome \<Rightarrow> cleanup_outcome \<Rightarrow> mutation_result" where
  "finish s cleanup =
     \<lparr>er_outcome = (if cleanup = RollbackVerified then OfSecurity s else OfCleanup cleanup), er_security = s, er_cleanup = cleanup\<rparr>"

text \<open>The verification of the protected action and of the browser proof, which can only withdraw the outcome.\<close>

definition protected_check :: "json_runtime \<Rightarrow> mutation_contract \<Rightarrow> security_outcome \<Rightarrow> security_outcome exec" where
  "protected_check rt ct s =
     (case ct_protectedAction ct of
        None \<Rightarrow> ret s
      | Some v \<Rightarrow> seq_exec (verify rt (ct_caseId ct) v None) (\<lambda>(matched, _). ret (if matched then s else Inconclusive)))"

definition browser_check :: "executor_options \<Rightarrow> mutation_contract \<Rightarrow> security_outcome \<Rightarrow> security_outcome exec" where
  "browser_check opt ct s =
     seq_exec (browser_proof (eo_observer opt) (ct_caseId ct)) (\<lambda>proof. ret (if proof = Some False then Inconclusive else s))"

text \<open>The statements of the \<^verbatim>\<open>try\<close> block from the first request of the attack on.\<close>

definition run_armed :: "json_runtime \<Rightarrow> executor_options \<Rightarrow> mutation_contract \<Rightarrow> string option \<Rightarrow> mutation_result exec" where
  "run_armed rt opt ct h = (let c = ct_caseId ct; H = cleanup_after rt opt ct h in
     try_step (H Inconclusive) (send c AttackSend) (\<lambda>attack.
     try_step (H Inconclusive) (append_entry c StMutationSent) (\<lambda>_.
     try_step (H Inconclusive) (verify rt c (ct_impact ct) None) (\<lambda>(matched, _).
     let s1 = impact_outcome (ct_intent ct) matched attack in
     try_step (H s1) (append_entry c StImpactVerified) (\<lambda>_.
     try_step (H s1) (protected_check rt ct s1) (\<lambda>s2.
     try_step (H s2) (browser_check opt ct s2) (\<lambda>s3.
     try_step (H s3) (rollback rt opt ct h) (\<lambda>cleanup. ret (finish s3 cleanup)))))))))"

definition seal_inconclusive :: "mutation_contract \<Rightarrow> mutation_result exec" where
  "seal_inconclusive ct = seq_exec (append_entry (ct_caseId ct) StSealed) (\<lambda>_. ret (simple_result Inconclusive))"

text \<open>\<open>arm\<close> tells whether the steps up to the durable \<open>StMutationArmed\<close> entry completed, and with which pre-state.\<close>

datatype arm_result = Blocked | Stopped | Armed "string option"

definition read_unresolved :: "string \<Rightarrow> string list exec" where
  "read_unresolved c = seq_exec (perform c IoRead) (\<lambda>_ w. (Done (unresolvedCaseIds (md_journal (wd_dir w))), w))"

definition arm :: "json_runtime \<Rightarrow> mutation_contract \<Rightarrow> arm_result exec" where
  "arm rt ct =
     seq_exec (read_unresolved (ct_caseId ct)) (\<lambda>pending.
     if pending \<noteq> [] then ret Blocked
     else seq_exec (prepare_phase rt ct) (\<lambda>pre.
       case pre of
         None \<Rightarrow> ret Stopped
       | Some h \<Rightarrow>
           seq_exec (perform (ct_caseId ct) IoSeal) (\<lambda>_.
           seq_exec (append_entry (ct_caseId ct) StMutationArmed) (\<lambda>_. ret (Armed (Some h))))))"

definition execute_locked :: "json_runtime \<Rightarrow> executor_options \<Rightarrow> mutation_contract \<Rightarrow> mutation_result exec" where
  "execute_locked rt opt ct =
     try_step (seal_inconclusive ct) (arm rt ct) (\<lambda>a.
       case a of
         Blocked \<Rightarrow> ret (simple_result BlockedBySafety)
       | Stopped \<Rightarrow> ret (simple_result Inconclusive)
       | Armed h \<Rightarrow> run_armed rt opt ct h)"

definition execute :: "json_runtime \<Rightarrow> executor_options \<Rightarrow> mutation_contract \<Rightarrow> int \<Rightarrow> mutation_result exec" where
  "execute rt opt ct now = (let c = ct_caseId ct in
     case authorizeControlledMutation rt ct now of
       Inl (Fault _) \<Rightarrow> throw_error
     | Inl (Safety _) \<Rightarrow>
         seq_exec (finally_exec (catch_exec (seq_exec (perform c (IoLock False)) (\<lambda>_. append_entry c StSealed)) (ret ())) (perform c IoRelease))
           (\<lambda>_. ret (simple_result BlockedBySafety))
     | Inr _ \<Rightarrow>
         seq_exec (catch_exec (seq_exec (perform c (IoLock False)) (\<lambda>_. ret True)) (ret False)) (\<lambda>locked.
           if locked then finally_exec (execute_locked rt opt ct) (perform c IoRelease)
           else ret (simple_result BlockedBySafety)))"

section \<open>Recovery\<close>

text \<open>A decrypted bundle, by the fields that \<^verbatim>\<open>recover\<close> reads.\<close>

record recovery_bundle =
  rb_caseId :: string
  rb_targetOrigin :: string
  rb_targetIdentityFingerprint :: "string option"
  rb_authorizationExpiresAt :: "int option"
  rb_actorBinding :: "identity_binding option"
  rb_actorIdentityVerification :: "mutation_verification option"
  rb_targetIdentityVerification :: "mutation_verification option"
  rb_rollbackRequest :: mutation_request
  rb_rollbackVerification :: mutation_verification
  rb_preStateHash :: "string option"

definition recovery_origin :: "json_runtime \<Rightarrow> recovery_bundle \<Rightarrow> string \<Rightarrow> mutation_error + unit" where
  "recovery_origin rt b raw =
     (case rt_newURL rt raw of
        None \<Rightarrow> Inl (Fault ''TypeError'')
      | Some u \<Rightarrow> guard_err (url_origin u \<noteq> rb_targetOrigin b) (Safety ''RECOVERY_ORIGIN_MISMATCH''))"

definition opt_url :: "mutation_verification option \<Rightarrow> string list" where
  "opt_url v = (case v of None \<Rightarrow> [] | Some x \<Rightarrow> [mr_url (mv_request x)])"

text \<open>The checks before the lock is taken.\<close>

definition recovery_binding :: "json_runtime \<Rightarrow> recovery_bundle \<Rightarrow> string \<Rightarrow> int \<Rightarrow> mutation_error + unit" where
  "recovery_binding rt b caseId now =
     ebind (guard_err (rb_caseId b \<noteq> caseId) (Safety ''RECOVERY_CASE_MISMATCH'')) (\<lambda>_.
     ebind (guard_err (case rb_authorizationExpiresAt b of None \<Rightarrow> False | Some t \<Rightarrow> t \<le> now) (Safety ''RECOVERY_AUTHORIZATION_EXPIRED'')) (\<lambda>_.
     ebind (recovery_origin rt b (mr_url (rb_rollbackRequest b))) (\<lambda>_.
     ebind (each_err (recovery_origin rt b)
              (opt_url (rb_actorIdentityVerification b) @ opt_url (rb_targetIdentityVerification b) @
               [mr_url (mv_request (rb_rollbackVerification b))])) (\<lambda>_.
     guard_err (rb_actorBinding b \<noteq> None \<and> rb_actorIdentityVerification b = None) (Safety ''RECOVERY_ACTOR_BINDING_INCOMPLETE'')))))"

definition recovered :: "cleanup_outcome \<Rightarrow> mutation_result" where
  "recovered cleanup = \<lparr>er_outcome = OfCleanup cleanup, er_security = Inconclusive, er_cleanup = cleanup\<rparr>"

definition recoveryBindingFailure :: "string \<Rightarrow> mutation_result exec" where
  "recoveryBindingFailure c = seq_exec (append_entry c StCleanupFailed) (\<lambda>_. ret (recovered CleanupFailed))"

text \<open>The two identity checks: whether the recovery may go on.\<close>

definition recover_actor :: "json_runtime \<Rightarrow> recovery_bundle \<Rightarrow> bool exec" where
  "recover_actor rt b = (let c = rb_caseId b in
     case (rb_actorBinding b, rb_actorIdentityVerification b) of
       (Some actor, Some v) \<Rightarrow>
         seq_exec (verify rt c v None) (\<lambda>(matched, _).
         seq_exec (lift_err (fingerprint rt (ib_expectedValue actor))) (\<lambda>fp.
         if \<not> matched \<or> fp \<noteq> ib_identityFingerprint actor then ret False
         else seq_exec (append_entry c StActorIdentityVerified) (\<lambda>_. ret True)))
     | _ \<Rightarrow> ret True)"

definition recover_target :: "json_runtime \<Rightarrow> recovery_bundle \<Rightarrow> bool exec" where
  "recover_target rt b = (let c = rb_caseId b in
     case rb_targetIdentityVerification b of
       None \<Rightarrow> ret True
     | Some v \<Rightarrow>
         seq_exec (verify rt c v None) (\<lambda>(matched, _).
         case find (\<lambda>a. ma_operator a = OpEquals) (case mv_assertions v of None \<Rightarrow> [] | Some as \<Rightarrow> as) of
           None \<Rightarrow> ret False
         | Some a \<Rightarrow>
             if \<not> matched \<or> rb_targetIdentityFingerprint b = None \<or> rb_targetIdentityFingerprint b = Some [] then ret False
             else seq_exec (lift_err (fingerprint rt (ma_expectedValue a))) (\<lambda>fp.
               if Some fp \<noteq> rb_targetIdentityFingerprint b then ret False
               else seq_exec (append_entry c StTargetIdentityVerified) (\<lambda>_. ret True))))"

definition recover_rollback :: "json_runtime \<Rightarrow> bool \<Rightarrow> recovery_bundle \<Rightarrow> mutation_result exec" where
  "recover_rollback rt retain b = (let c = rb_caseId b in
     seq_exec (send c RollbackSend) (\<lambda>_.
     seq_exec (append_entry c StRollbackSent) (\<lambda>_.
     seq_exec (verify rt c (rb_rollbackVerification b) (rb_preStateHash b)) (\<lambda>(matched, _).
     if matched
     then seq_exec (append_entry c StRollbackVerified) (\<lambda>_. seq_exec (vault_remove retain c) (\<lambda>_. ret (recovered RollbackVerified)))
     else seq_exec (append_entry c StCleanupFailed) (\<lambda>_. ret (recovered CleanupFailed))))))"

text \<open>\<open>opened\<close> is what \<^verbatim>\<open>vault.open\<close> decrypts from the case's bundle file, \<open>None\<close> where it throws.\<close>

definition recover :: "json_runtime \<Rightarrow> executor_options \<Rightarrow> recovery_bundle option \<Rightarrow> string \<Rightarrow> int \<Rightarrow> mutation_result exec" where
  "recover rt opt opened caseId now =
     (case opened of
        None \<Rightarrow> throw_error
      | Some b \<Rightarrow>
          seq_exec (lift_err (recovery_binding rt b caseId now)) (\<lambda>_.
          seq_exec (perform caseId (IoLock True)) (\<lambda>_.
          finally_exec
            (seq_exec (recover_actor rt b) (\<lambda>actorOk.
             if \<not> actorOk then recoveryBindingFailure caseId
             else seq_exec (recover_target rt b) (\<lambda>targetOk.
               if \<not> targetOk then recoveryBindingFailure caseId else recover_rollback rt (eo_retain opt) b)))
            (perform caseId IoRelease))))"

section \<open>The other readers of an obligation\<close>

text \<open>
  \<^verbatim>\<open>readDirectoryStatus\<close> of \<^verbatim>\<open>MutationCleanupStatus.ts\<close> (case id and stage of each listed case, \<open>None\<close> for
  \<^verbatim>\<open>MUTATION_STATE_UNCERTAIN\<close>) and one directory of \<^verbatim>\<open>distributedReleaseState\<close>. The first reads only the bundle files whose
  case id has the expected characters.
\<close>

definition bundle_name_valid :: "string \<Rightarrow> bool" where
  "bundle_name_valid s \<longleftrightarrow> s \<noteq> [] \<and>
     list_all (\<lambda>c. c \<in> set ''ABCDEFGHIJKLMNOPQRSTUVWXYZabcdefghijklmnopqrstuvwxyz0123456789._-'') s"

definition recoveryBundles :: "mutation_dir \<Rightarrow> string list" where
  "recoveryBundles d = filter bundle_name_valid (md_bundles d)"

definition readDirectoryStatus :: "mutation_dir \<Rightarrow> string + (string \<times> journal_stage option) list" where
  "readDirectoryStatus d =
     ebind (journal_read (md_journal d)) (\<lambda>es. Inr (
       map (\<lambda>e. (je_caseId e, Some (je_stage e))) (filter (\<lambda>e. je_stage e \<in> set cleanupObligationStages) (map snd (latest es))) @
       map (\<lambda>f. (f, None)) (filter (\<lambda>f.
         case latest_stage es f of None \<Rightarrow> True | Some st \<Rightarrow> st \<notin> set cleanupObligationStages \<and> st \<noteq> StRollbackVerified) (recoveryBundles d))))"

datatype release_state = Clean | Unresolved "(string \<times> journal_stage option) list" | Unknown

definition obligations_of :: "mutation_dir \<Rightarrow> (string \<times> journal_stage option) list \<Rightarrow> string + (string \<times> journal_stage option) list" where
  "obligations_of d m =
     ebind (journal_read (md_journal d)) (\<lambda>es. Inr (
       fold (\<lambda>f. js_map_set f None) (filter (\<lambda>f. latest_stage es f \<noteq> Some StRollbackVerified) (md_bundles d))
         (fold (\<lambda>e. js_map_set (je_caseId e) (Some (je_stage e)))
            (filter (\<lambda>e. je_stage e \<in> set cleanupObligationStages) (map snd (latest es))) m)))"

fun obligations_in :: "mutation_dir list \<Rightarrow> (string \<times> journal_stage option) list \<Rightarrow> string + (string \<times> journal_stage option) list" where
  "obligations_in [] m = Inr m"
| "obligations_in (d # ds) m = ebind (obligations_of d m) (obligations_in ds)"

definition distributedReleaseState :: "mutation_dir list \<Rightarrow> release_state" where
  "distributedReleaseState ds =
     (case obligations_in ds [] of Inl _ \<Rightarrow> Unknown | Inr m \<Rightarrow> if m = [] then Clean else Unresolved m)"

end
