(* ===== verification/RC_MutationFacts.thy ===== *)
theory RC_MutationFacts
  imports RC_Mutation
begin

text \<open>
  What the controlled mutation executor guarantees, for every sequence of answers of its environment, crashes included:
  an armed attack is the only attack, a changed target is never forgotten, and recovery touches only a verified target.
  The proofs use triples for an execution with three exits (value, throw, crash) and invariants that are kept by every
  operation but a few.
\<close>

section \<open>Triples\<close>

definition hoare :: "(world \<Rightarrow> bool) \<Rightarrow> 'a exec \<Rightarrow> ('a \<Rightarrow> world \<Rightarrow> bool) \<Rightarrow> (world \<Rightarrow> bool) \<Rightarrow> (world \<Rightarrow> bool) \<Rightarrow> bool" where
  "hoare P m Q E C \<longleftrightarrow> (\<forall>w. P w \<longrightarrow> (case m w of (Done x, w') \<Rightarrow> Q x w' | (Thrown, w') \<Rightarrow> E w' | (Crashed, w') \<Rightarrow> C w'))"

definition keeps :: "(world \<Rightarrow> bool) \<Rightarrow> 'a exec \<Rightarrow> bool" where
  "keeps I m \<longleftrightarrow> hoare I m (\<lambda>_. I) I I"

named_theorems keep \<open>executions that keep an invariant\<close>

lemma hoare_weaken:
  "hoare P m Q E C \<Longrightarrow> (\<And>w. P' w \<Longrightarrow> P w) \<Longrightarrow> (\<And>x w. Q x w \<Longrightarrow> Q' x w) \<Longrightarrow> (\<And>w. E w \<Longrightarrow> E' w) \<Longrightarrow> (\<And>w. C w \<Longrightarrow> C' w) \<Longrightarrow>
   hoare P' m Q' E' C'"
  unfolding hoare_def by (fastforce split: prod.splits outcome.splits)

lemma hoare_conj:
  "hoare P m Q E C \<Longrightarrow> hoare P' m Q' E' C' \<Longrightarrow>
   hoare (\<lambda>w. P w \<and> P' w) m (\<lambda>x w. Q x w \<and> Q' x w) (\<lambda>w. E w \<and> E' w) (\<lambda>w. C w \<and> C' w)"
  unfolding hoare_def by (fastforce split: prod.splits outcome.splits)

lemma hoare_seq:
  "hoare P m Q E C \<Longrightarrow> (\<And>x. hoare (Q x) (f x) R E C) \<Longrightarrow> hoare P (seq_exec m f) R E C"
  unfolding hoare_def seq_exec_def by (fastforce split: prod.splits outcome.splits)

lemma hoare_catch: "hoare P m Q F C \<Longrightarrow> hoare F h Q E C \<Longrightarrow> hoare P (catch_exec m h) Q E C"
  unfolding hoare_def catch_exec_def by (fastforce split: prod.splits outcome.splits)

lemma hoare_try_step:
  "hoare P m Q F C \<Longrightarrow> hoare F h R E C \<Longrightarrow> (\<And>x. hoare (Q x) (k x) R E C) \<Longrightarrow> hoare P (try_step h m k) R E C"
  unfolding hoare_def try_step_def by (fastforce split: prod.splits outcome.splits)

lemma hoare_ret: "(\<And>w. P w \<Longrightarrow> Q x w) \<Longrightarrow> hoare P (ret x) Q E C"
  by (simp add: hoare_def ret_def)

lemma hoare_throw: "(\<And>w. P w \<Longrightarrow> E w) \<Longrightarrow> hoare P throw_error Q E C"
  by (simp add: hoare_def throw_error_def)

lemma hoare_lift_err: "(\<And>x w. r = Inr x \<Longrightarrow> P w \<Longrightarrow> Q x w) \<Longrightarrow> (\<And>w. P w \<Longrightarrow> E w) \<Longrightarrow> hoare P (lift_err r) Q E C"
  by (cases r) (simp_all add: lift_err_def hoare_ret hoare_throw)

lemma hoare_finally:
  "hoare P m Q E C \<Longrightarrow> (\<And>x. hoare (Q x) f (\<lambda>_. R x) F C) \<Longrightarrow> hoare E f (\<lambda>_. F) F C \<Longrightarrow> hoare P (finally_exec m f) R F C"
  unfolding hoare_def finally_exec_def seq_exec_def ret_def throw_error_def
  by (fastforce split: prod.splits outcome.splits)

lemma hoare_perform:
  assumes "\<And>w rs. P w \<Longrightarrow> E (w\<lparr>wd_replies := rs\<rparr>)" "\<And>w rs. P w \<Longrightarrow> E (io_effect c op (w\<lparr>wd_replies := rs\<rparr>))"
    "\<And>w r rs. P w \<Longrightarrow> \<not> io_refused c op w \<Longrightarrow> Q r (io_effect c op (w\<lparr>wd_replies := rs\<rparr>))" "\<And>w. P w \<Longrightarrow> C w"
  shows "hoare P (perform c op) Q E C"
  using assms by (auto simp: hoare_def perform_def Let_def split: list.splits)

lemma hoare_Done: "hoare P m Q E C \<Longrightarrow> P w \<Longrightarrow> m w = (Done x, w') \<Longrightarrow> Q x w'"
  unfolding hoare_def by fastforce

lemma hoare_exit: "hoare P m (\<lambda>_. R) R R \<Longrightarrow> P w \<Longrightarrow> R (snd (m w))"
  unfolding hoare_def by (cases "m w"; cases "fst (m w)") fastforce+

lemma keeps_seq [keep]: "keeps I m \<Longrightarrow> (\<And>x. keeps I (f x)) \<Longrightarrow> keeps I (seq_exec m f)"
  unfolding keeps_def by (rule hoare_seq)

lemma keeps_catch [keep]: "keeps I m \<Longrightarrow> keeps I h \<Longrightarrow> keeps I (catch_exec m h)"
  unfolding keeps_def by (rule hoare_catch)

lemma keeps_try_step [keep]: "keeps I m \<Longrightarrow> keeps I h \<Longrightarrow> (\<And>x. keeps I (k x)) \<Longrightarrow> keeps I (try_step h m k)"
  unfolding keeps_def by (rule hoare_try_step)

lemma keeps_finally [keep]: "keeps I m \<Longrightarrow> keeps I f \<Longrightarrow> keeps I (finally_exec m f)"
  unfolding keeps_def by (rule hoare_finally)

lemma keeps_ret [keep]: "keeps I (ret x)"
  unfolding keeps_def by (rule hoare_ret)

lemma keeps_throw [keep]: "keeps I throw_error"
  unfolding keeps_def by (rule hoare_throw)

lemma keeps_lift_err [keep]: "keeps I (lift_err r)"
  unfolding keeps_def by (rule hoare_lift_err)

lemma keeps_split [keep]:
  "(\<And>a b. keeps I (f a b)) \<Longrightarrow> keeps I (case p of (a, b) \<Rightarrow> f a b)"
  "(b \<Longrightarrow> keeps I m) \<Longrightarrow> (\<not> b \<Longrightarrow> keeps I m') \<Longrightarrow> keeps I (if b then m else m')"
  by (cases p; simp) simp

section \<open>Invariants kept by all but a few operations\<close>

text \<open>An invariant of the world for a case: it does not depend on the answers to come, and every quiet operation keeps it.\<close>

locale stable_under =
  fixes I :: "world \<Rightarrow> bool" and c :: string and quiet :: "mutation_io \<Rightarrow> bool"
  assumes replies: "I w \<Longrightarrow> I (w\<lparr>wd_replies := rs\<rparr>)"
    and step: "quiet op \<Longrightarrow> I w \<Longrightarrow> I (io_effect c op w)"
begin

lemma perform [keep]: "quiet op \<Longrightarrow> keeps I (perform c op)"
  unfolding keeps_def by (rule hoare_perform) (auto intro: replies step)

lemma send [keep]: "quiet (IoSend k) \<Longrightarrow> keeps I (send c k)"
  unfolding send_def by (intro keep)

lemma append [keep]: "quiet (IoAppend st) \<Longrightarrow> keeps I (append_entry c st)"
  unfolding append_entry_def by (intro keep)

lemma verify_poll: "quiet (IoSend VerifySend) \<Longrightarrow> quiet IoSleep \<Longrightarrow> keeps I (verify_poll rt c v h n r)"
proof (induction n arbitrary: r)
  case 0
  show ?case unfolding verify_poll.simps [of _ _ _ _ 0] by (auto intro: keep)
next
  case (Suc n)
  then show ?case unfolding verify_poll.simps [of _ _ _ _ "Suc n"] by (auto intro: keep)
qed

lemma verify [keep]: "quiet (IoSend VerifySend) \<Longrightarrow> quiet IoSleep \<Longrightarrow> keeps I (verify rt c v h)"
  unfolding verify_def by (intro keep verify_poll)

lemma browser_proof [keep]: "quiet IoBrowser \<Longrightarrow> keeps I (browser_proof observer c)"
  unfolding browser_proof_def by (intro keep)

lemma vault_remove [keep]: "quiet IoRemove \<Longrightarrow> keeps I (vault_remove retain c)"
  unfolding vault_remove_def by (intro keep)

lemma protected_check [keep]:
  assumes "ct_caseId ct = c" "quiet (IoSend VerifySend)" "quiet IoSleep"
  shows "keeps I (protected_check rt ct s)"
  using assms(2,3) unfolding protected_check_def assms(1) by (cases "ct_protectedAction ct") (simp_all add: keep)

lemma browser_check [keep]:
  assumes "ct_caseId ct = c" "quiet IoBrowser"
  shows "keeps I (browser_check opt ct s)"
  using assms(2) unfolding browser_check_def assms(1) by (intro keep)

lemma read_unresolved [keep]: "quiet IoRead \<Longrightarrow> keeps I (read_unresolved c)"
  unfolding read_unresolved_def by (intro keep) (auto simp: keeps_def hoare_def)

end

section \<open>The journal and the obligations it records\<close>

lemma latest_append: "latest (journal_append c st es) =
   js_map_set c \<lparr>je_sequence = length es + 1, je_caseId = c, je_stage = st\<rparr> (latest es)"
  by (simp add: latest_def journal_append_def)

lemma latest_stage_append [simp]:
  "latest_stage (journal_append c st es) c' = (if c' = c then Some st else latest_stage es c')"
  by (simp add: latest_stage_def latest_append)

lemma journal_valid_nth:
  "journal_valid es \<longleftrightarrow> (\<forall>i < length es. je_sequence (es ! i) = Suc i \<and> case_id_valid (je_caseId (es ! i)))"
  by (simp add: journal_valid_def list_all_length)

lemma journal_valid_append: "journal_valid es \<Longrightarrow> case_id_valid c \<Longrightarrow> journal_valid (journal_append c st es)"
  by (auto simp: journal_valid_nth journal_append_def nth_append less_Suc_eq)

text \<open>A bundle whose case is not verified as rolled back keeps the lock from new work, whatever the journal says.\<close>

lemma pending_not_clear:
  "c \<in> set (md_bundles d) \<Longrightarrow> latest_stage (md_journal d) c \<noteq> Some StRollbackVerified \<Longrightarrow> directory_clear d \<noteq> Inr ()"
  by (auto simp: directory_clear_def journal_read_def result_split list_ex_iff split: if_splits)

section \<open>The invariants of an execution\<close>

definition has :: "string \<Rightarrow> mutation_io \<Rightarrow> world \<Rightarrow> bool" where
  "has c op w \<longleftrightarrow> (c, op) \<in> set (wd_trace w)"

text \<open>The target of a case may be changed: an attack of the case was sent and no rollback of the case after it.\<close>

definition outstanding :: "string \<Rightarrow> (string \<times> mutation_io) list \<Rightarrow> bool" where
  "outstanding c t = fold (\<lambda>e b. if e = (c, IoSend AttackSend) then True else if e = (c, IoSend RollbackSend) then False else b) t False"

text \<open>\<open>before\<close>: no request of a kind is sent yet, and certain operations have taken effect; \<open>preceded\<close>: such operations
  come before a request, which is sent at most once.\<close>

definition before :: "string \<Rightarrow> send_kind \<Rightarrow> mutation_io set \<Rightarrow> world \<Rightarrow> bool" where
  "before c k S w \<longleftrightarrow> \<not> has c (IoSend k) w \<and> (\<forall>op \<in> S. has c op w)"

definition preceded :: "string \<Rightarrow> send_kind \<Rightarrow> mutation_io set \<Rightarrow> world \<Rightarrow> bool" where
  "preceded c k S w \<longleftrightarrow> (\<forall>pre post. wd_trace w = pre @ (c, IoSend k) # post \<longrightarrow>
     (\<forall>op \<in> S. (c, op) \<in> set pre) \<and> (c, IoSend k) \<notin> set pre \<and> (c, IoSend k) \<notin> set post)"

definition stage_of :: "string \<Rightarrow> world \<Rightarrow> journal_stage option" where
  "stage_of c w = latest_stage (md_journal (wd_dir w)) c"

definition sealed :: "string \<Rightarrow> world \<Rightarrow> bool" where
  "sealed c w \<longleftrightarrow> c \<in> set (md_bundles (wd_dir w))"

text \<open>\<open>pending\<close>: there is an obligation; \<open>covered\<close>: the bundle is there, and a rollback was sent if one is verified;
  \<open>settled\<close>: an obligation, or a rollback that was sent and verified; \<open>remembered\<close>: what may be changed is pending.\<close>

definition pending :: "string \<Rightarrow> world \<Rightarrow> bool" where
  "pending c w \<longleftrightarrow> sealed c w \<and> stage_of c w \<noteq> Some StRollbackVerified"

definition covered :: "string \<Rightarrow> world \<Rightarrow> bool" where
  "covered c w \<longleftrightarrow> sealed c w \<and> (stage_of c w = Some StRollbackVerified \<longrightarrow> \<not> outstanding c (wd_trace w))"

definition undone_covered :: "string \<Rightarrow> world \<Rightarrow> bool" where
  "undone_covered c w \<longleftrightarrow> sealed c w \<and> \<not> outstanding c (wd_trace w)"

definition settled :: "string \<Rightarrow> world \<Rightarrow> bool" where
  "settled c w \<longleftrightarrow> (sealed c w \<or> stage_of c w = Some StRollbackVerified) \<and>
     (stage_of c w = Some StRollbackVerified \<longrightarrow> \<not> outstanding c (wd_trace w))"

definition remembered :: "string \<Rightarrow> world \<Rightarrow> bool" where
  "remembered c w \<longleftrightarrow> (outstanding c (wd_trace w) \<longrightarrow> pending c w)"

definition armed_steps :: "mutation_contract \<Rightarrow> mutation_io set" where
  "armed_steps ct = {IoLock False, IoAppend StAuthorized, IoAppend StTargetIdentityVerified, IoAppend StPreStateCaptured, IoSeal,
     IoAppend StMutationArmed} \<union> (if ct_identity ct = None then {} else {IoAppend StActorIdentityVerified})"

abbreviation ready :: "mutation_contract \<Rightarrow> mutation_io set \<Rightarrow> world \<Rightarrow> bool" where
  "ready ct \<equiv> before (ct_caseId ct) AttackSend"

abbreviation calm :: "mutation_contract \<Rightarrow> world \<Rightarrow> bool" where
  "calm ct \<equiv> before (ct_caseId ct) AttackSend {}"

abbreviation attack_ordered :: "mutation_contract \<Rightarrow> world \<Rightarrow> bool" where
  "attack_ordered ct \<equiv> preceded (ct_caseId ct) AttackSend (armed_steps ct)"

lemmas invariant_defs = stage_of_def sealed_def pending_def covered_def undone_covered_def settled_def remembered_def

lemma effect_trace [simp]: "wd_trace (io_effect c op w) = wd_trace w @ [(c, op)]"
  by (simp add: io_effect_def)

lemma effect_stage [simp]:
  "stage_of c' (io_effect c op w) = (case op of IoAppend st \<Rightarrow> if c' = c then Some st else stage_of c' w | _ \<Rightarrow> stage_of c' w)"
  by (simp add: io_effect_def dir_effect_def stage_of_def split: mutation_io.split)

lemma effect_sealed [simp]:
  "sealed c' (io_effect c op w) \<longleftrightarrow>
     (case op of IoSeal \<Rightarrow> c' = c \<or> sealed c' w | IoRemove \<Rightarrow> c' \<noteq> c \<and> sealed c' w | _ \<Rightarrow> sealed c' w)"
  by (auto simp: io_effect_def dir_effect_def sealed_def split: mutation_io.split)

lemma replies_simps [simp]:
  "has c op (w\<lparr>wd_replies := rs\<rparr>) = has c op w" "stage_of c (w\<lparr>wd_replies := rs\<rparr>) = stage_of c w"
  "sealed c (w\<lparr>wd_replies := rs\<rparr>) = sealed c w" "before c k S (w\<lparr>wd_replies := rs\<rparr>) = before c k S w"
  "preceded c k S (w\<lparr>wd_replies := rs\<rparr>) = preceded c k S w"
  by (simp_all add: has_def stage_of_def sealed_def before_def preceded_def)

lemma outstanding_snoc [simp]:
  "outstanding c (t @ [e]) \<longleftrightarrow> e = (c, IoSend AttackSend) \<or> e \<noteq> (c, IoSend RollbackSend) \<and> outstanding c t"
  by (auto simp: outstanding_def)

lemma outstanding_Nil [simp]: "\<not> outstanding c []"
  by (simp add: outstanding_def)

lemma has_effect [simp]: "has c op (io_effect c' op' w) \<longleftrightarrow> (c, op) = (c', op') \<or> has c op w"
  by (auto simp: has_def)

interpretation trace_has: stable_under "has c op" c' "\<lambda>_. True" for c op c'
  by unfold_locales simp_all

interpretation before: stable_under "before c k S" c' "\<lambda>op. op \<noteq> IoSend k" for c k S c'
  by unfold_locales (auto simp: before_def)

interpretation pending: stable_under "pending c" c "\<lambda>op. op \<notin> {IoRemove, IoAppend StRollbackVerified}" for c
  by unfold_locales (auto simp: pending_def split: mutation_io.splits)

interpretation covered: stable_under "covered c" c "\<lambda>op. op \<notin> {IoRemove, IoAppend StRollbackVerified, IoSend AttackSend}" for c
  by unfold_locales (auto simp: covered_def split: mutation_io.splits)

interpretation undone_covered: stable_under "undone_covered c" c "\<lambda>op. op \<notin> {IoRemove, IoSend AttackSend}" for c
  by unfold_locales (auto simp: undone_covered_def split: mutation_io.splits)

interpretation settled: stable_under "settled c" c "\<lambda>op. op \<in> {IoRelease, IoSend VerifySend, IoSleep, IoBrowser}" for c
  by unfold_locales (auto simp: settled_def)

interpretation remembered: stable_under "remembered c" c "\<lambda>op. op \<notin> {IoRemove, IoAppend StRollbackVerified, IoSend AttackSend}" for c
  by unfold_locales (auto simp: remembered_def pending_def split: mutation_io.splits)

lemma preceded_step:
  assumes "preceded c k S w" "op \<noteq> IoSend k"
  shows "preceded c k S (io_effect c' op w)"
  unfolding preceded_def
proof (intro allI impI)
  fix pre post assume t: "wd_trace (io_effect c' op w) = pre @ (c, IoSend k) # post"
  with assms(2) obtain post' where "post = post' @ [(c', op)]" by (cases post rule: rev_cases) auto
  with t have "wd_trace w = pre @ (c, IoSend k) # post'" by simp
  then show "(\<forall>op \<in> S. (c, op) \<in> set pre) \<and> (c, IoSend k) \<notin> set pre \<and> (c, IoSend k) \<notin> set post"
    using assms \<open>post = post' @ [(c', op)]\<close> by (auto simp: preceded_def)
qed

interpretation preceded: stable_under "preceded c k S" c' "\<lambda>op. op \<noteq> IoSend k" for c k S c'
  by unfold_locales (simp_all add: preceded_step)

lemma before_preceded: "before c k S w \<Longrightarrow> preceded c k T w"
  by (auto simp: before_def has_def preceded_def)

lemma send_preceded:
  "hoare (before c k S) (send c k) (\<lambda>_. preceded c k S) (preceded c k S) (preceded c k S)"
proof -
  have "preceded c k S (io_effect c (IoSend k) w)" if "before c k S w" for w
    using that by (auto simp: preceded_def before_def has_def append_eq_append_conv2 append_eq_Cons_conv Cons_eq_append_conv)
  then show ?thesis unfolding send_def
    by (intro hoare_seq [where Q = "\<lambda>_. preceded c k S"] hoare_perform hoare_ret) (auto intro: before_preceded)
qed

section \<open>Triples of the executor\<close>

lemma keepsD: "keeps I m \<Longrightarrow> (\<And>w. P w \<Longrightarrow> I w) \<Longrightarrow> (\<And>x w. I w \<Longrightarrow> Q x w) \<Longrightarrow> (\<And>w. I w \<Longrightarrow> E w) \<Longrightarrow> (\<And>w. I w \<Longrightarrow> C w) \<Longrightarrow> hoare P m Q E C"
  unfolding keeps_def by (rule hoare_weaken)

lemma covers [intro]:
  "pending c w \<Longrightarrow> covered c w" "undone_covered c w \<Longrightarrow> covered c w" "covered c w \<Longrightarrow> settled c w"
  by (auto simp: invariant_defs)

lemma send_rollback: "hoare (covered c) (send c RollbackSend) (\<lambda>_. undone_covered c) (covered c) (settled c)"
  unfolding send_def
  by (rule hoare_seq [OF hoare_perform [where Q = "\<lambda>_. undone_covered c"] hoare_ret])
    (auto simp: covered_def undone_covered_def settled_def)

lemma append_stage:
  "hoare (undone_covered c) (append_entry c st) (\<lambda>_ w. undone_covered c w \<and> stage_of c w = Some st) (covered c) (settled c)"
  unfolding append_entry_def
  by (rule hoare_seq [OF hoare_perform [where Q = "\<lambda>_ w. undone_covered c w \<and> stage_of c w = Some st"] hoare_ret])
    (auto simp: covered_def undone_covered_def settled_def)

lemma remove_settled:
  "hoare (\<lambda>w. undone_covered c w \<and> stage_of c w = Some StRollbackVerified) (vault_remove retain c)
     (\<lambda>_ w. settled c w \<and> stage_of c w = Some StRollbackVerified) (covered c) (settled c)"
proof (cases retain)
  case False
  let ?S = "\<lambda>w. settled c w \<and> stage_of c w = Some StRollbackVerified"
  have "hoare (\<lambda>w. undone_covered c w \<and> stage_of c w = Some StRollbackVerified) (perform c IoRemove) (\<lambda>_. ?S) ?S (settled c)"
    by (rule hoare_perform) (auto simp: undone_covered_def settled_def)
  then show ?thesis using False unfolding vault_remove_def
    by (simp, intro hoare_catch [where F = ?S] hoare_seq [where Q = "\<lambda>_. ?S"] hoare_ret) auto
qed (auto simp: vault_remove_def invariant_defs intro: hoare_ret)

definition cleaned :: "string \<Rightarrow> cleanup_outcome \<Rightarrow> world \<Rightarrow> bool" where
  "cleaned c cleanup w \<longleftrightarrow> settled c w \<and> cleanup \<noteq> NotRequired \<and> (cleanup = RollbackVerified \<longrightarrow> stage_of c w = Some StRollbackVerified)"

text \<open>The tail that \<^verbatim>\<open>rollback\<close> and \<^verbatim>\<open>recover\<close> share: journal the verdict, and drop the bundle of a verified rollback.\<close>

lemma verdict_verified:
  "hoare (undone_covered c)
     (seq_exec (append_entry c StRollbackVerified) (\<lambda>_. seq_exec (vault_remove retain c) (\<lambda>_. ret x)))
     (\<lambda>y w. y = x \<and> settled c w \<and> stage_of c w = Some StRollbackVerified) (covered c) (settled c)"
  by (intro hoare_seq [OF append_stage] hoare_seq [OF remove_settled] hoare_ret) simp

lemma verdict_failed:
  "hoare (undone_covered c) (seq_exec (append_entry c StCleanupFailed) (\<lambda>_. ret x)) (\<lambda>y w. y = x \<and> settled c w) (covered c) (settled c)"
  by (intro hoare_seq [OF append_stage] hoare_ret) auto

lemma undone_step: "keeps (undone_covered c) m \<Longrightarrow> hoare (undone_covered c) m (\<lambda>_. undone_covered c) (covered c) (settled c)"
  by (erule keepsD) auto

lemma hoare_if:
  "(b \<Longrightarrow> hoare P m Q E C) \<Longrightarrow> (\<not> b \<Longrightarrow> hoare P m' Q E C) \<Longrightarrow> hoare P (if b then m else m') Q E C"
  by simp

lemma hoare_pair: "(\<And>a b. hoare P (f a b) Q E C) \<Longrightarrow> hoare P (case p of (a, b) \<Rightarrow> f a b) Q E C"
  by (cases p) simp

lemma rollback_triple:
  "hoare (covered (ct_caseId ct)) (rollback rt opt ct h) (cleaned (ct_caseId ct)) (covered (ct_caseId ct)) (settled (ct_caseId ct))"
  unfolding rollback_def Let_def
  by (intro hoare_seq [OF send_rollback] hoare_seq [OF undone_step] hoare_pair hoare_if
        hoare_weaken [OF verdict_verified] hoare_weaken [OF verdict_failed])
    (auto simp: keep cleaned_def)

lemma cleanup_after_triple:
  "hoare (covered (ct_caseId ct)) (cleanup_after rt opt ct h s) (\<lambda>r. cleaned (ct_caseId ct) (er_cleanup r)) (\<lambda>_. False) (settled (ct_caseId ct))"
  unfolding cleanup_after_def
  by (rule hoare_seq [OF hoare_catch [OF rollback_triple hoare_ret] hoare_ret]) (auto simp: cleaned_def)

text \<open>From the armed state on, no exit but a crash leaves the method, and every exit is settled.\<close>

lemma armed_step:
  assumes "keeps (pending (ct_caseId ct)) m"
    and "\<And>x. hoare (pending (ct_caseId ct)) (k x) (\<lambda>r. cleaned (ct_caseId ct) (er_cleanup r)) (\<lambda>_. False) (settled (ct_caseId ct))"
  shows "hoare (pending (ct_caseId ct)) (try_step (cleanup_after rt opt ct h s) m k)
    (\<lambda>r. cleaned (ct_caseId ct) (er_cleanup r)) (\<lambda>_. False) (settled (ct_caseId ct))"
  by (rule hoare_try_step [OF keepsD [OF assms(1)] cleanup_after_triple assms(2)]) auto

lemma run_armed_triple:
  "hoare (pending (ct_caseId ct)) (run_armed rt opt ct h) (\<lambda>r. cleaned (ct_caseId ct) (er_cleanup r)) (\<lambda>_. False) (settled (ct_caseId ct))"
proof -
  let ?c = "ct_caseId ct"
  have last: "hoare (pending ?c) (try_step (cleanup_after rt opt ct h s) (rollback rt opt ct h) (\<lambda>cleanup. ret (finish s cleanup)))
      (\<lambda>r. cleaned ?c (er_cleanup r)) (\<lambda>_. False) (settled ?c)" for s
    by (rule hoare_try_step [OF hoare_weaken [OF rollback_triple] cleanup_after_triple hoare_ret]) (auto simp: finish_def)
  show ?thesis unfolding run_armed_def Let_def
    by (intro armed_step hoare_pair last) (simp_all add: keep)
qed

text \<open>Before a request: the operations seen so far.\<close>

lemma before_weaken [intro]: "before c k S w \<Longrightarrow> before c k {} w"
  by (simp add: before_def)

lemma before_mono: "before c k S w \<Longrightarrow> T \<subseteq> S \<Longrightarrow> before c k T w"
  by (auto simp: before_def)

lemma before_step: "keeps (before c k S) m \<Longrightarrow> hoare (before c k S) m (\<lambda>_. before c k S) (before c k {}) (before c k {})"
  by (erule keepsD) auto

lemma append_before:
  "hoare (before c k S) (append_entry c st) (\<lambda>_. before c k (insert (IoAppend st) S)) (before c k {}) (before c k {})"
  unfolding append_entry_def
  by (rule hoare_seq [OF hoare_perform [where Q = "\<lambda>_. before c k (insert (IoAppend st) S)"] hoare_ret])
    (auto simp: before_def)

lemma perform_before:
  "op \<noteq> IoSend k \<Longrightarrow> hoare (before c k S) (perform c op) (\<lambda>_. before c k (insert op S)) (before c k {}) (before c k {})"
  by (rule hoare_perform) (auto simp: before_def)

lemma seal_before:
  "hoare (before c AttackSend S) (perform c IoSeal) (\<lambda>_ w. before c AttackSend (insert IoSeal S) w \<and> sealed c w) (before c AttackSend {}) (before c AttackSend {})"
  by (rule hoare_perform) (auto simp: before_def)

lemma append_armed:
  "hoare (\<lambda>w. before c AttackSend S w \<and> sealed c w) (append_entry c StMutationArmed)
     (\<lambda>_ w. before c AttackSend (insert (IoAppend StMutationArmed) S) w \<and> pending c w) (before c AttackSend {}) (before c AttackSend {})"
  unfolding append_entry_def
  by (rule hoare_seq [OF hoare_perform
        [where Q = "\<lambda>_ w. before c AttackSend (insert (IoAppend StMutationArmed) S) w \<and> pending c w"] hoare_ret])
    (auto simp: before_def pending_def)

lemma prepare_triple:
  "hoare (ready ct {IoLock False}) (prepare_phase rt ct)
     (\<lambda>pre. if pre = None then calm ct else ready ct (armed_steps ct - {IoSeal, IoAppend StMutationArmed})) (calm ct) (calm ct)"
proof -
  let ?c = "ct_caseId ct"
  let ?A = "{IoLock False, IoAppend StAuthorized} \<union> (if ct_identity ct = None then {} else {IoAppend StActorIdentityVerified})"
  let ?Q = "\<lambda>pre. if pre = None then calm ct else ready ct (armed_steps ct - {IoSeal, IoAppend StMutationArmed})"
  have actor: "hoare (ready ct {IoAppend StAuthorized, IoLock False})
     (case ct_identity ct of None \<Rightarrow> ret True
      | Some v \<Rightarrow> seq_exec (verify rt ?c v None) (\<lambda>(matched, r).
          if matched \<and> rs_bodyHash r \<noteq> None \<and> rs_bodyHash r \<noteq> Some []
          then seq_exec (append_entry ?c StActorIdentityVerified) (\<lambda>_. ret True) else ret False))
     (\<lambda>ok. if ok then ready ct ?A else (calm ct)) (calm ct) (calm ct)"
    by (cases "ct_identity ct")
      (auto intro!: hoare_ret hoare_seq [OF before_step] hoare_seq [OF append_before] hoare_pair hoare_if
        simp: keep elim: before_mono)
  have stop: "hoare (calm ct) (seq_exec (append_entry ?c StSealed) (\<lambda>_. ret None)) ?Q (calm ct) (calm ct)"
    by (rule hoare_seq [where Q = "\<lambda>_. calm ct", OF keepsD [where I = "calm ct"] hoare_ret]) (simp_all add: keep)
  have rest: "hoare (ready ct ?A) (seq_exec (verify rt ?c (ct_precondition ct) None) (\<lambda>(matched, r).
       if \<not> matched \<or> rs_bodyHash r = None \<or> rs_bodyHash r = Some []
       then seq_exec (append_entry ?c StSealed) (\<lambda>_. ret None)
       else seq_exec (append_entry ?c StTargetIdentityVerified) (\<lambda>_.
            seq_exec (append_entry ?c StPreStateCaptured) (\<lambda>_. ret (rs_bodyHash r))))) ?Q (calm ct) (calm ct)"
    by (intro hoare_seq [OF before_step] hoare_pair hoare_if hoare_weaken [OF stop] hoare_seq [OF append_before] hoare_ret)
      (auto simp: keep armed_steps_def elim!: before_mono)
  show ?thesis unfolding prepare_phase_def Let_def
    by (intro hoare_seq [OF append_before] hoare_seq [OF actor] hoare_if hoare_weaken [OF stop] hoare_weaken [OF rest]) auto
qed

lemma arm_triple:
  "hoare (ready ct {IoLock False}) (arm rt ct)
     (\<lambda>a. case a of Armed h \<Rightarrow> (\<lambda>w. ready ct (armed_steps ct) w \<and> pending (ct_caseId ct) w) | _ \<Rightarrow> (calm ct)) (calm ct) (calm ct)"
proof -
  have tail: "hoare (ready ct (armed_steps ct - {IoSeal, IoAppend StMutationArmed}))
     (seq_exec (perform (ct_caseId ct) IoSeal) (\<lambda>_. seq_exec (append_entry (ct_caseId ct) StMutationArmed) (\<lambda>_. ret (Armed h))))
     (\<lambda>a. case a of Armed h \<Rightarrow> (\<lambda>w. ready ct (armed_steps ct) w \<and> pending (ct_caseId ct) w) | _ \<Rightarrow> (calm ct)) (calm ct) (calm ct)" for h
    by (intro hoare_seq [OF seal_before] hoare_seq [OF append_armed] hoare_ret)
      (auto elim!: before_mono)
  have "hoare (if pre = None then calm ct else ready ct (armed_steps ct - {IoSeal, IoAppend StMutationArmed}))
     (case pre of None \<Rightarrow> ret Stopped
      | Some h \<Rightarrow> seq_exec (perform (ct_caseId ct) IoSeal) (\<lambda>_. seq_exec (append_entry (ct_caseId ct) StMutationArmed) (\<lambda>_. ret (Armed (Some h)))))
     (\<lambda>a. case a of Armed h \<Rightarrow> (\<lambda>w. ready ct (armed_steps ct) w \<and> pending (ct_caseId ct) w) | _ \<Rightarrow> (calm ct)) (calm ct) (calm ct)" for pre
    by (cases pre) (auto intro: hoare_ret tail)
  then show ?thesis unfolding arm_def
    by (intro hoare_seq [OF before_step] hoare_if hoare_ret hoare_seq [OF prepare_triple]) (auto simp: keep)
qed

lemma rollback_keeps [keep]:
  "keeps (preceded c AttackSend S) (rollback rt opt ct h)" "keeps (preceded c AttackSend S) (cleanup_after rt opt ct h s)"
  "keeps (has c op) (rollback rt opt ct h)" "keeps (has c op) (cleanup_after rt opt ct h s)"
  by (simp_all add: rollback_def cleanup_after_def Let_def keep)

lemma run_armed_ordered:
  "hoare (ready ct (armed_steps ct)) (run_armed rt opt ct h) (\<lambda>_. attack_ordered ct) (attack_ordered ct) (attack_ordered ct)"
  unfolding run_armed_def Let_def
  by (rule hoare_try_step [OF send_preceded]) (simp_all add: keep keeps_def [symmetric])

lemma cleanup_after_security:
  "hoare (\<lambda>_. True) (cleanup_after rt opt ct h s) (\<lambda>r _. er_security r = s) (\<lambda>_. True) (\<lambda>_. True)"
  unfolding cleanup_after_def
  by (rule hoare_seq [where Q = "\<lambda>_ _. True", OF _ hoare_ret]) (auto simp: hoare_def split: prod.split outcome.split)

text \<open>A security outcome other than \<open>Inconclusive\<close> comes only from a run that sent the attack.\<close>

lemma run_armed_attacked:
  "hoare (\<lambda>_. True) (run_armed rt opt ct h) (\<lambda>r w. er_security r \<noteq> Inconclusive \<longrightarrow> has (ct_caseId ct) (IoSend AttackSend) w) (\<lambda>_. True) (\<lambda>_. True)"
proof -
  have sent: "hoare (\<lambda>_. True) (send (ct_caseId ct) AttackSend) (\<lambda>_. has (ct_caseId ct) (IoSend AttackSend)) (\<lambda>_. True) (\<lambda>_. True)"
    unfolding send_def by (rule hoare_seq [OF hoare_perform [where Q = "\<lambda>_. has (ct_caseId ct) (IoSend AttackSend)"] hoare_ret]) simp_all
  have kept: "hoare (has (ct_caseId ct) (IoSend AttackSend)) m (\<lambda>r w. er_security r \<noteq> Inconclusive \<longrightarrow> has (ct_caseId ct) (IoSend AttackSend) w) (\<lambda>_. True) (\<lambda>_. True)"
    if "keeps (has (ct_caseId ct) (IoSend AttackSend)) m" for m :: "mutation_result exec"
    using that by (rule keepsD) simp_all
  show ?thesis unfolding run_armed_def Let_def
    by (rule hoare_try_step [OF sent hoare_weaken [OF cleanup_after_security] kept]) (simp_all add: keep)
qed

definition safe :: "mutation_contract \<Rightarrow> world \<Rightarrow> bool" where
  "safe ct w \<longleftrightarrow> attack_ordered ct w \<and> (calm ct w \<or> settled (ct_caseId ct) w)"

definition result_safe :: "mutation_contract \<Rightarrow> mutation_result \<Rightarrow> world \<Rightarrow> bool" where
  "result_safe ct r w \<longleftrightarrow> attack_ordered ct w \<and>
     (if er_cleanup r = NotRequired then calm ct w else cleaned (ct_caseId ct) (er_cleanup r) w) \<and>
     (er_security r \<in> {Inconclusive, BlockedBySafety} \<or> has (ct_caseId ct) (IoSend AttackSend) w)"

interpretation safe: stable_under "safe ct" "ct_caseId ct" "\<lambda>op. op \<in> {IoRelease, IoSend VerifySend, IoSleep, IoBrowser}" for ct
  by unfold_locales
    (auto simp: safe_def intro: preceded_step settled.replies settled.step before.step)

interpretation result_safe: stable_under "result_safe ct r" "ct_caseId ct" "\<lambda>op. op = IoRelease" for ct r
  by unfold_locales
    (auto simp: result_safe_def cleaned_def intro: preceded_step settled.replies settled.step before.step)

lemma result_safe_safe: "result_safe ct r w \<Longrightarrow> safe ct w"
  by (auto simp: result_safe_def safe_def cleaned_def split: if_splits)

lemma no_attack_safe [intro]: "calm ct w \<Longrightarrow> safe ct w"
  by (simp add: safe_def before_preceded)

lemma execute_locked_triple:
  "hoare (ready ct {IoLock False}) (execute_locked rt opt ct) (result_safe ct) (calm ct) (safe ct)"
proof -
  have seal: "hoare (calm ct) (seal_inconclusive ct) (result_safe ct) (calm ct) (safe ct)"
    unfolding seal_inconclusive_def
    by (rule hoare_seq [where Q = "\<lambda>_. calm ct", OF keepsD [where I = "calm ct"] hoare_ret])
      (auto simp: keep result_safe_def simple_result_def before_preceded)
  have armed: "hoare (\<lambda>w. ready ct (armed_steps ct) w \<and> pending (ct_caseId ct) w) (run_armed rt opt ct h) (result_safe ct) (calm ct) (safe ct)" for h
    by (rule hoare_weaken [OF hoare_conj [OF hoare_conj [OF run_armed_ordered run_armed_triple] run_armed_attacked]])
      (auto simp: result_safe_def safe_def cleaned_def)
  let ?A = "\<lambda>a. case a of Armed h \<Rightarrow> (\<lambda>w. ready ct (armed_steps ct) w \<and> pending (ct_caseId ct) w) | _ \<Rightarrow> (calm ct)"
  have rest: "hoare (?A a) (case a of Blocked \<Rightarrow> ret (simple_result BlockedBySafety) | Stopped \<Rightarrow> ret (simple_result Inconclusive) | Armed h \<Rightarrow> run_armed rt opt ct h)
     (result_safe ct) (calm ct) (safe ct)" for a
    by (cases a) (auto intro!: hoare_ret armed simp: result_safe_def simple_result_def before_preceded)
  have "hoare (ready ct {IoLock False}) (arm rt ct) ?A (calm ct) (safe ct)"
    by (rule hoare_weaken [OF arm_triple]) auto
  then show ?thesis unfolding execute_locked_def by (rule hoare_try_step [OF _ seal rest])
qed

lemma lock_triple:
  "hoare (calm ct) (catch_exec (seq_exec (perform (ct_caseId ct) (IoLock False)) (\<lambda>_. ret True)) (ret False))
     (\<lambda>locked. if locked then ready ct {IoLock False} else (calm ct)) (calm ct) (calm ct)"
  by (intro hoare_catch [where F = "calm ct"] hoare_seq [where Q = "\<lambda>_. ready ct {IoLock False}"] hoare_perform hoare_ret)
    (auto simp: before_def)

lemma execute_triple: "hoare (calm ct) (execute rt opt ct now) (result_safe ct) (safe ct) (safe ct)"
proof -
  let ?c = "ct_caseId ct"
  have blocked: "hoare (calm ct) (ret (simple_result BlockedBySafety)) (result_safe ct) (safe ct) (safe ct)"
    by (rule hoare_ret) (auto simp: result_safe_def simple_result_def before_preceded)
  have audit: "hoare (calm ct)
      (finally_exec (catch_exec (seq_exec (perform ?c (IoLock False)) (\<lambda>_. append_entry ?c StSealed)) (ret ())) (perform ?c IoRelease))
      (\<lambda>_. calm ct) (safe ct) (safe ct)"
    by (rule keepsD [where I = "calm ct"]) (auto simp: keep)
  have release: "hoare (result_safe ct r) (perform ?c IoRelease) (\<lambda>_. result_safe ct r) (safe ct) (safe ct)" for r
    by (rule keepsD [where I = "result_safe ct r"]) (auto simp: keep intro: result_safe_safe)
  have throw: "hoare (calm ct) (perform ?c IoRelease) (\<lambda>_. safe ct) (safe ct) (safe ct)"
    by (rule keepsD [where I = "calm ct"]) (auto simp: keep)
  have locked: "hoare (if locked then ready ct {IoLock False} else (calm ct))
      (if locked then finally_exec (execute_locked rt opt ct) (perform ?c IoRelease) else ret (simple_result BlockedBySafety))
      (result_safe ct) (safe ct) (safe ct)" for locked
    by (cases locked) (simp_all add: blocked hoare_finally [OF execute_locked_triple release throw])
  have "hoare (calm ct) (catch_exec (seq_exec (perform ?c (IoLock False)) (\<lambda>_. ret True)) (ret False))
     (\<lambda>locked. if locked then ready ct {IoLock False} else (calm ct)) (safe ct) (safe ct)"
    by (rule hoare_weaken [OF lock_triple]) auto
  then show ?thesis unfolding execute_def Let_def
    by (auto split: sum.split mutation_error.split intro!: hoare_throw hoare_seq [OF audit blocked] hoare_seq [OF _ locked])
qed

lemma safe_attack:
  assumes "safe ct w" "(ct_caseId ct, IoSend AttackSend) \<in> set (wd_trace w)"
  shows "directory_clear (wd_dir w) \<noteq> Inr () \<or>
    latest_stage (md_journal (wd_dir w)) (ct_caseId ct) = Some StRollbackVerified \<and> \<not> outstanding (ct_caseId ct) (wd_trace w)"
  using assms pending_not_clear by (auto simp: safe_def invariant_defs before_def has_def)

lemma unattacked_start: "wd_trace w = [] \<Longrightarrow> calm ct w"
  by (simp add: before_def has_def)

lemma execute_safe: "wd_trace w = [] \<Longrightarrow> safe ct (snd (execute rt opt ct now w))"
  by (rule hoare_exit [OF hoare_weaken [OF execute_triple] unattacked_start]) (auto intro: result_safe_safe)

lemma execute_result:
  "wd_trace w = [] \<Longrightarrow> execute rt opt ct now w = (Done r, w') \<Longrightarrow> result_safe ct r w'"
  by (rule hoare_Done [OF execute_triple unattacked_start])

section \<open>Triples of recovery\<close>

definition recovery_steps :: "recovery_bundle \<Rightarrow> mutation_io set" where
  "recovery_steps b = {IoLock True} \<union>
     (if rb_actorBinding b = None then {} else {IoAppend StActorIdentityVerified}) \<union>
     (if rb_targetIdentityVerification b = None then {} else {IoAppend StTargetIdentityVerified})"

lemma recover_actor_before:
  assumes "\<not> (rb_actorBinding b \<noteq> None \<and> rb_actorIdentityVerification b = None)"
  shows "hoare (before (rb_caseId b) RollbackSend S) (recover_actor rt b)
    (\<lambda>ok. if ok then before (rb_caseId b) RollbackSend ((if rb_actorBinding b = None then {} else {IoAppend StActorIdentityVerified}) \<union> S)
          else before (rb_caseId b) RollbackSend {}) (before (rb_caseId b) RollbackSend {}) (before (rb_caseId b) RollbackSend {})"
  using assms unfolding recover_actor_def Let_def
  by (cases "rb_actorBinding b"; cases "rb_actorIdentityVerification b")
    (auto intro!: hoare_ret hoare_seq [OF before_step] hoare_seq [OF append_before] hoare_pair hoare_if simp: keep elim: before_mono)

lemma recover_target_before:
  "hoare (before (rb_caseId b) RollbackSend S) (recover_target rt b)
    (\<lambda>ok. if ok then before (rb_caseId b) RollbackSend ((if rb_targetIdentityVerification b = None then {} else {IoAppend StTargetIdentityVerified}) \<union> S)
          else before (rb_caseId b) RollbackSend {}) (before (rb_caseId b) RollbackSend {}) (before (rb_caseId b) RollbackSend {})"
proof (cases "rb_targetIdentityVerification b")
  case (Some v)
  then show ?thesis unfolding recover_target_def Let_def
    by (cases "find (\<lambda>a. ma_operator a = OpEquals) (case mv_assertions v of None \<Rightarrow> [] | Some as \<Rightarrow> as)")
      (auto intro!: hoare_ret hoare_seq [OF before_step] hoare_seq [OF append_before] hoare_pair hoare_if simp: keep elim: before_mono)
qed (auto simp: recover_target_def intro!: hoare_ret)

lemma recovery_binding_Inr:
  assumes "recovery_binding rt b caseId now = Inr ()"
  shows "rb_caseId b = caseId" "\<not> (rb_actorBinding b \<noteq> None \<and> rb_actorIdentityVerification b = None)"
    "case rb_authorizationExpiresAt b of None \<Rightarrow> True | Some t \<Rightarrow> now < t"
    "\<forall>u \<in> {mr_url (rb_rollbackRequest b), mr_url (mv_request (rb_rollbackVerification b))} \<union>
       set (opt_url (rb_actorIdentityVerification b)) \<union> set (opt_url (rb_targetIdentityVerification b)). recovery_origin rt b u = Inr ()"
  using assms by (auto simp: recovery_binding_def result_split split: option.splits)

lemma recover_rollback_keeps [keep]:
  "keeps (before c AttackSend S) (recover_rollback rt retain b)" "keeps (has c op) (recover_rollback rt retain b)"
  by (simp_all add: recover_rollback_def Let_def keep)

lemma recover_rollback_ordered:
  "hoare (before (rb_caseId b) RollbackSend S) (recover_rollback rt retain b)
     (\<lambda>_. preceded (rb_caseId b) RollbackSend S) (preceded (rb_caseId b) RollbackSend S) (preceded (rb_caseId b) RollbackSend S)"
  unfolding recover_rollback_def Let_def
  by (rule hoare_seq [OF send_preceded]) (simp_all add: keep keeps_def [symmetric])

lemma recover_rollback_settled:
  "hoare (covered (rb_caseId b)) (recover_rollback rt retain b) (\<lambda>r. cleaned (rb_caseId b) (er_cleanup r)) (covered (rb_caseId b)) (settled (rb_caseId b))"
  unfolding recover_rollback_def Let_def
  by (intro hoare_seq [OF send_rollback] hoare_seq [OF undone_step] hoare_pair hoare_if
        hoare_weaken [OF verdict_verified] hoare_weaken [OF verdict_failed])
    (auto simp: keep cleaned_def recovered_def)

text \<open>The body of \<^verbatim>\<open>recover\<close> between taking and releasing the lock.\<close>

definition recover_locked :: "json_runtime \<Rightarrow> executor_options \<Rightarrow> recovery_bundle \<Rightarrow> mutation_result exec" where
  "recover_locked rt opt b =
     seq_exec (recover_actor rt b) (\<lambda>actorOk.
     if \<not> actorOk then recoveryBindingFailure (rb_caseId b)
     else seq_exec (recover_target rt b) (\<lambda>targetOk.
       if \<not> targetOk then recoveryBindingFailure (rb_caseId b) else recover_rollback rt (eo_retain opt) b))"

lemma recover_unfold:
  "recovery_binding rt b caseId now = Inr () \<Longrightarrow> recover rt opt (Some b) caseId now =
     seq_exec (perform caseId (IoLock True)) (\<lambda>_. finally_exec (recover_locked rt opt b) (perform caseId IoRelease))"
  by (rule ext) (auto simp: recover_def recover_locked_def lift_err_def seq_exec_def ret_def dest!: recovery_binding_Inr(1))

lemma recover_refused: "recovery_binding rt b caseId now \<noteq> Inr () \<Longrightarrow> recover rt opt (Some b) caseId now = throw_error"
  by (rule ext) (auto simp: recover_def lift_err_def seq_exec_def throw_error_def split: sum.split)

lemma recover_None: "recover rt opt None caseId now = throw_error"
  by (simp add: recover_def)

lemma recover_locked_ordered:
  assumes "\<not> (rb_actorBinding b \<noteq> None \<and> rb_actorIdentityVerification b = None)"
  defines "R \<equiv> preceded (rb_caseId b) RollbackSend (recovery_steps b)"
  shows "hoare (before (rb_caseId b) RollbackSend {IoLock True}) (recover_locked rt opt b) (\<lambda>_. R) R R"
proof -
  have fail: "hoare (before (rb_caseId b) RollbackSend {}) (recoveryBindingFailure (rb_caseId b)) (\<lambda>_. R) R R"
    unfolding recoveryBindingFailure_def
    by (rule keepsD [where I = "before (rb_caseId b) RollbackSend {}"]) (auto simp: keep R_def intro: before_preceded)
  have roll: "hoare (before (rb_caseId b) RollbackSend (recovery_steps b)) (recover_rollback rt (eo_retain opt) b) (\<lambda>_. R) R R"
    unfolding R_def by (rule recover_rollback_ordered)
  have weak: "before (rb_caseId b) RollbackSend {} w \<Longrightarrow> R w" for w
    by (simp add: R_def before_preceded)
  let ?A = "(if rb_actorBinding b = None then {} else {IoAppend StActorIdentityVerified}) \<union> {IoLock True}"
  let ?T = "(if rb_targetIdentityVerification b = None then {} else {IoAppend StTargetIdentityVerified}) \<union> ?A"
  have actor: "hoare (before (rb_caseId b) RollbackSend {IoLock True}) (recover_actor rt b)
      (\<lambda>ok. if ok then before (rb_caseId b) RollbackSend ?A else before (rb_caseId b) RollbackSend {}) R R"
    by (rule hoare_weaken [OF recover_actor_before [OF assms(1)] _ _ weak weak])
  have target: "hoare (before (rb_caseId b) RollbackSend ?A) (recover_target rt b)
      (\<lambda>ok. if ok then before (rb_caseId b) RollbackSend ?T else before (rb_caseId b) RollbackSend {}) R R"
    by (rule hoare_weaken [OF recover_target_before _ _ weak weak])
  have "recovery_steps b = ?T" by (auto simp: recovery_steps_def)
  then have go: "hoare (if ok then before (rb_caseId b) RollbackSend ?T else before (rb_caseId b) RollbackSend {})
      (if \<not> ok then recoveryBindingFailure (rb_caseId b) else recover_rollback rt (eo_retain opt) b) (\<lambda>_. R) R R" for ok
    using fail roll by (cases ok) simp_all
  have "hoare (if ok then before (rb_caseId b) RollbackSend ?A else before (rb_caseId b) RollbackSend {})
      (if \<not> ok then recoveryBindingFailure (rb_caseId b) else seq_exec (recover_target rt b) (\<lambda>targetOk.
        if \<not> targetOk then recoveryBindingFailure (rb_caseId b) else recover_rollback rt (eo_retain opt) b)) (\<lambda>_. R) R R" for ok
    using fail hoare_seq [OF target go] by (cases ok) simp_all
  then show ?thesis unfolding recover_locked_def by (rule hoare_seq [OF actor])
qed

lemma recover_ordered:
  "hoare (before caseId RollbackSend {}) (recover rt opt (Some b) caseId now) (\<lambda>_. preceded caseId RollbackSend (recovery_steps b))
     (preceded caseId RollbackSend (recovery_steps b)) (preceded caseId RollbackSend (recovery_steps b))"
proof (cases "recovery_binding rt b caseId now = Inr ()")
  case True
  let ?R = "preceded caseId RollbackSend (recovery_steps b)"
  note binding = recovery_binding_Inr [OF True]
  have lock: "hoare (before caseId RollbackSend {}) (perform caseId (IoLock True)) (\<lambda>_. before caseId RollbackSend {IoLock True}) ?R ?R"
    by (rule hoare_weaken [OF perform_before]) (auto intro: before_preceded)
  have release: "hoare ?R (perform caseId IoRelease) (\<lambda>_. ?R) ?R ?R"
    using keeps_def [of ?R] by (simp add: keep flip: keeps_def)
  show ?thesis unfolding recover_unfold [OF True]
    using hoare_seq [OF lock hoare_finally [OF recover_locked_ordered [OF binding(2), of rt opt, unfolded binding(1)] release release]] .
qed (auto simp: recover_refused intro!: hoare_throw before_preceded)

section \<open>Recovery and the answers it got\<close>

text \<open>
  Each operation of a step that runs to its end takes one answer and adds one entry to the trace: \<open>advances w es w'\<close> pairs
  the operations between two worlds with their answers. The facts below say what the paired list of a successful identity
  check contains.
\<close>

type_synonym exchange_log = "((string \<times> mutation_io) \<times> reply) list"

definition advances :: "world \<Rightarrow> exchange_log \<Rightarrow> world \<Rightarrow> bool" where
  "advances w es w' \<longleftrightarrow> wd_trace w' = wd_trace w @ map fst es \<and> wd_replies w = map snd es @ wd_replies w'"

lemma advances_refl: "advances w [] w"
  by (simp add: advances_def)

lemma advances_trans: "advances w es w' \<Longrightarrow> advances w' fs w'' \<Longrightarrow> advances w (es @ fs) w''"
  by (simp add: advances_def)

lemma zip_fst_snd: "zip (map fst es) (map snd es @ rs) = es"
  by (induction es) auto

lemma advances_log: "advances w es w' \<Longrightarrow> wd_trace w = [] \<Longrightarrow> zip (wd_trace w') (wd_replies w) = es"
  by (simp add: advances_def zip_fst_snd)

lemma seq_Done: "seq_exec m f w = (Done y, w'') \<longleftrightarrow> (\<exists>x w'. m w = (Done x, w') \<and> f x w' = (Done y, w''))"
  by (auto simp: seq_exec_def split: prod.splits outcome.splits)

lemma ret_Done: "ret x w = (Done y, w') \<longleftrightarrow> y = x \<and> w' = w"
  by (auto simp: ret_def)

lemma lift_err_Done: "lift_err r w = (Done y, w') \<longleftrightarrow> r = Inr y \<and> w' = w"
  by (cases r) (auto simp: lift_err_def throw_error_def ret_def)

lemmas exec_Done = seq_Done ret_Done lift_err_Done

lemma perform_Done: "perform c op w = (Done r, w') \<Longrightarrow> advances w [((c, op), r)] w'"
  by (auto simp: perform_def Let_def advances_def io_effect_def split: list.splits if_splits)

lemma send_Done: "send c k w = (Done x, w') \<Longrightarrow> \<exists>r. x = response_of r \<and> advances w [((c, IoSend k), r)] w'"
  unfolding send_def exec_Done using perform_Done by blast

lemma append_Done: "append_entry c st w = (Done u, w') \<Longrightarrow> \<exists>r. advances w [((c, IoAppend st), r)] w'"
  unfolding append_entry_def exec_Done using perform_Done by blast

text \<open>A verification that matches ends with a request for it whose answer matches.\<close>

definition matching_end :: "json_runtime \<Rightarrow> string \<Rightarrow> mutation_verification \<Rightarrow> string option \<Rightarrow> exchange_log \<Rightarrow> bool" where
  "matching_end rt c v h es \<longleftrightarrow> (\<exists>es' r. es = es' @ [((c, IoSend VerifySend), ReplyOk r)] \<and> response_matches rt v h r)"

lemma matching_endI:
  "response_matches rt v h (response_of r) \<Longrightarrow> matching_end rt c v h (es @ [((c, IoSend VerifySend), r)])"
  by (cases r) (auto simp: matching_end_def response_of_def response_matches_def no_response_def)

lemma matching_end_append: "matching_end rt c v h es \<Longrightarrow> matching_end rt c v h (fs @ es)"
  unfolding matching_end_def by (metis append.assoc)

lemma verify_poll_Done:
  assumes "advances w0 (es @ [((c, IoSend VerifySend), a)]) w" "verify_poll rt c v h n (response_of a) w = (Done (m, x), w')"
  shows "\<exists>fs. advances w0 fs w' \<and> (m \<longrightarrow> matching_end rt c v h fs)"
  using assms
proof (induction n arbitrary: es a w)
  case 0
  then show ?case
    using matching_endI by (auto simp: verify_poll.simps [of _ _ _ _ 0] ret_Done split: if_splits)
next
  case (Suc n)
  show ?case
  proof (cases "response_matches rt v h (response_of a)")
    case True
    then show ?thesis
      using Suc.prems matching_endI by (auto simp: verify_poll.simps [of _ _ _ _ "Suc n"] ret_Done)
  next
    case False
    then obtain r w1 y w2 where st: "perform c IoSleep w = (Done r, w1)" "send c VerifySend w1 = (Done y, w2)"
      "verify_poll rt c v h n y w2 = (Done (m, x), w')"
      using Suc.prems(2) by (auto simp: verify_poll.simps [of _ _ _ _ "Suc n"] seq_Done)
    obtain q where q: "y = response_of q" "advances w1 [((c, IoSend VerifySend), q)] w2" using send_Done [OF st(2)] by blast
    have "advances w0 (((es @ [((c, IoSend VerifySend), a)]) @ [((c, IoSleep), r)]) @ [((c, IoSend VerifySend), q)]) w2"
      using advances_trans [OF advances_trans [OF Suc.prems(1) perform_Done [OF st(1)]] q(2)] .
    then show ?thesis using Suc.IH st(3) q(1) by blast
  qed
qed

lemma verify_Done:
  assumes "verify rt c v h w = (Done (m, x), w')"
  shows "\<exists>es. advances w es w' \<and> (m \<longrightarrow> matching_end rt c v h es)"
proof -
  obtain y w1 where y: "send c VerifySend w = (Done y, w1)"
    "(if mv_attempts v = 0 then ret (False, y) else verify_poll rt c v h (mv_attempts v - 1) y) w1 = (Done (m, x), w')"
    using assms by (auto simp: verify_def seq_Done)
  obtain a where a: "y = response_of a" "advances w ([] @ [((c, IoSend VerifySend), a)]) w1" using send_Done [OF y(1)] by auto
  show ?thesis
  proof (cases "mv_attempts v = 0")
    case True
    then show ?thesis using y(2) a(2) by (auto simp: ret_Done)
  next
    case False
    then show ?thesis using verify_poll_Done [OF a(2)] y(2) a(1) by simp
  qed
qed

text \<open>
  An identity was verified: a request for the verification was answered by a response that matches, and the next operation
  journaled the stage.
\<close>

definition identity_checked :: "json_runtime \<Rightarrow> string \<Rightarrow> mutation_verification \<Rightarrow> journal_stage \<Rightarrow> exchange_log \<Rightarrow> bool" where
  "identity_checked rt c v st es \<longleftrightarrow>
     (\<exists>before_it r a after_it. es = before_it @ ((c, IoSend VerifySend), ReplyOk r) # ((c, IoAppend st), a) # after_it \<and>
        response_matches rt v None r)"

definition actor_checked :: "json_runtime \<Rightarrow> recovery_bundle \<Rightarrow> exchange_log \<Rightarrow> bool" where
  "actor_checked rt b es \<longleftrightarrow> (\<forall>actor. rb_actorBinding b = Some actor \<longrightarrow>
     (\<exists>v. rb_actorIdentityVerification b = Some v \<and> fingerprint rt (ib_expectedValue actor) = Inr (ib_identityFingerprint actor) \<and>
          identity_checked rt (rb_caseId b) v StActorIdentityVerified es))"

definition target_checked :: "json_runtime \<Rightarrow> recovery_bundle \<Rightarrow> exchange_log \<Rightarrow> bool" where
  "target_checked rt b es \<longleftrightarrow> (\<forall>v. rb_targetIdentityVerification b = Some v \<longrightarrow>
     (\<exists>as a fp. mv_assertions v = Some as \<and> a \<in> set as \<and> ma_operator a = OpEquals \<and>
          rb_targetIdentityFingerprint b = Some fp \<and> fp \<noteq> [] \<and> fingerprint rt (ma_expectedValue a) = Inr fp \<and>
          identity_checked rt (rb_caseId b) v StTargetIdentityVerified es))"

lemma identity_checkedI:
  assumes "matching_end rt c v None es"
  shows "identity_checked rt c v st (es @ [((c, IoAppend st), a)])"
proof -
  obtain l r where "es = l @ [((c, IoSend VerifySend), ReplyOk r)]" "response_matches rt v None r"
    using assms by (auto simp: matching_end_def)
  then have "es @ [((c, IoAppend st), a)] = l @ ((c, IoSend VerifySend), ReplyOk r) # ((c, IoAppend st), a) # [] \<and>
      response_matches rt v None r" by simp
  then show ?thesis unfolding identity_checked_def by blast
qed

lemma identity_checked_append:
  assumes "identity_checked rt c v st es"
  shows "identity_checked rt c v st (fs @ es @ gs)"
proof -
  obtain l r a k where "es = l @ ((c, IoSend VerifySend), ReplyOk r) # ((c, IoAppend st), a) # k" "response_matches rt v None r"
    using assms by (auto simp: identity_checked_def)
  then have "fs @ es @ gs = (fs @ l) @ ((c, IoSend VerifySend), ReplyOk r) # ((c, IoAppend st), a) # (k @ gs) \<and>
      response_matches rt v None r" by simp
  then show ?thesis unfolding identity_checked_def by blast
qed

lemma checked_append:
  "actor_checked rt b es \<Longrightarrow> actor_checked rt b (fs @ es @ gs)" "target_checked rt b es \<Longrightarrow> target_checked rt b (fs @ es @ gs)"
  unfolding actor_checked_def target_checked_def using identity_checked_append by blast+

lemma recover_actor_Done:
  assumes "recover_actor rt b w = (Done True, w')"
    and "\<not> (rb_actorBinding b \<noteq> None \<and> rb_actorIdentityVerification b = None)"
  shows "\<exists>es. advances w es w' \<and> actor_checked rt b es"
proof (cases "rb_actorBinding b")
  case None
  then show ?thesis using assms(1) advances_refl by (auto simp: recover_actor_def ret_Done actor_checked_def)
next
  case (Some actor)
  then obtain v where v: "rb_actorIdentityVerification b = Some v" using assms(2) by auto
  obtain x w1 u where st: "verify rt (rb_caseId b) v None w = (Done (True, x), w1)"
    "fingerprint rt (ib_expectedValue actor) = Inr (ib_identityFingerprint actor)"
    "append_entry (rb_caseId b) StActorIdentityVerified w1 = (Done u, w')"
    using assms(1) Some v by (auto simp: recover_actor_def Let_def exec_Done split: if_splits)
  obtain es where es: "advances w es w1" "matching_end rt (rb_caseId b) v None es" using verify_Done [OF st(1)] by blast
  obtain r where r: "advances w1 [((rb_caseId b, IoAppend StActorIdentityVerified), r)] w'" using append_Done [OF st(3)] by blast
  show ?thesis using advances_trans [OF es(1) r] identity_checkedI [OF es(2)] Some v st(2) by (auto simp: actor_checked_def)
qed

lemma recover_target_Done:
  assumes "recover_target rt b w = (Done True, w')"
  shows "\<exists>es. advances w es w' \<and> target_checked rt b es"
proof (cases "rb_targetIdentityVerification b")
  case None
  then show ?thesis using assms advances_refl by (auto simp: recover_target_def ret_Done target_checked_def)
next
  case (Some v)
  let ?as = "case mv_assertions v of None \<Rightarrow> [] | Some as \<Rightarrow> as"
  obtain m x w1 where m: "verify rt (rb_caseId b) v None w = (Done (m, x), w1)"
    using assms Some by (auto simp: recover_target_def Let_def seq_Done)
  obtain a where a: "find (\<lambda>a. ma_operator a = OpEquals) ?as = Some a"
    using assms Some m by (cases "find (\<lambda>a. ma_operator a = OpEquals) ?as") (auto simp: recover_target_def Let_def exec_Done)
  then have in_as: "\<exists>as. mv_assertions v = Some as \<and> a \<in> set as" "ma_operator a = OpEquals"
    by (auto dest: find_Some_set split: option.splits)
  obtain fp u where st: m "rb_targetIdentityFingerprint b = Some fp" "fp \<noteq> []"
    "fingerprint rt (ma_expectedValue a) = Inr fp" "append_entry (rb_caseId b) StTargetIdentityVerified w1 = (Done u, w')"
    using assms Some m a by (auto simp: recover_target_def Let_def exec_Done split: if_splits)
  obtain es where es: "advances w es w1" "matching_end rt (rb_caseId b) v None es" using verify_Done [OF m] st(1) by blast
  obtain r where r: "advances w1 [((rb_caseId b, IoAppend StTargetIdentityVerified), r)] w'" using append_Done [OF st(5)] by blast
  have "target_checked rt b (es @ [((rb_caseId b, IoAppend StTargetIdentityVerified), r)])"
    unfolding target_checked_def using identity_checkedI [OF es(2)] Some in_as st(2-4) by fastforce
  then show ?thesis using advances_trans [OF es(1) r] by blast
qed

text \<open>\<open>guarded\<close>: what holds of the operations that come before a request.\<close>

definition guarded :: "string \<Rightarrow> send_kind \<Rightarrow> ((string \<times> mutation_io) list \<Rightarrow> bool) \<Rightarrow> world \<Rightarrow> bool" where
  "guarded c k K w \<longleftrightarrow> (\<forall>pre post. wd_trace w = pre @ (c, IoSend k) # post \<longrightarrow> K pre)"

lemma before_guarded: "before c k S w \<Longrightarrow> guarded c k K w"
  by (auto simp: before_def has_def guarded_def)

interpretation guarded: stable_under "guarded c k K" c' "\<lambda>op. op \<noteq> IoSend k" for c k K c'
proof unfold_locales
  fix w op
  assume g: "op \<noteq> IoSend k" "guarded c k K w"
  show "guarded c k K (io_effect c' op w)" unfolding guarded_def
  proof (intro allI impI)
    fix pre post assume t: "wd_trace (io_effect c' op w) = pre @ (c, IoSend k) # post"
    with g(1) obtain post' where "post = post' @ [(c', op)]" by (cases post rule: rev_cases) auto
    with t have "wd_trace w = pre @ (c, IoSend k) # post'" by simp
    then show "K pre" using g(2) by (auto simp: guarded_def)
  qed
qed (simp add: guarded_def)

lemma send_guarded:
  "hoare (\<lambda>w. before c k S w \<and> K (wd_trace w)) (send c k) (\<lambda>_. guarded c k K) (guarded c k K) (guarded c k K)"
proof -
  have "guarded c k K (io_effect c (IoSend k) w)" "guarded c k K w" if "before c k S w" "K (wd_trace w)" for w
    using that by (auto simp: guarded_def before_def has_def append_eq_append_conv2 append_eq_Cons_conv Cons_eq_append_conv)
  then show ?thesis unfolding send_def
    by (intro hoare_seq [where Q = "\<lambda>_. guarded c k K"] hoare_perform hoare_ret)
      (auto simp: guarded_def before_def has_def)
qed

lemma recover_rollback_guarded:
  "hoare (\<lambda>w. before (rb_caseId b) RollbackSend S w \<and> K (wd_trace w)) (recover_rollback rt retain b)
     (\<lambda>_. guarded (rb_caseId b) RollbackSend K) (guarded (rb_caseId b) RollbackSend K) (guarded (rb_caseId b) RollbackSend K)"
  unfolding recover_rollback_def Let_def
  by (rule hoare_seq [OF send_guarded]) (simp_all add: keep keeps_def [symmetric])

lemma hoare_of_Done: "(\<And>w x w'. P w \<Longrightarrow> m w = (Done x, w') \<Longrightarrow> Q x w') \<Longrightarrow> hoare P m Q (\<lambda>_. True) (\<lambda>_. True)"
  unfolding hoare_def by (auto split: prod.splits outcome.splits)

text \<open>
  From a fresh trace, the answers that the operations before the rollback got show the identities of the bundle.
\<close>

lemma recover_locked_guarded:
  fixes w0 b rt
  assumes bound: "\<not> (rb_actorBinding b \<noteq> None \<and> rb_actorIdentityVerification b = None)" and fresh: "wd_trace w0 = []"
  defines "K \<equiv> \<lambda>pre. actor_checked rt b (zip pre (wd_replies w0)) \<and> target_checked rt b (zip pre (wd_replies w0))"
  defines "G \<equiv> guarded (rb_caseId b) RollbackSend K"
  shows "hoare (\<lambda>w. before (rb_caseId b) RollbackSend {} w \<and> (\<exists>es. advances w0 es w)) (recover_locked rt opt b) (\<lambda>_. G) G G"
proof -
  let ?B = "before (rb_caseId b) RollbackSend {}"
  let ?A = "\<lambda>w. \<exists>es. advances w0 es w \<and> actor_checked rt b es"
  let ?T = "\<lambda>w. \<exists>es. advances w0 es w \<and> actor_checked rt b es \<and> target_checked rt b es"
  have weak: "?B w \<Longrightarrow> G w" for w unfolding G_def by (rule before_guarded)
  have fail: "hoare ?B (recoveryBindingFailure (rb_caseId b)) (\<lambda>_. G) G G"
    unfolding recoveryBindingFailure_def by (rule keepsD [where I = ?B]) (auto simp: keep intro: weak)
  have "keeps ?B (recover_actor rt b)" "keeps ?B (recover_target rt b)"
    unfolding recover_actor_def recover_target_def Let_def by (auto simp: keep split: option.split)
  then have B: "hoare ?B (recover_actor rt b) (\<lambda>_. ?B) ?B ?B" "hoare ?B (recover_target rt b) (\<lambda>_. ?B) ?B ?B"
    unfolding keeps_def by this+
  have "hoare (\<lambda>w. \<exists>es. advances w0 es w) (recover_actor rt b) (\<lambda>ok w. ok \<longrightarrow> ?A w) (\<lambda>_. True) (\<lambda>_. True)"
  proof (intro hoare_of_Done impI)
    fix w ok w' assume st: "\<exists>es. advances w0 es w" "recover_actor rt b w = (Done ok, w')" ok
    then obtain es where "advances w0 es w" by blast
    moreover obtain fs where "advances w fs w'" "actor_checked rt b fs" using recover_actor_Done [OF _ bound, of rt w w'] st(2,3) by auto
    ultimately have "advances w0 (es @ fs) w'" "actor_checked rt b fs" using advances_trans by blast+
    then show "?A w'" using checked_append(1) [of rt b fs es "[]"] by auto
  qed
  from hoare_conj [OF B(1) this] have actor: "hoare (\<lambda>w. ?B w \<and> (\<exists>es. advances w0 es w)) (recover_actor rt b)
      (\<lambda>ok w. ?B w \<and> (ok \<longrightarrow> ?A w)) G G"
    by (rule hoare_weaken) (auto intro: weak)
  have "hoare ?A (recover_target rt b) (\<lambda>ok w. ok \<longrightarrow> ?T w) (\<lambda>_. True) (\<lambda>_. True)"
  proof (intro hoare_of_Done impI)
    fix w ok w' assume st: "?A w" "recover_target rt b w = (Done ok, w')" ok
    then obtain es where es: "advances w0 es w" "actor_checked rt b es" by blast
    obtain fs where fs: "advances w fs w'" "target_checked rt b fs" using recover_target_Done [of rt b w w'] st(2,3) by auto
    show "?T w'"
      using advances_trans [OF es(1) fs(1)] checked_append(1) [OF es(2), of "[]" fs] checked_append(2) [OF fs(2), of es "[]"] by auto
  qed
  from hoare_conj [OF B(2) this] have target: "hoare (\<lambda>w. ?B w \<and> ?A w) (recover_target rt b)
      (\<lambda>ok w. ?B w \<and> (ok \<longrightarrow> ?T w)) G G"
    by (rule hoare_weaken) (auto intro: weak)
  have known: "?T w \<Longrightarrow> K (wd_trace w)" for w
    using advances_log [OF _ fresh] unfolding K_def by blast
  have "hoare (\<lambda>w. ?B w \<and> ?T w) (recover_rollback rt (eo_retain opt) b) (\<lambda>_. G) G G"
    unfolding G_def by (rule hoare_weaken [OF recover_rollback_guarded [of b "{}"]]) (auto intro!: known)
  then have go: "hoare (\<lambda>w. ?B w \<and> (ok \<longrightarrow> ?T w))
      (if \<not> ok then recoveryBindingFailure (rb_caseId b) else recover_rollback rt (eo_retain opt) b) (\<lambda>_. G) G G" for ok
    using fail by (cases ok) simp_all
  have "hoare (\<lambda>w. ?B w \<and> (ok \<longrightarrow> ?A w))
      (if \<not> ok then recoveryBindingFailure (rb_caseId b) else seq_exec (recover_target rt b) (\<lambda>targetOk.
        if \<not> targetOk then recoveryBindingFailure (rb_caseId b) else recover_rollback rt (eo_retain opt) b)) (\<lambda>_. G) G G" for ok
    using fail hoare_seq [OF target go] by (cases ok) simp_all
  then show ?thesis unfolding recover_locked_def by (rule hoare_seq [OF actor])
qed

lemma recover_guarded:
  assumes "recovery_binding rt b caseId now = Inr ()" "wd_trace w = []"
  shows "guarded caseId RollbackSend (\<lambda>pre. actor_checked rt b (zip pre (wd_replies w)) \<and> target_checked rt b (zip pre (wd_replies w)))
    (snd (recover rt opt (Some b) caseId now w))"
proof -
  let ?G = "guarded caseId RollbackSend (\<lambda>pre. actor_checked rt b (zip pre (wd_replies w)) \<and> target_checked rt b (zip pre (wd_replies w)))"
  note binding = recovery_binding_Inr [OF assms(1)]
  have start: "before caseId RollbackSend {} w" using assms(2) by (simp add: before_def has_def)
  let ?B = "before caseId RollbackSend {}"
  have lock1: "hoare ?B (perform caseId (IoLock True)) (\<lambda>_. ?B) ?B ?B"
    by (rule keepsD [where I = ?B]) (simp_all add: keep)
  have lock2: "hoare (\<lambda>w'. w' = w) (perform caseId (IoLock True)) (\<lambda>_ w'. \<exists>es. advances w es w') (\<lambda>_. True) (\<lambda>_. True)"
    by (rule hoare_of_Done) (use perform_Done in blast)
  have lock: "hoare (\<lambda>w'. ?B w' \<and> w' = w) (perform caseId (IoLock True)) (\<lambda>_ w'. ?B w' \<and> (\<exists>es. advances w es w')) ?G ?G"
    by (rule hoare_weaken [OF hoare_conj [OF lock1 lock2]]) (simp_all add: before_guarded)
  have release: "hoare ?G (perform caseId IoRelease) (\<lambda>_. ?G) ?G ?G"
    using keeps_def [of ?G] by (simp add: keep flip: keeps_def)
  note locked = recover_locked_guarded [OF binding(2) assms(2), of rt opt, unfolded binding(1)]
  show ?thesis unfolding recover_unfold [OF assms(1)]
    by (rule hoare_exit [OF hoare_seq [OF lock hoare_finally [OF locked release release]]]) (use start in simp)
qed

lemma recover_locked_settled:
  "hoare (pending (rb_caseId b)) (recover_locked rt opt b) (\<lambda>r. cleaned (rb_caseId b) (er_cleanup r)) (settled (rb_caseId b)) (settled (rb_caseId b))"
proof -
  let ?c = "rb_caseId b"
  have step: "hoare (pending ?c) m (\<lambda>_. pending ?c) (settled ?c) (settled ?c)" if "keeps (pending ?c) m" for m :: "bool exec"
    using that by (rule keepsD) auto
  have identity: "keeps (pending ?c) (recover_actor rt b)" "keeps (pending ?c) (recover_target rt b)"
    unfolding recover_actor_def recover_target_def Let_def by (auto simp: keep split: option.split)
  have fail: "hoare (pending ?c) (recoveryBindingFailure ?c) (\<lambda>r. cleaned ?c (er_cleanup r)) (settled ?c) (settled ?c)"
    unfolding recoveryBindingFailure_def
    by (rule hoare_seq [where Q = "\<lambda>_. pending ?c", OF keepsD [where I = "pending ?c"] hoare_ret])
      (auto simp: keep cleaned_def recovered_def)
  have roll: "hoare (pending ?c) (recover_rollback rt (eo_retain opt) b) (\<lambda>r. cleaned ?c (er_cleanup r)) (settled ?c) (settled ?c)"
    by (rule hoare_weaken [OF recover_rollback_settled]) auto
  show ?thesis unfolding recover_locked_def
    by (intro hoare_seq [OF step] hoare_if fail roll) (simp_all add: identity)
qed

interpretation cleaned: stable_under "cleaned c x" c "\<lambda>op. op = IoRelease" for c x
  by unfold_locales (auto simp: cleaned_def intro: settled.replies settled.step)

lemma recover_settled:
  "hoare (pending caseId) (recover rt opt opened caseId now) (\<lambda>r. cleaned caseId (er_cleanup r)) (settled caseId) (settled caseId)"
proof (cases "\<exists>b. opened = Some b \<and> recovery_binding rt b caseId now = Inr ()")
  case True
  then obtain b where b: "opened = Some b" "recovery_binding rt b caseId now = Inr ()" by blast
  note c = recovery_binding_Inr(1) [OF b(2)]
  have lock: "hoare (pending caseId) (perform caseId (IoLock True)) (\<lambda>_. pending caseId) (settled caseId) (settled caseId)"
    by (rule keepsD [where I = "pending caseId"]) (auto simp: keep)
  have release: "hoare (cleaned caseId x) (perform caseId IoRelease) (\<lambda>_. cleaned caseId x) (settled caseId) (settled caseId)" for x
    by (rule keepsD [where I = "cleaned caseId x"]) (auto simp: keep cleaned_def)
  have throw: "hoare (settled caseId) (perform caseId IoRelease) (\<lambda>_. settled caseId) (settled caseId) (settled caseId)"
    by (rule keepsD [where I = "settled caseId"]) (simp_all add: keep)
  show ?thesis unfolding b(1) recover_unfold [OF b(2)]
    using hoare_seq [OF lock hoare_finally [OF recover_locked_settled [of b rt opt, unfolded c] release throw]] .
next
  case False
  then have "recover rt opt opened caseId now = throw_error"
    by (cases opened) (simp_all add: recover_refused recover_None)
  then show ?thesis by (auto intro!: hoare_throw)
qed

end
