(* ===== verification/RC_MutationRuns.thy ===== *)
theory RC_MutationRuns
  imports RC_MutationFacts
begin

text \<open>
  The properties of the controlled mutation executor: single executions and recoveries, histories of many of them with
  crashes in between, the number of operations of an execution, and the agreement of the three readers of a
  cleanup obligation.
\<close>

section \<open>Runs of many executions and recoveries\<close>

definition sole :: "string \<Rightarrow> world \<Rightarrow> bool" where
  "sole c w \<longleftrightarrow> (\<forall>c'. outstanding c' (wd_trace w) \<longrightarrow> c' = c)"

definition single :: "world \<Rightarrow> bool" where
  "single w \<longleftrightarrow> (\<forall>c1 c2. outstanding c1 (wd_trace w) \<longrightarrow> outstanding c2 (wd_trace w) \<longrightarrow> c1 = c2)"

interpretation sole: stable_under "sole c" c "\<lambda>_. True" for c
  by unfold_locales (auto simp: sole_def)

interpretation single: stable_under single c "\<lambda>op. op \<noteq> IoSend AttackSend" for c
  by unfold_locales (auto simp: single_def)

interpretation bystander: stable_under "\<lambda>w. c' \<noteq> c \<longrightarrow> remembered c' w" c "\<lambda>_. True" for c c'
  by unfold_locales (auto simp: remembered_def pending_def split: mutation_io.splits)

interpretation registered: stable_under wd_registered c "\<lambda>_. True" for c
  by unfold_locales (simp_all add: io_effect_def)

interpretation rolled: stable_under "\<lambda>w. \<not> outstanding c (wd_trace w)" c "\<lambda>op. op \<noteq> IoSend AttackSend" for c
  by unfold_locales simp_all

text \<open>An invariant that only an attack can break is kept by every recovery.\<close>

locale kept_by_recovery = stable_under I c quiet for I c quiet +
  assumes only_attack: "op \<noteq> IoSend AttackSend \<Longrightarrow> quiet op"
begin

lemma identity_all:
  assumes "rb_caseId b = c"
  shows "keeps I (recover_actor rt b)" "keeps I (recover_target rt b)"
proof -
  show "keeps I (recover_actor rt b)" unfolding recover_actor_def Let_def assms
    by (cases "rb_actorBinding b"; cases "rb_actorIdentityVerification b") (simp_all add: keep only_attack)
  have "keeps I (case x of None \<Rightarrow> ret False | Some a \<Rightarrow> f a)" if "\<And>a. keeps I (f a)" for x :: "mutation_assertion option" and f
    using that by (cases x) (simp_all add: keep only_attack)
  then show "keeps I (recover_target rt b)" unfolding recover_target_def Let_def assms
    by (cases "rb_targetIdentityVerification b") (simp_all add: keep only_attack)
qed

lemma recover_locked_all:
  assumes "rb_caseId b = c"
  shows "keeps I (recover_locked rt opt b)"
  unfolding recover_locked_def recoveryBindingFailure_def recover_rollback_def Let_def assms
  by (simp add: keep identity_all assms only_attack)

lemma recover_all: "keeps I (recover rt opt opened c now)"
proof (cases opened)
  case (Some b)
  show ?thesis
  proof (cases "recovery_binding rt b c now = Inr ()")
    case True
    show ?thesis unfolding Some recover_unfold [OF True]
      by (simp add: keep only_attack recover_locked_all recovery_binding_Inr(1) [OF True])
  qed (simp add: Some recover_refused keep)
qed (simp add: recover_None keep)

end

text \<open>An invariant that every operation of a case keeps is kept by its executions and recoveries.\<close>

locale kept_by_all = kept_by_recovery I c "\<lambda>_. True" for I c
begin

lemma rollback_all: "ct_caseId ct = c \<Longrightarrow> keeps I (rollback rt opt ct h)"
  unfolding rollback_def Let_def by (simp add: keep)

lemma run_armed_all: "ct_caseId ct = c \<Longrightarrow> keeps I (run_armed rt opt ct h)"
  unfolding run_armed_def cleanup_after_def Let_def by (simp add: keep rollback_all)

lemma prepare_all: "ct_caseId ct = c \<Longrightarrow> keeps I (prepare_phase rt ct)"
  unfolding prepare_phase_def Let_def by (cases "ct_identity ct") (simp_all add: keep)

lemma arm_all:
  assumes "ct_caseId ct = c"
  shows "keeps I (arm rt ct)"
proof -
  have "keeps I (case pre of None \<Rightarrow> ret Stopped
      | Some h \<Rightarrow> seq_exec (perform c IoSeal) (\<lambda>_. seq_exec (append_entry c StMutationArmed) (\<lambda>_. ret (Armed (Some h)))))" for pre
    by (cases pre) (simp_all add: keep)
  then show ?thesis unfolding arm_def assms by (simp add: keep prepare_all assms)
qed

lemma execute_locked_all:
  assumes "ct_caseId ct = c"
  shows "keeps I (execute_locked rt opt ct)"
proof -
  have "keeps I (case a of Blocked \<Rightarrow> ret (simple_result BlockedBySafety) | Stopped \<Rightarrow> ret (simple_result Inconclusive) | Armed h \<Rightarrow> run_armed rt opt ct h)" for a
    by (cases a) (simp_all add: keep run_armed_all assms)
  then show ?thesis unfolding execute_locked_def seal_inconclusive_def assms by (simp add: keep arm_all assms)
qed

lemma execute_all:
  assumes "ct_caseId ct = c"
  shows "keeps I (execute rt opt ct now)"
proof (cases "authorizeControlledMutation rt ct now")
  case (Inl e)
  then show ?thesis unfolding execute_def Let_def assms by (cases e) (simp_all add: keep)
next
  case (Inr u)
  then show ?thesis unfolding execute_def Let_def assms by (simp add: keep execute_locked_all assms)
qed

end

interpretation sole_all: kept_by_all "sole c" c for c
  by unfold_locales simp

interpretation bystander_all: kept_by_all "\<lambda>w. c' \<noteq> c \<longrightarrow> remembered c' w" c for c c'
  by unfold_locales simp

interpretation registered_all: kept_by_all wd_registered c for c
  by unfold_locales simp

interpretation calm_recovery: kept_by_recovery "before c AttackSend S" c' "\<lambda>op. op \<noteq> IoSend AttackSend" for c S c'
  by unfold_locales simp

interpretation single_recovery: kept_by_recovery single c "\<lambda>op. op \<noteq> IoSend AttackSend" for c
  by unfold_locales simp

interpretation rolled_recovery: kept_by_recovery "\<lambda>w. \<not> outstanding c (wd_trace w)" c "\<lambda>op. op \<noteq> IoSend AttackSend" for c
  by unfold_locales simp

text \<open>What the lock grants for new work: no target of a registered directory may still be changed.\<close>

lemma lock_idle:
  "hoare (\<lambda>w. wd_registered w \<and> (\<forall>c. remembered c w) \<and> single w) (perform c (IoLock False)) (\<lambda>_. sole c) single single"
proof (rule hoare_perform)
  fix w r rs assume w: "wd_registered w \<and> (\<forall>c. remembered c w) \<and> single w" "\<not> io_refused c (IoLock False) w"
  then have "directory_clear (wd_dir w) = Inr ()" by (simp add: io_refused_def lock_check_def result_split)
  then have "\<not> pending c' w" for c' using pending_not_clear [of c' "wd_dir w"] by (auto simp: invariant_defs)
  then show "sole c (io_effect c (IoLock False) (w\<lparr>wd_replies := rs\<rparr>))" using w by (auto simp: sole_def remembered_def)
qed (auto intro: single.replies single.step)

lemma sole_single: "sole c w \<Longrightarrow> single w"
  by (auto simp: sole_def single_def)

lemma execute_single:
  "hoare (\<lambda>w. wd_registered w \<and> (\<forall>c. remembered c w) \<and> single w) (execute rt opt ct now) (\<lambda>_. single) single single"
proof -
  let ?c = "ct_caseId ct" and ?P = "\<lambda>w. wd_registered w \<and> (\<forall>c. remembered c w) \<and> single w"
  have quiet: "hoare ?P m (\<lambda>_. single) single single" if "keeps single m" for m :: "mutation_result exec"
    using that by (rule keepsD) auto
  have lock: "hoare ?P (catch_exec (seq_exec (perform ?c (IoLock False)) (\<lambda>_. ret True)) (ret False))
      (\<lambda>locked. if locked then sole ?c else single) single single"
    by (intro hoare_catch [where F = single] hoare_seq [OF lock_idle] hoare_ret) simp_all
  have locked: "hoare (if locked then sole ?c else single)
      (if locked then finally_exec (execute_locked rt opt ct) (perform ?c IoRelease) else ret (simple_result BlockedBySafety))
      (\<lambda>_. single) single single" for locked
    by (cases locked)
      (auto intro!: hoare_ret keepsD [where I = "sole ?c"] intro: sole_single simp: keep sole_all.execute_locked_all)
  show ?thesis
  proof (cases "authorizeControlledMutation rt ct now")
    case (Inl e)
    then show ?thesis unfolding execute_def Let_def
      by (cases e) (auto intro!: quiet simp: keep)
  next
    case (Inr u)
    then show ?thesis unfolding execute_def Let_def by (simp add: hoare_seq [OF lock locked])
  qed
qed

lemma settled_remembered: "settled c w \<Longrightarrow> remembered c w"
  by (auto simp: settled_def remembered_def pending_def)

lemma hoare_any: "hoare P m (\<lambda>_ _. True) (\<lambda>_. True) (\<lambda>_. True)"
  by (simp add: hoare_def split: prod.split outcome.split)

lemma arm_pending:
  "hoare (remembered (ct_caseId ct)) (arm rt ct) (\<lambda>a. case a of Armed h \<Rightarrow> pending (ct_caseId ct) | _ \<Rightarrow> remembered (ct_caseId ct))
     (remembered (ct_caseId ct)) (remembered (ct_caseId ct))"
proof -
  let ?c = "ct_caseId ct" and ?r = "remembered (ct_caseId ct)"
  have seal: "hoare ?r (perform ?c IoSeal) (\<lambda>_ w. ?r w \<and> sealed ?c w) ?r ?r"
    by (rule hoare_perform) (auto simp: remembered_def pending_def)
  have armed: "hoare (\<lambda>w. ?r w \<and> sealed ?c w) (append_entry ?c StMutationArmed) (\<lambda>_. pending ?c) ?r ?r"
    unfolding append_entry_def by (rule hoare_seq [OF hoare_perform [where Q = "\<lambda>_. pending ?c"] hoare_ret])
      (auto simp: remembered_def pending_def)
  have tail: "hoare ?r (case pre of None \<Rightarrow> ret Stopped
      | Some h \<Rightarrow> seq_exec (perform ?c IoSeal) (\<lambda>_. seq_exec (append_entry ?c StMutationArmed) (\<lambda>_. ret (Armed (Some h)))))
      (\<lambda>a. case a of Armed h \<Rightarrow> pending ?c | _ \<Rightarrow> ?r) ?r ?r" for pre
    by (cases pre) (auto intro!: hoare_ret hoare_seq [OF seal] hoare_seq [OF armed])
  have prepare: "hoare ?r (prepare_phase rt ct) (\<lambda>_. ?r) ?r ?r"
    unfolding prepare_phase_def Let_def by (cases "ct_identity ct") (simp_all add: keep flip: keeps_def)
  have read: "hoare ?r (read_unresolved ?c) (\<lambda>_. ?r) ?r ?r"
    by (simp add: keep flip: keeps_def)
  show ?thesis unfolding arm_def
    by (intro hoare_seq [OF read] hoare_if hoare_seq [OF prepare tail] hoare_ret) auto
qed

lemma execute_locked_remembers: "keeps (remembered (ct_caseId ct)) (execute_locked rt opt ct)"
proof -
  let ?c = "ct_caseId ct" and ?r = "remembered (ct_caseId ct)"
  have seal: "hoare ?r (seal_inconclusive ct) (\<lambda>_. ?r) ?r ?r"
    unfolding seal_inconclusive_def by (simp add: keep flip: keeps_def)
  have "hoare (pending ?c) (run_armed rt opt ct h) (\<lambda>_. ?r) ?r ?r" for h
    by (rule hoare_weaken [OF run_armed_triple]) (auto simp: cleaned_def intro: settled_remembered)
  then have "hoare (case a of Armed h \<Rightarrow> pending ?c | _ \<Rightarrow> ?r)
     (case a of Blocked \<Rightarrow> ret (simple_result BlockedBySafety) | Stopped \<Rightarrow> ret (simple_result Inconclusive) | Armed h \<Rightarrow> run_armed rt opt ct h)
     (\<lambda>_. ?r) ?r ?r" for a
    by (cases a) (auto intro!: hoare_ret)
  then show ?thesis unfolding execute_locked_def keeps_def by (rule hoare_try_step [OF arm_pending seal])
qed

lemma execute_remembers: "keeps (remembered (ct_caseId ct)) (execute rt opt ct now)"
proof (cases "authorizeControlledMutation rt ct now")
  case (Inl e)
  then show ?thesis unfolding execute_def Let_def by (cases e) (simp_all add: keep)
next
  case (Inr u)
  then show ?thesis unfolding execute_def Let_def by (simp add: keep execute_locked_remembers)
qed

lemma recover_remembers:
  assumes "remembered c w"
  shows "remembered c (snd (recover rt opt opened c now w))"
proof (cases "outstanding c (wd_trace w)")
  case True
  then have "pending c w" using assms by (simp add: remembered_def)
  moreover have "hoare (pending c) (recover rt opt opened c now) (\<lambda>_. remembered c) (remembered c) (remembered c)"
    by (rule hoare_weaken [OF recover_settled]) (auto simp: cleaned_def intro: settled_remembered)
  ultimately show ?thesis by (rule hoare_exit [rotated])
next
  case False
  then have "\<not> outstanding c (wd_trace (snd (recover rt opt opened c now w)))"
    using hoare_exit [OF rolled_recovery.recover_all [unfolded keeps_def]] by simp
  then show ?thesis by (simp add: remembered_def)
qed

text \<open>
  A history of a journal directory that is registered with the lock: any executions and recoveries of any cases, each with
  its own answers (and so with its own crash), between them any change of the other registered directories.
\<close>

inductive history :: "world \<Rightarrow> bool" where
  start: "wd_trace w = [] \<Longrightarrow> wd_registered w \<Longrightarrow> history w"
| execute: "history w \<Longrightarrow> history (snd (execute rt opt ct now (w\<lparr>wd_replies := rs, wd_others := ds\<rparr>)))"
| recover: "history w \<Longrightarrow> history (snd (recover rt opt opened caseId now (w\<lparr>wd_replies := rs, wd_others := ds\<rparr>)))"

lemma keeps_snd: "keeps I m \<Longrightarrow> I w \<Longrightarrow> I (snd (m w))"
  unfolding keeps_def by (rule hoare_exit)

lemma others_simps [simp]:
  "remembered c (w\<lparr>wd_replies := rs, wd_others := ds\<rparr>) = remembered c w"
  "single (w\<lparr>wd_replies := rs, wd_others := ds\<rparr>) = single w"
  by (simp_all add: remembered_def pending_def sealed_def stage_of_def single_def)

lemma history_inv: "history w \<Longrightarrow> wd_registered w \<and> (\<forall>c. remembered c w) \<and> single w"
proof (induction rule: history.induct)
  case (start w)
  then show ?case by (simp add: remembered_def single_def)
next
  case (execute w rt opt ct now ds rs)
  let ?w = "w\<lparr>wd_replies := rs, wd_others := ds\<rparr>"
  have "remembered c (snd (execute rt opt ct now ?w))" for c
    using keeps_snd [OF execute_remembers, of ct ?w rt opt now] keeps_snd [OF bystander_all.execute_all [OF refl], of c ct ?w rt opt now] execute.IH
    by (cases "c = ct_caseId ct") simp_all
  then show ?case
    using keeps_snd [OF registered_all.execute_all [OF refl], of ?w rt opt ct now] hoare_exit [OF execute_single, of ?w rt opt ct now] execute.IH
    by simp
next
  case (recover w rt opt opened caseId now ds rs)
  let ?w = "w\<lparr>wd_replies := rs, wd_others := ds\<rparr>"
  have "remembered c (snd (recover rt opt opened caseId now ?w))" for c
    using recover_remembers [of caseId ?w rt opt opened now] keeps_snd [OF bystander_all.recover_all, of c caseId ?w rt opt opened now] recover.IH
    by (cases "c = caseId") simp_all
  then show ?case
    using keeps_snd [OF registered_all.recover_all, of ?w rt opt opened caseId now]
      keeps_snd [OF single_recovery.recover_all, of ?w rt opt opened caseId now] recover.IH
    by simp
qed

section \<open>How many operations an execution makes\<close>

definition fuel :: "nat \<Rightarrow> world \<Rightarrow> bool" where
  "fuel n w \<longleftrightarrow> n \<le> length (wd_replies w)"

text \<open>\<open>spends n m\<close>: with \<open>n\<close> answers to come the execution reaches an exit, and it leaves the answers beyond these.\<close>

definition spends :: "nat \<Rightarrow> 'a exec \<Rightarrow> bool" where
  "spends n m \<longleftrightarrow> (\<forall>k. hoare (fuel (n + k)) m (\<lambda>_. fuel k) (fuel k) (\<lambda>_. False))"

lemma spendsD: "spends n m \<Longrightarrow> hoare (fuel (n + k)) m (\<lambda>_. fuel k) (fuel k) (\<lambda>_. False)"
  by (simp add: spends_def)

lemma hoare_no_crash: "hoare P m Q E (\<lambda>_. False) \<Longrightarrow> P w \<Longrightarrow> fst (m w) \<noteq> Crashed"
  unfolding hoare_def by (cases "m w") fastforce

lemma fuel_mono: "fuel n w \<Longrightarrow> m \<le> n \<Longrightarrow> fuel m w"
  by (simp add: fuel_def)

lemma spends_mono: "spends n m \<Longrightarrow> n \<le> n' \<Longrightarrow> spends n' m"
  unfolding spends_def by (intro allI, erule allE, erule hoare_weaken) (auto elim: fuel_mono)

lemma spends_ret: "spends n (ret x)"
  by (auto simp: spends_def intro!: hoare_ret elim: fuel_mono)

lemma spends_throw: "spends n throw_error"
  by (auto simp: spends_def intro!: hoare_throw elim: fuel_mono)

lemma spends_perform: "spends 1 (perform c op)"
  by (auto simp: spends_def hoare_def perform_def fuel_def Let_def io_effect_def split: list.splits)

lemma spends_read: "spends 1 (read_unresolved c)"
  by (auto simp: spends_def hoare_def read_unresolved_def seq_exec_def perform_def fuel_def Let_def io_effect_def split: list.splits)

lemma spends_seq:
  assumes "spends a m" "\<And>x. spends b (f x)"
  shows "spends (a + b) (seq_exec m f)"
proof -
  have "hoare (fuel (a + b + k)) (seq_exec m f) (\<lambda>_. fuel k) (fuel k) (\<lambda>_. False)" for k
  proof (rule hoare_seq [where Q = "\<lambda>_. fuel (b + k)"])
    show "hoare (fuel (a + b + k)) m (\<lambda>_. fuel (b + k)) (fuel k) (\<lambda>_. False)"
      by (rule hoare_weaken [OF spendsD [OF assms(1), of "b + k"]]) (auto simp: add.assoc elim: fuel_mono)
  qed (rule spendsD [OF assms(2)])
  then show ?thesis by (simp add: spends_def)
qed

lemma spends_map: "spends a m \<Longrightarrow> spends a (seq_exec m (\<lambda>x. ret (g x)))"
  using spends_seq [of a m 0 "\<lambda>x. ret (g x)", OF _ spends_ret] by simp

lemma spends_try_step:
  assumes "spends a m" "spends b h" "\<And>x. spends b (f x)"
  shows "spends (a + b) (try_step h m f)"
proof -
  have "hoare (fuel (a + b + k)) (try_step h m f) (\<lambda>_. fuel k) (fuel k) (\<lambda>_. False)" for k
  proof (rule hoare_try_step [where Q = "\<lambda>_. fuel (b + k)" and F = "fuel (b + k)"])
    show "hoare (fuel (a + b + k)) m (\<lambda>_. fuel (b + k)) (fuel (b + k)) (\<lambda>_. False)"
      by (rule hoare_weaken [OF spendsD [OF assms(1), of "b + k"]]) (auto simp: add.assoc)
  qed (rule spendsD [OF assms(2)], rule spendsD [OF assms(3)])
  then show ?thesis by (simp add: spends_def)
qed

lemma catch_try: "catch_exec m h = try_step h m ret"
  by (rule ext) (simp add: catch_exec_def try_step_def ret_def split: prod.split outcome.split)

lemma finally_try: "finally_exec m f = try_step (seq_exec f (\<lambda>_. throw_error)) m (\<lambda>x. seq_exec f (\<lambda>_. ret x))"
  by (rule ext) (simp add: finally_exec_def try_step_def split: prod.split outcome.split)

lemma spends_catch:
  assumes "spends a m" "spends b h"
  shows "spends (a + b) (catch_exec m h)"
  unfolding catch_try by (rule spends_try_step [OF assms spends_ret])

lemma spends_finally:
  assumes "spends a m" "spends b f"
  shows "spends (a + b) (finally_exec m f)"
  unfolding finally_try
  using spends_seq [OF assms(2) spends_throw [of 0]]
  by (intro spends_try_step [OF assms(1) _ spends_map [OF assms(2)]]) simp

lemma spends_pair: "(\<And>a b. spends n (f a b)) \<Longrightarrow> spends n (case p of (a, b) \<Rightarrow> f a b)"
  by (cases p) simp

lemma spends_if: "(t \<Longrightarrow> spends n m) \<Longrightarrow> (\<not> t \<Longrightarrow> spends n m') \<Longrightarrow> spends n (if t then m else m')"
  by simp

lemma spends_send: "spends 1 (send c k)"
  unfolding send_def by (rule spends_map [OF spends_perform])

lemma spends_append: "spends 1 (append_entry c st)"
  unfolding append_entry_def by (rule spends_map [OF spends_perform])

lemma spends_browser: "spends 1 (browser_proof observer c)"
  unfolding browser_proof_def by (intro spends_if spends_map [OF spends_perform] spends_ret)

lemma spends_remove: "spends 1 (vault_remove retain c)"
  unfolding vault_remove_def
  using spends_catch [OF spends_map [OF spends_perform] spends_ret [of 0]] by (auto intro: spends_ret)

lemma spends_poll: "spends (2 * n) (verify_poll rt c v h n r)"
proof (induction n arbitrary: r)
  case 0
  show ?case unfolding verify_poll.simps [of _ _ _ _ 0] by (simp add: spends_ret)
next
  case (Suc n)
  have "spends (1 + (1 + 2 * n)) (seq_exec (perform c IoSleep) (\<lambda>_. seq_exec (send c VerifySend) (verify_poll rt c v h n)))"
    by (intro spends_seq spends_perform spends_send Suc)
  then show ?case unfolding verify_poll.simps [of _ _ _ _ "Suc n"] by (simp add: spends_ret)
qed

definition verify_cost :: "mutation_verification \<Rightarrow> nat" where
  "verify_cost v = 1 + 2 * (mv_attempts v - 1)"

lemma spends_verify: "spends (verify_cost v) (verify rt c v h)"
  unfolding verify_def verify_cost_def by (intro spends_seq spends_send spends_if spends_poll spends_ret)

definition optional_cost :: "mutation_verification option \<Rightarrow> nat" where
  "optional_cost v = (case v of None \<Rightarrow> 0 | Some x \<Rightarrow> verify_cost x)"

definition rollback_cost :: "mutation_contract \<Rightarrow> nat" where
  "rollback_cost ct = 1 + (1 + (verify_cost (ct_rollbackVerification ct) + (1 + (1 + 1))))"

lemma spends_rollback: "spends (rollback_cost ct) (rollback rt opt ct h)"
  unfolding rollback_def rollback_cost_def Let_def
  by (intro spends_seq spends_send spends_append spends_verify spends_browser spends_pair spends_if spends_ret spends_map [OF spends_remove])

lemma spends_cleanup_after: "spends (rollback_cost ct) (cleanup_after rt opt ct h s)"
  unfolding cleanup_after_def
  using spends_map [OF spends_catch [OF spends_rollback spends_ret [of 0]]] by simp

text \<open>The armed part: the attack, its verifications and at most two rollbacks.\<close>

definition armed_cost :: "mutation_contract \<Rightarrow> nat" where
  "armed_cost ct = 1 + (1 + (verify_cost (ct_impact ct) + (1 + (optional_cost (ct_protectedAction ct) + (1 + (rollback_cost ct + rollback_cost ct))))))"

lemma spends_protected: "spends (optional_cost (ct_protectedAction ct)) (protected_check rt ct s)"
proof (cases "ct_protectedAction ct")
  case (Some v)
  have "spends (verify_cost v + 0) (seq_exec (verify rt (ct_caseId ct) v None) (\<lambda>(matched, _). ret (if matched then s else Inconclusive)))"
    by (intro spends_seq spends_verify spends_pair spends_ret)
  then show ?thesis using Some by (simp add: protected_check_def optional_cost_def)
qed (simp add: protected_check_def spends_ret)

lemma spends_armed_step:
  assumes "spends a m" "rollback_cost ct \<le> b" "\<And>x. spends b (k x)"
  shows "spends (a + b) (try_step (cleanup_after rt opt ct h s) m k)"
  by (rule spends_try_step [OF assms(1) spends_mono [OF spends_cleanup_after assms(2)] assms(3)])

lemma spends_run_armed: "spends (armed_cost ct) (run_armed rt opt ct h)"
proof -
  have browser: "spends 1 (browser_check opt ct s)" for s
    unfolding browser_check_def by (rule spends_map [OF spends_browser])
  show ?thesis unfolding run_armed_def armed_cost_def Let_def
    by (intro spends_armed_step spends_send spends_append spends_verify spends_protected browser spends_rollback spends_pair spends_ret) simp_all
qed

definition prepare_cost :: "mutation_contract \<Rightarrow> nat" where
  "prepare_cost ct = 1 + ((optional_cost (ct_identity ct) + 1) + (verify_cost (ct_precondition ct) + (1 + 1)))"

lemma spends_prepare: "spends (prepare_cost ct) (prepare_phase rt ct)"
proof -
  have actor: "spends (optional_cost (ct_identity ct) + 1) (case ct_identity ct of None \<Rightarrow> ret True
      | Some v \<Rightarrow> seq_exec (verify rt (ct_caseId ct) v None) (\<lambda>(matched, r).
          if matched \<and> rs_bodyHash r \<noteq> None \<and> rs_bodyHash r \<noteq> Some []
          then seq_exec (append_entry (ct_caseId ct) StActorIdentityVerified) (\<lambda>_. ret True) else ret False))"
    by (cases "ct_identity ct")
      (auto simp: optional_cost_def intro!: spends_ret spends_seq [OF spends_verify, of 1, simplified] spends_map [OF spends_append, simplified])
  have stop: "spends (Suc n) (seq_exec (append_entry (ct_caseId ct) StSealed) (\<lambda>_. ret (None :: string option)))" for n
    by (rule spends_mono [OF spends_map [OF spends_append]]) simp
  show ?thesis unfolding prepare_phase_def prepare_cost_def Let_def
    by (intro spends_seq [OF spends_append] spends_seq [OF actor] spends_if spends_seq [OF spends_verify] spends_pair spends_map [OF spends_append])
      (simp_all add: stop spends_ret)
qed

definition execute_cost :: "mutation_contract \<Rightarrow> nat" where
  "execute_cost ct = 1 + ((((1 + (prepare_cost ct + (1 + 1))) + (1 + armed_cost ct)) + 1))"

lemma spends_arm: "spends (1 + (prepare_cost ct + (1 + 1))) (arm rt ct)"
proof -
  have "spends (1 + 1) (case pre of None \<Rightarrow> ret Stopped
      | Some h \<Rightarrow> seq_exec (perform (ct_caseId ct) IoSeal) (\<lambda>_. seq_exec (append_entry (ct_caseId ct) StMutationArmed) (\<lambda>_. ret (Armed (Some h)))))" for pre
  proof (cases pre)
    case (Some h)
    show ?thesis unfolding Some option.case by (intro spends_seq spends_perform spends_map [OF spends_append])
  qed (simp add: spends_ret)
  then show ?thesis unfolding arm_def by (intro spends_seq spends_read spends_prepare spends_if spends_ret)
qed

lemma spends_execute_locked: "spends ((1 + (prepare_cost ct + (1 + 1))) + (1 + armed_cost ct)) (execute_locked rt opt ct)"
proof -
  have "spends (1 + armed_cost ct) (case a of Blocked \<Rightarrow> ret (simple_result BlockedBySafety) | Stopped \<Rightarrow> ret (simple_result Inconclusive)
      | Armed h \<Rightarrow> run_armed rt opt ct h)" for a
    by (cases a) (simp_all add: spends_ret spends_mono [OF spends_run_armed])
  moreover have "spends (1 + armed_cost ct) (seal_inconclusive ct)"
    unfolding seal_inconclusive_def by (rule spends_mono [OF spends_map [OF spends_append]]) simp
  ultimately show ?thesis unfolding execute_locked_def by (intro spends_try_step spends_arm)
qed

lemma spends_execute: "spends (execute_cost ct) (execute rt opt ct now)"
proof (cases "authorizeControlledMutation rt ct now")
  case (Inl e)
  have "spends ((1 + 1) + 0 + 1) (finally_exec (catch_exec (seq_exec (perform (ct_caseId ct) (IoLock False)) (\<lambda>_. append_entry (ct_caseId ct) StSealed)) (ret ()))
      (perform (ct_caseId ct) IoRelease))"
    by (intro spends_finally spends_catch spends_seq spends_perform spends_append spends_ret)
  then have "spends (execute_cost ct) (seq_exec (finally_exec (catch_exec (seq_exec (perform (ct_caseId ct) (IoLock False))
      (\<lambda>_. append_entry (ct_caseId ct) StSealed)) (ret ())) (perform (ct_caseId ct) IoRelease)) (\<lambda>_. ret (simple_result BlockedBySafety)))"
    by (intro spends_mono [OF spends_map]) (auto simp: execute_cost_def)
  then show ?thesis using Inl by (cases e) (simp_all add: execute_def spends_throw Let_def)
next
  case (Inr u)
  have "spends (1 + 0) (catch_exec (seq_exec (perform (ct_caseId ct) (IoLock False)) (\<lambda>_. ret True)) (ret False))"
    by (intro spends_catch spends_map [OF spends_perform] spends_ret)
  then have lock: "spends 1 (catch_exec (seq_exec (perform (ct_caseId ct) (IoLock False)) (\<lambda>_. ret True)) (ret False))" by simp
  show ?thesis unfolding execute_def execute_cost_def Let_def Inr sum.case
    by (rule spends_seq [OF lock]) (intro spends_if spends_finally spends_execute_locked spends_perform spends_ret)
qed

section \<open>The three readers of an obligation\<close>

lemma latest_stage_obligation:
  "\<not> list_ex (\<lambda>(_, e). je_stage e \<in> X) (latest es) \<Longrightarrow> latest_stage es f = Some st \<Longrightarrow> st \<notin> X"
  by (auto simp: latest_stage_def list_ex_iff dest!: map_of_SomeD)

lemma no_obligation:
  "filter (\<lambda>e. je_stage e \<in> X) (map snd (latest es)) = [] \<longleftrightarrow> \<not> list_ex (\<lambda>(_, e). je_stage e \<in> X) (latest es)"
  by (auto simp: filter_empty_conv list_ex_iff)

lemma status_clear:
  assumes "list_all bundle_name_valid (md_bundles d)"
  shows "readDirectoryStatus d = Inr [] \<longleftrightarrow> directory_clear d = Inr ()"
proof (cases "journal_valid (md_journal d)")
  case True
  let ?es = "md_journal d"
  have names: "recoveryBundles d = md_bundles d" using assms by (simp add: recoveryBundles_def list_all_iff)
  have "(case latest_stage ?es f of None \<Rightarrow> True | Some st \<Rightarrow> st \<notin> set cleanupObligationStages \<and> st \<noteq> StRollbackVerified) \<longleftrightarrow>
      latest_stage ?es f \<noteq> Some StRollbackVerified"
    if "\<not> list_ex (\<lambda>(_, e). je_stage e \<in> set cleanupObligationStages) (latest ?es)" for f
    using latest_stage_obligation [OF that, of f] by (auto split: option.split)
  then show ?thesis using True no_obligation [of "set cleanupObligationStages" ?es]
    by (auto simp: readDirectoryStatus_def directory_clear_def journal_read_def names result_split filter_empty_conv list_ex_iff)
qed (simp add: readDirectoryStatus_def directory_clear_def journal_read_def)

lemma fold_js_map_set_Nil: "fold (\<lambda>x. js_map_set (k x) (v x)) xs m = [] \<longleftrightarrow> xs = [] \<and> m = []"
proof (induction xs arbitrary: m)
  case (Cons x xs)
  have "js_map_set (k x) (v x) m \<noteq> []" by (cases m) (auto split: if_splits)
  then show ?case using Cons by simp
qed simp

lemma obligations_clear: "obligations_of d m = Inr [] \<longleftrightarrow> m = [] \<and> directory_clear d = Inr ()"
  by (auto simp: obligations_of_def directory_clear_def journal_read_def result_split fold_js_map_set_Nil no_obligation
        filter_empty_conv list_ex_iff)

lemma obligations_in_clear: "obligations_in ds m = Inr [] \<longleftrightarrow> m = [] \<and> (\<forall>d \<in> set ds. directory_clear d = Inr ())"
proof (induction ds arbitrary: m)
  case (Cons d ds)
  show ?case
  proof (cases "obligations_of d m")
    case (Inr m')
    then show ?thesis using Cons.IH [of m'] obligations_clear [of d m] by (cases m') auto
  next
    case (Inl e)
    then show ?thesis using obligations_clear [of d m] by auto
  qed
qed simp

section \<open>Properties\<close>

text \<open>Concrete runs: a contract of one verification round, an environment that answers everything, and one that stops after \<open>n\<close> answers.\<close>

definition example_run_contract :: mutation_contract where
  "example_run_contract = (example_contract ''A'')
     \<lparr>ct_precondition := example_verification\<lparr>mv_matchPreStateHash := False\<rparr>, ct_impact := example_verification\<lparr>mv_matchPreStateHash := False\<rparr>\<rparr>"

definition example_reply :: reply where
  "example_reply = ReplyOk \<lparr>rs_failed = False, rs_status = Some 200, rs_bodyHash = Some ''h'', rs_json = Some (JObject [(''id'', JString ''1'')])\<rparr>"

definition example_world :: "nat \<Rightarrow> world" where
  "example_world n = \<lparr>wd_dir = \<lparr>md_journal = [], md_bundles = []\<rparr>, wd_registered = True, wd_others = [],
     wd_replies = replicate n example_reply, wd_trace = []\<rparr>"

definition example_options :: executor_options where
  "example_options = \<lparr>eo_retain = False, eo_observer = False\<rparr>"

definition example_execute :: "nat \<Rightarrow> mutation_result outcome \<times> world" where
  "example_execute n = execute example_json_runtime example_options example_run_contract 5 (example_world n)"

text \<open>
  C1: a changed target is never forgotten. Whatever the environment answers and wherever the process stops, an
  execution that sent its attack leaves a directory in which new work is refused, or its rollback was sent after the attack
  and journaled as verified.
\<close>

theorem changed_target_never_forgotten:
  assumes "wd_trace w = []"
    and "(ct_caseId ct, IoSend AttackSend) \<in> set (wd_trace (snd (execute rt opt ct now w)))"
  shows "directory_clear (wd_dir (snd (execute rt opt ct now w))) \<noteq> Inr () \<or>
    latest_stage (md_journal (wd_dir (snd (execute rt opt ct now w)))) (ct_caseId ct) = Some StRollbackVerified \<and>
    \<not> outstanding (ct_caseId ct) (wd_trace (snd (execute rt opt ct now w)))"
  by (rule safe_attack [OF execute_safe [OF assms(1)] assms(2)])

theorem changed_target_never_forgotten_witness:
  "outstanding ''c1'' (wd_trace (snd (example_execute 9))) \<and> directory_clear (wd_dir (snd (example_execute 9))) \<noteq> Inr ()"
proof -
  have "outstanding ''c1'' (wd_trace (snd (example_execute 9)))" by code_simp
  moreover
  have "(''c1'', IoSend AttackSend) \<in> set (wd_trace (snd (example_execute 9)))" by code_simp
  moreover have "ct_caseId example_run_contract = ''c1''" by code_simp
  moreover have "wd_trace (example_world 9) = []" by (simp add: example_world_def)
  ultimately show ?thesis
    using changed_target_never_forgotten [of "example_world 9" example_run_contract example_json_runtime example_options 5]
    by (simp add: example_execute_def)
qed

text \<open>
  C27: the attack is armed first and sent once. In every execution, at every crash point, the attack is
  preceded by the lock, the authorization, identity and pre-state entries of the journal, the sealed recovery bundle and the durable entry that
  arms it, and there is no second attack.
\<close>

theorem attack_armed_and_single:
  assumes "wd_trace w = []"
    and "wd_trace (snd (execute rt opt ct now w)) = pre @ (ct_caseId ct, IoSend AttackSend) # post"
  shows "(\<forall>op \<in> armed_steps ct. (ct_caseId ct, op) \<in> set pre) \<and>
    (ct_caseId ct, IoSend AttackSend) \<notin> set pre \<and> (ct_caseId ct, IoSend AttackSend) \<notin> set post"
  using execute_safe [OF assms(1), of ct rt opt now] assms(2) by (simp add: safe_def preceded_def)

theorem attack_armed_and_single_witness:
  "Pair (ct_caseId example_run_contract) ` armed_steps example_run_contract
     \<subseteq> set (butlast (wd_trace (snd (example_execute 9))))"
proof -
  have "wd_trace (snd (example_execute 9)) =
      butlast (wd_trace (snd (example_execute 9))) @ (ct_caseId example_run_contract, IoSend AttackSend) # []" by code_simp
  moreover have "wd_trace (example_world 9) = []" by (simp add: example_world_def)
  ultimately show ?thesis
    using attack_armed_and_single [of "example_world 9" example_json_runtime example_options example_run_contract 5]
    by (simp add: example_execute_def image_subset_iff)
qed

text \<open>
  results are honest. When an execution returns, \<open>NotRequired\<close> means that no attack was sent, \<open>RollbackVerified\<close> that
  the rollback was sent after the attack and is journaled as verified, \<open>CleanupFailed\<close> that the obligation
  is still there (or the rollback is journaled as verified), and a verdict on the target comes only from a run that sent the attack and cleaned up after it.
\<close>

theorem execute_results_honest:
  assumes "wd_trace w = []" "execute rt opt ct now w = (Done r, w')"
  shows "(er_cleanup r = NotRequired \<longrightarrow> (ct_caseId ct, IoSend AttackSend) \<notin> set (wd_trace w')) \<and>
    (er_cleanup r = RollbackVerified \<longrightarrow> latest_stage (md_journal (wd_dir w')) (ct_caseId ct) = Some StRollbackVerified \<and>
       \<not> outstanding (ct_caseId ct) (wd_trace w')) \<and>
    (er_cleanup r = CleanupFailed \<longrightarrow> directory_clear (wd_dir w') \<noteq> Inr () \<or>
       latest_stage (md_journal (wd_dir w')) (ct_caseId ct) = Some StRollbackVerified \<and> \<not> outstanding (ct_caseId ct) (wd_trace w')) \<and>
    (er_security r \<notin> {Inconclusive, BlockedBySafety} \<longrightarrow>
       (ct_caseId ct, IoSend AttackSend) \<in> set (wd_trace w') \<and> er_cleanup r \<noteq> NotRequired)"
proof -
  have r: "result_safe ct r w'" by (rule execute_result [OF assms])
  then show ?thesis using pending_not_clear [of "ct_caseId ct" "wd_dir w'"]
    by (cases "er_cleanup r") (auto simp: result_safe_def cleaned_def invariant_defs before_def has_def)
qed

text \<open>The verifications of a contract; the schema bounds the attempts of each by 10.\<close>

definition contract_verifications :: "mutation_contract \<Rightarrow> mutation_verification list" where
  "contract_verifications ct =
     [ct_precondition ct, ct_impact ct, ct_rollbackVerification ct] @
     (case ct_identity ct of None \<Rightarrow> [] | Some v \<Rightarrow> [v]) @ (case ct_protectedAction ct of None \<Rightarrow> [] | Some v \<Rightarrow> [v])"

lemma verify_cost_bound: "mv_attempts v \<le> 10 \<Longrightarrow> verify_cost v \<le> 19"
  by (simp add: verify_cost_def)

lemma execute_cost_bound: "list_all (\<lambda>v. mv_attempts v \<le> 10) (contract_verifications ct) \<Longrightarrow> execute_cost ct \<le> 138"
proof -
  assume a: "list_all (\<lambda>v. mv_attempts v \<le> 10) (contract_verifications ct)"
  then have "optional_cost (ct_identity ct) \<le> 19" "optional_cost (ct_protectedAction ct) \<le> 19"
    by (auto simp: contract_verifications_def optional_cost_def verify_cost_bound split: option.splits)
  moreover have "verify_cost (ct_precondition ct) \<le> 19" "verify_cost (ct_impact ct) \<le> 19" "verify_cost (ct_rollbackVerification ct) \<le> 19"
    using a by (auto simp: contract_verifications_def intro: verify_cost_bound)
  ultimately show ?thesis
    unfolding execute_cost_def prepare_cost_def armed_cost_def rollback_cost_def by linarith
qed

text \<open>
  C35: an execution ends. With at most 10 attempts per verification, as the schema enforces, \<^verbatim>\<open>execute\<close> returns
  or throws after at most 138 operations, polling and a second rollback included, whatever each operation answers.
\<close>

theorem execute_terminates:
  assumes "list_all (\<lambda>v. mv_attempts v \<le> 10) (contract_verifications ct)" "138 \<le> length (wd_replies w)"
  shows "fst (execute rt opt ct now w) \<noteq> Crashed"
proof -
  have "fuel (execute_cost ct + 0) w" using execute_cost_bound [OF assms(1)] assms(2) by (simp add: fuel_def)
  then show ?thesis by (rule hoare_no_crash [OF spendsD [OF spends_execute]])
qed

theorem execute_terminates_witness: "fst (example_execute 138) \<noteq> Crashed"
proof -
  have "list_all (\<lambda>v. mv_attempts v \<le> 10) (contract_verifications example_run_contract)" by code_simp
  moreover have "138 \<le> length (wd_replies (example_world 138))" by (simp add: example_world_def)
  ultimately show ?thesis unfolding example_execute_def by (rule execute_terminates)
qed

text \<open>A concrete bundle, and the directory that a crash after the attack leaves.\<close>

definition example_bundle :: recovery_bundle where
  "example_bundle =
     \<lparr>rb_caseId = ''c1'', rb_targetOrigin = ''https://a.io'', rb_targetIdentityFingerprint = Some (replicate 64 (CHR ''0'')),
      rb_authorizationExpiresAt = Some 1000, rb_actorBinding = None, rb_actorIdentityVerification = None,
      rb_targetIdentityVerification = Some (example_verification\<lparr>mv_matchPreStateHash := False\<rparr>),
      rb_rollbackRequest = \<lparr>mr_url = ''https://a.io/u/1'', mr_method = ''PATCH'', mr_body = Some ''A''\<rparr>,
      rb_rollbackVerification = example_verification, rb_preStateHash = Some ''h''\<rparr>"

definition crashed_world :: "nat \<Rightarrow> world" where
  "crashed_world n = (snd (example_execute 9))\<lparr>wd_replies := replicate n example_reply, wd_trace := []\<rparr>"

definition example_recover :: "nat \<Rightarrow> mutation_result outcome \<times> world" where
  "example_recover n = recover example_json_runtime example_options (Some example_bundle) ''c1'' 5 (crashed_world n)"

text \<open>
  C28: recovery touches only a verified target, and never attacks. In every recovery, at every crash point, no attack of any
  case is sent; the rollback is sent at most once, only for a bundle whose case, expiry and origins check out, and only
  after the actor and target identities that the bundle binds were verified and journaled. Verified means what the answers
  say: read beside the operations before the rollback, they contain, for each identity, an answer to a verification request
  that satisfies every assertion of the bundle's verification, directly before the journal entry for it; and the
  fingerprint of the asserted value is the one that the bundle is bound to.
\<close>

theorem recovery_only_on_verified_target:
  assumes "wd_trace w = []"
    and "wd_trace (snd (recover rt opt (Some b) caseId now w)) = pre @ (caseId, IoSend RollbackSend) # post"
  shows "recovery_binding rt b caseId now = Inr () \<and> (\<forall>op \<in> recovery_steps b. (caseId, op) \<in> set pre) \<and>
    actor_checked rt b (zip pre (wd_replies w)) \<and> target_checked rt b (zip pre (wd_replies w)) \<and>
    (caseId, IoSend RollbackSend) \<notin> set pre \<and> (caseId, IoSend RollbackSend) \<notin> set post \<and>
    (\<forall>c. (c, IoSend AttackSend) \<notin> set (pre @ post))"
proof -
  have "before caseId RollbackSend {} w" "before c AttackSend {} w" for c using assms(1) by (auto simp: before_def has_def)
  then have "preceded caseId RollbackSend (recovery_steps b) (snd (recover rt opt (Some b) caseId now w))"
    "before c AttackSend {} (snd (recover rt opt (Some b) caseId now w))" for c
    using hoare_exit [OF recover_ordered] keeps_snd [OF calm_recovery.recover_all] by blast+
  moreover have binding: "recovery_binding rt b caseId now = Inr ()"
    using assms by (cases "recovery_binding rt b caseId now = Inr ()") (simp_all add: recover_refused throw_error_def)
  moreover have "actor_checked rt b (zip pre (wd_replies w)) \<and> target_checked rt b (zip pre (wd_replies w))"
    using recover_guarded [OF binding assms(1), of opt] assms(2) unfolding guarded_def by blast
  ultimately show ?thesis using assms(2) by (auto simp: preceded_def before_def has_def)
qed

text \<open>A bundle bound to an actor as well, and the same recovery with it.\<close>

definition example_actor_bundle :: recovery_bundle where
  "example_actor_bundle = example_bundle\<lparr>
     rb_actorBinding := Some \<lparr>ib_identityFingerprint = replicate 64 (CHR ''0''), ib_path = ''id'', ib_expectedValue = Some (JString ''1'')\<rparr>,
     rb_actorIdentityVerification := Some (example_verification\<lparr>mv_matchPreStateHash := False\<rparr>)\<rparr>"

definition example_actor_recover :: "nat \<Rightarrow> mutation_result outcome \<times> world" where
  "example_actor_recover n = recover example_json_runtime example_options (Some example_actor_bundle) ''c1'' 5 (crashed_world n)"

theorem recovery_only_on_verified_target_witness:
  "actor_checked example_json_runtime example_actor_bundle
     (zip (take 5 (wd_trace (snd (example_actor_recover 20)))) (replicate 20 example_reply)) \<and>
   target_checked example_json_runtime example_actor_bundle
     (zip (take 5 (wd_trace (snd (example_actor_recover 20)))) (replicate 20 example_reply)) \<and>
   Pair ''c1'' ` {IoAppend StActorIdentityVerified, IoAppend StTargetIdentityVerified}
     \<subseteq> set (take 5 (wd_trace (snd (example_actor_recover 20))))"
proof -
  have "wd_trace (snd (example_actor_recover 20)) = take 5 (wd_trace (snd (example_actor_recover 20))) @
      (''c1'', IoSend RollbackSend) # drop 6 (wd_trace (snd (example_actor_recover 20)))" by code_simp
  moreover have "wd_trace (crashed_world 20) = []" "wd_replies (crashed_world 20) = replicate 20 example_reply"
    by (simp_all add: crashed_world_def)
  ultimately show ?thesis
    using recovery_only_on_verified_target [of "crashed_world 20" example_json_runtime example_options example_actor_bundle "''c1''" 5]
    by (simp add: example_actor_recover_def recovery_steps_def example_actor_bundle_def example_bundle_def)
qed

text \<open>
  recovery never loses an obligation. A recovery of a case with an obligation leaves the obligation, or it sent the rollback
  after any attack and journaled it as verified; a result \<open>RollbackVerified\<close> is returned only in the latter case.
\<close>

theorem recovery_keeps_obligation:
  assumes "caseId \<in> set (md_bundles (wd_dir w))" "latest_stage (md_journal (wd_dir w)) caseId \<noteq> Some StRollbackVerified"
    and "recover rt opt opened caseId now w = (x, w')"
  shows "(directory_clear (wd_dir w') \<noteq> Inr () \<or>
      latest_stage (md_journal (wd_dir w')) caseId = Some StRollbackVerified \<and> \<not> outstanding caseId (wd_trace w')) \<and>
    (\<forall>r. x = Done r \<and> er_cleanup r = RollbackVerified \<longrightarrow> latest_stage (md_journal (wd_dir w')) caseId = Some StRollbackVerified)"
proof -
  have p: "pending caseId w" using assms(1,2) by (simp add: pending_def sealed_def stage_of_def)
  have "hoare (pending caseId) (recover rt opt opened caseId now) (\<lambda>_. settled caseId) (settled caseId) (settled caseId)"
    by (rule hoare_weaken [OF recover_settled]) (simp_all add: cleaned_def)
  from hoare_exit [OF this p] have "settled caseId w'" using assms(3) by simp
  moreover have "stage_of caseId w' = Some StRollbackVerified" if "x = Done r" "er_cleanup r = RollbackVerified" for r
    using hoare_Done [OF recover_settled p, of rt opt opened now r w'] assms(3) that by (simp add: cleaned_def)
  ultimately show ?thesis using pending_not_clear [of caseId "wd_dir w'"] by (auto simp: invariant_defs)
qed

theorem recovery_keeps_obligation_witness:
  "latest_stage (md_journal (wd_dir (snd (example_recover 20)))) ''c1'' = Some StRollbackVerified"
proof -
  have "''c1'' \<in> set (md_bundles (wd_dir (crashed_world 20)))" by code_simp
  moreover have "latest_stage (md_journal (wd_dir (crashed_world 20))) ''c1'' \<noteq> Some StRollbackVerified" by code_simp
  moreover have "fst (example_recover 20) = Done (recovered RollbackVerified)" by code_simp
  then obtain w' where w': "example_recover 20 = (Done (recovered RollbackVerified), w')" by (cases "example_recover 20") simp
  ultimately have "latest_stage (md_journal (wd_dir w')) ''c1'' = Some StRollbackVerified"
    using recovery_keeps_obligation [of "''c1''" "crashed_world 20"] unfolding example_recover_def
    by (metis recovered_def mutation_result.select_convs(3))
  then show ?thesis by (simp add: w')
qed

text \<open>
  C3: mutations never overlap. In every history of a registered directory, with executions and recoveries of any cases and
  a crash of any of them at any point, at most one case has an attack without a rollback after it,
  and while it has, the lock refuses new work.
\<close>

theorem mutations_never_overlap:
  assumes "history w" "outstanding c1 (wd_trace w)" "outstanding c2 (wd_trace w)"
  shows "c1 = c2 \<and> directory_clear (wd_dir w) \<noteq> Inr () \<and> lock_check False (wd_dir w # ds) \<noteq> Inr ()"
proof -
  have inv: "remembered c1 w" "single w" using history_inv [OF assms(1)] by simp_all
  then have "directory_clear (wd_dir w) \<noteq> Inr ()"
    using assms(2) pending_not_clear [of c1 "wd_dir w"] by (auto simp: invariant_defs)
  then show ?thesis using inv(2) assms(2,3) by (auto simp: single_def lock_check_def result_split)
qed

theorem mutations_never_overlap_witness: "lock_check False [wd_dir (snd (example_execute 9))] \<noteq> Inr ()"
proof -
  have "history (example_world 9)" by (rule history.start) (simp_all add: example_world_def)
  moreover have "(example_world 9)\<lparr>wd_replies := replicate 9 example_reply, wd_others := []\<rparr> = example_world 9"
    by (simp add: example_world_def)
  ultimately have "history (snd (example_execute 9))" unfolding example_execute_def by (metis history.execute)
  moreover have "outstanding ''c1'' (wd_trace (snd (example_execute 9)))" by code_simp
  ultimately show ?thesis using mutations_never_overlap by blast
qed

text \<open>
  the three readers of an obligation agree. For directories whose bundle files have well-formed names (as the vault
  writes them), the lock grants new work exactly when the cleanup status of every directory is empty, and
  exactly when the distributed release reports a clean state.
\<close>

theorem obligation_readers_agree:
  assumes "\<forall>d \<in> set ds. list_all bundle_name_valid (md_bundles d)"
  shows "(lock_check False ds = Inr () \<longleftrightarrow> (\<forall>d \<in> set ds. readDirectoryStatus d = Inr [])) \<and>
    (lock_check False ds = Inr () \<longleftrightarrow> distributedReleaseState ds = Clean)"
proof -
  have "distributedReleaseState ds = Clean \<longleftrightarrow> obligations_in ds [] = Inr []"
    by (auto simp: distributedReleaseState_def split: sum.splits)
  then show ?thesis using assms status_clear by (simp add: obligations_in_clear lock_check_def result_split)
qed

theorem obligation_readers_agree_witness:
  "lock_check False [wd_dir (crashed_world 0)] \<noteq> Inr () \<and> distributedReleaseState [wd_dir (crashed_world 0)] \<noteq> Clean"
proof -
  have "\<forall>d \<in> set [wd_dir (crashed_world 0)]. list_all bundle_name_valid (md_bundles d)" by code_simp
  moreover have "lock_check False [wd_dir (crashed_world 0)] \<noteq> Inr ()" by code_simp
  ultimately show ?thesis using obligation_readers_agree [of "[wd_dir (crashed_world 0)]"] by blast
qed

text \<open>
  C40: a rejected retry can revive a settled case. Where the bundle of a case with a verified rollback is still on disk (evidence is
  retained, or its removal failed), a later contract of the same case that authorization refuses journals \<open>StSealed\<close> over the verified
  rollback: from then on the directory refuses all new work as an unresolved checkpoint.
\<close>

theorem rejected_retry_revives_settled_case:
  assumes "authorizeControlledMutation rt ct now = Inl (Safety e)" "directory_clear (wd_dir w) = Inr ()"
    and "wd_registered w" "wd_others w = []" "ct_caseId ct \<in> set (md_bundles (wd_dir w))" "case_id_valid (ct_caseId ct)"
    and "wd_replies w = ReplyOk a # ReplyOk b # ReplyOk d # rs"
  shows "fst (execute rt opt ct now w) = Done (simple_result BlockedBySafety) \<and>
    latest_stage (md_journal (wd_dir w)) (ct_caseId ct) = Some StRollbackVerified \<and>
    directory_clear (wd_dir (snd (execute rt opt ct now w))) \<noteq> Inr ()"
proof -
  let ?c = "ct_caseId ct"
  have valid: "journal_valid (md_journal (wd_dir w))"
    using assms(2) by (auto simp: directory_clear_def journal_read_def split: if_splits)
  have "latest_stage (md_journal (wd_dir w)) ?c = Some StRollbackVerified"
    using assms(2,5) pending_not_clear by blast
  moreover have "lock_check False [wd_dir w] = Inr ()" using assms(2) by (simp add: lock_check_def)
  then have x: "fst (execute rt opt ct now w) = Done (simple_result BlockedBySafety) \<and>
      wd_dir (snd (execute rt opt ct now w)) = (wd_dir w)\<lparr>md_journal := journal_append ?c StSealed (md_journal (wd_dir w))\<rparr>"
    using assms valid
    by (simp add: execute_def seq_exec_def finally_exec_def catch_exec_def perform_def io_refused_def append_entry_def io_effect_def
        dir_effect_def ret_def Let_def)
  moreover have "directory_clear ((wd_dir w)\<lparr>md_journal := journal_append ?c StSealed (md_journal (wd_dir w))\<rparr>) \<noteq> Inr ()"
    by (rule pending_not_clear [of ?c]) (use assms(5) in simp_all)
  ultimately show ?thesis by simp
qed

definition retained_world :: world where
  "retained_world =
     (snd (execute example_json_runtime (example_options\<lparr>eo_retain := True\<rparr>) example_run_contract 5 (example_world 19)))
     \<lparr>wd_replies := replicate 3 example_reply\<rparr>"

theorem rejected_retry_revives_settled_case_witness:
  "directory_clear (wd_dir (snd (execute example_json_runtime example_options example_run_contract 2000 retained_world))) \<noteq> Inr ()"
proof -
  have "authorizeControlledMutation example_json_runtime example_run_contract 2000 = Inl (Safety ''AUTHORIZATION_EXPIRED'')" by code_simp
  moreover have "directory_clear (wd_dir retained_world) = Inr ()" by code_simp
  moreover have "wd_registered retained_world" "wd_others retained_world = []" by code_simp+
  moreover have "ct_caseId example_run_contract \<in> set (md_bundles (wd_dir retained_world))" by code_simp
  moreover have "case_id_valid (ct_caseId example_run_contract)" by code_simp
  moreover obtain x where "example_reply = ReplyOk x" by (simp add: example_reply_def)
  then have "wd_replies retained_world = ReplyOk x # ReplyOk x # ReplyOk x # []" by (simp add: retained_world_def eval_nat_numeral)
  ultimately show ?thesis using rejected_retry_revives_settled_case by blast
qed

end
