(* ===== verification/RC_Net.thy ===== *)
theory RC_Net
  imports RC_Url "HOL-Library.Word"
begin

unbundle bit_operations_syntax

text \<open>
  Destinations. The classification of addresses of \<^verbatim>\<open>core/net/AddressClassifier.ts\<close>, the resolution of a host
  to one pinned address of \<^verbatim>\<open>core/http/PinnedHttpTransport.ts\<close>, and the pools that are bound to
  a pinned address of \<^verbatim>\<open>core/http/PinnedOriginPool.ts\<close>. The lemmas compare the classification with the
  reserved IPv4 networks as sets of 32-bit words, in every spelling of an address, and show which destination a socket
  can reach.
\<close>

section \<open>Numerals and address literals\<close>

definition is_digit :: "char \<Rightarrow> bool" where
  "is_digit c \<longleftrightarrow> c \<in> set ''0123456789''"

definition is_octal :: "char \<Rightarrow> bool" where
  "is_octal c \<longleftrightarrow> c \<in> set ''01234567''"

definition is_hex :: "char \<Rightarrow> bool" where
  "is_hex c \<longleftrightarrow> c \<in> set ''0123456789abcdefABCDEF''"

definition digit_value :: "char \<Rightarrow> int" where
  "digit_value c = (let n = of_char c :: int in
     if n < 58 then n - 48 else if n < 97 then n - 55 else n - 87)"

text \<open>The value of a string of digits in a base.\<close>

fun digits_value :: "int \<Rightarrow> int \<Rightarrow> string \<Rightarrow> int" where
  "digits_value b acc [] = acc"
| "digits_value b acc (c # cs) = digits_value b (b * acc + digit_value c) cs"

text \<open>
  \<^verbatim>\<open>Number.parseInt(s, 10)\<close>: white space, an optional sign, and the longest run of digits; \<open>None\<close> is \<^verbatim>\<open>NaN\<close>.
\<close>

definition is_space :: "char \<Rightarrow> bool" where
  "is_space c \<longleftrightarrow> (let n = of_char c :: int in 9 \<le> n \<and> n \<le> 13 \<or> n = 32 \<or> n = 160)"

definition parse_digits :: "string \<Rightarrow> int option" where
  "parse_digits s = (let ds = takeWhile is_digit s in if ds = [] then None else Some (digits_value 10 0 ds))"

definition parseInt10 :: "string \<Rightarrow> int option" where
  "parseInt10 s =
     (case dropWhile is_space s of
        [] \<Rightarrow> None
      | c # cs \<Rightarrow> if c = CHR ''-'' then map_option uminus (parse_digits cs)
                  else if c = CHR ''+'' then parse_digits cs else parse_digits (c # cs))"

text \<open>\<^verbatim>\<open>String(n)\<close>, and the same in another base; the digits above nine are lower-case letters.\<close>

definition decimal_digit :: "int \<Rightarrow> char" where
  "decimal_digit d = char_of (if d < 10 then d + 48 else d + 87)"

function show_base :: "int \<Rightarrow> int \<Rightarrow> string" where
  "show_base b n = (if b < 2 \<or> n < b then [decimal_digit n] else show_base b (n div b) @ [decimal_digit (n mod b)])"

  by pat_completeness auto

termination show_base
proof (relation "measure (\<lambda>(b, n). nat n)")
  fix b n :: int
  assume "\<not> (b < 2 \<or> n < b)"
  then have "n div b < n" by (intro int_div_less_self) auto
  then show "((b, n div b), (b, n)) \<in> measure (\<lambda>(b, n). nat n)" using \<open>\<not> (b < 2 \<or> n < b)\<close> by auto
qed simp

declare show_base.simps [simp del]

fun join_with :: "string \<Rightarrow> string list \<Rightarrow> string" where
  "join_with sep [] = []"
| "join_with sep [s] = s"
| "join_with sep (s # t # ts) = s @ sep @ join_with sep (t # ts)"

text \<open>
  \<^verbatim>\<open>isIP\<close> of \<^verbatim>\<open>node:net\<close>: a dotted quad of decimal numbers up to 255 without leading zeros, or groups of one to
  four hexadecimal digits, eight of them or at most seven around one \<^verbatim>\<open>::\<close>, the last two possibly written
  as a dotted quad, with an optional zone.
\<close>

definition v4_segment :: "string \<Rightarrow> bool" where
  "v4_segment s \<longleftrightarrow> s \<noteq> [] \<and> length s \<le> 3 \<and> list_all is_digit s \<and> (length s = 1 \<or> hd s \<noteq> CHR ''0'') \<and> digits_value 10 0 s \<le> 255"

definition isIPv4 :: "string \<Rightarrow> bool" where
  "isIPv4 s \<longleftrightarrow> length (split_on (CHR ''.'') s) = 4 \<and> list_all v4_segment (split_on (CHR ''.'') s)"

definition v6_segment :: "string \<Rightarrow> bool" where
  "v6_segment s \<longleftrightarrow> s \<noteq> [] \<and> length s \<le> 4 \<and> list_all is_hex s"

text \<open>The number of 16-bit groups of a part without \<^verbatim>\<open>::\<close>, \<open>None\<close> where it is malformed; a dotted
  quad may only end the address.\<close>

definition v6_groups :: "bool \<Rightarrow> string \<Rightarrow> nat option" where
  "v6_groups final s =
     (if s = [] then Some 0
      else let gs = split_on (CHR '':'') s in
        if list_all v6_segment gs then Some (length gs)
        else if final \<and> isIPv4 (last gs) \<and> list_all v6_segment (butlast gs) then Some (length gs + 1)
        else None)"

fun split_compressed :: "string \<Rightarrow> (string \<times> string) option" where
  "split_compressed (x # y # s) =
     (if x = CHR '':'' \<and> y = CHR '':'' then Some ([], s) else map_option (\<lambda>(a, b). (x # a, b)) (split_compressed (y # s)))"
| "split_compressed _ = None"

definition v6_body :: "string \<Rightarrow> bool" where
  "v6_body s =
     (case split_compressed s of
        None \<Rightarrow> s \<noteq> [] \<and> v6_groups True s = Some 8
      | Some (a, b) \<Rightarrow> (case (v6_groups False a, v6_groups True b) of (Some m, Some n) \<Rightarrow> m + n \<le> 7 | _ \<Rightarrow> False))"

definition v6_zone :: "string \<Rightarrow> bool" where
  "v6_zone s \<longleftrightarrow> s = [] \<or>
     (1 < length s \<and> list_all (\<lambda>c. is_digit c \<or> char_lower c \<in> set ''abcdefghijklmnopqrstuvwxyz-.:'') (tl s))"

definition isIPv6 :: "string \<Rightarrow> bool" where
  "isIPv6 s \<longleftrightarrow> v6_body (takeWhile (\<lambda>c. c \<noteq> CHR ''%'') s) \<and> v6_zone (dropWhile (\<lambda>c. c \<noteq> CHR ''%'') s)"

definition isIP :: "string \<Rightarrow> nat" where
  "isIP s = (if isIPv4 s then 4 else if isIPv6 s then 6 else 0)"

section \<open>Classification of addresses\<close>

definition unbracketed :: "string \<Rightarrow> string" where
  "unbracketed s = (if starts_with s ''['' \<and> ends_with s '']'' then butlast (tl s) else s)"

text \<open>The operands of \<^verbatim>\<open>>>>\<close> and \<^verbatim>\<open>&\<close> are 32-bit words.\<close>

definition octets_of :: "32 word \<Rightarrow> int list" where
  "octets_of w = map uint [drop_bit 24 w AND 255, drop_bit 16 w AND 255, drop_bit 8 w AND 255, w AND 255]"

definition show_octets :: "int list \<Rightarrow> string" where
  "show_octets os = join_with ''.'' (map (show_base 10) os)"

definition intToIpv4 :: "int \<Rightarrow> string option" where
  "intToIpv4 value = (if value < 0 \<or> 0xFFFFFFFF < value then None else Some (show_octets (octets_of (word_of_int value))))"

text \<open>\<^verbatim>\<open>/^0x[0-9a-f]+$/i\<close>, \<^verbatim>\<open>/^\d+$/\<close> and \<^verbatim>\<open>/^0[0-7]+$/\<close>.\<close>

definition hex_literal :: "string \<Rightarrow> bool" where
  "hex_literal s \<longleftrightarrow> to_lower (take 2 s) = ''0x'' \<and> 2 < length s \<and> list_all is_hex (drop 2 s)"

definition decimal_literal :: "string \<Rightarrow> bool" where
  "decimal_literal s \<longleftrightarrow> s \<noteq> [] \<and> list_all is_digit s"

definition octal_part :: "string \<Rightarrow> bool" where
  "octal_part s \<longleftrightarrow> starts_with s ''0'' \<and> 1 < length s \<and> list_all is_octal (tl s)"

definition normalizeIpLiteral :: "string \<Rightarrow> string option" where
  "normalizeIpLiteral hostname = (let s = unbracketed hostname; parts = split_on (CHR ''.'') s in
     if isIP s \<noteq> 0 then Some s
     else if hex_literal s then intToIpv4 (digits_value 16 0 (drop 2 s))
     else if decimal_literal s then intToIpv4 (digits_value 10 0 s)
     else if length parts = 4 \<and> list_all octal_part parts then Some (show_octets (map (digits_value 8 0) parts))
     else None)"

definition prohibited_v6 :: "string \<Rightarrow> bool" where
  "prohibited_v6 value \<longleftrightarrow>
     value = ''::1'' \<or> starts_with value ''fc'' \<or> starts_with value ''fd'' \<or> starts_with value ''fe80:'' \<or> value = ''::'' \<or>
     starts_with value ''::ffff:127.'' \<or> starts_with value ''::ffff:10.'' \<or> starts_with value ''::ffff:192.168.''"

definition prohibited_octets :: "int \<Rightarrow> int \<Rightarrow> bool" where
  "prohibited_octets first second \<longleftrightarrow>
     first = 0 \<or> first = 10 \<or> first = 127 \<or> (first = 169 \<and> second = 254) \<or> (first = 172 \<and> 16 \<le> second \<and> second \<le> 31) \<or>
     (first = 192 \<and> second = 168) \<or> (first = 100 \<and> 64 \<le> second \<and> second \<le> 127)"

definition isProhibitedAddress :: "string \<Rightarrow> bool" where
  "isProhibitedAddress address = (let normalized = or_else (normalizeIpLiteral address) address in
     if CHR '':'' \<in> set normalized then prohibited_v6 (to_lower normalized)
     else case map parseInt10 (split_on (CHR ''.'') normalized) of
       [Some a, Some b, Some c, Some d] \<Rightarrow>
         (if list_ex (\<lambda>octet. octet < 0 \<or> 255 < octet) [a, b, c, d] then False else prohibited_octets a b)
     | _ \<Rightarrow> False)"

section \<open>The reserved networks\<close>

text \<open>The reference: the private, loopback, link-local, shared and \<^verbatim>\<open>0/8\<close> networks as base addresses with prefix lengths.\<close>

definition in_network :: "32 word \<Rightarrow> 32 word \<times> nat \<Rightarrow> bool" where
  "in_network w net = (case net of (base, len) \<Rightarrow> drop_bit (32 - len) w = drop_bit (32 - len) base)"

definition reserved_networks :: "(32 word \<times> nat) list" where
  "reserved_networks = [(0, 8), (0x0A000000, 8), (0x7F000000, 8), (0xA9FE0000, 16), (0xAC100000, 12), (0xC0A80000, 16), (0x64400000, 10)]"

text \<open>A dotted quad with every part in octal.\<close>

definition octal_quad :: "32 word \<Rightarrow> string" where
  "octal_quad w = join_with ''.'' (map (\<lambda>x. CHR ''0'' # show_base 8 x) (octets_of w))"

section \<open>Printing and reading numerals\<close>

lemma digits_value_snoc: "digits_value b acc (xs @ [c]) = b * digits_value b acc xs + digit_value c"
  by (induction xs arbitrary: acc) auto

lemma digit_char_table: "\<forall>d \<in> set [0..15]. digit_value (decimal_digit d) = d \<and> is_hex (decimal_digit d) \<and> (d < 10 \<longrightarrow> is_digit (decimal_digit d)) \<and> (d < 8 \<longrightarrow> is_octal (decimal_digit d))"
  by code_simp

lemma decimal_digit: assumes "0 \<le> d" "d < 16"
  shows "digit_value (decimal_digit d) = d" "is_hex (decimal_digit d)" "d < 10 \<Longrightarrow> is_digit (decimal_digit d)" "d < 8 \<Longrightarrow> is_octal (decimal_digit d)"
  using digit_char_table assms by auto

lemma show_base_value: "2 \<le> b \<Longrightarrow> b \<le> 16 \<Longrightarrow> 0 \<le> n \<Longrightarrow> digits_value b 0 (show_base b n) = n"
proof (induction b n rule: show_base.induct)
  case (1 b n)
  show ?case
  proof (cases "n < b")
    case True
    then show ?thesis using 1 by (simp add: show_base.simps [of b n] decimal_digit)
  next
    case False
    have "n mod b < b" "0 \<le> n mod b" using 1(2) by auto
    then have "0 \<le> n mod b" "n mod b < 16" using 1(3) by auto
    moreover have "digits_value b 0 (show_base b (n div b)) = n div b"
      using 1 False by (intro 1(1)) (auto simp: pos_imp_zdiv_nonneg_iff)
    ultimately show ?thesis using 1(2) False by (simp add: show_base.simps [of b n] digits_value_snoc decimal_digit)
  qed
qed

lemma show_base_digits:
  assumes "\<And>d. 0 \<le> d \<Longrightarrow> d < b \<Longrightarrow> p (decimal_digit d)"
  shows "2 \<le> b \<Longrightarrow> 0 \<le> n \<Longrightarrow> show_base b n \<noteq> [] \<and> list_all p (show_base b n)"
  using assms
proof (induction b n rule: show_base.induct)
  case (1 b n)
  show ?case
  proof (cases "n < b")
    case True
    then show ?thesis using 1 by (simp add: show_base.simps [of b n])
  next
    case False
    moreover have "list_all p (show_base b (n div b))" using 1 False by (auto simp: pos_imp_zdiv_nonneg_iff)
    ultimately show ?thesis using 1 by (simp add: show_base.simps [of b n])
  qed
qed

lemma digit_not_special: "is_digit c \<Longrightarrow> \<not> is_space c \<and> c \<noteq> CHR ''-'' \<and> c \<noteq> CHR ''+'' \<and> c \<noteq> CHR ''.'' \<and> c \<noteq> CHR '':'' \<and> c \<noteq> CHR ''['' \<and> c \<noteq> CHR '']''"
  by (auto simp: is_digit_def is_space_def Let_def)

lemma parseInt10_digits: "s \<noteq> [] \<Longrightarrow> list_all is_digit s \<Longrightarrow> parseInt10 s = Some (digits_value 10 0 s)"
proof (cases s)
  case (Cons c cs)
  assume s: "list_all is_digit s"
  then have "is_digit c" "\<forall>x \<in> set cs. is_digit x" using Cons by (auto simp: list_all_iff)
  then show ?thesis using Cons digit_not_special [of c] 
    by (simp add: parseInt10_def parse_digits_def Let_def takeWhile_eq_all_conv [THEN iffD2])
qed simp

lemma show_octet:
  assumes "0 \<le> n" "n \<le> 255"
  shows "v4_segment (show_base 10 n)"
proof -
  have z: "decimal_digit d \<noteq> CHR ''0''" if "1 \<le> d" "d < 10" for d
    proof -
    have "digit_value (CHR ''0'') = 0" by (simp add: digit_value_def)
    then show ?thesis using decimal_digit(1) [of d] that by auto
  qed
  have "n div 10 < 26" using assms by simp
  then have "n div 10 div 10 < 10" by simp
  then have len: "length (show_base 10 n) \<le> 3 \<and> (length (show_base 10 n) = 1 \<or> hd (show_base 10 n) \<noteq> CHR ''0'')"
    using assms z [of n] z [of "n div 10"] z [of "n div 10 div 10"]
    by (auto simp: show_base.simps [of 10 n] show_base.simps [of 10 "n div 10"] show_base.simps [of 10 "n div 10 div 10"] hd_append)
  have "show_base 10 n \<noteq> [] \<and> list_all is_digit (show_base 10 n)"
    using assms by (intro show_base_digits) (auto simp: decimal_digit)
  then show ?thesis using len assms by (simp add: v4_segment_def show_base_value)
qed

lemma split_on_join: "xs \<noteq> [] \<Longrightarrow> \<forall>x \<in> set xs. c \<notin> set x \<Longrightarrow> split_on c (join_with [c] xs) = xs"
proof (induction "[c]" xs rule: join_with.induct)
  case (2 s)
  then show ?case by (induction s) auto
next
  case (3 s t ts)
  then show ?case by (induction s) auto
qed simp

lemma uint_drop_take:
  "uint (drop_bit n w) = uint w div 2 ^ n" "uint (w AND 255) = uint w mod 256" for w :: "32 word"
proof -
  have "unat (drop_bit n w) = unat w div 2 ^ n" using unat_drop_bit_eq [of n w] by (simp only: drop_bit_eq_div [of n "unat w"])
  then have "int (unat (drop_bit n w)) = int (unat w) div 2 ^ n" by (simp add: zdiv_int)
  then show "uint (drop_bit n w) = uint w div 2 ^ n" by (simp only: of_nat_unat)
  have "w AND 255 = take_bit 8 w" using take_bit_eq_mask [of 8 w] by (simp add: mask_eq_exp_minus_1)
  then have "uint (w AND 255) = take_bit 8 (uint w)" by (simp only: unsigned_take_bit_eq)
  then show "uint (w AND 255) = uint w mod 256" by (simp add: take_bit_eq_mod)
qed

lemma octets_arith:
  "octets_of w = [uint w div 2 ^ 24, uint w div 2 ^ 16 mod 256, uint w div 2 ^ 8 mod 256, uint w mod 256]"
proof -
  have "uint w < 2 ^ 32" using uint_bounded [of w] by simp
  then have "uint w div 2 ^ 24 < 2 ^ 8" by (simp add: div_less_iff_less_mult)
  then have "uint w div 2 ^ 24 mod 256 = uint w div 2 ^ 24" by (intro mod_pos_pos_trivial) (simp_all add: pos_imp_zdiv_nonneg_iff)
  then show ?thesis by (simp add: octets_of_def uint_drop_take)
qed

lemma in_network_arith: "in_network w (base, len) \<longleftrightarrow> uint w div 2 ^ (32 - len) = uint base div 2 ^ (32 - len)"
  by (simp add: in_network_def word_uint_eq_iff uint_drop_take)

lemma octets_range: "\<forall>n \<in> set (octets_of w). 0 \<le> n \<and> n \<le> 255"
  by (auto simp: octets_of_def uint_drop_take)

lemma reserved_octets:
  "list_ex (in_network w) reserved_networks \<longleftrightarrow> prohibited_octets (uint w div 2 ^ 24) (uint w div 2 ^ 16 mod 256)"
proof -
  define q where "q = uint w div 2 ^ 16"
  have "uint w div (2 ^ 16 * m) = q div m" if "0 \<le> m" for m using zdiv_zmult2_eq [OF that, of "uint w" "2 ^ 16"] by (simp only: q_def)
  from this [of 256] this [of 16] this [of 64]
  have q: "uint w div 2 ^ 24 = q div 256" "uint w div 2 ^ 20 = q div 16" "uint w div 2 ^ 22 = q div 64" by simp_all
  define a b where "a = q div 256" and "b = q mod 256"
  have b: "q = 256 * a + b" "0 \<le> b" "b < 256" by (simp_all add: a_def b_def)
  have "(256 * a + b) div 16 = 16 * a + b div 16" "(256 * a + b) div 64 = 4 * a + b div 64"
    using div_mult_self1 [of 16 b "16 * a"] div_mult_self1 [of 64 b "4 * a"] by (simp_all add: algebra_simps)
  then have d: "q div 16 = 16 * a + b div 16" "q div 64 = 4 * a + b div 64" unfolding b(1) .
  have "0 \<le> b div 16" "b div 16 < 16" "0 \<le> b div 64" "b div 64 < 4" using b(2,3) by (simp_all add: pos_imp_zdiv_nonneg_iff div_less_iff_less_mult)
  moreover have "0 \<le> c \<Longrightarrow> c < 16 \<Longrightarrow> 16 * a + c = 2753 \<longleftrightarrow> a = 172 \<and> c = 1" "0 \<le> c \<Longrightarrow> c < 4 \<Longrightarrow> 4 * a + c = 401 \<longleftrightarrow> a = 100 \<and> c = 1" for c
    by presburger+
  ultimately have "16 * a + b div 16 = 2753 \<longleftrightarrow> a = 172 \<and> b div 16 = 1" "4 * a + b div 64 = 401 \<longleftrightarrow> a = 100 \<and> b div 64 = 1" by simp_all
  moreover have "b div 16 = 1 \<longleftrightarrow> 16 \<le> b \<and> b \<le> 31" "b div 64 = 1 \<longleftrightarrow> 64 \<le> b \<and> b \<le> 127" by presburger+
  ultimately have r1: "q div 16 = 2753 \<longleftrightarrow> a = 172 \<and> 16 \<le> b \<and> b \<le> 31"
    and r2: "q div 64 = 401 \<longleftrightarrow> a = 100 \<and> 64 \<le> b \<and> b \<le> 127" by (simp_all add: d)
  have "a = 169 \<and> b = 254" if "q = 43518" using that by (simp add: a_def b_def)
  then have r3: "q = 43518 \<longleftrightarrow> a = 169 \<and> b = 254" using b(1) by auto
  have "a = 192 \<and> b = 168" if "q = 49320" using that by (simp add: a_def b_def)
  then have r4: "q = 49320 \<longleftrightarrow> a = 192 \<and> b = 168" using b(1) by auto
  have "list_ex (in_network w) reserved_networks \<longleftrightarrow>
      q div 256 = 0 \<or> q div 256 = 10 \<or> q div 256 = 127 \<or> q = 43518 \<or> q div 16 = 2753 \<or> q = 49320 \<or> q div 64 = 401"
    by (simp add: reserved_networks_def in_network_arith q [simplified] q_def [symmetric, simplified])
  then show ?thesis
    unfolding r1 r2 r3 r4 prohibited_octets_def q(1) q_def [symmetric] a_def [symmetric] b_def [symmetric] by blast
qed

lemma show_octets_dot: "\<forall>x \<in> set os. 0 \<le> x \<Longrightarrow> \<forall>s \<in> set (map (show_base 10) os). CHR ''.'' \<notin> set s \<and> CHR '':'' \<notin> set s"
  using show_base_digits [of 10 is_digit] digit_not_special by (fastforce simp: decimal_digit list_all_iff)

lemma split_octets: "os \<noteq> [] \<Longrightarrow> \<forall>x \<in> set os. 0 \<le> x \<Longrightarrow> split_on (CHR ''.'') (show_octets os) = map (show_base 10) os"
  using show_octets_dot [of os] by (simp add: show_octets_def split_on_join)

lemma join_without: "c \<notin> set sep \<Longrightarrow> \<forall>s \<in> set xs. c \<notin> set s \<Longrightarrow> c \<notin> set (join_with sep xs)"
  by (induction sep xs rule: join_with.induct) auto

lemma show_octets_no_colon: "\<forall>x \<in> set xs. 0 \<le> x \<Longrightarrow> CHR '':'' \<notin> set (show_octets xs)"
  unfolding show_octets_def using show_octets_dot [of xs] by (intro join_without) auto

lemma isIP_octets: "isIP (show_octets (octets_of w)) = 4"
proof -
  have "octets_of w \<noteq> []" "length (octets_of w) = 4" by (simp_all add: octets_of_def)
  moreover have "\<forall>x \<in> set (octets_of w). v4_segment (show_base 10 x)" using octets_range show_octet by blast
  ultimately show ?thesis using octets_range [of w] by (simp add: isIP_def isIPv4_def split_octets list_all_iff)
qed

lemma octets_classified:
  assumes "or_else (normalizeIpLiteral s) s = show_octets (octets_of w)"
  shows "isProhibitedAddress s \<longleftrightarrow> list_ex (in_network w) reserved_networks"
proof -
  have r: "\<forall>x \<in> set (octets_of w). 0 \<le> x \<and> x \<le> 255" by (rule octets_range)
  have "parseInt10 (show_base 10 x) = Some x" if "0 \<le> x" for x
    using that show_base_digits [of 10 is_digit x] by (simp add: parseInt10_digits show_base_value decimal_digit)
  moreover obtain a b c d where o: "octets_of w = [a, b, c, d]" and ab: "a = uint w div 2 ^ 24" "b = uint w div 2 ^ 16 mod 256"
    using octets_arith by blast
  ultimately have "map parseInt10 (split_on (CHR ''.'') (show_octets (octets_of w))) = [Some a, Some b, Some c, Some d]"
    using r by (simp add: split_octets)
  moreover have "CHR '':'' \<notin> set (show_octets (octets_of w))" using r by (intro show_octets_no_colon) simp
  moreover have "\<not> list_ex (\<lambda>x. x < 0 \<or> 255 < x) [a, b, c, d]" using r o by auto
  ultimately show ?thesis unfolding reserved_octets ab [symmetric] by (simp add: isProhibitedAddress_def assms)
qed

lemma unbracketed_plain: "\<not> starts_with s ''['' \<Longrightarrow> unbracketed s = s"
  by (simp add: unbracketed_def)

lemma split_on_single: "c \<notin> set s \<Longrightarrow> split_on c s = [s]"
  by (induction s) auto

lemma not_isIPv6_plain: "CHR '':'' \<notin> set s \<Longrightarrow> \<not> isIPv6 s"
proof -
  have sc: "split_compressed s = None" if "CHR '':'' \<notin> set s" for s using that by (induction s rule: split_compressed.induct) auto
  assume s: "CHR '':'' \<notin> set s"
  let ?b = "takeWhile (\<lambda>c. c \<noteq> CHR ''%'') s"
  have b: "CHR '':'' \<notin> set ?b" using s set_takeWhileD by fastforce
  then have "v6_groups True ?b \<noteq> Some 8" by (simp add: v6_groups_def split_on_single Let_def)
  then show ?thesis using b by (simp add: isIPv6_def v6_body_def sc)
qed

lemma not_isIP_plain: "CHR ''.'' \<notin> set s \<Longrightarrow> CHR '':'' \<notin> set s \<Longrightarrow> isIP s = 0"
  by (simp add: isIP_def isIPv4_def not_isIPv6_plain split_on_single)

lemma hex_plain: "is_hex c \<Longrightarrow> c \<noteq> CHR ''.'' \<and> c \<noteq> CHR '':'' \<and> c \<noteq> CHR ''['' \<and> char_lower c \<noteq> CHR ''x''"
proof -
  have "list_all (\<lambda>c. c \<noteq> CHR ''.'' \<and> c \<noteq> CHR '':'' \<and> c \<noteq> CHR ''['' \<and> char_lower c \<noteq> CHR ''x'') ''0123456789abcdefABCDEF''"
    by code_simp
  then show "is_hex c \<Longrightarrow> ?thesis" unfolding list_all_iff is_hex_def by blast
qed

lemma digit_classes: "is_octal c \<Longrightarrow> is_digit c" "is_digit c \<Longrightarrow> is_hex c"
  by (auto simp: is_hex_def is_digit_def is_octal_def)

lemma digits_plain:
  "list_all is_hex s \<Longrightarrow> CHR ''.'' \<notin> set s \<and> CHR '':'' \<notin> set s \<and> CHR ''['' \<notin> set s"
  "list_all is_digit s \<Longrightarrow> list_all is_hex s" "list_all is_octal s \<Longrightarrow> list_all is_digit s"
  using hex_plain digit_classes by (fastforce simp: list_all_iff)+

lemma not_hex_literal: "is_hex (s ! 1) \<Longrightarrow> \<not> hex_literal s"
proof
  assume x: "is_hex (s ! 1)" "hex_literal s"
  then have "to_lower (take 2 s) = ''0x''" "2 < length s" by (simp_all add: hex_literal_def)
  then have "char_lower (s ! 1) = CHR ''x''" by (cases s; cases "tl s") (auto simp: to_lower_def)
  then show False using hex_plain [OF x(1)] by blast
qed

lemma normalize_decimal: "normalizeIpLiteral (show_base 10 (uint w)) = Some (show_octets (octets_of w))" for w :: "32 word"
proof -
  let ?s = "show_base 10 (uint w)"
  have d: "?s \<noteq> []" "list_all is_digit ?s" using show_base_digits [of 10 is_digit "uint w"] by (auto simp: decimal_digit)
  note h = digits_plain(1) [OF digits_plain(2) [OF d(2)]]
  have "\<not> hex_literal ?s"
  proof (cases "1 < length ?s")
    case True
    then have "?s ! 1 \<in> set ?s" by simp
    then show ?thesis using digits_plain(2) [OF d(2)] by (intro not_hex_literal) (simp add: list_all_iff)
  qed (simp add: hex_literal_def)
  moreover have "uint w \<le> 0xFFFFFFFF" using uint_bounded [of w] by simp
  moreover have "unbracketed ?s = ?s" using h d(1) by (intro unbracketed_plain) (cases ?s; auto simp: starts_with_def)
  ultimately show ?thesis using d h
    by (simp add: normalizeIpLiteral_def not_isIP_plain decimal_literal_def show_base_value intToIpv4_def Let_def)
qed

lemma normalize_hex: "normalizeIpLiteral (''0x'' @ show_base 16 (uint w)) = Some (show_octets (octets_of w))" for w :: "32 word"
proof -
  let ?s = "show_base 16 (uint w)"
  have d: "?s \<noteq> []" "list_all is_hex ?s" using show_base_digits [of 16 is_hex "uint w"] by (auto simp: decimal_digit)
  have "hex_literal (''0x'' @ ?s)" using d by (cases ?s) (auto simp: hex_literal_def to_lower_def char_lower_def Let_def)
  moreover have "uint w \<le> 0xFFFFFFFF" using uint_bounded [of w] by simp
  moreover have "unbracketed (''0x'' @ ?s) = ''0x'' @ ?s" by (intro unbracketed_plain) (simp add: starts_with_def)
  moreover have "isIP (''0x'' @ ?s) = 0" using digits_plain(1) [OF d(2)] by (intro not_isIP_plain) auto
  ultimately show ?thesis by (simp add: normalizeIpLiteral_def show_base_value intToIpv4_def Let_def)
qed

lemma normalize_octal: "normalizeIpLiteral (octal_quad w) = Some (show_octets (octets_of w))"
proof -
  let ?p = "map (\<lambda>x. CHR ''0'' # show_base 8 x) (octets_of w)"
  have d: "show_base 8 x \<noteq> []" "list_all is_octal (show_base 8 x)" if "x \<in> set (octets_of w)" for x
    using show_base_digits [of 8 is_octal x] octets_range [of w] that by (auto simp: decimal_digit)
  have c: "CHR ''.'' \<notin> set s \<and> CHR '':'' \<notin> set s \<and> CHR ''['' \<notin> set s" if "s \<in> set ?p" for s
    using that digits_plain(1) [OF digits_plain(2) [OF digits_plain(3) [OF d(2)]]] by auto
  have parts: "split_on (CHR ''.'') (octal_quad w) = ?p"
    unfolding octal_quad_def using c by (intro split_on_join) (auto simp: octets_of_def)
  have oct: "list_all octal_part ?p" using d by (auto simp: list_all_iff octal_part_def starts_with_def)
  have val: "map (digits_value 8 0) ?p = octets_of w"
    using octets_range [of w] by (auto simp: map_idI show_base_value digit_value_def)
  have len: "length ?p = 4" by (simp add: octets_of_def)
  obtain x xs where x: "octets_of w = x # xs" "xs \<noteq> []" by (simp add: octets_of_def)
  obtain y ys where y: "show_base 8 x = y # ys" "is_octal y" using d [of x] x by (cases "show_base 8 x") auto
  obtain r where r: "octal_quad w = CHR ''0'' # y # r" using x y by (cases xs) (auto simp: octal_quad_def)
  have "\<not> hex_literal (octal_quad w)" using y(2) r by (intro not_hex_literal) (simp add: digit_classes)
  moreover have "\<not> decimal_literal (octal_quad w)"
  proof
    assume "decimal_literal (octal_quad w)"
    then have "CHR ''.'' \<notin> set (octal_quad w)" using digits_plain(1,2) by (auto simp: decimal_literal_def)
    then have "split_on (CHR ''.'') (octal_quad w) = [octal_quad w]" by (rule split_on_single)
    then show False using arg_cong [OF parts, of length] len by simp
  qed
  moreover have "isIP (octal_quad w) = 0"
  proof -
    have "CHR '':'' \<notin> set (octal_quad w)" unfolding octal_quad_def using c by (intro join_without) auto
    moreover have "\<not> v4_segment (hd ?p)" using x y by (simp add: v4_segment_def)
    then have "\<not> isIPv4 (octal_quad w)" using parts x by (simp add: isIPv4_def)
    ultimately show ?thesis by (simp add: isIP_def not_isIPv6_plain)
  qed
  moreover have "unbracketed (octal_quad w) = octal_quad w" using r by (intro unbracketed_plain) (simp add: starts_with_def)
  ultimately show ?thesis using parts len oct val by (simp add: normalizeIpLiteral_def Let_def)
qed

lemma normalize_dotted: "normalizeIpLiteral (show_octets (octets_of w)) = Some (show_octets (octets_of w))"
proof -
  obtain x xs where x: "octets_of w = x # xs" "xs \<noteq> []" by (simp add: octets_of_def)
  have "0 \<le> x" using octets_range [of w] x by simp
  then obtain y ys where y: "show_base 10 x = y # ys" "is_digit y"
    using show_base_digits [of 10 is_digit x] by (cases "show_base 10 x") (auto simp: decimal_digit)
  then have "\<not> starts_with (show_octets (octets_of w)) ''[''"
    using x digit_not_special [of y] by (cases xs) (auto simp: show_octets_def starts_with_def)
  then show ?thesis by (simp add: normalizeIpLiteral_def unbracketed_plain isIP_octets Let_def)
qed

text \<open>
  C36: private addresses are recognised in every spelling. For each 32-bit address, written as a dotted quad, as
  one decimal number, as one hexadecimal number or as a dotted quad of octal numbers, the classification
  prohibits exactly the addresses of the reserved networks.
\<close>

theorem reserved_addresses_prohibited:
  assumes "s \<in> {show_octets (octets_of w), show_base 10 (uint w), ''0x'' @ show_base 16 (uint w), octal_quad w}"
  shows "isProhibitedAddress s \<longleftrightarrow> list_ex (in_network w) reserved_networks"
  using assms normalize_dotted [of w] normalize_decimal [of w] normalize_hex [of w] normalize_octal [of w]
  by (intro octets_classified) auto

theorem reserved_addresses_prohibited_witness: "isProhibitedAddress (octal_quad 0x7F000001) \<and> isProhibitedAddress ''2130706433''"
proof -
  have "list_ex (in_network 0x7F000001) reserved_networks" by code_simp
  moreover have "show_base 10 (uint (0x7F000001 :: 32 word)) = ''2130706433''" by code_simp
  ultimately show ?thesis
    using reserved_addresses_prohibited [of "octal_quad 0x7F000001" "0x7F000001"] reserved_addresses_prohibited [of "''2130706433''" "0x7F000001"]
    by auto
qed

end
