(* ===== verification/RC_Pinned.thy ===== *)
theory RC_Pinned
  imports RC_Net
begin

text \<open>
  Pinned destinations. \<^verbatim>\<open>core/http/PinnedHttpTransport.ts\<close> resolves a host once, refuses an answer set that the
  destination policy does not admit and pins one address; the connectors compare every socket with the pin.
  \<^verbatim>\<open>core/http/PinnedOriginPool.ts\<close> keeps one connection pool for each origin and address, and
  \<^verbatim>\<open>core/http/HttpClient.ts\<close> caches resolutions. The DNS resolver, the comparison of strings and SHA-256 are parameters.
\<close>

section \<open>The destination policy\<close>

record dns_address =
  da_address :: string
  da_family :: nat

record destination_policy =
  dp_allowedPrivateOrigins :: "string list"
  dp_maxDnsAnswers :: nat

record connector_options =
  co_hostname :: string
  co_protocol :: string
  co_port :: string

record pinned_destination =
  pn_origin :: string
  pn_hostname :: string
  pn_port :: string
  pn_protocol :: string
  pn_address :: dns_address
  pn_addressFingerprint :: string
  pn_privateOriginExceptionUsed :: bool
  pn_answerCount :: nat

text \<open>What the resolver does: it answers with addresses, it fails, or the timeout comes first. An error is the code of a
  \<^verbatim>\<open>PinnedConnectionError\<close> with its message.\<close>

datatype dns_reply = DnsAnswers "string list" | DnsFailure | DnsTimedOut

type_synonym pin_error = "string \<times> string"

record pin_runtime =
  dr_resolver :: "string \<Rightarrow> dns_reply"
  dr_localeCompare :: "string \<Rightarrow> string \<Rightarrow> int"
  dr_digest :: "string \<Rightarrow> string"

definition normalizeIp :: "string \<Rightarrow> dns_address option" where
  "normalizeIp value = (let s = unbracketed value in
     if isIP s = 4 then Some \<lparr>da_address = s, da_family = 4\<rparr>
     else if isIP s = 6 then Some \<lparr>da_address = to_lower s, da_family = 6\<rparr>
     else None)"

definition isIpLiteral :: "string \<Rightarrow> bool" where
  "isIpLiteral value \<longleftrightarrow> normalizeIp value \<noteq> None"

definition isInternalHostname :: "string \<Rightarrow> bool" where
  "isInternalHostname h \<longleftrightarrow>
     h = ''localhost'' \<or> ends_with h ''.localhost'' \<or> ends_with h ''.local'' \<or> ends_with h ''.internal'' \<or> CHR ''.'' \<notin> set h"

definition isCloudMetadataAddress :: "string \<Rightarrow> bool" where
  "isCloudMetadataAddress address =
     (let normalized = to_lower (case normalizeIp address of Some a \<Rightarrow> da_address a | None \<Rightarrow> address) in
      normalized = ''169.254.169.254'' \<or> normalized = ''fd00:ec2::254'')"

definition isMulticastOrReserved :: "string \<Rightarrow> bool" where
  "isMulticastOrReserved address =
     (case normalizeIp address of
        None \<Rightarrow> True
      | Some a \<Rightarrow>
          if da_family a = 6 then (let value = to_lower (da_address a) in starts_with value ''ff'' \<or> value = ''::'')
          else case map parseInt10 (split_on (CHR ''.'') (da_address a)) of
            Some first # rest \<Rightarrow> 224 \<le> first \<or> (first = 192 \<and> take 1 rest = [Some 0])
          | _ \<Rightarrow> False)"

datatype network_class = PublicNetwork | PrivateNetwork
datatype address_class = Admitted network_class | Refused pin_error

definition addressClass :: "string \<Rightarrow> bool \<Rightarrow> address_class" where
  "addressClass address privateOriginAllowed =
     (if isCloudMetadataAddress address then Refused (''DNS_PROHIBITED_ADDRESS'', ''Cloud metadata destination was blocked.'')
      else if isMulticastOrReserved address then Refused (''DNS_PROHIBITED_ADDRESS'', ''Reserved destination address was blocked.'')
      else if isProhibitedAddress address then
        (if privateOriginAllowed then Admitted PrivateNetwork
         else Refused (''DNS_PRIVATE_ORIGIN_NOT_ALLOWED'', ''Private destination requires an exact private-origin exception.''))
      else Admitted PublicNetwork)"

definition protocolFor :: "string \<Rightarrow> pin_error + string" where
  "protocolFor value =
     (if value = ''http:'' \<or> value = ''https:'' then Inr value
      else Inl (''DESTINATION_POLICY_BLOCKED'', ''Unsupported protocol for pinned HTTP transport.''))"

definition strip_trailing_dot :: "string \<Rightarrow> string" where
  "strip_trailing_dot s = (if s \<noteq> [] \<and> last s = CHR ''.'' then butlast s else s)"

definition canonicalHostname :: "string \<Rightarrow> pin_error + string" where
  "canonicalHostname value =
     (let hostname = to_lower (strip_trailing_dot (case normalizeIp value of Some a \<Rightarrow> da_address a | None \<Rightarrow> value)) in
      if hostname = [] \<or> CHR ''%'' \<in> set hostname
      then Inl (''DESTINATION_POLICY_BLOCKED'', ''Invalid hostname for pinned HTTP transport.'')
      else Inr hostname)"

definition default_port :: "string \<Rightarrow> string" where
  "default_port protocol = (if protocol = ''https:'' then ''443'' else ''80'')"

definition hostForOrigin :: "string \<Rightarrow> string \<Rightarrow> string \<Rightarrow> string" where
  "hostForOrigin hostname port protocol =
     (let bracketed = (if CHR '':'' \<in> set hostname \<and> \<not> starts_with hostname ''['' then ''['' @ hostname @ '']'' else hostname) in
      if port = default_port protocol then bracketed else bracketed @ '':'' @ port)"

definition pin_origin :: "string \<Rightarrow> string \<Rightarrow> string \<Rightarrow> string" where
  "pin_origin protocol hostname port = protocol @ ''//'' @ hostForOrigin hostname port protocol"

definition connectorOptionsForUrl :: "url \<Rightarrow> connector_options" where
  "connectorOptionsForUrl u =
     \<lparr>co_hostname = u_hostname u, co_protocol = u_protocol u,
      co_port = (if u_port u = [] then default_port (u_protocol u) else u_port u)\<rparr>"

section \<open>Resolution\<close>

fun normalize_answers :: "string list \<Rightarrow> pin_error + dns_address list" where
  "normalize_answers [] = Inr []"
| "normalize_answers (x # xs) =
     (case normalizeIp x of
        None \<Rightarrow> Inl (''DNS_PROHIBITED_ADDRESS'', ''DNS returned an unsupported address.'')
      | Some a \<Rightarrow> ebind (normalize_answers xs) (\<lambda>as. Inr (a # as)))"

definition resolveAddresses :: "pin_runtime \<Rightarrow> string \<Rightarrow> bool \<Rightarrow> pin_error + dns_address list" where
  "resolveAddresses rt hostname privateOriginAllowed =
     (case normalizeIp hostname of
        Some literal \<Rightarrow> Inr [literal]
      | None \<Rightarrow>
          if isInternalHostname hostname \<and> \<not> privateOriginAllowed
          then Inl (''DNS_PROHIBITED_ADDRESS'', ''Internal hostname was blocked by destination policy.'')
          else case dr_resolver rt hostname of
            DnsTimedOut \<Rightarrow> Inl (''DNS_TIMEOUT'', ''DNS resolution timed out.'')
          | DnsFailure \<Rightarrow> Inl (''DNS_RESOLUTION_FAILED'', ''DNS resolution failed.'')
          | DnsAnswers raw \<Rightarrow> normalize_answers raw)"

text \<open>The key of an answer is \<^verbatim>\<open>family:address\<close> in lower case.\<close>

definition address_key :: "dns_address \<Rightarrow> nat \<times> string" where
  "address_key a = (da_family a, to_lower (da_address a))"

fun dedupe_from :: "(nat \<times> string) list \<Rightarrow> dns_address list \<Rightarrow> dns_address list" where
  "dedupe_from seen [] = []"
| "dedupe_from seen (a # as) =
     (if address_key a \<in> set seen then dedupe_from seen as else a # dedupe_from (address_key a # seen) as)"

definition dedupeAddresses :: "dns_address list \<Rightarrow> dns_address list" where
  "dedupeAddresses = dedupe_from []"

definition compareAddress :: "pin_runtime \<Rightarrow> dns_address \<Rightarrow> dns_address \<Rightarrow> int" where
  "compareAddress rt l r =
     (if da_family l \<noteq> da_family r then int (da_family l) - int (da_family r) else dr_localeCompare rt (da_address l) (da_address r))"

definition fingerprintAddress :: "pin_runtime \<Rightarrow> string \<Rightarrow> string" where
  "fingerprintAddress rt address = take 16 (dr_digest rt (''routecairn-pinned-address-v1'' @ [CHR 0x00] @ address))"

text \<open>The classes of the answers: the first refusal, or whether they mix public and private destinations.\<close>

fun first_refusal :: "address_class list \<Rightarrow> pin_error option" where
  "first_refusal [] = None"
| "first_refusal (Refused e # cs) = Some e"
| "first_refusal (Admitted n # cs) = first_refusal cs"

text \<open>The choice among the answers, the second half of \<^verbatim>\<open>resolvePinnedDestination\<close>.\<close>

definition select_destination ::
    "pin_runtime \<Rightarrow> destination_policy \<Rightarrow> string \<Rightarrow> string \<Rightarrow> string \<Rightarrow> dns_address list \<Rightarrow> pin_error + pinned_destination" where
  "select_destination rt policy protocol hostname port answers =
     (let origin = pin_origin protocol hostname port;
          privateOriginAllowed = (origin \<in> set (dp_allowedPrivateOrigins policy));
          unique = dedupeAddresses answers;
          classes = map (\<lambda>a. addressClass (da_address a) privateOriginAllowed) unique in
      case first_refusal classes of
        Some e \<Rightarrow> Inl e
      | None \<Rightarrow>
          ebind (guard_err (Admitted PublicNetwork \<in> set classes \<and> Admitted PrivateNetwork \<in> set classes)
                   (''DNS_MIXED_DESTINATION_CLASSES'', ''DNS answer set mixed incompatible destination classes.'')) (\<lambda>_.
          (case sort_by (compareAddress rt) unique of
             [] \<Rightarrow> Inl (''DNS_NO_ADDRESSES'', ''DNS resolution returned no usable addresses.'')
           | selected # _ \<Rightarrow>
               Inr \<lparr>pn_origin = origin, pn_hostname = hostname, pn_port = port, pn_protocol = protocol, pn_address = selected,
                    pn_addressFingerprint = fingerprintAddress rt (da_address selected),
                    pn_privateOriginExceptionUsed = (privateOriginAllowed \<and> take 1 classes = [Admitted PrivateNetwork]),
                    pn_answerCount = length unique\<rparr>)))"

definition resolvePinnedDestination :: "pin_runtime \<Rightarrow> destination_policy \<Rightarrow> connector_options \<Rightarrow> pin_error + pinned_destination" where
  "resolvePinnedDestination rt policy opts =
     ebind (protocolFor (co_protocol opts)) (\<lambda>protocol.
     ebind (canonicalHostname (co_hostname opts)) (\<lambda>hostname.
     (let port = (if co_port opts = [] then default_port protocol else co_port opts) in
      ebind (resolveAddresses rt hostname (pin_origin protocol hostname port \<in> set (dp_allowedPrivateOrigins policy))) (\<lambda>answers.
      ebind (guard_err (answers = []) (''DNS_NO_ADDRESSES'', ''DNS resolution returned no addresses.'')) (\<lambda>_.
      ebind (guard_err (dp_maxDnsAnswers policy < length answers) (''DNS_TOO_MANY_ADDRESSES'', ''DNS resolution returned too many addresses.'')) (\<lambda>_.
      select_destination rt policy protocol hostname port answers))))))"

section \<open>Connectors\<close>

definition sameIp :: "string \<Rightarrow> string \<Rightarrow> bool" where
  "sameIp left right =
     (case (normalizeIp left, normalizeIp right) of
        (Some l, Some r) \<Rightarrow>
          da_address l = da_address r \<or>
          (da_family l = 6 \<and> da_family r = 4 \<and> to_lower (da_address l) = ''::ffff:'' @ da_address r) \<or>
          (da_family l = 4 \<and> da_family r = 6 \<and> to_lower (da_address r) = ''::ffff:'' @ da_address l)
      | _ \<Rightarrow> False)"

text \<open>A connected socket: its remote address and, over TLS, the negotiated protocol. \<open>None\<close> is a failed connection.\<close>

record connected_socket =
  cs_remoteAddress :: "string option"
  cs_alpn :: "string option"

definition remote_matches :: "pinned_destination \<Rightarrow> connected_socket \<Rightarrow> bool" where
  "remote_matches pin sock = (case cs_remoteAddress sock of None \<Rightarrow> False | Some r \<Rightarrow> r \<noteq> [] \<and> sameIp r (da_address (pn_address pin)))"

definition connection_failed :: pin_error where
  "connection_failed = (''PINNED_CONNECTION_FAILED'', ''Pinned connection failed.'')"

definition remote_mismatch :: pin_error where
  "remote_mismatch = (''PINNED_REMOTE_ADDRESS_MISMATCH'', ''Pinned socket remote address did not match the selected destination.'')"

text \<open>\<open>dial\<close> is the base connector, called with the host to connect to and the port.\<close>

definition createPinnedConnector ::
    "pin_runtime \<Rightarrow> destination_policy \<Rightarrow> (string \<Rightarrow> string \<Rightarrow> connected_socket option) \<Rightarrow> connector_options \<Rightarrow> pin_error + connected_socket" where
  "createPinnedConnector rt policy dial opts =
     ebind (resolvePinnedDestination rt policy opts) (\<lambda>pin.
     (case dial (da_address (pn_address pin)) (co_port opts) of
        None \<Rightarrow> Inl connection_failed
      | Some sock \<Rightarrow> if remote_matches pin sock then Inr sock else Inl remote_mismatch))"

definition createBoundPinnedConnector ::
    "pinned_destination \<Rightarrow> bool \<Rightarrow> (string \<Rightarrow> string \<Rightarrow> connected_socket option) \<Rightarrow> connector_options \<Rightarrow> pin_error + connected_socket" where
  "createBoundPinnedConnector pin allowHttp2 dial opts =
     ebind (protocolFor (co_protocol opts)) (\<lambda>protocol.
     ebind (canonicalHostname (co_hostname opts)) (\<lambda>hostname.
     (let port = (if co_port opts = [] then default_port protocol else co_port opts) in
      if pin_origin protocol hostname port \<noteq> pn_origin pin \<or> hostname \<noteq> pn_hostname pin \<or> port \<noteq> pn_port pin \<or> protocol \<noteq> pn_protocol pin
      then Inl (''PINNED_POOL_ORIGIN_MISMATCH'', ''Origin-isolated pool rejected a cross-origin connection.'')
      else case dial (da_address (pn_address pin)) (co_port opts) of
        None \<Rightarrow> Inl connection_failed
      | Some sock \<Rightarrow>
          if \<not> remote_matches pin sock then Inl remote_mismatch
          else if cs_alpn sock = Some ''h2'' \<and> (\<not> allowHttp2 \<or> pn_protocol pin \<noteq> ''https:'')
          then Inl (''PINNED_HTTP2_POLICY_MISMATCH'', ''HTTP/2 negotiation was not permitted for this pool.'')
          else Inr sock)))"

section \<open>The origin pool\<close>

record transport_settings =
  ts_poolingEnabled :: bool
  ts_http2Enabled :: bool
  ts_maxOrigins :: jsnum
  ts_maxConnectionsPerOrigin :: jsnum
  ts_maxConcurrentHttp2Streams :: jsnum
  ts_maxHeaderSizeBytes :: jsnum
  ts_keepAliveTimeoutMs :: jsnum
  ts_keepAliveMaxTimeoutMs :: jsnum
  ts_maxConnectionLifetimeMs :: jsnum
  ts_maxRequestsPerConnection :: jsnum
  ts_dnsCacheTtlMs :: jsnum

definition defaultPinnedTransportSettings :: transport_settings where
  "defaultPinnedTransportSettings =
     \<lparr>ts_poolingEnabled = True, ts_http2Enabled = False, ts_maxOrigins = jsint 64, ts_maxConnectionsPerOrigin = jsint 4,
      ts_maxConcurrentHttp2Streams = jsint 32, ts_maxHeaderSizeBytes = jsint 16384, ts_keepAliveTimeoutMs = jsint 10000,
      ts_keepAliveMaxTimeoutMs = jsint 30000, ts_maxConnectionLifetimeMs = jsint 120000,
      ts_maxRequestsPerConnection = jsint 1000, ts_dnsCacheTtlMs = jsint 0\<rparr>"

definition bounded_setting :: "string \<times> jsnum \<times> int \<times> int \<Rightarrow> string + unit" where
  "bounded_setting b = (case b of (key, candidate, minimum, maximum) \<Rightarrow>
     guard_err (\<not> js_isInteger candidate \<or> js_less candidate (jsint minimum) \<or> js_less (jsint maximum) candidate)
       (''PINNED_TRANSPORT_SETTING_INVALID:'' @ key))"

definition validateSettings_pool :: "transport_settings \<Rightarrow> string + transport_settings" where
  "validateSettings_pool v =
     ebind (each_err bounded_setting
       [(''maxOrigins'', ts_maxOrigins v, 1, 1024), (''maxConnectionsPerOrigin'', ts_maxConnectionsPerOrigin v, 1, 32),
        (''maxConcurrentHttp2Streams'', ts_maxConcurrentHttp2Streams v, 1, 256),
        (''maxHeaderSizeBytes'', ts_maxHeaderSizeBytes v, 4096, 65536),
        (''keepAliveTimeoutMs'', ts_keepAliveTimeoutMs v, 100, 120000),
        (''keepAliveMaxTimeoutMs'', ts_keepAliveMaxTimeoutMs v, 100, 300000),
        (''maxConnectionLifetimeMs'', ts_maxConnectionLifetimeMs v, 1000, 900000),
        (''maxRequestsPerConnection'', ts_maxRequestsPerConnection v, 1, 10000),
        (''dnsCacheTtlMs'', ts_dnsCacheTtlMs v, 0, 60000)]) (\<lambda>_.
     ebind (guard_err (js_less (ts_keepAliveMaxTimeoutMs v) (ts_keepAliveTimeoutMs v))
              ''PINNED_TRANSPORT_SETTING_INVALID:keepAliveMaxTimeoutMs'') (\<lambda>_. Inr v))"

text \<open>
  A physical pool is identified by a number; \<open>op_created\<close> records for each created pool the pin its connector is bound
  to, \<open>op_retiring\<close> the pools that were replaced or evicted. The counters are those the methods of the pool itself change;
  the connection counters change in \<^verbatim>\<open>onConnect\<close>.
\<close>

record pool_entry =
  pe_pin :: pinned_destination
  pe_pool :: nat
  pe_lastUsedAt :: int

record origin_pool =
  op_settings :: transport_settings
  op_entries :: "(string \<times> pool_entry) list"
  op_closed :: bool
  op_created :: "pinned_destination list"
  op_retiring :: "nat list"
  op_requestsDispatched :: nat
  op_poolHits :: nat
  op_poolMisses :: nat
  op_pinRotations :: nat
  op_originEvictions :: nat
  op_connectionsCreated :: nat
  op_http1Connections :: nat
  op_http2Connections :: nat
  op_dnsResolutions :: nat
  op_dnsCacheHits :: nat
  op_blockedResolutions :: nat
  op_peakOriginPools :: nat

definition new_origin_pool :: "transport_settings \<Rightarrow> string + origin_pool" where
  "new_origin_pool settings = ebind (validateSettings_pool settings) (\<lambda>v.
     Inr \<lparr>op_settings = v, op_entries = [], op_closed = False, op_created = [], op_retiring = [], op_requestsDispatched = 0,
          op_poolHits = 0, op_poolMisses = 0, op_pinRotations = 0, op_originEvictions = 0, op_connectionsCreated = 0,
          op_http1Connections = 0, op_http2Connections = 0, op_dnsResolutions = 0, op_dnsCacheHits = 0,
          op_blockedResolutions = 0, op_peakOriginPools = 0\<rparr>)"

definition samePin :: "pinned_destination \<Rightarrow> pinned_destination \<Rightarrow> bool" where
  "samePin l r \<longleftrightarrow> pn_origin l = pn_origin r \<and> da_family (pn_address l) = da_family (pn_address r) \<and>
     to_lower (da_address (pn_address l)) = to_lower (da_address (pn_address r))"

definition createPool :: "pinned_destination \<Rightarrow> origin_pool \<Rightarrow> nat \<times> origin_pool" where
  "createPool pin p = (length (op_created p), p\<lparr>op_created := op_created p @ [pin]\<rparr>)"

definition retire :: "nat \<Rightarrow> origin_pool \<Rightarrow> origin_pool" where
  "retire k p = p\<lparr>op_retiring := op_retiring p @ [k]\<rparr>"

definition without_key :: "string \<Rightarrow> (string \<times> 'v) list \<Rightarrow> (string \<times> 'v) list" where
  "without_key k = filter (\<lambda>(k', _). k' \<noteq> k)"

definition evictIfRequired :: "origin_pool \<Rightarrow> origin_pool" where
  "evictIfRequired p =
     (if js_less (jsint (int (length (op_entries p)))) (ts_maxOrigins (op_settings p)) then p
      else case sort_by (\<lambda>l r. pe_lastUsedAt (snd l) - pe_lastUsedAt (snd r)) (op_entries p) of
        [] \<Rightarrow> p
      | oldest # _ \<Rightarrow>
          retire (pe_pool (snd oldest))
            (p\<lparr>op_entries := without_key (fst oldest) (op_entries p), op_originEvictions := op_originEvictions p + 1\<rparr>))"

text \<open>The end of \<^verbatim>\<open>acquire\<close>: a new pool for the origin.\<close>

definition pool_miss :: "int \<Rightarrow> pinned_destination \<Rightarrow> origin_pool \<Rightarrow> (string + nat) \<times> origin_pool" where
  "pool_miss now pin p =
     (case createPool pin (evictIfRequired p) of (k, p1) \<Rightarrow>
        (let entries = js_map_set (pn_origin pin) \<lparr>pe_pin = pin, pe_pool = k, pe_lastUsedAt = now\<rparr> (op_entries p1) in
         (Inr k, p1\<lparr>op_entries := entries, op_poolMisses := op_poolMisses p1 + 1,
                     op_peakOriginPools := max (op_peakOriginPools p1) (length entries)\<rparr>)))"

text \<open>\<open>alive\<close> tells which pools are neither closed nor destroyed. The result is the pool that carries the request.\<close>

definition acquire_pool :: "(nat \<Rightarrow> bool) \<Rightarrow> int \<Rightarrow> pinned_destination \<Rightarrow> origin_pool \<Rightarrow> (string + nat) \<times> origin_pool" where
  "acquire_pool alive now pin p =
     (if op_closed p then (Inl ''PINNED_ORIGIN_POOL_CLOSED'', p)
      else let p1 = p\<lparr>op_requestsDispatched := op_requestsDispatched p + 1\<rparr> in
        if \<not> ts_poolingEnabled (op_settings p1) then
          (case createPool pin (p1\<lparr>op_poolMisses := op_poolMisses p1 + 1\<rparr>) of (k, p2) \<Rightarrow> (Inr k, p2))
        else case map_of (op_entries p1) (pn_origin pin) of
          Some e \<Rightarrow>
            if samePin (pe_pin e) pin \<and> alive (pe_pool e) then
              (Inr (pe_pool e),
               p1\<lparr>op_entries := js_map_set (pn_origin pin) (e\<lparr>pe_lastUsedAt := now\<rparr>) (op_entries p1), op_poolHits := op_poolHits p1 + 1\<rparr>)
            else pool_miss now pin (retire (pe_pool e)
                   (p1\<lparr>op_entries := without_key (pn_origin pin) (op_entries p1), op_pinRotations := op_pinRotations p1 + 1\<rparr>))
        | None \<Rightarrow> pool_miss now pin p1)"

definition recordDnsResolution :: "origin_pool \<Rightarrow> origin_pool" where
  "recordDnsResolution p = p\<lparr>op_dnsResolutions := op_dnsResolutions p + 1\<rparr>"

definition recordDnsCacheHit :: "origin_pool \<Rightarrow> origin_pool" where
  "recordDnsCacheHit p = p\<lparr>op_dnsCacheHits := op_dnsCacheHits p + 1\<rparr>"

definition recordBlockedResolution :: "origin_pool \<Rightarrow> origin_pool" where
  "recordBlockedResolution p = p\<lparr>op_blockedResolutions := op_blockedResolutions p + 1\<rparr>"

text \<open>\<^verbatim>\<open>onConnect\<close> of a pool's connector.\<close>

definition on_connect :: "string \<Rightarrow> origin_pool \<Rightarrow> origin_pool" where
  "on_connect protocol p = (let p1 = p\<lparr>op_connectionsCreated := op_connectionsCreated p + 1\<rparr> in
     if protocol = ''h2'' then p1\<lparr>op_http2Connections := op_http2Connections p1 + 1\<rparr>
     else p1\<lparr>op_http1Connections := op_http1Connections p1 + 1\<rparr>)"

definition close_origin_pool :: "origin_pool \<Rightarrow> origin_pool" where
  "close_origin_pool p = p\<lparr>op_closed := True, op_entries := []\<rparr>"

definition estimatedConnectionReuses :: "origin_pool \<Rightarrow> int" where
  "estimatedConnectionReuses p = max 0 (int (op_requestsDispatched p) - int (op_connectionsCreated p))"

section \<open>Cached resolution\<close>

text \<open>The client of one broker: its policy, its DNS cache in insertion order, and the pool it shares.\<close>

record dns_entry =
  de_expiresAt :: jsnum
  de_pin :: pinned_destination

record http_client =
  hc_policy :: destination_policy
  hc_dnsCache :: "(string \<times> dns_entry) list"
  hc_pool :: origin_pool

text \<open>\<^verbatim>\<open>pruneDnsCache\<close>: expired entries go, then the oldest until there is room for one more.\<close>

definition pruneDnsCache :: "int \<Rightarrow> jsnum \<Rightarrow> (string \<times> dns_entry) list \<Rightarrow> (string \<times> dns_entry) list" where
  "pruneDnsCache now maxOrigins cache =
     (let live = filter (\<lambda>(_, e). \<not> js_leq (de_expiresAt e) (jsint now)) cache;
          room = (case maxOrigins of JFin q \<Rightarrow> nat (\<lceil>q\<rceil> - 1) | JNegInf \<Rightarrow> 0 | _ \<Rightarrow> length live) in
      drop (length live - room) live)"

fun js_add :: "jsnum \<Rightarrow> jsnum \<Rightarrow> jsnum" where
  "js_add (JFin a) (JFin b) = JFin (a + b)"
| "js_add JNaN _ = JNaN"
| "js_add _ JNaN = JNaN"
| "js_add JPosInf JNegInf = JNaN"
| "js_add JNegInf JPosInf = JNaN"
| "js_add JPosInf _ = JPosInf"
| "js_add JNegInf _ = JNegInf"
| "js_add _ x = x"

text \<open>The part after a cache miss; a failed resolution leaves no entry.\<close>

definition resolve_fresh :: "pin_runtime \<Rightarrow> int \<Rightarrow> url \<Rightarrow> jsnum \<Rightarrow> string \<Rightarrow> http_client \<Rightarrow> (pin_error + pinned_destination) \<times> http_client" where
  "resolve_fresh rt now u ttl key c =
     (let pool = recordDnsResolution (hc_pool c);
          pruned = (if js_less (jsint 0) ttl then pruneDnsCache now (ts_maxOrigins (op_settings pool)) (hc_dnsCache c) else hc_dnsCache c) in
      case resolvePinnedDestination rt (hc_policy c) (connectorOptionsForUrl u) of
        Inl e \<Rightarrow> (Inl e, c\<lparr>hc_dnsCache := without_key key pruned, hc_pool := recordBlockedResolution pool\<rparr>)
      | Inr pin \<Rightarrow>
          (Inr pin, c\<lparr>hc_dnsCache := (if js_less (jsint 0) ttl
                                       then js_map_set key \<lparr>de_expiresAt = js_add (jsint now) ttl, de_pin = pin\<rparr> pruned else pruned),
                      hc_pool := pool\<rparr>))"

definition resolveDestination :: "pin_runtime \<Rightarrow> int \<Rightarrow> url \<Rightarrow> http_client \<Rightarrow> (pin_error + pinned_destination) \<times> http_client" where
  "resolveDestination rt now u c =
     (let ttl = ts_dnsCacheTtlMs (op_settings (hc_pool c)); key = url_origin u in
      case (if js_less (jsint 0) ttl then map_of (hc_dnsCache c) key else None) of
        Some e \<Rightarrow>
          if js_less (jsint now) (de_expiresAt e)
          then (Inr (de_pin e), c\<lparr>hc_pool := recordDnsCacheHit (hc_pool c)\<rparr>)
          else resolve_fresh rt now u ttl key c
      | None \<Rightarrow> resolve_fresh rt now u ttl key c)"

section \<open>Admitted destinations\<close>

text \<open>What the policy promises of a destination: no metadata address, no multicast or reserved one, and a private one only
  for an origin that is listed exactly.\<close>

definition destination_admitted :: "destination_policy \<Rightarrow> string \<Rightarrow> string \<Rightarrow> bool" where
  "destination_admitted policy origin a \<longleftrightarrow>
     \<not> isCloudMetadataAddress a \<and> \<not> isMulticastOrReserved a \<and>
     (isProhibitedAddress a \<longrightarrow> origin \<in> set (dp_allowedPrivateOrigins policy))"

lemma addressClass_Admitted: "addressClass a (origin \<in> set (dp_allowedPrivateOrigins policy)) = Admitted n \<Longrightarrow> destination_admitted policy origin a"
  by (auto simp: addressClass_def destination_admitted_def split: if_splits)

lemma first_refusal_None: "first_refusal cs = None \<Longrightarrow> c \<in> set cs \<Longrightarrow> \<exists>n. c = Admitted n"
  by (induction cs rule: first_refusal.induct) auto

lemma dedupe_from_subset: "set (dedupe_from seen as) \<subseteq> set as"
  by (induction seen as rule: dedupe_from.induct) auto

lemma select_destination_admitted:
  assumes "select_destination rt policy protocol hostname port answers = Inr pin"
  shows "destination_admitted policy (pn_origin pin) (da_address (pn_address pin)) \<and> pn_address pin \<in> set answers"
proof -
  let ?o = "pin_origin protocol hostname port" and ?u = "dedupeAddresses answers"
  let ?cs = "map (\<lambda>a. addressClass (da_address a) (?o \<in> set (dp_allowedPrivateOrigins policy))) ?u"
  have none: "first_refusal ?cs = None"
    using assms by (cases "first_refusal ?cs") (simp_all add: select_destination_def Let_def)
  obtain selected rest where sel: "sort_by (compareAddress rt) ?u = selected # rest"
    using assms none by (cases "sort_by (compareAddress rt) ?u") (simp_all add: select_destination_def Let_def result_split)
  then have pin: "pn_origin pin = ?o" "pn_address pin = selected"
    using assms none by (auto simp: select_destination_def Let_def result_split)
  have "selected \<in> set ?u" using sel set_sort_by [of "compareAddress rt" ?u] by (metis list.set_intros(1))
  then show ?thesis
    using first_refusal_None [OF none] addressClass_Admitted pin dedupe_from_subset [of "[]" answers]
    by (fastforce simp: dedupeAddresses_def)
qed

lemma resolvePinnedDestination_admitted:
  "resolvePinnedDestination rt policy opts = Inr pin \<Longrightarrow> destination_admitted policy (pn_origin pin) (da_address (pn_address pin))"
  by (auto simp: resolvePinnedDestination_def Let_def result_split dest: select_destination_admitted)

text \<open>A sequence of resolutions by one client, with the answers of the resolver and the clock of each.\<close>

fun resolve_run :: "http_client \<Rightarrow> (pin_runtime \<times> int \<times> url) list \<Rightarrow> (pin_error + pinned_destination) list" where
  "resolve_run c [] = []"
| "resolve_run c ((rt, now, u) # calls) =
     (case resolveDestination rt now u c of (r, c') \<Rightarrow> r # resolve_run c' calls)"

definition cache_admitted :: "http_client \<Rightarrow> bool" where
  "cache_admitted c \<longleftrightarrow> (\<forall>e \<in> snd ` set (hc_dnsCache c).
     destination_admitted (hc_policy c) (pn_origin (de_pin e)) (da_address (pn_address (de_pin e))))"

lemma pruneDnsCache_subset: "set (pruneDnsCache now m cache) \<subseteq> set cache"
  by (auto simp: pruneDnsCache_def Let_def dest: in_set_dropD)

lemma js_map_set_subset: "set (js_map_set k v m) \<subseteq> insert (k, v) (set m)"
  by (induction k v m rule: js_map_set.induct) auto

lemma resolve_fresh_admitted:
  assumes "cache_admitted c" and "resolve_fresh rt now u ttl key c = (r, c')"
  shows "cache_admitted c' \<and> hc_policy c' = hc_policy c \<and>
    (\<forall>pin. r = Inr pin \<longrightarrow> destination_admitted (hc_policy c) (pn_origin pin) (da_address (pn_address pin)))"
proof -
  let ?p = "if js_less (jsint 0) ttl then pruneDnsCache now (ts_maxOrigins (op_settings (recordDnsResolution (hc_pool c)))) (hc_dnsCache c) else hc_dnsCache c"
  have sub: "set ?p \<subseteq> set (hc_dnsCache c)" using pruneDnsCache_subset by (auto split: if_splits)
  have keep: "cache_admitted c'" if "set (hc_dnsCache c') \<subseteq> set (hc_dnsCache c) \<union> X" "hc_policy c' = hc_policy c"
      "\<forall>(k, e) \<in> X. destination_admitted (hc_policy c) (pn_origin (de_pin e)) (da_address (pn_address (de_pin e)))" for X
    using assms(1) that unfolding cache_admitted_def by fastforce
  show ?thesis
  proof (cases "resolvePinnedDestination rt (hc_policy c) (connectorOptionsForUrl u)")
    case (Inl e)
    then have c': "r = Inl e" "hc_dnsCache c' = without_key key ?p" "hc_policy c' = hc_policy c"
      using assms(2) by (auto simp: resolve_fresh_def Let_def)
    then have "set (hc_dnsCache c') \<subseteq> set (hc_dnsCache c) \<union> {}" using sub by (auto simp: without_key_def)
    then show ?thesis using c' keep [of "{}"] by simp
  next
    case (Inr pin)
    let ?e = "(key, \<lparr>de_expiresAt = js_add (jsint now) ttl, de_pin = pin\<rparr>)"
    have c': "r = Inr pin" "hc_policy c' = hc_policy c"
      "hc_dnsCache c' = (if js_less (jsint 0) ttl then js_map_set (fst ?e) (snd ?e) ?p else ?p)"
      using assms(2) Inr by (auto simp: resolve_fresh_def Let_def)
    have "set (js_map_set (fst ?e) (snd ?e) ?p) \<subseteq> set (hc_dnsCache c) \<union> {?e}" using js_map_set_subset [of "fst ?e" "snd ?e" ?p] sub by auto
    then have "set (hc_dnsCache c') \<subseteq> set (hc_dnsCache c) \<union> {?e}" using sub unfolding c'(3) by (cases "js_less (jsint 0) ttl") auto
    then show ?thesis using c' keep [of "{?e}"] resolvePinnedDestination_admitted [OF Inr] by simp
  qed
qed

lemma resolveDestination_admitted:
  assumes "cache_admitted c" and "resolveDestination rt now u c = (r, c')"
  shows "cache_admitted c' \<and> hc_policy c' = hc_policy c \<and>
    (\<forall>pin. r = Inr pin \<longrightarrow> destination_admitted (hc_policy c) (pn_origin pin) (da_address (pn_address pin)))"
proof (cases "\<exists>e. (if js_less (jsint 0) (ts_dnsCacheTtlMs (op_settings (hc_pool c))) then map_of (hc_dnsCache c) (url_origin u) else None) = Some e \<and>
      js_less (jsint now) (de_expiresAt e)")
  case True
  then obtain e where e: "map_of (hc_dnsCache c) (url_origin u) = Some e" "js_less (jsint now) (de_expiresAt e)"
    "js_less (jsint 0) (ts_dnsCacheTtlMs (op_settings (hc_pool c)))" by (auto split: if_splits)
  then have "r = Inr (de_pin e)" "c' = c\<lparr>hc_pool := recordDnsCacheHit (hc_pool c)\<rparr>"
    using assms(2) by (simp_all add: resolveDestination_def Let_def)
  moreover have "e \<in> snd ` set (hc_dnsCache c)" using map_of_SomeD [OF e(1)] by force
  ultimately show ?thesis using assms(1) by (auto simp: cache_admitted_def)
next
  case False
  then have "resolve_fresh rt now u (ts_dnsCacheTtlMs (op_settings (hc_pool c))) (url_origin u) c = (r, c')"
    using assms(2) by (auto simp: resolveDestination_def Let_def split: option.splits if_splits)
  then show ?thesis by (rule resolve_fresh_admitted [OF assms(1)])
qed

lemma resolve_run_admitted:
  "cache_admitted c \<Longrightarrow> Inr pin \<in> set (resolve_run c calls) \<Longrightarrow>
     destination_admitted (hc_policy c) (pn_origin pin) (da_address (pn_address pin))"
proof (induction c calls rule: resolve_run.induct)
  case (2 c rt now u calls)
  obtain r c' where r: "resolveDestination rt now u c = (r, c')" by fastforce
  from resolveDestination_admitted [OF 2(2) r] 2(1) [OF r [symmetric]] 2(3) r show ?case by auto
qed simp

lemma bound_connector_socket:
  "createBoundPinnedConnector pin h2 dial opts = Inr sock \<Longrightarrow>
     dial (da_address (pn_address pin)) (co_port opts) = Some sock \<and>
     (\<exists>r. cs_remoteAddress sock = Some r \<and> sameIp r (da_address (pn_address pin)))"
  by (auto simp: createBoundPinnedConnector_def Let_def result_split remote_matches_def split: if_splits option.splits)

text \<open>
  C8: a socket reaches only an admitted destination. Whatever resolvers answer over time and whatever the DNS cache holds, a socket that a bound
  connector hands over was dialled at the pinned address, has that address as its remote address, and
  the address is admitted by the policy; in particular an IPv4 address lies in no reserved network
  unless the origin has an exact private-origin exception.
\<close>

theorem sockets_reach_admitted_destinations:
  assumes "hc_dnsCache c = []" and "Inr pin \<in> set (resolve_run c calls)"
    and "createBoundPinnedConnector pin h2 dial opts = Inr sock"
  shows "dial (da_address (pn_address pin)) (co_port opts) = Some sock \<and>
    (\<exists>r. cs_remoteAddress sock = Some r \<and> sameIp r (da_address (pn_address pin))) \<and>
    destination_admitted (hc_policy c) (pn_origin pin) (da_address (pn_address pin)) \<and>
    (\<forall>w. da_address (pn_address pin) = show_octets (octets_of w) \<longrightarrow> pn_origin pin \<notin> set (dp_allowedPrivateOrigins (hc_policy c)) \<longrightarrow>
       \<not> list_ex (in_network w) reserved_networks)"
proof -
  have "cache_admitted c" using assms(1) by (simp add: cache_admitted_def)
  then have ok: "destination_admitted (hc_policy c) (pn_origin pin) (da_address (pn_address pin))"
    using assms(2) by (rule resolve_run_admitted)
  moreover have "\<not> list_ex (in_network w) reserved_networks"
    if "da_address (pn_address pin) = show_octets (octets_of w)" "pn_origin pin \<notin> set (dp_allowedPrivateOrigins (hc_policy c))" for w
    using ok that octets_classified [of "show_octets (octets_of w)" w] normalize_dotted [of w] by (simp add: destination_admitted_def)
  ultimately show ?thesis using bound_connector_socket [OF assms(3)] by blast
qed

text \<open>A concrete resolver, policy and client for the examples.\<close>

definition example_pin_runtime :: pin_runtime where
  "example_pin_runtime = \<lparr>dr_resolver = (\<lambda>h. if h = ''a.io'' then DnsAnswers [''93.184.216.34''] else DnsAnswers [''::ffff:169.254.169.254'']),
     dr_localeCompare = locale_compare, dr_digest = (\<lambda>s. s)\<rparr>"

definition example_policy_none :: destination_policy where
  "example_policy_none = \<lparr>dp_allowedPrivateOrigins = [], dp_maxDnsAnswers = 16\<rparr>"

definition example_client :: http_client where
  "example_client = \<lparr>hc_policy = example_policy_none, hc_dnsCache = [],
     hc_pool = (case new_origin_pool defaultPinnedTransportSettings of Inr p \<Rightarrow> p | Inl _ \<Rightarrow> undefined)\<rparr>"

definition example_pin :: pinned_destination where
  "example_pin = (case resolvePinnedDestination example_pin_runtime example_policy_none (connectorOptionsForUrl (url_of_parts ''https:'' ''a.io'' ''/'')) of
     Inr p \<Rightarrow> p | Inl _ \<Rightarrow> undefined)"

definition example_dial :: "string \<Rightarrow> string \<Rightarrow> connected_socket option" where
  "example_dial host port = Some \<lparr>cs_remoteAddress = Some host, cs_alpn = None\<rparr>"

theorem sockets_reach_admitted_destinations_witness:
  "destination_admitted example_policy_none ''https://a.io'' ''93.184.216.34''"
proof -
  let ?c = "connectorOptionsForUrl (url_of_parts ''https:'' ''a.io'' ''/'')"
  have "resolve_run example_client [(example_pin_runtime, 0, url_of_parts ''https:'' ''a.io'' ''/'')] = [Inr example_pin]" by code_simp
  then have "Inr example_pin \<in> set (resolve_run example_client [(example_pin_runtime, 0, url_of_parts ''https:'' ''a.io'' ''/'')])" by simp
  moreover have "createBoundPinnedConnector example_pin False example_dial ?c = Inr \<lparr>cs_remoteAddress = Some ''93.184.216.34'', cs_alpn = None\<rparr>"
    by code_simp
  moreover have "pn_origin example_pin = ''https://a.io''" "da_address (pn_address example_pin) = ''93.184.216.34''" by code_simp+
  ultimately show ?thesis
    using sockets_reach_admitted_destinations [of example_client example_pin "[(example_pin_runtime, 0, url_of_parts ''https:'' ''a.io'' ''/'')]"]
    by (simp add: example_client_def)
qed

section \<open>Mapped addresses\<close>

text \<open>The IPv4-mapped IPv6 address, in the notation of resolvers and sockets.\<close>

definition mapped_quad :: "32 word \<Rightarrow> string" where
  "mapped_quad w = ''::ffff:'' @ show_octets (octets_of w)"

lemma link_local_octets:
  assumes "in_network w (0xA9FE0000, 16)"
  obtains c d where "octets_of w = [169, 254, c, d]"
proof -
  have q: "uint w div 2 ^ 16 = 43518" using assms by (simp add: in_network_arith)
  have "uint w div 2 ^ 24 = uint w div 2 ^ 16 div 256" by (simp add: zdiv_zmult2_eq [symmetric])
  then have "uint w div 2 ^ 24 = 169" "uint w div 2 ^ 16 mod 256 = 254" unfolding q by simp_all
  then show thesis using that by (simp add: octets_arith)
qed

lemma show_octets_chars:
  assumes "\<forall>x \<in> set xs. 0 \<le> x" "c \<in> set (show_octets xs)"
  shows "is_digit c \<or> c = CHR ''.''"
proof (rule ccontr)
  assume n: "\<not> (is_digit c \<or> c = CHR ''.'')"
  have "c \<notin> set (show_base 10 x)" if "x \<in> set xs" for x
    using show_base_digits [of 10 is_digit x] assms(1) that n by (auto simp: decimal_digit list_all_iff)
  then have "c \<notin> set (show_octets xs)" unfolding show_octets_def using n by (intro join_without) auto
  then show False using assms(2) by contradiction
qed

lemma digit_char_lower: "is_digit c \<Longrightarrow> char_lower c = c"
proof -
  have "list_all (\<lambda>c. char_lower c = c) ''0123456789''" by code_simp
  then show "is_digit c \<Longrightarrow> ?thesis" unfolding list_all_iff is_digit_def by blast
qed

lemma mapped_quad_facts:
  shows to_lower_mapped: "to_lower (mapped_quad w) = mapped_quad w"
    and isIP_mapped: "isIP (mapped_quad w) = 6"
    and unbracketed_mapped: "unbracketed (mapped_quad w) = mapped_quad w"
proof -
  let ?d = "show_octets (octets_of w)"
  have ch: "is_digit c \<or> c = CHR ''.''" if "c \<in> set ?d" for c using show_octets_chars [OF _ that] octets_range by blast
  have low: "list_all (\<lambda>c. char_lower c = c) ''::ffff:.''" by code_simp
  then have "map char_lower ?d = ?d" using ch digit_char_lower by (intro map_idI) (auto simp: list_all_iff)
  then show "to_lower (mapped_quad w) = mapped_quad w" using low by (simp add: to_lower_def mapped_quad_def)
  have colon: "CHR '':'' \<notin> set ?d" "CHR ''%'' \<notin> set ?d" using ch digit_not_special by (blast, fastforce simp: is_digit_def)
  have "\<not> v4_segment (hd (split_on (CHR ''.'') (mapped_quad w)))"
    by (cases "split_on (CHR ''.'') ?d") (auto simp: mapped_quad_def v4_segment_def is_digit_def)
  moreover have "split_on (CHR ''.'') (mapped_quad w) \<noteq> []" by simp
  ultimately have v4: "\<not> isIPv4 (mapped_quad w)" unfolding isIPv4_def by (metis list_all_iff hd_in_set)
  have dots: "isIPv4 ?d" using isIP_octets [of w] by (auto simp: isIP_def split: if_splits)
  have "\<not> v6_segment ?d"
  proof
    assume "v6_segment ?d"
    then have "CHR ''.'' \<notin> set ?d" using digits_plain(1) by (auto simp: v6_segment_def)
    then show False using dots by (simp add: isIPv4_def split_on_single)
  qed
  moreover have "split_on (CHR '':'') (''ffff:'' @ ?d) = [''ffff'', ?d]" using colon by (simp add: split_on_single)
  moreover have "v6_segment ''ffff''" by code_simp
  ultimately have "v6_groups True (''ffff:'' @ ?d) = Some 3" using dots by (simp add: v6_groups_def Let_def)
  moreover have "split_compressed (mapped_quad w) = Some ([], ''ffff:'' @ ?d)" by (simp add: mapped_quad_def)
  ultimately have "v6_body (mapped_quad w)" unfolding v6_body_def by (simp add: v6_groups_def [of False])
  moreover have "CHR ''%'' \<notin> set (mapped_quad w)" using colon by (auto simp: mapped_quad_def)
  then have "\<forall>c \<in> set (mapped_quad w). c \<noteq> CHR ''%''" by blast
  note t = takeWhile_eq_all_conv [THEN iffD2, OF this] dropWhile_eq_Nil_conv [THEN iffD2, OF this]
  ultimately have "isIPv6 (mapped_quad w)" unfolding isIPv6_def t by (simp add: v6_zone_def)
  then show "isIP (mapped_quad w) = 6" using v4 by (simp add: isIP_def)
  show "unbracketed (mapped_quad w) = mapped_quad w" by (intro unbracketed_plain) (simp add: mapped_quad_def starts_with_def)
qed

lemma mapped_link_local_public:
  assumes "in_network w (0xA9FE0000, 16)"
  shows "addressClass (mapped_quad w) allowed = Admitted PublicNetwork"
proof -
  obtain c d where o: "octets_of w = [169, 254, c, d]" using link_local_octets [OF assms] .
  have "show_base 10 169 = ''169''" by code_simp
  then have pre: "\<exists>r. mapped_quad w = ''::ffff:169.'' @ r" by (simp add: mapped_quad_def show_octets_def o)
  have n: "normalizeIp (mapped_quad w) = Some \<lparr>da_address = mapped_quad w, da_family = 6\<rparr>"
    by (simp add: normalizeIp_def mapped_quad_facts)
  have "\<not> isCloudMetadataAddress (mapped_quad w)" "\<not> isMulticastOrReserved (mapped_quad w)"
    using pre by (auto simp: isCloudMetadataAddress_def isMulticastOrReserved_def n mapped_quad_facts starts_with_def Let_def)
  moreover have "normalizeIpLiteral (mapped_quad w) = Some (mapped_quad w)" by (simp add: normalizeIpLiteral_def mapped_quad_facts)
  then have "\<not> isProhibitedAddress (mapped_quad w)"
    using pre by (auto simp: isProhibitedAddress_def mapped_quad_facts prohibited_v6_def starts_with_def)
  ultimately show ?thesis by (simp add: addressClass_def)
qed

text \<open>
  C37: a mapped link-local address passes. Every address of the reserved network \<^verbatim>\<open>169.254.0.0/16\<close>, the cloud metadata service included,
  is admitted as a public destination when the resolver answers with its IPv4-mapped form: the classification knows
  only three mapped prefixes. The socket check accepts the connection as well.
\<close>

theorem mapped_link_local_admitted:
  assumes "in_network w (0xA9FE0000, 16)" and "dr_resolver rt hostname = DnsAnswers [mapped_quad w]"
    and "canonicalHostname (co_hostname opts) = Inr hostname" and "normalizeIp hostname = None" and "\<not> isInternalHostname hostname"
    and "protocolFor (co_protocol opts) = Inr protocol" and "0 < dp_maxDnsAnswers policy"
  shows "list_ex (in_network w) reserved_networks \<and>
    (\<exists>pin. resolvePinnedDestination rt policy opts = Inr pin \<and> da_address (pn_address pin) = mapped_quad w \<and>
       \<not> pn_privateOriginExceptionUsed pin \<and> remote_matches pin \<lparr>cs_remoteAddress = Some (mapped_quad w), cs_alpn = a\<rparr>)"
proof -
  have n: "normalizeIp (mapped_quad w) = Some \<lparr>da_address = mapped_quad w, da_family = 6\<rparr>"
    by (simp add: normalizeIp_def mapped_quad_facts)
  have "list_ex (in_network w) reserved_networks" using assms(1) by (simp add: reserved_networks_def)
  moreover have "mapped_quad w \<noteq> []" by (simp add: mapped_quad_def)
  ultimately show ?thesis using assms n mapped_link_local_public [OF assms(1)]
    by (auto simp: resolvePinnedDestination_def resolveAddresses_def select_destination_def Let_def dedupeAddresses_def remote_matches_def
        sameIp_def guard_err_def)
qed

theorem mapped_link_local_admitted_witness:
  "\<exists>pin. resolvePinnedDestination example_pin_runtime example_policy_none (connectorOptionsForUrl (url_of_parts ''https:'' ''b.io'' ''/'')) = Inr pin \<and>
     da_address (pn_address pin) = ''::ffff:169.254.169.254''"
proof -
  have "mapped_quad 0xA9FEA9FE = ''::ffff:169.254.169.254''" by code_simp
  moreover have "in_network 0xA9FEA9FE (0xA9FE0000, 16)" by code_simp
  moreover have "dr_resolver example_pin_runtime ''b.io'' = DnsAnswers [''::ffff:169.254.169.254'']" by code_simp
  moreover have "canonicalHostname (co_hostname (connectorOptionsForUrl (url_of_parts ''https:'' ''b.io'' ''/''))) = Inr ''b.io''" by code_simp
  moreover have "normalizeIp ''b.io'' = None" "\<not> isInternalHostname ''b.io''" by code_simp+
  moreover have "protocolFor (co_protocol (connectorOptionsForUrl (url_of_parts ''https:'' ''b.io'' ''/''))) = Inr ''https:''" by code_simp
  moreover have "0 < dp_maxDnsAnswers example_policy_none" by code_simp
  ultimately show ?thesis
    using mapped_link_local_admitted [of "0xA9FEA9FE" example_pin_runtime "''b.io''" "connectorOptionsForUrl (url_of_parts ''https:'' ''b.io'' ''/'')" "''https:''" example_policy_none]
    by metis
qed

section \<open>Origin-bound pools\<close>

definition entry_bound :: "origin_pool \<Rightarrow> string \<times> pool_entry \<Rightarrow> bool" where
  "entry_bound p ke \<longleftrightarrow> pn_origin (pe_pin (snd ke)) = fst ke \<and> pe_pool (snd ke) < length (op_created p) \<and>
     op_created p ! pe_pool (snd ke) = pe_pin (snd ke)"

definition origin_pool_inv :: "origin_pool \<Rightarrow> bool" where
  "origin_pool_inv p \<longleftrightarrow> list_all (entry_bound p) (op_entries p) \<and> distinct (map fst (op_entries p)) \<and>
     int (length (op_entries p)) \<le> js_floor_int (ts_maxOrigins (op_settings p)) \<and>
     op_poolHits p + op_poolMisses p = op_requestsDispatched p"

definition settings_ok :: "transport_settings \<Rightarrow> bool" where
  "settings_ok s \<longleftrightarrow> (\<exists>n. ts_maxOrigins s = jsint n \<and> 1 \<le> n)"

lemma validateSettings_ok: "validateSettings_pool s = Inr s' \<Longrightarrow> s' = s \<and> settings_ok s"
proof -
  assume a: "validateSettings_pool s = Inr s'"
  then have "js_isInteger (ts_maxOrigins s)" "\<not> js_less (ts_maxOrigins s) (jsint 1)"
    by (auto simp: validateSettings_pool_def bounded_setting_def result_split)
  then have "settings_ok s"
    by (cases "ts_maxOrigins s") (auto simp: settings_ok_def not_less intro!: exI [of _ "js_floor_int (ts_maxOrigins s)"] simp: le_floor_iff)
  then show ?thesis using a by (auto simp: validateSettings_pool_def result_split)
qed

lemma js_map_set_keys: "distinct (map fst m) \<Longrightarrow>
    distinct (map fst (js_map_set k v m)) \<and> length (js_map_set k v m) = (if k \<in> fst ` set m then length m else Suc (length m))"
proof (induction m)
  case (Cons x m)
  then show ?case using keys_js_map_set [of k v m] by (cases x) (auto simp: image_iff)
qed simp

lemma without_key_facts:
  "set (without_key k m) \<subseteq> set m" "distinct (map fst m) \<Longrightarrow> distinct (map fst (without_key k m))"
  "length (without_key k m) \<le> length m" "k \<in> fst ` set m \<Longrightarrow> length (without_key k m) < length m" "k \<notin> fst ` set (without_key k m)"
proof -
  show "k \<in> fst ` set m \<Longrightarrow> length (without_key k m) < length m"
    unfolding without_key_def by (auto intro!: length_filter_less)
qed (auto simp: without_key_def distinct_map_filter case_prod_beta')

lemma evictIfRequired_facts:
  assumes "list_all (entry_bound p) (op_entries p)" "distinct (map fst (op_entries p))" "settings_ok (op_settings p)"
    "int (length (op_entries p)) \<le> js_floor_int (ts_maxOrigins (op_settings p))"
  shows "set (op_entries (evictIfRequired p)) \<subseteq> set (op_entries p) \<and> distinct (map fst (op_entries (evictIfRequired p))) \<and>
    int (length (op_entries (evictIfRequired p))) < js_floor_int (ts_maxOrigins (op_settings p)) \<and>
    op_created (evictIfRequired p) = op_created p \<and> op_settings (evictIfRequired p) = op_settings p \<and>
    op_poolHits (evictIfRequired p) = op_poolHits p \<and> op_poolMisses (evictIfRequired p) = op_poolMisses p \<and>
    op_requestsDispatched (evictIfRequired p) = op_requestsDispatched p"
proof -
  obtain n where n: "ts_maxOrigins (op_settings p) = jsint n" "1 \<le> n" using assms(3) by (auto simp: settings_ok_def)
  show ?thesis
  proof (cases "int (length (op_entries p)) < n")
    case True
    then show ?thesis using assms n by (simp add: evictIfRequired_def)
  next
    case False
    then have len: "int (length (op_entries p)) = n" using assms(4) n by simp
    obtain x xs where s: "sort_by (\<lambda>l r. pe_lastUsedAt (snd l) - pe_lastUsedAt (snd r)) (op_entries p) = x # xs"
      using len n by (cases "sort_by (\<lambda>l r. pe_lastUsedAt (snd l) - pe_lastUsedAt (snd r)) (op_entries p)") auto
    then have "x \<in> set (op_entries p)" by (metis list.set_intros(1) set_sort_by)
    then have "length (without_key (fst x) (op_entries p)) < length (op_entries p)" by (intro without_key_facts(4)) auto
    then show ?thesis using False s n len assms(2) without_key_facts(1) [of "fst x" "op_entries p"] without_key_facts(2) [of "op_entries p" "fst x"]
      by (simp add: evictIfRequired_def retire_def)
  qed
qed

lemma entry_bound_mono:
  "entry_bound p ke \<Longrightarrow> \<exists>xs. op_created p' = op_created p @ xs \<Longrightarrow> entry_bound p' ke"
  by (auto simp: entry_bound_def nth_append)

lemma pool_miss_inv:
  assumes "list_all (entry_bound p) (op_entries p)" "distinct (map fst (op_entries p))" "settings_ok (op_settings p)"
    "int (length (op_entries p)) \<le> js_floor_int (ts_maxOrigins (op_settings p))"
    "op_poolHits p + op_poolMisses p + 1 = op_requestsDispatched p"
    "pool_miss now pin p = (r, p')"
  shows "origin_pool_inv p' \<and> op_settings p' = op_settings p \<and> (\<exists>k. r = Inr k \<and> k = length (op_created p) \<and> op_created p' = op_created p @ [pin])"
proof -
  let ?e = "evictIfRequired p"
  note ev = evictIfRequired_facts [OF assms(1-4)]
  let ?new = "js_map_set (pn_origin pin) \<lparr>pe_pin = pin, pe_pool = length (op_created p), pe_lastUsedAt = now\<rparr> (op_entries ?e)"
  have p': "r = Inr (length (op_created p))" "op_entries p' = ?new" "op_created p' = op_created p @ [pin]" "op_settings p' = op_settings p"
    "op_poolHits p' = op_poolHits p" "op_poolMisses p' = op_poolMisses p + 1" "op_requestsDispatched p' = op_requestsDispatched p"
    using assms(6) ev by (auto simp: pool_miss_def createPool_def Let_def)
  have "entry_bound p' ke" if "ke \<in> set ?new" for ke
  proof -
    have "ke = (pn_origin pin, \<lparr>pe_pin = pin, pe_pool = length (op_created p), pe_lastUsedAt = now\<rparr>) \<or> ke \<in> set (op_entries p)"
      using that js_map_set_subset ev by fastforce
    then show ?thesis using assms(1) entry_bound_mono [of p ke p'] p' by (auto simp: list_all_iff entry_bound_def [of p'])
  qed
  moreover have "distinct (map fst ?new)" "length ?new \<le> Suc (length (op_entries ?e))" 
    using js_map_set_keys [of "op_entries ?e" "pn_origin pin" "\<lparr>pe_pin = pin, pe_pool = length (op_created p), pe_lastUsedAt = now\<rparr>"] ev by auto
  ultimately show ?thesis using p' ev assms(5) by (auto simp: origin_pool_inv_def list_all_iff)
qed

lemma acquire_pool_inv:
  assumes inv: "origin_pool_inv p" and ok: "settings_ok (op_settings p)" and acq: "acquire_pool alive now pin p = (r, p')"
  shows "origin_pool_inv p' \<and> op_settings p' = op_settings p \<and>
    (\<forall>k. r = Inr k \<longrightarrow> k < length (op_created p') \<and> samePin (op_created p' ! k) pin \<and> (alive k \<or> k = length (op_created p)))"
proof -
  let ?p1 = "p\<lparr>op_requestsDispatched := op_requestsDispatched p + 1\<rparr>"
  have same: "samePin pin pin" by (simp add: samePin_def)
  have b1: "list_all (entry_bound q) es" if "list_all (entry_bound p) es" "op_created q = op_created p" for q es
    using that by (auto simp: list_all_iff entry_bound_def)
  have miss: ?thesis if m: "pool_miss now pin q = (r, p')" and q: "op_created q = op_created p" "op_settings q = op_settings p"
      "set (op_entries q) \<subseteq> set (op_entries p)" "distinct (map fst (op_entries q))" "length (op_entries q) \<le> length (op_entries p)"
      "op_poolHits q = op_poolHits p" "op_poolMisses q = op_poolMisses p" "op_requestsDispatched q = op_requestsDispatched p + 1" for q
  proof -
    have "list_all (entry_bound q) (op_entries q)" using inv q(1,3) by (auto simp: origin_pool_inv_def list_all_iff entry_bound_def)
    from pool_miss_inv [OF this q(4) _ _ _ m] show ?thesis using inv ok q same by (auto simp: origin_pool_inv_def)
  qed
  show ?thesis
  proof (cases "op_closed p \<or> \<not> ts_poolingEnabled (op_settings p)")
    case True
    then show ?thesis
      using inv acq same entry_bound_mono [of p _ p'] by (auto simp: acquire_pool_def createPool_def Let_def origin_pool_inv_def list_all_iff split: if_splits)
  next
    case False
    show ?thesis
    proof (cases "map_of (op_entries p) (pn_origin pin)")
      case None
      then have "pool_miss now pin ?p1 = (r, p')" using acq False by (simp add: acquire_pool_def Let_def)
      then show ?thesis by (rule miss) (use inv in \<open>auto simp: origin_pool_inv_def\<close>)
    next
      case (Some e)
      note mem = map_of_SomeD [OF Some]
      have e: "entry_bound p (pn_origin pin, e)" using inv mem by (auto simp: origin_pool_inv_def list_all_iff)
      show ?thesis
      proof (cases "samePin (pe_pin e) pin \<and> alive (pe_pool e)")
        case True
        let ?new = "js_map_set (pn_origin pin) (e\<lparr>pe_lastUsedAt := now\<rparr>) (op_entries p)"
        have p': "r = Inr (pe_pool e)" "p' = ?p1\<lparr>op_entries := ?new, op_poolHits := op_poolHits p + 1\<rparr>"
          using acq False Some True by (simp_all add: acquire_pool_def Let_def)
        have "list_all (entry_bound p') ?new"
          using js_map_set_subset [of "pn_origin pin" "e\<lparr>pe_lastUsedAt := now\<rparr>" "op_entries p"] inv e
          by (auto simp: list_all_iff origin_pool_inv_def p' entry_bound_def)
        moreover have "pn_origin pin \<in> fst ` set (op_entries p)" using mem by force
        ultimately show ?thesis
          using inv js_map_set_keys [of "op_entries p" "pn_origin pin" "e\<lparr>pe_lastUsedAt := now\<rparr>"] e True by (auto simp: origin_pool_inv_def p' entry_bound_def)
      next
        case other: False
        let ?q = "retire (pe_pool e) (?p1\<lparr>op_entries := without_key (pn_origin pin) (op_entries p), op_pinRotations := op_pinRotations p + 1\<rparr>)"
        have "pool_miss now pin ?q = (r, p')" using acq False Some other by (auto simp: acquire_pool_def Let_def)
        then show ?thesis
          by (rule miss) (use inv without_key_facts(1) [of "pn_origin pin" "op_entries p"] without_key_facts(2) [of "op_entries p" "pn_origin pin"]
              without_key_facts(3) [of "pn_origin pin" "op_entries p"] in \<open>auto simp: origin_pool_inv_def retire_def\<close>)
      qed
    qed
  qed
qed

text \<open>The operations on a shared pool, in any order.\<close>

datatype pool_op = PoolAcquire "nat \<Rightarrow> bool" int pinned_destination | PoolConnect string | PoolResolution | PoolCacheHit | PoolBlocked | PoolClose

fun pool_exec :: "pool_op \<Rightarrow> origin_pool \<Rightarrow> origin_pool" where
  "pool_exec (PoolAcquire alive now pin) p = snd (acquire_pool alive now pin p)"
| "pool_exec (PoolConnect protocol) p = on_connect protocol p"
| "pool_exec PoolResolution p = recordDnsResolution p"
| "pool_exec PoolCacheHit p = recordDnsCacheHit p"
| "pool_exec PoolBlocked p = recordBlockedResolution p"
| "pool_exec PoolClose p = close_origin_pool p"

lemmas pool_counter_defs = on_connect_def recordDnsResolution_def recordDnsCacheHit_def recordBlockedResolution_def close_origin_pool_def

lemma pool_exec_inv: "origin_pool_inv p \<and> settings_ok (op_settings p) \<and> op_settings p = s \<Longrightarrow>
    origin_pool_inv (pool_exec x p) \<and> settings_ok (op_settings (pool_exec x p)) \<and> op_settings (pool_exec x p) = s"
proof (cases x)
  case (PoolAcquire alive now pin)
  assume "origin_pool_inv p \<and> settings_ok (op_settings p) \<and> op_settings p = s"
  then show ?thesis using acquire_pool_inv [OF _ _ surjective_pairing, of p alive now pin] PoolAcquire by auto
qed (auto simp: pool_counter_defs Let_def origin_pool_inv_def list_all_iff entry_bound_def settings_ok_def)

lemma pool_run_inv: "origin_pool_inv p \<and> settings_ok (op_settings p) \<and> op_settings p = s \<Longrightarrow>
    origin_pool_inv (fold pool_exec ops p) \<and> settings_ok (op_settings (fold pool_exec ops p)) \<and> op_settings (fold pool_exec ops p) = s"
proof (induction ops arbitrary: p)
  case (Cons x ops)
  show ?case unfolding fold_simps by (rule Cons.IH [OF pool_exec_inv [OF Cons.prems]])
qed auto

lemma new_origin_pool_inv: "new_origin_pool s = Inr p \<Longrightarrow> origin_pool_inv p \<and> settings_ok (op_settings p) \<and> op_settings p = s"
  by (auto simp: new_origin_pool_def result_split origin_pool_inv_def settings_ok_def dest!: validateSettings_ok)

text \<open>
  pools are bound to one origin and address. After any sequence of operations, the pool that \<^verbatim>\<open>acquire\<close> hands out
  is bound to a pin of the requested origin and address, and it is usable or new; no origin has two
  pools, there are at most \<^verbatim>\<open>maxOrigins\<close> of them, and every request was counted as a hit or as a miss.
\<close>

theorem pools_are_origin_bound:
  assumes "new_origin_pool s = Inr p0" and "acquire_pool alive now pin (fold pool_exec ops p0) = (Inr k, p')"
  shows "k < length (op_created p') \<and> samePin (op_created p' ! k) pin \<and> (alive k \<or> k = length (op_created (fold pool_exec ops p0))) \<and>
    distinct (map fst (op_entries p')) \<and> int (length (op_entries p')) \<le> js_floor_int (ts_maxOrigins s) \<and>
    op_poolHits p' + op_poolMisses p' = op_requestsDispatched p'"
proof -
  have "origin_pool_inv (fold pool_exec ops p0) \<and> settings_ok (op_settings (fold pool_exec ops p0)) \<and> op_settings (fold pool_exec ops p0) = s"
    by (intro pool_run_inv new_origin_pool_inv assms(1))
  then show ?thesis using acquire_pool_inv [OF _ _ assms(2)] by (auto simp: origin_pool_inv_def)
qed

theorem pools_are_origin_bound_witness:
  "samePin (op_created (snd (acquire_pool (\<lambda>_. True) 9 example_pin (fold pool_exec [PoolAcquire (\<lambda>_. True) 5 example_pin] (hc_pool example_client)))) ! 0) example_pin"
proof -
  have "new_origin_pool defaultPinnedTransportSettings = Inr (hc_pool example_client)" by code_simp
  moreover have "fst (acquire_pool (\<lambda>_. True) 9 example_pin (fold pool_exec [PoolAcquire (\<lambda>_. True) 5 example_pin] (hc_pool example_client))) = Inr 0"
    by code_simp
  ultimately show ?thesis
    using pools_are_origin_bound [of defaultPinnedTransportSettings "hc_pool example_client" "\<lambda>_. True" 9 example_pin "[PoolAcquire (\<lambda>_. True) 5 example_pin]" 0]
    by (metis prod.collapse)
qed

end
