(* ===== verification/RC_Broker.thy ===== *)
theory RC_Broker
  imports RC_Scope RC_Pinned
begin

text \<open>
  The \<^verbatim>\<open>RequestSafetyBroker\<close> of \<^verbatim>\<open>core/http/RequestSafetyBroker.ts\<close>: the one place through which a scan's
  HTTP attempts, raw request pairs and browser requests go. This theory holds its state and the operations that run without
  interruption: the final authorization of an attempt, its initiation, the budgets, the browser decisions and their private
  bindings. A synchronous operation sees one state of the abort signal and reads the clock at up to three
  places; both are collected in a \<open>tick\<close>.
\<close>

section \<open>Requests, state and audit\<close>

record tick =
  tk_scope :: int
  tk_check :: int
  tk_rate :: int
  tk_aborted :: bool

record http_request =
  rq_url :: string
  rq_method :: string
  rq_headers :: "(string \<times> string) list"
  rq_body :: "string option"
  rq_skipCache :: bool
  rq_disableRetries :: bool
  rq_disableRedirects :: bool

datatype audit_outcome =
    AuditSent | AuditDuplicateSkipped | AuditScopeSkipped | AuditRedirectScopeSkipped | AuditBudgetSkipped
  | AuditBrowserPolicyBlocked | AuditBrowserNetworkScheduled | AuditBrowserPolicyBudgetSkipped

text \<open>An audit entry, by the fields that no redaction changes.\<close>

record audit_entry =
  au_method :: string
  au_outcome :: audit_outcome
  au_reason :: "string option"
  au_transmittedRequests :: "int option"

text \<open>
  A browser operation that was captured from a native route; the objects it refers to are numbers. \<open>bo_checkedAt\<close> keeps
  the clock readings of the check that let the route continue.
\<close>

record bound_operation =
  bo_permit :: "nat option"
  bo_route :: nat
  bo_request :: nat
  bo_session :: nat
  bo_url :: string
  bo_method :: string
  bo_headers :: "(string \<times> string) list"
  bo_body :: string
  bo_login :: bool
  bo_registered :: bool
  bo_continued :: bool
  bo_consumed :: bool
  bo_checkedAt :: "tick option"

text \<open>The scan-wide register of ordinary GET intents, as keyed digests of normalised URLs.\<close>

record get_history =
  gh_identities :: "string list"
  gh_saturated :: bool

text \<open>
  \<open>bk_initiated\<close> is the sequence of requests that were initiated on the network: the browser decision they
  belong to, if any, method, URL, header names and body with the clock readings of the operation that let them pass. The guard lives in the matcher; the ledger, with the
  lane of this broker, is there when the broker is coordinated.
\<close>

record initiation =
  it_decision :: "nat option"
  it_url :: string
  it_method :: string
  it_headers :: "string list"
  it_body :: "string option"
  it_tick :: tick

record broker =
  bk_matcher :: scope_matcher
  bk_ledger :: "nat scan_ledger option"
  bk_lane :: lane
  bk_maxRequests :: jsnum
  bk_sentRequestCount :: int
  bk_browserPolicyEventCount :: int
  bk_browserPolicyEventLimit :: int
  bk_controlledMutationEnabled :: bool
  bk_controlledDeletionEnabled :: bool
  bk_controlledRaceEnabled :: bool
  bk_digest :: "string \<Rightarrow> string"
  bk_getHistory :: "get_history option"
  bk_bindings :: "nat \<rightharpoonup> bound_operation"
  bk_nextDecision :: nat
  bk_audit :: "audit_entry list"
  bk_initiated :: "initiation list"

text \<open>The constructor; without coordination the broker has no ledger, and its lane is never used.\<close>

definition new_broker :: "jsnum \<Rightarrow> bool \<Rightarrow> bool \<Rightarrow> bool \<Rightarrow> (string \<Rightarrow> string) \<Rightarrow> scope_matcher \<Rightarrow> (nat scan_ledger \<times> lane) option \<Rightarrow> broker" where
  "new_broker maxRequests mutation deletion race digest scopeMatcher coordination =
     \<lparr>bk_matcher = scopeMatcher, bk_ledger = map_option fst coordination,
      bk_lane = (case coordination of None \<Rightarrow> Scan | Some c \<Rightarrow> snd c), bk_maxRequests = maxRequests, bk_sentRequestCount = 0,
      bk_browserPolicyEventCount = 0, bk_browserPolicyEventLimit = 0, bk_controlledMutationEnabled = mutation,
      bk_controlledDeletionEnabled = deletion, bk_controlledRaceEnabled = race, bk_digest = digest, bk_getHistory = None,
      bk_bindings = Map.empty, bk_nextDecision = 0, bk_audit = [], bk_initiated = []\<rparr>"

definition bk_policy :: "broker \<Rightarrow> request_program option" where
  "bk_policy b = Option.bind (sm_authorization (bk_matcher b)) (\<lambda>g. requestPolicy (gd_plan g))"

definition hasExpiringAuthority :: "broker \<Rightarrow> bool" where
  "hasExpiringAuthority b \<longleftrightarrow> bk_policy b \<noteq> None"

definition with_guard :: "auth_guard \<Rightarrow> broker \<Rightarrow> broker" where
  "with_guard g b = b\<lparr>bk_matcher := (bk_matcher b)\<lparr>sm_authorization := Some g\<rparr>\<rparr>"

definition recordAudit :: "audit_entry \<Rightarrow> broker \<Rightarrow> broker" where
  "recordAudit e b = b\<lparr>bk_audit := bk_audit b @ [e]\<rparr>"

definition setBrowserPolicyEventLimit :: "int \<Rightarrow> broker \<Rightarrow> broker" where
  "setBrowserPolicyEventLimit limit b = b\<lparr>bk_browserPolicyEventLimit := limit\<rparr>"

section \<open>The register of GET intents\<close>

definition maximumGetIdentities :: int where
  "maximumGetIdentities = 10000"

definition privateGetIdentity :: "url_runtime \<Rightarrow> broker \<Rightarrow> string \<Rightarrow> string option" where
  "privateGetIdentity rt b url = map_option (bk_digest b) (normalizeUrl rt url None)"

definition recordOrdinaryGetIntent :: "url_runtime \<Rightarrow> string \<Rightarrow> string \<Rightarrow> broker \<Rightarrow> broker" where
  "recordOrdinaryGetIntent rt verb url b =
     (if to_upper verb \<noteq> ''GET'' then b
      else let history = or_else (bk_getHistory b) \<lparr>gh_identities = [], gh_saturated = False\<rparr>;
               keep = (\<lambda>h. b\<lparr>bk_getHistory := Some h\<rparr>) in
        if gh_saturated history then keep history
        else if 8192 < int (length url) then keep (history\<lparr>gh_saturated := True\<rparr>)
        else case privateGetIdentity rt b url of
          None \<Rightarrow> keep (history\<lparr>gh_saturated := True\<rparr>)
        | Some i \<Rightarrow>
            if i \<in> set (gh_identities history) then keep history
            else if maximumGetIdentities \<le> int (length (gh_identities history)) then keep (history\<lparr>gh_saturated := True\<rparr>)
            else keep (history\<lparr>gh_identities := gh_identities history @ [i]\<rparr>))"

definition hasTrustedDiscoveryGetConflict :: "url_runtime \<Rightarrow> broker \<Rightarrow> string \<Rightarrow> bool" where
  "hasTrustedDiscoveryGetConflict rt b url =
     (case bk_getHistory b of
        None \<Rightarrow> False
      | Some history \<Rightarrow>
          gh_saturated history \<or> (case privateGetIdentity rt b url of None \<Rightarrow> True | Some i \<Rightarrow> i \<in> set (gh_identities history)))"

section \<open>The final authorization of an HTTP attempt\<close>

definition fixedDispatchDenial :: "string option \<Rightarrow> string" where
  "fixedDispatchDenial reason =
     (if reason = Some ''authorization-budget-exhausted'' then ''authorization-budget-exhausted'' else ''REQUEST_DISPATCH_POLICY_DENIED'')"

definition publicRequestHeaders :: "string list" where
  "publicRequestHeaders =
     [''accept'', ''content-type'', ''user-agent'', ''range'', ''cache-control'', ''if-none-match'', ''if-modified-since'']"

text \<open>Whether a program without authentication would be sent a header outside the list.\<close>

definition headers_denied :: "broker \<Rightarrow> (string \<times> string) list \<Rightarrow> bool" where
  "headers_denied b headers =
     (case bk_policy b of
        None \<Rightarrow> False
      | Some p \<Rightarrow> \<not> pr_authenticationPermitted p \<and> list_ex (\<lambda>h. to_lower (fst h) \<notin> set publicRequestHeaders) headers)"

datatype attempt_result = AttemptCancelled | AttemptDenied string | AttemptPermitted

definition authorizeFinalHttpAttempt ::
    "url_runtime \<Rightarrow> tick \<Rightarrow> http_request \<Rightarrow> string \<Rightarrow> bool \<Rightarrow> broker \<Rightarrow> attempt_result \<times> broker" where
  "authorizeFinalHttpAttempt rt tk req url res b =
     (if tk_aborted tk then (AttemptCancelled, b)
      else let decision = decide rt (bk_matcher b) (tk_scope tk) url (rq_method req) (rq_body req);
               refuse = AttemptDenied (fixedDispatchDenial None) in
        if \<not> sd_allowed decision \<or> sd_normalizedUrl decision \<noteq> Some url then (refuse, b)
        else if headers_denied b (rq_headers req) then (refuse, b)
        else case sm_authorization (bk_matcher b) of
          None \<Rightarrow> (AttemptPermitted, b)
        | Some g \<Rightarrow>
            (case (if res then reserve (runtime.truncate rt) g (tk_check tk) (tk_rate tk) url (rq_method req) (rq_body req)
                   else (check (runtime.truncate rt) g (tk_check tk) url (rq_method req) (rq_body req), g)) of
               (None, g') \<Rightarrow> (AttemptPermitted, with_guard g' b)
             | (Some d, g') \<Rightarrow> (AttemptDenied (fixedDispatchDenial (Some (denial_text d))), with_guard g' b)))"

section \<open>Budgets and initiation\<close>

definition budget_spent :: "broker \<Rightarrow> int \<Rightarrow> bool" where
  "budget_spent b n \<longleftrightarrow> js_less (bk_maxRequests b) (jsint (bk_sentRequestCount b + n))"

definition lane_full :: "broker \<Rightarrow> int \<Rightarrow> bool" where
  "lane_full b n = (case bk_ledger b of None \<Rightarrow> False | Some l \<Rightarrow> \<not> hasCapacity l (bk_lane b) (jsint n))"

text \<open>\<^verbatim>\<open>!coordination || ledger.tryReserve(lane, n)\<close>.\<close>

definition reserve_lane :: "int \<Rightarrow> broker \<Rightarrow> bool \<times> broker" where
  "reserve_lane n b =
     (case bk_ledger b of
        None \<Rightarrow> (True, b)
      | Some l \<Rightarrow> (case tryReserve l (bk_lane b) (jsint n) of (l', ok) \<Rightarrow> (ok, b\<lparr>bk_ledger := Some l'\<rparr>)))"

datatype commit_result = CommitCancelled | CommitBudgetExceeded | CommitDenied string | Committed

definition initiate :: "initiation list \<Rightarrow> broker \<Rightarrow> broker" where
  "initiate is b = b\<lparr>bk_initiated := bk_initiated b @ is\<rparr>"

definition initiation_of :: "tick \<Rightarrow> http_request \<Rightarrow> string \<Rightarrow> initiation" where
  "initiation_of tk req url =
     \<lparr>it_decision = None, it_url = url, it_method = rq_method req, it_headers = map fst (rq_headers req), it_body = rq_body req, it_tick = tk\<rparr>"

text \<open>\<^verbatim>\<open>commitHttpInitiation\<close> runs when the transport is about to write; when it returns, the request goes out.\<close>

definition commitHttpInitiation :: "url_runtime \<Rightarrow> tick \<Rightarrow> http_request \<Rightarrow> string \<Rightarrow> broker \<Rightarrow> commit_result \<times> broker" where
  "commitHttpInitiation rt tk req url b =
     (if tk_aborted tk then (CommitCancelled, b)
      else if js_leq (bk_maxRequests b) (jsint (bk_sentRequestCount b)) \<or> lane_full b 1 then (CommitBudgetExceeded, b)
      else case authorizeFinalHttpAttempt rt tk req url True b of
        (AttemptCancelled, b1) \<Rightarrow> (CommitCancelled, b1)
      | (AttemptDenied reason, b1) \<Rightarrow> (CommitDenied (fixedDispatchDenial (Some reason)), b1)
      | (AttemptPermitted, b1) \<Rightarrow>
          (case reserve_lane 1 b1 of
             (False, b2) \<Rightarrow> (CommitDenied (fixedDispatchDenial None), b2)
           | (True, b2) \<Rightarrow>
               (Committed, initiate [initiation_of tk req url] (b2\<lparr>bk_sentRequestCount := bk_sentRequestCount b2 + 1\<rparr>))))"

text \<open>The \<^verbatim>\<open>begin\<close> of a raw HTTP/1 pair: both members are checked, then charged as one group.\<close>

definition commitRawPair :: "url_runtime \<Rightarrow> tick \<Rightarrow> http_request \<Rightarrow> string \<Rightarrow> broker \<Rightarrow> commit_result \<times> broker" where
  "commitRawPair rt tk post sentinelUrl b =
     (let get = \<lparr>rq_url = sentinelUrl, rq_method = ''GET'', rq_headers = [], rq_body = None, rq_skipCache = False,
                 rq_disableRetries = False, rq_disableRedirects = False\<rparr>;
          url = rq_url post in
      if tk_aborted tk then (CommitCancelled, b)
      else if budget_spent b 2 \<or> lane_full b 2 then (CommitBudgetExceeded, b)
      else case (authorizeFinalHttpAttempt rt tk (post\<lparr>rq_method := ''POST''\<rparr>) url False b, authorizeFinalHttpAttempt rt tk get sentinelUrl False b) of
        ((AttemptPermitted, _), (AttemptPermitted, _)) \<Rightarrow>
          (case (case sm_authorization (bk_matcher b) of
                   None \<Rightarrow> (None, b)
                 | Some g \<Rightarrow>
                     (case reserveBatch (runtime.truncate rt) g (tk_rate tk)
                             [\<lparr>br_url = url, br_method = ''POST'', br_body = rq_body post, br_checkedAt = tk_check tk\<rparr>,
                              \<lparr>br_url = sentinelUrl, br_method = ''GET'', br_body = None, br_checkedAt = tk_check tk\<rparr>] of
                        (d, g') \<Rightarrow> (d, with_guard g' b))) of
             (Some d, b1) \<Rightarrow> (CommitDenied (fixedDispatchDenial (Some (denial_text d))), b1)
           | (None, b1) \<Rightarrow>
               (case reserve_lane 2 b1 of
                  (False, b2) \<Rightarrow> (CommitDenied (fixedDispatchDenial None), b2)
                | (True, b2) \<Rightarrow>
                    (Committed, initiate [initiation_of tk (post\<lparr>rq_method := ''POST''\<rparr>) url, initiation_of tk get sentinelUrl]
                       (b2\<lparr>bk_sentRequestCount := bk_sentRequestCount b2 + 2\<rparr>))))
      | _ \<Rightarrow> (CommitDenied (fixedDispatchDenial None), b))"

definition consumeTransmissionBudget :: "broker \<Rightarrow> bool \<times> broker" where
  "consumeTransmissionBudget b =
     (if js_leq (bk_maxRequests b) (jsint (bk_sentRequestCount b)) then (False, b)
      else case reserve_lane 1 b of
        (False, b1) \<Rightarrow> (False, b1)
      | (True, b1) \<Rightarrow> (True, b1\<lparr>bk_sentRequestCount := bk_sentRequestCount b1 + 1\<rparr>))"

definition consumeBrowserPolicyEvent :: "broker \<Rightarrow> int option \<times> broker" where
  "consumeBrowserPolicyEvent b =
     (if 0 < bk_browserPolicyEventLimit b \<and> bk_browserPolicyEventLimit b \<le> bk_browserPolicyEventCount b then (None, b)
      else (Some (bk_browserPolicyEventCount b + 1), b\<lparr>bk_browserPolicyEventCount := bk_browserPolicyEventCount b + 1\<rparr>))"

section \<open>Browser requests\<close>

record browser_request =
  bq_url :: string
  bq_method :: string
  bq_resourceType :: string
  bq_isRedirect :: bool

text \<open>A native request as the browser reports it, and the route it came with.\<close>

record native_request =
  nr_id :: nat
  nr_url :: string
  nr_method :: string
  nr_body :: string

record native_source =
  ns_route :: nat
  ns_session :: nat
  ns_native :: native_request
  ns_headers :: "(string \<times> string) list"

record browser_decision =
  bd_id :: nat
  bd_allowed :: bool
  bd_normalizedUrl :: "string option"
  bd_reason :: string
  bd_policyEventCount :: int
  bd_transmittedRequestCount :: int

fun scope_reason_text :: "scope_reason \<Rightarrow> string" where
  "scope_reason_text Allowed = ''allowed''"
| "scope_reason_text TargetAuthorizationDenied = ''target-authorization-denied''"
| "scope_reason_text InvalidScopeUrl = ''invalid-url''"
| "scope_reason_text DomainNotAllowed = ''domain-not-allowed''"
| "scope_reason_text SubdomainNotAllowed = ''subdomain-not-allowed''"
| "scope_reason_text DifferentOrigin = ''different-origin''"
| "scope_reason_text DisallowedPath = ''disallowed-path''"
| "scope_reason_text MethodNotAllowed = ''method-not-allowed''"

definition isSafeBrowserMethod :: "string \<Rightarrow> bool" where
  "isSafeBrowserMethod verb \<longleftrightarrow> verb = ''GET'' \<or> verb = ''HEAD'' \<or> verb = ''OPTIONS''"

text \<open>A decision object that refuses, and the audit entries of the browser lane.\<close>

definition deny_browser :: "string option \<Rightarrow> string \<Rightarrow> int \<Rightarrow> broker \<Rightarrow> browser_decision \<times> broker" where
  "deny_browser nurl reason events b =
     (\<lparr>bd_id = bk_nextDecision b, bd_allowed = False, bd_normalizedUrl = nurl, bd_reason = reason, bd_policyEventCount = events,
       bd_transmittedRequestCount = bk_sentRequestCount b\<rparr>, b\<lparr>bk_nextDecision := bk_nextDecision b + 1\<rparr>)"

definition browser_audit :: "browser_request \<Rightarrow> audit_outcome \<Rightarrow> string \<Rightarrow> broker \<Rightarrow> broker" where
  "browser_audit r outcome reason b =
     recordAudit \<lparr>au_method = to_upper (bq_method r), au_outcome = outcome, au_reason = Some reason,
                  au_transmittedRequests = Some (bk_sentRequestCount b)\<rparr> b"

definition browser_event_exhausted :: "browser_request \<Rightarrow> broker \<Rightarrow> browser_decision \<times> broker" where
  "browser_event_exhausted r b =
     deny_browser None ''browser-attempt-budget-exceeded'' (bk_browserPolicyEventCount b)
       (browser_audit r AuditBrowserPolicyBudgetSkipped ''browser-attempt-budget-exceeded'' b)"

definition recordBrowserPolicyBlock :: "browser_request \<Rightarrow> string \<Rightarrow> broker \<Rightarrow> browser_decision \<times> broker" where
  "recordBrowserPolicyBlock r reason b =
     (case consumeBrowserPolicyEvent b of
        (None, b1) \<Rightarrow> browser_event_exhausted r b1
      | (Some events, b1) \<Rightarrow> deny_browser None reason events (browser_audit r AuditBrowserPolicyBlocked reason b1))"

definition browserDenialStages :: "string list" where
  "browserDenialStages =
     [''BROWSER_BINDING_INVALID'', ''BROWSER_FINAL_SCOPE_DENIED'', ''BROWSER_NATIVE_IDENTITY_CHANGED'',
      ''BROWSER_HEADER_PERMISSION_DENIED'', ''BROWSER_ROUTE_CONTINUATION_FAILED'']"

definition fixedBrowserDenial :: "string \<Rightarrow> broker \<Rightarrow> browser_decision \<times> broker" where
  "fixedBrowserDenial stage b =
     (let reason = (if stage \<in> set browserDenialStages then stage else ''REQUEST_DISPATCH_POLICY_DENIED'') in
      deny_browser None reason (bk_browserPolicyEventCount b)
        (recordAudit \<lparr>au_method = ''GET'', au_outcome = AuditBrowserPolicyBlocked, au_reason = Some reason,
                      au_transmittedRequests = Some (bk_sentRequestCount b)\<rparr> b))"

definition authorizeBrowserTransmission ::
    "url_runtime \<Rightarrow> tick \<Rightarrow> browser_request \<Rightarrow> bool \<Rightarrow> broker \<Rightarrow> string option" where
  "authorizeBrowserTransmission rt tk r login b =
     (case sm_authorization (bk_matcher b) of
        None \<Rightarrow> None
      | Some g \<Rightarrow>
         (case requestPolicy (gd_plan g) of
            None \<Rightarrow> None
          | Some program \<Rightarrow>
              if bq_resourceType r \<in> {''websocket'', ''eventsource''} then Some ''authorization-streaming-prohibited''
              else case rt_newURL rt (bq_url r) of
                None \<Rightarrow> Some ''authorization-invalid-url''
              | Some url \<Rightarrow>
                 (let rule = rule_for program url (bq_method r) in
                  if login \<and> (\<not> pr_authenticationPermitted program \<or> map_option ru_effect rule \<noteq> Some EffAuthentication)
                  then Some ''authorization-login-not-approved''
                  else if \<not> login \<and> (case rule of None \<Rightarrow> False | Some x \<Rightarrow> ru_effect x \<noteq> EffRead)
                  then Some ''authorization-browser-write-requires-case''
                  else map_option denial_text
                         (check (runtime.truncate rt) g (tk_check tk) (bq_url r) (bq_method r) None))))"

definition captureBrowserSource :: "url_runtime \<Rightarrow> browser_request \<Rightarrow> native_source \<Rightarrow> bool \<Rightarrow> broker \<Rightarrow> bound_operation option" where
  "captureBrowserSource rt r src login b =
     (let native = ns_native src; url = nr_url native; verb = to_upper (nr_method native) in
      if url \<noteq> bq_url r \<or> verb \<noteq> to_upper (bq_method r) \<or> 1024 * 1024 < int (length (nr_body native)) \<or>
         16384 < int (sum_list (map (\<lambda>(k, v). length k + length v) (ns_headers src))) then None
      else if hasExpiringAuthority b \<and> (case rt_newURL rt url of None \<Rightarrow> True | Some u \<Rightarrow> u_protocol u \<noteq> ''http:'') then None
      else Some \<lparr>bo_permit = None, bo_route = ns_route src, bo_request = nr_id native, bo_session = ns_session src, bo_url = url,
                 bo_method = verb, bo_headers = ns_headers src, bo_body = nr_body native, bo_login = login,
                 bo_registered = False, bo_continued = False, bo_consumed = False,
                 bo_checkedAt = None\<rparr>)"

definition scopeUrlForBrowserRequest :: "url_runtime \<Rightarrow> browser_request \<Rightarrow> string" where
  "scopeUrlForBrowserRequest rt r =
     (if bq_resourceType r \<noteq> ''websocket'' then bq_url r
      else case rt_newURL rt (bq_url r) of
        None \<Rightarrow> bq_url r
      | Some u \<Rightarrow>
          if u_protocol u = ''ws:'' then ur_toString rt (u\<lparr>u_protocol := ''http:''\<rparr>)
          else if u_protocol u = ''wss:'' then ur_toString rt (u\<lparr>u_protocol := ''https:''\<rparr>)
          else bq_url r)"

text \<open>
  The reservation at the guard: a permit for exactly the captured request, or an ordinary reservation of the
  normalised URL. The result is a denial or the captured operation with its permit.
\<close>

definition reserve_browser ::
    "url_runtime \<Rightarrow> tick \<Rightarrow> string \<Rightarrow> string \<Rightarrow> bound_operation option \<Rightarrow> broker \<Rightarrow> (string + bound_operation option) \<times> broker" where
  "reserve_browser rt tk nurl verb captured b =
     (case sm_authorization (bk_matcher b) of
        None \<Rightarrow> (Inr captured, b)
      | Some g \<Rightarrow>
         (case captured of
            None \<Rightarrow>
              (case reserve (runtime.truncate rt) g (tk_check tk) (tk_rate tk) nurl verb None of
                 (Some d, g') \<Rightarrow> (Inl (denial_text d), with_guard g' b)
               | (None, g') \<Rightarrow> (Inr None, with_guard g' b))
          | Some c \<Rightarrow>
              (case reserveBrowserAttempt (runtime.truncate rt) g (tk_check tk) (tk_rate tk) (bo_url c) verb (Some (bo_body c)) of
                 (BrowserDenied d, g') \<Rightarrow> (Inl (denial_text d), with_guard g' b)
               | (BrowserUngoverned, g') \<Rightarrow> (Inr (Some c), with_guard g' b)
               | (BrowserPermit k, g') \<Rightarrow> (Inr (Some (c\<lparr>bo_permit := Some k\<rparr>)), with_guard g' b))))"

text \<open>The common end of the two evaluations: scope, reservation, budget, approval.\<close>

definition approve_browser ::
    "url_runtime \<Rightarrow> tick \<Rightarrow> browser_request \<Rightarrow> string \<Rightarrow> bound_operation option \<Rightarrow> int \<Rightarrow> string \<Rightarrow> broker \<Rightarrow> browser_decision \<times> broker" where
  "approve_browser rt tk r verb captured events reason b =
     (let d = decide rt (bk_matcher b) (tk_scope tk) (scopeUrlForBrowserRequest rt r) verb (map_option bo_body captured) in
      case (if sd_allowed d then sd_normalizedUrl d else None) of
        None \<Rightarrow>
          (let why = ''scope-'' @ scope_reason_text (sd_reason d) in
           deny_browser (sd_normalizedUrl d) why events (browser_audit r AuditBrowserPolicyBlocked why b))
      | Some nurl \<Rightarrow>
         (case reserve_browser rt tk nurl verb captured b of
            (Inl denied, b1) \<Rightarrow> recordBrowserPolicyBlock r denied b1
          | (Inr bound, b1) \<Rightarrow>
             (case consumeTransmissionBudget b1 of
                (False, b2) \<Rightarrow>
                  deny_browser (Some nurl) ''network-request-budget-exceeded'' events
                    (browser_audit r AuditBudgetSkipped ''network-request-budget-exceeded'' b2)
              | (True, b2) \<Rightarrow>
                 (let b3 = browser_audit r AuditBrowserNetworkScheduled reason b2; k = bk_nextDecision b3 in
                  (\<lparr>bd_id = k, bd_allowed = True, bd_normalizedUrl = Some nurl, bd_reason = ''allowed'', bd_policyEventCount = events,
                    bd_transmittedRequestCount = bk_sentRequestCount b3\<rparr>,
                   b3\<lparr>bk_nextDecision := k + 1,
                      bk_bindings := (case bound of None \<Rightarrow> bk_bindings b3 | Some c \<Rightarrow> (bk_bindings b3)(k \<mapsto> c))\<rparr>)))))"

definition evaluateBrowserRequest ::
    "url_runtime \<Rightarrow> tick \<Rightarrow> browser_request \<Rightarrow> native_source option \<Rightarrow> broker \<Rightarrow> browser_decision \<times> broker" where
  "evaluateBrowserRequest rt tk r src b =
     (let captured = Option.bind src (\<lambda>s. captureBrowserSource rt r s False b); verb = to_upper (bq_method r) in
      if src \<noteq> None \<and> captured = None then fixedBrowserDenial ''REQUEST_DISPATCH_POLICY_DENIED'' b
      else case authorizeBrowserTransmission rt tk r False b of
        Some block \<Rightarrow> recordBrowserPolicyBlock r block b
      | None \<Rightarrow>
         (case consumeBrowserPolicyEvent b of
            (None, b1) \<Rightarrow> browser_event_exhausted r b1
          | (Some events, b1) \<Rightarrow>
              if \<not> isSafeBrowserMethod verb
              then deny_browser None ''mutating-method-blocked'' events (browser_audit r AuditBrowserPolicyBlocked ''mutating-method-blocked'' b1)
              else approve_browser rt tk r verb captured events (if bq_isRedirect r then ''redirect-hop-allowed'' else ''allowed'') b1))"

definition evaluateBrowserLoginRequest ::
    "url_runtime \<Rightarrow> tick \<Rightarrow> browser_request \<Rightarrow> native_source option \<Rightarrow> broker \<Rightarrow> browser_decision \<times> broker" where
  "evaluateBrowserLoginRequest rt tk r src b =
     (let captured = Option.bind src (\<lambda>s. captureBrowserSource rt r s True b); verb = to_upper (bq_method r) in
      if src \<noteq> None \<and> captured = None then fixedBrowserDenial ''REQUEST_DISPATCH_POLICY_DENIED'' b
      else if verb \<noteq> ''POST'' then evaluateBrowserRequest rt tk r src b
      else case authorizeBrowserTransmission rt tk r True b of
        Some block \<Rightarrow> recordBrowserPolicyBlock r block b
      | None \<Rightarrow>
         (case consumeBrowserPolicyEvent b of
            (None, b1) \<Rightarrow> browser_event_exhausted r b1
          | (Some events, b1) \<Rightarrow> approve_browser rt tk r verb captured events ''explicit-authenticated-login-post'' b1))"

section \<open>Bound browser operations\<close>

text \<open>\<^verbatim>\<open>s.trim()\<close>, and the headers of an observed request: a value or a list of values for each name.\<close>

definition js_trim :: "string \<Rightarrow> string" where
  "js_trim s = rev (dropWhile is_space (rev (dropWhile is_space s)))"

datatype header_value = HeaderText string | HeaderList "string list"

definition header_text :: "header_value \<Rightarrow> string" where
  "header_text v = (case v of HeaderText s \<Rightarrow> js_trim s | HeaderList vs \<Rightarrow> join_with '', '' vs)"

definition transportHeaders :: "string list" where
  "transportHeaders =
     [''host'', ''connection'', ''proxy-connection'', ''proxy-authorization'', ''content-length'', ''transfer-encoding'']"

text \<open>\<^verbatim>\<open>JSON.stringify\<close> of arrays of pairs of strings is injective: the canonical form is the list itself.\<close>

definition canonicalBrowserHeaders :: "url_runtime \<Rightarrow> (string \<times> header_value) list \<Rightarrow> (string \<times> string) list" where
  "canonicalBrowserHeaders rt headers =
     sort_by (\<lambda>a b. ur_localeCompare rt (fst a) (fst b))
       (filter (\<lambda>h. fst h \<notin> set transportHeaders) (map (\<lambda>(name, value). (to_lower name, header_text value)) headers))"

definition generatedHeaders :: "string list" where
  "generatedHeaders =
     [''pragma'', ''cache-control'', ''sec-fetch-site'', ''sec-fetch-mode'', ''sec-fetch-user'', ''sec-fetch-dest'', ''accept-encoding'']"

definition browserHeadersMatch :: "url_runtime \<Rightarrow> (string \<times> string) list \<Rightarrow> (string \<times> header_value) list \<Rightarrow> bool" where
  "browserHeadersMatch rt expected actual =
     (let normalizedExpected = fold (\<lambda>(name, value). js_map_set (to_lower name) (HeaderText value)) expected [];
          selected = filter (\<lambda>(name, _). to_lower name \<in> fst ` set normalizedExpected \<or> to_lower name \<notin> set generatedHeaders) actual in
      canonicalBrowserHeaders rt normalizedExpected = canonicalBrowserHeaders rt selected)"

definition publicBrowserHeaders :: "string list" where
  "publicBrowserHeaders =
     [''accept'', ''accept-language'', ''accept-encoding'', ''user-agent'', ''content-type'', ''content-length'', ''host'', ''connection'',
      ''origin'', ''referer'', ''cache-control'', ''pragma'', ''priority'', ''upgrade-insecure-requests'', ''range'', ''if-none-match'',
      ''if-modified-since'']"

definition isPublicBrowserHeader :: "string \<Rightarrow> bool" where
  "isPublicBrowserHeader name = (let lower = to_lower name in starts_with lower ''sec-'' \<or> lower \<in> set publicBrowserHeaders)"

record proxy_request =
  px_url :: string
  px_method :: string
  px_headers :: "(string \<times> header_value) list"
  px_body :: string

datatype bound_check = BoundPermitted | BoundCancelled | BoundDenied string

definition checkBoundBrowserOperation :: "url_runtime \<Rightarrow> tick \<Rightarrow> bound_operation \<Rightarrow> string \<Rightarrow> broker \<Rightarrow> bound_check" where
  "checkBoundBrowserOperation rt tk bo body b =
     (let scope = decide rt (bk_matcher b) (tk_scope tk) (bo_url bo) (bo_method bo) (Some body);
          r = \<lparr>bq_url = bo_url bo, bq_method = bo_method bo, bq_resourceType = ''document'', bq_isRedirect = False\<rparr> in
      if tk_aborted tk then BoundCancelled
      else case (if sd_allowed scope then Option.bind (sd_normalizedUrl scope) (rt_newURL rt) else None) of
        None \<Rightarrow> BoundDenied ''BROWSER_FINAL_SCOPE_DENIED''
      | Some normalized \<Rightarrow>
         (case rt_newURL rt (bo_url bo) of
            None \<Rightarrow> BoundDenied ''BROWSER_ROUTE_CONTINUATION_FAILED''
          | Some u \<Rightarrow>
              if url_origin normalized \<noteq> url_origin u \<or> u_pathname normalized \<noteq> u_pathname u \<or>
                 authorizeBrowserTransmission rt tk r (bo_login bo) b \<noteq> None \<or>
                 (case sm_authorization (bk_matcher b) of
                    None \<Rightarrow> False
                  | Some g \<Rightarrow> check (runtime.truncate rt) g (tk_check tk) (bo_url bo) (bo_method bo) (Some body) \<noteq> None)
              then BoundDenied ''BROWSER_FINAL_SCOPE_DENIED''
              else if (case bk_policy b of
                         None \<Rightarrow> False
                       | Some p \<Rightarrow> \<not> pr_authenticationPermitted p \<and> list_ex (\<lambda>h. \<not> isPublicBrowserHeader (fst h)) (bo_headers bo))
              then BoundDenied ''BROWSER_HEADER_PERMISSION_DENIED''
              else BoundPermitted))"

definition set_binding :: "nat \<Rightarrow> bound_operation \<Rightarrow> broker \<Rightarrow> broker" where
  "set_binding k bo b = b\<lparr>bk_bindings := (bk_bindings b)(k \<mapsto> bo)\<rparr>"

definition cancelBrowserDecision :: "nat \<Rightarrow> broker \<Rightarrow> broker" where
  "cancelBrowserDecision k b = b\<lparr>bk_bindings := (bk_bindings b)(k := None)\<rparr>"

definition hasPendingBrowserDecision :: "nat \<Rightarrow> broker \<Rightarrow> bool" where
  "hasPendingBrowserDecision k b \<longleftrightarrow> bk_bindings b k \<noteq> None"

definition registerBrowserDecision :: "nat \<Rightarrow> nat \<Rightarrow> nat \<Rightarrow> nat \<Rightarrow> broker \<Rightarrow> bool \<times> broker" where
  "registerBrowserDecision k route request session b =
     (case bk_bindings b k of
        None \<Rightarrow> (False, b)
      | Some bo \<Rightarrow>
          if bo_route bo \<noteq> route \<or> bo_request bo \<noteq> request \<or> bo_session bo \<noteq> session \<or> bo_registered bo \<or> bo_consumed bo then (False, b)
          else (True, set_binding k (bo\<lparr>bo_registered := True\<rparr>) b))"

definition matchesBrowserProxyRequest :: "url_runtime \<Rightarrow> nat \<Rightarrow> nat \<Rightarrow> proxy_request \<Rightarrow> broker \<Rightarrow> bool" where
  "matchesBrowserProxyRequest rt k session actual b =
     (case bk_bindings b k of
        None \<Rightarrow> False
      | Some bo \<Rightarrow>
          bo_registered bo \<and> bo_continued bo \<and> \<not> bo_consumed bo \<and> bo_session bo = session \<and> bo_url bo = px_url actual \<and>
          bo_method bo = to_upper (px_method actual) \<and> bo_body bo = px_body actual \<and>
          browserHeadersMatch rt (bo_headers bo) (px_headers actual))"

definition bound_initiation :: "tick \<Rightarrow> nat \<Rightarrow> bound_operation \<Rightarrow> initiation" where
  "bound_initiation tk k bo =
     \<lparr>it_decision = Some k, it_url = bo_url bo, it_method = bo_method bo, it_headers = map fst (bo_headers bo), it_body = Some (bo_body bo), it_tick = tk\<rparr>"

datatype proxy_begin = ProxyBegun | ProxyDenied | ProxyCancelled

text \<open>The guard's part of \<^verbatim>\<open>beginBrowserProxyRequest\<close>: the permit is spent here.\<close>

definition begin_permit :: "url_runtime \<Rightarrow> tick \<Rightarrow> bound_operation \<Rightarrow> string \<Rightarrow> broker \<Rightarrow> bool \<times> broker" where
  "begin_permit rt tk bo body b =
     (case sm_authorization (bk_matcher b) of
        None \<Rightarrow> (True, b)
      | Some g \<Rightarrow>
         (case beginReservedBrowserAttempt (runtime.truncate rt) g (tk_check tk) (tk_rate tk) (bo_permit bo) (bo_url bo) (bo_method bo) body of
            (d, g') \<Rightarrow> (d = None, with_guard g' b)))"

definition beginBrowserProxyRequest :: "url_runtime \<Rightarrow> tick \<Rightarrow> nat \<Rightarrow> nat \<Rightarrow> proxy_request \<Rightarrow> broker \<Rightarrow> proxy_begin \<times> broker" where
  "beginBrowserProxyRequest rt tk k session actual b =
     (case bk_bindings b k of
        None \<Rightarrow> (ProxyDenied, b)
      | Some bo \<Rightarrow>
          if \<not> matchesBrowserProxyRequest rt k session actual b then (ProxyDenied, b)
          else let b1 = set_binding k (bo\<lparr>bo_consumed := True\<rparr>) b;
                   refuse = (\<lambda>r b. (r, cancelBrowserDecision k (snd (fixedBrowserDenial ''REQUEST_DISPATCH_POLICY_DENIED'' b)))) in
            case checkBoundBrowserOperation rt tk bo (px_body actual) b1 of
              BoundCancelled \<Rightarrow> refuse ProxyCancelled b1
            | BoundDenied _ \<Rightarrow> refuse ProxyDenied b1
            | BoundPermitted \<Rightarrow>
                (case begin_permit rt tk bo (px_body actual) b1 of
                   (False, b2) \<Rightarrow> refuse ProxyDenied b2
                 | (True, b2) \<Rightarrow> (ProxyBegun, initiate [bound_initiation tk k bo] b2)))"

definition observeBrowserInitiation :: "nat \<Rightarrow> broker \<Rightarrow> broker" where
  "observeBrowserInitiation k b =
     (case bk_bindings b k of
        None \<Rightarrow> b
      | Some bo \<Rightarrow>
          if \<not> bo_consumed bo then b
          else recordAudit \<lparr>au_method = bo_method bo, au_outcome = AuditSent, au_reason = None,
                            au_transmittedRequests = Some (bk_sentRequestCount b)\<rparr> (cancelBrowserDecision k b))"

text \<open>
  \<^verbatim>\<open>dispatchBrowserRoute\<close> runs its operation under the shared gate. Up to the call of \<^verbatim>\<open>route.continue\<close> it runs
  without interruption; \<open>route_refused\<close> is its handler.
\<close>

datatype route_result = RouteContinued | RouteRefused | RouteCancelled

definition route_refused :: "nat \<Rightarrow> string \<Rightarrow> broker \<Rightarrow> broker" where
  "route_refused k stage b = snd (fixedBrowserDenial stage (cancelBrowserDecision k b))"

definition dispatchBrowserRoute :: "url_runtime \<Rightarrow> tick \<Rightarrow> nat \<Rightarrow> nat \<Rightarrow> native_request \<Rightarrow> nat \<Rightarrow> broker \<Rightarrow> route_result \<times> broker" where
  "dispatchBrowserRoute rt tk k route native session b =
     (case bk_bindings b k of
        None \<Rightarrow> (RouteRefused, route_refused k ''BROWSER_BINDING_INVALID'' b)
      | Some bo \<Rightarrow>
          if bo_route bo \<noteq> route \<or> bo_request bo \<noteq> nr_id native \<or> bo_session bo \<noteq> session \<or> \<not> bo_registered bo \<or> bo_continued bo \<or> bo_consumed bo
          then (RouteRefused, route_refused k ''BROWSER_BINDING_INVALID'' b)
          else case checkBoundBrowserOperation rt tk bo (bo_body bo) b of
            BoundCancelled \<Rightarrow> (RouteCancelled, route_refused k ''BROWSER_ROUTE_CONTINUATION_FAILED'' b)
          | BoundDenied stage \<Rightarrow> (RouteRefused, route_refused k stage b)
          | BoundPermitted \<Rightarrow>
              if nr_url native \<noteq> bo_url bo \<or> to_upper (nr_method native) \<noteq> bo_method bo \<or> nr_body native \<noteq> bo_body bo
              then (RouteRefused, route_refused k ''BROWSER_NATIVE_IDENTITY_CHANGED'' b)
              else (RouteContinued, set_binding k (bo\<lparr>bo_continued := True, bo_checkedAt := Some tk\<rparr>) b))"

text \<open>
  After the browser acknowledged \<^verbatim>\<open>continue\<close>: a TLS request without expiring authority counts as initiated by the browser
  itself, unless the local proxy has begun it already; any other request waits for the proxy.
\<close>

definition browser_acknowledged :: "url_runtime \<Rightarrow> nat \<Rightarrow> broker \<Rightarrow> broker" where
  "browser_acknowledged rt k b =
     (case bk_bindings b k of
        None \<Rightarrow> b
      | Some bo \<Rightarrow>
         (case bo_checkedAt bo of
            None \<Rightarrow> b
          | Some tk \<Rightarrow>
              if (case rt_newURL rt (bo_url bo) of None \<Rightarrow> False | Some u \<Rightarrow> u_protocol u = ''https:'') \<and> \<not> hasExpiringAuthority b
              then observeBrowserInitiation k
                     (initiate (if bo_consumed bo then [] else [bound_initiation tk k bo]) (set_binding k (bo\<lparr>bo_consumed := True\<rparr>) b))
              else b))"

text \<open>\<^verbatim>\<open>waitForBrowserInitiation\<close> ends by timeout or abort with the same handler.\<close>

definition browser_wait_failed :: "nat \<Rightarrow> broker \<Rightarrow> broker" where
  "browser_wait_failed k b = route_refused k ''BROWSER_ROUTE_CONTINUATION_FAILED'' b"

definition dispatchApprovedBrowserRequest :: "broker \<Rightarrow> string + unit" where
  "dispatchApprovedBrowserRequest b = guard_err (hasExpiringAuthority b) (fixedDispatchDenial None)"

definition budgetSnapshot :: "broker \<Rightarrow> int \<times> jsnum \<times> int \<times> int" where
  "budgetSnapshot b = (bk_sentRequestCount b, bk_maxRequests b, bk_browserPolicyEventCount b, bk_browserPolicyEventLimit b)"

definition sharedBudgetSnapshot :: "broker \<Rightarrow> ledger_snapshot option" where
  "sharedBudgetSnapshot b = map_option ledger_snapshot_of (bk_ledger b)"

end
