(* ===== verification/RC_BrokerFacts.thy ===== *)
theory RC_BrokerFacts
  imports RC_Broker
begin

text \<open>
  The invariant of the request broker under every interleaving of its operations with those of its peers: what was initiated was
  authorized, charged before, and within the budgets.
\<close>

section \<open>What an initiated request meets\<close>

definition in_declared_scope :: "url_runtime \<Rightarrow> scope_matcher \<Rightarrow> string \<Rightarrow> string \<Rightarrow> bool" where
  "in_declared_scope rt m url verb \<longleftrightarrow> (\<exists>nurl parsed. normalizeUrl rt url (Some (sm_target m)) = Some nurl \<and> rt_newURL rt nurl = Some parsed \<and>
     to_upper verb \<in> set (sc_allowedMethods (sm_scope m)) \<and>
     (sc_sameOriginOnly (sm_scope m) \<longrightarrow> url_origin parsed = targetOrigin m) \<and>
     isAllowedHostname (sm_scope m) (u_hostname parsed) \<and> \<not> isDisallowedPath (sm_scope m) (u_pathname parsed))"

definition it_authorized :: "url_runtime \<Rightarrow> scope_matcher \<Rightarrow> initiation \<Rightarrow> bool" where
  "it_authorized rt m it \<longleftrightarrow> in_declared_scope rt m (it_url it) (it_method it) \<and>
     (\<forall>g p. sm_authorization m = Some g \<longrightarrow> requestPolicy (gd_plan g) = Some p \<longrightarrow>
        (\<exists>u. rt_newURL rt (it_url it) = Some u \<and> contract_approves (gd_plan g) p (gd_startedAt g) (tk_check (it_tick it)) u (it_method it)) \<and>
        (pr_authenticationPermitted p \<or> (\<forall>h \<in> set (it_headers it). isPublicBrowserHeader h)))"

lemma decide_in_scope: "sd_allowed (decide rt m now url verb body) \<Longrightarrow> in_declared_scope rt m url verb"
  by (auto simp: decide_def in_declared_scope_def Let_def targetOrigin_def split: option.splits if_splits)

text \<open>The parts of a matcher that no operation changes decide both predicates.\<close>

definition same_guard :: "auth_guard option \<Rightarrow> auth_guard option \<Rightarrow> bool" where
  "same_guard a b = rel_option (\<lambda>g g'. gd_plan g' = gd_plan g \<and> gd_startedAt g' = gd_startedAt g) a b"

definition same_matcher :: "scope_matcher \<Rightarrow> scope_matcher \<Rightarrow> bool" where
  "same_matcher m m' \<longleftrightarrow> sm_target m' = sm_target m \<and> sm_scope m' = sm_scope m \<and> same_guard (sm_authorization m) (sm_authorization m')"

lemma same_matcher_authorized: "same_matcher m m' \<Longrightarrow> it_authorized rt m' it \<Longrightarrow> it_authorized rt m it"
  by (cases "sm_authorization m"; cases "sm_authorization m'")
     (auto simp: same_matcher_def same_guard_def it_authorized_def in_declared_scope_def targetOrigin_def)

lemma same_matcher_refl: "same_matcher m m"
  by (cases "sm_authorization m") (auto simp: same_matcher_def same_guard_def)

lemma same_matcher_trans: "same_matcher a b \<Longrightarrow> same_matcher b c \<Longrightarrow> same_matcher a c"
  by (cases "sm_authorization a"; cases "sm_authorization b"; cases "sm_authorization c") (auto simp: same_matcher_def same_guard_def)

section \<open>Quiet steps and charges\<close>

definition lane_spent :: "nat scan_ledger \<Rightarrow> lane \<Rightarrow> int" where
  "lane_spent l lane = (case lane of Scan \<Rightarrow> sl_scanTransmitted l | Cleanup \<Rightarrow> sl_cleanupTransmitted l)"

text \<open>\<open>charges_cover b m\<close>: at least \<open>m\<close> requests are charged at every counter that governs this broker.\<close>

definition charges_cover :: "broker \<Rightarrow> int \<Rightarrow> bool" where
  "charges_cover b m \<longleftrightarrow> m \<le> bk_sentRequestCount b \<and> (\<forall>l. bk_ledger b = Some l \<longrightarrow> m \<le> lane_spent l (bk_lane b)) \<and>
     (\<forall>g. sm_authorization (bk_matcher b) = Some g \<longrightarrow> guard_governed g \<longrightarrow> m \<le> gd_transmitted g)"

definition within_budgets :: "broker \<Rightarrow> bool" where
  "within_budgets b \<longleftrightarrow> js_leq (jsint (bk_sentRequestCount b)) (js_ceil (bk_maxRequests b)) \<and> (\<forall>l. bk_ledger b = Some l \<longrightarrow> ledger_within l) \<and>
     (\<forall>g. sm_authorization (bk_matcher b) = Some g \<longrightarrow> guard_governed g \<longrightarrow> gd_transmitted g \<le> guard_limit g)"

definition same_request :: "bound_operation \<Rightarrow> bound_operation \<Rightarrow> bool" where
  "same_request a c \<longleftrightarrow> bo_url c = bo_url a \<and> bo_method c = bo_method a \<and> bo_headers c = bo_headers a \<and> bo_body c = bo_body a"

text \<open>
  \<open>quiet\<close>: nothing is initiated and no binding appears; \<open>charged n\<close>: besides, every governing counter advances by \<open>n\<close> at least.
\<close>

definition quiet :: "broker \<Rightarrow> broker \<Rightarrow> bool" where
  "quiet b b' \<longleftrightarrow> same_matcher (bk_matcher b) (bk_matcher b') \<and> bk_lane b' = bk_lane b \<and> bk_maxRequests b' = bk_maxRequests b \<and>
     rel_option (\<lambda>l l'. same_limits l l') (bk_ledger b) (bk_ledger b') \<and>
     bk_initiated b' = bk_initiated b \<and> bk_nextDecision b \<le> bk_nextDecision b' \<and>
     (\<forall>m. charges_cover b m \<longrightarrow> charges_cover b' m) \<and> (within_budgets b \<longrightarrow> within_budgets b') \<and>
     (\<forall>k bo'. bk_bindings b' k = Some bo' \<longrightarrow>
        (\<exists>bo. bk_bindings b k = Some bo \<and> same_request bo bo' \<and> bo_checkedAt bo' = bo_checkedAt bo \<and> (bo_consumed bo \<longrightarrow> bo_consumed bo')))"

definition charged :: "int \<Rightarrow> broker \<Rightarrow> broker \<Rightarrow> bool" where
  "charged n b b' \<longleftrightarrow> quiet b b' \<and> (\<forall>m. charges_cover b m \<longrightarrow> charges_cover b' (m + n))"

lemma same_limits_trans: "same_limits a b \<Longrightarrow> same_limits b c \<Longrightarrow> same_limits a c"
  by (simp add: same_limits_def)

lemma quiet_trans: "quiet a b \<Longrightarrow> quiet b c \<Longrightarrow> quiet a c"
proof -
  assume q: "quiet a b" "quiet b c"
  have "rel_option same_limits (bk_ledger a) (bk_ledger c)"
    using q by (cases "bk_ledger a"; cases "bk_ledger b"; cases "bk_ledger c") (auto simp: quiet_def intro: same_limits_trans)
  moreover have "\<exists>bo. bk_bindings a k = Some bo \<and> same_request bo bo' \<and> bo_checkedAt bo' = bo_checkedAt bo \<and> (bo_consumed bo \<longrightarrow> bo_consumed bo')"
    if c: "bk_bindings c k = Some bo'" for k bo'
  proof -
    obtain bo where bo: "bk_bindings b k = Some bo" "same_request bo bo'" "bo_checkedAt bo' = bo_checkedAt bo" "bo_consumed bo \<longrightarrow> bo_consumed bo'"
      using q(2) c unfolding quiet_def by blast
    obtain ba where "bk_bindings a k = Some ba" "same_request ba bo" "bo_checkedAt bo = bo_checkedAt ba" "bo_consumed ba \<longrightarrow> bo_consumed bo"
      using q(1) bo(1) unfolding quiet_def by blast
    then show ?thesis using bo by (auto simp: same_request_def)
  qed
  moreover have "same_matcher (bk_matcher a) (bk_matcher c)" using q unfolding quiet_def by (blast intro: same_matcher_trans)
  moreover have "bk_nextDecision a \<le> bk_nextDecision c" using q unfolding quiet_def by linarith
  moreover have "bk_lane c = bk_lane a" "bk_maxRequests c = bk_maxRequests a" "bk_initiated c = bk_initiated a"
    "\<And>m. charges_cover a m \<Longrightarrow> charges_cover c m" "within_budgets a \<Longrightarrow> within_budgets c"
    using q unfolding quiet_def by simp_all
  ultimately show ?thesis unfolding quiet_def by blast
qed

lemma quiet_refl: "quiet b b"
  by (cases "bk_ledger b") (auto simp: quiet_def same_matcher_refl same_limits_def same_request_def)

text \<open>Steps that leave matcher, ledger, counters, bindings and initiations alone are quiet.\<close>

lemma quiet_local:
  assumes "bk_matcher b' = bk_matcher b" "bk_lane b' = bk_lane b" "bk_maxRequests b' = bk_maxRequests b" "bk_ledger b' = bk_ledger b"
    "bk_initiated b' = bk_initiated b" "bk_nextDecision b \<le> bk_nextDecision b'" "bk_sentRequestCount b' = bk_sentRequestCount b"
    "\<And>k bo'. bk_bindings b' k = Some bo' \<Longrightarrow>
       \<exists>bo. bk_bindings b k = Some bo \<and> same_request bo bo' \<and> bo_checkedAt bo' = bo_checkedAt bo \<and> (bo_consumed bo \<longrightarrow> bo_consumed bo')"
  shows "quiet b b'"
proof -
  have "rel_option same_limits (bk_ledger b) (bk_ledger b')" by (cases "bk_ledger b") (auto simp: assms same_limits_def)
  then show ?thesis using assms by (auto simp: quiet_def same_matcher_refl charges_cover_def within_budgets_def)
qed

lemma newURL_truncate [simp]: "rt_newURL (runtime.truncate rt) = rt_newURL rt"
  by (simp add: runtime.defs)

text \<open>A guard that only advances, within its limit.\<close>

definition guard_advances :: "auth_guard \<Rightarrow> auth_guard \<Rightarrow> bool" where
  "guard_advances g g' \<longleftrightarrow> gd_plan g' = gd_plan g \<and> gd_startedAt g' = gd_startedAt g \<and>
     (guard_governed g \<longrightarrow> gd_transmitted g \<le> gd_transmitted g' \<and> (gd_transmitted g \<le> guard_limit g \<longrightarrow> gd_transmitted g' \<le> guard_limit g))"

lemma quiet_guard:
  assumes "sm_authorization (bk_matcher b) = Some g" "guard_advances g g'"
  shows "quiet b (with_guard g' b)"
proof -
  have "rel_option same_limits (bk_ledger b) (bk_ledger b)" by (cases "bk_ledger b") (auto simp: same_limits_def)
  then show ?thesis using assms
    by (auto simp: quiet_def with_guard_def same_matcher_def same_guard_def guard_advances_def charges_cover_def within_budgets_def
        guard_governed_def guard_limit_def same_request_def)
qed

lemma reserve_advances: "reserve rt g c n url verb body = (d, g') \<Longrightarrow> guard_advances g g'"
proof -
  assume r: "reserve rt g c n url verb body = (d, g')"
  note f = reserve_frame [OF r]
  show ?thesis
  proof (cases "requestPolicy (gd_plan g)")
    case None
    then show ?thesis using f by (simp add: guard_advances_def guard_governed_def)
  next
    case (Some p)
    then show ?thesis using f r reserve_charged [of rt g c n url verb body g' p] reserve_denied [of rt g c n url verb body _ g']
      by (cases d) (auto simp: guard_advances_def guard_limit_def)
  qed
qed

lemma reserveBrowserAttempt_advances: "reserveBrowserAttempt rt g c n url verb body = (d, g') \<Longrightarrow> guard_advances g g'"
proof -
  assume r: "reserveBrowserAttempt rt g c n url verb body = (d, g')"
  obtain x g1 where b: "reserve rt g c n url verb body = (x, g1)" "gd_plan g' = gd_plan g" "gd_startedAt g' = gd_startedAt g" "gd_transmitted g' = gd_transmitted g1"
    using reserveBrowserAttempt_base [OF r] by blast
  then show ?thesis using reserve_advances [OF b(1)] by (auto simp: guard_advances_def)
qed

lemma reserveBatch_advances: "reserveBatch rt g n rs = (d, g') \<Longrightarrow> guard_advances g g'"
proof -
  assume r: "reserveBatch rt g n rs = (d, g')"
  note f = reserveBatch_frame [OF r]
  show ?thesis
  proof (cases "requestPolicy (gd_plan g)")
    case None
    then show ?thesis using f by (simp add: guard_advances_def guard_governed_def)
  next
    case (Some p)
    then show ?thesis using f r reserveBatch_charged [of rt g n rs g' p] reserveBatch_denied [of rt g n rs _ g']
      by (cases d) (auto simp: guard_advances_def guard_limit_def)
  qed
qed

lemma beginReservedBrowserAttempt_advances: "beginReservedBrowserAttempt rt g c n permit url verb body = (d, g') \<Longrightarrow> guard_advances g g'"
  by (auto simp: beginReservedBrowserAttempt_def guard_advances_def drop_permit_def Let_def split: reservation_splits)

lemma guard_advances_recent: "guard_advances (g\<lparr>gd_recent := xs\<rparr>) g' \<longleftrightarrow> guard_advances g g'" "guard_advances g (g\<lparr>gd_recent := xs\<rparr>)"
  "guard_advances g g"
  by (auto simp: guard_advances_def guard_governed_def guard_limit_def)

lemma wait_for_rate_loop_advances: "guard_advances g (snd (wait_for_rate_loop rate slots g wakes))"
proof (induction wakes arbitrary: g)
  case (Cons w wakes)
  show ?case using Cons.IH [of "g\<lparr>gd_recent := window (fst w) (gd_recent g)\<rparr>"]
    by (cases w) (simp add: Let_def guard_advances_recent)
qed (simp add: guard_advances_recent)

lemma waitForRate_advances: "waitForRate g slots wakes = (r, g') \<Longrightarrow> guard_advances g g'"
  using wait_for_rate_loop_advances [of g _ slots wakes]
  by (auto simp: waitForRate_def guard_advances_recent split: option.splits if_splits) (metis snd_conv)

lemma guard_exec_advances: "guard_advances g (guard_exec rt g x)"
  by (cases x)
     (simp_all add: reserve_advances [OF surjective_pairing] reserveBrowserAttempt_advances [OF surjective_pairing]
        reserveBatch_advances [OF surjective_pairing] beginReservedBrowserAttempt_advances [OF surjective_pairing]
        waitForRate_advances [OF surjective_pairing])

text \<open>The ledger.\<close>

lemma quiet_ledger:
  assumes "bk_ledger b = Some l" "same_limits l l'" "lane_spent l (bk_lane b) \<le> lane_spent l' (bk_lane b)" "ledger_within l \<Longrightarrow> ledger_within l'"
  shows "quiet b (b\<lparr>bk_ledger := Some l'\<rparr>)"
  using assms by (auto simp: quiet_def same_matcher_refl charges_cover_def within_budgets_def same_request_def)

lemma tryReserve_facts:
  assumes "tryReserve l lane n = (l', ok)"
  shows "same_limits l l'" "ledger_within l \<Longrightarrow> ledger_within l'" "lane_spent l x \<le> lane_spent l' x"
    "ok \<Longrightarrow> lane_spent l' lane = lane_spent l lane + js_floor_int n" "\<not> ok \<Longrightarrow> lane_spent l' lane = lane_spent l lane"
    "ok \<longleftrightarrow> hasCapacity l lane n"
  using assms tryReserve_keeps [OF assms]
  by (auto simp: keeps_gate_def tryReserve_def hasCapacity_iff lane_spent_def split: if_splits lane.splits)

lemma reserve_lane_quiet: "reserve_lane n b = (ok, b') \<Longrightarrow> quiet b b'"
  by (cases "bk_ledger b")
     (auto simp: reserve_lane_def quiet_refl tryReserve_facts intro!: quiet_ledger split: prod.splits)

lemma reserve_lane_facts:
  assumes "reserve_lane n b = (ok, b')"
  shows "bk_matcher b' = bk_matcher b" "bk_sentRequestCount b' = bk_sentRequestCount b" "bk_lane b' = bk_lane b" "bk_maxRequests b' = bk_maxRequests b"
    "ok \<longleftrightarrow> \<not> lane_full b n"
    "ok \<Longrightarrow> bk_ledger b = Some l \<Longrightarrow> \<exists>l'. bk_ledger b' = Some l' \<and> lane_spent l' (bk_lane b) = lane_spent l (bk_lane b) + n"
    "bk_ledger b = None \<Longrightarrow> bk_ledger b' = None"
  using assms by (auto simp: reserve_lane_def lane_full_def tryReserve_facts split: option.splits prod.splits)

section \<open>HTTP initiations\<close>

lemma authorizeFinalHttpAttempt_quiet:
  "authorizeFinalHttpAttempt rt tk req url res b = (r, b') \<Longrightarrow>
     quiet b b' \<and> bk_ledger b' = bk_ledger b \<and> bk_sentRequestCount b' = bk_sentRequestCount b \<and> (\<not> res \<longrightarrow> bk_matcher b' = bk_matcher b)"
proof -
  assume a: "authorizeFinalHttpAttempt rt tk req url res b = (r, b')"
  show ?thesis
  proof (cases "sm_authorization (bk_matcher b)")
    case None
    then have "b' = b" using a by (auto simp: authorizeFinalHttpAttempt_def Let_def split: if_splits)
    then show ?thesis by (simp add: quiet_refl)
  next
    case (Some g)
    obtain d g' where e: "(if res then reserve (runtime.truncate rt) g (tk_check tk) (tk_rate tk) url (rq_method req) (rq_body req)
        else (check (runtime.truncate rt) g (tk_check tk) url (rq_method req) (rq_body req), g)) = (d, g')" by (rule prod.exhaust)
    then have g': "guard_advances g g'" "\<not> res \<longrightarrow> g' = g" by (auto simp: guard_advances_recent(3) dest: reserve_advances split: if_splits)
    have "b' = b \<or> b' = with_guard g' b"
      using a by (auto simp: authorizeFinalHttpAttempt_def Let_def Some e split: if_splits option.splits)
    then show ?thesis using g' Some quiet_guard [OF Some g'(1)] by (auto simp: with_guard_def quiet_refl)
  qed
qed

lemma public_headers: "set publicRequestHeaders \<subseteq> set publicBrowserHeaders"
  by code_simp

lemma headers_allowed:
  assumes "\<not> headers_denied b headers" "bk_policy b = Some p" "\<not> pr_authenticationPermitted p" "h \<in> set headers"
  shows "isPublicBrowserHeader (fst h)"
proof -
  have "to_lower (fst h) \<in> set publicRequestHeaders" using assms by (auto simp: headers_denied_def list_ex_iff)
  then show ?thesis using public_headers by (auto simp: isPublicBrowserHeader_def Let_def)
qed

lemma authorizeFinalHttpAttempt_permitted:
  assumes "authorizeFinalHttpAttempt rt tk req url res b = (AttemptPermitted, b')"
  shows "it_authorized rt (bk_matcher b) (initiation_of tk req url)" and
    "res \<Longrightarrow> sm_authorization (bk_matcher b) = Some g \<Longrightarrow> guard_governed g \<Longrightarrow>
       \<exists>g'. sm_authorization (bk_matcher b') = Some g' \<and> gd_transmitted g' = gd_transmitted g + 1"
    and "\<not> tk_aborted tk" "sd_normalizedUrl (decide rt (bk_matcher b) (tk_scope tk) url (rq_method req) (rq_body req)) = Some url"
proof -
  let ?t = "runtime.truncate rt"
  have d: "sd_allowed (decide rt (bk_matcher b) (tk_scope tk) url (rq_method req) (rq_body req))" "\<not> headers_denied b (rq_headers req)"
    and ab: "\<not> tk_aborted tk" "sd_normalizedUrl (decide rt (bk_matcher b) (tk_scope tk) url (rq_method req) (rq_body req)) = Some url"
    using assms by (auto simp: authorizeFinalHttpAttempt_def Let_def split: if_splits)
  show "\<not> tk_aborted tk" "sd_normalizedUrl (decide rt (bk_matcher b) (tk_scope tk) url (rq_method req) (rq_body req)) = Some url" using ab .
  have g: "\<exists>g'. (if res then reserve ?t g (tk_check tk) (tk_rate tk) url (rq_method req) (rq_body req)
              else (check ?t g (tk_check tk) url (rq_method req) (rq_body req), g)) = (None, g') \<and> b' = with_guard g' b"
    if "sm_authorization (bk_matcher b) = Some g" for g
    using assms that d ab by (auto simp: authorizeFinalHttpAttempt_def Let_def split: if_splits option.splits prod.splits)
  show "\<exists>g'. sm_authorization (bk_matcher b') = Some g' \<and> gd_transmitted g' = gd_transmitted g + 1"
    if "res" "sm_authorization (bk_matcher b) = Some g" "guard_governed g"
    using g [OF that(2)] that(1,3) reserve_charged by (fastforce simp: guard_governed_def with_guard_def)
  have chk: "check ?t g (tk_check tk) url (rq_method req) (rq_body req) = None"
    if "sm_authorization (bk_matcher b) = Some g" "requestPolicy (gd_plan g) = Some p" for g p
    using g [OF that(1)] reserve_charged [OF _ that(2)] by (cases res) auto
  have "(\<exists>u. rt_newURL rt url = Some u \<and> contract_approves (gd_plan g) p (gd_startedAt g) (tk_check tk) u (rq_method req)) \<and>
      (pr_authenticationPermitted p \<or> (\<forall>h \<in> set (rq_headers req). isPublicBrowserHeader (fst h)))"
    if "sm_authorization (bk_matcher b) = Some g" "requestPolicy (gd_plan g) = Some p" for g p
    using check_passed [OF chk [OF that] that(2)] headers_allowed [OF d(2), of p] that by (fastforce simp: bk_policy_def)
  then show "it_authorized rt (bk_matcher b) (initiation_of tk req url)"
    using decide_in_scope [OF d(1)] by (auto simp: it_authorized_def initiation_of_def)
qed

lemma sent_below: "js_leq (jsint s) (js_ceil m) \<Longrightarrow> \<not> js_leq m (jsint s) \<Longrightarrow> js_leq (jsint (s + 1)) (js_ceil m)"
proof (cases m)
  case (JFin q)
  assume "\<not> js_leq m (jsint s)"
  then have "s < \<lceil>q\<rceil>" using JFin by (simp add: less_ceiling_iff)
  then have "(of_int (s + 1) :: rat) \<le> of_int \<lceil>q\<rceil>" by (subst of_int_le_iff) simp
  then show ?thesis using JFin by simp
qed simp_all

lemma sent_group: "js_leq (jsint s) (js_ceil m) \<Longrightarrow> \<not> js_less m (jsint (s + n)) \<Longrightarrow> js_leq (jsint (s + n)) (js_ceil m)"
  by (cases m) (auto simp: not_less intro: order_trans [OF _ le_of_int_ceiling])

lemma quiet_sent:
  assumes "0 \<le> n" "js_leq (jsint (bk_sentRequestCount b)) (js_ceil (bk_maxRequests b)) \<Longrightarrow>
      js_leq (jsint (bk_sentRequestCount b + n)) (js_ceil (bk_maxRequests b))"
  shows "quiet b (b\<lparr>bk_sentRequestCount := bk_sentRequestCount b + n\<rparr>)"
proof -
  have "rel_option same_limits (bk_ledger b) (bk_ledger b)" by (cases "bk_ledger b") (auto simp: same_limits_def)
  then show ?thesis using assms by (auto simp: quiet_def same_matcher_refl charges_cover_def within_budgets_def same_request_def)
qed

text \<open>Charging the lane and the broker after the guard.\<close>

lemma charge_lane_and_broker:
  assumes b1: "quiet b b1" "bk_ledger b1 = bk_ledger b" "bk_sentRequestCount b1 = bk_sentRequestCount b"
    and guard: "\<And>g. sm_authorization (bk_matcher b) = Some g \<Longrightarrow> guard_governed g \<Longrightarrow>
        \<exists>g'. sm_authorization (bk_matcher b1) = Some g' \<and> gd_transmitted g + n \<le> gd_transmitted g'"
    and lane: "reserve_lane n b1 = (True, b2)" and n: "0 \<le> n"
    and room: "js_leq (jsint (bk_sentRequestCount b)) (js_ceil (bk_maxRequests b)) \<Longrightarrow> js_leq (jsint (bk_sentRequestCount b + n)) (js_ceil (bk_maxRequests b))"
  shows "charged n b (b2\<lparr>bk_sentRequestCount := bk_sentRequestCount b2 + n\<rparr>)"
proof -
  note f = reserve_lane_facts [OF lane]
  have c: "bk_lane b1 = bk_lane b" "bk_maxRequests b1 = bk_maxRequests b" using b1(1) by (simp_all add: quiet_def)
  have q: "quiet b (b2\<lparr>bk_sentRequestCount := bk_sentRequestCount b2 + n\<rparr>)"
    by (rule quiet_trans [OF quiet_trans [OF b1(1) reserve_lane_quiet [OF lane]] quiet_sent]) (use n room c f b1 in simp_all)
  have "charges_cover (b2\<lparr>bk_sentRequestCount := bk_sentRequestCount b2 + n\<rparr>) (m + n)" if m: "charges_cover b m" for m
    unfolding charges_cover_def
  proof (intro conjI allI impI)
    show "m + n \<le> bk_sentRequestCount (b2\<lparr>bk_sentRequestCount := bk_sentRequestCount b2 + n\<rparr>)" using m b1(3) f(2) by (simp add: charges_cover_def)
  next
    fix l2 assume "bk_ledger (b2\<lparr>bk_sentRequestCount := bk_sentRequestCount b2 + n\<rparr>) = Some l2"
    then have l2: "bk_ledger b2 = Some l2" by simp
    then obtain l where l: "bk_ledger b1 = Some l" using f(7) by fastforce
    then have "lane_spent l2 (bk_lane b1) = lane_spent l (bk_lane b1) + n" using f(6) [OF _ l] l2 by simp
    then show "m + n \<le> lane_spent l2 (bk_lane (b2\<lparr>bk_sentRequestCount := bk_sentRequestCount b2 + n\<rparr>))"
      using m l b1(2) c(1) f(3) by (simp add: charges_cover_def)
  next
    fix g2 assume "sm_authorization (bk_matcher (b2\<lparr>bk_sentRequestCount := bk_sentRequestCount b2 + n\<rparr>)) = Some g2" and gov: "guard_governed g2"
    then have g1: "sm_authorization (bk_matcher b1) = Some g2" using f(1) by simp
    obtain g where g: "sm_authorization (bk_matcher b) = Some g" "gd_plan g2 = gd_plan g"
      using b1(1) g1 by (auto simp: quiet_def same_matcher_def same_guard_def option_rel_Some2)
    then have "guard_governed g" using gov by (simp add: guard_governed_def)
    then have "gd_transmitted g + n \<le> gd_transmitted g2" using guard [OF g(1)] g1 by auto
    then show "m + n \<le> gd_transmitted g2" using m g(1) \<open>guard_governed g\<close> by (fastforce simp: charges_cover_def)
  qed
  then show ?thesis using q by (simp add: charged_def)
qed

lemma commitHttpInitiation_cases:
  assumes "commitHttpInitiation rt tk req url b = (r, b')"
  shows "r \<noteq> Committed \<and> quiet b b' \<or>
    r = Committed \<and> it_authorized rt (bk_matcher b) (initiation_of tk req url) \<and>
      (\<exists>b2. charged 1 b b2 \<and> b' = initiate [initiation_of tk req url] b2)"
proof (cases "tk_aborted tk \<or> js_leq (bk_maxRequests b) (jsint (bk_sentRequestCount b)) \<or> lane_full b 1")
  case True
  then show ?thesis using assms by (auto simp: commitHttpInitiation_def quiet_refl split: if_splits)
next
  case False
  obtain a b1 where a: "authorizeFinalHttpAttempt rt tk req url True b = (a, b1)" by (rule prod.exhaust)
  note q = authorizeFinalHttpAttempt_quiet [OF a]
  show ?thesis
  proof (cases a)
    case AttemptPermitted
    obtain ok b2 where l: "reserve_lane 1 b1 = (ok, b2)" by (rule prod.exhaust)
    note p = authorizeFinalHttpAttempt_permitted [OF a [unfolded AttemptPermitted]]
    show ?thesis
    proof (cases ok)
      case True
      have l': "reserve_lane 1 b1 = (True, b2)" using l True by simp
      have "charged 1 b (b2\<lparr>bk_sentRequestCount := bk_sentRequestCount b2 + 1\<rparr>)"
        by (rule charge_lane_and_broker [OF _ _ _ _ l'])
          (use q p(2) [OF TrueI] False sent_below in \<open>fastforce+\<close>)
      then show ?thesis using assms False a AttemptPermitted l True p(1) by (auto simp: commitHttpInitiation_def)
    next
      case not_ok: False
      then show ?thesis using assms False a AttemptPermitted l quiet_trans [OF conjunct1 [OF q] reserve_lane_quiet [OF l]]
        by (auto simp: commitHttpInitiation_def)
    qed
  qed (use assms False a q in \<open>auto simp: commitHttpInitiation_def\<close>)
qed


lemma commitRawPair_cases:
  assumes "commitRawPair rt tk post surl b = (r, b')"
  shows "r \<noteq> Committed \<and> quiet b b' \<or>
    r = Committed \<and> (\<exists>b2 i j. it_authorized rt (bk_matcher b) i \<and> it_authorized rt (bk_matcher b) j \<and> it_decision i = None \<and>
      it_decision j = None \<and> charged 2 b b2 \<and> b' = initiate [i, j] b2)"
proof -
  let ?post = "post\<lparr>rq_method := ''POST''\<rparr>" and ?get = "\<lparr>rq_url = surl, rq_method = ''GET'', rq_headers = [], rq_body = None, rq_skipCache = False,
                 rq_disableRetries = False, rq_disableRedirects = False\<rparr>"
  let ?batch = "[\<lparr>br_url = rq_url post, br_method = ''POST'', br_body = rq_body post, br_checkedAt = tk_check tk\<rparr>,
                 \<lparr>br_url = surl, br_method = ''GET'', br_body = None, br_checkedAt = tk_check tk\<rparr>]"
  let ?guard = "case sm_authorization (bk_matcher b) of None \<Rightarrow> (None, b)
      | Some g \<Rightarrow> (case reserveBatch (runtime.truncate rt) g (tk_rate tk) ?batch of (d, g') \<Rightarrow> (d, with_guard g' b))"
  obtain x bx where x: "authorizeFinalHttpAttempt rt tk ?post (rq_url post) False b = (x, bx)" by (rule prod.exhaust)
  obtain y yb where y: "authorizeFinalHttpAttempt rt tk ?get surl False b = (y, yb)" by (rule prod.exhaust)
  obtain d b1 where d: "?guard = (d, b1)" by (rule prod.exhaust)
  obtain ok b2 where l: "reserve_lane 2 b1 = (ok, b2)" by (rule prod.exhaust)
  have q1: "quiet b b1" "bk_ledger b1 = bk_ledger b" "bk_sentRequestCount b1 = bk_sentRequestCount b"
    using d by (auto simp: quiet_refl with_guard_def [symmetric] reserveBatch_advances split: option.splits prod.splits intro!: quiet_guard)
      (auto simp: with_guard_def)
  have step: "commitRawPair rt tk post surl b =
      (if tk_aborted tk then (CommitCancelled, b)
       else if budget_spent b 2 \<or> lane_full b 2 then (CommitBudgetExceeded, b)
       else if x \<noteq> AttemptPermitted \<or> y \<noteq> AttemptPermitted then (CommitDenied (fixedDispatchDenial None), b)
       else case d of Some z \<Rightarrow> (CommitDenied (fixedDispatchDenial (Some (denial_text z))), b1)
         | None \<Rightarrow> if ok then (Committed, initiate [initiation_of tk ?post (rq_url post), initiation_of tk ?get surl]
               (b2\<lparr>bk_sentRequestCount := bk_sentRequestCount b2 + 2\<rparr>)) else (CommitDenied (fixedDispatchDenial None), b2))"
    unfolding commitRawPair_def Let_def x y d by (auto simp: l split: attempt_result.splits option.splits)
  show ?thesis
  proof (cases "\<not> tk_aborted tk \<and> \<not> budget_spent b 2 \<and> \<not> lane_full b 2 \<and> x = AttemptPermitted \<and> y = AttemptPermitted \<and> d = None \<and> ok")
    case True
    have l': "reserve_lane 2 b1 = (True, b2)" using l True by simp
    have "charged 2 b (b2\<lparr>bk_sentRequestCount := bk_sentRequestCount b2 + 2\<rparr>)"
    proof (rule charge_lane_and_broker [OF q1 _ l'])
      fix g assume g: "sm_authorization (bk_matcher b) = Some g" "guard_governed g"
      then show "\<exists>g'. sm_authorization (bk_matcher b1) = Some g' \<and> gd_transmitted g + 2 \<le> gd_transmitted g'"
        using d True by (auto simp: guard_governed_def with_guard_def dest: reserveBatch_charged split: prod.splits)
    next
      show "js_leq (jsint (bk_sentRequestCount b + 2)) (js_ceil (bk_maxRequests b))" if "js_leq (jsint (bk_sentRequestCount b)) (js_ceil (bk_maxRequests b))"
        using sent_group [OF that, of 2] True by (simp add: budget_spent_def)
    qed simp
    moreover have "it_authorized rt (bk_matcher b) (initiation_of tk ?post (rq_url post))" "it_authorized rt (bk_matcher b) (initiation_of tk ?get surl)"
      using authorizeFinalHttpAttempt_permitted(1) x y True by blast+
    moreover have "it_decision (initiation_of tk q u) = None" for q u by (simp add: initiation_of_def)
    moreover have "r = Committed \<and> b' = initiate [initiation_of tk ?post (rq_url post), initiation_of tk ?get surl]
        (b2\<lparr>bk_sentRequestCount := bk_sentRequestCount b2 + 2\<rparr>)"
      using assms True unfolding step by simp
    ultimately show ?thesis by blast
  next
    case False
    then show ?thesis using assms q1(1) quiet_trans [OF q1(1) reserve_lane_quiet [OF l]] unfolding step
      by (auto simp: quiet_refl split: if_splits option.splits)
  qed
qed


section \<open>Browser decisions\<close>

lemma quiet_fields:
  assumes "bk_matcher b' = bk_matcher b" "bk_lane b' = bk_lane b" "bk_maxRequests b' = bk_maxRequests b" "bk_ledger b' = bk_ledger b"
    "bk_initiated b' = bk_initiated b" "bk_nextDecision b \<le> bk_nextDecision b'" "bk_sentRequestCount b' = bk_sentRequestCount b"
    "bk_bindings b' = bk_bindings b"
  shows "quiet b b'"
  by (rule quiet_local) (use assms in \<open>auto simp: same_request_def\<close>)

lemma quiet_records:
  "quiet b (recordAudit e b)" "quiet b (browser_audit r a s b)" "quiet b (snd (deny_browser n w v b))"
  "quiet b (recordOrdinaryGetIntent rt verb url b)" "quiet b (setBrowserPolicyEventLimit v' b)" "quiet b (snd (consumeBrowserPolicyEvent b))"
  by (rule quiet_fields; simp add: recordAudit_def browser_audit_def deny_browser_def recordOrdinaryGetIntent_def Let_def
        setBrowserPolicyEventLimit_def consumeBrowserPolicyEvent_def split: option.splits)+

lemma quiet_fixedBrowserDenial: "quiet b (snd (fixedBrowserDenial stage b))"
  unfolding fixedBrowserDenial_def Let_def by (rule quiet_trans [OF quiet_records(1) quiet_records(3)])

lemma quiet_browser_event_exhausted: "quiet b (snd (browser_event_exhausted r b))"
  unfolding browser_event_exhausted_def by (rule quiet_trans [OF quiet_records(2) quiet_records(3)])

lemma quiet_recordBrowserPolicyBlock: "quiet b (snd (recordBrowserPolicyBlock r why b))"
proof -
  obtain e b1 where e: "consumeBrowserPolicyEvent b = (e, b1)" by (rule prod.exhaust)
  then have q: "quiet b b1" using quiet_records(6) [of b] by simp
  show ?thesis
    using quiet_trans [OF q quiet_browser_event_exhausted] quiet_trans [OF q quiet_trans [OF quiet_records(2) quiet_records(3)]]
    by (cases e) (simp_all add: recordBrowserPolicyBlock_def e)
qed

lemma quiet_cancel: "quiet b (cancelBrowserDecision k b)"
  by (rule quiet_local) (auto simp: cancelBrowserDecision_def same_request_def split: if_splits)

lemma quiet_route_refused: "quiet b (route_refused k stage b)"
  unfolding route_refused_def by (rule quiet_trans [OF quiet_cancel quiet_fixedBrowserDenial])

lemma quiet_update:
  assumes "bk_bindings b k = Some bo" "same_request bo bo'" "bo_checkedAt bo' = bo_checkedAt bo" "bo_consumed bo \<longrightarrow> bo_consumed bo'"
  shows "quiet b (set_binding k bo' b)"
  by (rule quiet_local) (use assms in \<open>auto simp: set_binding_def same_request_def split: if_splits\<close>)

lemma quiet_register: "quiet b (snd (registerBrowserDecision k route request session b))"
  by (auto simp: registerBrowserDecision_def quiet_refl same_request_def intro!: quiet_update split: option.splits)

lemma quiet_observe: "quiet b (observeBrowserInitiation k b)"
  using quiet_trans [OF quiet_cancel quiet_records(1)] by (auto simp: observeBrowserInitiation_def quiet_refl split: option.splits)

text \<open>The reservation at the guard, and the transmission budget.\<close>

lemma reserveBrowserAttempt_charged:
  assumes "reserveBrowserAttempt rt g c n url verb body = (d, g')" "\<And>x. d \<noteq> BrowserDenied x" "guard_governed g"
  shows "gd_transmitted g' = gd_transmitted g + 1"
  using assms reserve_charged by (fastforce simp: guard_governed_def reserveBrowserAttempt_def split: prod.splits option.splits)

lemma reserve_browser_facts:
  assumes "reserve_browser rt tk nurl verb captured b = (r, b')"
  shows "quiet b b'" "bk_ledger b' = bk_ledger b" "bk_sentRequestCount b' = bk_sentRequestCount b" "bk_bindings b' = bk_bindings b"
    "bk_nextDecision b' = bk_nextDecision b"
    "r = Inr bound \<Longrightarrow> sm_authorization (bk_matcher b) = Some g \<Longrightarrow> guard_governed g \<Longrightarrow>
       \<exists>g'. sm_authorization (bk_matcher b') = Some g' \<and> gd_transmitted g + 1 \<le> gd_transmitted g'"
    "r = Inr bound \<Longrightarrow> bound = Some c \<Longrightarrow> \<exists>c0 p. captured = Some c0 \<and> c = c0\<lparr>bo_permit := p\<rparr>"
proof -
  show "quiet b b'"
    using assms by (auto simp: reserve_browser_def quiet_refl reserve_advances reserveBrowserAttempt_advances intro!: quiet_guard
        split: option.splits prod.splits browser_reserve_result.splits)
  show "bk_ledger b' = bk_ledger b" "bk_sentRequestCount b' = bk_sentRequestCount b" "bk_bindings b' = bk_bindings b" "bk_nextDecision b' = bk_nextDecision b"
    using assms by (auto simp: reserve_browser_def with_guard_def split: option.splits prod.splits browser_reserve_result.splits)
  show "\<exists>g'. sm_authorization (bk_matcher b') = Some g' \<and> gd_transmitted g + 1 \<le> gd_transmitted g'"
    if "r = Inr bound" "sm_authorization (bk_matcher b) = Some g" "guard_governed g"
    using assms that reserve_charged reserveBrowserAttempt_charged [OF _ _ that(3)]
    by (fastforce simp: reserve_browser_def with_guard_def guard_governed_def split: option.splits prod.splits browser_reserve_result.splits)
  show "\<exists>c0 p. captured = Some c0 \<and> c = c0\<lparr>bo_permit := p\<rparr>" if "r = Inr bound" "bound = Some c"
  proof -
    have "\<exists>p. c = c\<lparr>bo_permit := p\<rparr>" by (rule exI [of _ "bo_permit c"]) simp
    then show ?thesis using assms that
      by (auto simp: reserve_browser_def split: option.splits prod.splits browser_reserve_result.splits)
  qed
qed

lemma consumeTransmissionBudget_refused: "consumeTransmissionBudget b = (False, b') \<Longrightarrow> quiet b b'"
  by (auto simp: consumeTransmissionBudget_def quiet_refl reserve_lane_quiet split: if_splits prod.splits bool.splits)

lemma consumeTransmissionBudget_taken:
  "consumeTransmissionBudget b = (True, b') \<Longrightarrow> \<not> js_leq (bk_maxRequests b) (jsint (bk_sentRequestCount b)) \<and>
     (\<exists>b1. reserve_lane 1 b = (True, b1) \<and> b' = b1\<lparr>bk_sentRequestCount := bk_sentRequestCount b1 + 1\<rparr>)"
  by (auto simp: consumeTransmissionBudget_def split: if_splits prod.splits bool.splits)

text \<open>
  \<open>approved b b'\<close>: one request is charged for a decision with a fresh number, whose binding, if it has one, is pending.
\<close>

definition fresh_binding :: "bound_operation \<Rightarrow> bool" where
  "fresh_binding c \<longleftrightarrow> \<not> bo_consumed c \<and> bo_checkedAt c = None"

definition approved :: "nat \<Rightarrow> broker \<Rightarrow> broker \<Rightarrow> bool" where
  "approved k b b' \<longleftrightarrow> (\<exists>b2 bound. charged 1 b b2 \<and> bk_nextDecision b \<le> k \<and> pred_option fresh_binding bound \<and>
     b' = b2\<lparr>bk_nextDecision := k + 1, bk_bindings := (case bound of None \<Rightarrow> bk_bindings b2 | Some c \<Rightarrow> (bk_bindings b2)(k \<mapsto> c))\<rparr>)"

lemma charged_quiet: "charged n b b1 \<Longrightarrow> quiet b1 b2 \<Longrightarrow> charged n b b2"
  by (auto simp: charged_def intro: quiet_trans) (simp add: quiet_def)

lemma quiet_charged: "quiet b b1 \<Longrightarrow> charged n b1 b2 \<Longrightarrow> charged n b b2"
  by (auto simp: charged_def intro: quiet_trans) (simp add: quiet_def)

lemma quiet_approved: "quiet b b1 \<Longrightarrow> approved k b1 b2 \<Longrightarrow> approved k b b2"
proof -
  assume q: "quiet b b1" and a: "approved k b1 b2"
  have "bk_nextDecision b \<le> bk_nextDecision b1" using q by (simp add: quiet_def)
  moreover obtain c bound where "charged 1 b1 c" "bk_nextDecision b1 \<le> k" "pred_option fresh_binding bound"
    "b2 = c\<lparr>bk_nextDecision := k + 1, bk_bindings := (case bound of None \<Rightarrow> bk_bindings c | Some c' \<Rightarrow> (bk_bindings c)(k \<mapsto> c'))\<rparr>"
    using a unfolding approved_def by blast
  ultimately show ?thesis using quiet_charged [OF q] unfolding approved_def by (metis order_trans)
qed

lemma charged_reservation:
  assumes x: "reserve_browser rt tk nurl verb captured b = (Inr bound, b1)" and c: "consumeTransmissionBudget b1 = (True, b2)"
  shows "charged 1 b b2"
proof -
  note f = reserve_browser_facts [OF x]
  obtain l where l: "reserve_lane 1 b1 = (True, l)" "b2 = l\<lparr>bk_sentRequestCount := bk_sentRequestCount l + 1\<rparr>"
    and room: "\<not> js_leq (bk_maxRequests b1) (jsint (bk_sentRequestCount b1))"
    using consumeTransmissionBudget_taken [OF c] by blast
  have m: "bk_maxRequests b1 = bk_maxRequests b" using f(1) by (simp add: quiet_def)
  show ?thesis unfolding l(2)
    by (rule charge_lane_and_broker [OF f(1,2,3) f(6) [OF refl] l(1)]) (use room m f(3) sent_below in auto)
qed

lemma fresh_reservation:
  assumes "reserve_browser rt tk nurl verb captured b = (Inr bound, b1)" "pred_option fresh_binding captured"
  shows "pred_option fresh_binding bound"
proof (cases bound)
  case (Some y)
  then obtain c0 p where "captured = Some c0" "y = c0\<lparr>bo_permit := p\<rparr>" using reserve_browser_facts(7) [OF assms(1) refl Some] by blast
  then show ?thesis using assms(2) Some by (simp add: fresh_binding_def)
qed simp

lemma refusals:
  "\<not> bd_allowed (fst (deny_browser n w v b))" "\<not> bd_allowed (fst (recordBrowserPolicyBlock r why b))"
  "\<not> bd_allowed (fst (browser_event_exhausted r b))" "\<not> bd_allowed (fst (fixedBrowserDenial stage b))"
  by (auto simp: recordBrowserPolicyBlock_def browser_event_exhausted_def fixedBrowserDenial_def deny_browser_def Let_def split: prod.splits option.splits)

definition refused_or_approved :: "broker \<Rightarrow> browser_decision \<times> broker \<Rightarrow> bool" where
  "refused_or_approved b res \<longleftrightarrow>
     \<not> bd_allowed (fst res) \<and> quiet b (snd res) \<or> bd_allowed (fst res) \<and> approved (bd_id (fst res)) b (snd res)"

lemma refused_or_approvedI:
  "quiet b b1 \<Longrightarrow> refused_or_approved b (deny_browser n w v (browser_audit r a s b1))"
  "quiet b b1 \<Longrightarrow> refused_or_approved b (recordBrowserPolicyBlock r why b1)"
  "quiet b b1 \<Longrightarrow> refused_or_approved b (browser_event_exhausted r b1)"
  "quiet b b1 \<Longrightarrow> refused_or_approved b (fixedBrowserDenial stage b1)"
  "quiet b b1 \<Longrightarrow> refused_or_approved b1 res \<Longrightarrow> refused_or_approved b res"
proof -
  show "refused_or_approved b res" if "quiet b b1" "refused_or_approved b1 res"
    using that(2) quiet_trans [OF that(1)] quiet_approved [OF that(1)] unfolding refused_or_approved_def by blast
qed (simp_all add: refused_or_approved_def refusals quiet_trans [OF _ quiet_trans [OF quiet_records(2) quiet_records(3)]]
      quiet_trans [OF _ quiet_recordBrowserPolicyBlock] quiet_trans [OF _ quiet_browser_event_exhausted] quiet_trans [OF _ quiet_fixedBrowserDenial])

lemma approve_browser_cases:
  assumes "pred_option fresh_binding captured"
  shows "refused_or_approved b (approve_browser rt tk r verb captured events reason b)"
proof -
  let ?s = "decide rt (bk_matcher b) (tk_scope tk) (scopeUrlForBrowserRequest rt r) verb (map_option bo_body captured)"
  show ?thesis
  proof (cases "if sd_allowed ?s then sd_normalizedUrl ?s else None")
    case None
    then show ?thesis unfolding approve_browser_def Let_def by (simp add: refused_or_approvedI(1) [OF quiet_refl])
  next
    case (Some nurl)
    obtain x b1 where x: "reserve_browser rt tk nurl verb captured b = (x, b1)" by (rule prod.exhaust)
    note q1 = reserve_browser_facts(1) [OF x]
    show ?thesis
    proof (cases x)
      case (Inl e)
      then show ?thesis using Some x unfolding approve_browser_def Let_def by (simp add: refused_or_approvedI(2) [OF q1])
    next
      case (Inr bound)
      obtain ok b2 where c: "consumeTransmissionBudget b1 = (ok, b2)" by (rule prod.exhaust)
      show ?thesis
      proof (cases ok)
        case False
        then have "quiet b b2" using quiet_trans [OF q1 consumeTransmissionBudget_refused] c by simp
        then show ?thesis using Some x Inr c False unfolding approve_browser_def Let_def by (simp add: refused_or_approvedI(1))
      next
        case True
        let ?b3 = "browser_audit r AuditBrowserNetworkScheduled reason b2"
        have x': "reserve_browser rt tk nurl verb captured b = (Inr bound, b1)" and c': "consumeTransmissionBudget b1 = (True, b2)"
          using x Inr c True by simp_all
        have ch: "charged 1 b ?b3" by (rule charged_quiet [OF charged_reservation [OF x' c'] quiet_records(2)])
        then have k: "bk_nextDecision b \<le> bk_nextDecision ?b3" by (simp add: charged_def quiet_def)
        have fr: "pred_option fresh_binding bound" by (rule fresh_reservation [OF x' assms])
        have "approved (bk_nextDecision ?b3) b (?b3\<lparr>bk_nextDecision := bk_nextDecision ?b3 + 1,
             bk_bindings := (case bound of None \<Rightarrow> bk_bindings ?b3 | Some c \<Rightarrow> (bk_bindings ?b3)(bk_nextDecision ?b3 \<mapsto> c))\<rparr>)"
          unfolding approved_def using ch k fr by blast
        then show ?thesis using Some x Inr c True unfolding approve_browser_def Let_def by (simp add: refused_or_approved_def)
      qed
    qed
  qed
qed

lemma captured_fresh: "pred_option fresh_binding (Option.bind src (\<lambda>s. captureBrowserSource rt r s login b))"
  by (cases src) (simp_all add: captureBrowserSource_def Let_def fresh_binding_def split: option.splits)

lemma evaluateBrowserRequest_cases: "refused_or_approved b (evaluateBrowserRequest rt tk r src b)"
proof -
  obtain e b1 where e: "consumeBrowserPolicyEvent b = (e, b1)" by (rule prod.exhaust)
  then have q: "quiet b b1" using quiet_records(6) [of b] by simp
  obtain c where c: "Option.bind src (\<lambda>s. captureBrowserSource rt r s False b) = c" by blast
  then have "pred_option fresh_binding c" using captured_fresh by blast
  note rs = refused_or_approvedI(5) [OF q approve_browser_cases [OF this]] refused_or_approvedI(1,3) [OF q] refused_or_approvedI(2,4) [OF quiet_refl]
  show ?thesis
    unfolding evaluateBrowserRequest_def Let_def e c by (simp add: rs split: option.split)
qed

lemma evaluateBrowserLoginRequest_cases: "refused_or_approved b (evaluateBrowserLoginRequest rt tk r src b)"
proof -
  obtain e b1 where e: "consumeBrowserPolicyEvent b = (e, b1)" by (rule prod.exhaust)
  then have q: "quiet b b1" using quiet_records(6) [of b] by simp
  obtain c where c: "Option.bind src (\<lambda>s. captureBrowserSource rt r s True b) = c" by blast
  then have "pred_option fresh_binding c" using captured_fresh by blast
  note rs = refused_or_approvedI(5) [OF q approve_browser_cases [OF this]] refused_or_approvedI(1,3) [OF q] refused_or_approvedI(2,4) [OF quiet_refl]
  show ?thesis
    unfolding evaluateBrowserLoginRequest_def Let_def e c by (simp add: rs evaluateBrowserRequest_cases split: option.split)
qed

end
