(* ===== verification/RC_BrokerRuns.thy ===== *)
theory RC_BrokerRuns
  imports RC_BrokerFacts
begin

text \<open>
  Runs of the request broker: its operations in any order, interleaved with the operations of the peers that share the
  guard and the ledger. The invariant \<open>broker_ok\<close> is kept by every step; the properties of the broker follow from it.
\<close>

section \<open>Bound operations\<close>

lemma bound_check_authorized:
  assumes "checkBoundBrowserOperation rt tk bo body b = BoundPermitted"
  shows "it_authorized rt (bk_matcher b) (bound_initiation tk k bo)" "\<not> tk_aborted tk"
proof -
  let ?s = "decide rt (bk_matcher b) (tk_scope tk) (bo_url bo) (bo_method bo) (Some body)"
  have c: "sd_allowed ?s" "\<not> tk_aborted tk"
    "\<And>g. sm_authorization (bk_matcher b) = Some g \<Longrightarrow> check (runtime.truncate rt) g (tk_check tk) (bo_url bo) (bo_method bo) (Some body) = None"
    "\<And>p. bk_policy b = Some p \<Longrightarrow> pr_authenticationPermitted p \<or> (\<forall>h \<in> set (bo_headers bo). isPublicBrowserHeader (fst h))"
    using assms by (auto simp: checkBoundBrowserOperation_def Let_def list_ex_iff split: if_splits option.splits)
  show "\<not> tk_aborted tk" by (rule c(2))
  have "(\<exists>u. rt_newURL rt (bo_url bo) = Some u \<and> contract_approves (gd_plan g) p (gd_startedAt g) (tk_check tk) u (bo_method bo)) \<and>
      (pr_authenticationPermitted p \<or> (\<forall>h \<in> set (bo_headers bo). isPublicBrowserHeader (fst h)))"
    if "sm_authorization (bk_matcher b) = Some g" "requestPolicy (gd_plan g) = Some p" for g p
    using check_passed [OF c(3) [OF that(1)] that(2)] c(4) [of p] that by (fastforce simp: bk_policy_def)
  then show "it_authorized rt (bk_matcher b) (bound_initiation tk k bo)"
    using decide_in_scope [OF c(1)] by (auto simp: it_authorized_def bound_initiation_def)
qed

lemma begin_permit_quiet: "quiet b (snd (begin_permit rt tk bo body b))"
  by (auto simp: begin_permit_def quiet_refl beginReservedBrowserAttempt_advances intro!: quiet_guard split: option.splits prod.splits)

lemma begin_permit_bindings: "bk_bindings (snd (begin_permit rt tk bo body b)) = bk_bindings b"
  by (auto simp: begin_permit_def with_guard_def split: option.splits prod.splits)

section \<open>The invariant\<close>

definition pending_decisions :: "broker \<Rightarrow> nat set" where
  "pending_decisions b = {k. \<exists>bo. bk_bindings b k = Some bo \<and> \<not> bo_consumed bo}"

definition decisions :: "broker \<Rightarrow> nat list" where
  "decisions b = List.map_filter it_decision (bk_initiated b)"

text \<open>Every request that was initiated, and every one a continued route may still initiate, was charged before.\<close>

definition broker_ok :: "url_runtime \<Rightarrow> scope_matcher \<Rightarrow> broker \<Rightarrow> bool" where
  "broker_ok rt m b \<longleftrightarrow> same_matcher m (bk_matcher b) \<and> within_budgets b \<and>
     charges_cover b (int (length (bk_initiated b)) + int (card (pending_decisions b))) \<and>
     (\<forall>i \<in> set (bk_initiated b). it_authorized rt m i) \<and>
     (\<forall>k bo tk. bk_bindings b k = Some bo \<longrightarrow> bo_checkedAt bo = Some tk \<longrightarrow> it_authorized rt m (bound_initiation tk k bo)) \<and>
     dom (bk_bindings b) \<subseteq> {..<bk_nextDecision b} \<and> set (decisions b) \<subseteq> {..<bk_nextDecision b} - pending_decisions b \<and> distinct (decisions b)"

lemma charges_cover_mono: "charges_cover b m \<Longrightarrow> n \<le> m \<Longrightarrow> charges_cover b n"
  by (fastforce simp: charges_cover_def)

lemma pending_finite: "dom (bk_bindings b) \<subseteq> {..<n} \<Longrightarrow> finite (pending_decisions b)"
  by (rule finite_subset [of _ "{..<n}"]) (auto simp: pending_decisions_def)

lemma quiet_pending: "quiet b b' \<Longrightarrow> pending_decisions b' \<subseteq> pending_decisions b"
  unfolding quiet_def pending_decisions_def by blast

lemma broker_ok_quiet:
  assumes "broker_ok rt m b" "quiet b b'"
  shows "broker_ok rt m b'"
proof -
  have fin: "finite (pending_decisions b)" using assms(1) pending_finite unfolding broker_ok_def by blast
  have "card (pending_decisions b') \<le> card (pending_decisions b)" by (rule card_mono [OF fin quiet_pending [OF assms(2)]])
  moreover have i: "bk_initiated b' = bk_initiated b" and d: "decisions b' = decisions b" using assms(2) by (simp_all add: quiet_def decisions_def)
  ultimately have c: "charges_cover b' (int (length (bk_initiated b')) + int (card (pending_decisions b')))"
    using assms charges_cover_mono [of b' "int (length (bk_initiated b)) + int (card (pending_decisions b))"] by (auto simp: broker_ok_def quiet_def)
  have n: "bk_nextDecision b \<le> bk_nextDecision b'" using assms(2) by (simp add: quiet_def)
  have dom: "dom (bk_bindings b') \<subseteq> {..<bk_nextDecision b'}"
  proof
    fix k assume "k \<in> dom (bk_bindings b')"
    then have "k \<in> dom (bk_bindings b)" using assms(2) unfolding quiet_def by blast
    then show "k \<in> {..<bk_nextDecision b'}" using assms(1) n unfolding broker_ok_def by fastforce
  qed
  have chk: "it_authorized rt m (bound_initiation tk k bo)" if bd: "bk_bindings b' k = Some bo" and at: "bo_checkedAt bo = Some tk" for k bo tk
  proof -
    obtain bo0 where "bk_bindings b k = Some bo0" "same_request bo0 bo" "bo_checkedAt bo = bo_checkedAt bo0"
      using assms(2) bd unfolding quiet_def by blast
    then show ?thesis using assms(1) at by (auto simp: broker_ok_def same_request_def bound_initiation_def)
  qed
  have "set (decisions b') \<subseteq> {..<bk_nextDecision b'} - pending_decisions b'"
    using assms(1) d n quiet_pending [OF assms(2)] unfolding broker_ok_def by fastforce
  moreover have "same_matcher m (bk_matcher b')" "within_budgets b'"
    using assms same_matcher_trans unfolding broker_ok_def quiet_def by blast+
  ultimately show ?thesis using assms(1) c dom chk i d unfolding broker_ok_def by simp
qed

lemma decisions_initiate: "decisions (initiate is b) = decisions b @ List.map_filter it_decision is"
  by (simp add: decisions_def initiate_def map_filter_def)

lemma pending_initiate: "pending_decisions (initiate is b) = pending_decisions b"
  by (simp add: pending_decisions_def initiate_def)

lemma broker_ok_initiate:
  assumes ok: "broker_ok rt m b" and ch: "charged (int (length is)) b b2" and a: "\<forall>i \<in> set is. it_authorized rt (bk_matcher b) i \<and> it_decision i = None"
  shows "broker_ok rt m (initiate is b2)"
proof -
  have q: "quiet b b2" and cv: "\<And>m. charges_cover b m \<Longrightarrow> charges_cover b2 (m + int (length is))" using ch by (auto simp: charged_def)
  have ok2: "broker_ok rt m b2" by (rule broker_ok_quiet [OF ok q])
  have "card (pending_decisions b2) \<le> card (pending_decisions b)"
    using ok pending_finite quiet_pending [OF q] unfolding broker_ok_def by (blast intro: card_mono)
  moreover have "bk_initiated b2 = bk_initiated b" using q by (simp add: quiet_def)
  ultimately have "charges_cover b2 (int (length (bk_initiated (initiate is b2))) + int (card (pending_decisions b2)))"
    using cv [of "int (length (bk_initiated b)) + int (card (pending_decisions b))"] ok charges_cover_mono [of b2] by (simp add: broker_ok_def initiate_def)
  then have c: "charges_cover (initiate is b2) (int (length (bk_initiated (initiate is b2))) + int (card (pending_decisions (initiate is b2))))"
    by (simp add: pending_initiate) (simp add: charges_cover_def initiate_def)
  have "same_matcher m (bk_matcher b)" using ok by (simp add: broker_ok_def)
  then have a': "\<forall>i \<in> set is. it_authorized rt m i" using a same_matcher_authorized by blast
  have "List.map_filter it_decision is = []" using a by (simp add: map_filter_def filter_empty_conv)
  then show ?thesis using ok2 c a' unfolding broker_ok_def
    by (auto simp: decisions_initiate pending_initiate) (auto simp: initiate_def within_budgets_def)
qed

lemma broker_ok_approved:
  assumes ok: "broker_ok rt m b" and ap: "approved k b b'"
  shows "broker_ok rt m b'"
proof -
  obtain b2 bound where ch: "charged 1 b b2" and k: "bk_nextDecision b \<le> k" and fr: "pred_option fresh_binding bound"
    and b': "b' = b2\<lparr>bk_nextDecision := k + 1, bk_bindings := (case bound of None \<Rightarrow> bk_bindings b2 | Some c \<Rightarrow> (bk_bindings b2)(k \<mapsto> c))\<rparr>"
    using ap unfolding approved_def by blast
  have q: "quiet b b2" using ch by (simp add: charged_def)
  have ok2: "broker_ok rt m b2" by (rule broker_ok_quiet [OF ok q])
  have p: "pending_decisions b2 \<subseteq> pending_decisions b" by (rule quiet_pending [OF q])
  have "dom (bk_bindings b2) \<subseteq> dom (bk_bindings b)" using q unfolding quiet_def by blast
  then have dom: "dom (bk_bindings b2) \<subseteq> {..<k}" using ok k unfolding broker_ok_def by fastforce
  have p': "pending_decisions b' \<subseteq> insert k (pending_decisions b2)" by (auto simp: b' pending_decisions_def split: option.splits if_splits)
  have fin: "finite (pending_decisions b)" using ok pending_finite unfolding broker_ok_def by blast
  have "card (pending_decisions b') \<le> card (insert k (pending_decisions b))" using p p' fin by (intro card_mono) auto
  also have "\<dots> \<le> card (pending_decisions b) + 1" by (metis card_insert_le_m1 card_insert_if fin Suc_eq_plus1 le_add1 order_refl)
  finally have card: "card (pending_decisions b') \<le> card (pending_decisions b) + 1" .
  have i: "bk_initiated b2 = bk_initiated b" using q by (simp add: quiet_def)
  have "charges_cover b2 (int (length (bk_initiated b)) + int (card (pending_decisions b)) + 1)" using ok ch by (simp add: broker_ok_def charged_def)
  then have "charges_cover b2 (int (length (bk_initiated b)) + int (card (pending_decisions b')))" using card by (auto intro: charges_cover_mono)
  then have c: "charges_cover b' (int (length (bk_initiated b')) + int (card (pending_decisions b')))" using i by (simp add: b' charges_cover_def)
  have d: "set (decisions b') \<subseteq> {..<bk_nextDecision b} - pending_decisions b" using ok i by (simp add: broker_ok_def decisions_def b')
  moreover have nd: "bk_nextDecision b' = k + 1" by (simp add: b')
  ultimately have "set (decisions b') \<subseteq> {..<bk_nextDecision b'} - pending_decisions b'" using p p' k by fastforce
  moreover have "dom (bk_bindings b') \<subseteq> {..<bk_nextDecision b'}" using dom by (cases bound) (auto simp: b')
  moreover have "\<forall>k bo tk. bk_bindings b' k = Some bo \<longrightarrow> bo_checkedAt bo = Some tk \<longrightarrow> it_authorized rt m (bound_initiation tk k bo)"
    using ok2 fr by (cases bound) (auto simp: b' broker_ok_def fresh_binding_def)
  ultimately show ?thesis using ok2 c unfolding broker_ok_def by (simp add: b' within_budgets_def decisions_def)
qed

lemma broker_ok_checked:
  assumes ok: "broker_ok rt m b" and bd: "bk_bindings b k = Some bo" and a: "it_authorized rt (bk_matcher b) (bound_initiation tk k bo)"
  shows "broker_ok rt m (set_binding k (bo\<lparr>bo_continued := True, bo_checkedAt := Some tk\<rparr>) b)" (is "broker_ok rt m ?b")
proof -
  have "pending_decisions ?b = pending_decisions b" using bd by (auto simp: pending_decisions_def set_binding_def split: if_splits)
  moreover have "decisions ?b = decisions b" by (simp add: decisions_def set_binding_def)
  moreover have "it_authorized rt m (bound_initiation tk k (bo\<lparr>bo_continued := True, bo_checkedAt := Some tk\<rparr>))"
    using a ok same_matcher_authorized by (auto simp: broker_ok_def bound_initiation_def)
  then have "\<forall>k bo tk. bk_bindings ?b k = Some bo \<longrightarrow> bo_checkedAt bo = Some tk \<longrightarrow> it_authorized rt m (bound_initiation tk k bo)"
    using ok by (auto simp: broker_ok_def set_binding_def split: if_splits)
  moreover have "dom (bk_bindings ?b) = dom (bk_bindings b)" using bd by (auto simp: set_binding_def)
  moreover have "charges_cover ?b n \<longleftrightarrow> charges_cover b n" "within_budgets ?b \<longleftrightarrow> within_budgets b" for n
    by (simp_all add: charges_cover_def within_budgets_def set_binding_def)
  ultimately show ?thesis using ok unfolding broker_ok_def by (simp add: set_binding_def)
qed

lemma broker_ok_consumed:
  assumes ok: "broker_ok rt m b" and bd: "bk_bindings b k = Some bo" "\<not> bo_consumed bo"
    and a: "it_authorized rt m (bound_initiation tk k bo)" and q: "quiet (set_binding k (bo\<lparr>bo_consumed := True\<rparr>) b) b2"
  shows "broker_ok rt m (initiate [bound_initiation tk k bo] b2)"
proof -
  let ?b1 = "set_binding k (bo\<lparr>bo_consumed := True\<rparr>) b" and ?i = "bound_initiation tk k bo"
  have q1: "quiet b ?b1" by (rule quiet_update [OF bd(1)]) (simp_all add: same_request_def)
  have ok2: "broker_ok rt m b2" by (rule broker_ok_quiet [OF broker_ok_quiet [OF ok q1] q])
  have p1: "pending_decisions ?b1 = pending_decisions b - {k}" by (auto simp: pending_decisions_def set_binding_def split: if_splits)
  have kp: "k \<in> pending_decisions b" using bd by (simp add: pending_decisions_def)
  have fin: "finite (pending_decisions b)" using ok pending_finite unfolding broker_ok_def by blast
  have "card (pending_decisions b2) \<le> card (pending_decisions b - {k})" using quiet_pending [OF q] p1 fin by (intro card_mono) auto
  then have card: "card (pending_decisions b2) + 1 \<le> card (pending_decisions b)" using kp fin by (metis Suc_eq_plus1 Suc_le_mono card.remove)
  have i: "bk_initiated b2 = bk_initiated b" using quiet_trans [OF q1 q] by (simp add: quiet_def)
  have "charges_cover b2 (int (length (bk_initiated b)) + int (card (pending_decisions b)))" using quiet_trans [OF q1 q] ok by (simp add: broker_ok_def quiet_def)
  then have "charges_cover b2 (int (length (bk_initiated (initiate [?i] b2))) + int (card (pending_decisions b2)))"
    using card i by (auto simp: initiate_def intro: charges_cover_mono)
  then have c: "charges_cover (initiate [?i] b2) (int (length (bk_initiated (initiate [?i] b2))) + int (card (pending_decisions (initiate [?i] b2))))"
    by (simp add: pending_initiate) (simp add: charges_cover_def initiate_def)
  have d: "decisions (initiate [?i] b2) = decisions b @ [k]"
    using i by (simp add: decisions_initiate) (simp add: decisions_def bound_initiation_def map_filter_def)
  have "k \<notin> set (decisions b)" "k < bk_nextDecision b" using ok kp bd(1) unfolding broker_ok_def by blast+
  moreover have "bk_nextDecision b \<le> bk_nextDecision b2" using quiet_trans [OF q1 q] by (simp add: quiet_def)
  moreover have "k \<notin> pending_decisions b2" using quiet_pending [OF q] p1 by blast
  moreover have "decisions b2 = decisions b" using i by (simp add: decisions_def)
  ultimately have "distinct (decisions (initiate [?i] b2))" "set (decisions (initiate [?i] b2)) \<subseteq> {..<bk_nextDecision b2} - pending_decisions b2"
    using ok ok2 d unfolding broker_ok_def by auto
  then show ?thesis using ok2 c a unfolding broker_ok_def
    by (simp add: pending_initiate) (simp add: initiate_def within_budgets_def)
qed

section \<open>Operations and runs\<close>

text \<open>
  The calls on a broker that change state, one constructor each, and those of its peers: another holder of the same guard
  (\<open>PeerGuard\<close>) and the other users of the scan ledger.
\<close>

datatype broker_op =
    OpCommit tick http_request string
  | OpRawPair tick http_request string
  | OpEvaluate tick browser_request "native_source option"
  | OpEvaluateLogin tick browser_request "native_source option"
  | OpPolicyBlock browser_request string
  | OpRegister nat nat nat nat
  | OpCancel nat
  | OpDispatch tick nat nat native_request nat
  | OpAcknowledged nat
  | OpWaitFailed nat
  | OpProxyBegin tick nat nat proxy_request
  | OpObserve nat
  | OpGetIntent string string
  | OpEventLimit int
  | OpAudit audit_entry
  | PeerGuard guard_op
  | PeerReserve lane jsnum
  | PeerAcquire nat lane
  | PeerRelease
  | PeerAbortWait nat lane
  | PeerPublish bool

definition on_ledger :: "(nat scan_ledger \<Rightarrow> nat scan_ledger) \<Rightarrow> broker \<Rightarrow> broker" where
  "on_ledger f b = (case bk_ledger b of None \<Rightarrow> b | Some l \<Rightarrow> b\<lparr>bk_ledger := Some (f l)\<rparr>)"

fun broker_exec :: "url_runtime \<Rightarrow> broker_op \<Rightarrow> broker \<Rightarrow> broker" where
  "broker_exec rt (OpCommit tk req url) b = snd (commitHttpInitiation rt tk req url b)"
| "broker_exec rt (OpRawPair tk post url) b = snd (commitRawPair rt tk post url b)"
| "broker_exec rt (OpEvaluate tk r src) b = snd (evaluateBrowserRequest rt tk r src b)"
| "broker_exec rt (OpEvaluateLogin tk r src) b = snd (evaluateBrowserLoginRequest rt tk r src b)"
| "broker_exec rt (OpPolicyBlock r why) b = snd (recordBrowserPolicyBlock r why b)"
| "broker_exec rt (OpRegister k route request session) b = snd (registerBrowserDecision k route request session b)"
| "broker_exec rt (OpCancel k) b = cancelBrowserDecision k b"
| "broker_exec rt (OpDispatch tk k route native session) b = snd (dispatchBrowserRoute rt tk k route native session b)"
| "broker_exec rt (OpAcknowledged k) b = browser_acknowledged rt k b"
| "broker_exec rt (OpWaitFailed k) b = browser_wait_failed k b"
| "broker_exec rt (OpProxyBegin tk k session actual) b = snd (beginBrowserProxyRequest rt tk k session actual b)"
| "broker_exec rt (OpObserve k) b = observeBrowserInitiation k b"
| "broker_exec rt (OpGetIntent verb url) b = recordOrdinaryGetIntent rt verb url b"
| "broker_exec rt (OpEventLimit n) b = setBrowserPolicyEventLimit n b"
| "broker_exec rt (OpAudit e) b = recordAudit e b"
| "broker_exec rt (PeerGuard x) b =
     (case sm_authorization (bk_matcher b) of None \<Rightarrow> b | Some g \<Rightarrow> with_guard (guard_exec (runtime.truncate rt) g x) b)"
| "broker_exec rt (PeerReserve lane n) b = on_ledger (\<lambda>l. fst (tryReserve l lane n)) b"
| "broker_exec rt (PeerAcquire t lane) b = on_ledger (\<lambda>l. fst (ledger_acquire l (t, lane))) b"
| "broker_exec rt PeerRelease b = on_ledger (\<lambda>l. fst (ledger_release l)) b"
| "broker_exec rt (PeerAbortWait t lane) b = on_ledger (\<lambda>l. ledger_abort_waiter l (t, lane)) b"
| "broker_exec rt (PeerPublish blocked) b = on_ledger (publish blocked) b"

abbreviation broker_run :: "url_runtime \<Rightarrow> broker_op list \<Rightarrow> broker \<Rightarrow> broker" where
  "broker_run rt \<equiv> fold (broker_exec rt)"

lemma on_ledger_quiet:
  assumes "\<And>l. same_limits l (f l) \<and> lane_spent l (bk_lane b) \<le> lane_spent (f l) (bk_lane b) \<and> (ledger_within l \<longrightarrow> ledger_within (f l))"
  shows "quiet b (on_ledger f b)"
  using assms by (auto simp: on_ledger_def quiet_refl intro!: quiet_ledger split: option.split)

lemma slots_quiet:
  "quiet b (on_ledger (\<lambda>l. fst (ledger_acquire l w)) b)" "quiet b (on_ledger (\<lambda>l. fst (ledger_release l)) b)"
  "quiet b (on_ledger (\<lambda>l. ledger_abort_waiter l w) b)" "quiet b (on_ledger (publish blocked) b)"
  by (rule on_ledger_quiet; simp add: ledger_acquire_def ledger_release_def ledger_abort_waiter_def Let_def same_limits_def lane_spent_def ledger_within_def
        split: option.split lane.split)+

lemma refused_or_approved_ok: "broker_ok rt m b \<Longrightarrow> refused_or_approved b res \<Longrightarrow> broker_ok rt m (snd res)"
  unfolding refused_or_approved_def using broker_ok_quiet broker_ok_approved by blast

lemma commitHttpInitiation_ok:
  assumes "broker_ok rt m b"
  shows "broker_ok rt m (snd (commitHttpInitiation rt tk req url b))"
proof -
  obtain r b' where c: "commitHttpInitiation rt tk req url b = (r, b')" by (rule prod.exhaust)
  have "it_decision (initiation_of tk req url) = None" by (simp add: initiation_of_def)
  then show ?thesis
    using commitHttpInitiation_cases [OF c] broker_ok_quiet [OF assms] broker_ok_initiate [OF assms, of "[initiation_of tk req url]"] c by auto
qed

lemma commitRawPair_ok:
  assumes "broker_ok rt m b"
  shows "broker_ok rt m (snd (commitRawPair rt tk post url b))"
proof -
  obtain r b' where c: "commitRawPair rt tk post url b = (r, b')" by (rule prod.exhaust)
  show ?thesis
    using commitRawPair_cases [OF c] broker_ok_quiet [OF assms] broker_ok_initiate [OF assms, of "[_, _]"] c by fastforce
qed

lemma dispatchBrowserRoute_ok:
  assumes "broker_ok rt m b"
  shows "broker_ok rt m (snd (dispatchBrowserRoute rt tk k route native session b))"
proof (cases "bk_bindings b k")
  case (Some bo)
  show ?thesis
    using broker_ok_quiet [OF assms quiet_route_refused] broker_ok_checked [OF assms Some bound_check_authorized(1)]
    by (auto simp: dispatchBrowserRoute_def Some split: bound_check.splits)
qed (simp add: dispatchBrowserRoute_def broker_ok_quiet [OF assms quiet_route_refused])

lemma beginBrowserProxyRequest_ok:
  assumes ok: "broker_ok rt m b"
  shows "broker_ok rt m (snd (beginBrowserProxyRequest rt tk k session actual b))"
proof (cases "bk_bindings b k")
  case bd: (Some bo)
  let ?b1 = "set_binding k (bo\<lparr>bo_consumed := True\<rparr>) b"
  have q1: "quiet b ?b1" by (rule quiet_update [OF bd]) (simp_all add: same_request_def)
  have rf: "quiet c (cancelBrowserDecision k (snd (fixedBrowserDenial w c)))" for c w
    by (rule quiet_trans [OF quiet_fixedBrowserDenial quiet_cancel])
  obtain p b2 where p: "begin_permit rt tk bo (px_body actual) ?b1 = (p, b2)" by (rule prod.exhaust)
  then have q2: "quiet ?b1 b2" using begin_permit_quiet [of ?b1 rt tk bo "px_body actual"] by simp
  have a: "it_authorized rt m (bound_initiation tk k bo)" if "checkBoundBrowserOperation rt tk bo (px_body actual) ?b1 = BoundPermitted"
    using bound_check_authorized(1) [OF that, of k] ok same_matcher_authorized by (auto simp: broker_ok_def set_binding_def)
  have "\<not> bo_consumed bo" if "matchesBrowserProxyRequest rt k session actual b" using that by (simp add: matchesBrowserProxyRequest_def bd)
  then have c: "broker_ok rt m (initiate [bound_initiation tk k bo] b2)"
    if "matchesBrowserProxyRequest rt k session actual b" "checkBoundBrowserOperation rt tk bo (px_body actual) ?b1 = BoundPermitted"
    using broker_ok_consumed [OF ok bd _ a q2] that by blast
  show ?thesis
    using ok broker_ok_quiet [OF ok quiet_trans [OF q1 rf]] broker_ok_quiet [OF ok quiet_trans [OF quiet_trans [OF q1 q2] rf]] c
    by (simp add: beginBrowserProxyRequest_def bd Let_def p split: bound_check.split bool.split)
qed (simp add: beginBrowserProxyRequest_def ok)

lemma browser_acknowledged_ok:
  assumes ok: "broker_ok rt m b"
  shows "broker_ok rt m (browser_acknowledged rt k b)"
proof (cases "bk_bindings b k")
  case bd: (Some bo)
  let ?b1 = "set_binding k (bo\<lparr>bo_consumed := True\<rparr>) b"
  have q1: "quiet b ?b1" by (rule quiet_update [OF bd]) (simp_all add: same_request_def)
  have i: "initiate [] ?b1 = ?b1" by (simp add: initiate_def)
  have a: "it_authorized rt m (bound_initiation tk k bo)" if "bo_checkedAt bo = Some tk" for tk using ok bd that by (simp add: broker_ok_def)
  show ?thesis
    using ok broker_ok_quiet [OF broker_ok_quiet [OF ok q1] quiet_observe] broker_ok_quiet [OF broker_ok_consumed [OF ok bd _ a quiet_refl] quiet_observe]
    by (simp add: browser_acknowledged_def bd i split: option.split)
qed (simp add: browser_acknowledged_def ok)

lemma broker_exec_ok: "broker_ok rt m b \<Longrightarrow> broker_ok rt m (broker_exec rt x b)"
proof (cases x)
  case (PeerGuard y)
  assume "broker_ok rt m b"
  then show ?thesis
    using broker_ok_quiet quiet_guard [OF _ guard_exec_advances] by (auto simp: PeerGuard split: option.split)
next
  case (PeerReserve lane n)
  assume "broker_ok rt m b"
  then show ?thesis
    using broker_ok_quiet [OF _ on_ledger_quiet] tryReserve_facts(1,2,3) [OF surjective_pairing] by (simp add: PeerReserve)
qed (simp_all add: commitHttpInitiation_ok commitRawPair_ok dispatchBrowserRoute_ok beginBrowserProxyRequest_ok browser_acknowledged_ok
      refused_or_approved_ok [OF _ evaluateBrowserRequest_cases] refused_or_approved_ok [OF _ evaluateBrowserLoginRequest_cases]
      broker_ok_quiet [OF _ quiet_recordBrowserPolicyBlock] broker_ok_quiet [OF _ quiet_register] broker_ok_quiet [OF _ quiet_cancel]
      browser_wait_failed_def broker_ok_quiet [OF _ quiet_route_refused] broker_ok_quiet [OF _ quiet_observe] broker_ok_quiet [OF _ quiet_records(4)]
      broker_ok_quiet [OF _ quiet_records(5)] broker_ok_quiet [OF _ quiet_records(1)] broker_ok_quiet [OF _ slots_quiet(1)]
      broker_ok_quiet [OF _ slots_quiet(2)] broker_ok_quiet [OF _ slots_quiet(3)] broker_ok_quiet [OF _ slots_quiet(4)])

lemma broker_run_ok: "broker_ok rt m b \<Longrightarrow> broker_ok rt m (broker_run rt xs b)"
  by (induction xs arbitrary: b) (simp_all add: broker_exec_ok)

section \<open>Properties\<close>

text \<open>The counters a broker starts with: a limit that is a number of requests, and peers within their own limits.\<close>

definition budgets_open :: "jsnum \<Rightarrow> scope_matcher \<Rightarrow> (nat scan_ledger \<times> lane) option \<Rightarrow> bool" where
  "budgets_open maxRequests m coordination \<longleftrightarrow> js_leq (jsint 0) maxRequests \<and>
     (case coordination of None \<Rightarrow> True | Some (l, lane) \<Rightarrow> ledger_within l \<and> 0 \<le> lane_spent l lane) \<and>
     (case sm_authorization m of None \<Rightarrow> True
      | Some g \<Rightarrow> guard_governed g \<longrightarrow> 0 \<le> gd_transmitted g \<and> gd_transmitted g \<le> guard_limit g)"

definition lane_limit :: "nat scan_ledger \<Rightarrow> lane \<Rightarrow> int" where
  "lane_limit l lane = (case lane of Scan \<Rightarrow> sl_scanCapacity l | Cleanup \<Rightarrow> sl_cleanupReservedRequests l)"

lemma new_broker_ok:
  assumes "budgets_open maxRequests m coordination"
  shows "broker_ok rt m (new_broker maxRequests mut del race digest m coordination)"
proof -
  let ?b = "new_broker maxRequests mut del race digest m coordination"
  have e: "pending_decisions ?b = {}" "decisions ?b = []" by (simp_all add: pending_decisions_def decisions_def new_broker_def map_filter_def)
  have "js_leq (jsint 0) (js_ceil maxRequests)" using assms by (cases maxRequests) (auto simp: budgets_open_def)
  then have "within_budgets ?b" using assms by (auto simp: within_budgets_def new_broker_def budgets_open_def)
  moreover have "charges_cover ?b 0" using assms by (auto simp: charges_cover_def new_broker_def budgets_open_def)
  ultimately show ?thesis by (simp add: broker_ok_def e) (simp add: new_broker_def same_matcher_refl)
qed

lemmas broker_run_new = broker_run_ok [OF new_broker_ok]

text \<open>
  C2: whatever order the operations of a broker and of its peers come in, every request that was initiated, by HTTP, as one of a raw
  pair or by the browser, lies in the declared scope; where a contract governs the scan, the contract approves its URL and verb
  at the moment of its last check, and it carries no header outside the public list unless the contract permits authentication.
\<close>

theorem only_authorized_requests_initiated:
  assumes "budgets_open maxRequests m coordination" "b = broker_run rt xs (new_broker maxRequests mut del race digest m coordination)"
    "i \<in> set (bk_initiated b)"
  shows "in_declared_scope rt m (it_url i) (it_method i) \<and>
    (\<forall>g p. sm_authorization m = Some g \<longrightarrow> requestPolicy (gd_plan g) = Some p \<longrightarrow>
       (\<exists>u. rt_newURL rt (it_url i) = Some u \<and> contract_approves (gd_plan g) p (gd_startedAt g) (tk_check (it_tick i)) u (it_method i)) \<and>
       (pr_authenticationPermitted p \<or> (\<forall>h \<in> set (it_headers i). isPublicBrowserHeader h)))"
  using broker_run_new [OF assms(1), of rt xs mut del race digest] assms(2,3) by (simp add: broker_ok_def it_authorized_def)

text \<open>
  C4: requests are charged before they go out. In every run the number of initiated requests, with those a continued browser route may still
  initiate, is at most the broker's own count, which stays within its limit; at most what is charged to its lane of the
  scan ledger, which stays within the lane; and at most what the contract's guard counts, which stays within the contract.
\<close>

theorem initiations_charged_within_budgets:
  assumes "budgets_open maxRequests m coordination" "b = broker_run rt xs (new_broker maxRequests mut del race digest m coordination)"
    "n = int (length (bk_initiated b)) + int (card (pending_decisions b))"
  shows "n \<le> bk_sentRequestCount b \<and> js_leq (jsint (bk_sentRequestCount b)) (js_ceil (bk_maxRequests b)) \<and>
    (\<forall>l. bk_ledger b = Some l \<longrightarrow> n \<le> lane_spent l (bk_lane b) \<and> lane_spent l (bk_lane b) \<le> lane_limit l (bk_lane b)) \<and>
    (\<forall>g. sm_authorization (bk_matcher b) = Some g \<longrightarrow> guard_governed g \<longrightarrow> n \<le> gd_transmitted g \<and> gd_transmitted g \<le> guard_limit g)"
proof -
  have "charges_cover b n" "within_budgets b" using broker_run_new [OF assms(1), of rt xs mut del race digest] assms(2,3) by (simp_all add: broker_ok_def)
  then show ?thesis by (auto simp: charges_cover_def within_budgets_def ledger_within_def lane_spent_def lane_limit_def split: lane.splits)
qed

text \<open>
  a browser decision lets at most one request out. No two initiated requests belong to the same decision, and the decision of an initiated
  request is no longer pending: a replay of the same route, a second acknowledgement or a proxy request after the
  browser's own initiates nothing.
\<close>

theorem browser_decision_initiates_once:
  assumes "budgets_open maxRequests m coordination" "b = broker_run rt xs (new_broker maxRequests mut del race digest m coordination)"
  shows "distinct (decisions b) \<and> set (decisions b) \<inter> pending_decisions b = {}"
  using broker_run_new [OF assms(1), of rt xs mut del race digest] assms(2) by (auto simp: broker_ok_def)

lemma authorizeFinalHttpAttempt_refused:
  assumes "authorizeFinalHttpAttempt rt tk req url res b = (a, b')" "a \<noteq> AttemptPermitted"
  shows "map_option gd_transmitted (sm_authorization (bk_matcher b')) = map_option gd_transmitted (sm_authorization (bk_matcher b))"
proof (cases "sm_authorization (bk_matcher b)")
  case None
  then show ?thesis using assms by (auto simp: authorizeFinalHttpAttempt_def Let_def split: if_splits)
next
  case (Some g)
  then show ?thesis using assms reserve_denied
    by (auto simp: authorizeFinalHttpAttempt_def Let_def with_guard_def split: if_splits option.splits prod.splits)
qed

text \<open>
  the commit of an HTTP attempt is all or nothing. When it does not return, nothing was initiated and neither the broker's count nor the ledger nor the
  guard's count of transmitted requests changed; when it returns, exactly this request was initiated and each of the three counts
  that exists went up by one.
\<close>

theorem commit_charges_exactly_what_goes_out:
  assumes "commitHttpInitiation rt tk req url b = (r, b')"
  shows "(r \<noteq> Committed \<longrightarrow> bk_initiated b' = bk_initiated b \<and> bk_sentRequestCount b' = bk_sentRequestCount b \<and> bk_ledger b' = bk_ledger b \<and>
      map_option gd_transmitted (sm_authorization (bk_matcher b')) = map_option gd_transmitted (sm_authorization (bk_matcher b))) \<and>
    (r = Committed \<longrightarrow> bk_initiated b' = bk_initiated b @ [initiation_of tk req url] \<and> bk_sentRequestCount b' = bk_sentRequestCount b + 1 \<and>
      (\<forall>l. bk_ledger b = Some l \<longrightarrow> (\<exists>l'. bk_ledger b' = Some l' \<and> lane_spent l' (bk_lane b) = lane_spent l (bk_lane b) + 1)) \<and>
      (\<forall>g. sm_authorization (bk_matcher b) = Some g \<longrightarrow> guard_governed g \<longrightarrow>
         (\<exists>g'. sm_authorization (bk_matcher b') = Some g' \<and> gd_transmitted g' = gd_transmitted g + 1)))"
proof (cases "tk_aborted tk \<or> js_leq (bk_maxRequests b) (jsint (bk_sentRequestCount b)) \<or> lane_full b 1")
  case True
  then show ?thesis using assms by (auto simp: commitHttpInitiation_def split: if_splits)
next
  case False
  obtain a b1 where a: "authorizeFinalHttpAttempt rt tk req url True b = (a, b1)" by (rule prod.exhaust)
  obtain ok b2 where l: "reserve_lane 1 b1 = (ok, b2)" by (rule prod.exhaust)
  have q: "bk_ledger b1 = bk_ledger b" "bk_sentRequestCount b1 = bk_sentRequestCount b" "bk_initiated b1 = bk_initiated b" "bk_lane b1 = bk_lane b"
    using authorizeFinalHttpAttempt_quiet [OF a] by (auto simp: quiet_def)
  note f = reserve_lane_facts [OF l] and i2 = reserve_lane_quiet [OF l, unfolded quiet_def]
  have ok: "ok" using f(5) False q by (auto simp: lane_full_def split: option.splits)
  show ?thesis
  proof (cases "a = AttemptPermitted")
    case True
    have b': "r = Committed" "b' = initiate [initiation_of tk req url] (b2\<lparr>bk_sentRequestCount := bk_sentRequestCount b2 + 1\<rparr>)"
      using assms False a True l ok by (simp_all add: commitHttpInitiation_def)
    note p = authorizeFinalHttpAttempt_permitted(2) [OF a [unfolded True] TrueI]
    show ?thesis using b' q f(1,2) i2 p f(6) [OF ok] by (auto simp: initiate_def)
  next
    case denied: False
    then have "r \<noteq> Committed \<and> b' = b1" using assms False a by (cases a) (auto simp: commitHttpInitiation_def)
    then show ?thesis using q authorizeFinalHttpAttempt_refused [OF a denied] by simp
  qed
qed

section \<open>An example run\<close>

definition example_tick :: "int \<Rightarrow> tick" where
  "example_tick t = \<lparr>tk_scope = t, tk_check = t, tk_rate = t, tk_aborted = False\<rparr>"

definition example_get :: http_request where
  "example_get = \<lparr>rq_url = ''https://a.io/x'', rq_method = ''GET'', rq_headers = [(''Accept'', ''*'')], rq_body = None, rq_skipCache = False,
     rq_disableRetries = False, rq_disableRedirects = False\<rparr>"

definition governed_broker :: broker where
  "governed_broker = new_broker (jsint 2) False False False id (example_matcher\<lparr>sm_authorization := Some example_guard\<rparr>) (Some (example_ledger, Scan))"

definition open_broker :: broker where
  "open_broker = new_broker (jsint 2) False False False id example_matcher (Some (example_ledger, Scan))"

lemma example_budgets:
  "budgets_open (jsint 2) (example_matcher\<lparr>sm_authorization := Some example_guard\<rparr>) (Some (example_ledger, Scan))"
  "budgets_open (jsint 2) example_matcher (Some (example_ledger, Scan))"
  by code_simp+

definition example_http_ops :: "broker_op list" where
  "example_http_ops = [PeerGuard (OpReserve 15 15 ''https://a.io/y'' ''GET'' None), OpCommit (example_tick 20) example_get ''https://a.io/x'',
     OpCommit (example_tick 30) example_get ''https://b.io/x'']"

definition example_browser_ops :: "broker_op list" where
  "example_browser_ops =
     (let native = \<lparr>nr_id = 4, nr_url = ''https://a.io/x'', nr_method = ''get'', nr_body = []\<rparr>;
          src = \<lparr>ns_route = 3, ns_session = 5, ns_native = native, ns_headers = [(''accept'', ''*'')]\<rparr>;
          r = \<lparr>bq_url = ''https://a.io/x'', bq_method = ''get'', bq_resourceType = ''document'', bq_isRedirect = False\<rparr> in
      [OpEvaluate (example_tick 20) r (Some src), OpRegister 0 3 4 5, OpDispatch (example_tick 21) 0 3 native 5, OpAcknowledged 0,
       OpAcknowledged 0, OpEvaluate (example_tick 22) r (Some src)])"

lemma example_http_initiated:
  "bk_initiated (broker_run example_url_runtime example_http_ops governed_broker) = [initiation_of (example_tick 20) example_get ''https://a.io/x'']"
  by code_simp

lemma example_browser_initiated: "decisions (broker_run example_url_runtime example_browser_ops open_broker) = [0]"
  by code_simp

lemma example_runs:
  "broker_run example_url_runtime example_http_ops governed_broker = broker_run example_url_runtime example_http_ops
     (new_broker (jsint 2) False False False id (example_matcher\<lparr>sm_authorization := Some example_guard\<rparr>) (Some (example_ledger, Scan)))"
  "broker_run example_url_runtime example_browser_ops open_broker = broker_run example_url_runtime example_browser_ops
     (new_broker (jsint 2) False False False id example_matcher (Some (example_ledger, Scan)))"
  by (simp_all only: governed_broker_def open_broker_def)

theorem only_authorized_requests_initiated_witness:
  "in_declared_scope example_url_runtime (example_matcher\<lparr>sm_authorization := Some example_guard\<rparr>) ''https://a.io/x'' ''GET''"
  using only_authorized_requests_initiated [OF example_budgets(1) example_runs(1), of "initiation_of (example_tick 20) example_get ''https://a.io/x''"]
  by (simp add: example_http_initiated) (simp add: initiation_of_def example_get_def)

theorem initiations_charged_within_budgets_witness:
  "1 \<le> bk_sentRequestCount (broker_run example_url_runtime example_http_ops governed_broker)"
  using initiations_charged_within_budgets [OF example_budgets(1) example_runs(1) refl] by (simp add: example_http_initiated)

theorem browser_decision_initiates_once_witness:
  "decisions (broker_run example_url_runtime example_browser_ops open_broker) = [0] \<and>
     0 \<notin> pending_decisions (broker_run example_url_runtime example_browser_ops open_broker)"
  using browser_decision_initiates_once [OF example_budgets(2) example_runs(2)] by (simp add: example_browser_initiated)

theorem commit_charges_exactly_what_goes_out_witness:
  "bk_sentRequestCount (snd (commitHttpInitiation example_url_runtime (example_tick 20) example_get ''https://a.io/x'' governed_broker)) = 1"
proof -
  let ?c = "commitHttpInitiation example_url_runtime (example_tick 20) example_get ''https://a.io/x'' governed_broker"
  have "fst ?c = Committed" by code_simp
  then show ?thesis
    using commit_charges_exactly_what_goes_out [OF surjective_pairing, of example_url_runtime "example_tick 20" example_get "''https://a.io/x''" governed_broker]
    by (simp add: governed_broker_def new_broker_def)
qed

end
