(* ===== verification/RC_BrokerSend.thy ===== *)
theory RC_BrokerSend
  imports RC_BrokerRuns
begin

text \<open>
  The asynchronous side of the broker: \<^verbatim>\<open>send\<close>, \<^verbatim>\<open>sendRequest\<close> and \<^verbatim>\<open>sendWithRedirects\<close> of
  \<^verbatim>\<open>core/http/RequestSafetyBroker.ts\<close>, \<^verbatim>\<open>send\<close> of \<^verbatim>\<open>core/http/HttpClient.ts\<close> and \<^verbatim>\<open>refusedRedirect\<close> of
  \<^verbatim>\<open>core/http/RedirectSafety.ts\<close>. Wherever the code awaits, other calls on the broker and on its peers may run: an environment lists,
  for each such place, the operations that ran there, whether the signal was aborted and what the network answered. Messages are
  kept without the numbers the code interpolates into them; the bodies of responses, their redaction and the consumers a caller may pass are left out.
\<close>

section \<open>Responses\<close>

text \<open>A response, by the fields that decide what the broker does next.\<close>

record http_response =
  rs_requestedUrl :: string
  rs_finalUrl :: string
  rs_method :: string
  rs_statusCode :: "int option"
  rs_redirectChain :: "(int \<times> string) list"
  rs_redirectLocation :: "string option"
  rs_error :: "(string \<times> string) option"

definition skippedResponse :: "http_request \<Rightarrow> string \<Rightarrow> string \<Rightarrow> http_response" where
  "skippedResponse req name message =
     \<lparr>rs_requestedUrl = rq_url req, rs_finalUrl = rq_url req, rs_method = rq_method req, rs_statusCode = None, rs_redirectChain = [],
      rs_redirectLocation = None, rs_error = Some (name, message)\<rparr>"

definition dispatchDeniedResponse :: "string \<Rightarrow> string option \<Rightarrow> http_response" where
  "dispatchDeniedResponse verb reason =
     \<lparr>rs_requestedUrl = ''redacted://dispatch-policy-denied'', rs_finalUrl = ''redacted://dispatch-policy-denied'', rs_method = verb,
      rs_statusCode = None, rs_redirectChain = [], rs_redirectLocation = None,
      rs_error = Some (''TargetAuthorizationDenied'', fixedDispatchDenial reason)\<rparr>"

definition refusedRedirect :: "http_request \<Rightarrow> http_response \<Rightarrow> string \<Rightarrow> string \<Rightarrow> (int \<times> string) list \<Rightarrow> string \<Rightarrow> http_response" where
  "refusedRedirect req response currentUrl nextUrl chain reason =
     response\<lparr>rs_requestedUrl := rq_url req, rs_finalUrl := currentUrl, rs_method := rq_method req, rs_redirectChain := chain,
       rs_redirectLocation := Some nextUrl,
       rs_error := Some (''OutOfScopeRedirect'', ''Redirect blocked by scan-wide broker: '' @ reason @ ''.'')\<rparr>"

definition isMutationMethod :: "string \<Rightarrow> bool" where
  "isMutationMethod verb \<longleftrightarrow> verb = ''POST'' \<or> verb = ''PATCH'' \<or> verb = ''PUT'' \<or> verb = ''DELETE''"

definition isRedirect :: "int option \<Rightarrow> bool" where
  "isRedirect statusCode = (case statusCode of None \<Rightarrow> False | Some s \<Rightarrow> 300 \<le> s \<and> s < 400)"

definition maxRedirects :: nat where
  "maxRedirects = 5"

definition error_name :: "http_response \<Rightarrow> string option" where
  "error_name r = map_option fst (rs_error r)"

definition auditOutcome :: "http_response \<Rightarrow> audit_outcome" where
  "auditOutcome r =
     (if error_name r = Some ''RequestBudgetExceeded'' then AuditBudgetSkipped
      else if error_name r = Some ''OutOfScopeRedirect'' then AuditRedirectScopeSkipped else AuditSent)"

section \<open>The transport\<close>

text \<open>
  What the network does with one transmission: the outcome of the destination's resolution and of the pool, the callbacks that
  announce that the request is about to be written, and the response. A callback finds the transmission's own signal aborted when \<open>st_signal\<close> is an
  error, with which the transmission then ends.
\<close>

record net_response =
  nt_statusCode :: int
  nt_headers :: "(string \<times> header_value) list"
  nt_declaredTooLong :: bool

record request_start =
  st_tick :: tick
  st_signal :: "(string \<times> string) option"
  st_after :: "broker_op list"

record transport_env =
  te_http2Enabled :: bool
  te_pin :: "(string \<times> string) + pinned_destination"
  te_acquire :: "(string \<times> string) option"
  te_before :: "broker_op list"
  te_starts :: "request_start list"
  te_outcome :: "(string \<times> string) + net_response"
  te_aborted :: bool

definition normalizeHeaders :: "(string \<times> header_value) list \<Rightarrow> (string \<times> header_value) list" where
  "normalizeHeaders headers = fold (\<lambda>(k, v). js_map_set (to_lower k) v) headers []"

definition headerValue :: "(string \<times> header_value) list \<Rightarrow> string \<Rightarrow> string option" where
  "headerValue headers name =
     map_option (\<lambda>v. case v of HeaderText s \<Rightarrow> s | HeaderList vs \<Rightarrow> join_with '', '' vs) (map_of headers (to_lower name))"

datatype start_result = StartCancelled | StartFailed "string \<times> string" | StartDone

text \<open>The error a refused initiation ends with, by the message and name of what was thrown.\<close>

definition fixedInitiationError :: "string \<Rightarrow> string \<Rightarrow> string \<times> string" where
  "fixedInitiationError name message =
     (if name = ''RequestBudgetExceeded'' then ''RequestBudgetExceeded'' else ''TargetAuthorizationDenied'',
      if message = ''authorization-budget-exhausted'' then message else ''REQUEST_DISPATCH_POLICY_DENIED'')"

text \<open>The handler \<^verbatim>\<open>onRequestStart\<close>, called for each start in turn; the list is what this transmission initiated.\<close>

fun request_starts ::
    "url_runtime \<Rightarrow> http_request \<Rightarrow> string \<Rightarrow> bool \<Rightarrow> request_start list \<Rightarrow> broker \<Rightarrow> start_result \<times> initiation list \<times> broker" where
  "request_starts rt req url initiated [] b = (StartDone, [], b)"
| "request_starts rt req url initiated (s # ss) b =
     (if initiated then (StartFailed (''TransportReplayBlocked'', ''REQUEST_INTERNAL_REPLAY_BLOCKED''), [], b)
      else if tk_aborted (st_tick s) then (StartCancelled, [], b)
      else case st_signal s of
        Some e \<Rightarrow> (StartFailed e, [], b)
      | None \<Rightarrow>
         (case commitHttpInitiation rt (st_tick s) req url b of
            (CommitCancelled, b1) \<Rightarrow> (StartCancelled, [], b1)
          | (CommitBudgetExceeded, b1) \<Rightarrow>
              (StartFailed (fixedInitiationError ''RequestBudgetExceeded'' ''REQUEST_INITIATION_BUDGET_EXHAUSTED''), [], b1)
          | (CommitDenied reason, b1) \<Rightarrow> (StartFailed (fixedInitiationError ''TargetAuthorizationDenied'' reason), [], b1)
          | (Committed, b1) \<Rightarrow>
             (case request_starts rt req url True ss (broker_run rt (st_after s) b1) of
                (r, own, b2) \<Rightarrow> (r, initiation_of (st_tick s) req url # own, b2))))"

datatype send_result = SendCancelled | SendThrew string | SendResponse http_response

definition transport_failed :: "bool \<Rightarrow> http_request \<Rightarrow> string \<times> string \<Rightarrow> send_result" where
  "transport_failed aborted req e =
     (if aborted then SendCancelled
      else SendResponse \<lparr>rs_requestedUrl = rq_url req, rs_finalUrl = rq_url req, rs_method = rq_method req, rs_statusCode = None,
                         rs_redirectChain = [], rs_redirectLocation = None, rs_error = Some e\<rparr>)"

definition transport_response :: "http_request \<Rightarrow> string \<Rightarrow> (int \<times> string) list \<Rightarrow> net_response \<Rightarrow> http_response" where
  "transport_response req url chain n =
     (let location = headerValue (normalizeHeaders (nt_headers n)) ''location'' in
      \<lparr>rs_requestedUrl = rq_url req, rs_finalUrl = url, rs_method = rq_method req, rs_statusCode = Some (nt_statusCode n),
       rs_redirectChain = chain,
       rs_redirectLocation = (if nt_declaredTooLong n \<or> location = Some [] then None else location),
       rs_error = (if nt_declaredTooLong n then Some (''DeclaredContentLengthExceeded'', []) else None)\<rparr>)"

definition http_send ::
    "url_runtime \<Rightarrow> transport_env \<Rightarrow> http_request \<Rightarrow> string \<Rightarrow> (int \<times> string) list \<Rightarrow> broker \<Rightarrow> send_result \<times> initiation list \<times> broker" where
  "http_send rt te req url chain b =
     (let failed = transport_failed (te_aborted te) req in
      case te_pin te of
        Inl e \<Rightarrow> (failed e, [], b)
      | Inr pin \<Rightarrow>
          if hasExpiringAuthority b \<and> te_http2Enabled te \<and> pn_protocol pin = ''https:''
          then (failed (''TargetAuthorizationDenied'', ''EXPIRING_AUTHORITY_HTTP2_UNSUPPORTED''), [], b)
          else case te_acquire te of
            Some e \<Rightarrow> (failed e, [], b)
          | None \<Rightarrow>
             (case request_starts rt req url False (te_starts te) (broker_run rt (te_before te) b) of
                (StartCancelled, own, b1) \<Rightarrow> (SendCancelled, own, b1)
              | (StartFailed e, own, b1) \<Rightarrow> (failed e, own, b1)
              | (StartDone, own, b1) \<Rightarrow>
                  (case te_outcome te of
                     Inl e \<Rightarrow> (failed e, own, b1)
                   | Inr n \<Rightarrow> (SendResponse (transport_response req url chain n), own, b1))))"

section \<open>One hop\<close>

text \<open>
  What happens around one call of \<^verbatim>\<open>sendWithRedirects\<close>: the operations that run while it waits for the contract's rate, for a
  slot, for the rate limiter, and the signal at each of its checks.
\<close>

record hop_env =
  he_aborted :: bool
  he_rate :: "broker_op list"
  he_rateAborted :: bool
  he_task :: nat
  he_acquireAborted :: bool
  he_slot :: "broker_op list"
  he_slotAborted :: bool
  he_admitAborted :: bool
  he_pace :: "broker_op list"
  he_final :: tick
  he_transport :: transport_env
  he_redirect :: int

datatype hop_result = HopCancelled | HopThrew string | HopReturned http_response | HopAnswered http_response

definition hop_of :: "send_result \<Rightarrow> hop_result" where
  "hop_of r = (case r of SendCancelled \<Rightarrow> HopCancelled | SendThrew e \<Rightarrow> HopThrew e | SendResponse x \<Rightarrow> HopAnswered x)"

definition lane_capacity_response :: "http_request \<Rightarrow> hop_result" where
  "lane_capacity_response req =
     HopReturned (skippedResponse req ''RequestBudgetExceeded'' ''Request skipped because the scan-wide request capacity was exhausted.'')"

text \<open>The guard \<^verbatim>\<open>beforeTransmit\<close>: its answer, and the denial it leaves behind, if it is one of the policy's.\<close>

definition before_transmit :: "url_runtime \<Rightarrow> tick \<Rightarrow> http_request \<Rightarrow> string \<Rightarrow> broker \<Rightarrow> guard_outcome \<times> string option option" where
  "before_transmit rt tk req url b =
     (if js_leq (bk_maxRequests b) (jsint (bk_sentRequestCount b)) then (GuardDenies, None)
      else case fst (authorizeFinalHttpAttempt rt tk req url False b) of
        AttemptCancelled \<Rightarrow> (GuardCancels, Some None)
      | AttemptDenied reason \<Rightarrow> (GuardDenies, Some (Some reason))
      | AttemptPermitted \<Rightarrow> (GuardPermits, Some None))"

definition initiation_options :: "bool \<Rightarrow> guard_outcome \<Rightarrow> tx_options" where
  "initiation_options sync outcome =
     \<lparr>rateAlreadyReserved = sync, beforeTransmit = Some outcome, reserveAtInitiation = True, reservationCount = jsint 1\<rparr>"

text \<open>\<^verbatim>\<open>ledger.transmit\<close> around the transport, from the granted slot on; the slot is released at every exit.\<close>

definition coordinated_transmit ::
    "url_runtime \<Rightarrow> hop_env \<Rightarrow> http_request \<Rightarrow> string \<Rightarrow> (int \<times> string) list \<Rightarrow> bool \<Rightarrow> broker \<Rightarrow> hop_result \<times> initiation list \<times> broker" where
  "coordinated_transmit rt e req url chain sync b =
     (case bk_ledger b of
        None \<Rightarrow> (HopCancelled, [], b)
      | Some l \<Rightarrow>
         (case transmit_admit l (bk_lane b) (initiation_options sync GuardPermits) (he_admitAborted e) of
            (l1, Some r) \<Rightarrow> (if r = TxCancelled then HopCancelled else lane_capacity_response req, [], b\<lparr>bk_ledger := Some l1\<rparr>)
          | (l1, None) \<Rightarrow>
             (let b1 = broker_run rt (if sync then [] else he_pace e) (b\<lparr>bk_ledger := Some l1\<rparr>);
                  (outcome, denial) = before_transmit rt (he_final e) req url b1 in
              case bk_ledger b1 of
                None \<Rightarrow> (HopCancelled, [], b1)
              | Some l2 \<Rightarrow>
                 (case transmit_commit l2 (bk_lane b1) (initiation_options sync outcome) (tk_aborted (he_final e)) (tk_aborted (he_final e)) of
                    (_, Some TxCancelled) \<Rightarrow> (HopCancelled, [], b1)
                  | (_, Some TxPolicyDenied) \<Rightarrow>
                      (case denial of
                         Some reason \<Rightarrow> (HopReturned (dispatchDeniedResponse (rq_method req) reason), [], b1)
                       | None \<Rightarrow> (lane_capacity_response req, [], b1))
                  | (_, Some _) \<Rightarrow> (lane_capacity_response req, [], b1)
                  | (_, None) \<Rightarrow> (case http_send rt (he_transport e) req url chain b1 of (r, own, b2) \<Rightarrow> (hop_of r, own, b2))))))"

definition coordinated_hop ::
    "url_runtime \<Rightarrow> hop_env \<Rightarrow> http_request \<Rightarrow> string \<Rightarrow> (int \<times> string) list \<Rightarrow> bool \<Rightarrow> broker \<Rightarrow> hop_result \<times> initiation list \<times> broker" where
  "coordinated_hop rt e req url chain sync b =
     (let waiter = PeerAcquire (he_task e) (bk_lane b);
          queued = (case bk_ledger b of None \<Rightarrow> False | Some l \<Rightarrow> \<not> snd (ledger_acquire l (he_task e, bk_lane b)));
          b1 = broker_run rt (he_slot e) (broker_exec rt waiter b) in
      if he_acquireAborted e then (HopCancelled, [], b)
      else if queued \<and> he_slotAborted e then (HopCancelled, [], broker_exec rt (PeerAbortWait (he_task e) (bk_lane b)) b1)
      else case coordinated_transmit rt e req url chain sync b1 of (r, own, b2) \<Rightarrow> (r, own, broker_exec rt PeerRelease b2))"

definition uncoordinated_hop ::
    "url_runtime \<Rightarrow> hop_env \<Rightarrow> http_request \<Rightarrow> string \<Rightarrow> (int \<times> string) list \<Rightarrow> bool \<Rightarrow> broker \<Rightarrow> hop_result \<times> initiation list \<times> broker" where
  "uncoordinated_hop rt e req url chain sync b =
     (let b1 = broker_run rt (if sync then [] else he_pace e) b; tk = he_final e in
      if tk_aborted tk then (HopCancelled, [], b1)
      else if js_leq (bk_maxRequests b1) (jsint (bk_sentRequestCount b1))
      then (HopReturned (skippedResponse req ''RequestBudgetExceeded'' ''BROKER_REQUEST_BUDGET_EXHAUSTED''), [], b1)
      else case fst (authorizeFinalHttpAttempt rt tk req url False b1) of
        AttemptCancelled \<Rightarrow> (HopCancelled, [], b1)
      | AttemptDenied reason \<Rightarrow> (HopReturned (dispatchDeniedResponse (rq_method req) (Some reason)), [], b1)
      | AttemptPermitted \<Rightarrow> (case http_send rt (he_transport e) req url chain b1 of (r, own, b2) \<Rightarrow> (hop_of r, own, b2)))"

text \<open>From the entry of \<^verbatim>\<open>sendWithRedirects\<close> to the response.\<close>

definition send_hop ::
    "url_runtime \<Rightarrow> hop_env \<Rightarrow> http_request \<Rightarrow> string \<Rightarrow> (int \<times> string) list \<Rightarrow> bool \<Rightarrow> broker \<Rightarrow> hop_result \<times> initiation list \<times> broker" where
  "send_hop rt e req url chain sync b =
     (if he_aborted e then (HopCancelled, [], b)
      else let b1 = recordOrdinaryGetIntent rt (rq_method req) url b; b2 = (if sync then b1 else broker_run rt (he_rate e) b1) in
        if \<not> sync \<and> he_rateAborted e \<and> hasExpiringAuthority b then (HopCancelled, [], b2)
        else if js_leq (bk_maxRequests b2) (jsint (bk_sentRequestCount b2))
        then (HopReturned (skippedResponse req ''RequestBudgetExceeded'' ''Request skipped because the broker request budget was exhausted.''), [], b2)
        else if bk_ledger b2 \<noteq> None then coordinated_hop rt e req url chain sync b2
        else uncoordinated_hop rt e req url chain sync b2)"

section \<open>Redirects\<close>

datatype redirect_step = Finish http_response | RedirectThrew string | Follow string "(int \<times> string) list"

text \<open>What \<^verbatim>\<open>sendWithRedirects\<close> makes of a response.\<close>

definition redirect_next :: "url_runtime \<Rightarrow> int \<Rightarrow> http_request \<Rightarrow> string \<Rightarrow> (int \<times> string) list \<Rightarrow> http_response \<Rightarrow> broker \<Rightarrow> redirect_step" where
  "redirect_next rt now req url chain response b =
     (case rs_redirectLocation response of
        None \<Rightarrow> Finish response
      | Some location \<Rightarrow>
          if \<not> isRedirect (rs_statusCode response) then Finish response
          else if rq_disableRedirects req then Finish response
          else if isMutationMethod (rq_method req)
          then Finish (response\<lparr>rs_error := Some (''ControlledMutationRedirectBlocked'',
                 ''State-changing redirects are not followed; authorize the exact final endpoint instead.'')\<rparr>)
          else if maxRedirects \<le> length chain then Finish response
          else case Option.bind (rt_newURL rt url) (ur_resolve rt location) of
            None \<Rightarrow> Finish response
          | Some u \<Rightarrow>
             (let nextUrl = ur_toString rt u; status = or_else (rs_statusCode response) 0; nextChain = chain @ [(status, nextUrl)];
                  refuse = (\<lambda>reason. Finish (refusedRedirect req response url nextUrl nextChain reason)) in
              case crossesRequestMaterialBoundary (runtime.truncate rt) (map fst (rq_headers req)) (rq_body req) url nextUrl of
                Inl err \<Rightarrow> RedirectThrew err
              | Inr True \<Rightarrow> refuse ''credential-origin-redirect-not-authorized''
              | Inr False \<Rightarrow>
                 (let d = decide rt (bk_matcher b) now nextUrl (rq_method req) (rq_body req) in
                  case (if sd_allowed d then sd_normalizedUrl d else None) of
                    None \<Rightarrow> refuse (scope_reason_text (sd_reason d))
                  | Some normalized \<Rightarrow> Follow normalized nextChain)))"

text \<open>The environments of the successive hops bound the recursion: \<open>None\<close> when they run out.\<close>

fun sendWithRedirects ::
    "url_runtime \<Rightarrow> hop_env list \<Rightarrow> http_request \<Rightarrow> string \<Rightarrow> (int \<times> string) list \<Rightarrow> bool \<Rightarrow> broker \<Rightarrow> (send_result \<times> initiation list \<times> broker) option" where
  "sendWithRedirects rt [] req url chain sync b = None"
| "sendWithRedirects rt (e # es) req url chain sync b =
     (case send_hop rt e req url chain sync b of
        (HopCancelled, own, b1) \<Rightarrow> Some (SendCancelled, own, b1)
      | (HopThrew err, own, b1) \<Rightarrow> Some (SendThrew err, own, b1)
      | (HopReturned r, own, b1) \<Rightarrow> Some (SendResponse r, own, b1)
      | (HopAnswered r, own, b1) \<Rightarrow>
         (case redirect_next rt (he_redirect e) req url chain r b1 of
            Finish final \<Rightarrow> Some (SendResponse final, own, b1)
          | RedirectThrew err \<Rightarrow> Some (SendThrew err, own, b1)
          | Follow nextUrl nextChain \<Rightarrow>
              map_option (\<lambda>(res, own', b2). (res, own @ own', b2)) (sendWithRedirects rt es req nextUrl nextChain False b1)))"

section \<open>Requests\<close>

text \<open>
  How the promise of a request settles: cancelled, with another error, with a final denial of the policy, with a response that
  must not be retried, or with a response.
\<close>

datatype task_result = TaskCancelled | TaskThrew string | TaskPolicyDenied string | TaskStopped http_response | TaskDone http_response

definition retry_view :: "http_response \<Rightarrow> retry_result" where
  "retry_view r = \<lparr>rr_statusCode = rs_statusCode r, rr_error = error_name r\<rparr>"

text \<open>\<^verbatim>\<open>retryPolicy.run\<close> around \<^verbatim>\<open>sendWithRedirects\<close>; each attempt has the environments of its hops and what runs while the policy sleeps.\<close>

fun retry_attempts ::
    "url_runtime \<Rightarrow> retry_options \<Rightarrow> http_request \<Rightarrow> (hop_env list \<times> broker_op list) list \<Rightarrow> nat \<Rightarrow> http_response option \<Rightarrow> broker
      \<Rightarrow> (task_result \<times> initiation list \<times> broker) option" where
  "retry_attempts rt opts req atts attempt lastResult b =
     (if \<not> js_leq (jsint (int attempt)) (maxAttempts opts)
      then Some (case lastResult of None \<Rightarrow> TaskThrew ''TypeError'' | Some r \<Rightarrow> TaskDone r, [], b)
      else case atts of
        [] \<Rightarrow> None
      | (hops, slept) # rest \<Rightarrow>
         (case sendWithRedirects rt hops req (rq_url req) [] False b of
            None \<Rightarrow> None
          | Some (SendCancelled, own, b1) \<Rightarrow> Some (TaskCancelled, own, b1)
          | Some (SendThrew err, own, b1) \<Rightarrow> Some (TaskThrew err, own, b1)
          | Some (SendResponse r, own, b1) \<Rightarrow>
              if error_name r = Some ''TargetAuthorizationDenied''
              then Some (TaskPolicyDenied (fixedDispatchDenial (map_option snd (rs_error r))), own, b1)
              else if error_name r = Some ''TransportReplayBlocked'' then Some (TaskStopped r, own, b1)
              else if \<not> shouldRetry opts (retry_view r) attempt then Some (TaskDone r, own, b1)
              else map_option (\<lambda>(res, own', b2). (res, own @ own', b2))
                     (retry_attempts rt opts req rest (Suc attempt) (Some r) (broker_run rt slept b1))))"

record send_env =
  se_aborted :: bool
  se_scope :: int
  se_cached :: "task_result option"
  se_cacheWait :: "broker_op list"
  se_queue :: "broker_op list"
  se_queueAborted :: bool
  se_attempts :: "(hop_env list \<times> broker_op list) list"
  se_settled :: "broker_op list"

text \<open>The operation that \<^verbatim>\<open>sendRequest\<close> hands to its queue.\<close>

definition queued_task ::
    "url_runtime \<Rightarrow> retry_options \<Rightarrow> send_env \<Rightarrow> http_request \<Rightarrow> bool \<Rightarrow> broker \<Rightarrow> (task_result \<times> initiation list \<times> broker) option" where
  "queued_task rt opts se req bypass b =
     (if se_queueAborted se then Some (TaskCancelled, [], b)
      else if rq_disableRetries req \<or> isMutationMethod (rq_method req)
      then (case se_attempts se of
              [] \<Rightarrow> None
            | (hops, _) # _ \<Rightarrow>
                map_option (\<lambda>(r, own, b1). (case r of SendCancelled \<Rightarrow> TaskCancelled | SendThrew e \<Rightarrow> TaskThrew e | SendResponse x \<Rightarrow> TaskDone x, own, b1))
                  (sendWithRedirects rt hops req (rq_url req) [] bypass b))
      else retry_attempts rt opts req (se_attempts se) 1 None b)"

text \<open>What redaction leaves of a response: its method, its status and the name of its error.\<close>

record response_facts =
  rf_method :: string
  rf_statusCode :: "int option"
  rf_error :: "string option"

datatype request_result = RequestCancelled | RequestThrew string | RequestAnswered response_facts

definition answered :: "http_response \<Rightarrow> request_result" where
  "answered r = RequestAnswered \<lparr>rf_method = rs_method r, rf_statusCode = rs_statusCode r, rf_error = error_name r\<rparr>"

definition http_audit :: "http_request \<Rightarrow> audit_outcome \<Rightarrow> string option \<Rightarrow> int option \<Rightarrow> audit_entry" where
  "http_audit req outcome reason transmitted =
     \<lparr>au_method = rq_method req, au_outcome = outcome, au_reason = reason, au_transmittedRequests = transmitted\<rparr>"

text \<open>From the settled promise, the request's own or the cached one, to the answer; a duplicate is recorded as skipped.\<close>

definition settle :: "http_request \<Rightarrow> bool \<Rightarrow> task_result \<Rightarrow> broker \<Rightarrow> request_result \<times> broker" where
  "settle req duplicate t b =
     (let finish = (\<lambda>r. if error_name r = Some ''TargetAuthorizationDenied''
          then (answered (dispatchDeniedResponse (rq_method req) (map_option snd (rs_error r))),
                recordAudit (http_audit req AuditScopeSkipped None (Some (bk_sentRequestCount b))) b)
          else (answered r, recordAudit (http_audit req (if duplicate then AuditDuplicateSkipped else auditOutcome r) None None) b)) in
      case t of
        TaskCancelled \<Rightarrow> (RequestCancelled, b)
      | TaskThrew e \<Rightarrow> (RequestThrew e, b)
      | TaskPolicyDenied m \<Rightarrow> finish (dispatchDeniedResponse (rq_method req) (Some m))
      | TaskStopped r \<Rightarrow> finish r
      | TaskDone r \<Rightarrow> finish r)"

definition mode_refusal :: "http_request \<Rightarrow> broker \<Rightarrow> string option" where
  "mode_refusal req b =
     (if rq_method req = ''DELETE'' \<and> \<not> bk_controlledDeletionEnabled b then Some ''controlled-deletion-mode-required''
      else if (rq_method req = ''PATCH'' \<or> rq_method req = ''PUT'') \<and> \<not> bk_controlledMutationEnabled b
      then Some ''controlled-mutation-mode-required'' else None)"

definition cacheable :: "http_request \<Rightarrow> bool" where
  "cacheable req \<longleftrightarrow> (rq_method req = ''GET'' \<or> rq_method req = ''HEAD'' \<or> rq_method req = ''OPTIONS'') \<and> \<not> rq_skipCache req"

definition sendRequest ::
    "url_runtime \<Rightarrow> retry_options \<Rightarrow> send_env \<Rightarrow> http_request \<Rightarrow> bool \<Rightarrow> broker \<Rightarrow> (request_result \<times> initiation list \<times> broker) option" where
  "sendRequest rt opts se req bypass b =
     (if se_aborted se then Some (RequestCancelled, [], b)
      else case mode_refusal req b of
        Some reason \<Rightarrow>
          Some (answered (skippedResponse req ''ControlledMutationBlocked'' (''Request blocked by scan-wide broker: '' @ reason @ ''.'')), [],
                recordAudit (http_audit req AuditScopeSkipped (Some reason) None) b)
      | None \<Rightarrow>
         (let d = decide rt (bk_matcher b) (se_scope se) (rq_url req) (rq_method req) (rq_body req); reason = scope_reason_text (sd_reason d) in
          case (if sd_allowed d then sd_normalizedUrl d else None) of
            None \<Rightarrow>
              Some (answered (skippedResponse req ''OutOfScopeRequest'' (''Request skipped by scan-wide broker: '' @ reason @ ''.'')), [],
                    recordAudit (http_audit req AuditScopeSkipped (Some reason) None) b)
          | Some url \<Rightarrow>
             (let scoped = req\<lparr>rq_url := url\<rparr>; b1 = recordOrdinaryGetIntent rt (rq_method req) url b in
              case (if cacheable req then se_cached se else None) of
                Some t \<Rightarrow> (case settle scoped True t (broker_run rt (se_cacheWait se) b1) of (r, b2) \<Rightarrow> Some (r, [], b2))
              | None \<Rightarrow>
                  map_option (\<lambda>(t, own, b2). (case settle scoped False t (broker_run rt (se_settled se) b2) of (r, b3) \<Rightarrow> (r, own, b3)))
                    (queued_task rt opts se scoped bypass (broker_run rt (se_queue se) b1)))))"

definition broker_send :: "url_runtime \<Rightarrow> retry_options \<Rightarrow> send_env \<Rightarrow> http_request \<Rightarrow> broker \<Rightarrow> (request_result \<times> initiation list \<times> broker) option" where
  "broker_send rt opts se req b = sendRequest rt opts se req False b"

text \<open>The checks of \<^verbatim>\<open>sendSynchronizedMutations\<close> before it waits for the group's rate.\<close>

definition synchronized_refusal :: "http_request list \<Rightarrow> broker \<Rightarrow> string option" where
  "synchronized_refusal reqs b =
     (if (case bk_policy b of None \<Rightarrow> False | Some p \<Rightarrow> \<not> pr_racePermitted p) then Some ''TARGET_RACE_TESTING_PROHIBITED''
      else if \<not> bk_controlledRaceEnabled b then Some ''Synchronized mutation groups require a dedicated controlled-race broker.''
      else if length reqs < 2 \<or> 5 < length reqs then Some ''Synchronized mutation groups require exactly two to five requests.''
      else if list_ex (\<lambda>r. \<not> isMutationMethod (rq_method r)) reqs then Some ''Every synchronized group member must be state-changing.''
      else None)"

definition synchronized_member :: "http_request \<Rightarrow> http_request" where
  "synchronized_member r = r\<lparr>rq_skipCache := True, rq_disableRetries := True, rq_disableRedirects := True\<rparr>"

section \<open>Raw request pairs\<close>

text \<open>The preparation of \<^verbatim>\<open>sendRawHttp1\<close>: the pair it will commit, or why there is none.\<close>

record raw_request =
  rw_url :: string
  rw_method :: string
  rw_headers :: "(string \<times> string) list"
  rw_body :: string
  rw_sentinelPath :: string
  rw_marker :: "string option"

datatype raw_plan = RawCancelled | RawThrew | RawBlocked string | RawPlanned http_request string

definition raw_body :: "string \<Rightarrow> string" where
  "raw_body body = take 4096 (map (\<lambda>c. if c \<in> {CHR 0x0D, CHR 0x0A, CHR 0x00} then CHR '' '' else c) body)"

definition framing_headers :: "string list" where
  "framing_headers =
     [''host'', ''content-length'', ''transfer-encoding'', ''connection'', ''proxy-connection'', ''expect'', ''upgrade'', ''trailer'']"

definition framing_header_blocked :: "string \<times> string \<Rightarrow> bool" where
  "framing_header_blocked h \<longleftrightarrow> contains_any [CHR 0x0D, CHR 0x0A] (fst h) \<or> contains_any [CHR 0x0D, CHR 0x0A] (snd h) \<or> to_lower (fst h) \<in> set framing_headers"

definition marker_valid :: "string \<Rightarrow> bool" where
  "marker_valid m \<longleftrightarrow> 1 \<le> int (length m) \<and> int (length m) \<le> 128 \<and> list_all (\<lambda>c. is_alpha c \<or> is_digit c \<or> c \<in> set ''._:-'') m"

definition plan_raw :: "url_runtime \<Rightarrow> tick \<Rightarrow> raw_request \<Rightarrow> broker \<Rightarrow> raw_plan" where
  "plan_raw rt tk r b =
     (let body = raw_body (rw_body r); d = decide rt (bk_matcher b) (tk_scope tk) (rw_url r) (rw_method r) (Some body) in
      if tk_aborted tk then RawCancelled
      else case Option.bind (rt_newURL rt (rw_url r)) (\<lambda>u. Option.bind (rt_newURL rt (url_origin u)) (ur_resolve rt (rw_sentinelPath r))) of
        None \<Rightarrow> RawThrew
      | Some sentinel \<Rightarrow>
         (let s = decide rt (bk_matcher b) (tk_scope tk) (ur_toString rt sentinel) ''GET'' None in
          case (if sd_allowed d then sd_normalizedUrl d else None, if sd_allowed s then sd_normalizedUrl s else None) of
            (Some url, Some surl) \<Rightarrow>
             (case (rt_newURL rt url, rt_newURL rt surl) of
                (Some u, Some su) \<Rightarrow>
                  if url_origin su \<noteq> url_origin u then RawBlocked ''RAW_HTTP1_SENTINEL_ORIGIN_BLOCKED''
                  else if (case rw_marker r of None \<Rightarrow> False | Some m \<Rightarrow> m \<noteq> [] \<and> \<not> marker_valid m) \<or> list_ex framing_header_blocked (rw_headers r)
                  then RawBlocked ''RAW_HTTP1_FRAMING_HEADER_BLOCKED''
                  else RawPlanned \<lparr>rq_url = url, rq_method = ''POST'', rq_headers = rw_headers r, rq_body = Some body, rq_skipCache = False,
                                    rq_disableRetries = False, rq_disableRedirects = False\<rparr> surl
              | _ \<Rightarrow> RawThrew)
          | _ \<Rightarrow> RawBlocked ''RAW_HTTP1_SCOPE_BLOCKED''))"

end
