(* ===== verification/RC_BrokerSendFacts.thy ===== *)
theory RC_BrokerSendFacts
  imports RC_BrokerSend
begin

text \<open>
  What a send does to the broker: it is a sequence of the broker's operations, it initiates a bounded number of requests, all of
  them with the caller's method, headers and body, it ends, and supplied material stays with its origin.
\<close>

section \<open>Sends are sequences of operations\<close>

definition reaches :: "url_runtime \<Rightarrow> broker \<Rightarrow> broker \<Rightarrow> bool" where
  "reaches rt b b' \<longleftrightarrow> (\<exists>xs. b' = broker_run rt xs b)"

lemma reaches_refl [simp]: "reaches rt b b"
  unfolding reaches_def by (rule exI [of _ "[]"]) simp

lemma reaches_trans: "reaches rt a b \<Longrightarrow> reaches rt b c \<Longrightarrow> reaches rt a c"
  unfolding reaches_def by (metis fold_append comp_apply)

lemma reaches_run [simp]: "reaches rt b (broker_run rt xs b)"
  unfolding reaches_def by blast

lemma reaches_exec: "reaches rt b (broker_exec rt x b)"
  unfolding reaches_def by (rule exI [of _ "[x]"]) simp

lemma quiet_initiated: "quiet b b' \<Longrightarrow> bk_initiated b' = bk_initiated b"
  by (simp add: quiet_def)

lemma approved_initiated: "approved k b b' \<Longrightarrow> bk_initiated b' = bk_initiated b"
  by (auto simp: approved_def charged_def quiet_def)

lemma refused_or_approved_initiated: "refused_or_approved b res \<Longrightarrow> bk_initiated (snd res) = bk_initiated b"
  unfolding refused_or_approved_def using quiet_initiated approved_initiated by blast

lemma commit_initiated: "set (bk_initiated b) \<subseteq> set (bk_initiated (snd (commitHttpInitiation rt tk req url b)))"
proof -
  obtain r b' where c: "commitHttpInitiation rt tk req url b = (r, b')" by (rule prod.exhaust)
  show ?thesis using commitHttpInitiation_cases [OF c] c by (auto simp: initiate_def charged_def dest!: quiet_initiated)
qed

lemma raw_initiated: "set (bk_initiated b) \<subseteq> set (bk_initiated (snd (commitRawPair rt tk req url b)))"
proof -
  obtain r b' where c: "commitRawPair rt tk req url b = (r, b')" by (rule prod.exhaust)
  show ?thesis using commitRawPair_cases [OF c] c by (auto simp: initiate_def charged_def dest!: quiet_initiated)
qed

lemma dispatch_initiated: "bk_initiated (snd (dispatchBrowserRoute rt tk k route native session b)) = bk_initiated b"
  by (simp add: dispatchBrowserRoute_def quiet_initiated [OF quiet_route_refused] set_binding_def split: option.split bound_check.split)

lemma begin_initiated: "set (bk_initiated b) \<subseteq> set (bk_initiated (snd (beginBrowserProxyRequest rt tk k session actual b)))"
proof (cases "bk_bindings b k")
  case (Some bo)
  let ?b1 = "set_binding k (bo\<lparr>bo_consumed := True\<rparr>) b"
  obtain p b2 where p: "begin_permit rt tk bo (px_body actual) ?b1 = (p, b2)" by (rule prod.exhaust)
  have "bk_initiated b2 = bk_initiated b"
    using quiet_initiated [OF begin_permit_quiet [of ?b1 rt tk bo "px_body actual"]] p by (simp add: set_binding_def)
  moreover have "bk_initiated ?b1 = bk_initiated b" by (simp add: set_binding_def)
  ultimately show ?thesis
    by (simp add: beginBrowserProxyRequest_def Some Let_def p initiate_def quiet_initiated [OF quiet_cancel]
        quiet_initiated [OF quiet_fixedBrowserDenial] subset_iff split: bound_check.split bool.split)
qed (simp add: beginBrowserProxyRequest_def)

lemma acknowledged_initiated: "set (bk_initiated b) \<subseteq> set (bk_initiated (browser_acknowledged rt k b))"
  by (auto simp: browser_acknowledged_def quiet_initiated [OF quiet_observe] initiate_def set_binding_def split: option.split)

lemma exec_initiated: "set (bk_initiated b) \<subseteq> set (bk_initiated (broker_exec rt x b))"
proof (cases x)
  case (PeerGuard y)
  then show ?thesis by (simp add: with_guard_def split: option.split)
qed (simp_all add: commit_initiated raw_initiated dispatch_initiated begin_initiated acknowledged_initiated
      refused_or_approved_initiated [OF evaluateBrowserRequest_cases] refused_or_approved_initiated [OF evaluateBrowserLoginRequest_cases]
      quiet_initiated [OF quiet_recordBrowserPolicyBlock] quiet_initiated [OF quiet_register] quiet_initiated [OF quiet_cancel]
      browser_wait_failed_def quiet_initiated [OF quiet_route_refused] quiet_initiated [OF quiet_observe] quiet_initiated [OF quiet_records(4)]
      quiet_initiated [OF quiet_records(5)] quiet_initiated [OF quiet_records(1)] on_ledger_def split: option.split)

lemma reaches_initiated: "reaches rt b b' \<Longrightarrow> set (bk_initiated b) \<subseteq> set (bk_initiated b')"
proof -
  assume "reaches rt b b'"
  then obtain xs where "b' = broker_run rt xs b" unfolding reaches_def by blast
  moreover have "set (bk_initiated b) \<subseteq> set (bk_initiated (broker_run rt xs b))" for b
    by (induction xs arbitrary: b) (use exec_initiated in \<open>simp, force\<close>)
  ultimately show ?thesis by simp
qed

text \<open>
  \<open>sends n rt P b own b'\<close>: a sequence of operations leads from \<open>b\<close> to \<open>b'\<close>, among them the initiations \<open>own\<close>, at most \<open>n\<close> and all with \<open>P\<close>.
\<close>

definition same_material :: "http_request \<Rightarrow> initiation \<Rightarrow> bool" where
  "same_material req i \<longleftrightarrow> it_method i = rq_method req \<and> it_headers i = map fst (rq_headers req) \<and> it_body i = rq_body req \<and> it_decision i = None"

definition made_from :: "http_request \<Rightarrow> string \<Rightarrow> initiation \<Rightarrow> bool" where
  "made_from req url i \<longleftrightarrow> same_material req i \<and> it_url i = url"

definition sends :: "nat \<Rightarrow> url_runtime \<Rightarrow> (initiation \<Rightarrow> bool) \<Rightarrow> broker \<Rightarrow> initiation list \<Rightarrow> broker \<Rightarrow> bool" where
  "sends n rt P b own b' \<longleftrightarrow> reaches rt b b' \<and> length own \<le> n \<and> (\<forall>i \<in> set own. i \<in> set (bk_initiated b') \<and> P i)"

lemma sends_none: "reaches rt b b' \<Longrightarrow> sends n rt P b [] b'"
  by (simp add: sends_def)

lemma sends_before: "reaches rt a b \<Longrightarrow> sends n rt P b own b' \<Longrightarrow> sends n rt P a own b'"
  by (auto simp: sends_def intro: reaches_trans)

lemma sends_append: "sends m rt P a own b \<Longrightarrow> sends n rt P b own' c \<Longrightarrow> sends (m + n) rt P a (own @ own') c"
  unfolding sends_def using reaches_initiated by (auto intro: reaches_trans) blast

lemma sends_after: "sends n rt P a own b \<Longrightarrow> reaches rt b c \<Longrightarrow> sends n rt P a own c"
  using sends_append [of n rt P a own b 0 "[]" c] sends_none by fastforce

lemma sends_mono: "sends m rt P a own b \<Longrightarrow> m \<le> n \<Longrightarrow> (\<And>i. P i \<Longrightarrow> Q i) \<Longrightarrow> sends n rt Q a own b"
  by (auto simp: sends_def)

lemma commit_sends:
  assumes "commitHttpInitiation rt tk req url b = (Committed, b')"
  shows "sends 1 rt (made_from req url) b [initiation_of tk req url] b'"
proof -
  have "reaches rt b b'" using reaches_exec [of rt b "OpCommit tk req url"] assms by simp
  moreover have "initiation_of tk req url \<in> set (bk_initiated b')" using commitHttpInitiation_cases [OF assms] by (auto simp: initiate_def)
  ultimately show ?thesis by (simp add: sends_def same_material_def made_from_def initiation_of_def)
qed

lemma commit_reaches: "commitHttpInitiation rt tk req url b = (r, b') \<Longrightarrow> reaches rt b b'"
  using reaches_exec [of rt b "OpCommit tk req url"] by simp

lemma request_starts_sends:
  "request_starts rt req url initiated ss b = (r, own, b') \<Longrightarrow> sends (if initiated then 0 else 1) rt (made_from req url) b own b'"
proof (cases ss)
  case (Cons s rest)
  assume r: "request_starts rt req url initiated ss b = (r, own, b')"
  obtain c b1 where c: "commitHttpInitiation rt (st_tick s) req url b = (c, b1)" by (rule prod.exhaust)
  obtain r2 own2 b2 where t: "request_starts rt req url True rest (broker_run rt (st_after s) b1) = (r2, own2, b2)" by (metis prod.exhaust)
  have t': "own2 = [] \<and> b2 = broker_run rt (st_after s) b1" using t by (cases rest) auto
  consider "own = []" "b' = b" | "own = []" "b' = b1" "\<not> initiated" | "own = [initiation_of (st_tick s) req url]" "c = Committed" "b' = b2" "\<not> initiated"
    using r t t' c unfolding Cons by (auto split: if_splits option.splits commit_result.splits)
  then show ?thesis
  proof cases
    case 3
    then have "sends 1 rt (made_from req url) b own b1" using commit_sends c by blast
    then show ?thesis using sends_after 3 t' by auto
  qed (auto intro: sends_none commit_reaches [OF c])
qed (auto intro: sends_none)

lemma http_send_sends: "http_send rt te req url chain b = (r, own, b') \<Longrightarrow> sends 1 rt (made_from req url) b own b'"
proof -
  assume h: "http_send rt te req url chain b = (r, own, b')"
  obtain s own1 b1 where s: "request_starts rt req url False (te_starts te) (broker_run rt (te_before te) b) = (s, own1, b1)" by (metis prod.exhaust)
  have "sends 1 rt (made_from req url) b own1 b1" using sends_before [OF reaches_run request_starts_sends [OF s]] by simp
  moreover have "own = [] \<and> b' = b \<or> own = own1 \<and> b' = b1"
    using h s by (auto simp: http_send_def Let_def split: sum.splits if_splits option.splits start_result.splits)
  ultimately show ?thesis by (auto intro: sends_none)
qed

lemma transmit_admit_reaches:
  "bk_ledger b = Some l \<Longrightarrow> transmit_admit l lane opts a = (l1, r) \<Longrightarrow> reaches rt b (b\<lparr>bk_ledger := Some l1\<rparr>)"
proof -
  assume l: "bk_ledger b = Some l" and t: "transmit_admit l lane opts a = (l1, r)"
  have e: "b\<lparr>bk_ledger := Some l\<rparr> = b" using l by simp
  consider "l1 = l" | "l1 = publish True l" using t by (auto simp: transmit_admit_def split: if_splits)
  then show ?thesis
  proof cases
    case 1
    show ?thesis unfolding 1 e by (rule reaches_refl)
  next
    case 2
    then show ?thesis using reaches_exec [of rt b "PeerPublish True"] l by (simp add: on_ledger_def)
  qed
qed

lemma coordinated_transmit_sends: "coordinated_transmit rt e req url chain sync b = (r, own, b') \<Longrightarrow> sends 1 rt (made_from req url) b own b'"
proof (cases "bk_ledger b")
  case (Some l)
  assume h: "coordinated_transmit rt e req url chain sync b = (r, own, b')"
  obtain l1 x where x: "transmit_admit l (bk_lane b) (initiation_options sync GuardPermits) (he_admitAborted e) = (l1, x)" by (rule prod.exhaust)
  let ?b1 = "broker_run rt (if sync then [] else he_pace e) (b\<lparr>bk_ledger := Some l1\<rparr>)"
  have q0: "reaches rt b (b\<lparr>bk_ledger := Some l1\<rparr>)" by (rule transmit_admit_reaches [OF Some x])
  have q1: "reaches rt b ?b1" by (rule reaches_trans [OF q0 reaches_run])
  obtain s own2 b2 where s: "http_send rt (he_transport e) req url chain ?b1 = (s, own2, b2)" by (metis prod.exhaust)
  have "own = [] \<and> b' = b\<lparr>bk_ledger := Some l1\<rparr> \<or> own = [] \<and> b' = ?b1 \<or> own = own2 \<and> b' = b2"
  proof (cases x)
    case None
    obtain g d where g: "before_transmit rt (he_final e) req url ?b1 = (g, d)" by (rule prod.exhaust)
    show ?thesis
    proof (cases "bk_ledger ?b1")
      case l2: (Some l2)
      obtain l3 y where "transmit_commit l2 (bk_lane ?b1) (initiation_options sync g) (tk_aborted (he_final e)) (tk_aborted (he_final e)) = (l3, y)"
        by (rule prod.exhaust)
      then show ?thesis using h x None s g l2 Some unfolding coordinated_transmit_def Let_def
        by (cases y) (auto split: tx_result.splits option.splits)
    qed (use h x None g Some in \<open>simp add: coordinated_transmit_def Let_def\<close>)
  qed (use h x Some in \<open>simp add: coordinated_transmit_def\<close>)
  then show ?thesis using sends_none [OF q0] sends_none [OF q1] sends_before [OF q1 http_send_sends [OF s]] by blast
qed (simp add: coordinated_transmit_def sends_none)

lemma coordinated_hop_sends: "coordinated_hop rt e req url chain sync b = (r, own, b') \<Longrightarrow> sends 1 rt (made_from req url) b own b'"
proof -
  assume h: "coordinated_hop rt e req url chain sync b = (r, own, b')"
  let ?b1 = "broker_run rt (he_slot e) (broker_exec rt (PeerAcquire (he_task e) (bk_lane b)) b)"
  have q1: "reaches rt b ?b1" by (rule reaches_trans [OF reaches_exec reaches_run])
  obtain s own2 b2 where s: "coordinated_transmit rt e req url chain sync ?b1 = (s, own2, b2)" by (metis prod.exhaust)
  have "own = [] \<and> b' = b \<or> own = [] \<and> b' = broker_exec rt (PeerAbortWait (he_task e) (bk_lane b)) ?b1 \<or> own = own2 \<and> b' = broker_exec rt PeerRelease b2"
    using h s unfolding coordinated_hop_def Let_def by (auto simp del: broker_exec.simps split: if_splits)
  then show ?thesis
    using sends_none [OF reaches_refl] sends_none [OF reaches_trans [OF q1 reaches_exec]]
      sends_after [OF sends_before [OF q1 coordinated_transmit_sends [OF s]] reaches_exec] by blast
qed

lemma uncoordinated_hop_sends: "uncoordinated_hop rt e req url chain sync b = (r, own, b') \<Longrightarrow> sends 1 rt (made_from req url) b own b'"
proof -
  assume h: "uncoordinated_hop rt e req url chain sync b = (r, own, b')"
  let ?b1 = "broker_run rt (if sync then [] else he_pace e) b"
  obtain s own2 b2 where s: "http_send rt (he_transport e) req url chain ?b1 = (s, own2, b2)" by (metis prod.exhaust)
  have "own = [] \<and> b' = ?b1 \<or> own = own2 \<and> b' = b2"
    using h s unfolding uncoordinated_hop_def Let_def by (auto split: if_splits attempt_result.splits)
  then show ?thesis using sends_none [OF reaches_run] sends_before [OF reaches_run http_send_sends [OF s]] by blast
qed

lemma intent_reaches: "reaches rt b (recordOrdinaryGetIntent rt verb url b)"
  using reaches_exec [of rt b "OpGetIntent verb url"] by simp

lemma send_hop_sends: "send_hop rt e req url chain sync b = (r, own, b') \<Longrightarrow> sends 1 rt (made_from req url) b own b'"
proof -
  assume h: "send_hop rt e req url chain sync b = (r, own, b')"
  let ?b1 = "recordOrdinaryGetIntent rt (rq_method req) url b"
  define b2 where "b2 = (if sync then ?b1 else broker_run rt (he_rate e) ?b1)"
  have q: "reaches rt b b2" using intent_reaches reaches_trans [OF intent_reaches reaches_run] by (simp add: b2_def)
  consider "own = []" "b' = b" | "own = []" "b' = b2" | "coordinated_hop rt e req url chain sync b2 = (r, own, b')"
    | "uncoordinated_hop rt e req url chain sync b2 = (r, own, b')"
    using h unfolding send_hop_def Let_def b2_def [symmetric] by (auto split: if_splits)
  then show ?thesis
    by cases (simp_all del: One_nat_def add: sends_none q sends_before [OF q coordinated_hop_sends] sends_before [OF q uncoordinated_hop_sends])
qed

section \<open>Redirects\<close>

lemma redirect_next_Follow:
  assumes "redirect_next rt now req url chain r b = Follow n ch"
  shows "length ch = Suc (length chain)" "length chain < maxRedirects" "\<not> isMutationMethod (rq_method req)" "\<not> rq_disableRedirects req"
    "\<exists>v u d. rt_newURL rt (ur_toString rt v) = Some d \<and> rt_newURL rt url = Some u \<and> rt_newURL rt n \<noteq> None \<and>
       normalizeUrl rt (ur_toString rt v) (Some (sm_target (bk_matcher b))) = Some n \<and>
       (rq_headers req \<noteq> [] \<or> (\<exists>x. rq_body req = Some x \<and> x \<noteq> []) \<longrightarrow> url_origin d = url_origin u)"
proof -
  obtain loc base where l: "rs_redirectLocation r = Some loc" "isRedirect (rs_statusCode r)" "\<not> rq_disableRedirects req"
    "\<not> isMutationMethod (rq_method req)" "\<not> maxRedirects \<le> length chain" "Option.bind (rt_newURL rt url) (ur_resolve rt loc) = Some base"
    using assms by (auto simp: redirect_next_def split: option.splits if_splits)
  let ?next = "ur_toString rt base"
  have f: "crossesRequestMaterialBoundary (runtime.truncate rt) (map fst (rq_headers req)) (rq_body req) url ?next = Inr False"
    "sd_allowed (decide rt (bk_matcher b) now ?next (rq_method req) (rq_body req))"
    "sd_normalizedUrl (decide rt (bk_matcher b) now ?next (rq_method req) (rq_body req)) = Some n" "length ch = Suc (length chain)"
    using assms l by (auto simp: redirect_next_def Let_def split: sum.splits bool.splits option.splits if_splits)
  show "length ch = Suc (length chain)" "length chain < maxRedirects" "\<not> isMutationMethod (rq_method req)" "\<not> rq_disableRedirects req"
    using f l by simp_all
  have "normalizeUrl rt ?next (Some (sm_target (bk_matcher b))) = Some n \<and> rt_newURL rt n \<noteq> None"
    using f(2,3) by (auto simp: decide_def Let_def split: option.splits if_splits)
  then show "\<exists>v u d. rt_newURL rt (ur_toString rt v) = Some d \<and> rt_newURL rt url = Some u \<and> rt_newURL rt n \<noteq> None \<and>
       normalizeUrl rt (ur_toString rt v) (Some (sm_target (bk_matcher b))) = Some n \<and>
       (rq_headers req \<noteq> [] \<or> (\<exists>x. rq_body req = Some x \<and> x \<noteq> []) \<longrightarrow> url_origin d = url_origin u)"
    using f(1) by (fastforce simp: crossesRequestMaterialBoundary_def split: option.splits)
qed

lemma sendWithRedirects_sends:
  "sendWithRedirects rt es req url chain sync b = Some (res, own, b') \<Longrightarrow> sends (Suc maxRedirects - length chain) rt (same_material req) b own b' \<or> maxRedirects < length chain"
proof (induction es arbitrary: url chain sync b res own b')
  case (Cons e es)
  obtain h own1 b1 where h: "send_hop rt e req url chain sync b = (h, own1, b1)" by (metis prod.exhaust)
  have s1: "sends 1 rt (same_material req) b own1 b1" by (rule sends_mono [OF send_hop_sends [OF h]]) (simp_all add: made_from_def)
  show ?case
  proof (cases "\<exists>r n ch. h = HopAnswered r \<and> redirect_next rt (he_redirect e) req url chain r b1 = Follow n ch")
    case True
    then obtain r n ch where f: "h = HopAnswered r" "redirect_next rt (he_redirect e) req url chain r b1 = Follow n ch" by blast
    obtain own2 where t: "sendWithRedirects rt es req n ch False b1 = Some (res, own2, b')" "own = own1 @ own2"
      using Cons.prems h f by auto
    note g = redirect_next_Follow [OF f(2)]
    have "sends (Suc maxRedirects - length ch) rt (same_material req) b1 own2 b'" using Cons.IH [OF t(1)] g(1,2) by simp
    then have "sends (1 + (Suc maxRedirects - length ch)) rt (same_material req) b own b'" using sends_append [OF s1] t(2) by simp
    then show ?thesis using g(1,2) by (simp add: Suc_diff_le)
  next
    case False
    then have "own = own1 \<and> b' = b1" using Cons.prems h by (auto split: hop_result.splits redirect_step.splits)
    then show ?thesis using s1 sends_mono [of 1 _ _ _ _ _ "Suc maxRedirects - length chain" "same_material req"] by (cases "maxRedirects < length chain") auto
  qed
qed simp

lemma sendWithRedirects_single:
  assumes "sendWithRedirects rt es req url chain sync b = Some (res, own, b')" "isMutationMethod (rq_method req) \<or> rq_disableRedirects req"
  shows "sends 1 rt (same_material req) b own b'"
proof (cases es)
  case (Cons e es')
  obtain h own1 b1 where h: "send_hop rt e req url chain sync b = (h, own1, b1)" by (metis prod.exhaust)
  have "redirect_next rt (he_redirect e) req url chain r b1 \<noteq> Follow n ch" for r n ch using assms(2) redirect_next_Follow(3,4) by blast
  then have "own = own1 \<and> b' = b1" using assms(1) h unfolding Cons by (auto split: hop_result.splits redirect_step.splits)
  then show ?thesis using sends_mono [OF send_hop_sends [OF h], of 1 "same_material req"] by (simp add: made_from_def)
qed (use assms in simp)

lemma sendWithRedirects_returns:
  "maxRedirects < length chain + length es \<Longrightarrow> es \<noteq> [] \<Longrightarrow> sendWithRedirects rt es req url chain sync b \<noteq> None"
proof (induction es arbitrary: url chain sync b)
  case (Cons e es)
  obtain h own1 b1 where h: "send_hop rt e req url chain sync b = (h, own1, b1)" by (metis prod.exhaust)
  have "sendWithRedirects rt es req n ch False b1 \<noteq> None" if "redirect_next rt (he_redirect e) req url chain r b1 = Follow n ch" for r n ch
    using Cons.IH [of ch n False b1] Cons.prems redirect_next_Follow(1,2) [OF that] by (cases es) auto
  then show ?case using h by (simp del: not_None_eq split: hop_result.split redirect_step.split)
qed simp

section \<open>Requests\<close>

lemma retry_attempts_sends:
  "retry_attempts rt opts req atts attempt lastResult b = Some (res, own, b') \<Longrightarrow> maxAttempts opts = jsint (int m) \<Longrightarrow>
     sends ((Suc m - attempt) * Suc maxRedirects) rt (same_material req) b own b'"
proof (induction atts arbitrary: attempt lastResult b res own)
  case Nil
  then show ?case by (auto simp: sends_none split: if_splits)
next
  case (Cons a atts)
  obtain hops slept where a: "a = (hops, slept)" by (rule prod.exhaust)
  show ?case
  proof (cases "attempt \<le> m")
    case True
    obtain r own1 b1 where s: "sendWithRedirects rt hops req (rq_url req) [] False b = Some (r, own1, b1)"
      using Cons.prems True unfolding a by (auto split: option.splits)
    have s1: "sends (Suc maxRedirects) rt (same_material req) b own1 b1" using sendWithRedirects_sends [OF s] by simp
    consider "own = own1" "b' = b1" | own2 r' where "own = own1 @ own2"
        "retry_attempts rt opts req atts (Suc attempt) (Some r') (broker_run rt slept b1) = Some (res, own2, b')"
      using Cons.prems True s unfolding a by (cases r) (auto split: if_splits)
    then show ?thesis
    proof cases
      case 1
      have "Suc maxRedirects \<le> (Suc m - attempt) * Suc maxRedirects" using True by (simp add: Suc_diff_le)
      then show ?thesis using sends_mono [OF s1] 1 by blast
    next
      case 2
      have "sends ((Suc m - Suc attempt) * Suc maxRedirects) rt (same_material req) (broker_run rt slept b1) own2 b'" by (rule Cons.IH [OF 2(2) Cons.prems(2)])
      then have "sends (Suc maxRedirects + (Suc m - Suc attempt) * Suc maxRedirects) rt (same_material req) b own b'"
        using sends_append [OF sends_after [OF s1 reaches_run]] 2(1) by blast
      moreover have "Suc m - attempt = Suc (Suc m - Suc attempt)" using True by simp
      ultimately show ?thesis by (simp only: mult_Suc)
    qed
  next
    case False
    then show ?thesis using Cons.prems by (auto simp: sends_none)
  qed
qed

lemma retry_attempts_returns:
  assumes "maxAttempts opts = jsint (int m)" "\<forall>a \<in> set atts. maxRedirects < length (fst a)"
  shows "m < attempt + length atts \<Longrightarrow> retry_attempts rt opts req atts attempt lastResult b \<noteq> None"
  using assms(2)
proof (induction atts arbitrary: attempt lastResult b)
  case Nil
  then show ?case using assms(1) by simp
next
  case (Cons a atts)
  obtain hops slept where a: "a = (hops, slept)" by (rule prod.exhaust)
  have "sendWithRedirects rt hops req (rq_url req) [] False b \<noteq> None"
    by (rule sendWithRedirects_returns) (use Cons.prems(2) a in auto)
  then obtain r own1 b1 where s: "sendWithRedirects rt hops req (rq_url req) [] False b = Some (r, own1, b1)" by (metis not_None_eq prod.exhaust)
  have "retry_attempts rt opts req atts (Suc attempt) l c \<noteq> None" for l c using Cons.IH [of "Suc attempt" l c] Cons.prems by simp
  then show ?case using s by (simp add: a del: not_None_eq split: send_result.split)
qed

lemma queued_task_sends:
  assumes "queued_task rt opts se req bypass b = Some (t, own, b')" "maxAttempts opts = jsint (int m)"
  shows "sends (if isMutationMethod (rq_method req) then 1 else max 1 m * Suc maxRedirects) rt (same_material req) b own b'"
proof -
  consider "own = []" "b' = b" | hops r where "sendWithRedirects rt hops req (rq_url req) [] bypass b = Some (r, own, b')"
    | "retry_attempts rt opts req (se_attempts se) 1 None b = Some (t, own, b')" "\<not> isMutationMethod (rq_method req)"
    using assms(1) by (auto simp del: retry_attempts.simps simp: queued_task_def split: if_splits list.splits)
  then show ?thesis
  proof cases
    case 2
    have "1 * Suc maxRedirects \<le> max 1 m * Suc maxRedirects" by (rule mult_le_mono1) simp
    then have "Suc maxRedirects \<le> max 1 m * Suc maxRedirects" by (simp only: mult_1)
    then show ?thesis using sendWithRedirects_single [OF 2] sendWithRedirects_sends [OF 2] sends_mono [of _ rt "same_material req" b own b'] by auto
  next
    case 3
    have "sends (m * Suc maxRedirects) rt (same_material req) b own b'" using retry_attempts_sends [OF 3(1) assms(2)] by simp
    moreover have "m * Suc maxRedirects \<le> max 1 m * Suc maxRedirects" by (rule mult_le_mono1) simp
    ultimately show ?thesis using 3(2) sends_mono [of _ rt "same_material req" b own b'] by auto
  qed (simp add: sends_none)
qed

lemma settle_reaches: "settle req dup t b = (r, b') \<Longrightarrow> reaches rt b b'"
proof -
  assume h: "settle req dup t b = (r, b')"
  have "reaches rt b (recordAudit x b)" for x using reaches_exec [of rt b "OpAudit x"] by simp
  then show ?thesis using h by (auto simp: settle_def Let_def split: task_result.splits if_splits)
qed

lemma sendRequest_sends:
  assumes h: "sendRequest rt opts se req bypass b = Some (res, own, b')" and m: "maxAttempts opts = jsint (int m)"
  shows "sends (if isMutationMethod (rq_method req) then 1 else max 1 m * Suc maxRedirects) rt (same_material req) b own b'"
proof -
  let ?d = "decide rt (bk_matcher b) (se_scope se) (rq_url req) (rq_method req) (rq_body req)"
  have au: "reaches rt b (recordAudit x b)" for x using reaches_exec [of rt b "OpAudit x"] by simp
  consider "own = []" "reaches rt b b'" | url where "sd_allowed ?d" "sd_normalizedUrl ?d = Some url" "\<not> se_aborted se" "mode_refusal req b = None"
    using h au by (auto simp: sendRequest_def Let_def split: if_splits option.splits)
  then show ?thesis
  proof cases
    case 2
    let ?req = "req\<lparr>rq_url := url\<rparr>" and ?b1 = "recordOrdinaryGetIntent rt (rq_method req) url b"
    have sm: "same_material ?req = same_material req" by (simp add: same_material_def fun_eq_iff)
    show ?thesis
    proof (cases "if cacheable req then se_cached se else None")
      case (Some t)
      obtain r b2 where st: "settle ?req True t (broker_run rt (se_cacheWait se) ?b1) = (r, b2)" by (rule prod.exhaust)
      have "reaches rt b b2" by (rule reaches_trans [OF intent_reaches reaches_trans [OF reaches_run settle_reaches [OF st]]])
      moreover have "own = [] \<and> b' = b2" using h 2 Some st by (simp add: sendRequest_def)
      ultimately show ?thesis by (simp add: sends_none)
    next
      case None
      obtain t own' b2 where q: "queued_task rt opts se ?req bypass (broker_run rt (se_queue se) ?b1) = Some (t, own', b2)"
        using h 2 None by (auto simp: sendRequest_def Let_def)
      obtain r b3 where st: "settle ?req False t (broker_run rt (se_settled se) b2) = (r, b3)" by (rule prod.exhaust)
      have "own = own' \<and> b' = b3" using h 2 None q st by (simp add: sendRequest_def)
      then show ?thesis
        using sends_after [OF sends_before [OF reaches_trans [OF intent_reaches reaches_run] queued_task_sends [OF q m, unfolded sm]]
            reaches_trans [OF reaches_run settle_reaches [OF st]]] by simp
    qed
  qed (simp add: sends_none)
qed

section \<open>Material and origins\<close>

text \<open>
  What the redirect rule relies on of the runtime's URL class: a serialised URL is absolute, so a base makes no
  difference; a parsed web URL has its host in lower case, no default port and an absolute path; and replacing path and query of a
  parsed web URL and dropping its fragment does not change the origin it serialises to.
\<close>

definition url_laws :: "url_runtime \<Rightarrow> bool" where
  "url_laws rt \<longleftrightarrow>
     (\<forall>u base. ur_resolve rt (ur_toString rt u) base = rt_newURL rt (ur_toString rt u)) \<and>
     (\<forall>s u. rt_newURL rt s = Some u \<longrightarrow> is_web_protocol (u_protocol u) \<longrightarrow>
        to_lower (u_hostname u) = u_hostname u \<and> \<not> isDefaultPort u \<and> starts_with (u_pathname u) ''/'') \<and>
     (\<forall>s u p q d. rt_newURL rt s = Some u \<longrightarrow> is_web_protocol (u_protocol u) \<longrightarrow> starts_with p ''/'' \<longrightarrow>
        rt_newURL rt (ur_toString rt (u\<lparr>u_pathname := p, u_search := q, u_hash := []\<rparr>)) = Some d \<longrightarrow> url_origin d = url_origin u)"

lemma same_origin_web: "url_origin d = url_origin u \<Longrightarrow> is_web_protocol (u_protocol u) \<Longrightarrow> is_web_protocol (u_protocol d)"
  by (auto simp: url_origin_def is_web_protocol_def split: if_splits)

lemma collapse_slashes_slash: "starts_with p ''/'' \<Longrightarrow> starts_with (collapse_slashes p) ''/''"
  by (induction p rule: collapse_slashes.induct) (auto simp: starts_with_def)

lemma normalized_origin:
  assumes laws: "url_laws rt" and n: "normalizeUrl rt (ur_toString rt v) (Some base) = Some n"
    and d: "rt_newURL rt (ur_toString rt v) = Some d" "is_web_protocol (u_protocol d)" and e: "rt_newURL rt n = Some e"
  shows "url_origin e = url_origin d"
proof -
  have r: "ur_resolve rt (ur_toString rt v) base = Some d" using laws d(1) by (simp add: url_laws_def)
  have l: "to_lower (u_hostname d) = u_hostname d" "\<not> isDefaultPort d" "starts_with (u_pathname d) ''/''"
    using laws d unfolding url_laws_def by blast+
  have "normalize_parts rt d = d\<lparr>u_pathname := normalizePathname (u_pathname d), u_search := normalizeSearchParams rt (u_search d), u_hash := []\<rparr>"
    using l(1,2) by (simp add: normalize_parts_def Let_def isDefaultPort_def)
  moreover have "starts_with (normalizePathname (u_pathname d)) ''/''"
    using collapse_slashes_slash [OF l(3)] by (simp add: normalizePathname_def starts_with_def)
  ultimately show ?thesis using laws d n e r unfolding url_laws_def normalizeUrl_def by auto
qed

lemma sendWithRedirects_origin:
  assumes laws: "url_laws rt" and mat: "rq_headers req \<noteq> [] \<or> (\<exists>x. rq_body req = Some x \<and> x \<noteq> [])"
  shows "sendWithRedirects rt es req url chain sync b = Some (res, own, b') \<Longrightarrow> rt_newURL rt url = Some u \<Longrightarrow> is_web_protocol (u_protocol u) \<Longrightarrow>
     i \<in> set own \<Longrightarrow> \<exists>v. rt_newURL rt (it_url i) = Some v \<and> url_origin v = url_origin u"
proof (induction es arbitrary: url chain sync b own u)
  case (Cons e es)
  obtain h own1 b1 where h: "send_hop rt e req url chain sync b = (h, own1, b1)" by (metis prod.exhaust)
  have o1: "it_url i = url" if "i \<in> set own1" using send_hop_sends [OF h] that by (auto simp: sends_def made_from_def)
  show ?case
  proof (cases "i \<in> set own1")
    case False
    then obtain r n ch own2 where f: "redirect_next rt (he_redirect e) req url chain r b1 = Follow n ch" "i \<in> set own2"
      "sendWithRedirects rt es req n ch False b1 = Some (res, own2, b')"
      using Cons.prems(1,4) h by (auto split: hop_result.splits redirect_step.splits)
    obtain v u' d where g: "rt_newURL rt (ur_toString rt v) = Some d" "rt_newURL rt url = Some u'" "rt_newURL rt n \<noteq> None"
      "normalizeUrl rt (ur_toString rt v) (Some (sm_target (bk_matcher b1))) = Some n" "url_origin d = url_origin u'"
      using redirect_next_Follow(5) [OF f(1)] mat by blast
    then obtain w where w: "rt_newURL rt n = Some w" by blast
    have du: "url_origin d = url_origin u" "is_web_protocol (u_protocol d)" using g(2,5) Cons.prems(2,3) same_origin_web by auto
    have wu: "url_origin w = url_origin u" using normalized_origin [OF laws g(4,1) du(2) w] du(1) by simp
    then show ?thesis using Cons.IH [OF f(3) w same_origin_web [OF wu Cons.prems(3)] f(2)] by simp
  qed (use o1 Cons.prems(2) in simp)
qed simp

text \<open>A raw pair that is committed after its preparation has both members in scope, on one origin, without line breaks or framing headers.\<close>

lemma plan_raw_Planned:
  assumes "plan_raw rt tk r b = RawPlanned post surl"
  shows "\<exists>u su. rt_newURL rt (rq_url post) = Some u \<and> rt_newURL rt surl = Some su \<and> url_origin su = url_origin u"
    "\<forall>h \<in> set (rq_headers post). \<not> framing_header_blocked h" "rq_body post = Some (raw_body (rw_body r))" "rq_method post = ''POST''"
  using assms by (auto simp: plan_raw_def Let_def list_ex_iff split: if_splits option.splits)

section \<open>Properties\<close>

text \<open>
  C10: a send adds nothing to the broker's operations. However long it waits, is redirected, retried, cancelled or answered from the
  cache, it leads from one state of the broker to the next by a sequence of the operations of the broker and its peers, so that everything that holds
  of all runs holds of sends. What it initiated is in the log with the caller's verb, header names and body: at most one
  request when the verb changes state, otherwise at most six for each attempt the retry policy allows.
\<close>

theorem sends_are_broker_operations:
  assumes "sendRequest rt opts se req bypass b = Some (res, own, b')" "maxAttempts opts = jsint (int m)"
  shows "(\<exists>xs. b' = broker_run rt xs b) \<and> length own \<le> (if isMutationMethod (rq_method req) then 1 else max 1 m * 6) \<and>
    (\<forall>i \<in> set own. i \<in> set (bk_initiated b') \<and> it_method i = rq_method req \<and> it_headers i = map fst (rq_headers req) \<and> it_body i = rq_body req)"
  using sendRequest_sends [OF assms] by (auto simp: sends_def reaches_def same_material_def maxRedirects_def)

text \<open>
  C9: material the caller supplied stays with its origin. A request with headers or a body goes, over any chain of redirects the server answers with, only
  to the origin it was made for.
\<close>

theorem redirects_keep_material_with_origin:
  assumes "url_laws rt" "rq_headers req \<noteq> [] \<or> (\<exists>x. rq_body req = Some x \<and> x \<noteq> [])" "rt_newURL rt url = Some u" "is_web_protocol (u_protocol u)"
    "sendWithRedirects rt es req url [] sync b = Some (res, own, b')" "i \<in> set own"
  shows "\<exists>v. rt_newURL rt (it_url i) = Some v \<and> url_origin v = url_origin u"
  using sendWithRedirects_origin [OF assms(1,2,5,3,4,6)] .

text \<open>
  a send ends. When each attempt is given the answers of six hops and there is an attempt for each one the policy allows, the request
  returns: redirects cannot keep it going, since at most five are followed.
\<close>

theorem send_returns:
  assumes "maxAttempts opts = jsint (int m)" "\<forall>a \<in> set (se_attempts se). 6 \<le> length (fst a)" "se_attempts se \<noteq> []" "m \<le> length (se_attempts se)"
  shows "\<exists>res own b'. sendRequest rt opts se req bypass b = Some (res, own, b')"
proof -
  have six: "\<forall>a \<in> set (se_attempts se). maxRedirects < length (fst a)" using assms(2) by (auto simp: maxRedirects_def)
  have "queued_task rt opts se q bypass c \<noteq> None" for q c
  proof -
    obtain a atts where a: "se_attempts se = a # atts" using assms(3) by (cases "se_attempts se") auto
    have "sendWithRedirects rt (fst a) q (rq_url q) [] bypass c \<noteq> None" by (rule sendWithRedirects_returns) (use six a in auto)
    moreover have "retry_attempts rt opts q (se_attempts se) 1 None c \<noteq> None" by (rule retry_attempts_returns [OF assms(1) six]) (use assms(4) in simp)
    ultimately show ?thesis by (cases a) (simp add: queued_task_def a del: not_None_eq retry_attempts.simps)
  qed
  then have "sendRequest rt opts se req bypass b \<noteq> None"
    by (simp add: sendRequest_def Let_def del: not_None_eq split: option.split prod.split)
  then show ?thesis by (metis not_None_eq prod.exhaust)
qed

section \<open>An example\<close>

definition example_transport :: "int \<Rightarrow> string \<Rightarrow> transport_env" where
  "example_transport status location =
     \<lparr>te_http2Enabled = False,
      te_pin = Inr \<lparr>pn_origin = ''https://a.io'', pn_hostname = ''a.io'', pn_port = ''443'', pn_protocol = ''https:'',
                   pn_address = \<lparr>da_address = ''93.184.216.34'', da_family = 4\<rparr>, pn_addressFingerprint = ''f'',
                   pn_privateOriginExceptionUsed = False, pn_answerCount = 1\<rparr>,
      te_acquire = None, te_before = [], te_starts = [\<lparr>st_tick = example_tick 20, st_signal = None, st_after = []\<rparr>],
      te_outcome = Inr \<lparr>nt_statusCode = status, nt_headers = (if location = [] then [] else [(''Location'', HeaderText location)]), nt_declaredTooLong = False\<rparr>,
      te_aborted = False\<rparr>"

definition example_hop :: "int \<Rightarrow> string \<Rightarrow> hop_env" where
  "example_hop status location =
     \<lparr>he_aborted = False, he_rate = [], he_rateAborted = False, he_task = 7, he_acquireAborted = False, he_slot = [], he_slotAborted = False,
      he_admitAborted = False, he_pace = [], he_final = example_tick 20, he_transport = example_transport status location, he_redirect = 20\<rparr>"

definition example_send :: "(hop_env list \<times> broker_op list) list \<Rightarrow> send_env" where
  "example_send atts =
     \<lparr>se_aborted = False, se_scope = 20, se_cached = None, se_cacheWait = [], se_queue = [], se_queueAborted = False, se_attempts = atts, se_settled = []\<rparr>"

definition example_retry :: "int \<Rightarrow> retry_options" where
  "example_retry n = \<lparr>maxAttempts = jsint n, baseDelayMs = jsint 250, maxDelayMs = jsint 400, retryStatusCodes = [503]\<rparr>"

definition plain_broker :: broker where
  "plain_broker = new_broker (jsint 9) False False False id example_matcher None"

definition own_of :: "(request_result \<times> initiation list \<times> broker) option \<Rightarrow> initiation list" where
  "own_of x = (case x of None \<Rightarrow> [] | Some (_, own, _) \<Rightarrow> own)"

lemma example_redirected:
  "map it_url (own_of (broker_send example_url_runtime (example_retry 1)
       (example_send [([example_hop 302 ''https://a.io/y'', example_hop 200 []], [])]) example_get plain_broker)) = [''https://a.io/x'', ''https://a.io/y'']"
  by code_simp

theorem sends_are_broker_operations_witness:
  "length (own_of (sendRequest example_url_runtime (example_retry 1)
       (example_send [([example_hop 302 ''https://a.io/y'', example_hop 200 []], [])]) example_get False plain_broker)) \<le> 6"
proof -
  let ?x = "sendRequest example_url_runtime (example_retry 1) (example_send [([example_hop 302 ''https://a.io/y'', example_hop 200 []], [])]) example_get False plain_broker"
  have "?x \<noteq> None"
  proof
    assume "?x = None"
    then show False using example_redirected by (simp add: broker_send_def own_of_def)
  qed
  then obtain r own b' where x: "?x = Some (r, own, b')" by (metis not_None_eq prod.exhaust)
  have "maxAttempts (example_retry 1) = jsint (int 1)" by (simp add: example_retry_def)
  moreover have "\<not> isMutationMethod (rq_method example_get)" by code_simp
  ultimately have "length own \<le> 6" using sends_are_broker_operations [OF x, of 1] by simp
  then show ?thesis by (simp only: x own_of_def option.case prod.case)
qed

text \<open>A runtime with the laws of the URL class: it parses the spelled-out URLs of the examples when their host is in lower case.\<close>

definition lower_https :: "string \<Rightarrow> url option" where
  "lower_https s = (case split_https s of None \<Rightarrow> None | Some u \<Rightarrow> if to_lower (u_hostname u) = u_hostname u then Some u else None)"

definition example_web_runtime :: url_runtime where
  "example_web_runtime = example_url_runtime\<lparr>rt_newURL := lower_https, ur_resolve := (\<lambda>s b. lower_https s)\<rparr>"

lemma lower_https_Some:
  assumes "lower_https s = Some u"
  shows "\<exists>h p. u = url_of_parts ''https:'' h p \<and> CHR ''/'' \<notin> set h \<and> to_lower h = h \<and> starts_with p ''/''"
proof -
  have s: "split_https s = Some u" "to_lower (u_hostname u) = u_hostname u" using assms by (auto simp: lower_https_def split: option.splits if_splits)
  let ?p = "dropWhile (\<lambda>c. c \<noteq> CHR ''/'') (drop 8 s)" and ?h = "takeWhile (\<lambda>c. c \<noteq> CHR ''/'') (drop 8 s)"
  have "u = url_of_parts ''https:'' ?h (if ?p = [] then ''/'' else ?p)" using s(1) by (auto simp: split_https_def Let_def split: if_splits)
  moreover have "starts_with (if ?p = [] then ''/'' else ?p) ''/''" using hd_dropWhile [of "\<lambda>c. c \<noteq> CHR ''/''" "drop 8 s"]
    by (cases ?p) (auto simp: starts_with_def)
  moreover have "CHR ''/'' \<notin> set ?h" using set_takeWhileD by fastforce
  ultimately show ?thesis using s(2) by (auto simp: url_of_parts_def)
qed

lemma lower_https_host: "CHR ''/'' \<notin> set h \<Longrightarrow> starts_with p ''/'' \<Longrightarrow> lower_https (''https://'' @ h @ p @ q) = Some d \<Longrightarrow> url_origin d = ''https://'' @ h"
proof -
  assume h: "CHR ''/'' \<notin> set h" and p: "starts_with p ''/''" and d: "lower_https (''https://'' @ h @ p @ q) = Some d"
  obtain r where r: "p = CHR ''/'' # r" using p by (auto simp: starts_with_iff)
  have "takeWhile (\<lambda>c. c \<noteq> CHR ''/'') (h @ p @ q) = h" using h by (subst takeWhile_append2) (auto simp: r)
  moreover have "starts_with (''https://'' @ h @ p @ q) ''https://''" "8 < length (''https://'' @ h @ p @ q)" "drop 8 (''https://'' @ h @ p @ q) = h @ p @ q"
    by (simp_all add: starts_with_def r)
  ultimately obtain x where "split_https (''https://'' @ h @ p @ q) = Some (url_of_parts ''https:'' h x)" by (simp only: split_https_def Let_def if_True simp_thms)
  then have "d = url_of_parts ''https:'' h x" using d by (simp only: lower_https_def option.case option.inject option.distinct split: if_splits)
  then show ?thesis by (simp add: url_of_parts_def url_origin_def url_host_def)
qed

lemma example_url_laws: "url_laws example_web_runtime"
proof -
  have "ur_resolve example_web_runtime s base = rt_newURL example_web_runtime s" for s base by (simp add: example_web_runtime_def)
  moreover have "to_lower (u_hostname u) = u_hostname u \<and> \<not> isDefaultPort u \<and> starts_with (u_pathname u) ''/''"
    if "rt_newURL example_web_runtime s = Some u" for s u
    using lower_https_Some [of s u] that by (auto simp: example_web_runtime_def url_of_parts_def isDefaultPort_def)
  moreover have "url_origin d = url_origin u"
    if u: "rt_newURL example_web_runtime s = Some u" and p: "starts_with p ''/''"
      and d: "rt_newURL example_web_runtime (ur_toString example_web_runtime (u\<lparr>u_pathname := p, u_search := q, u_hash := []\<rparr>)) = Some d" for s u p q d
  proof -
    obtain h path where u': "u = url_of_parts ''https:'' h path" "CHR ''/'' \<notin> set h"
      using lower_https_Some [of s u] u by (auto simp: example_web_runtime_def)
    have "lower_https (''https://'' @ h @ p @ q) = Some d"
      using d by (simp add: example_web_runtime_def example_url_runtime_def u' url_of_parts_def url_host_def)
    then show ?thesis using lower_https_host [OF u'(2) p] by (simp add: u' url_of_parts_def url_origin_def url_host_def)
  qed
  ultimately show ?thesis unfolding url_laws_def by blast
qed

definition example_chain :: "(send_result \<times> initiation list \<times> broker) option" where
  "example_chain = sendWithRedirects example_web_runtime [example_hop 302 ''https://a.io/y'', example_hop 302 ''https://b.io/z'']
     example_get ''https://a.io/x'' [] False plain_broker"

lemma example_chain_own: "map_option (\<lambda>(_, own, _). map it_url own) example_chain = Some [''https://a.io/x'', ''https://a.io/y'']"
  by code_simp

theorem redirects_keep_material_with_origin_witness:
  "\<exists>res i j b' v. example_chain = Some (res, [i, j], b') \<and> rt_newURL example_web_runtime (it_url j) = Some v \<and> url_origin v = ''https://a.io''"
proof -
  obtain res i j b' where e: "example_chain = Some (res, [i, j], b')" using example_chain_own by auto
  have u: "rt_newURL example_web_runtime ''https://a.io/x'' = Some (url_of_parts ''https:'' ''a.io'' ''/x'')" by code_simp
  have "\<exists>v. rt_newURL example_web_runtime (it_url j) = Some v \<and> url_origin v = url_origin (url_of_parts ''https:'' ''a.io'' ''/x'')"
    by (rule redirects_keep_material_with_origin [OF example_url_laws _ u _ e [unfolded example_chain_def]])
      (simp_all add: example_get_def url_of_parts_def is_web_protocol_def)
  moreover have "url_origin (url_of_parts ''https:'' ''a.io'' ''/x'') = ''https://a.io''" by code_simp
  ultimately show ?thesis using e by auto
qed

end
