(* ===== verification/RC_Bytes.thy ===== *)
theory RC_Bytes
  imports RC_Net
begin

unbundle bit_operations_syntax

text \<open>
  Byte buffers and the text that goes into them: the part of \<^verbatim>\<open>Buffer\<close>, of the string encodings and of
  \<^verbatim>\<open>Date\<close> that the wire formats of the program use. A buffer is a list of 8-bit words; an integer read from it
  is the number JavaScript gives. The locale states what a reader relies on from a fixed-width big-endian integer field:
  its width, and that reading at its position gives back what was written.
\<close>

section \<open>Buffers\<close>

type_synonym buffer = "8 word list"

text \<open>\<^verbatim>\<open>b.subarray(i, j)\<close>; both ends are clipped to the buffer.\<close>

definition subarray :: "buffer \<Rightarrow> nat \<Rightarrow> nat \<Rightarrow> buffer" where
  "subarray b i j = take (j - i) (drop i b)"

text \<open>
  \<^verbatim>\<open>readUInt16BE\<close>, \<^verbatim>\<open>readUInt32BE\<close> and \<^verbatim>\<open>readBigUInt64BE\<close> at an offset the caller has
  checked, and the corresponding writes of a value in range.
\<close>

fun be_value :: "int \<Rightarrow> buffer \<Rightarrow> int" where
  "be_value acc [] = acc"
| "be_value acc (x # xs) = be_value (256 * acc + uint x) xs"

definition readUIntBE :: "nat \<Rightarrow> buffer \<Rightarrow> nat \<Rightarrow> int" where
  "readUIntBE n b i = be_value 0 (take n (drop i b))"

fun writeUIntBE :: "nat \<Rightarrow> int \<Rightarrow> buffer" where
  "writeUIntBE 0 v = []"
| "writeUIntBE (Suc n) v = writeUIntBE n (v div 256) @ [word_of_int v]"

abbreviation readUInt16BE :: "buffer \<Rightarrow> nat \<Rightarrow> int" where
  "readUInt16BE \<equiv> readUIntBE 2"

abbreviation readUInt32BE :: "buffer \<Rightarrow> nat \<Rightarrow> int" where
  "readUInt32BE \<equiv> readUIntBE 4"

abbreviation readBigUInt64BE :: "buffer \<Rightarrow> nat \<Rightarrow> int" where
  "readBigUInt64BE \<equiv> readUIntBE 8"

text \<open>
  Text to bytes and back. UTF-8 takes one byte for a character below 128 and two for the others of the model;
  decoding as \<^verbatim>\<open>ascii\<close> clears the highest bit of every byte, as \<^verbatim>\<open>Buffer.toString("ascii")\<close> does.
\<close>

definition utf8_char :: "char \<Rightarrow> buffer" where
  "utf8_char c = (let n = of_char c :: int in
     if n < 128 then [word_of_int n] else [word_of_int (192 + n div 64), word_of_int (128 + n mod 64)])"

definition utf8_bytes :: "string \<Rightarrow> buffer" where
  "utf8_bytes s = concat (map utf8_char s)"

definition ascii_char :: "8 word \<Rightarrow> char" where
  "ascii_char b = char_of (uint (b AND 127))"

definition ascii_text :: "buffer \<Rightarrow> string" where
  "ascii_text = map ascii_char"

section \<open>Fixed-width integers on the wire\<close>

locale wire_int =
  fixes width :: nat and put :: "int \<Rightarrow> buffer" and get :: "buffer \<Rightarrow> nat \<Rightarrow> int"
  assumes put_length: "length (put v) = width"
    and get_local: "i + width \<le> length xs \<Longrightarrow> get (xs @ ys) i = get xs i"
    and get_shift: "get (xs @ ys) (length xs + i) = get ys i"
    and get_put: "0 \<le> v \<Longrightarrow> v < 256 ^ width \<Longrightarrow> get (put v) 0 = v"
begin

lemma get_field: "0 \<le> v \<Longrightarrow> v < 256 ^ width \<Longrightarrow> length xs = i \<Longrightarrow> get (xs @ put v @ ys) i = v"
  using get_shift [of xs "put v @ ys" 0] get_local [of 0 "put v" ys] get_put [of v] put_length [of v] by simp

lemma get_head: "0 \<le> v \<Longrightarrow> v < 256 ^ width \<Longrightarrow> get (put v @ ys) 0 = v"
  using get_field [of v "[]" 0 ys] by simp

lemma put_inj:
  assumes "put v = put w" "0 \<le> v" "v < 256 ^ width" "0 \<le> w" "w < 256 ^ width" shows "v = w"
  using assms get_put by metis

end

lemma be_value_append: "be_value acc (xs @ ys) = be_value (be_value acc xs) ys"
  by (induction acc xs rule: be_value.induct) auto

lemma be_value_acc: "be_value acc xs = acc * 256 ^ length xs + be_value 0 xs"
proof (induction xs arbitrary: acc)
  case (Cons x xs)
  show ?case using Cons [of "256 * acc + uint x"] Cons [of "uint x"] by (simp add: algebra_simps)
qed simp

lemma be_value_range: "0 \<le> be_value 0 xs \<and> be_value 0 xs < 256 ^ length xs"
proof (induction xs rule: rev_induct)
  case (snoc x xs)
  have "0 \<le> uint x" "uint x < 256" using unsigned_less [of x, where ?'a = int] by simp_all
  then show ?case using snoc by (simp add: be_value_append)
qed simp

lemma length_writeUIntBE [simp]: "length (writeUIntBE n v) = n"
  by (induction n v rule: writeUIntBE.induct) auto

lemma be_value_write: "0 \<le> v \<Longrightarrow> v < 256 ^ n \<Longrightarrow> be_value 0 (writeUIntBE n v) = v"
proof (induction n arbitrary: v)
  case (Suc n)
  have "v div 256 < 256 ^ n" using Suc.prems by (simp add: div_less_iff_less_mult mult.commute)
  moreover have "0 \<le> v div 256" using Suc.prems by simp
  ultimately have "be_value 0 (writeUIntBE n (v div 256)) = v div 256" using Suc.IH by blast
  then show ?case by (simp add: be_value_append uint_word_of_int)
qed simp

interpretation uint_be: wire_int n "writeUIntBE n" "readUIntBE n" for n
proof
  show "length (writeUIntBE n v) = n" for v by simp
  show "i + n \<le> length xs \<Longrightarrow> readUIntBE n (xs @ ys) i = readUIntBE n xs i" for i xs ys
    by (simp add: readUIntBE_def)
  show "readUIntBE n (xs @ ys) (length xs + i) = readUIntBE n ys i" for xs ys i
    by (simp add: readUIntBE_def)
  show "0 \<le> v \<Longrightarrow> v < 256 ^ n \<Longrightarrow> readUIntBE n (writeUIntBE n v) 0 = v" for v
    by (simp add: readUIntBE_def be_value_write)
qed

lemma readUIntBE_range: "0 \<le> readUIntBE n b i \<and> readUIntBE n b i < 256 ^ n"
proof -
  have "length (take n (drop i b)) \<le> n" by simp
  then have "(256::int) ^ length (take n (drop i b)) \<le> 256 ^ n" by (rule power_increasing) simp
  then show ?thesis using be_value_range [of "take n (drop i b)"] unfolding readUIntBE_def by linarith
qed

lemma length_subarray [simp]: "length (subarray b i j) = min (j - i) (length b - i)"
  by (simp add: subarray_def)

lemma subarray_append_shift: "subarray (xs @ ys) (length xs + i) (length xs + j) = subarray ys i j"
  by (simp add: subarray_def)

lemma subarray_prefix: "j \<le> length xs \<Longrightarrow> subarray (xs @ ys) i j = subarray xs i j"
  by (auto simp: subarray_def)

lemma subarray_middle: "length xs = i \<Longrightarrow> length ys = k \<Longrightarrow> subarray (xs @ ys @ zs) i (i + k) = ys"
  by (simp add: subarray_def)

section \<open>Encodings\<close>

definition is_ascii :: "char \<Rightarrow> bool" where
  "is_ascii c \<longleftrightarrow> (of_char c :: int) < 128"

lemma utf8_ascii: "is_ascii c \<Longrightarrow> utf8_char c = [word_of_int (of_char c)]"
  by (simp add: utf8_char_def is_ascii_def)

lemma utf8_bytes_simps [simp]:
  "utf8_bytes [] = []"
  "utf8_bytes (c # s) = utf8_char c @ utf8_bytes s"
  "utf8_bytes (s @ t) = utf8_bytes s @ utf8_bytes t"
  by (simp_all add: utf8_bytes_def)

lemma length_utf8_ascii: "list_all is_ascii s \<Longrightarrow> length (utf8_bytes s) = length s"
  by (induction s) (simp_all add: utf8_ascii)

lemma of_char_int_range: "0 \<le> (of_char c :: int) \<and> (of_char c :: int) < 256"
  by (metis of_char_of take_bit_nonnegative of_nat_of_char of_nat_0_le_iff nat_of_char_less_256 of_nat_less_iff of_nat_numeral)

lemma ascii_char_utf8: assumes "is_ascii c" shows "ascii_char (word_of_int (of_char c)) = c"
proof -
  define n :: int where "n = of_char c"
  have n: "0 \<le> n" "n < 128" using assms of_char_int_range [of c] by (simp_all add: n_def is_ascii_def)
  have m: "(127::int) = mask 7" by (simp add: mask_eq_exp_minus_1)
  have "uint ((word_of_int n :: 8 word) AND 127) = n"
    using n by (simp add: uint_and uint_word_of_int m flip: take_bit_eq_mask) (simp add: take_bit_eq_mod)
  then show ?thesis by (simp add: ascii_char_def n_def)
qed

lemma ascii_text_utf8: "list_all is_ascii s \<Longrightarrow> ascii_text (utf8_bytes s) = s"
  by (induction s) (simp_all add: utf8_ascii ascii_text_def ascii_char_utf8)

section \<open>Dates\<close>

text \<open>
  \<^verbatim>\<open>new Date(ms).toISOString()\<close>: the proleptic Gregorian date of the instant, with the year in four digits from
  0 to 9999 and in a sign and six digits elsewhere.
\<close>

definition civil_from_days :: "int \<Rightarrow> int \<times> int \<times> int" where
  "civil_from_days days =
     (let z = days + 719468; era = z div 146097; doe = z mod 146097;
          yoe = (doe - doe div 1460 + doe div 36524 - doe div 146096) div 365;
          doy = doe - (365 * yoe + yoe div 4 - yoe div 100); mp = (5 * doy + 2) div 153;
          d = doy - (153 * mp + 2) div 5 + 1; m = (if mp < 10 then mp + 3 else mp - 9);
          y = yoe + era * 400 + (if m \<le> 2 then 1 else 0)
      in (y, m, d))"

definition pad_left :: "nat \<Rightarrow> string \<Rightarrow> string" where
  "pad_left n s = replicate (n - length s) (CHR ''0'') @ s"

definition iso_year :: "int \<Rightarrow> string" where
  "iso_year y = (if 0 \<le> y \<and> y \<le> 9999 then pad_left 4 (show_base 10 y)
                 else (if y < 0 then ''-'' else ''+'') @ pad_left 6 (show_base 10 (abs y)))"

definition toISOString :: "int \<Rightarrow> string" where
  "toISOString ms =
     (let days = ms div 86400000; r = ms mod 86400000; two = (\<lambda>n. pad_left 2 (show_base 10 n)) in
      case civil_from_days days of (y, m, d) \<Rightarrow>
        iso_year y @ ''-'' @ two m @ ''-'' @ two d @ ''T'' @ two (r div 3600000) @ '':'' @ two (r div 60000 mod 60) @ '':''
        @ two (r div 1000 mod 60) @ ''.'' @ pad_left 3 (show_base 10 (r mod 1000)) @ ''Z'')"

lemma toISOString_epoch: "toISOString 1700000000123 = ''2023-11-14T22:13:20.123Z''"
  by code_simp

end
