(* ===== verification/RC_OastDns.thy ===== *)
theory RC_OastDns
  imports RC_Bytes
begin

unbundle bit_operations_syntax

text \<open>
  The DNS wire format of the callback service: \<^verbatim>\<open>oast/OastDns.ts\<close> (the query parser, the identity carried by a
  name, the authoritative answer, the question a client sends), the answer inspection of \<^verbatim>\<open>oast/OastDnsTransport.ts\<close>,
  and the service configuration of \<^verbatim>\<open>oast/OastConfig.ts\<close>. Offsets are naturals and buffers are lists of bytes;
  a parser that returns \<^verbatim>\<open>undefined\<close> gives \<open>None\<close>, one that throws gives \<open>Inl\<close>.
\<close>

section \<open>Configuration\<close>

datatype oast_mode = SELF_HOSTED | HOSTED

record oast_config =
  oc_mode :: oast_mode
  oc_listenHost :: string
  oc_httpPort :: int
  oc_httpsPort :: "int option"
  oc_dnsUdpPort :: int
  oc_dnsTcpPort :: int
  oc_baseDomain :: string
  oc_dnsNameServers :: "string list option"
  oc_dnsSoaSerial :: "int option"
  oc_publishIpv6 :: "bool option"
  oc_maxConnections :: "nat option"
  oc_maxRequestsPerSecond :: "int option"
  oc_maxLeases :: "nat option"
  oc_evidenceRetentionSeconds :: "int option"
  oc_publicHttpBaseUrl :: "string option"
  oc_publicHttpsBaseUrl :: "string option"
  oc_tlsKeyPath :: "string option"
  oc_tlsCertPath :: "string option"
  oc_maxLeaseSeconds :: int
  oc_maxEventsPerLease :: nat
  oc_maxRequestBytes :: nat
  oc_dnsAnswerIpv4 :: string
  oc_dnsAnswerIpv6 :: string

definition is_alnum :: "char \<Rightarrow> bool" where
  "is_alnum c \<longleftrightarrow> c \<in> set ''ABCDEFGHIJKLMNOPQRSTUVWXYZabcdefghijklmnopqrstuvwxyz0123456789''"

text \<open>The hostname pattern: labels of one to 63 letters, digits and inner hyphens, 253 characters in all.\<close>

definition hostname_label :: "string \<Rightarrow> bool" where
  "hostname_label l \<longleftrightarrow> len_between 1 63 l \<and> is_alnum (hd l) \<and> is_alnum (last l) \<and> list_all (\<lambda>c. is_alnum c \<or> c = CHR ''-'') l"

definition hostname :: "string \<Rightarrow> bool" where
  "hostname h \<longleftrightarrow> len_between 1 253 h \<and> list_all hostname_label (split_on (CHR ''.'') h)"

text \<open>An optional field with its check: an absent one passes.\<close>

definition optional :: "('a \<Rightarrow> bool) \<Rightarrow> 'a option \<Rightarrow> bool" where
  "optional p x = (case x of None \<Rightarrow> True | Some v \<Rightarrow> p v)"

definition credential_free_origin :: "runtime \<Rightarrow> string \<Rightarrow> string option \<Rightarrow> bool" where
  "credential_free_origin rt protocol candidate =
     (case candidate of None \<Rightarrow> True
      | Some c \<Rightarrow> c = [] \<or>
          (case rt_newURL rt c of None \<Rightarrow> False
           | Some u \<Rightarrow> u_protocol u = protocol \<and> u_username u = [] \<and> u_password u = [] \<and> u_pathname u = ''/''
               \<and> u_search u = [] \<and> u_hash u = []))"

text \<open>The fields of \<^verbatim>\<open>oastServiceConfigSchema\<close>, then its cross-field refinements.\<close>

definition oast_fields_ok :: "oast_config \<Rightarrow> bool" where
  "oast_fields_ok c \<longleftrightarrow>
     isIP (oc_listenHost c) \<noteq> 0 \<and> int_between 1 65535 (oc_httpPort c) \<and> optional (int_between 1 65535) (oc_httpsPort c)
     \<and> int_between 1 65535 (oc_dnsUdpPort c) \<and> int_between 1 65535 (oc_dnsTcpPort c)
     \<and> hostname (oc_baseDomain c) \<and> length (oc_baseDomain c) \<le> 187
     \<and> optional (\<lambda>ns. list_all hostname ns \<and> len_between 1 4 ns \<and> \<not> has_duplicates (map to_lower ns)) (oc_dnsNameServers c)
     \<and> optional (int_between 1 0xffffffff) (oc_dnsSoaSerial c)
     \<and> optional (\<lambda>n. 4 \<le> n \<and> n \<le> 10000) (oc_maxConnections c)
     \<and> optional (int_between 1 10000) (oc_maxRequestsPerSecond c)
     \<and> optional (\<lambda>n. 1 \<le> n \<and> int n \<le> 1000000) (oc_maxLeases c)
     \<and> optional (int_between 60 (90 * 86400)) (oc_evidenceRetentionSeconds c)
     \<and> int_between 30 (7 * 24 * 60 * 60) (oc_maxLeaseSeconds c)
     \<and> 1 \<le> oc_maxEventsPerLease c \<and> oc_maxEventsPerLease c \<le> 100
     \<and> 1024 \<le> oc_maxRequestBytes c \<and> int (oc_maxRequestBytes c) \<le> 1024 * 1024
     \<and> isIPv4 (oc_dnsAnswerIpv4 c) \<and> isIPv6 (oc_dnsAnswerIpv6 c)"

definition present :: "string option \<Rightarrow> bool" where
  "present s = (case s of None \<Rightarrow> False | Some t \<Rightarrow> t \<noteq> [])"

definition oast_config_ok :: "runtime \<Rightarrow> oast_config \<Rightarrow> bool" where
  "oast_config_ok rt c \<longleftrightarrow> oast_fields_ok c
     \<and> optional (list_all (\<lambda>n. ends_with (to_lower n) (''.'' @ to_lower (oc_baseDomain c)))) (oc_dnsNameServers c)
     \<and> Some (oc_httpPort c) \<noteq> oc_httpsPort c \<and> oc_httpPort c \<noteq> oc_dnsTcpPort c \<and> oc_httpsPort c \<noteq> Some (oc_dnsTcpPort c)
     \<and> \<not> ((present (oc_tlsKeyPath c) \<or> present (oc_tlsCertPath c)) \<and> oc_httpsPort c = None)
     \<and> \<not> (present (oc_publicHttpsBaseUrl c) \<and> oc_httpsPort c = None)
     \<and> present (oc_tlsKeyPath c) = present (oc_tlsCertPath c)
     \<and> \<not> (oc_httpsPort c \<noteq> None \<and> \<not> (present (oc_tlsKeyPath c) \<and> present (oc_tlsCertPath c)))
     \<and> \<not> (oc_mode c = HOSTED \<and> (\<not> present (oc_publicHttpsBaseUrl c) \<or> oc_httpsPort c = None))
     \<and> credential_free_origin rt ''http:'' (oc_publicHttpBaseUrl c) \<and> credential_free_origin rt ''https:'' (oc_publicHttpsBaseUrl c)"

section \<open>Queries\<close>

record dns_query =
  dq_name :: string
  dq_type :: int
  dq_questionEnd :: nat
  dq_recursionDesired :: bool

definition dns_label_text :: "string \<Rightarrow> bool" where
  "dns_label_text l \<longleftrightarrow> l \<noteq> [] \<and> list_all (\<lambda>c. is_alnum c \<or> c = CHR ''_'' \<or> c = CHR ''-'') l"

text \<open>The label loop: the offset behind the name, the labels, and whether the terminating zero byte was seen.\<close>

function dns_labels :: "buffer \<Rightarrow> nat \<Rightarrow> string list \<Rightarrow> (nat \<times> string list \<times> bool) option" where
  "dns_labels m offset labels =
     (if offset < length m then
        let size = unat (m ! offset); offset' = offset + 1 in
        if size = 0 then Some (offset', labels, True)
        else if size > 63 \<or> offset' + size > length m then None
        else let label = ascii_text (subarray m offset' (offset' + size)) in
          if \<not> dns_label_text label then None
          else if offset' + size - 12 > 254 then None
          else dns_labels m (offset' + size) (labels @ [label])
      else Some (offset, labels, False))"
  by pat_completeness auto

termination dns_labels
  by (relation "measure (\<lambda>(m, offset, labels). length m - offset)") (auto simp: Let_def)

declare dns_labels.simps [simp del]

text \<open>The options of an EDNS(0) record fill it exactly.\<close>

function edns_options :: "buffer \<Rightarrow> nat \<Rightarrow> nat \<Rightarrow> bool" where
  "edns_options m offset end' =
     (if offset < end' then
        if offset + 4 > end' then False
        else let offset' = offset + (4 + nat (readUInt16BE m (offset + 2))) in
          if offset' > end' then False else edns_options m offset' end'
      else True)"
  by pat_completeness auto

termination edns_options
  by (relation "measure (\<lambda>(m, offset, e). e - offset)") (auto simp: Let_def)

declare edns_options.simps [simp del]

definition edns_ok :: "buffer \<Rightarrow> nat \<Rightarrow> bool" where
  "edns_ok m offset =
     (if offset + 11 > length m \<or> m ! offset \<noteq> 0 \<or> readUInt16BE m (offset + 1) \<noteq> 41 \<or> m ! (offset + 6) \<noteq> 0
         \<or> m ! (offset + 5) \<noteq> 0 then False
      else let len = nat (readUInt16BE m (offset + 9)); start = offset + 11 in
        start + len = length m \<and> edns_options m start (start + len))"

definition parseOastDnsQuery :: "buffer \<Rightarrow> dns_query option" where
  "parseOastDnsQuery m =
     (if length m < 17 \<or> length m > 4096 then None
      else let flags = readUInt16BE m 2 in
        if flags AND 0xf84f \<noteq> 0 \<or> readUInt16BE m 4 \<noteq> 1 \<or> readUInt16BE m 6 \<noteq> 0 \<or> readUInt16BE m 8 \<noteq> 0
           \<or> readUInt16BE m 10 > 1 then None
        else case dns_labels m 12 [] of
          None \<Rightarrow> None
        | Some (offset, labels, ended) \<Rightarrow>
            if \<not> ended \<or> labels = [] \<or> offset - 12 > 255 \<or> offset + 4 > length m \<or> readUInt16BE m (offset + 2) \<noteq> 1 then None
            else let questionEnd = offset + 4 in
              if (if readUInt16BE m 10 = 0 then questionEnd = length m else edns_ok m questionEnd)
              then Some \<lparr>dq_name = to_lower (join_with ''.'' labels), dq_type = readUInt16BE m (questionEnd - 4),
                         dq_questionEnd = questionEnd, dq_recursionDesired = (flags AND 0x0100 \<noteq> 0)\<rparr>
              else None)"

text \<open>The two signed labels below the zone.\<close>

definition oastDnsIdentity :: "string \<Rightarrow> string \<Rightarrow> (string \<times> string) option" where
  "oastDnsIdentity name zone =
     (let suffix = ''.'' @ to_lower zone in
      if \<not> ends_with name suffix then None
      else let p = take (length name - length suffix) name; leaseId = take 32 p; signature = drop 33 p in
        if length p = 65 \<and> is_hex_digest 32 leaseId \<and> p ! 32 = CHR ''.'' \<and> is_hex_digest 32 signature
        then Some (leaseId, signature) else None)"

section \<open>Questions and answers\<close>

definition nameBytes :: "string \<Rightarrow> buffer" where
  "nameBytes name =
     concat (map (\<lambda>label. let b = utf8_bytes label in word_of_int (int (length b)) # b) (split_on (CHR ''.'') name)) @ [0]"

definition dns_record :: "string \<Rightarrow> int \<Rightarrow> buffer \<Rightarrow> buffer" where
  "dns_record name type data =
     nameBytes name @ writeUIntBE 2 type @ writeUIntBE 2 1 @ writeUIntBE 4 30 @ writeUIntBE 2 (int (length data)) @ data"

definition oastDnsQuestion :: "string \<Rightarrow> int \<Rightarrow> int \<Rightarrow> buffer" where
  "oastDnsQuestion name type id' =
     (writeUIntBE 2 id' @ writeUIntBE 2 0 @ writeUIntBE 2 1 @ replicate 6 0) @ nameBytes name @ writeUIntBE 2 type @ writeUIntBE 2 1"

text \<open>\<^verbatim>\<open>Number(part)\<close> of a decimal octet and \<^verbatim>\<open>parseInt(part || "0", 16)\<close> of a group, of validated addresses.\<close>

definition ipv4Bytes :: "string \<Rightarrow> buffer" where
  "ipv4Bytes s = map (\<lambda>part. word_of_int (digits_value 10 0 part)) (split_on (CHR ''.'') s)"

definition last_index :: "char \<Rightarrow> string \<Rightarrow> nat" where
  "last_index c s = length s - 1 - length (takeWhile (\<lambda>x. x \<noteq> c) (rev s))"

definition ipv6_normalized :: "string \<Rightarrow> string" where
  "ipv6_normalized value =
     (if CHR ''.'' \<in> set value then
        let boundary = last_index (CHR '':'') value;
            octets = map (digits_value 10 0) (split_on (CHR ''.'') (drop (boundary + 1) value)) in
        take boundary value @ '':'' @ show_base 16 (push_bit 8 (octets ! 0) OR octets ! 1)
        @ '':'' @ show_base 16 (push_bit 8 (octets ! 2) OR octets ! 3)
      else value)"

definition ipv6_parts :: "string \<Rightarrow> string list" where
  "ipv6_parts normalized =
     (let (left, right) = (case split_compressed normalized of None \<Rightarrow> (normalized, []) | Some lr \<Rightarrow> lr);
          a = (if left = [] then [] else split_on (CHR '':'') left);
          b = (if right = [] then [] else split_on (CHR '':'') right) in
      a @ replicate (8 - length a - length b) ''0'' @ b)"

definition ipv6Bytes :: "string \<Rightarrow> buffer" where
  "ipv6Bytes value =
     concat (map (\<lambda>part. writeUIntBE 2 (digits_value 16 0 (takeWhile is_hex part))) (take 8 (ipv6_parts (ipv6_normalized value))))"

definition publishes_ipv6 :: "oast_config \<Rightarrow> bool" where
  "publishes_ipv6 c = or_else (oc_publishIpv6 c) (oc_mode c = SELF_HOSTED)"

definition dns_zone :: "oast_config \<Rightarrow> string" where
  "dns_zone c = to_lower (oc_baseDomain c)"

definition dns_servers :: "oast_config \<Rightarrow> string list" where
  "dns_servers c = map to_lower (or_else (oc_dnsNameServers c) [''ns1.'' @ dns_zone c])"

definition dns_inside :: "oast_config \<Rightarrow> dns_query \<Rightarrow> bool" where
  "dns_inside c q \<longleftrightarrow> dq_name q = dns_zone c \<or> ends_with (dq_name q) (''.'' @ dns_zone c)"

definition dns_exists :: "oast_config \<Rightarrow> dns_query \<Rightarrow> bool \<Rightarrow> bool" where
  "dns_exists c q validIdentity \<longleftrightarrow>
     dns_inside c q \<and> (dq_name q = dns_zone c \<or> dq_name q \<in> set (dns_servers c) \<or> validIdentity)"

text \<open>A resource record before it is written: owner, type and data.\<close>

type_synonym resource = "string \<times> int \<times> buffer"

definition soa_resource :: "oast_config \<Rightarrow> resource" where
  "soa_resource c = (dns_zone c, 6, nameBytes (hd (dns_servers c)) @ nameBytes (''hostmaster.'' @ dns_zone c)
     @ concat (map (writeUIntBE 4) [or_else (oc_dnsSoaSerial c) 1, 300, 60, 86400, 30]))"

definition dns_answers :: "oast_config \<Rightarrow> dns_query \<Rightarrow> bool \<Rightarrow> resource list" where
  "dns_answers c q valid =
     (let name = dq_name q; type = dq_type q; zone = dns_zone c in
      if dns_exists c q valid then
        (if type = 1 then [(name, 1, ipv4Bytes (oc_dnsAnswerIpv4 c))] else [])
        @ (if type = 28 \<and> publishes_ipv6 c then [(name, 28, ipv6Bytes (oc_dnsAnswerIpv6 c))] else [])
        @ (if name = zone \<and> type = 6 then [soa_resource c] else [])
        @ (if name = zone \<and> type = 2 then map (\<lambda>server. (zone, 2, nameBytes server)) (dns_servers c) else [])
      else [])"

definition dns_authorities :: "oast_config \<Rightarrow> dns_query \<Rightarrow> bool \<Rightarrow> resource list" where
  "dns_authorities c q valid =
     (if dns_exists c q valid then (if dns_answers c q valid = [] then [soa_resource c] else [])
      else if dns_inside c q then [soa_resource c] else [])"

definition dns_additional :: "oast_config \<Rightarrow> dns_query \<Rightarrow> bool \<Rightarrow> resource list" where
  "dns_additional c q valid =
     (if dns_exists c q valid \<and> dq_name q = dns_zone c \<and> dq_type q = 2 then
        concat (map (\<lambda>server. (server, 1, ipv4Bytes (oc_dnsAnswerIpv4 c))
                 # (if publishes_ipv6 c then [(server, 28, ipv6Bytes (oc_dnsAnswerIpv6 c))] else [])) (dns_servers c))
      else [])"

definition write_resource :: "resource \<Rightarrow> buffer" where
  "write_resource r = (case r of (name, type, data) \<Rightarrow> dns_record name type data)"

definition dns_flags :: "oast_config \<Rightarrow> dns_query \<Rightarrow> bool \<Rightarrow> int" where
  "dns_flags c q valid =
     0x8000 OR (if dns_inside c q then 0x0400 else 0) OR (if dq_recursionDesired q then 0x0100 else 0)
     OR (if \<not> dns_inside c q then 5 else if dns_exists c q valid then 0 else 3)"

definition answerOastDns :: "buffer \<Rightarrow> dns_query \<Rightarrow> bool \<Rightarrow> oast_config \<Rightarrow> bool \<Rightarrow> buffer" where
  "answerOastDns m q valid c tcp =
     (let answers = dns_answers c q valid; authorities = dns_authorities c q valid; additional = dns_additional c q valid;
          flags = dns_flags c q valid; question = subarray m 12 (dq_questionEnd q);
          output = (take 2 m @ writeUIntBE 2 flags @ writeUIntBE 2 1 @ writeUIntBE 2 (int (length answers))
                    @ writeUIntBE 2 (int (length authorities)) @ writeUIntBE 2 (int (length additional)))
                   @ question @ concat (map write_resource (answers @ authorities @ additional)) in
      if \<not> tcp \<and> length output > 512
      then (take 2 m @ writeUIntBE 2 (flags OR 0x0200) @ writeUIntBE 2 1 @ replicate 6 0) @ question
      else output)"

section \<open>Inspecting an answer\<close>

datatype dns_error = OAST_DNS_RESPONSE_INVALID | OAST_DNS_RESPONSE_LIMIT | OAST_DNS_NAME_INVALID

record dns_answer =
  da_authoritative :: bool
  da_recursionAvailable :: bool
  da_truncated :: bool
  da_rcode :: int
  da_nameservers :: "string list"
  da_answerTypes :: "int list"

text \<open>
  The name reader follows at most sixteen compression pointers, each to an earlier position; \<open>end'\<close> is zero until the
  first of them.
\<close>

function readName_loop :: "buffer \<Rightarrow> nat \<Rightarrow> nat \<Rightarrow> nat \<Rightarrow> string list \<Rightarrow> dns_error + (string \<times> nat)" where
  "readName_loop m offset end' jumps labels =
     (if offset < length m then
        let size = m ! offset; offset1 = offset + 1 in
        if size = 0 then Inr (to_lower (join_with ''.'' labels), if end' \<noteq> 0 then end' else offset1)
        else if size AND 0xc0 = 0xc0 then
          if offset1 \<ge> length m \<or> jumps + 1 > 16 then Inl OAST_DNS_NAME_INVALID
          else let pointer = nat (push_bit 8 (uint (size AND 0x3f)) OR uint (m ! offset1)); offset2 = offset1 + 1 in
            if pointer \<ge> offset2 - 2 then Inl OAST_DNS_NAME_INVALID
            else readName_loop m pointer (if end' = 0 then offset2 else end') (jumps + 1) labels
        else if unat size > 63 \<or> offset1 + unat size > length m then Inl OAST_DNS_NAME_INVALID
        else let label = ascii_text (subarray m offset1 (offset1 + unat size)) in
          if \<not> dns_label_text label then Inl OAST_DNS_NAME_INVALID
          else if length (join_with ''.'' (labels @ [label])) > 253 then Inl OAST_DNS_NAME_INVALID
          else readName_loop m (offset1 + unat size) end' jumps (labels @ [label])
      else Inl OAST_DNS_NAME_INVALID)"
  by pat_completeness auto

termination readName_loop
  by (relation "measures [\<lambda>(m, offset, e, jumps, labels). 16 - jumps, \<lambda>(m, offset, e, jumps, labels). length m - offset]")
     (auto simp: Let_def)

declare readName_loop.simps [simp del]

definition readName :: "buffer \<Rightarrow> nat \<Rightarrow> dns_error + (string \<times> nat)" where
  "readName m start = readName_loop m start 0 0 []"

text \<open>One turn of the record loop per recursion; \<open>todo\<close> records are left and \<open>i\<close> have been read.\<close>

fun inspect_records ::
  "buffer \<Rightarrow> nat \<Rightarrow> nat \<Rightarrow> nat \<Rightarrow> nat \<Rightarrow> string list \<Rightarrow> int list \<Rightarrow> dns_error + (nat \<times> string list \<times> int list)" where
  "inspect_records r answers 0 i offset nameservers answerTypes = Inr (offset, nameservers, answerTypes)"
| "inspect_records r answers (Suc todo) i offset nameservers answerTypes =
     ebind (readName r offset) (\<lambda>(_, offset).
       if offset + 10 > length r then Inl OAST_DNS_RESPONSE_INVALID
       else let type = readUInt16BE r offset; klass = readUInt16BE r (offset + 2); len = nat (readUInt16BE r (offset + 8));
                data = offset + 10 in
         if klass \<noteq> 1 \<or> data + len > length r then Inl OAST_DNS_RESPONSE_INVALID
         else ebind
           (if i < answers then
              if type = 2 then ebind (readName r data) (\<lambda>(name, e).
                if e \<noteq> data + len then Inl OAST_DNS_RESPONSE_INVALID else Inr (nameservers @ [name], answerTypes @ [type]))
              else Inr (nameservers, answerTypes @ [type])
            else Inr (nameservers, answerTypes))
           (\<lambda>(nameservers, answerTypes). inspect_records r answers todo (Suc i) (data + len) nameservers answerTypes))"

definition inspectOastDnsAnswer :: "buffer \<Rightarrow> buffer \<Rightarrow> dns_error + dns_answer" where
  "inspectOastDnsAnswer response question =
     (if length response < length question \<or> length response > 4096 \<or> readUInt16BE response 0 \<noteq> readUInt16BE question 0
         \<or> readUInt16BE response 2 AND 0xf800 \<noteq> 0x8000 \<or> readUInt16BE response 4 \<noteq> 1
         \<or> subarray response 12 (length question) \<noteq> drop 12 question
      then Inl OAST_DNS_RESPONSE_INVALID
      else let flags = readUInt16BE response 2;
               count = readUInt16BE response 6 + readUInt16BE response 8 + readUInt16BE response 10 in
        if count > 32 then Inl OAST_DNS_RESPONSE_LIMIT
        else ebind (inspect_records response (nat (readUInt16BE response 6)) (nat count) 0 (length question) [] [])
          (\<lambda>(offset, nameservers, answerTypes).
             if offset \<noteq> length response then Inl OAST_DNS_RESPONSE_INVALID
             else Inr \<lparr>da_authoritative = (flags AND 0x0400 \<noteq> 0), da_recursionAvailable = (flags AND 0x0080 \<noteq> 0),
                       da_truncated = (flags AND 0x0200 \<noteq> 0), da_rcode = flags AND 15,
                       da_nameservers = nameservers, da_answerTypes = answerTypes\<rparr>))"

end
