(* ===== verification/RC_OastDnsFacts.thy ===== *)
theory RC_OastDnsFacts
  imports RC_OastDns
begin

unbundle bit_operations_syntax

text \<open>
  The DNS wire format is consistent from end to end: a question a client builds is parsed back to its name and type, every
  datagram the service answers with is small, and the client's inspection accepts what the service writes.
\<close>

section \<open>Names\<close>

definition dns_label_ok :: "string \<Rightarrow> bool" where
  "dns_label_ok l \<longleftrightarrow> dns_label_text l \<and> length l \<le> 63"

definition dns_name_ok :: "string \<Rightarrow> bool" where
  "dns_name_ok name \<longleftrightarrow> list_all dns_label_ok (split_on (CHR ''.'') name) \<and> length name \<le> 253"

definition label_wire :: "string \<Rightarrow> buffer" where
  "label_wire l = word_of_int (int (length l)) # utf8_bytes l"

definition labels_wire :: "string list \<Rightarrow> buffer" where
  "labels_wire ls = concat (map label_wire ls)"

lemma labels_wire_simps [simp]:
  "labels_wire [] = []"
  "labels_wire (l # ls) = label_wire l @ labels_wire ls"
  by (simp_all add: labels_wire_def)

lemma is_alnum_ascii: "is_alnum c \<or> c = CHR ''_'' \<or> c = CHR ''-'' \<Longrightarrow> is_ascii c"
  by (auto simp: is_alnum_def is_ascii_def)

lemma label_ascii: "dns_label_ok l \<Longrightarrow> list_all is_ascii l"
  unfolding dns_label_ok_def dns_label_text_def by (auto simp: list_all_iff intro: is_alnum_ascii)

lemma length_utf8_label: "dns_label_ok l \<Longrightarrow> length (utf8_bytes l) = length l"
  by (simp add: length_utf8_ascii label_ascii)

lemma length_label_wire: "dns_label_ok l \<Longrightarrow> length (label_wire l) = length l + 1"
  by (simp add: label_wire_def length_utf8_label)

lemma join_split: "join_with ''.'' (split_on (CHR ''.'') s) = s"
proof (induction s)
  case (Cons x xs)
  obtain w ws where w: "split_on (CHR ''.'') xs = w # ws" by (metis list.exhaust split_on_not_Nil)
  have j: "join_with ''.'' ((x # w) # ws) = x # join_with ''.'' (w # ws)" by (cases ws) auto
  have k: "join_with ''.'' ([] # w # ws) = CHR ''.'' # join_with ''.'' (w # ws)" by simp
  from Cons w j k show ?case by (cases "x = CHR ''.''") simp_all
qed simp

lemma length_labels_wire:
  "ls \<noteq> [] \<Longrightarrow> list_all dns_label_ok ls \<Longrightarrow> length (labels_wire ls) = length (join_with ''.'' ls) + 1"
proof (induction ls)
  case (Cons l ls)
  then show ?case using length_label_wire [of l] by (cases ls) simp_all
qed simp

lemma nameBytes_wire:
  assumes "dns_name_ok name" shows "nameBytes name = labels_wire (split_on (CHR ''.'') name) @ [0]"
proof -
  have "map (\<lambda>label. let b = utf8_bytes label in word_of_int (int (length b)) # b) (split_on (CHR ''.'') name)
        = map label_wire (split_on (CHR ''.'') name)"
    using assms by (simp add: dns_name_ok_def list_all_iff Let_def label_wire_def length_utf8_label)
  then show ?thesis unfolding nameBytes_def labels_wire_def by (simp only:)
qed

lemma length_nameBytes: "dns_name_ok name \<Longrightarrow> length (nameBytes name) = length name + 2"
  using length_labels_wire [of "split_on (CHR ''.'') name"] join_split [of name]
  by (simp add: nameBytes_wire dns_name_ok_def)

lemma length_join_prefix: "length (join_with sep xs) \<le> length (join_with sep (xs @ ys))"
proof (induction xs)
  case (Cons x xs)
  then show ?case by (cases xs; cases ys) simp_all
qed simp

lemma small_size_no_pointer: assumes "unat (w :: 8 word) \<le> 63" shows "w AND 0xc0 \<noteq> 0xc0"
proof
  assume "w AND 0xc0 = 0xc0"
  then have "0xc0 \<le> w" by (metis word_and_le2)
  then have "unat (0xc0 :: 8 word) \<le> unat w" by (simp add: word_le_nat_alt)
  then show False using assms by simp
qed

text \<open>What both name readers see at a label.\<close>

lemma label_at:
  assumes l: "dns_label_ok l" and m: "m = pre @ label_wire l @ rest"
  shows "length pre < length m" "unat (m ! length pre) = length l" "0 < length l" "length l \<le> 63"
    "length pre + 1 + length l \<le> length m"
    "ascii_text (subarray m (length pre + 1) (length pre + 1 + length l)) = l" "dns_label_text l"
proof -
  have len: "length l \<le> 63" "l \<noteq> []" "dns_label_text l" using l by (auto simp: dns_label_ok_def dns_label_text_def)
  show "length pre < length m" "length pre + 1 + length l \<le> length m" using m length_label_wire [OF l] by simp_all
  show "unat (m ! length pre) = length l" using len by (simp add: m label_wire_def unat_of_nat)
  show "0 < length l" "length l \<le> 63" "dns_label_text l" using len by simp_all
  have "subarray m (length pre + 1) (length pre + 1 + length l) = utf8_bytes l"
    using subarray_middle [of "pre @ [word_of_int (int (length l))]" "length pre + 1" "utf8_bytes l" "length l" rest]
      length_utf8_label [OF l] by (simp add: m label_wire_def)
  then show "ascii_text (subarray m (length pre + 1) (length pre + 1 + length l)) = l"
    by (simp add: ascii_text_utf8 label_ascii l)
qed

lemma dns_labels_wire:
  assumes "list_all dns_label_ok ls" "length (pre @ labels_wire ls) \<le> 266"
  shows "dns_labels (pre @ labels_wire ls @ 0 # rest) (length pre) acc = Some (length (pre @ labels_wire ls) + 1, acc @ ls, True)"
  using assms
proof (induction ls arbitrary: pre acc)
  case Nil
  show ?case by (subst dns_labels.simps) simp
next
  case (Cons l ls)
  let ?m = "pre @ labels_wire (l # ls) @ 0 # rest"
  have l: "dns_label_ok l" using Cons.prems by simp
  have m: "?m = pre @ label_wire l @ (labels_wire ls @ 0 # rest)" by simp
  note at = label_at [OF l m]
  have IH: "dns_labels ((pre @ label_wire l) @ labels_wire ls @ 0 # rest) (length (pre @ label_wire l)) (acc @ [l])
      = Some (length ((pre @ label_wire l) @ labels_wire ls) + 1, (acc @ [l]) @ ls, True)"
    by (rule Cons.IH) (use Cons.prems in simp_all)
  have len: "length (pre @ label_wire l) = length pre + 1 + length l" using length_label_wire [OF l] by simp
  have small: "\<not> length pre + 1 + length l - 12 > 254" using Cons.prems len by simp
  have "dns_labels ?m (length pre) acc = dns_labels ?m (length pre + 1 + length l) (acc @ [l])"
    by (subst dns_labels.simps) (use at small in \<open>simp add: Let_def\<close>)
  then show ?case using IH len by simp
qed

lemma readName_loop_wire:
  assumes "list_all dns_label_ok ls" "length (join_with ''.'' (acc @ ls)) \<le> 253"
  shows "readName_loop (pre @ labels_wire ls @ 0 # rest) (length pre) 0 jumps acc
         = Inr (to_lower (join_with ''.'' (acc @ ls)), length (pre @ labels_wire ls) + 1)"
  using assms
proof (induction ls arbitrary: pre acc)
  case Nil
  show ?case by (subst readName_loop.simps) simp
next
  case (Cons l ls)
  let ?m = "pre @ labels_wire (l # ls) @ 0 # rest"
  have l: "dns_label_ok l" using Cons.prems by simp
  have m: "?m = pre @ label_wire l @ (labels_wire ls @ 0 # rest)" by simp
  note at = label_at [OF l m]
  have IH: "readName_loop ((pre @ label_wire l) @ labels_wire ls @ 0 # rest) (length (pre @ label_wire l)) 0 jumps (acc @ [l])
      = Inr (to_lower (join_with ''.'' ((acc @ [l]) @ ls)), length ((pre @ label_wire l) @ labels_wire ls) + 1)"
    by (rule Cons.IH) (use Cons.prems in simp_all)
  have len: "length (pre @ label_wire l) = length pre + 1 + length l" using length_label_wire [OF l] by simp
  have size: "?m ! length pre \<noteq> 0" using at(2,3) by auto
  have ptr: "?m ! length pre AND 0xc0 \<noteq> 0xc0" by (rule small_size_no_pointer) (use at(2,4) in simp)
  have small: "\<not> length (join_with ''.'' (acc @ [l])) > 253" using Cons.prems length_join_prefix [of "''.''" "acc @ [l]" ls] by simp
  have "readName_loop ?m (length pre) 0 jumps acc = readName_loop ?m (length pre + 1 + length l) 0 jumps (acc @ [l])"
    by (subst readName_loop.simps) (use at small size ptr in \<open>simp add: Let_def\<close>)
  then show ?case using IH len by simp
qed

lemma readName_nameBytes:
  assumes "dns_name_ok name"
  shows "readName (pre @ nameBytes name @ rest) (length pre) = Inr (to_lower name, length pre + length (nameBytes name))"
  using assms readName_loop_wire [of "split_on (CHR ''.'') name" "[]" pre rest 0] join_split [of name]
  by (simp add: readName_def nameBytes_wire dns_name_ok_def)

section \<open>Questions\<close>

lemma u16_field: "0 \<le> v \<Longrightarrow> v < 65536 \<Longrightarrow> length xs = i \<Longrightarrow> readUInt16BE (xs @ writeUIntBE 2 v @ ys) i = v"
  by (rule uint_be.get_field) simp_all

lemma question_length: "dns_name_ok name \<Longrightarrow> length (oastDnsQuestion name type id') = length name + 18"
  by (simp add: oastDnsQuestion_def length_nameBytes)

lemma parse_question:
  assumes name: "dns_name_ok name" and type: "0 \<le> type" "type < 65536"
  shows "parseOastDnsQuery (oastDnsQuestion name type id')
    = Some \<lparr>dq_name = to_lower name, dq_type = type, dq_questionEnd = length (oastDnsQuestion name type id'),
            dq_recursionDesired = False\<rparr>"
proof -
  let ?m = "oastDnsQuestion name type id'" and ?ls = "split_on (CHR ''.'') name"
  define h where "h = writeUIntBE 2 id' @ writeUIntBE 2 0 @ writeUIntBE 2 1 @ replicate 6 (0 :: 8 word)"
  define t where "t = writeUIntBE 2 type @ writeUIntBE 2 (1::int)"
  have h: "length h = 12" by (simp add: h_def)
  have ls: "list_all dns_label_ok ?ls" "length name \<le> 253" using name by (simp_all add: dns_name_ok_def)
  have w: "length (labels_wire ?ls) = length name + 1" using length_labels_wire [of ?ls] ls join_split [of name] by simp
  have m: "?m = h @ labels_wire ?ls @ 0 # t" by (simp add: oastDnsQuestion_def h_def t_def nameBytes_wire [OF name])
  have labels: "dns_labels ?m 12 [] = Some (length name + 14, ?ls, True)"
    using dns_labels_wire [of ?ls h t "[]"] ls w h by (simp add: m)
  have len: "length ?m = length name + 18" by (rule question_length [OF name])
  have head: "readUInt16BE ?m 2 = 0" "readUInt16BE ?m 4 = 1" "readUInt16BE ?m 6 = 0" "readUInt16BE ?m 8 = 0" "readUInt16BE ?m 10 = 0"
    by (simp_all add: m h_def readUIntBE_def numeral_eq_Suc)
  have tail: "readUInt16BE ?m (length name + 14) = type" "readUInt16BE ?m (length name + 16) = 1"
    using u16_field [of type "h @ labels_wire ?ls @ [0]" "length name + 14" "writeUIntBE 2 1"]
      u16_field [of 1 "h @ labels_wire ?ls @ 0 # writeUIntBE 2 type" "length name + 16" "[]"] type w h
    by (simp_all add: m t_def)
  have ne: "name \<noteq> []" using ls by (auto simp: dns_label_ok_def dns_label_text_def)
  show ?thesis using labels head tail len ls ne join_split [of name]
    by (simp add: parseOastDnsQuery_def Let_def add.commute)
qed

lemma parse_question_end:
  assumes "parseOastDnsQuery m = Some q" shows "dq_questionEnd q \<le> 271" "dq_questionEnd q \<le> length m" "12 \<le> length m"
  using assms by (auto simp: parseOastDnsQuery_def Let_def split: if_splits option.splits)

lemma dns_labels_mono: "dns_labels m offset labels = Some (e, ls, b) \<Longrightarrow> offset \<le> e"
proof (induction m offset labels arbitrary: e ls b rule: dns_labels.induct)
  case (1 m offset labels)
  from "1.prems" show ?case
    by (subst (asm) dns_labels.simps) (auto simp: Let_def split: if_splits intro: le_trans [OF _ "1.IH" [OF _ refl refl _ _ refl]])
qed

lemma parse_question_start: assumes "parseOastDnsQuery m = Some q" shows "12 \<le> dq_questionEnd q"
  using assms dns_labels_mono [of m 12 "[]"] by (auto simp: parseOastDnsQuery_def Let_def split: if_splits option.splits)

section \<open>Answers\<close>

text \<open>A message with the identifier and the question of \<open>m\<close>.\<close>

definition dns_wire :: "buffer \<Rightarrow> nat \<Rightarrow> int \<Rightarrow> int \<Rightarrow> int \<Rightarrow> int \<Rightarrow> buffer \<Rightarrow> buffer" where
  "dns_wire m e flags an au ad body =
     (take 2 m @ writeUIntBE 2 flags @ writeUIntBE 2 1 @ writeUIntBE 2 an @ writeUIntBE 2 au @ writeUIntBE 2 ad)
     @ subarray m 12 e @ body"

definition dns_full :: "buffer \<Rightarrow> dns_query \<Rightarrow> bool \<Rightarrow> oast_config \<Rightarrow> buffer" where
  "dns_full m q valid c = dns_wire m (dq_questionEnd q) (dns_flags c q valid) (int (length (dns_answers c q valid)))
     (int (length (dns_authorities c q valid))) (int (length (dns_additional c q valid)))
     (concat (map write_resource (dns_answers c q valid @ dns_authorities c q valid @ dns_additional c q valid)))"

lemma answer_wire:
  "answerOastDns m q valid c tcp =
     (if \<not> tcp \<and> length (dns_full m q valid c) > 512
      then dns_wire m (dq_questionEnd q) (dns_flags c q valid OR 0x0200) 0 0 0 [] else dns_full m q valid c)"
proof -
  have z: "replicate 6 (0 :: 8 word) = writeUIntBE 2 0 @ writeUIntBE 2 0 @ writeUIntBE 2 0" by (simp add: numeral_eq_Suc)
  show ?thesis unfolding answerOastDns_def dns_full_def dns_wire_def Let_def z append_Nil2 by (rule refl)
qed

lemma dns_wire_parts:
  assumes "12 \<le> e" "e \<le> length m"
  shows "length (dns_wire m e flags an au ad body) = e + length body"
    "take 2 (dns_wire m e flags an au ad body) = take 2 m"
    "subarray (dns_wire m e flags an au ad body) 12 e = subarray m 12 e"
    "readUInt16BE (dns_wire m e flags an au ad body) 0 = readUInt16BE m 0"
proof -
  let ?h = "take 2 m @ writeUIntBE 2 flags @ writeUIntBE 2 1 @ writeUIntBE 2 an @ writeUIntBE 2 au @ writeUIntBE 2 ad"
  have h: "length ?h = 12" using assms by simp
  have qn: "length (subarray m 12 e) = e - 12" using assms by simp
  show "length (dns_wire m e flags an au ad body) = e + length body" using assms by (simp add: dns_wire_def)
  show t: "take 2 (dns_wire m e flags an au ad body) = take 2 m" using assms by (simp add: dns_wire_def)
  show "subarray (dns_wire m e flags an au ad body) 12 e = subarray m 12 e"
    using subarray_middle [OF h qn, of body] assms by (simp only: dns_wire_def) simp
  show "readUInt16BE (dns_wire m e flags an au ad body) 0 = readUInt16BE m 0" using t by (simp add: readUIntBE_def)
qed

lemma dns_wire_fields:
  assumes "2 \<le> length m" "0 \<le> flags" "flags < 65536" "0 \<le> an" "an < 65536" "0 \<le> au" "au < 65536" "0 \<le> ad" "ad < 65536"
  shows "readUInt16BE (dns_wire m e flags an au ad body) 2 = flags" "readUInt16BE (dns_wire m e flags an au ad body) 4 = 1"
    "readUInt16BE (dns_wire m e flags an au ad body) 6 = an" "readUInt16BE (dns_wire m e flags an au ad body) 8 = au"
    "readUInt16BE (dns_wire m e flags an au ad body) 10 = ad"
  using u16_field [of flags "take 2 m" 2] u16_field [of 1 "take 2 m @ writeUIntBE 2 flags" 4]
    u16_field [of an "take 2 m @ writeUIntBE 2 flags @ writeUIntBE 2 1" 6]
    u16_field [of au "take 2 m @ writeUIntBE 2 flags @ writeUIntBE 2 1 @ writeUIntBE 2 an" 8]
    u16_field [of ad "take 2 m @ writeUIntBE 2 flags @ writeUIntBE 2 1 @ writeUIntBE 2 an @ writeUIntBE 2 au" 10] assms
  by (simp_all add: dns_wire_def)

definition resource_ok :: "resource \<Rightarrow> bool" where
  "resource_ok r = (case r of (name, type, data) \<Rightarrow>
     dns_name_ok name \<and> 0 \<le> type \<and> type < 65536 \<and> length data < 65536
     \<and> (type = 2 \<longrightarrow> (\<exists>server. dns_name_ok server \<and> data = nameBytes server)))"

definition resource_servers :: "resource \<Rightarrow> string list" where
  "resource_servers r = (case r of (name, type, data) \<Rightarrow>
     if type = 2 then (case readName data 0 of Inl _ \<Rightarrow> [] | Inr (n, _) \<Rightarrow> [n]) else [])"

definition resource_type :: "resource \<Rightarrow> int" where
  "resource_type r = fst (snd r)"

text \<open>One written record, read back by a turn of the loop.\<close>

lemma inspect_step:
  assumes ok: "resource_ok x"
  shows "inspect_records (pre @ write_resource x @ rest) answers (Suc todo) i (length pre) ns ts
    = inspect_records (pre @ write_resource x @ rest) answers todo (Suc i) (length (pre @ write_resource x))
        (if i < answers then ns @ resource_servers x else ns) (if i < answers then ts @ [resource_type x] else ts)"
proof -
  obtain n t d where x: "x = (n, t, d)" by (metis prod.exhaust)
  have n: "dns_name_ok n" and t: "0 \<le> t" "t < 65536" and d: "length d < 65536"
    and s: "t = 2 \<Longrightarrow> \<exists>server. dns_name_ok server \<and> d = nameBytes server" using ok by (simp_all add: resource_ok_def x)
  define r where "r = pre @ write_resource x @ rest"
  define off where "off = length pre + length (nameBytes n)"
  have r: "r = pre @ nameBytes n @ writeUIntBE 2 t @ writeUIntBE 2 1 @ writeUIntBE 4 30 @ writeUIntBE 2 (int (length d)) @ d @ rest"
    by (simp add: r_def x write_resource_def dns_record_def)
  have nm: "readName r (length pre) = Inr (to_lower n, off)" unfolding r off_def by (rule readName_nameBytes [OF n])
  have len: "off + 10 + length d \<le> length r" by (simp add: r off_def)
  have f: "readUInt16BE r off = t" "readUInt16BE r (off + 2) = 1" "readUInt16BE r (off + 8) = int (length d)"
    using u16_field [of t "pre @ nameBytes n" off] u16_field [of 1 "pre @ nameBytes n @ writeUIntBE 2 t" "off + 2"]
      u16_field [of "int (length d)" "pre @ nameBytes n @ writeUIntBE 2 t @ writeUIntBE 2 1 @ writeUIntBE 4 30" "off + 8"] t d
    by (simp_all add: r off_def)
  have len': "length (pre @ write_resource x) = off + 10 + length d" by (simp add: x write_resource_def dns_record_def off_def)
  have srv: "t = 2 \<Longrightarrow> \<exists>name. readName r (off + 10) = Inr (name, off + 10 + length d) \<and> resource_servers x = [name]"
  proof -
    assume t2: "t = 2"
    obtain server where server: "dns_name_ok server" "d = nameBytes server" using s [OF t2] by blast
    have "readName r (off + 10) = Inr (to_lower server, off + 10 + length d)"
      using readName_nameBytes [OF server(1), of "pre @ nameBytes n @ writeUIntBE 2 t @ writeUIntBE 2 1 @ writeUIntBE 4 30 @ writeUIntBE 2 (int (length d))" rest]
      by (simp add: r server(2) off_def add.assoc)
    moreover have "resource_servers x = [to_lower server]"
      using readName_nameBytes [OF server(1), of "[]" "[]"] by (simp add: resource_servers_def x t2 server(2))
    ultimately show ?thesis by blast
  qed
  have other: "t \<noteq> 2 \<Longrightarrow> resource_servers x = []" by (simp add: resource_servers_def x)
  have ty: "resource_type x = t" by (simp add: resource_type_def x)
  show ?thesis unfolding len' r_def [symmetric]
    using nm len f srv other by (cases "t = 2") (auto simp: Let_def ty)
qed

lemma inspect_written:
  assumes "list_all resource_ok rs"
  shows "inspect_records (pre @ concat (map write_resource rs)) answers (length rs) i (length pre) ns ts
    = Inr (length (pre @ concat (map write_resource rs)),
           ns @ concat (map resource_servers (take (answers - i) rs)), ts @ map resource_type (take (answers - i) rs))"
  using assms
proof (induction rs arbitrary: pre i ns ts)
  case (Cons x xs)
  let ?ns = "if i < answers then ns @ resource_servers x else ns" and ?ts = "if i < answers then ts @ [resource_type x] else ts"
  have IH: "inspect_records ((pre @ write_resource x) @ concat (map write_resource xs)) answers (length xs) (Suc i)
      (length (pre @ write_resource x)) ?ns ?ts
    = Inr (length ((pre @ write_resource x) @ concat (map write_resource xs)),
           ?ns @ concat (map resource_servers (take (answers - Suc i) xs)), ?ts @ map resource_type (take (answers - Suc i) xs))"
    by (rule Cons.IH) (use Cons.prems in simp)
  have ok: "resource_ok x" using Cons.prems by simp
  have tk: "i < answers \<Longrightarrow> answers - i = Suc (answers - Suc i)" by simp
  show ?case using IH inspect_step [OF ok, of pre "concat (map write_resource xs)" answers "length xs" i ns ts]
    by (cases "i < answers") (simp_all add: tk)
qed simp

section \<open>What a validated configuration answers\<close>

lemma alnum_lower_table:
  "list_all (\<lambda>c. is_alnum (char_lower c)) ''ABCDEFGHIJKLMNOPQRSTUVWXYZabcdefghijklmnopqrstuvwxyz0123456789''"
  by code_simp

lemma char_lower_cases:
  assumes "is_alnum c \<or> c = CHR ''_'' \<or> c = CHR ''-''"
  shows "is_alnum (char_lower c) \<or> char_lower c = CHR ''_'' \<or> char_lower c = CHR ''-''"
proof (cases "is_alnum c")
  case True
  then show ?thesis using alnum_lower_table unfolding is_alnum_def list_all_iff by blast
next
  case False
  then show ?thesis using assms by (auto simp: char_lower_def)
qed

lemma char_lower_dot [simp]: "char_lower c = CHR ''.'' \<longleftrightarrow> c = CHR ''.''"
proof
  assume "char_lower c = CHR ''.''"
  then have l: "(of_char (char_lower c) :: nat) = 46" by simp
  show "c = CHR ''.''"
  proof (cases "65 \<le> (of_char c :: nat) \<and> (of_char c :: nat) \<le> 90")
    case True
    then have "(of_char (char_lower c) :: nat) = of_char c + 32" by (simp add: char_lower_def Let_def)
    then show ?thesis using l True by simp
  next
    case False
    then have "char_lower c = c" by (auto simp: char_lower_def)
    then show ?thesis using \<open>char_lower c = CHR ''.''\<close> by simp
  qed
qed (simp add: char_lower_def)

lemma split_on_lower: "split_on (CHR ''.'') (to_lower s) = map to_lower (split_on (CHR ''.'') s)"
proof (induction s)
  case (Cons x xs)
  then show ?case by (auto simp: to_lower_def split: list.splits)
qed (simp add: to_lower_def)

lemma length_to_lower [simp]: "length (to_lower s) = length s"
  by (simp add: to_lower_def)

lemma label_lower: "dns_label_ok l \<Longrightarrow> dns_label_ok (to_lower l)"
  using char_lower_cases unfolding dns_label_ok_def dns_label_text_def by (simp add: list_all_iff to_lower_def)

lemma name_lower: "dns_name_ok n \<Longrightarrow> dns_name_ok (to_lower n)"
  unfolding dns_name_ok_def split_on_lower by (simp add: list_all_iff label_lower)

lemma hostname_name_ok: "hostname h \<Longrightarrow> dns_name_ok h"
  unfolding hostname_def dns_name_ok_def
  by (auto simp: list_all_iff len_between_def hostname_label_def dns_label_ok_def dns_label_text_def)

lemma prefixed_name_ok:
  assumes "dns_label_ok l" "CHR ''.'' \<notin> set l" "dns_name_ok n" "length l + length n \<le> 252"
  shows "dns_name_ok (l @ ''.'' @ n)"
proof -
  have "split_on (CHR ''.'') (l @ CHR ''.'' # n) = l # split_on (CHR ''.'') n"
    using assms(2) by (induction l) auto
  then show ?thesis using assms by (simp add: dns_name_ok_def)
qed

lemma zone_ok: assumes "oast_fields_ok c" shows "dns_name_ok (dns_zone c)" "length (dns_zone c) \<le> 187"
  using assms name_lower hostname_name_ok by (simp_all add: oast_fields_ok_def dns_zone_def)

lemma servers_ok:
  assumes "oast_fields_ok c"
  shows "list_all dns_name_ok (dns_servers c)" "1 \<le> length (dns_servers c)" "length (dns_servers c) \<le> 4"
proof -
  have ns1: "dns_name_ok (''ns1.'' @ dns_zone c)"
    using prefixed_name_ok [of "''ns1''" "dns_zone c"] zone_ok [OF assms]
    by (simp add: dns_label_ok_def dns_label_text_def is_alnum_def)
  show "list_all dns_name_ok (dns_servers c)" "1 \<le> length (dns_servers c)" "length (dns_servers c) \<le> 4"
    using assms ns1 name_lower hostname_name_ok
    by (auto simp: dns_servers_def oast_fields_ok_def optional_def list_all_iff len_between_def split: option.splits)
qed

lemma server_data: "oast_fields_ok c \<Longrightarrow> s \<in> set (dns_servers c) \<Longrightarrow> dns_name_ok s \<and> length (nameBytes s) < 65536"
  using servers_ok(1) [of c] length_nameBytes [of s] by (auto simp: list_all_iff dns_name_ok_def)

lemma address_data:
  assumes "oast_fields_ok c"
  shows "length (ipv4Bytes (oc_dnsAnswerIpv4 c)) < 65536" "length (ipv6Bytes (oc_dnsAnswerIpv6 c)) < 65536"
proof -
  have "length (split_on (CHR ''.'') (oc_dnsAnswerIpv4 c)) = 4"
    using assms by (simp add: oast_fields_ok_def isIPv4_def Let_def)
  then show "length (ipv4Bytes (oc_dnsAnswerIpv4 c)) < 65536" by (simp add: ipv4Bytes_def)
  have "length (concat (map (\<lambda>p. writeUIntBE 2 (f p)) ys)) = 2 * length ys" for f and ys :: "string list"
    by (induction ys) simp_all
  then show "length (ipv6Bytes (oc_dnsAnswerIpv6 c)) < 65536"
    unfolding ipv6Bytes_def by simp
qed

lemma soa_ok: assumes "oast_fields_ok c" shows "resource_ok (soa_resource c)"
proof -
  have hm: "dns_name_ok (''hostmaster.'' @ dns_zone c)"
    using prefixed_name_ok [of "''hostmaster''" "dns_zone c"] zone_ok [OF assms]
    by (simp add: dns_label_ok_def dns_label_text_def is_alnum_def)
  have "dns_servers c \<noteq> []" using servers_ok(2) [OF assms] by auto
  then have s: "dns_name_ok (hd (dns_servers c))" using server_data [OF assms] by simp
  have "length (nameBytes (hd (dns_servers c))) \<le> 255" "length (nameBytes (''hostmaster.'' @ dns_zone c)) \<le> 255"
    using length_nameBytes [OF s] length_nameBytes [OF hm] s hm by (simp_all add: dns_name_ok_def)
  then show ?thesis using zone_ok(1) [OF assms] by (simp add: resource_ok_def soa_resource_def)
qed

lemma resources_ok:
  assumes c: "oast_fields_ok c" and q: "dns_name_ok (dq_name q)"
  shows "list_all resource_ok (dns_answers c q valid @ dns_authorities c q valid @ dns_additional c q valid)"
proof -
  have ns: "\<forall>s \<in> set (dns_servers c). resource_ok (dns_zone c, 2, nameBytes s)"
    using server_data [OF c] zone_ok(1) [OF c] by (auto simp: resource_ok_def)
  have a: "dns_name_ok n \<Longrightarrow> resource_ok (n, 1, ipv4Bytes (oc_dnsAnswerIpv4 c)) \<and> resource_ok (n, 28, ipv6Bytes (oc_dnsAnswerIpv6 c))" for n
    using address_data [OF c] by (simp add: resource_ok_def)
  have "list_all resource_ok (dns_answers c q valid)"
    using ns a [OF q] soa_ok [OF c] by (auto simp: dns_answers_def Let_def list_all_iff)
  moreover have "list_all resource_ok (dns_authorities c q valid)" using soa_ok [OF c] by (simp add: dns_authorities_def)
  moreover have "list_all resource_ok (dns_additional c q valid)"
    using a server_data [OF c] by (auto simp: dns_additional_def list_all_iff)
  ultimately show ?thesis by simp
qed

lemma additional_count: "length (dns_additional c q valid) \<le> 2 * length (dns_servers c)"
proof -
  have "length (concat (map (\<lambda>s. (s, 1 :: int, a) # (if b then [(s, 28, a')] else [])) ss)) \<le> 2 * length ss"
    for a a' :: buffer and b and ss :: "string list" by (induction ss) auto
  then show ?thesis unfolding dns_additional_def by simp
qed

lemma resource_counts:
  assumes "oast_fields_ok c"
  shows "length (dns_answers c q valid) \<le> 4" "length (dns_authorities c q valid) \<le> 1" "length (dns_additional c q valid) \<le> 8"
proof -
  show "length (dns_answers c q valid) \<le> 4" using servers_ok(3) [OF assms] by (auto simp: dns_answers_def Let_def)
  show "length (dns_authorities c q valid) \<le> 1" by (simp add: dns_authorities_def)
  show "length (dns_additional c q valid) \<le> 8" using additional_count [of c q valid] servers_ok(3) [OF assms] by simp
qed

lemma flags_bits:
  assumes "f = dns_flags c q valid OR (if tc then 0x0200 else 0)"
  shows "0 \<le> f" "f < 65536" "f AND 0xf800 = 0x8000" "f AND 0x0400 \<noteq> 0 \<longleftrightarrow> dns_inside c q" "f AND 0x0080 = 0"
    "f AND 0x0200 \<noteq> 0 \<longleftrightarrow> tc" "f AND 15 = (if \<not> dns_inside c q then 5 else if dns_exists c q valid then 0 else 3)"
  by (simp_all add: assms dns_flags_def)

lemma inspect_wire:
  assumes m: "12 \<le> length m" and f: "0 \<le> flags" "flags < 65536" "flags AND 0xf800 = 0x8000"
    and rs: "list_all resource_ok (as @ us @ xs)" and count: "length as + length us + length xs \<le> 32"
    and small: "length m + length (concat (map write_resource (as @ us @ xs))) \<le> 4096"
  shows "inspectOastDnsAnswer (dns_wire m (length m) flags (int (length as)) (int (length us)) (int (length xs))
           (concat (map write_resource (as @ us @ xs)))) m
    = Inr \<lparr>da_authoritative = (flags AND 0x0400 \<noteq> 0), da_recursionAvailable = (flags AND 0x0080 \<noteq> 0),
           da_truncated = (flags AND 0x0200 \<noteq> 0), da_rcode = flags AND 15,
           da_nameservers = concat (map resource_servers as), da_answerTypes = map resource_type as\<rparr>"
proof -
  let ?b = "concat (map write_resource (as @ us @ xs))"
  define r where "r = dns_wire m (length m) flags (int (length as)) (int (length us)) (int (length xs)) ?b"
  note parts = dns_wire_parts [OF m order_refl, of flags "int (length as)" "int (length us)" "int (length xs)" ?b, folded r_def]
  have reads: "readUInt16BE r 2 = flags" "readUInt16BE r 4 = 1" "readUInt16BE r 6 = int (length as)"
    "readUInt16BE r 8 = int (length us)" "readUInt16BE r 10 = int (length xs)"
    using dns_wire_fields [of m flags "int (length as)" "int (length us)" "int (length xs)" "length m" ?b, folded r_def] m f count
    by simp_all
  define h where "h = take (length m) r"
  have h: "length h = length m" "r = h @ ?b" using parts(1) by (simp_all add: h_def r_def dns_wire_def)
  have n: "nat (int (length as) + int (length us) + int (length xs)) = length (as @ us @ xs)" by simp
  have rec: "inspect_records r (length as) (length (as @ us @ xs)) 0 (length m) [] []
      = Inr (length r, concat (map resource_servers as), map resource_type as)"
    using inspect_written [OF rs, of h "length as" 0 "[]" "[]"] h by simp
  have q: "subarray r 12 (length m) = drop 12 m" using parts(3) by (simp add: subarray_def)
  show ?thesis unfolding r_def [symmetric] inspectOastDnsAnswer_def
    using parts(1,4) reads small f(3) count q rec by (simp add: Let_def n del: length_append)
qed

text \<open>What the inspection reports of the answer to a question, cut or not.\<close>

lemma inspect_answer:
  assumes c: "oast_fields_ok c" and q: "dns_name_ok (dq_name q)" "dq_questionEnd q = length m" and m: "12 \<le> length m" "length m \<le> 512"
    and a: "r = answerOastDns m q valid c False"
  shows "\<exists>ns ts. inspectOastDnsAnswer r m
    = Inr \<lparr>da_authoritative = dns_inside c q, da_recursionAvailable = False, da_truncated = (512 < length (dns_full m q valid c)),
           da_rcode = (if \<not> dns_inside c q then 5 else if dns_exists c q valid then 0 else 3), da_nameservers = ns, da_answerTypes = ts\<rparr>
    \<and> (if 512 < length (dns_full m q valid c) then ns = [] \<and> ts = []
       else ns = concat (map resource_servers (dns_answers c q valid)) \<and> ts = map resource_type (dns_answers c q valid))"
proof (cases "512 < length (dns_full m q valid c)")
  case True
  have e: "dns_flags c q valid OR 0x0200 = dns_flags c q valid OR (if True then 0x0200 else 0)" by simp
  note f = flags_bits [OF e]
  show ?thesis using inspect_wire [OF m(1) f(1,2,3), of "[]" "[]" "[]"] True f m(2) by (simp add: a answer_wire q(2))
next
  case False
  have e: "dns_flags c q valid = dns_flags c q valid OR (if False then 0x0200 else 0)" by simp
  note f = flags_bits [OF e]
  have len: "length m + length (concat (map write_resource (dns_answers c q valid @ dns_authorities c q valid @ dns_additional c q valid))) \<le> 4096"
    using False dns_wire_parts(1) [OF m(1) order_refl] unfolding dns_full_def q(2) by simp
  have cnt: "length (dns_answers c q valid) + length (dns_authorities c q valid) + length (dns_additional c q valid) \<le> 32"
    using resource_counts [OF c, of q valid] by linarith
  show ?thesis using inspect_wire [OF m(1) f(1,2,3) resources_ok [OF c q(1)] cnt len] False f
    by (simp add: a answer_wire dns_full_def q(2))
qed

lemma char_lower_idem [simp]: "char_lower (char_lower c) = char_lower c"
proof (cases "65 \<le> (of_char c :: nat) \<and> (of_char c :: nat) \<le> 90")
  case True
  then have "(of_char (char_lower c) :: nat) = of_char c + 32" by (simp add: char_lower_def Let_def)
  then show ?thesis using True by (simp add: char_lower_def [of "char_lower c"] Let_def)
next
  case False
  then have "char_lower c = c" by (auto simp: char_lower_def Let_def)
  then show ?thesis by simp
qed

lemma to_lower_idem [simp]: "to_lower (to_lower s) = to_lower s"
  by (simp add: to_lower_def)

lemma answer_servers:
  assumes "oast_fields_ok c"
  shows "concat (map resource_servers (dns_answers c q valid))
    = (if dq_name q = dns_zone c \<and> dq_type q = 2 then dns_servers c else [])"
proof -
  have one: "s \<in> set (dns_servers c) \<Longrightarrow> resource_servers (dns_zone c, 2, nameBytes s) = [s]" for s
    using readName_nameBytes [of s "[]" "[]"] server_data [OF assms] by (auto simp: resource_servers_def dns_servers_def)
  have all: "\<forall>s \<in> set ss. resource_servers (dns_zone c, 2, nameBytes s) = [s]
      \<Longrightarrow> concat (map (\<lambda>s. resource_servers (dns_zone c, 2, nameBytes s)) ss) = ss" for ss
    by (induction ss) simp_all
  have other: "resource_servers (n, 1, d) = []" "resource_servers (n, 28, d) = []" "resource_servers (soa_resource c) = []" for n d
    by (simp_all add: resource_servers_def soa_resource_def)
  have "dq_name q = dns_zone c \<Longrightarrow> dns_exists c q valid" by (simp add: dns_exists_def dns_inside_def)
  then show ?thesis using all [of "dns_servers c"] one other by (auto simp: dns_answers_def Let_def comp_def)
qed

section \<open>Properties\<close>

definition example_oast_config :: oast_config where
  "example_oast_config = \<lparr>oc_mode = SELF_HOSTED, oc_listenHost = ''127.0.0.1'', oc_httpPort = 8080, oc_httpsPort = None,
     oc_dnsUdpPort = 53, oc_dnsTcpPort = 53, oc_baseDomain = ''Oast.example'', oc_dnsNameServers = None, oc_dnsSoaSerial = None,
     oc_publishIpv6 = None, oc_maxConnections = Some 8, oc_maxRequestsPerSecond = None, oc_maxLeases = Some 4,
     oc_evidenceRetentionSeconds = None, oc_publicHttpBaseUrl = None, oc_publicHttpsBaseUrl = None, oc_tlsKeyPath = None,
     oc_tlsCertPath = None, oc_maxLeaseSeconds = 86400, oc_maxEventsPerLease = 20, oc_maxRequestBytes = 2048,
     oc_dnsAnswerIpv4 = ''127.0.0.1'', oc_dnsAnswerIpv6 = ''::1''\<rparr>"

lemma example_oast_config_ok: "oast_config_ok rt example_oast_config" "oast_fields_ok example_oast_config"
proof -
  show f: "oast_fields_ok example_oast_config" by code_simp
  show "oast_config_ok rt example_oast_config" using f
    by (simp add: oast_config_ok_def optional_def present_def credential_free_origin_def)
      (simp add: example_oast_config_def)
qed

lemma example_name_ok: "dns_name_ok ''Oast.EXAMPLE''"
  by code_simp

text \<open>
  C21: Questions survive the wire. The query parser of the service reads a question a client of the program builds back as the
  lower-case name, the type and the end of the question, for every name of at most 253 characters in labels of one to 63
  letters, digits, hyphens and underscores, every type and every identifier.
\<close>

theorem dns_question_roundtrip:
  assumes "dns_name_ok name" "0 \<le> type" "type < 65536"
  shows "parseOastDnsQuery (oastDnsQuestion name type id')
    = Some \<lparr>dq_name = to_lower name, dq_type = type, dq_questionEnd = length name + 18, dq_recursionDesired = False\<rparr>"
  using parse_question [OF assms] question_length [OF assms(1)] by simp

theorem dns_question_roundtrip_witness:
  "parseOastDnsQuery (oastDnsQuestion ''Oast.EXAMPLE'' 28 7)
    = Some \<lparr>dq_name = ''oast.example'', dq_type = 28, dq_questionEnd = 30, dq_recursionDesired = False\<rparr>"
proof -
  have "to_lower ''Oast.EXAMPLE'' = ''oast.example''" by code_simp
  then show ?thesis using dns_question_roundtrip [OF example_name_ok, of 28 7] by simp
qed

text \<open>
  The service does not amplify. Whatever datagram it parses, its answer over UDP has at most 512 bytes, carries the
  identifier of the datagram and repeats its question byte for byte.
\<close>

theorem udp_answer_bounded:
  assumes "parseOastDnsQuery m = Some q"
  shows "length (answerOastDns m q valid c False) \<le> 512 \<and> take 2 (answerOastDns m q valid c False) = take 2 m
    \<and> subarray (answerOastDns m q valid c False) 12 (dq_questionEnd q) = subarray m 12 (dq_questionEnd q)"
proof -
  note e = parse_question_end [OF assms]
  have "12 \<le> dq_questionEnd q" by (rule parse_question_start [OF assms])
  note parts = dns_wire_parts [OF this e(2)]
  show ?thesis using e parts by (simp add: answer_wire dns_full_def)
qed

theorem udp_answer_bounded_witness:
  "length (answerOastDns (oastDnsQuestion ''Oast.EXAMPLE'' 28 7)
     \<lparr>dq_name = ''oast.example'', dq_type = 28, dq_questionEnd = 30, dq_recursionDesired = False\<rparr> True example_oast_config False) \<le> 512"
proof -
  have "parseOastDnsQuery (oastDnsQuestion ''Oast.EXAMPLE'' 28 7)
    = Some \<lparr>dq_name = ''oast.example'', dq_type = 28, dq_questionEnd = 30, dq_recursionDesired = False\<rparr>" by code_simp
  from udp_answer_bounded [OF this, of True example_oast_config] show ?thesis by blast
qed

text \<open>
  C22: The service and its deployment check agree. For every question the client builds, under every configuration the schema
  accepts, the client's inspection accepts the service's UDP answer. It reports the service as authoritative exactly inside
  its zone, never as recursive, with the response code of an existing name, a missing name or a foreign name; an answer that
  was not cut is reported with the types and the name servers the service put into it.
\<close>

theorem answers_pass_inspection:
  assumes "oast_config_ok rt c" "dns_name_ok name" "0 \<le> type" "type < 65536"
    and "parseOastDnsQuery (oastDnsQuestion name type id') = Some q"
    and "m = oastDnsQuestion name type id'" "r = answerOastDns m q valid c False"
  shows "\<exists>a. inspectOastDnsAnswer r m = Inr a \<and> da_authoritative a = dns_inside c q \<and> \<not> da_recursionAvailable a
    \<and> da_rcode a = (if \<not> dns_inside c q then 5 else if dns_exists c q valid then 0 else 3)
    \<and> (if da_truncated a then da_answerTypes a = [] \<and> length (answerOastDns m q valid c True) > 512
       else da_answerTypes a = map (\<lambda>(owner, t, data). t) (dns_answers c q valid)
            \<and> da_nameservers a = (if dq_name q = dns_zone c \<and> type = 2 then dns_servers c else []))"
proof -
  have c: "oast_fields_ok c" using assms(1) by (simp add: oast_config_ok_def)
  have q: "q = \<lparr>dq_name = to_lower name, dq_type = type, dq_questionEnd = length m, dq_recursionDesired = False\<rparr>"
    using parse_question [OF assms(2-4), of id'] assms(5,6) by simp
  have name: "dns_name_ok (dq_name q)" "dq_questionEnd q = length m" using name_lower [OF assms(2)] by (simp_all add: q)
  have m: "12 \<le> length m" "length m \<le> 512"
    using question_length [OF assms(2), of type id'] assms(2) by (simp_all add: assms(6) dns_name_ok_def)
  have types: "map resource_type (dns_answers c q valid) = map (\<lambda>(owner, t, data). t) (dns_answers c q valid)"
    by (simp add: resource_type_def case_prod_beta)
  have ns: "concat (map resource_servers (dns_answers c q valid)) = (if dq_name q = dns_zone c \<and> dq_type q = 2 then dns_servers c else [])"
    "dns_servers c \<noteq> []" using answer_servers [OF c] servers_ok(2) [OF c] by auto
  from inspect_answer [OF c name m assms(7)] obtain ns' ts' where
    i: "inspectOastDnsAnswer r m = Inr \<lparr>da_authoritative = dns_inside c q, da_recursionAvailable = False,
        da_truncated = (512 < length (dns_full m q valid c)),
        da_rcode = (if \<not> dns_inside c q then 5 else if dns_exists c q valid then 0 else 3), da_nameservers = ns', da_answerTypes = ts'\<rparr>"
    and d: "if 512 < length (dns_full m q valid c) then ns' = [] \<and> ts' = []
       else ns' = concat (map resource_servers (dns_answers c q valid)) \<and> ts' = map resource_type (dns_answers c q valid)" by blast
  have t: "type = dq_type q" by (simp add: q)
  show ?thesis using i d ns types unfolding t by (cases "512 < length (dns_full m q valid c)") (simp_all add: answer_wire)
qed

theorem answers_pass_inspection_witness:
  "\<exists>a. inspectOastDnsAnswer (answerOastDns (oastDnsQuestion ''Oast.EXAMPLE'' 2 7)
       \<lparr>dq_name = ''oast.example'', dq_type = 2, dq_questionEnd = 30, dq_recursionDesired = False\<rparr> False example_oast_config False)
       (oastDnsQuestion ''Oast.EXAMPLE'' 2 7) = Inr a \<and> da_authoritative a = True"
proof -
  let ?q = "\<lparr>dq_name = ''oast.example'', dq_type = 2, dq_questionEnd = 30, dq_recursionDesired = False\<rparr>"
  have p: "parseOastDnsQuery (oastDnsQuestion ''Oast.EXAMPLE'' 2 7) = Some ?q" by code_simp
  have "dns_inside example_oast_config ?q" by code_simp
  then show ?thesis
    using answers_pass_inspection [OF example_oast_config_ok(1) example_name_ok _ _ p refl refl, of False] by auto
qed

end
