(* ===== verification/RC_OastStore.thy ===== *)
theory RC_OastStore
  imports RC_OastDnsFacts RC_MutationPolicy
begin

text \<open>
  The evidence store of the callback service, \<^verbatim>\<open>oast/OastStore.ts\<close>. The two SQLite tables are lists of rows in insertion
  order, with the constraints of the schema (primary keys, the foreign key with its cascade, the two unique indexes) written
  into the operations that meet them. An instant is kept as its number of milliseconds; its ISO text, which the store
  signs, is \<^const>\<open>toISOString\<close> of it, and ISO texts with four-digit years compare like the instants. HMAC, SHA-256 and URL
  resolution are parameters; the random identifiers are arguments of the operations that draw them.
\<close>

section \<open>Rows\<close>

datatype oast_protocol = DNS | HTTP | HTTPS

fun protocol_name :: "oast_protocol \<Rightarrow> string" where
  "protocol_name DNS = ''DNS''"
| "protocol_name HTTP = ''HTTP''"
| "protocol_name HTTPS = ''HTTPS''"

datatype lease_status = ACTIVE | REVOKED | EXPIRED

record lease_row =
  lr_id :: string
  lr_signature :: string
  lr_expires_at :: int
  lr_poll_token_hash :: string
  lr_binding_fingerprint :: string
  lr_status :: lease_status
  lr_protocols :: "oast_protocol list"
  lr_created_at :: int

record event_row =
  er_id :: string
  er_lease_id :: string
  er_protocol :: oast_protocol
  er_observed_at :: int
  er_delay_ms :: int
  er_source_fingerprint :: string
  er_request_fingerprint :: string
  er_replay_rejected :: bool

record oast_db =
  db_leases :: "lease_row list"
  db_events :: "event_row list"
  db_metadata :: "(string \<times> string) list"

text \<open>The constructor's parameters.\<close>

record oast_settings =
  st_signingKey :: string
  st_baseDomain :: string
  st_httpBase :: "string option"
  st_httpsBase :: "string option"
  st_maxLeaseSeconds :: int
  st_maxEventsPerLease :: nat
  st_maxLeases :: nat
  st_evidenceRetentionSeconds :: int

record lease_request =
  rq_tenantId :: string
  rq_workerId :: string
  rq_jobId :: string
  rq_caseId :: string
  rq_ttlSeconds :: int
  rq_protocols :: "oast_protocol list"

record lease_identity =
  li_leaseId :: string
  li_expiresAt :: int
  li_dnsName :: string
  li_httpUrl :: "string option"
  li_httpsUrl :: "string option"
  li_pollUrl :: string
  li_pollToken :: string
  li_bindingFingerprint :: string

record evidence =
  ev_eventId :: string
  ev_protocol :: oast_protocol
  ev_observedAt :: int
  ev_delayMs :: int
  ev_sourceFingerprint :: string
  ev_requestFingerprint :: string
  ev_bindingFingerprint :: string
  ev_replayRejected :: bool

record poll_response =
  pr_leaseId :: string
  pr_status :: lease_status
  pr_expiresAt :: int
  pr_events :: "evidence list"

datatype store_error = OAST_SIGNING_KEY_CHANGED | OAST_ZONE_CHANGED | OAST_LEASE_LIMIT | SQLITE_CONSTRAINT

text \<open>\<open>or_hmac key text\<close> is the hexadecimal HMAC-SHA-256; \<open>or_resolve path base\<close> is \<^verbatim>\<open>new URL(path, base).toString()\<close>.\<close>

record oast_runtime = json_runtime +
  or_hmac :: "string \<Rightarrow> string \<Rightarrow> string"
  or_resolve :: "string \<Rightarrow> string \<Rightarrow> string"

section \<open>Operations\<close>

abbreviation nul :: string where
  "nul \<equiv> [CHR 0x00]"

definition keyedHash :: "oast_runtime \<Rightarrow> oast_settings \<Rightarrow> string \<Rightarrow> string" where
  "keyedHash rt s value = or_hmac rt (st_signingKey s) value"

definition signature :: "oast_runtime \<Rightarrow> oast_settings \<Rightarrow> string \<Rightarrow> int \<Rightarrow> oast_protocol \<Rightarrow> string" where
  "signature rt s leaseId expiresAt protocol =
     take 32 (or_hmac rt (st_signingKey s) (leaseId @ nul @ toISOString expiresAt @ nul @ protocol_name protocol))"

definition find_lease :: "oast_db \<Rightarrow> string \<Rightarrow> lease_row option" where
  "find_lease db leaseId = List.find (\<lambda>r. lr_id r = leaseId) (db_leases db)"

text \<open>The constructor: a retained database opens only with the key and the zone it was made with.\<close>

definition insert_or_ignore :: "string \<Rightarrow> string \<Rightarrow> (string \<times> string) list \<Rightarrow> (string \<times> string) list" where
  "insert_or_ignore k v m = (case map_of m k of None \<Rightarrow> m @ [(k, v)] | Some _ \<Rightarrow> m)"

definition open_store :: "oast_runtime \<Rightarrow> oast_settings \<Rightarrow> oast_db \<Rightarrow> store_error + oast_db" where
  "open_store rt s db =
     (let keyId = keyedHash rt s ''routecairn-oast-signing-key-v1'' in
      if (case db_leases db of [] \<Rightarrow> False | legacy # _ \<Rightarrow> lr_signature legacy \<noteq> signature rt s (lr_id legacy) (lr_expires_at legacy) DNS)
      then Inl OAST_SIGNING_KEY_CHANGED
      else if (case map_of (db_metadata db) ''signing_key_id'' of None \<Rightarrow> False | Some v \<Rightarrow> v \<noteq> keyId)
      then Inl OAST_SIGNING_KEY_CHANGED
      else let m = insert_or_ignore ''signing_key_id'' keyId (db_metadata db) in
        if (case map_of m ''base_domain'' of None \<Rightarrow> False | Some v \<Rightarrow> v \<noteq> st_baseDomain s)
        then Inl OAST_ZONE_CHANGED
        else Inr (db\<lparr>db_metadata := insert_or_ignore ''base_domain'' (st_baseDomain s) m\<rparr>))"

text \<open>Deleting leases deletes their events.\<close>

definition prune :: "oast_settings \<Rightarrow> int \<Rightarrow> oast_db \<Rightarrow> oast_db" where
  "prune s now db =
     (let cut = now - st_evidenceRetentionSeconds s * 1000;
          kept = filter (\<lambda>r. \<not> lr_expires_at r \<le> cut) (db_leases db) in
      db\<lparr>db_leases := kept, db_events := filter (\<lambda>e. er_lease_id e \<in> set (map lr_id kept)) (db_events db)\<rparr>)"

text \<open>\<^verbatim>\<open>[...new Set(xs)]\<close>: the first occurrences, in order.\<close>

definition js_set :: "'a list \<Rightarrow> 'a list" where
  "js_set xs = rev (remdups (rev xs))"

definition new_lease_row :: "oast_runtime \<Rightarrow> oast_settings \<Rightarrow> int \<Rightarrow> string \<Rightarrow> string \<Rightarrow> lease_request \<Rightarrow> lease_row" where
  "new_lease_row rt s now leaseId pollToken request =
     (let ttl = min (st_maxLeaseSeconds s) (max 30 (rq_ttlSeconds request));
          expiresAt = now + ttl * 1000 in
      \<lparr>lr_id = leaseId, lr_signature = signature rt s leaseId expiresAt DNS, lr_expires_at = expiresAt,
       lr_poll_token_hash = rt_sha256 rt pollToken,
       lr_binding_fingerprint =
         keyedHash rt s (rq_tenantId request @ nul @ rq_workerId request @ nul @ rq_jobId request @ nul @ rq_caseId request),
       lr_status = ACTIVE, lr_protocols = js_set (rq_protocols request), lr_created_at = now\<rparr>)"

definition createLease ::
  "oast_runtime \<Rightarrow> oast_settings \<Rightarrow> int \<Rightarrow> string \<Rightarrow> string \<Rightarrow> lease_request \<Rightarrow> oast_db \<Rightarrow> oast_db \<times> (store_error + lease_identity)" where
  "createLease rt s now leaseId pollToken request db =
     (let db1 = prune s now db;
          row = new_lease_row rt s now leaseId pollToken request;
          expiresAt = lr_expires_at row;
          httpSignature = signature rt s leaseId expiresAt HTTP;
          httpsSignature = signature rt s leaseId expiresAt HTTPS in
      if length (db_leases db1) \<ge> st_maxLeases s then (db1, Inl OAST_LEASE_LIMIT)
      else if find_lease db1 leaseId \<noteq> None then (db1, Inl SQLITE_CONSTRAINT)
      else (db1\<lparr>db_leases := db_leases db1 @ [row]\<rparr>,
            Inr \<lparr>li_leaseId = leaseId, li_expiresAt = expiresAt, li_dnsName = leaseId @ ''.'' @ lr_signature row @ ''.'' @ st_baseDomain s,
                 li_httpUrl = map_option (or_resolve rt (''/c/'' @ leaseId @ ''/'' @ httpSignature)) (st_httpBase s),
                 li_httpsUrl = map_option (or_resolve rt (''/c/'' @ leaseId @ ''/'' @ httpsSignature)) (st_httpsBase s),
                 li_pollUrl = ''/v1/leases/'' @ leaseId @ ''/events'', li_pollToken = pollToken,
                 li_bindingFingerprint = lr_binding_fingerprint row\<rparr>))"

definition live_row :: "int \<Rightarrow> lease_row \<Rightarrow> bool" where
  "live_row now r \<longleftrightarrow> lr_status r = ACTIVE \<and> \<not> lr_expires_at r \<le> now"

definition validateIdentity ::
  "oast_runtime \<Rightarrow> oast_settings \<Rightarrow> int \<Rightarrow> oast_db \<Rightarrow> string \<Rightarrow> string \<Rightarrow> oast_protocol \<Rightarrow> lease_row option" where
  "validateIdentity rt s now db leaseId sig protocol =
     (case find_lease db leaseId of
        None \<Rightarrow> None
      | Some row \<Rightarrow>
          if \<not> live_row now row \<or> sig \<noteq> signature rt s leaseId (lr_expires_at row) protocol then None
          else if protocol \<in> set (lr_protocols row) then Some row else None)"

definition mark_replayed :: "string \<Rightarrow> oast_protocol \<Rightarrow> oast_db \<Rightarrow> oast_db" where
  "mark_replayed leaseId protocol db =
     db\<lparr>db_events := map (\<lambda>e. if er_lease_id e = leaseId \<and> er_protocol e = protocol then e\<lparr>er_replay_rejected := True\<rparr> else e) (db_events db)\<rparr>"

definition lease_events :: "oast_db \<Rightarrow> string \<Rightarrow> event_row list" where
  "lease_events db leaseId = filter (\<lambda>e. er_lease_id e = leaseId) (db_events db)"

text \<open>\<^verbatim>\<open>INSERT OR IGNORE\<close> meets the primary key, the unique request fingerprint and the unique protocol of a lease.\<close>

definition event_conflict :: "oast_db \<Rightarrow> event_row \<Rightarrow> bool" where
  "event_conflict db e \<longleftrightarrow>
     list_ex (\<lambda>x. er_id x = er_id e \<or> er_lease_id x = er_lease_id e
                \<and> (er_request_fingerprint x = er_request_fingerprint e \<or> er_protocol x = er_protocol e)) (db_events db)"

definition recordTransaction ::
  "oast_runtime \<Rightarrow> oast_settings \<Rightarrow> int \<Rightarrow> string \<Rightarrow> lease_row \<Rightarrow> oast_protocol \<Rightarrow> string \<Rightarrow> string \<Rightarrow> oast_db \<Rightarrow> oast_db \<times> bool \<times> bool" where
  "recordTransaction rt s now eventId row protocol source material db =
     (case find_lease db (lr_id row) of
        None \<Rightarrow> (db, False, False)
      | Some current \<Rightarrow>
          if \<not> live_row now current then (db, False, False)
          else if list_ex (\<lambda>e. er_protocol e = protocol) (lease_events db (lr_id row)) then (mark_replayed (lr_id row) protocol db, False, True)
          else if length (lease_events db (lr_id row)) \<ge> st_maxEventsPerLease s then (db, False, False)
          else let e = \<lparr>er_id = eventId, er_lease_id = lr_id row, er_protocol = protocol, er_observed_at = now,
                        er_delay_ms = max 0 (now - lr_created_at row), er_source_fingerprint = keyedHash rt s source,
                        er_request_fingerprint = keyedHash rt s (protocol_name protocol @ nul @ material), er_replay_rejected = False\<rparr> in
            if event_conflict db e then (mark_replayed (lr_id row) protocol db, False, True)
            else (db\<lparr>db_events := db_events db @ [e]\<rparr>, True, False))"

definition compare_events :: "event_row \<Rightarrow> event_row \<Rightarrow> int" where
  "compare_events a b = (if er_observed_at a < er_observed_at b then -1 else if er_observed_at b < er_observed_at a then 1
                         else locale_compare (er_id a) (er_id b))"

definition row_status :: "int \<Rightarrow> lease_row \<Rightarrow> lease_status" where
  "row_status now r = (if lr_status r = REVOKED then REVOKED else if lr_expires_at r \<le> now then EXPIRED else ACTIVE)"

definition evidence_of :: "lease_row \<Rightarrow> event_row \<Rightarrow> evidence" where
  "evidence_of r e = \<lparr>ev_eventId = er_id e, ev_protocol = er_protocol e, ev_observedAt = er_observed_at e, ev_delayMs = er_delay_ms e,
     ev_sourceFingerprint = er_source_fingerprint e, ev_requestFingerprint = er_request_fingerprint e,
     ev_bindingFingerprint = lr_binding_fingerprint r, ev_replayRejected = er_replay_rejected e\<rparr>"

definition poll :: "oast_runtime \<Rightarrow> oast_settings \<Rightarrow> int \<Rightarrow> oast_db \<Rightarrow> string \<Rightarrow> string \<Rightarrow> poll_response option" where
  "poll rt s now db leaseId pollToken =
     (case find_lease db leaseId of
        None \<Rightarrow> None
      | Some row \<Rightarrow>
          if rt_sha256 rt pollToken \<noteq> lr_poll_token_hash row then None
          else Some \<lparr>pr_leaseId = leaseId, pr_status = row_status now row, pr_expiresAt = lr_expires_at row,
                     pr_events = map (evidence_of row) (take (st_maxEventsPerLease s) (sort_by compare_events (lease_events db leaseId)))\<rparr>)"

definition revoke :: "oast_runtime \<Rightarrow> oast_db \<Rightarrow> string \<Rightarrow> string \<Rightarrow> oast_db \<times> bool" where
  "revoke rt db leaseId pollToken =
     (case find_lease db leaseId of
        None \<Rightarrow> (db, False)
      | Some row \<Rightarrow>
          if rt_sha256 rt pollToken \<noteq> lr_poll_token_hash row then (db, False)
          else (db\<lparr>db_leases := map (\<lambda>r. if lr_id r = leaseId then r\<lparr>lr_status := REVOKED\<rparr> else r) (db_leases db)\<rparr>, True))"

end
