(* ===== verification/RC_OastService.thy ===== *)
theory RC_OastService
  imports RC_OastStore
begin

text \<open>
  The callback service, \<^verbatim>\<open>oast/OastService.ts\<close>: its request limit, the DNS handler over datagrams and over TCP, and
  the HTTP handler. The HTTP handler waits for a request body in two places; it is modelled in two steps, the part up to
  the wait and the part behind it, so that other requests can run in between. The clock, the random values and the parsed
  request URL are arguments.
\<close>

section \<open>State\<close>

datatype oast_pending =
    AwaitLeaseBody
  | AwaitCallbackBody lease_row oast_protocol

record oast_http_request =
  hq_url :: "url option"
  hq_queryKeys :: "string list"
  hq_method :: string
  hq_headers :: "(string \<times> string) list"
  hq_body :: string
  hq_remoteAddress :: "string option"

record oast_service =
  sv_db :: oast_db
  sv_windowStartedAt :: int
  sv_requestsInWindow :: int
  sv_sockets :: nat
  sv_closed :: bool
  sv_tcpListening :: bool
  sv_https :: bool
  sv_tlsExpiresAt :: int
  sv_pending :: "(oast_http_request \<times> oast_pending) list"

record oast_env =
  oe_config :: oast_config
  oe_signingKey :: string
  oe_tenantTokens :: "(string \<times> string) list"
  oe_configSha256 :: string

definition displayHost :: "string \<Rightarrow> string" where
  "displayHost value = (if CHR '':'' \<in> set value then ''['' @ value @ '']'' else value)"

text \<open>What the constructor hands to the store.\<close>

definition service_settings :: "oast_env \<Rightarrow> oast_settings" where
  "service_settings env =
     (let c = oe_config env;
          self = (\<lambda>scheme port. scheme @ ''://'' @ displayHost (oc_listenHost c) @ '':'' @ show_base 10 port @ ''/'') in
      \<lparr>st_signingKey = oe_signingKey env, st_baseDomain = to_lower (oc_baseDomain c),
       st_httpBase = (case oc_publicHttpBaseUrl c of Some u \<Rightarrow> Some u
         | None \<Rightarrow> if oc_mode c = SELF_HOSTED then Some (self ''http'' (oc_httpPort c)) else None),
       st_httpsBase = (case oc_publicHttpsBaseUrl c of Some u \<Rightarrow> Some u
         | None \<Rightarrow> if oc_mode c = SELF_HOSTED then map_option (self ''https'') (oc_httpsPort c) else None),
       st_maxLeaseSeconds = oc_maxLeaseSeconds c, st_maxEventsPerLease = oc_maxEventsPerLease c,
       st_maxLeases = or_else (oc_maxLeases c) 10000,
       st_evidenceRetentionSeconds = or_else (oc_evidenceRetentionSeconds c) (7 * 86400)\<rparr>)"

section \<open>Admission\<close>

definition allowRequest :: "oast_env \<Rightarrow> int \<Rightarrow> oast_service \<Rightarrow> oast_service \<times> bool" where
  "allowRequest env now sv =
     (let sv1 = (if now - sv_windowStartedAt sv \<ge> 1000 then sv\<lparr>sv_windowStartedAt := now, sv_requestsInWindow := 0\<rparr> else sv);
          n = sv_requestsInWindow sv1 + 1 in
      (sv1\<lparr>sv_requestsInWindow := n\<rparr>, n \<le> or_else (oc_maxRequestsPerSecond (oe_config env)) 500))"

definition trackSocket :: "oast_env \<Rightarrow> oast_service \<Rightarrow> oast_service \<times> bool" where
  "trackSocket env sv =
     (if sv_closed sv \<or> sv_sockets sv \<ge> or_else (oc_maxConnections (oe_config env)) 200 then (sv, False)
      else (sv\<lparr>sv_sockets := sv_sockets sv + 1\<rparr>, True))"

section \<open>DNS\<close>

definition handleDns ::
  "oast_runtime \<Rightarrow> oast_env \<Rightarrow> int \<Rightarrow> string \<Rightarrow> buffer \<Rightarrow> string \<Rightarrow> bool \<Rightarrow> oast_service \<Rightarrow> oast_service \<times> buffer option" where
  "handleDns rt env now eventId message source tcp sv =
     (let s = service_settings env; (sv1, allowed) = allowRequest env now sv in
      if \<not> allowed then (sv1, None)
      else case parseOastDnsQuery message of
        None \<Rightarrow> (sv1, None)
      | Some parsed \<Rightarrow>
          let lease = (case oastDnsIdentity (dq_name parsed) (oc_baseDomain (oe_config env)) of
                         None \<Rightarrow> None
                       | Some (leaseId, sig) \<Rightarrow> validateIdentity rt s now (sv_db sv1) leaseId sig DNS);
              sv2 = (case lease of
                       None \<Rightarrow> sv1
                     | Some row \<Rightarrow> sv1\<lparr>sv_db := fst (recordTransaction rt s now eventId row DNS source
                                       (dq_name parsed @ nul @ show_base 10 (dq_type parsed)) (sv_db sv1))\<rparr>) in
          (sv2, Some (answerOastDns message parsed (lease \<noteq> None) (oe_config env) tcp)))"

text \<open>
  A DNS connection over TCP: \<open>tc_expected\<close> is the length prefix once it has been read, \<open>tc_pending\<close> the bytes behind it.
  A chunk either leaves the connection waiting, destroys it, or completes one message.
\<close>

record tcp_conn =
  tc_pending :: buffer
  tc_expected :: "nat option"
  tc_handled :: bool

datatype tcp_action = TcpWait | TcpDestroy | TcpMessage buffer

definition tcp_new :: tcp_conn where
  "tcp_new = \<lparr>tc_pending = [], tc_expected = None, tc_handled = False\<rparr>"

definition tcp_data :: "buffer \<Rightarrow> tcp_conn \<Rightarrow> tcp_conn \<times> tcp_action" where
  "tcp_data chunk t =
     (if tc_handled t then (t, TcpWait)
      else let pending = tc_pending t @ chunk; t1 = t\<lparr>tc_pending := pending\<rparr> in
        if length pending > 4098 then (t1, TcpDestroy)
        else let t2 = (if tc_expected t1 = None \<and> length pending \<ge> 2
                       then t1\<lparr>tc_expected := Some (nat (readUInt16BE pending 0)), tc_pending := drop 2 pending\<rparr> else t1) in
          case tc_expected t2 of
            None \<Rightarrow> (t2, TcpWait)
          | Some expected \<Rightarrow>
              if expected < 17 \<or> expected > 4096 then (t2, TcpDestroy)
              else if length (tc_pending t2) < expected then (t2, TcpWait)
              else (t2\<lparr>tc_handled := True\<rparr>, TcpMessage (take expected (tc_pending t2))))"

text \<open>What is written back: the answer behind its length, or nothing.\<close>

definition tcp_reply :: "buffer option \<Rightarrow> buffer" where
  "tcp_reply response = (case response of None \<Rightarrow> [] | Some r \<Rightarrow> writeUIntBE 2 (int (length r)) @ r)"

section \<open>HTTP\<close>

datatype oast_payload =
    HealthPayload oast_mode
  | ReadyPayload bool string
  | ErrorPayload string
  | LeasePayload lease_identity
  | PollPayload poll_response
  | EmptyPayload
  | RecordedPayload bool bool

type_synonym oast_response = "int \<times> oast_payload"

definition path_id_char :: "char \<Rightarrow> bool" where
  "path_id_char c \<longleftrightarrow> c \<in> set ''abcdefghijklmnopqrstuvwxyz0123456789_-''"

text \<open>\<^verbatim>\<open>/^\/v1\/leases\/([a-z0-9_-]{16,32})\/events$/\<close> and \<^verbatim>\<open>/^\/c\/([a-f0-9]{32})\/([a-f0-9]{32})$/\<close>.\<close>

definition poll_path :: "string \<Rightarrow> string option" where
  "poll_path p =
     (let pre = ''/v1/leases/''; suf = ''/events''; n = length p - length pre - length suf; x = take n (drop (length pre) p) in
      if starts_with p pre \<and> ends_with p suf \<and> length p = length pre + n + length suf \<and> len_between 16 32 x \<and> list_all path_id_char x
      then Some x else None)"

definition callback_path :: "string \<Rightarrow> (string \<times> string) option" where
  "callback_path p =
     (let leaseId = take 32 (drop 3 p); sig = drop 36 p in
      if length p = 68 \<and> starts_with p ''/c/'' \<and> p ! 35 = CHR ''/'' \<and> is_hex_digest 32 leaseId \<and> is_hex_digest 32 sig
      then Some (leaseId, sig) else None)"

definition header :: "oast_http_request \<Rightarrow> string \<Rightarrow> string" where
  "header q name = or_else (map_of (hq_headers q) name) []"

definition token_char :: "char \<Rightarrow> bool" where
  "token_char c \<longleftrightarrow> is_alnum c \<or> c \<in> set ''._~-''"

definition bearer :: "oast_http_request \<Rightarrow> string option" where
  "bearer q =
     (let h = header q ''authorization''; t = drop 7 h in
      if starts_with h ''Bearer '' \<and> len_between 20 200 t \<and> list_all token_char t then Some t else None)"

definition isLoopbackAddress :: "string option \<Rightarrow> bool" where
  "isLoopbackAddress v =
     (case v of None \<Rightarrow> False
      | Some a \<Rightarrow> a \<noteq> [] \<and> (a = ''::1'' \<or> starts_with a ''127.'' \<or> starts_with (to_lower a) ''::ffff:127.''))"

text \<open>The lease request schema: a strict object with these six fields.\<close>

definition name_pattern :: "char list \<Rightarrow> nat \<Rightarrow> string \<Rightarrow> bool" where
  "name_pattern extra n s \<longleftrightarrow> len_between 1 (n + 1) s \<and> is_alnum (hd s) \<and> list_all (\<lambda>c. is_alnum c \<or> c \<in> set extra) s"

definition json_string :: "(string \<times> json) list \<Rightarrow> string \<Rightarrow> string option" where
  "json_string kvs k = (case map_of kvs k of Some (JString v) \<Rightarrow> Some v | _ \<Rightarrow> None)"

definition json_integer :: "(string \<times> json) list \<Rightarrow> string \<Rightarrow> int option" where
  "json_integer kvs k = (case map_of kvs k of
     Some (JNumber t) \<Rightarrow> if t \<noteq> [] \<and> list_all is_digit t then Some (digits_value 10 0 t) else None | _ \<Rightarrow> None)"

fun json_protocol :: "json \<Rightarrow> oast_protocol option" where
  "json_protocol (JString v) = (if v = ''DNS'' then Some DNS else if v = ''HTTP'' then Some HTTP else if v = ''HTTPS'' then Some HTTPS else None)"
| "json_protocol _ = None"

definition json_protocols :: "(string \<times> json) list \<Rightarrow> string \<Rightarrow> oast_protocol list option" where
  "json_protocols kvs k = (case map_of kvs k of
     Some (JArray xs) \<Rightarrow> if list_all (\<lambda>x. json_protocol x \<noteq> None) xs then Some (map (\<lambda>x. the (json_protocol x)) xs) else None
   | _ \<Rightarrow> None)"

definition lease_request_fields :: "string list" where
  "lease_request_fields = [''tenantId'', ''workerId'', ''jobId'', ''caseId'', ''ttlSeconds'', ''protocols'']"

definition leaseRequestSchema :: "json \<Rightarrow> lease_request option" where
  "leaseRequestSchema v =
     (case v of
        JObject kvs \<Rightarrow>
          (case (json_string kvs ''tenantId'', json_string kvs ''workerId'', json_string kvs ''jobId'', json_string kvs ''caseId'',
                 json_integer kvs ''ttlSeconds'', json_protocols kvs ''protocols'') of
             (Some tenant, Some worker, Some job, Some cas, Some ttl, Some protocols) \<Rightarrow>
               if list_all (\<lambda>(k, _). k \<in> set lease_request_fields) kvs
                  \<and> name_pattern ''._-'' 119 tenant \<and> name_pattern ''._-'' 119 worker \<and> name_pattern ''._-'' 119 job
                  \<and> name_pattern ''._:-'' 199 cas \<and> int_between 30 (7 * 24 * 60 * 60) ttl
                  \<and> len_between 1 3 protocols \<and> \<not> has_duplicates protocols
               then Some \<lparr>rq_tenantId = tenant, rq_workerId = worker, rq_jobId = job, rq_caseId = cas, rq_ttlSeconds = ttl, rq_protocols = protocols\<rparr>
               else None
           | _ \<Rightarrow> None)
      | _ \<Rightarrow> None)"

definition string_compare :: "string \<Rightarrow> string \<Rightarrow> int" where
  "string_compare = locale_compare"

definition canonicalQueryKeys :: "oast_http_request \<Rightarrow> string" where
  "canonicalQueryKeys q = join_with '','' (sort_by string_compare (js_set (hq_queryKeys q)))"

definition canonicalHeaderNames :: "oast_http_request \<Rightarrow> string" where
  "canonicalHeaderNames q =
     join_with '','' (sort_by string_compare
       (filter (\<lambda>n. n \<notin> {''authorization'', ''cookie'', ''proxy-authorization''}) (map (to_lower \<circ> fst) (hq_headers q))))"

definition bodyHash :: "oast_runtime \<Rightarrow> string \<Rightarrow> string" where
  "bodyHash rt v = (if v \<noteq> [] then rt_sha256 rt v else ''empty'')"

definition callback_material :: "oast_runtime \<Rightarrow> oast_http_request \<Rightarrow> string" where
  "callback_material rt q =
     join_with nul [hq_method q, (case hq_url q of None \<Rightarrow> [] | Some u \<Rightarrow> u_pathname u), canonicalQueryKeys q, canonicalHeaderNames q,
       show_base 10 (int (length (hq_body q))), bodyHash rt (hq_body q)]"

datatype http_step = Answered oast_response | Waiting oast_pending

text \<open>The handler up to the answer, or up to the wait for a body.\<close>

definition handleHttp_begin ::
  "oast_runtime \<Rightarrow> oast_env \<Rightarrow> int \<Rightarrow> oast_protocol \<Rightarrow> oast_http_request \<Rightarrow> oast_service \<Rightarrow> oast_service \<times> http_step" where
  "handleHttp_begin rt env now protocol q sv =
     (case hq_url q of
        None \<Rightarrow> (sv, Answered (400, ErrorPayload ''invalid_request''))
      | Some u \<Rightarrow>
        let path = u_pathname u; s = service_settings env in
        if hq_method q = ''GET'' \<and> path = ''/healthz'' then (sv, Answered (200, HealthPayload (oc_mode (oe_config env))))
        else if hq_method q = ''GET'' \<and> path = ''/readyz'' then
          let ready = (\<not> sv_closed sv \<and> sv_tcpListening sv \<and> (\<not> sv_https sv \<or> sv_tlsExpiresAt sv > now + 60000)) in
          (sv, Answered (if ready then 200 else 503, ReadyPayload ready (oe_configSha256 env)))
        else let (sv1, allowed) = allowRequest env now sv in
          if \<not> allowed then (sv1, Answered (429, ErrorPayload ''service_request_limit''))
          else if (path = ''/v1/leases'' \<or> poll_path path \<noteq> None) \<and> protocol \<noteq> HTTPS
                  \<and> (oc_mode (oe_config env) = HOSTED \<or> \<not> isLoopbackAddress (hq_remoteAddress q))
          then (sv1, Answered (426, ErrorPayload ''https_required''))
          else if hq_method q = ''POST'' \<and> path = ''/v1/leases'' then
            if \<not> starts_with (to_lower (header q ''content-type'')) ''application/json''
            then (sv1, Answered (415, ErrorPayload ''application_json_required''))
            else (sv1, Waiting AwaitLeaseBody)
          else if poll_path path \<noteq> None \<and> hq_method q = ''GET'' then
            (case poll rt s now (sv_db sv1) (the (poll_path path)) (or_else (bearer q) []) of
               Some r \<Rightarrow> (sv1, Answered (200, PollPayload r))
             | None \<Rightarrow> (sv1, Answered (401, ErrorPayload ''invalid_poll_token'')))
          else if poll_path path \<noteq> None \<and> hq_method q = ''DELETE'' then
            (case revoke rt (sv_db sv1) (the (poll_path path)) (or_else (bearer q) []) of
               (db, ok) \<Rightarrow> (sv1\<lparr>sv_db := db\<rparr>, Answered (if ok then (204, EmptyPayload) else (401, ErrorPayload ''invalid_poll_token''))))
          else case callback_path path of
            Some (leaseId, sig) \<Rightarrow>
              (case validateIdentity rt s now (sv_db sv1) leaseId sig protocol of
                 None \<Rightarrow> (sv1, Answered (404, ErrorPayload ''callback_identity_invalid_or_expired''))
               | Some row \<Rightarrow> (sv1, Waiting (AwaitCallbackBody row protocol)))
          | None \<Rightarrow> (sv1, Answered (404, ErrorPayload ''not_found'')))"

text \<open>The lease request behind its body.\<close>

definition handle_lease_body ::
  "oast_runtime \<Rightarrow> oast_env \<Rightarrow> int \<Rightarrow> string \<Rightarrow> string \<Rightarrow> oast_http_request \<Rightarrow> oast_service \<Rightarrow> oast_service \<times> oast_response" where
  "handle_lease_body rt env now leaseId pollToken q sv =
     (let c = oe_config env; s = service_settings env in
      if length (hq_body q) > oc_maxRequestBytes c then (sv, (413, ErrorPayload ''invalid_request''))
      else case jr_parse rt (hq_body q) of
        None \<Rightarrow> (sv, (400, ErrorPayload ''invalid_request''))
      | Some v \<Rightarrow>
        (case leaseRequestSchema v of
           None \<Rightarrow> (sv, (400, ErrorPayload ''invalid_lease_request''))
         | Some r \<Rightarrow>
           if (case map_of (oe_tenantTokens env) (rq_tenantId r) of None \<Rightarrow> True | Some t \<Rightarrow> t = [] \<or> bearer q \<noteq> Some t)
           then (sv, (401, ErrorPayload ''unauthorized''))
           else if rq_ttlSeconds r > oc_maxLeaseSeconds c then (sv, (400, ErrorPayload ''lease_ttl_exceeds_service_limit''))
           else if HTTP \<in> set (rq_protocols r) \<and> oc_mode c = HOSTED \<and> \<not> present (oc_publicHttpBaseUrl c)
           then (sv, (400, ErrorPayload ''http_callback_unavailable''))
           else if HTTPS \<in> set (rq_protocols r) \<and> \<not> sv_https sv then (sv, (400, ErrorPayload ''https_callback_unavailable''))
           else case createLease rt s now leaseId pollToken r (sv_db sv) of
             (db, Inr identity) \<Rightarrow> (sv\<lparr>sv_db := db\<rparr>, (201, LeasePayload identity))
           | (db, Inl e) \<Rightarrow> (sv\<lparr>sv_db := db\<rparr>, (if e = OAST_LEASE_LIMIT then 429 else 400, ErrorPayload ''invalid_request''))))"

text \<open>The callback behind its body.\<close>

definition handle_callback_body ::
  "oast_runtime \<Rightarrow> oast_env \<Rightarrow> int \<Rightarrow> string \<Rightarrow> lease_row \<Rightarrow> oast_protocol \<Rightarrow> oast_http_request \<Rightarrow> oast_service \<Rightarrow> oast_service \<times> oast_response" where
  "handle_callback_body rt env now eventId row protocol q sv =
     (if length (hq_body q) > oc_maxRequestBytes (oe_config env) then (sv, (413, ErrorPayload ''invalid_request''))
      else case recordTransaction rt (service_settings env) now eventId row protocol (or_else (hq_remoteAddress q) ''unknown'')
             (callback_material rt q) (sv_db sv) of
        (db, accepted, replay) \<Rightarrow>
          (sv\<lparr>sv_db := db\<rparr>, (if replay then 409 else if accepted then 202 else 429, RecordedPayload accepted replay)))"

section \<open>Runs\<close>

text \<open>
  The operations of the service on its state: a datagram or TCP message, an HTTP request up to its answer or its wait, the rest
  of a waiting request when its body has arrived (with the random values it draws), a request that is dropped while it
  waits, a connection that opens or closes, and the maintenance timer.
\<close>

datatype oast_op =
    OpDns int string buffer string bool
  | OpHttp int oast_protocol oast_http_request
  | OpBody nat int string string
  | OpDrop nat
  | OpConnect
  | OpDisconnect
  | OpMaintenance int

datatype oast_output = DnsOut "buffer option" | HttpOut oast_response | Silent

definition drop_pending :: "nat \<Rightarrow> oast_service \<Rightarrow> oast_service" where
  "drop_pending i sv = sv\<lparr>sv_pending := take i (sv_pending sv) @ drop (Suc i) (sv_pending sv)\<rparr>"

fun oast_exec :: "oast_runtime \<Rightarrow> oast_env \<Rightarrow> oast_op \<Rightarrow> oast_service \<Rightarrow> oast_service \<times> oast_output" where
  "oast_exec rt env (OpDns now eventId message source tcp) sv =
     (case handleDns rt env now eventId message source tcp sv of (sv', r) \<Rightarrow> (sv', DnsOut r))"
| "oast_exec rt env (OpHttp now protocol q) sv =
     (case handleHttp_begin rt env now protocol q sv of
        (sv', Answered r) \<Rightarrow> (sv', HttpOut r)
      | (sv', Waiting p) \<Rightarrow> (sv'\<lparr>sv_pending := sv_pending sv' @ [(q, p)]\<rparr>, Silent))"
| "oast_exec rt env (OpBody i now id1 id2) sv =
     (if i < length (sv_pending sv) then
        (case sv_pending sv ! i of
           (q, AwaitLeaseBody) \<Rightarrow>
             (case handle_lease_body rt env now id1 id2 q (drop_pending i sv) of (sv', r) \<Rightarrow> (sv', HttpOut r))
         | (q, AwaitCallbackBody row protocol) \<Rightarrow>
             (case handle_callback_body rt env now id1 row protocol q (drop_pending i sv) of (sv', r) \<Rightarrow> (sv', HttpOut r)))
      else (sv, Silent))"
| "oast_exec rt env (OpDrop i) sv = (drop_pending i sv, Silent)"
| "oast_exec rt env OpConnect sv = (fst (trackSocket env sv), Silent)"
| "oast_exec rt env OpDisconnect sv = (sv\<lparr>sv_sockets := sv_sockets sv - 1\<rparr>, Silent)"
| "oast_exec rt env (OpMaintenance now) sv = (sv\<lparr>sv_db := prune (service_settings env) now (sv_db sv)\<rparr>, Silent)"

end
