(* ===== verification/RC_OastStoreFacts.thy ===== *)
theory RC_OastStoreFacts
  imports RC_OastStore
begin

text \<open>
  The constraints of the evidence database as an invariant of the store's operations, and the interface the service relies on:
  of all callbacks of one kind under one lease, one is accepted.
\<close>

section \<open>Well-formed databases\<close>

definition lease_ok :: "oast_runtime \<Rightarrow> oast_settings \<Rightarrow> lease_row \<Rightarrow> bool" where
  "lease_ok rt s r \<longleftrightarrow> lr_signature r = signature rt s (lr_id r) (lr_expires_at r) DNS \<and> lr_status r \<noteq> EXPIRED
     \<and> distinct (lr_protocols r) \<and> lr_expires_at r \<le> lr_created_at r + st_maxLeaseSeconds s * 1000"

definition event_ok :: "lease_row \<Rightarrow> event_row \<Rightarrow> bool" where
  "event_ok r e \<longleftrightarrow> lr_id r = er_lease_id e \<and> er_observed_at e < lr_expires_at r \<and> 0 \<le> er_delay_ms e"

definition db_ok :: "oast_runtime \<Rightarrow> oast_settings \<Rightarrow> oast_db \<Rightarrow> bool" where
  "db_ok rt s db \<longleftrightarrow>
     distinct (map lr_id (db_leases db)) \<and> list_all (lease_ok rt s) (db_leases db) \<and> length (db_leases db) \<le> st_maxLeases s
     \<and> distinct (map er_id (db_events db)) \<and> distinct (map (\<lambda>e. (er_lease_id e, er_protocol e)) (db_events db))
     \<and> distinct (map (\<lambda>e. (er_lease_id e, er_request_fingerprint e)) (db_events db))
     \<and> list_all (\<lambda>e. list_ex (\<lambda>r. event_ok r e) (db_leases db) \<and> length (lease_events db (er_lease_id e)) \<le> st_maxEventsPerLease s)
         (db_events db)"

lemma db_okD:
  assumes "db_ok rt s db"
  shows "distinct (map lr_id (db_leases db))" "\<And>r. r \<in> set (db_leases db) \<Longrightarrow> lease_ok rt s r" "length (db_leases db) \<le> st_maxLeases s"
    "distinct (map er_id (db_events db))" "distinct (map (\<lambda>e. (er_lease_id e, er_protocol e)) (db_events db))"
    "distinct (map (\<lambda>e. (er_lease_id e, er_request_fingerprint e)) (db_events db))"
    "\<And>e. e \<in> set (db_events db) \<Longrightarrow> \<exists>r \<in> set (db_leases db). event_ok r e"
    "\<And>e. e \<in> set (db_events db) \<Longrightarrow> length (lease_events db (er_lease_id e)) \<le> st_maxEventsPerLease s"
  using assms by (auto simp: db_ok_def list_all_iff list_ex_iff)

lemma find_lease_Some: "find_lease db i = Some r \<Longrightarrow> r \<in> set (db_leases db) \<and> lr_id r = i"
  unfolding find_lease_def by (auto dest: find_Some_set)

lemma find_lease_None: "find_lease db i = None \<longleftrightarrow> i \<notin> lr_id ` set (db_leases db)"
  by (auto simp: find_lease_def find_None_iff)

lemma find_lease_unique:
  assumes "distinct (map lr_id (db_leases db))" "r \<in> set (db_leases db)" shows "find_lease db (lr_id r) = Some r"
proof -
  have "find_lease db (lr_id r) \<noteq> None" using assms(2) by (auto simp: find_lease_None)
  then obtain r' where r': "find_lease db (lr_id r) = Some r'" by blast
  then have "r' \<in> set (db_leases db)" "lr_id r' = lr_id r" using find_lease_Some by auto
  then have "r' = r" using assms by (metis distinct_map inj_onD)
  then show ?thesis using r' by simp
qed

lemma find_lease_prune:
  assumes "distinct (map lr_id (db_leases db))" "find_lease (prune s now db) i = Some r" shows "find_lease db i = Some r"
proof -
  have "r \<in> set (db_leases db)" "lr_id r = i" using find_lease_Some [OF assms(2)] by (auto simp: prune_def Let_def)
  then show ?thesis using find_lease_unique [OF assms(1)] by blast
qed

section \<open>Every operation keeps a database well formed\<close>

lemma filter_map_distinct: "distinct (map f xs) \<Longrightarrow> distinct (map f (filter p xs))"
  by (simp add: distinct_map_filter)

lemma prune_ok: assumes "db_ok rt s db" shows "db_ok rt s (prune s now db)"
proof -
  let ?db = "prune s now db"
  have l: "set (db_leases ?db) \<subseteq> set (db_leases db)" "set (db_events ?db) \<subseteq> set (db_events db)"
    by (auto simp: prune_def Let_def)
  have len: "length (lease_events ?db i) \<le> length (lease_events db i)" for i
    by (auto simp: prune_def Let_def lease_events_def intro!: length_filter_mono)
  have ev: "\<exists>r \<in> set (db_leases ?db). event_ok r e" if e: "e \<in> set (db_events ?db)" for e
  proof -
    obtain r where r: "r \<in> set (db_leases db)" "event_ok r e" using db_okD(7) [OF assms] e l(2) by blast
    obtain r' where r': "r' \<in> set (db_leases ?db)" "lr_id r' = er_lease_id e" using e by (auto simp: prune_def Let_def)
    have "r' = r" using db_okD(1) [OF assms] r r' l(1) by (metis distinct_map event_ok_def inj_onD subsetD)
    then show ?thesis using r r' by blast
  qed
  have "distinct (map lr_id (db_leases ?db))" "distinct (map er_id (db_events ?db))"
    "distinct (map (\<lambda>e. (er_lease_id e, er_protocol e)) (db_events ?db))"
    "distinct (map (\<lambda>e. (er_lease_id e, er_request_fingerprint e)) (db_events ?db))"
    using db_okD(1,4,5,6) [OF assms] by (simp_all add: prune_def Let_def filter_map_distinct)
  moreover have "length (db_leases ?db) \<le> st_maxLeases s"
    using db_okD(3) [OF assms] by (simp add: prune_def Let_def) (meson le_trans length_filter_le)
  moreover have "\<forall>e \<in> set (db_events ?db). length (lease_events ?db (er_lease_id e)) \<le> st_maxEventsPerLease s"
    using db_okD(8) [OF assms] l(2) len by (meson le_trans subsetD)
  ultimately show ?thesis using db_okD(2) [OF assms] l ev
    unfolding db_ok_def list_all_iff list_ex_iff by (intro conjI ballI) auto
qed

lemma createLease_ok:
  assumes "db_ok rt s db" shows "db_ok rt s (fst (createLease rt s now i t q db))"
proof -
  let ?p = "prune s now db"
  have p: "db_ok rt s ?p" by (rule prune_ok [OF assms])
  have add: "db_ok rt s (?p\<lparr>db_leases := db_leases ?p @ [r]\<rparr>)"
    if "lr_id r \<notin> lr_id ` set (db_leases ?p)" "lease_ok rt s r" "length (db_leases ?p) < st_maxLeases s" for r
    using p that by (auto simp: db_ok_def list_all_iff list_ex_iff lease_events_def)
  have row: "lr_id (new_lease_row rt s now i t q) = i" "lease_ok rt s (new_lease_row rt s now i t q)"
    by (simp_all add: new_lease_row_def Let_def lease_ok_def js_set_def)
  show ?thesis using p row by (auto simp: createLease_def Let_def find_lease_None intro!: add)
qed

lemma mark_replayed_ok: assumes "db_ok rt s db" shows "db_ok rt s (mark_replayed i p db)"
proof -
  let ?f = "\<lambda>e. if er_lease_id e = i \<and> er_protocol e = p then e\<lparr>er_replay_rejected := True\<rparr> else e"
  have keep: "er_id (?f e) = er_id e" "er_lease_id (?f e) = er_lease_id e" "er_protocol (?f e) = er_protocol e"
    "er_request_fingerprint (?f e) = er_request_fingerprint e" "event_ok r (?f e) = event_ok r e" for e r
    by (simp_all add: event_ok_def)
  have len: "length (lease_events (mark_replayed i p db) j) = length (lease_events db j)" for j
    by (simp add: lease_events_def mark_replayed_def filter_map comp_def keep(2))
  have maps: "map er_id (map ?f xs) = map er_id xs" "map (\<lambda>e. (er_lease_id e, er_protocol e)) (map ?f xs) = map (\<lambda>e. (er_lease_id e, er_protocol e)) xs"
    "map (\<lambda>e. (er_lease_id e, er_request_fingerprint e)) (map ?f xs) = map (\<lambda>e. (er_lease_id e, er_request_fingerprint e)) xs" for xs
    by (simp_all add: comp_def keep)
  have ev: "db_events (mark_replayed i p db) = map ?f (db_events db)" "db_leases (mark_replayed i p db) = db_leases db"
    by (simp_all add: mark_replayed_def)
  show ?thesis using assms unfolding db_ok_def len ev maps list_all_iff set_map by (simp only: ball_simps keep simp_thms) blast
qed

text \<open>The cases of a record: refused, marked as a replay, or one row appended.\<close>

lemma record_cases:
  assumes "recordTransaction rt s now i row p src mat db = (db', acc, rep)"
  obtains (refused) "db' = db" "\<not> acc" "\<not> rep"
  | (replayed) "db' = mark_replayed (lr_id row) p db" "\<not> acc" "rep"
  | (accepted) e cur where "db' = db\<lparr>db_events := db_events db @ [e]\<rparr>" "acc" "\<not> rep" "find_lease db (lr_id row) = Some cur"
      "live_row now cur" "\<not> event_conflict db e" "er_lease_id e = lr_id row" "er_protocol e = p" "er_observed_at e = now"
      "0 \<le> er_delay_ms e" "length (lease_events db (lr_id row)) < st_maxEventsPerLease s" "\<not> er_replay_rejected e"
      "er_request_fingerprint e = keyedHash rt s (protocol_name p @ nul @ mat)" "er_id e = i"
proof (cases "find_lease db (lr_id row)")
  case None
  then show ?thesis using assms refused by (simp add: recordTransaction_def)
next
  case (Some cur)
  let ?e = "\<lparr>er_id = i, er_lease_id = lr_id row, er_protocol = p, er_observed_at = now, er_delay_ms = max 0 (now - lr_created_at row),
     er_source_fingerprint = keyedHash rt s src, er_request_fingerprint = keyedHash rt s (protocol_name p @ nul @ mat), er_replay_rejected = False\<rparr>"
  show ?thesis
  proof (cases "live_row now cur \<and> \<not> list_ex (\<lambda>e. er_protocol e = p) (lease_events db (lr_id row))
      \<and> length (lease_events db (lr_id row)) < st_maxEventsPerLease s \<and> \<not> event_conflict db ?e")
    case True
    then have "db' = db\<lparr>db_events := db_events db @ [?e]\<rparr>" "acc" "\<not> rep"
      using assms Some by (auto simp: recordTransaction_def Let_def)
    then show ?thesis using accepted [of ?e cur] True Some by simp
  next
    case False
    then show ?thesis using assms Some refused replayed
      by (auto simp: recordTransaction_def Let_def split: if_splits)
  qed
qed

lemma lease_events_append: "lease_events (db\<lparr>db_events := db_events db @ [e]\<rparr>) i = lease_events db i @ (if er_lease_id e = i then [e] else [])"
  by (simp add: lease_events_def)

lemma append_event_ok:
  assumes ok: "db_ok rt s db" and e: "\<not> event_conflict db e" "event_ok r e" "r \<in> set (db_leases db)"
    and n: "length (lease_events db (er_lease_id e)) < st_maxEventsPerLease s"
  shows "db_ok rt s (db\<lparr>db_events := db_events db @ [e]\<rparr>)"
proof -
  let ?db = "db\<lparr>db_events := db_events db @ [e]\<rparr>"
  have c: "\<forall>x \<in> set (db_events db). er_id x \<noteq> er_id e \<and> \<not> (er_lease_id x = er_lease_id e
      \<and> (er_request_fingerprint x = er_request_fingerprint e \<or> er_protocol x = er_protocol e))"
    using e(1) by (auto simp: event_conflict_def list_ex_iff)
  have "length (lease_events ?db (er_lease_id x)) \<le> st_maxEventsPerLease s" if "x \<in> set (db_events ?db)" for x
    using that db_okD(8) [OF ok, of x] n unfolding lease_events_append by (auto split: if_splits)
  then show ?thesis using db_okD [OF ok] c e(2,3) unfolding db_ok_def list_all_iff list_ex_iff
    by (intro conjI ballI) auto
qed

lemma record_ok:
  assumes "db_ok rt s db" "recordTransaction rt s now i row p src mat db = (db', acc, rep)" shows "db_ok rt s db'"
proof (cases rule: record_cases [OF assms(2)])
  case (3 e cur)
  have "cur \<in> set (db_leases db)" "lr_id cur = lr_id row" using find_lease_Some [OF 3(4)] by auto
  then show ?thesis using append_event_ok [OF assms(1) 3(6), of cur] 3 by (simp add: event_ok_def live_row_def)
qed (use assms(1) mark_replayed_ok in simp_all)

lemma revoke_ok: assumes "db_ok rt s db" shows "db_ok rt s (fst (revoke rt db i t))"
proof -
  let ?g = "\<lambda>r. if lr_id r = i then r\<lparr>lr_status := REVOKED\<rparr> else r"
  have keep: "lr_id (?g r) = lr_id r" "event_ok (?g r) e = event_ok r e" for r e by (simp_all add: event_ok_def)
  have lease: "lease_ok rt s r \<Longrightarrow> lease_ok rt s (?g r)" for r by (simp add: lease_ok_def)
  have ids: "map lr_id (map ?g xs) = map lr_id xs" for xs by (simp add: comp_def keep)
  have leases: "list_all (lease_ok rt s) xs \<Longrightarrow> list_all (lease_ok rt s) (map ?g xs)" for xs using lease by (induction xs) simp_all
  have ex: "list_ex (\<lambda>r. event_ok r e) (map ?g xs) = list_ex (\<lambda>r. event_ok r e) xs" for e xs
    by (induction xs) (simp_all only: list.map list_ex_Nil_iff list_ex_Cons_iff keep)
  have ev: "lease_events (db\<lparr>db_leases := xs\<rparr>) j = lease_events db j" for xs j by (simp add: lease_events_def)
  have "db_ok rt s (db\<lparr>db_leases := map ?g (db_leases db)\<rparr>)"
  proof -
    have d: "list_all (lease_ok rt s) (db_leases db)" using assms by (simp add: db_ok_def)
    have f: "db_leases (db\<lparr>db_leases := xs\<rparr>) = xs" "db_events (db\<lparr>db_leases := xs\<rparr>) = db_events db" for xs by simp_all
    show ?thesis using assms leases [OF d] unfolding db_ok_def ev f ids ex length_map by (simp only: simp_thms)
  qed
  then show ?thesis using assms by (auto simp: revoke_def split: option.splits)
qed

lemma open_store_tables:
  assumes "open_store rt s db = Inr db'" shows "db_leases db' = db_leases db" "db_events db' = db_events db"
  using assms by (auto simp: open_store_def Let_def split: if_splits)

lemma open_store_ok: "db_ok rt s db \<Longrightarrow> open_store rt s db = Inr db' \<Longrightarrow> db_ok rt s db'"
  using open_store_tables [of rt s db db'] by (simp add: db_ok_def lease_events_def)

section \<open>The interface to the evidence: one acceptance per kind of callback\<close>

locale evidence_store =
  fixes ok :: "'db \<Rightarrow> bool" and add :: "'call \<Rightarrow> 'db \<Rightarrow> 'db \<times> bool \<times> bool"
    and kind :: "'call \<Rightarrow> 'key" and held :: "'db \<Rightarrow> 'key \<Rightarrow> nat"
  assumes add_ok: "ok db \<Longrightarrow> ok (fst (add c db))"
    and held_once: "ok db \<Longrightarrow> held db k \<le> 1"
    and accepted: "ok db \<Longrightarrow> fst (snd (add c db)) \<Longrightarrow> held (fst (add c db)) k = (if k = kind c then held db k + 1 else held db k)"
    and not_accepted: "ok db \<Longrightarrow> \<not> fst (snd (add c db)) \<Longrightarrow> held (fst (add c db)) k = held db k"
begin

fun run :: "'call list \<Rightarrow> 'db \<Rightarrow> 'db \<times> 'call list" where
  "run [] db = (db, [])"
| "run (c # cs) db = (case add c db of (db', acc, _) \<Rightarrow> case run cs db' of (db'', as) \<Rightarrow> (db'', if acc then c # as else as))"

lemma run_held: "ok db \<Longrightarrow> ok (fst (run cs db)) \<and> held (fst (run cs db)) k = held db k + length (filter (\<lambda>c. kind c = k) (snd (run cs db)))"
proof (induction cs arbitrary: db)
  case (Cons c cs)
  obtain db' acc rep where a: "add c db = (db', acc, rep)" by (metis prod.exhaust)
  have "ok db'" using add_ok [OF Cons.prems, of c] a by simp
  then show ?case using Cons.IH [of db'] accepted [OF Cons.prems, of c k] not_accepted [OF Cons.prems, of c k] a
    by (cases acc; cases "kind c = k") (auto split: prod.splits)
qed simp

lemma accepted_at_most_once: "ok db \<Longrightarrow> length (filter (\<lambda>c. kind c = k) (snd (run cs db))) \<le> 1"
  using run_held [of db cs k] held_once [of "fst (run cs db)" k] by linarith

end

text \<open>A call of \<^verbatim>\<open>record\<close>: the time, the fresh identifier, the validated row, the protocol, the source and the request.\<close>

type_synonym callback_call = "int \<times> string \<times> lease_row \<times> oast_protocol \<times> string \<times> string"

definition record_call :: "oast_runtime \<Rightarrow> oast_settings \<Rightarrow> callback_call \<Rightarrow> oast_db \<Rightarrow> oast_db \<times> bool \<times> bool" where
  "record_call rt s c db = (case c of (now, i, row, p, src, mat) \<Rightarrow> recordTransaction rt s now i row p src mat db)"

definition call_kind :: "callback_call \<Rightarrow> string \<times> oast_protocol" where
  "call_kind c = (case c of (now, i, row, p, src, mat) \<Rightarrow> (lr_id row, p))"

definition held_events :: "oast_db \<Rightarrow> string \<times> oast_protocol \<Rightarrow> nat" where
  "held_events db k = length (filter (\<lambda>e. (er_lease_id e, er_protocol e) = k) (db_events db))"

lemma distinct_map_count: "distinct (map f xs) \<Longrightarrow> length (filter (\<lambda>x. f x = k) xs) \<le> 1"
proof (induction xs)
  case (Cons x xs)
  show ?case
  proof (cases "f x = k")
    case True
    then have "filter (\<lambda>y. f y = k) xs = []" using Cons.prems by (metis (mono_tags, lifting) distinct.simps(2) filter_False image_eqI list.simps(9) list.set_map)
    then show ?thesis by simp
  qed (use Cons in simp)
qed simp

lemma held_mark: "held_events (mark_replayed i p db) k = held_events db k"
proof -
  have "length (filter (\<lambda>e. (er_lease_id e, er_protocol e) = k) (map (\<lambda>e. if er_lease_id e = i \<and> er_protocol e = p
      then e\<lparr>er_replay_rejected := True\<rparr> else e) xs)) = length (filter (\<lambda>e. (er_lease_id e, er_protocol e) = k) xs)" for xs
    by (induction xs) auto
  then show ?thesis by (simp add: held_events_def mark_replayed_def)
qed

interpretation oast_evidence: evidence_store "db_ok rt s" "record_call rt s" call_kind held_events for rt s
proof
  fix db :: oast_db and c :: callback_call and k :: "string \<times> oast_protocol"
  assume ok: "db_ok rt s db"
  obtain now i row p src mat where c: "c = (now, i, row, p, src, mat)" by (metis prod.exhaust)
  obtain db' acc rep where r: "recordTransaction rt s now i row p src mat db = (db', acc, rep)" by (metis prod.exhaust)
  have call: "record_call rt s c db = (db', acc, rep)" "call_kind c = (lr_id row, p)" by (simp_all add: record_call_def call_kind_def c r)
  show "db_ok rt s (fst (record_call rt s c db))" using record_ok [OF ok r] call by simp
  show "held_events db k \<le> 1" using distinct_map_count [OF db_okD(5) [OF ok]] by (simp add: held_events_def)
  show "fst (snd (record_call rt s c db)) \<Longrightarrow> held_events (fst (record_call rt s c db)) k = (if k = call_kind c then held_events db k + 1 else held_events db k)"
    using call by (cases rule: record_cases [OF r]) (auto simp: held_events_def)
  show "\<not> fst (snd (record_call rt s c db)) \<Longrightarrow> held_events (fst (record_call rt s c db)) k = held_events db k"
    using call by (cases rule: record_cases [OF r]) (auto simp: held_mark)
qed

end
