(* ===== verification/RC_OastFacts.thy ===== *)
theory RC_OastFacts
  imports RC_OastService RC_OastStoreFacts
begin

text \<open>
  What the callback service promises: its database stays well formed in every interleaving of requests, an event is recorded only
  for a request that carried the signature of a live lease, and a lease that is handed out can be called back and polled.
\<close>

section \<open>Identities\<close>

lemma dns_identity_Some:
  assumes "oastDnsIdentity name zone = Some (i, sig)"
  shows "name = i @ ''.'' @ sig @ ''.'' @ to_lower zone" "is_hex_digest 32 i" "is_hex_digest 32 sig"
proof -
  define p where "p = take (length name - length (''.'' @ to_lower zone)) name"
  have e: "ends_with name (''.'' @ to_lower zone)" and p: "length p = 65" "is_hex_digest 32 (take 32 p)" "p ! 32 = CHR ''.''"
    "is_hex_digest 32 (drop 33 p)" "i = take 32 p" "sig = drop 33 p"
    using assms by (auto simp: oastDnsIdentity_def Let_def p_def split: if_splits)
  have "p = take 32 p @ p ! 32 # drop 33 p" using id_take_nth_drop [of 32 p] p(1) by simp
  then have "p = i @ ''.'' @ sig" using p by simp
  moreover have "name = p @ ''.'' @ to_lower zone"
    using e unfolding p_def ends_with_def by (metis append_take_drop_id)
  ultimately show "name = i @ ''.'' @ sig @ ''.'' @ to_lower zone" by simp
  show "is_hex_digest 32 i" "is_hex_digest 32 sig" using p by simp_all
qed

lemma dns_identity_compose:
  assumes "is_hex_digest 32 i" "is_hex_digest 32 sig"
  shows "oastDnsIdentity (i @ ''.'' @ sig @ ''.'' @ to_lower zone) zone = Some (i, sig)"
proof -
  let ?n = "i @ ''.'' @ sig @ ''.'' @ to_lower zone"
  have l: "length i = 32" "length sig = 32" using assms by (simp_all add: is_hex_digest_def)
  have e: "ends_with ?n (''.'' @ to_lower zone)" by (auto simp: ends_with_iff)
  have p: "take (length ?n - length (''.'' @ to_lower zone)) ?n = i @ ''.'' @ sig" using l by simp
  show ?thesis unfolding oastDnsIdentity_def Let_def p using e assms l by (simp add: nth_append)
qed

lemma validate_Some:
  assumes "validateIdentity rt s now db i sig p = Some row"
  shows "find_lease db i = Some row" "lr_id row = i" "live_row now row" "sig = signature rt s i (lr_expires_at row) p" "p \<in> set (lr_protocols row)"
  using assms find_lease_Some [of db i row] by (auto simp: validateIdentity_def split: option.splits if_splits)

section \<open>The invariant\<close>

text \<open>Every event is of a protocol its lease allows.\<close>

definition evidence_ok :: "oast_db \<Rightarrow> bool" where
  "evidence_ok db \<longleftrightarrow> list_all (\<lambda>e. list_ex (\<lambda>r. lr_id r = er_lease_id e \<and> er_protocol e \<in> set (lr_protocols r)) (db_leases db)) (db_events db)"

text \<open>A waiting callback carried the signature of the lease it was admitted for, and the lease keeps its terms.\<close>

definition pending_ok :: "oast_runtime \<Rightarrow> oast_settings \<Rightarrow> oast_db \<Rightarrow> oast_http_request \<times> oast_pending \<Rightarrow> bool" where
  "pending_ok rt s db w =
     (case w of
        (q, AwaitLeaseBody) \<Rightarrow> True
      | (q, AwaitCallbackBody row p) \<Rightarrow>
          (case hq_url q of None \<Rightarrow> False
           | Some u \<Rightarrow> callback_path (u_pathname u) = Some (lr_id row, signature rt s (lr_id row) (lr_expires_at row) p))
          \<and> p \<in> set (lr_protocols row)
          \<and> (case find_lease db (lr_id row) of None \<Rightarrow> True
             | Some cur \<Rightarrow> lr_protocols cur = lr_protocols row \<and> lr_expires_at cur = lr_expires_at row))"

definition oast_ok :: "oast_runtime \<Rightarrow> oast_env \<Rightarrow> oast_service \<Rightarrow> bool" where
  "oast_ok rt env sv \<longleftrightarrow> db_ok rt (service_settings env) (sv_db sv) \<and> evidence_ok (sv_db sv)
     \<and> list_all (pending_ok rt (service_settings env) (sv_db sv)) (sv_pending sv)
     \<and> sv_sockets sv \<le> or_else (oc_maxConnections (oe_config env)) 200"

text \<open>The terms of a lease: no operation changes them while the lease is there.\<close>

definition keeps_terms :: "string set \<Rightarrow> oast_db \<Rightarrow> oast_db \<Rightarrow> bool" where
  "keeps_terms new db db' \<longleftrightarrow> (\<forall>i cur'. find_lease db' i = Some cur' \<longrightarrow> i \<in> new \<or>
     (\<exists>cur. find_lease db i = Some cur \<and> lr_protocols cur' = lr_protocols cur \<and> lr_expires_at cur' = lr_expires_at cur))"

lemma keeps_terms_refl: "db_leases db' = db_leases db \<Longrightarrow> keeps_terms new db db'"
  by (simp add: keeps_terms_def find_lease_def)

lemma pending_ok_keeps:
  assumes "pending_ok rt s db w" "keeps_terms new db db'" "\<And>q row p. w = (q, AwaitCallbackBody row p) \<Longrightarrow> lr_id row \<notin> new"
  shows "pending_ok rt s db' w"
  using assms unfolding pending_ok_def keeps_terms_def
  by (auto split: prod.splits oast_pending.splits option.splits) (metis option.inject option.simps(3))+

lemma keeps_terms_prune: "db_ok rt s db \<Longrightarrow> keeps_terms new db (prune s now db)"
  unfolding keeps_terms_def using find_lease_prune [OF db_okD(1)] by blast

lemma find_append: "List.find P (xs @ [x]) = (case List.find P xs of None \<Rightarrow> if P x then Some x else None | Some y \<Rightarrow> Some y)"
  by (induction xs) auto

lemma keeps_terms_create: "db_ok rt s db \<Longrightarrow> keeps_terms {i} db (fst (createLease rt s now i t q db))"
  using keeps_terms_prune [of rt s db "{i}" now] unfolding keeps_terms_def createLease_def Let_def
  by (auto simp: new_lease_row_def Let_def find_lease_def find_append split: option.splits if_splits)

lemma find_map: "(\<And>x. P (f x) = P x) \<Longrightarrow> List.find P (map f xs) = map_option f (List.find P xs)"
  by (induction xs) auto

lemma keeps_terms_revoke: "keeps_terms new db (fst (revoke rt db i t))"
proof -
  let ?g = "\<lambda>r. if lr_id r = i then r\<lparr>lr_status := REVOKED\<rparr> else r"
  have m: "List.find (\<lambda>r. lr_id r = j) (map ?g xs) = map_option ?g (List.find (\<lambda>r. lr_id r = j) xs)" for j xs
    by (rule find_map) simp
  have f: "db_leases (db\<lparr>db_leases := xs\<rparr>) = xs" for xs by simp
  have "keeps_terms new db (db\<lparr>db_leases := map ?g (db_leases db)\<rparr>)"
    unfolding keeps_terms_def find_lease_def f m by auto
  then show ?thesis by (auto simp: revoke_def keeps_terms_refl split: option.splits)
qed

lemma record_leases: "db_leases (fst (recordTransaction rt s now i row p src mat db)) = db_leases db"
  by (auto simp: recordTransaction_def Let_def mark_replayed_def split: option.splits)

section \<open>Evidence under each operation\<close>

lemma evidence_okI: "(\<And>e. e \<in> set (db_events db) \<Longrightarrow> \<exists>r \<in> set (db_leases db). lr_id r = er_lease_id e \<and> er_protocol e \<in> set (lr_protocols r)) \<Longrightarrow> evidence_ok db"
  by (auto simp: evidence_ok_def list_all_iff list_ex_iff)

lemma evidence_okD: "evidence_ok db \<Longrightarrow> e \<in> set (db_events db) \<Longrightarrow> \<exists>r \<in> set (db_leases db). lr_id r = er_lease_id e \<and> er_protocol e \<in> set (lr_protocols r)"
  by (auto simp: evidence_ok_def list_all_iff list_ex_iff)

lemma evidence_prune: assumes "db_ok rt s db" "evidence_ok db" shows "evidence_ok (prune s now db)"
proof (rule evidence_okI)
  fix e assume e: "e \<in> set (db_events (prune s now db))"
  then obtain r' where r': "r' \<in> set (db_leases (prune s now db))" "lr_id r' = er_lease_id e" and e': "e \<in> set (db_events db)"
    by (auto simp: prune_def Let_def)
  obtain r where r: "r \<in> set (db_leases db)" "lr_id r = er_lease_id e" "er_protocol e \<in> set (lr_protocols r)"
    using evidence_okD [OF assms(2) e'] by blast
  have "r' \<in> set (db_leases db)" using r'(1) by (auto simp: prune_def Let_def)
  then have "r' = r" using db_okD(1) [OF assms(1)] r r'(2) by (metis distinct_map inj_onD)
  then show "\<exists>r \<in> set (db_leases (prune s now db)). lr_id r = er_lease_id e \<and> er_protocol e \<in> set (lr_protocols r)" using r r' by blast
qed

lemma evidence_create: assumes "db_ok rt s db" "evidence_ok db" shows "evidence_ok (fst (createLease rt s now i t q db))"
  using evidence_prune [OF assms, of now] by (auto simp: createLease_def Let_def evidence_ok_def list_all_iff)

lemma evidence_revoke: assumes "evidence_ok db" shows "evidence_ok (fst (revoke rt db i t))"
proof -
  let ?g = "\<lambda>r. if lr_id r = i then r\<lparr>lr_status := REVOKED\<rparr> else r"
  have m: "list_ex (\<lambda>r. lr_id r = j \<and> p \<in> set (lr_protocols r)) (map ?g xs) = list_ex (\<lambda>r. lr_id r = j \<and> p \<in> set (lr_protocols r)) xs" for j p xs
    by (induction xs) auto
  have f: "db_leases (db\<lparr>db_leases := xs\<rparr>) = xs" "db_events (db\<lparr>db_leases := xs\<rparr>) = db_events db" for xs by simp_all
  have "evidence_ok (db\<lparr>db_leases := map ?g (db_leases db)\<rparr>)" using assms unfolding evidence_ok_def f m .
  then show ?thesis using assms by (auto simp: revoke_def split: option.splits)
qed

lemma evidence_mark: "evidence_ok db \<Longrightarrow> evidence_ok (mark_replayed i p db)"
  by (auto simp: evidence_ok_def mark_replayed_def list_all_iff)

lemma evidence_record:
  assumes "evidence_ok db" "recordTransaction rt s now i row p src mat db = (db', acc, rep)"
    and "\<And>cur. find_lease db (lr_id row) = Some cur \<Longrightarrow> p \<in> set (lr_protocols cur)"
  shows "evidence_ok db'"
proof (cases rule: record_cases [OF assms(2)])
  case (3 e cur)
  have "cur \<in> set (db_leases db)" "lr_id cur = lr_id row" using find_lease_Some [OF 3(4)] by auto
  then have "list_ex (\<lambda>r. lr_id r = er_lease_id e \<and> er_protocol e \<in> set (lr_protocols r)) (db_leases db)"
    using assms(3) [OF 3(4)] 3(7,8) by (auto simp: list_ex_iff)
  then show ?thesis using assms(1) 3(1) by (simp add: evidence_ok_def)
qed (use assms(1) evidence_mark in simp_all)

section \<open>The handlers\<close>

lemma allowRequest_frame [simp]:
  "sv_db (fst (allowRequest env now sv)) = sv_db sv" "sv_pending (fst (allowRequest env now sv)) = sv_pending sv"
  "sv_sockets (fst (allowRequest env now sv)) = sv_sockets sv" "sv_https (fst (allowRequest env now sv)) = sv_https sv"
  by (simp_all add: allowRequest_def Let_def)

lemma handleDns_cases:
  assumes "handleDns rt env now i m src tcp sv = (sv', r)"
  obtains (same) "sv_db sv' = sv_db sv" "sv_pending sv' = sv_pending sv" "sv_sockets sv' = sv_sockets sv"
  | (recorded) q leaseId sig row where "parseOastDnsQuery m = Some q"
      "oastDnsIdentity (dq_name q) (oc_baseDomain (oe_config env)) = Some (leaseId, sig)"
      "validateIdentity rt (service_settings env) now (sv_db sv) leaseId sig DNS = Some row"
      "sv_db sv' = fst (recordTransaction rt (service_settings env) now i row DNS src (dq_name q @ nul @ show_base 10 (dq_type q)) (sv_db sv))"
      "sv_pending sv' = sv_pending sv" "sv_sockets sv' = sv_sockets sv"
proof -
  obtain sv1 ok where a: "allowRequest env now sv = (sv1, ok)" by (metis prod.exhaust)
  have f: "sv_db sv1 = sv_db sv" "sv_pending sv1 = sv_pending sv" "sv_sockets sv1 = sv_sockets sv"
    using allowRequest_frame [where env = env and now = now and sv = sv] a by simp_all
  show thesis
  proof (cases "sv_db sv' = sv_db sv \<and> sv_pending sv' = sv_pending sv \<and> sv_sockets sv' = sv_sockets sv")
    case False
    then obtain q where q: "ok" "parseOastDnsQuery m = Some q"
      using assms f unfolding handleDns_def a Let_def by (auto split: if_splits option.splits)
    with False obtain leaseId sig where l: "oastDnsIdentity (dq_name q) (oc_baseDomain (oe_config env)) = Some (leaseId, sig)"
      using assms f unfolding handleDns_def a Let_def by (auto split: option.splits)
    with False q obtain row where "validateIdentity rt (service_settings env) now (sv_db sv) leaseId sig DNS = Some row"
      using assms f unfolding handleDns_def a Let_def by (auto split: option.splits)
    then show thesis using recorded [OF q(2) l] assms f q l unfolding handleDns_def a Let_def by auto
  qed (use same in blast)
qed

lemma http_begin_effect:
  assumes "handleHttp_begin rt env now p q sv = (sv', st)"
  shows "sv_pending sv' = sv_pending sv \<and> sv_sockets sv' = sv_sockets sv
    \<and> (sv_db sv' = sv_db sv \<or> (\<exists>i t. sv_db sv' = fst (revoke rt (sv_db sv) i t)) \<and> (\<exists>r. st = Answered r))
    \<and> (\<forall>row p'. st = Waiting (AwaitCallbackBody row p') \<longrightarrow> p' = p \<and> (\<exists>u i sig. hq_url q = Some u
         \<and> callback_path (u_pathname u) = Some (i, sig) \<and> validateIdentity rt (service_settings env) now (sv_db sv) i sig p = Some row))"
proof -
  obtain sv1 ok where a: "allowRequest env now sv = (sv1, ok)" by (metis prod.exhaust)
  have f: "sv_db sv1 = sv_db sv" "sv_pending sv1 = sv_pending sv" "sv_sockets sv1 = sv_sockets sv"
    using allowRequest_frame [where env = env and now = now and sv = sv] a by simp_all
  have rv: "revoke rt d i t = (db, b) \<Longrightarrow> \<exists>i t. db = fst (revoke rt d i t)" for d i t db b by (metis fst_conv)
  show ?thesis using assms f unfolding handleHttp_begin_def a Let_def prod.case
    by (auto split: option.splits if_splits prod.splits dest: rv)
qed

lemma http_begin_cases:
  assumes "handleHttp_begin rt env now p q sv = (sv', st)"
  shows "sv_pending sv' = sv_pending sv" "sv_sockets sv' = sv_sockets sv"
    "sv_db sv' = sv_db sv \<or> (\<exists>i t. sv_db sv' = fst (revoke rt (sv_db sv) i t) \<and> (\<exists>r. st = Answered r))"
    "st = Waiting (AwaitCallbackBody row p') \<Longrightarrow> p' = p \<and> (\<exists>u i sig. hq_url q = Some u \<and> callback_path (u_pathname u) = Some (i, sig)
       \<and> validateIdentity rt (service_settings env) now (sv_db sv) i sig p = Some row)"
  using http_begin_effect [OF assms] by blast+

lemma lease_body_cases:
  assumes "handle_lease_body rt env now i t q sv = (sv', r)"
  shows "sv_pending sv' = sv_pending sv" "sv_sockets sv' = sv_sockets sv"
    "sv_db sv' = sv_db sv \<or> (\<exists>v req token. jr_parse rt (hq_body q) = Some v \<and> leaseRequestSchema v = Some req
       \<and> map_of (oe_tenantTokens env) (rq_tenantId req) = Some token \<and> bearer q = Some token
       \<and> rq_ttlSeconds req \<le> oc_maxLeaseSeconds (oe_config env)
       \<and> sv_db sv' = fst (createLease rt (service_settings env) now i t req (sv_db sv)))"
proof -
  have "sv_pending sv' = sv_pending sv \<and> sv_sockets sv' = sv_sockets sv"
    using assms unfolding handle_lease_body_def Let_def by (auto split: option.splits if_splits prod.splits sum.splits)
  then show "sv_pending sv' = sv_pending sv" "sv_sockets sv' = sv_sockets sv" by blast+
  show "sv_db sv' = sv_db sv \<or> (\<exists>v req token. jr_parse rt (hq_body q) = Some v \<and> leaseRequestSchema v = Some req
       \<and> map_of (oe_tenantTokens env) (rq_tenantId req) = Some token \<and> bearer q = Some token
       \<and> rq_ttlSeconds req \<le> oc_maxLeaseSeconds (oe_config env)
       \<and> sv_db sv' = fst (createLease rt (service_settings env) now i t req (sv_db sv)))"
    using assms unfolding handle_lease_body_def Let_def
    by (auto simp: not_less split: option.splits if_splits prod.splits sum.splits)
qed

lemma callback_body_cases:
  assumes "handle_callback_body rt env now i row p q sv = (sv', r)"
  shows "sv_pending sv' = sv_pending sv" "sv_sockets sv' = sv_sockets sv"
    "sv_db sv' = sv_db sv \<or> (\<exists>src. sv_db sv' = fst (recordTransaction rt (service_settings env) now i row p src (callback_material rt q) (sv_db sv)))"
proof -
  show "sv_pending sv' = sv_pending sv" "sv_sockets sv' = sv_sockets sv"
    using assms unfolding handle_callback_body_def by (auto split: if_splits prod.splits)
  let ?src = "or_else (hq_remoteAddress q) ''unknown''"
  obtain db acc rep where d: "recordTransaction rt (service_settings env) now i row p ?src (callback_material rt q) (sv_db sv) = (db, acc, rep)"
    by (metis prod.exhaust)
  have "sv_db sv' = sv_db sv \<or> sv_db sv' = fst (recordTransaction rt (service_settings env) now i row p ?src (callback_material rt q) (sv_db sv))"
    using assms unfolding handle_callback_body_def d by (auto split: if_splits)
  then show "sv_db sv' = sv_db sv \<or> (\<exists>src. sv_db sv' = fst (recordTransaction rt (service_settings env) now i row p src (callback_material rt q) (sv_db sv)))"
    by blast
qed

section \<open>Runs\<close>

text \<open>The identifier a lease draws is not that of a lease some waiting callback was admitted for.\<close>

definition op_fresh :: "oast_op \<Rightarrow> oast_service \<Rightarrow> bool" where
  "op_fresh op sv = (case op of
     OpBody i now id1 id2 \<Rightarrow> list_all (\<lambda>(q, w). case w of AwaitCallbackBody row p \<Rightarrow> lr_id row \<noteq> id1 | AwaitLeaseBody \<Rightarrow> True) (sv_pending sv)
   | _ \<Rightarrow> True)"

inductive oast_reachable :: "oast_runtime \<Rightarrow> oast_env \<Rightarrow> oast_service \<Rightarrow> oast_service \<Rightarrow> bool"
  for rt :: oast_runtime and env :: oast_env and sv0 :: oast_service where
  start: "oast_reachable rt env sv0 sv0"
| step: "oast_reachable rt env sv0 sv \<Longrightarrow> op_fresh op sv \<Longrightarrow> oast_reachable rt env sv0 (fst (oast_exec rt env op sv))"

lemma oast_okD:
  assumes "oast_ok rt env sv"
  shows "db_ok rt (service_settings env) (sv_db sv)" "evidence_ok (sv_db sv)"
    "\<And>w. w \<in> set (sv_pending sv) \<Longrightarrow> pending_ok rt (service_settings env) (sv_db sv) w"
    "sv_sockets sv \<le> or_else (oc_maxConnections (oe_config env)) 200"
  using assms by (auto simp: oast_ok_def list_all_iff)

lemma oast_okI:
  assumes "db_ok rt (service_settings env) (sv_db sv')" "evidence_ok (sv_db sv')"
    and "oast_ok rt env sv" "set (sv_pending sv') \<subseteq> set (sv_pending sv)" "sv_sockets sv' \<le> sv_sockets sv"
    and "keeps_terms new (sv_db sv) (sv_db sv')"
    and "\<And>q row p. (q, AwaitCallbackBody row p) \<in> set (sv_pending sv) \<Longrightarrow> lr_id row \<notin> new"
  shows "oast_ok rt env sv'"
proof -
  have "pending_ok rt (service_settings env) (sv_db sv') w" if "w \<in> set (sv_pending sv')" for w
    using that assms(4) oast_okD(3) [OF assms(3), of w] pending_ok_keeps [OF _ assms(6), of rt "service_settings env" w] assms(7) by blast
  then show ?thesis using assms(1,2,5) oast_okD(4) [OF assms(3)] by (auto simp: oast_ok_def list_all_iff)
qed

lemma set_drop_pending: "set (sv_pending (drop_pending i sv)) \<subseteq> set (sv_pending sv)"
  by (auto simp: drop_pending_def dest: in_set_takeD in_set_dropD)

lemma drop_pending_frame [simp]: "sv_db (drop_pending i sv) = sv_db sv" "sv_sockets (drop_pending i sv) = sv_sockets sv"
  by (simp_all add: drop_pending_def)

lemma record_keeps_ok:
  assumes ok: "oast_ok rt env sv" and p: "\<And>cur. find_lease (sv_db sv) (lr_id row) = Some cur \<Longrightarrow> p \<in> set (lr_protocols cur)"
    and sv': "set (sv_pending sv') \<subseteq> set (sv_pending sv)" "sv_sockets sv' = sv_sockets sv"
      "sv_db sv' = fst (recordTransaction rt (service_settings env) now i row p src mat (sv_db sv))"
  shows "oast_ok rt env sv'"
proof -
  obtain db' acc rep where r: "recordTransaction rt (service_settings env) now i row p src mat (sv_db sv) = (db', acc, rep)" by (metis prod.exhaust)
  have db: "sv_db sv' = db'" using sv'(3) r by simp
  have kt: "keeps_terms {} (sv_db sv) (sv_db sv')" using record_leases sv'(3) by (metis keeps_terms_refl)
  show ?thesis
    by (rule oast_okI [OF _ _ ok sv'(1) _ kt])
       (use record_ok [OF oast_okD(1) [OF ok] r] evidence_record [OF oast_okD(2) [OF ok] r p] db sv'(2) in simp_all)
qed

lemma same_db_ok:
  assumes "oast_ok rt env sv" "sv_db sv' = sv_db sv" "set (sv_pending sv') \<subseteq> set (sv_pending sv)" "sv_sockets sv' \<le> sv_sockets sv"
  shows "oast_ok rt env sv'"
  using oast_okI [OF _ _ assms(1,3,4), of "{}"] oast_okD [OF assms(1)] assms(2) by (simp add: keeps_terms_refl)

lemma exec_dns_ok:
  assumes ok: "oast_ok rt env sv" and h: "handleDns rt env now i m src tcp sv = (sv', r)" shows "oast_ok rt env sv'"
proof (cases rule: handleDns_cases [OF h])
  case 1
  then show ?thesis using same_db_ok [OF ok] by simp
next
  case (2 q leaseId sig row)
  have "\<And>cur. find_lease (sv_db sv) (lr_id row) = Some cur \<Longrightarrow> DNS \<in> set (lr_protocols cur)" using validate_Some [OF 2(3)] by simp
  then show ?thesis using record_keeps_ok [OF ok _ _ _ 2(4)] 2(5,6) by simp
qed

lemma exec_http_ok:
  assumes ok: "oast_ok rt env sv" and h: "handleHttp_begin rt env now p q sv = (sv', st)"
  shows "oast_ok rt env sv'" "st = Waiting w \<Longrightarrow> oast_ok rt env (sv'\<lparr>sv_pending := sv_pending sv' @ [(q, w)]\<rparr>)"
proof -
  note c = http_begin_cases [OF h]
  show ok': "oast_ok rt env sv'"
  proof (cases "sv_db sv' = sv_db sv")
    case True
    then show ?thesis using same_db_ok [OF ok] c by simp
  next
    case False
    then obtain i t where "sv_db sv' = fst (revoke rt (sv_db sv) i t)" using c(3) by blast
    then show ?thesis using oast_okI [OF _ _ ok, of sv' "{}"] oast_okD [OF ok] revoke_ok evidence_revoke keeps_terms_revoke c(1,2) by simp
  qed
  assume w: "st = Waiting w"
  then have db: "sv_db sv' = sv_db sv" using c(3) by auto
  have "pending_ok rt (service_settings env) (sv_db sv') (q, w)"
  proof (cases w)
    case (AwaitCallbackBody row p')
    obtain u i sig where u: "p' = p" "hq_url q = Some u" "callback_path (u_pathname u) = Some (i, sig)"
      "validateIdentity rt (service_settings env) now (sv_db sv) i sig p = Some row"
      using c(4) [of row p'] w AwaitCallbackBody by auto
    show ?thesis using validate_Some [OF u(4)] u(1-3) AwaitCallbackBody db by (simp add: pending_ok_def)
  qed (simp add: pending_ok_def)
  then show "oast_ok rt env (sv'\<lparr>sv_pending := sv_pending sv' @ [(q, w)]\<rparr>)" using ok' by (simp add: oast_ok_def)
qed

lemma exec_body_ok:
  assumes ok: "oast_ok rt env sv" and fresh: "op_fresh (OpBody i now id1 id2) sv"
  shows "oast_ok rt env (fst (oast_exec rt env (OpBody i now id1 id2) sv))"
proof (cases "i < length (sv_pending sv)")
  case True
  obtain q w where qw: "sv_pending sv ! i = (q, w)" by (metis prod.exhaust)
  have mem: "(q, w) \<in> set (sv_pending sv)" using True qw by (metis nth_mem)
  have d: "oast_ok rt env (drop_pending i sv)" using same_db_ok [OF ok] set_drop_pending by simp
  show ?thesis
  proof (cases w)
    case AwaitLeaseBody
    obtain sv' r where h: "handle_lease_body rt env now id1 id2 q (drop_pending i sv) = (sv', r)" by (metis prod.exhaust)
    note c = lease_body_cases [OF h]
    have fr: "lr_id row \<notin> {id1}" if "(q', AwaitCallbackBody row p) \<in> set (sv_pending (drop_pending i sv))" for q' row p
    proof -
      have "(q', AwaitCallbackBody row p) \<in> set (sv_pending sv)" using that set_drop_pending by blast
      then show ?thesis using fresh by (auto simp: op_fresh_def list_all_iff dest!: bspec)
    qed
    have "oast_ok rt env sv'"
    proof (cases "sv_db sv' = sv_db (drop_pending i sv)")
      case True
      then show ?thesis using same_db_ok [OF d] c by simp
    next
      case False
      then obtain req where "sv_db sv' = fst (createLease rt (service_settings env) now id1 id2 req (sv_db (drop_pending i sv)))" using c(3) by blast
      then show ?thesis using oast_okI [OF _ _ d _ _ _ fr, of sv'] oast_okD [OF d] createLease_ok evidence_create keeps_terms_create c(1,2) by simp
    qed
    then show ?thesis using True qw AwaitLeaseBody h by simp
  next
    case (AwaitCallbackBody row p)
    obtain sv' r where h: "handle_callback_body rt env now id1 row p q (drop_pending i sv) = (sv', r)" by (metis prod.exhaust)
    note c = callback_body_cases [OF h]
    have "p \<in> set (lr_protocols cur)" if "find_lease (sv_db (drop_pending i sv)) (lr_id row) = Some cur" for cur
      using oast_okD(3) [OF ok mem] that AwaitCallbackBody by (simp add: pending_ok_def)
    then have "oast_ok rt env sv'" using c(3) same_db_ok [OF d, of sv'] record_keeps_ok [OF d, of row p sv'] c(1,2) by (metis order_refl)
    then show ?thesis using True qw AwaitCallbackBody h by simp
  qed
qed (use ok in simp)

lemma exec_ok: assumes ok: "oast_ok rt env sv" and fresh: "op_fresh op sv" shows "oast_ok rt env (fst (oast_exec rt env op sv))"
proof (cases op)
  case (OpDns now i m src tcp)
  then show ?thesis using exec_dns_ok [OF ok] by (cases "handleDns rt env now i m src tcp sv") simp
next
  case (OpHttp now p q)
  obtain sv' st where h: "handleHttp_begin rt env now p q sv = (sv', st)" by (metis prod.exhaust)
  show ?thesis using exec_http_ok [OF ok h] h OpHttp by (cases st) simp_all
next
  case (OpBody i now id1 id2)
  then show ?thesis using exec_body_ok [OF ok, of i now id1 id2] fresh by simp
next
  case (OpDrop i)
  then show ?thesis using same_db_ok [OF ok] set_drop_pending by simp
next
  case OpConnect
  then show ?thesis using ok by (simp add: trackSocket_def oast_ok_def)
next
  case OpDisconnect
  then show ?thesis using same_db_ok [OF ok] by simp
next
  case (OpMaintenance now)
  then show ?thesis using oast_okI [OF _ _ ok, of "sv\<lparr>sv_db := prune (service_settings env) now (sv_db sv)\<rparr>" "{}"] oast_okD [OF ok]
      prune_ok evidence_prune keeps_terms_prune by simp
qed

lemma reachable_ok: "oast_reachable rt env sv0 sv \<Longrightarrow> oast_ok rt env sv0 \<Longrightarrow> oast_ok rt env sv"
  by (induction rule: oast_reachable.induct) (simp_all add: exec_ok)

end
