(* ===== verification/RC_OastRuns.thy ===== *)
theory RC_OastRuns
  imports RC_OastFacts
begin

text \<open>
  The properties of the callback service over its runs, from the lease a tenant asks for to the evidence it polls.
\<close>

section \<open>What a step adds\<close>

lemma held_pos: "e \<in> set (db_events db) \<Longrightarrow> 0 < held_events db (er_lease_id e, er_protocol e)"
  unfolding held_events_def by (induction "db_events db" arbitrary: db) (auto simp: filter_empty_conv)

lemma record_adds:
  assumes "recordTransaction rt s now i row p src mat db = (db', acc, rep)" "e \<in> set (db_events db')"
    "held_events db (er_lease_id e, er_protocol e) = 0"
  obtains cur where "find_lease db (lr_id row) = Some cur" "live_row now cur" "er_lease_id e = lr_id row" "er_protocol e = p"
    "er_observed_at e = now"
proof (cases rule: record_cases [OF assms(1)])
  case 1
  then show ?thesis using held_pos [of e db] assms(2,3) by simp
next
  case 2
  then show ?thesis using held_pos [of e db'] assms(2,3) by (simp add: held_mark)
next
  case (3 e' cur)
  have "e = e'" using 3(1) held_pos [of e db] assms(2,3) by auto
  then show ?thesis using that 3 by simp
qed

lemma prune_events: "set (db_events (prune s now db)) \<subseteq> set (db_events db)"
  by (auto simp: prune_def Let_def)

lemma create_events: "set (db_events (fst (createLease rt s now i t q db))) \<subseteq> set (db_events db)"
  using prune_events [of s now db] by (auto simp: createLease_def Let_def)

lemma revoke_events: "db_events (fst (revoke rt db i t)) = db_events db"
  by (auto simp: revoke_def split: option.splits)

lemma http_begin_events: "handleHttp_begin rt env now p q sv = (sv', st) \<Longrightarrow> db_events (sv_db sv') = db_events (sv_db sv)"
  using http_begin_cases(3) revoke_events by metis

lemma lease_body_events:
  assumes "handle_lease_body rt env now i t q sv = (sv', r)" shows "set (db_events (sv_db sv')) \<subseteq> set (db_events (sv_db sv))"
  using lease_body_cases(3) [OF assms] create_events by (elim disjE) (auto, metis subsetD create_events)

section \<open>Creating and calling back a lease\<close>

lemma create_Inr:
  assumes "createLease rt s now i t req db = (db', Inr li)"
  obtains row where "db' = (prune s now db)\<lparr>db_leases := db_leases (prune s now db) @ [row]\<rparr>" "find_lease (prune s now db) i = None"
    "lr_id row = i" "lr_status row = ACTIVE" "set (lr_protocols row) = set (rq_protocols req)" "lr_poll_token_hash row = rt_sha256 rt t"
    "li_expiresAt li = lr_expires_at row" "li_bindingFingerprint li = lr_binding_fingerprint row"
    "li_dnsName li = i @ ''.'' @ signature rt s i (lr_expires_at row) DNS @ ''.'' @ st_baseDomain s"
proof -
  let ?r = "new_lease_row rt s now i t req"
  have r: "lr_id ?r = i" "lr_status ?r = ACTIVE" "set (lr_protocols ?r) = set (rq_protocols req)" "lr_poll_token_hash ?r = rt_sha256 rt t"
    "lr_signature ?r = signature rt s i (lr_expires_at ?r) DNS"
    by (simp_all add: new_lease_row_def Let_def js_set_def)
  have "db' = (prune s now db)\<lparr>db_leases := db_leases (prune s now db) @ [?r]\<rparr>" "find_lease (prune s now db) i = None"
    "li_expiresAt li = lr_expires_at ?r" "li_bindingFingerprint li = lr_binding_fingerprint ?r"
    "li_dnsName li = i @ ''.'' @ lr_signature ?r @ ''.'' @ st_baseDomain s"
    using assms unfolding createLease_def Let_def by (auto split: if_splits)
  then show ?thesis using that r by simp
qed

lemma new_lease_events:
  assumes "db_ok rt s db" "find_lease db i = None" shows "lease_events db i = []"
proof -
  have "er_lease_id e \<noteq> i" if "e \<in> set (db_events db)" for e
    using db_okD(7) [OF assms(1) that] assms(2) unfolding find_lease_None event_ok_def by (metis imageI)
  then show ?thesis by (auto simp: lease_events_def filter_empty_conv)
qed

lemma hex_lower_table: "list_all (\<lambda>c. char_lower c = c \<and> is_alnum c \<and> c \<noteq> CHR ''.'') ''0123456789abcdef''"
  by code_simp

lemma hex_label:
  assumes "is_hex_digest 32 h" shows "to_lower h = h" "dns_label_ok h" "CHR ''.'' \<notin> set h"
proof -
  have c: "char_lower x = x \<and> is_alnum x \<and> x \<noteq> CHR ''.''" if "x \<in> set h" for x
    using that assms hex_lower_table unfolding is_hex_digest_def list_all_iff is_hex_lower_def by blast
  have l: "length h = 32" using assms by (simp add: is_hex_digest_def)
  show "to_lower h = h" using c by (simp add: to_lower_def map_idI)
  show "dns_label_ok h" using c l by (auto simp: dns_label_ok_def dns_label_text_def list_all_iff)
  show "CHR ''.'' \<notin> set h" using c by auto
qed

lemma lease_name:
  assumes "oast_fields_ok c" "is_hex_digest 32 i" "is_hex_digest 32 sig" "n = i @ ''.'' @ sig @ ''.'' @ to_lower (oc_baseDomain c)"
  shows "dns_name_ok n" "to_lower n = n" "oastDnsIdentity n (oc_baseDomain c) = Some (i, sig)" "ends_with n (''.'' @ dns_zone c)"
proof -
  have l: "length i = 32" "length sig = 32" using assms(2,3) by (simp_all add: is_hex_digest_def)
  have z: "dns_name_ok (to_lower (oc_baseDomain c))" "length (oc_baseDomain c) \<le> 187"
    using zone_ok [OF assms(1)] by (simp_all add: dns_zone_def)
  have s: "dns_name_ok (sig @ ''.'' @ to_lower (oc_baseDomain c))"
    by (rule prefixed_name_ok) (use hex_label [OF assms(3)] z l in simp_all)
  show "dns_name_ok n" unfolding assms(4)
    by (rule prefixed_name_ok [OF _ _ s]) (use hex_label [OF assms(2)] z l in simp_all)
  have app: "to_lower (a @ b) = to_lower a @ to_lower b" for a b by (simp add: to_lower_def)
  have dot: "to_lower ''.'' = ''.''" by code_simp
  show "to_lower n = n" unfolding assms(4) app dot to_lower_idem hex_label(1) [OF assms(2)] hex_label(1) [OF assms(3)] by (rule refl)
  show "oastDnsIdentity n (oc_baseDomain c) = Some (i, sig)" unfolding assms(4) by (rule dns_identity_compose [OF assms(2,3)])
  show "ends_with n (''.'' @ dns_zone c)" unfolding assms(4) dns_zone_def ends_with_iff by (metis append.assoc)
qed

lemma record_first:
  assumes "find_lease db (lr_id row) = Some row" "live_row now row" "lease_events db (lr_id row) = []" "0 < st_maxEventsPerLease s"
    "i \<notin> er_id ` set (db_events db)"
  obtains e where "recordTransaction rt s now i row p src mat db = (db\<lparr>db_events := db_events db @ [e]\<rparr>, True, False)"
    "er_lease_id e = lr_id row" "er_protocol e = p" "er_observed_at e = now" "\<not> er_replay_rejected e"
proof -
  have "er_lease_id x \<noteq> lr_id row" if "x \<in> set (db_events db)" for x
    using assms(3) that by (auto simp: lease_events_def filter_empty_conv)
  then have "\<not> event_conflict db e" if "er_id e = i" "er_lease_id e = lr_id row" for e
    using that assms(5) by (auto simp: event_conflict_def list_ex_iff image_iff)
  then show ?thesis using that assms unfolding recordTransaction_def Let_def by simp
qed

section \<open>An example service\<close>

definition example_oast_runtime :: oast_runtime where
  "example_oast_runtime = \<lparr>rt_newURL = (\<lambda>_. None), rt_sha256 = (\<lambda>x. x),
     jr_parse = (\<lambda>_. Some (JObject [(''tenantId'', JString ''t1''), (''workerId'', JString ''w1''), (''jobId'', JString ''j1''),
       (''caseId'', JString ''c1''), (''ttlSeconds'', JNumber ''60''), (''protocols'', JArray [JString ''DNS'', JString ''HTTP''])])),
     jr_stringify = (\<lambda>_. []), jr_property = (\<lambda>_ _. None),
     or_hmac = (\<lambda>k x. replicate 64 (if even (length x) then CHR ''a'' else CHR ''b'')), or_resolve = (\<lambda>path base. path)\<rparr>"

definition example_token :: string where
  "example_token = replicate 24 (CHR ''x'')"

definition example_oast_env :: oast_env where
  "example_oast_env = \<lparr>oe_config = example_oast_config, oe_signingKey = ''key'', oe_tenantTokens = [(''t1'', example_token)], oe_configSha256 = []\<rparr>"

definition example_lease_id :: string where
  "example_lease_id = replicate 32 (CHR ''7'')"

definition example_lease_request :: lease_request where
  "example_lease_request = \<lparr>rq_tenantId = ''t1'', rq_workerId = ''w1'', rq_jobId = ''j1'', rq_caseId = ''c1'', rq_ttlSeconds = 60, rq_protocols = [DNS, HTTP]\<rparr>"

definition empty_db :: oast_db where
  "empty_db = \<lparr>db_leases = [], db_events = [], db_metadata = []\<rparr>"

definition service_of :: "oast_db \<Rightarrow> oast_service" where
  "service_of db = \<lparr>sv_db = db, sv_windowStartedAt = 0, sv_requestsInWindow = 0, sv_sockets = 0, sv_closed = False, sv_tcpListening = True,
     sv_https = False, sv_tlsExpiresAt = 0, sv_pending = []\<rparr>"

definition example_leased :: oast_service where
  "example_leased = service_of (fst (createLease example_oast_runtime (service_settings example_oast_env) 1000 example_lease_id ''token'' example_lease_request empty_db))"

definition example_opened :: oast_service where
  "example_opened = (case open_store example_oast_runtime (service_settings example_oast_env) (sv_db example_leased) of
     Inl _ \<Rightarrow> example_leased | Inr db \<Rightarrow> service_of db)"

definition example_question :: buffer where
  "example_question = oastDnsQuestion (example_lease_id @ ''.'' @ replicate 32 (CHR ''b'') @ ''.oast.example'') 1 7"

definition example_lease_http :: oast_http_request where
  "example_lease_http = \<lparr>hq_url = None, hq_queryKeys = [], hq_method = ''POST'', hq_headers = [(''authorization'', ''Bearer '' @ example_token)],
     hq_body = ''{}'', hq_remoteAddress = None\<rparr>"

lemma example_leased_facts:
  "db_leases (sv_db example_leased)
     = [new_lease_row example_oast_runtime (service_settings example_oast_env) 1000 example_lease_id ''token'' example_lease_request]"
  "db_events (sv_db example_leased) = []" "sv_windowStartedAt example_leased = 0" "sv_requestsInWindow example_leased = 0"
  by (simp_all add: example_leased_def service_of_def createLease_def Let_def prune_def empty_db_def find_lease_def service_settings_def
      example_oast_env_def example_oast_config_def)

lemma example_signature: "signature example_oast_runtime (service_settings example_oast_env) example_lease_id 61000 DNS = replicate 32 (CHR ''b'')"
  by code_simp

lemma example_leased_ok:
  "db_ok example_oast_runtime (service_settings example_oast_env) (sv_db example_leased)" "evidence_ok (sv_db example_leased)"
  "oast_ok example_oast_runtime example_oast_env example_leased" "db_ok example_oast_runtime (service_settings example_oast_env) empty_db"
proof -
  show e: "db_ok example_oast_runtime (service_settings example_oast_env) empty_db" by (simp add: db_ok_def empty_db_def)
  show d: "db_ok example_oast_runtime (service_settings example_oast_env) (sv_db example_leased)"
    using createLease_ok [OF e] by (simp add: example_leased_def service_of_def)
  show v: "evidence_ok (sv_db example_leased)" by (simp add: evidence_ok_def example_leased_facts)
  show "oast_ok example_oast_runtime example_oast_env example_leased"
    using d v by (simp add: oast_ok_def) (simp add: example_leased_def service_of_def)
qed

lemma example_name:
  fixes name
  defines "name \<equiv> example_lease_id @ ''.'' @ replicate 32 (CHR ''b'') @ ''.oast.example''"
  shows "dns_name_ok name" "to_lower name = name" "oastDnsIdentity name (oc_baseDomain (oe_config example_oast_env)) = Some (example_lease_id, replicate 32 (CHR ''b''))"
proof -
  have h: "is_hex_digest 32 example_lease_id" "is_hex_digest 32 (replicate 32 (CHR ''b''))" by code_simp+
  have "''oast.example'' = to_lower (oc_baseDomain example_oast_config)" by code_simp
  then have n: "name = example_lease_id @ ''.'' @ replicate 32 (CHR ''b'') @ ''.'' @ to_lower (oc_baseDomain example_oast_config)"
    by (simp add: name_def)
  show "dns_name_ok name" "to_lower name = name" "oastDnsIdentity name (oc_baseDomain (oe_config example_oast_env)) = Some (example_lease_id, replicate 32 (CHR ''b''))"
    using lease_name [OF example_oast_config_ok(2) h n] by (simp_all add: example_oast_env_def)
qed

lemma example_row:
  fixes row
  defines "row \<equiv> new_lease_row example_oast_runtime (service_settings example_oast_env) 1000 example_lease_id ''token'' example_lease_request"
  shows "lr_id row = example_lease_id" "lr_expires_at row = 61000" "lr_status row = ACTIVE" "lr_protocols row = [DNS, HTTP]"
  by (simp_all add: row_def new_lease_row_def Let_def example_lease_request_def js_set_def service_settings_def example_oast_env_def example_oast_config_def)

lemma example_step:
  fixes op evs
  defines "op \<equiv> OpDns 2000 ''ev1'' example_question ''10.0.0.9'' False"
  defines "evs \<equiv> db_events (sv_db (fst (oast_exec example_oast_runtime example_oast_env op example_leased)))"
  shows "evs \<noteq> []" "er_lease_id (hd evs) = example_lease_id" "er_protocol (hd evs) = DNS"
proof -
  let ?rt = example_oast_runtime and ?env = example_oast_env and ?s = "service_settings example_oast_env"
  let ?row = "new_lease_row ?rt ?s 1000 example_lease_id ''token'' example_lease_request"
  let ?name = "example_lease_id @ ''.'' @ replicate 32 (CHR ''b'') @ ''.oast.example''"
  have p: "\<exists>q. parseOastDnsQuery example_question = Some q \<and> dq_name q = ?name"
    using parse_question [OF example_name(1), of 1 7] example_name(2) by (simp add: example_question_def)
  have f: "find_lease (sv_db example_leased) example_lease_id = Some ?row" by (simp add: find_lease_def example_leased_facts example_row)
  have v: "validateIdentity ?rt ?s 2000 (sv_db example_leased) example_lease_id (replicate 32 (CHR ''b'')) DNS = Some ?row"
    using f example_signature by (simp add: validateIdentity_def example_row live_row_def)
  obtain sv1 where a: "allowRequest ?env 2000 example_leased = (sv1, True)"
    by (simp add: allowRequest_def Let_def example_leased_facts example_oast_env_def example_oast_config_def)
  have d: "sv_db sv1 = sv_db example_leased" using allowRequest_frame(1) [of ?env 2000 example_leased] a by simp
  have m: "0 < st_maxEventsPerLease ?s" by (simp add: service_settings_def Let_def example_oast_env_def example_oast_config_def)
  obtain q where q: "parseOastDnsQuery example_question = Some q" "dq_name q = ?name" using p by blast
  obtain e where e: "recordTransaction ?rt ?s 2000 ''ev1'' ?row DNS ''10.0.0.9'' (?name @ nul @ show_base 10 (dq_type q)) (sv_db example_leased)
      = ((sv_db example_leased)\<lparr>db_events := db_events (sv_db example_leased) @ [e]\<rparr>, True, False)" "er_lease_id e = lr_id ?row" "er_protocol e = DNS"
    by (rule record_first [of "sv_db example_leased" ?row 2000 ?s "''ev1''" ?rt DNS "''10.0.0.9''"])
       (use f m in \<open>simp_all add: example_row live_row_def lease_events_def example_leased_facts\<close>)
  have "evs = [e]" using q example_name(3) v a d e(1) by (simp add: evs_def op_def handleDns_def Let_def example_leased_facts)
  then show "evs \<noteq> []" "er_lease_id (hd evs) = example_lease_id" "er_protocol (hd evs) = DNS" using e(2,3) by (simp_all add: example_row)
qed

section \<open>Properties\<close>

text \<open>
  The evidence database keeps its shape. From any well-formed database the service opens, through every interleaving of
  datagrams, requests, late bodies, dropped requests and maintenance, lease and event identifiers stay unique, every event
  belongs to a stored lease, to a protocol of that lease and to its lifetime, a lease holds at most one event per protocol and
  at most the configured number, and the numbers of leases and of connections stay within their limits.
\<close>

theorem oast_database_well_formed:
  assumes "oast_reachable rt env sv0 sv" "db_ok rt (service_settings env) db" "evidence_ok db"
    and "open_store rt (service_settings env) db = Inr (sv_db sv0)" "sv_pending sv0 = []" "sv_sockets sv0 = 0"
  shows "db_ok rt (service_settings env) (sv_db sv) \<and> evidence_ok (sv_db sv)
    \<and> sv_sockets sv \<le> or_else (oc_maxConnections (oe_config env)) 200"
proof -
  have "evidence_ok (sv_db sv0)" using assms(3) open_store_tables [OF assms(4)] by (simp add: evidence_ok_def)
  then have "oast_ok rt env sv0" using open_store_ok [OF assms(2,4)] assms(5,6) by (simp add: oast_ok_def)
  then show ?thesis using oast_okD [OF reachable_ok [OF assms(1)]] by blast
qed

theorem oast_database_well_formed_witness:
  "db_ok example_oast_runtime (service_settings example_oast_env)
     (sv_db (fst (oast_exec example_oast_runtime example_oast_env (OpDns 2000 ''ev1'' example_question ''10.0.0.9'' False) example_opened)))"
proof -
  have opened: "open_store example_oast_runtime (service_settings example_oast_env) (sv_db example_leased) = Inr (sv_db example_opened)"
    by (simp add: example_opened_def service_of_def open_store_def Let_def example_leased_facts new_lease_row_def insert_or_ignore_def)
      (simp add: example_leased_def service_of_def createLease_def Let_def prune_def empty_db_def find_lease_def service_settings_def
        example_oast_env_def example_oast_config_def)
  have r: "oast_reachable example_oast_runtime example_oast_env (example_opened)
      (fst (oast_exec example_oast_runtime example_oast_env (OpDns 2000 ''ev1'' example_question ''10.0.0.9'' False) (example_opened)))"
    by (rule oast_reachable.step [OF oast_reachable.start]) (simp add: op_fresh_def)
  have d: "sv_pending example_opened = []" "sv_sockets example_opened = 0"
    by (simp_all add: example_opened_def example_leased_def service_of_def split: sum.split)
  show ?thesis using oast_database_well_formed [OF r example_leased_ok(1,2) opened d] by blast
qed

text \<open>
  C14: No evidence without a signed identity. Whatever one operation does to a reachable state, a new event is of a lease that is
  active and not expired and of a protocol the lease allows, and it stems from a DNS question for the name, or an HTTP request
  for the path, that carries the lease's identifier with the signature of that lease, expiry and protocol.
\<close>

theorem evidence_needs_signature:
  assumes "oast_reachable rt env sv0 sv" "oast_ok rt env sv0" "op_fresh op sv"
    and "e \<in> set (db_events (sv_db (fst (oast_exec rt env op sv))))" "held_events (sv_db sv) (er_lease_id e, er_protocol e) = 0"
  shows "\<exists>cur. find_lease (sv_db sv) (er_lease_id e) = Some cur \<and> lr_status cur = ACTIVE \<and> er_observed_at e < lr_expires_at cur
    \<and> er_protocol e \<in> set (lr_protocols cur)
    \<and> (let sig = signature rt (service_settings env) (lr_id cur) (lr_expires_at cur) (er_protocol e) in
       case op of
         OpDns now i m src tcp \<Rightarrow> (\<exists>q. parseOastDnsQuery m = Some q \<and> er_protocol e = DNS
           \<and> dq_name q = lr_id cur @ ''.'' @ sig @ ''.'' @ to_lower (oc_baseDomain (oe_config env)))
       | OpBody k now i t \<Rightarrow> (\<exists>q u row. k < length (sv_pending sv) \<and> sv_pending sv ! k = (q, AwaitCallbackBody row (er_protocol e))
           \<and> hq_url q = Some u \<and> callback_path (u_pathname u) = Some (lr_id cur, sig))
       | _ \<Rightarrow> False)"
proof -
  have ok: "oast_ok rt env sv" by (rule reachable_ok [OF assms(1,2)])
  have old: "e \<notin> set (db_events (sv_db sv))" using held_pos [of e "sv_db sv"] assms(5) by auto
  let ?s = "service_settings env"
  show ?thesis
  proof (cases op)
    case (OpDns now i m src tcp)
    obtain sv' r where h: "handleDns rt env now i m src tcp sv = (sv', r)" by (metis prod.exhaust)
    have e: "e \<in> set (db_events (sv_db sv'))" using assms(4) OpDns h by simp
    show ?thesis
    proof (cases rule: handleDns_cases [OF h])
      case (2 q leaseId sig row)
      obtain db' acc rep where r: "recordTransaction rt ?s now i row DNS src (dq_name q @ nul @ show_base 10 (dq_type q)) (sv_db sv) = (db', acc, rep)"
        by (metis prod.exhaust)
      have e': "e \<in> set (db_events db')" using e 2(4) r by simp
      note v = validate_Some [OF 2(3)]
      obtain cur where cur: "find_lease (sv_db sv) (lr_id row) = Some cur" "live_row now cur" "er_lease_id e = lr_id row" "er_protocol e = DNS" "er_observed_at e = now"
        by (rule record_adds [OF r e' assms(5)])
      have "cur = row" using cur(1) v(1,2) by simp
      then show ?thesis using cur v dns_identity_Some(1) [OF 2(2)] 2(1) OpDns by (auto simp: live_row_def Let_def)
    qed (use e old in simp)
  next
    case (OpHttp now p q)
    then show ?thesis using assms(4) old http_begin_events [of rt env now p q sv]
      by (cases "handleHttp_begin rt env now p q sv") (auto split: http_step.splits)
  next
    case (OpBody k now i t)
    then have k: "k < length (sv_pending sv)" using assms(4) old by (auto split: if_splits)
    obtain q w where w: "sv_pending sv ! k = (q, w)" by (metis prod.exhaust)
    show ?thesis
    proof (cases w)
      case AwaitLeaseBody
      then show ?thesis using assms(4) old lease_body_events [of rt env now i t q "drop_pending k sv"] OpBody k w
        by (cases "handle_lease_body rt env now i t q (drop_pending k sv)") auto
    next
      case (AwaitCallbackBody row p)
      obtain sv' r where h: "handle_callback_body rt env now i row p q (drop_pending k sv) = (sv', r)" by (metis prod.exhaust)
      have e: "e \<in> set (db_events (sv_db sv'))" using assms(4) OpBody k w AwaitCallbackBody h by simp
      then obtain src where s: "sv_db sv' = fst (recordTransaction rt ?s now i row p src (callback_material rt q) (sv_db sv))"
        using callback_body_cases(3) [OF h] old by auto
      obtain db' acc rep where r: "recordTransaction rt ?s now i row p src (callback_material rt q) (sv_db sv) = (db', acc, rep)"
        by (metis prod.exhaust)
      have e': "e \<in> set (db_events db')" using e s r by simp
      obtain cur where cur: "find_lease (sv_db sv) (lr_id row) = Some cur" "live_row now cur" "er_lease_id e = lr_id row" "er_protocol e = p" "er_observed_at e = now"
        by (rule record_adds [OF r e' assms(5)])
      have "(q, AwaitCallbackBody row p) \<in> set (sv_pending sv)" using k w AwaitCallbackBody by (metis nth_mem)
      then have po: "pending_ok rt ?s (sv_db sv) (q, AwaitCallbackBody row p)" by (rule oast_okD(3) [OF ok])
      have "lr_id cur = lr_id row" using find_lease_Some [OF cur(1)] by simp
      then show ?thesis using cur po OpBody k w AwaitCallbackBody
        by (auto simp: pending_ok_def live_row_def Let_def split: option.splits)
    qed
  next
    case (OpMaintenance now)
    then show ?thesis using assms(4) old prune_events [of ?s now "sv_db sv"] by auto
  qed (use assms(4) old in \<open>auto simp: trackSocket_def split: if_splits\<close>)
qed

theorem evidence_needs_signature_witness:
  "\<exists>cur q. find_lease (sv_db example_leased) example_lease_id = Some cur \<and> parseOastDnsQuery example_question = Some q
    \<and> dq_name q = lr_id cur @ ''.'' @ signature example_oast_runtime (service_settings example_oast_env) (lr_id cur) (lr_expires_at cur) DNS
        @ ''.oast.example''"
proof -
  let ?op = "OpDns 2000 ''ev1'' example_question ''10.0.0.9'' False"
  let ?evs = "db_events (sv_db (fst (oast_exec example_oast_runtime example_oast_env ?op example_leased)))"
  let ?e = "hd ?evs"
  note len = example_step
  have "held_events (sv_db example_leased) (example_lease_id, DNS) = 0" by (simp add: held_events_def example_leased_facts)
  then have held: "held_events (sv_db example_leased) (er_lease_id ?e, er_protocol ?e) = 0" using len(2,3) by simp
  have zone: "to_lower (oc_baseDomain (oe_config example_oast_env)) = ''oast.example''" by code_simp
  have fresh: "op_fresh ?op example_leased" by (simp add: op_fresh_def)
  have mem: "?e \<in> set ?evs" using len(1) by simp
  show ?thesis
    using evidence_needs_signature [OF oast_reachable.start example_leased_ok(3) fresh mem held] len(2,3) zone by (auto simp: Let_def)
qed

fun record_run :: "oast_runtime \<Rightarrow> oast_settings \<Rightarrow> callback_call list \<Rightarrow> oast_db \<Rightarrow> oast_db \<times> callback_call list" where
  "record_run rt s [] db = (db, [])"
| "record_run rt s (c # cs) db =
     (case record_call rt s c db of (db', acc, _) \<Rightarrow> case record_run rt s cs db' of (db'', as) \<Rightarrow> (db'', if acc then c # as else as))"

lemma record_run_eq: "record_run rt s cs db = oast_evidence.run rt s cs db"
  by (induction cs arbitrary: db) (simp_all split: prod.splits)

text \<open>
  C15: Replays are counted once. In any sequence of callbacks recorded against a well-formed database, of all those for one lease and
  protocol at most one is accepted.
\<close>

theorem replays_accepted_once:
  assumes "db_ok rt s db"
  shows "length (filter (\<lambda>c. call_kind c = k) (snd (record_run rt s cs db))) \<le> 1"
  unfolding record_run_eq by (rule oast_evidence.accepted_at_most_once [OF assms])

theorem replays_accepted_once_witness:
  "length (filter (\<lambda>c. call_kind c = (example_lease_id, DNS)) (snd (record_run example_oast_runtime (service_settings example_oast_env)
     [(2000, ''e1'', hd (db_leases (sv_db example_leased)), DNS, ''10.0.0.9'', ''a''),
      (2001, ''e2'', hd (db_leases (sv_db example_leased)), DNS, ''10.0.0.9'', ''b'')] (sv_db example_leased)))) \<le> 1"
  by (rule replays_accepted_once [OF example_leased_ok(1)])

text \<open>
  C20: Leases need a tenant's token. A lease row that appears in a step stems from a request body that waited for this step, parsed
  as a lease request of a known tenant and came with that tenant's bearer token; it is active, it allows the requested
  protocols, and it expires within the configured maximum.
\<close>

theorem leases_need_tenant_token:
  assumes "r \<in> set (db_leases (sv_db (fst (oast_exec rt env op sv))))" "find_lease (sv_db sv) (lr_id r) = None"
  shows "\<exists>k now i t q v req token. op = OpBody k now i t \<and> k < length (sv_pending sv) \<and> sv_pending sv ! k = (q, AwaitLeaseBody)
    \<and> jr_parse rt (hq_body q) = Some v \<and> leaseRequestSchema v = Some req
    \<and> map_of (oe_tenantTokens env) (rq_tenantId req) = Some token \<and> bearer q = Some token
    \<and> lr_id r = i \<and> lr_status r = ACTIVE \<and> set (lr_protocols r) = set (rq_protocols req)
    \<and> lr_expires_at r \<le> now + oc_maxLeaseSeconds (oe_config env) * 1000"
proof -
  let ?s = "service_settings env"
  have no_new: "r \<notin> set (db_leases (sv_db sv))" using assms(2) by (auto simp: find_lease_None)
  have rev: "r \<notin> set (db_leases (fst (revoke rt (sv_db sv) i t)))" for i t
    using assms(2) unfolding find_lease_None by (auto simp: revoke_def split: option.splits if_splits)
  show ?thesis
  proof (cases op)
    case (OpDns now i m src tcp)
    obtain sv' out where h: "handleDns rt env now i m src tcp sv = (sv', out)" by (metis prod.exhaust)
    show ?thesis by (cases rule: handleDns_cases [OF h]) (use assms(1) OpDns h no_new record_leases in simp_all)
  next
    case (OpHttp now p q)
    obtain sv' st where h: "handleHttp_begin rt env now p q sv = (sv', st)" by (metis prod.exhaust)
    show ?thesis using http_begin_cases(3) [OF h] assms(1) OpHttp h no_new rev by (cases st) auto
  next
    case (OpBody k now i t)
    then have k: "k < length (sv_pending sv)" using assms(1) no_new by (auto split: if_splits)
    obtain q w where w: "sv_pending sv ! k = (q, w)" by (metis prod.exhaust)
    show ?thesis
    proof (cases w)
      case AwaitLeaseBody
      obtain sv' out where h: "handle_lease_body rt env now i t q (drop_pending k sv) = (sv', out)" by (metis prod.exhaust)
      have r: "r \<in> set (db_leases (sv_db sv'))" using assms(1) OpBody k w AwaitLeaseBody h by simp
      then obtain v req token where c: "jr_parse rt (hq_body q) = Some v" "leaseRequestSchema v = Some req"
        "map_of (oe_tenantTokens env) (rq_tenantId req) = Some token" "bearer q = Some token"
        "sv_db sv' = fst (createLease rt ?s now i t req (sv_db sv))"
        using lease_body_cases(3) [OF h] no_new by auto
      have "lr_id r = i \<and> lr_status r = ACTIVE \<and> set (lr_protocols r) = set (rq_protocols req)
          \<and> lr_expires_at r \<le> now + st_maxLeaseSeconds ?s * 1000"
        using r no_new unfolding c(5) by (auto simp: createLease_def new_lease_row_def Let_def js_set_def prune_def split: if_splits)
      then show ?thesis using c OpBody k w AwaitLeaseBody by (auto simp: service_settings_def Let_def)
    next
      case (AwaitCallbackBody row p)
      obtain sv' out where h: "handle_callback_body rt env now i row p q (drop_pending k sv) = (sv', out)" by (metis prod.exhaust)
      show ?thesis using callback_body_cases(3) [OF h] assms(1) OpBody k w AwaitCallbackBody h no_new by (auto simp: record_leases)
    qed
  next
    case (OpMaintenance now)
    then show ?thesis using assms(1) no_new by (auto simp: prune_def Let_def)
  qed (use assms(1) no_new in \<open>auto simp: trackSocket_def split: if_splits\<close>)
qed

theorem leases_need_tenant_token_witness:
  "bearer example_lease_http = Some example_token"
proof -
  let ?sv = "service_of empty_db\<lparr>sv_pending := [(example_lease_http, AwaitLeaseBody)]\<rparr>" and ?op = "OpBody 0 2000 example_lease_id ''tok''"
  let ?ls = "db_leases (sv_db (fst (oast_exec example_oast_runtime example_oast_env ?op ?sv)))"
  have l: "?ls \<noteq> []" by code_simp
  have f: "find_lease (sv_db ?sv) (lr_id (hd ?ls)) = None" by (simp add: find_lease_def empty_db_def service_of_def)
  have m: "hd ?ls \<in> set ?ls" using l by simp
  from leases_need_tenant_token [OF m f] obtain v req token where q: "jr_parse example_oast_runtime (hq_body example_lease_http) = Some v"
    "leaseRequestSchema v = Some req" "map_of (oe_tenantTokens example_oast_env) (rq_tenantId req) = Some token" "bearer example_lease_http = Some token"
    by (auto simp: service_of_def)
  have "token = example_token" using q(3) by (simp add: example_oast_env_def split: if_splits)
  then show ?thesis using q(4) by simp
qed

section \<open>DNS over TCP\<close>

text \<open>The data events of a connection; a destroyed connection delivers no more of them.\<close>

fun tcp_feed :: "buffer list \<Rightarrow> tcp_conn \<Rightarrow> tcp_action list" where
  "tcp_feed [] t = []"
| "tcp_feed (c # cs) t =
     (case tcp_data c t of
        (t', TcpDestroy) \<Rightarrow> [TcpDestroy]
      | (t', TcpWait) \<Rightarrow> tcp_feed cs t'
      | (t', TcpMessage m) \<Rightarrow> TcpMessage m # tcp_feed cs t')"

lemma tcp_handled: "tc_handled t \<Longrightarrow> tcp_feed cs t = []"
  by (induction cs) (simp_all add: tcp_data_def)

text \<open>The connection after the bytes \<open>d\<close>, while the message of length \<open>n\<close> is incomplete.\<close>

definition tcp_at :: "nat \<Rightarrow> buffer \<Rightarrow> tcp_conn \<Rightarrow> bool" where
  "tcp_at n d t \<longleftrightarrow> length d < n + 2 \<and>
     t = (if length d < 2 then \<lparr>tc_pending = d, tc_expected = None, tc_handled = False\<rparr>
          else \<lparr>tc_pending = drop 2 d, tc_expected = Some n, tc_handled = False\<rparr>)"

lemma tcp_data_at:
  assumes t: "tcp_at n d t" and n: "17 \<le> n" "n \<le> 4096" and len: "length (d @ c) \<le> 4098"
    and prefix: "2 \<le> length (d @ c) \<Longrightarrow> readUInt16BE (d @ c) 0 = int n"
  shows "if length (d @ c) < n + 2 then snd (tcp_data c t) = TcpWait \<and> tcp_at n (d @ c) (fst (tcp_data c t))
    else snd (tcp_data c t) = TcpMessage (take n (drop 2 (d @ c))) \<and> tc_handled (fst (tcp_data c t))"
proof (cases "length d < 2")
  case True
  then have t': "t = \<lparr>tc_pending = d, tc_expected = None, tc_handled = False\<rparr>" using t by (simp add: tcp_at_def)
  show ?thesis
  proof (cases "length (d @ c) < 2")
    case True
    then show ?thesis using t' n by (simp add: tcp_data_def tcp_at_def)
  next
    case False
    then have "readUInt16BE (d @ c) 0 = int n" using prefix by simp
    then show ?thesis using t' n len False by (auto simp: tcp_data_def tcp_at_def Let_def)
  qed
next
  case False
  then have t': "t = \<lparr>tc_pending = drop 2 d, tc_expected = Some n, tc_handled = False\<rparr>" using t by (simp add: tcp_at_def)
  show ?thesis using t' n len False by (auto simp: tcp_data_def tcp_at_def Let_def)
qed

lemma tcp_feed_at:
  assumes "tcp_at (length m) d t" "d @ concat cs = writeUIntBE 2 (int (length m)) @ m @ extra"
    and "17 \<le> length m" "length (m @ extra) \<le> 4096"
  shows "tcp_feed cs t = [TcpMessage m]"
  using assms
proof (induction cs arbitrary: d t)
  case Nil
  then show ?case by (auto simp: tcp_at_def dest: arg_cong [where f = length])
next
  case (Cons c cs)
  let ?w = "writeUIntBE 2 (int (length m)) @ m @ extra"
  have w: "(d @ c) @ concat cs = ?w" using Cons.prems(2) by simp
  have len: "length (d @ c) \<le> 4098" using arg_cong [OF w, of length] Cons.prems(4) by simp
  have pre: "readUInt16BE (d @ c) 0 = int (length m)" if "2 \<le> length (d @ c)"
  proof -
    have "readUInt16BE ((d @ c) @ concat cs) 0 = readUInt16BE (d @ c) 0" by (rule uint_be.get_local) (use that in simp)
    then show ?thesis using uint_be.get_head [of "int (length m)" 2 "m @ extra"] w Cons.prems(4) by simp
  qed
  note step = tcp_data_at [OF Cons.prems(1) Cons.prems(3) _ len pre]
  obtain t' a where ta: "tcp_data c t = (t', a)" by (metis prod.exhaust)
  show ?case
  proof (cases "length (d @ c) < length m + 2")
    case True
    then have "a = TcpWait" "tcp_at (length m) (d @ c) t'" using step ta Cons.prems(4) by simp_all
    then show ?thesis using Cons.IH [of "d @ c" t'] w Cons.prems(3,4) ta by simp
  next
    case False
    have "take (length m) (drop 2 (d @ c)) = take (length m) (drop 2 ((d @ c) @ concat cs))" using False by simp
    then have "take (length m) (drop 2 (d @ c)) = m" unfolding w by simp
    then have "a = TcpMessage m" "tc_handled t'" using step ta False Cons.prems(4) by simp_all
    then show ?thesis using ta tcp_handled by simp
  qed
qed

text \<open>
  The cuts of a TCP stream do not matter. However the bytes of a length-prefixed DNS message of 17 to 4096 bytes arrive, one by one
  or together with what follows them, the connection hands exactly that message to the DNS handler, once, and is not destroyed.
\<close>

theorem tcp_chunking_irrelevant:
  assumes "concat cs = writeUIntBE 2 (int (length m)) @ m @ extra" "17 \<le> length m" "length (m @ extra) \<le> 4096"
  shows "tcp_feed cs tcp_new = [TcpMessage m]"
  by (rule tcp_feed_at [of m "[]" _ _ extra]) (use assms in \<open>simp_all add: tcp_at_def tcp_new_def\<close>)

theorem tcp_chunking_irrelevant_witness:
  "tcp_feed [[0], [17, 9], [], replicate 16 7 @ [1, 2]] tcp_new = [TcpMessage (9 # replicate 16 7)]"
proof -
  have "concat [[0], [17, 9], [], replicate 16 7 @ [1, 2]] = writeUIntBE 2 (int (length (9 # replicate 16 (7 :: 8 word)))) @ (9 # replicate 16 7) @ [1, 2]"
    by (simp add: numeral_eq_Suc)
  then show ?thesis by (rule tcp_chunking_irrelevant) simp_all
qed

section \<open>From the lease to the evidence\<close>

text \<open>
  C29: A lease can be called back and polled. Take a lease the store has just created for the DNS protocol, before it expires and while the
  request limit is not reached. A DNS question for the name of the lease, of any type, is answered authoritatively and
  without error, and polling with the lease's token then shows exactly one event: of the DNS protocol, at the time of the
  question, bound to the tenant, worker, job and case of the lease, and not a replay. HMAC digests are 64 hexadecimal digits.
\<close>

theorem lease_collects_evidence:
  assumes config: "oast_config_ok rt0 (oe_config env)" and hmac: "\<forall>k x. is_hex_digest 64 (or_hmac rt k x)"
    and db: "db_ok rt (service_settings env) db"
    and lease: "createLease rt (service_settings env) now i t req db = (sv_db sv, Inr li)" "is_hex_digest 32 i" "DNS \<in> set (rq_protocols req)"
    and later: "now' < li_expiresAt li" "snd (allowRequest env now' sv)" "eventId \<notin> er_id ` set (db_events db)"
    and question: "m = oastDnsQuestion (li_dnsName li) type id'" "0 \<le> type" "type < 65536"
    and answer: "handleDns rt env now' eventId m src False sv = (sv', r)"
  shows "\<exists>answer a resp ev. r = Some answer \<and> inspectOastDnsAnswer answer m = Inr a \<and> da_authoritative a \<and> da_rcode a = 0
    \<and> poll rt (service_settings env) now'' (sv_db sv') i t = Some resp \<and> pr_events resp = [ev] \<and> ev_protocol ev = DNS
    \<and> ev_observedAt ev = now' \<and> ev_bindingFingerprint ev = li_bindingFingerprint li \<and> \<not> ev_replayRejected ev"
proof -
  let ?s = "service_settings env" and ?c = "oe_config env"
  have c: "oast_fields_ok ?c" using config by (simp add: oast_config_ok_def)
  have s: "st_baseDomain ?s = to_lower (oc_baseDomain ?c)" "0 < st_maxEventsPerLease ?s"
    using c by (simp_all add: service_settings_def Let_def oast_fields_ok_def)
  obtain row where row: "sv_db sv = (prune ?s now db)\<lparr>db_leases := db_leases (prune ?s now db) @ [row]\<rparr>" "find_lease (prune ?s now db) i = None"
    "lr_id row = i" "lr_status row = ACTIVE" "set (lr_protocols row) = set (rq_protocols req)" "lr_poll_token_hash row = rt_sha256 rt t"
    "li_expiresAt li = lr_expires_at row" "li_bindingFingerprint li = lr_binding_fingerprint row"
    "li_dnsName li = i @ ''.'' @ signature rt ?s i (lr_expires_at row) DNS @ ''.'' @ st_baseDomain ?s"
    by (rule create_Inr [OF lease(1)])
  have sig: "is_hex_digest 32 (signature rt ?s i (lr_expires_at row) DNS)"
    using hmac unfolding signature_def is_hex_digest_def list_all_iff by (auto dest: in_set_takeD)
  note name = lease_name [OF c lease(2) sig row(9) [unfolded s(1)]]
  let ?q = "\<lparr>dq_name = li_dnsName li, dq_type = type, dq_questionEnd = length m, dq_recursionDesired = False\<rparr>"
  have parse: "parseOastDnsQuery m = Some ?q" using parse_question [OF name(1) question(2,3), of id'] name(2) question(1) by simp
  have find: "find_lease (sv_db sv) i = Some row" using row(1,2,3) by (simp add: find_lease_def find_append)
  have live: "live_row now' row" using row(4,7) later(1) by (simp add: live_row_def)
  have validate: "validateIdentity rt ?s now' (sv_db sv) i (signature rt ?s i (lr_expires_at row) DNS) DNS = Some row"
    using find live row(5) lease(3) by (simp add: validateIdentity_def)
  have none: "lease_events (sv_db sv) i = []" using new_lease_events [OF prune_ok [OF db] row(2)] row(1) by (simp add: lease_events_def)
  have fresh: "eventId \<notin> er_id ` set (db_events (sv_db sv))" using later(3) prune_events [of ?s now db] row(1) by auto
  obtain e where e: "recordTransaction rt ?s now' eventId row DNS src (li_dnsName li @ nul @ show_base 10 type) (sv_db sv)
      = ((sv_db sv)\<lparr>db_events := db_events (sv_db sv) @ [e]\<rparr>, True, False)"
    "er_lease_id e = lr_id row" "er_protocol e = DNS" "er_observed_at e = now'" "\<not> er_replay_rejected e"
    by (rule record_first [of "sv_db sv" row now' ?s eventId rt DNS src]) (use find row(3) live none s(2) fresh in simp_all)
  obtain sv1 where a: "allowRequest env now' sv = (sv1, True)" using later(2) by (cases "allowRequest env now' sv") simp
  have sv1: "sv_db sv1 = sv_db sv" using allowRequest_frame(1) [of env now' sv] a by simp
  have h: "sv_db sv' = (sv_db sv)\<lparr>db_events := db_events (sv_db sv) @ [e]\<rparr>" "r = Some (answerOastDns m ?q True ?c False)"
    using answer a parse name(3) validate e(1) sv1 by (auto simp: handleDns_def Let_def)
  have inside: "dns_inside ?c ?q" "dns_exists ?c ?q True" using name(4) by (simp_all add: dns_inside_def dns_exists_def)
  have m: "12 \<le> length m" "length m \<le> 512" using question_length [OF name(1)] name(1) question(1) by (simp_all add: dns_name_ok_def)
  obtain a where i: "inspectOastDnsAnswer (answerOastDns m ?q True ?c False) m = Inr a" "da_authoritative a" "da_rcode a = 0"
    using inspect_answer [OF c, of ?q m _ True, OF _ _ m refl] name(1) inside by auto
  have "find_lease (sv_db sv') i = Some row" using find h(1) by (simp add: find_lease_def)
  moreover have "lease_events (sv_db sv') i = [e]" using none e(2) row(3) h(1) by (simp add: lease_events_append)
  ultimately have "poll rt ?s now'' (sv_db sv') i t = Some \<lparr>pr_leaseId = i, pr_status = row_status now'' row, pr_expiresAt = lr_expires_at row,
      pr_events = [evidence_of row e]\<rparr>"
    using s(2) row(6) by (simp add: poll_def)
  then show ?thesis using h(2) i e row(8) by (auto simp: evidence_of_def)
qed

theorem lease_collects_evidence_witness:
  "\<exists>resp. poll example_oast_runtime (service_settings example_oast_env) 3000
     (sv_db (fst (handleDns example_oast_runtime example_oast_env 2000 ''ev1'' example_question ''10.0.0.9'' False example_leased)))
     example_lease_id ''token'' = Some resp \<and> length (pr_events resp) = 1"
proof -
  let ?rt = example_oast_runtime and ?env = example_oast_env and ?s = "service_settings example_oast_env"
  obtain db li where c: "createLease ?rt ?s 1000 example_lease_id ''token'' example_lease_request empty_db = (db, Inr li)"
    and li: "li_expiresAt li = 61000" "example_question = oastDnsQuestion (li_dnsName li) 1 7"
  proof -
    have "\<exists>li. createLease ?rt ?s 1000 example_lease_id ''token'' example_lease_request empty_db = (sv_db example_leased, Inr li)"
      by (simp add: createLease_def Let_def prune_def empty_db_def find_lease_def service_settings_def example_oast_env_def
          example_oast_config_def example_leased_def service_of_def)
    then obtain li where li: "createLease ?rt ?s 1000 example_lease_id ''token'' example_lease_request empty_db = (sv_db example_leased, Inr li)" by blast
    obtain row where row: "sv_db example_leased = (prune ?s 1000 empty_db)\<lparr>db_leases := db_leases (prune ?s 1000 empty_db) @ [row]\<rparr>"
      "li_expiresAt li = lr_expires_at row"
      "li_dnsName li = example_lease_id @ ''.'' @ signature ?rt ?s example_lease_id (lr_expires_at row) DNS @ ''.'' @ st_baseDomain ?s"
      by (rule create_Inr [OF li])
    have "lr_expires_at row = 61000" using arg_cong [OF row(1), of db_leases] example_leased_facts(1) example_row(2)
      by (simp add: prune_def Let_def empty_db_def)
    moreover have "st_baseDomain ?s = ''oast.example''" by code_simp
    ultimately show ?thesis using that [OF li] row(2,3) example_signature by (simp add: example_question_def)
  qed
  obtain sv' r where h: "handleDns ?rt ?env 2000 ''ev1'' example_question ''10.0.0.9'' False example_leased = (sv', r)" by (metis prod.exhaust)
  have hmac: "\<forall>k x. is_hex_digest 64 (or_hmac ?rt k x)"
    by (simp add: example_oast_runtime_def is_hex_digest_def list_all_iff is_hex_lower_def)
  have c': "createLease ?rt ?s 1000 example_lease_id ''token'' example_lease_request empty_db = (sv_db example_leased, Inr li)"
    using c by (simp add: example_leased_def service_of_def)
  have facts: "is_hex_digest 32 example_lease_id" "DNS \<in> set (rq_protocols example_lease_request)"
    "snd (allowRequest ?env 2000 example_leased)" by code_simp+
  show ?thesis
    using lease_collects_evidence [where env = ?env and rt = ?rt and now'' = 3000, OF _ hmac example_leased_ok(4) c' facts(1,2) _ facts(3) _ li(2) _ _ h]
      example_oast_config_ok(1) li(1) h by (auto simp: example_oast_env_def empty_db_def)
qed

end
