(* ===== verification/RC_Frames.thy ===== *)
theory RC_Frames
  imports RC_Bytes
begin

unbundle bit_operations_syntax

text \<open>
  The stream framings of the protocol transports: gRPC messages (\<^verbatim>\<open>modules/protocolSecurity/ProtocolGrpcFrames.ts\<close> and
  the frames \<^verbatim>\<open>runGrpcStream\<close> writes) and WebSocket frames with the receive loop of \<^verbatim>\<open>runWebSocket\<close>
  (\<^verbatim>\<open>modules/protocolSecurity/ProtocolTransports.ts\<close>). Sockets and clocks are inputs of the loop: the chunks its reads return,
  how the read behind them ends, and how many turns the loop begins before the deadline.
\<close>

section \<open>gRPC messages\<close>

definition grpc_frame :: "buffer \<Rightarrow> buffer" where
  "grpc_frame payload = 0 # writeUIntBE 4 (int (length payload)) @ payload"

datatype grpc_error = GRPC_MESSAGE_LIMIT_EXCEEDED | GRPC_FRAME_TRUNCATED | GRPC_MESSAGE_COMPRESSION_UNSUPPORTED | GRPC_FRAME_FLAG_INVALID

function grpc_loop :: "buffer \<Rightarrow> nat \<Rightarrow> nat \<Rightarrow> buffer list \<Rightarrow> grpc_error + buffer list" where
  "grpc_loop body maxMessages offset frames =
     (if offset < length body then
        if length frames \<ge> maxMessages then Inl GRPC_MESSAGE_LIMIT_EXCEEDED
        else if offset + 5 > length body then Inl GRPC_FRAME_TRUNCATED
        else if body ! offset \<noteq> 0
        then Inl (if body ! offset = 1 then GRPC_MESSAGE_COMPRESSION_UNSUPPORTED else GRPC_FRAME_FLAG_INVALID)
        else let len = readUInt32BE body (offset + 1) in
          if int (offset + 5) + len > int (length body) then Inl GRPC_FRAME_TRUNCATED
          else grpc_loop body maxMessages (offset + 5 + nat len)
                 (frames @ [subarray body (offset + 5) (offset + 5 + nat len)])
      else Inr frames)"
  by pat_completeness auto

termination grpc_loop
  by (relation "measure (\<lambda>(body, n, offset, frames). length body - offset)") (auto simp: Let_def)

declare grpc_loop.simps [simp del]

definition decodeGrpcFrames :: "buffer \<Rightarrow> nat \<Rightarrow> grpc_error + buffer list" where
  "decodeGrpcFrames body maxMessages = grpc_loop body maxMessages 0 []"

section \<open>WebSocket frames\<close>

datatype ws_error = WEBSOCKET_RESERVED_BITS_SET | WEBSOCKET_SERVER_MASKED_FRAME | WEBSOCKET_FRAME_TOO_LARGE
  | WEBSOCKET_CONTROL_FRAME_INVALID | WEBSOCKET_RESPONSE_LIMIT_EXCEEDED | ReadError string

record ws_frame =
  wf_fin :: bool
  wf_opcode :: int
  wf_payload :: buffer
  wf_bytes :: nat

text \<open>The length field of a frame, with the mask bit \<open>mbit\<close>.\<close>

definition ws_length :: "8 word \<Rightarrow> nat \<Rightarrow> buffer" where
  "ws_length mbit n =
     (if n < 126 then [mbit OR word_of_int (int n)]
      else if int n \<le> 0xffff then (mbit OR 126) # writeUIntBE 2 (int n) else (mbit OR 127) # writeUIntBE 8 (int n))"

definition encodeFrame :: "buffer \<Rightarrow> int \<Rightarrow> buffer \<Rightarrow> buffer" where
  "encodeFrame payload opcode key =
     (0x80 OR word_of_int opcode) # ws_length 0x80 (length payload) @ key
     @ map (\<lambda>i. payload ! i XOR key ! (i mod 4)) [0..<length payload]"

definition ws_extent :: "buffer \<Rightarrow> ws_error + (int \<times> nat) option" where
  "ws_extent b =
     (let len = uint (b ! 1 AND 0x7f) in
      if len = 126 then (if length b < 4 then Inr None else Inr (Some (readUInt16BE b 2, 4)))
      else if len = 127 then
        (if length b < 10 then Inr None
         else let n = readBigUInt64BE b 2 in
           if n > 9007199254740991 then Inl WEBSOCKET_FRAME_TOO_LARGE else Inr (Some (n, 10)))
      else Inr (Some (len, 2)))"

definition parseFrame :: "buffer \<Rightarrow> ws_error + ws_frame option" where
  "parseFrame b =
     (if length b < 2 then Inr None
      else if b ! 0 AND 0x70 \<noteq> 0 then Inl WEBSOCKET_RESERVED_BITS_SET
      else let fin = (b ! 0 AND 0x80 \<noteq> 0); opcode = uint (b ! 0 AND 0x0f) in
        if b ! 1 AND 0x80 \<noteq> 0 then Inl WEBSOCKET_SERVER_MASKED_FRAME
        else ebind (ws_extent b) (\<lambda>r. case r of
            None \<Rightarrow> Inr None
          | Some (len, offset) \<Rightarrow>
              if opcode \<ge> 8 \<and> (\<not> fin \<or> len > 125) then Inl WEBSOCKET_CONTROL_FRAME_INVALID
              else if int (length b) < int offset + len then Inr None
              else Inr (Some \<lparr>wf_fin = fin, wf_opcode = opcode, wf_payload = subarray b offset (offset + nat len),
                             wf_bytes = offset + nat len\<rparr>)))"

section \<open>The receive loop\<close>

record ws_state =
  ws_messages :: "buffer list"
  ws_fragmented :: "(int \<times> buffer list) option"
  ws_pongs :: "buffer list"

text \<open>The body of the loop behind a parsed frame; \<open>None\<close> is the \<^verbatim>\<open>break\<close> on a close frame.\<close>

definition ws_receive :: "ws_frame \<Rightarrow> ws_state \<Rightarrow> ws_state option" where
  "ws_receive f st =
     (if wf_opcode f = 8 then None
      else if wf_opcode f = 9 then Some (st\<lparr>ws_pongs := ws_pongs st @ [wf_payload f]\<rparr>)
      else if wf_opcode f \<noteq> 0 \<and> wf_opcode f \<noteq> 1 \<and> wf_opcode f \<noteq> 2 then Some st
      else if wf_opcode f = 0 then
        (case ws_fragmented st of
           None \<Rightarrow> Some st
         | Some (opcode, chunks) \<Rightarrow>
             if \<not> wf_fin f then Some (st\<lparr>ws_fragmented := Some (opcode, chunks @ [wf_payload f])\<rparr>)
             else Some (st\<lparr>ws_fragmented := None, ws_messages := ws_messages st @ [concat (chunks @ [wf_payload f])]\<rparr>))
      else if \<not> wf_fin f then Some (st\<lparr>ws_fragmented := Some (wf_opcode f, [wf_payload f])\<rparr>)
      else Some (st\<lparr>ws_messages := ws_messages st @ [wf_payload f]\<rparr>))"

text \<open>
  A read that returns no chunk fails: with \<^verbatim>\<open>PROTOCOL_READ_TIMEOUT\<close>, on which the loop breaks, or otherwise
  (\<^verbatim>\<open>PROTOCOL_SOCKET_CLOSED\<close> where the peer ends the stream, \<^verbatim>\<open>PROTOCOL_READ_ABORTED\<close>, an error of the socket), which the
  loop throws on, with the messages it has.
\<close>

datatype read_end = ReadTimeout | ReadFailed string

definition ws_read_failed :: "read_end \<Rightarrow> ws_state \<Rightarrow> ws_error + ws_state" where
  "ws_read_failed ending st = (case ending of ReadTimeout \<Rightarrow> Inr st | ReadFailed e \<Rightarrow> Inl (ReadError e))"

text \<open>
  \<open>turns\<close> counts the turns whose test of the clock finds the deadline ahead; the first test behind the deadline ends the loop,
  whatever is still pending.
\<close>

fun ws_loop :: "nat \<Rightarrow> nat \<Rightarrow> nat \<Rightarrow> buffer list \<Rightarrow> read_end \<Rightarrow> buffer \<Rightarrow> nat \<Rightarrow> ws_state \<Rightarrow> ws_error + ws_state" where
  "ws_loop maxMessages maxBytes 0 chunks ending pending received st = Inr st"
| "ws_loop maxMessages maxBytes (Suc turns) chunks ending pending received st =
     (if \<not> length (ws_messages st) < maxMessages then Inr st
      else case parseFrame pending of
        Inl e \<Rightarrow> Inl e
      | Inr None \<Rightarrow>
          (case chunks of
             [] \<Rightarrow> ws_read_failed ending st
           | chunk # chunks' \<Rightarrow>
               if received + length chunk > maxBytes then Inl WEBSOCKET_RESPONSE_LIMIT_EXCEEDED
               else ws_loop maxMessages maxBytes turns chunks' ending (pending @ chunk) (received + length chunk) st)
      | Inr (Some f) \<Rightarrow>
          (case ws_receive f st of
             None \<Rightarrow> Inr st
           | Some st' \<Rightarrow> ws_loop maxMessages maxBytes turns chunks ending (drop (wf_bytes f) pending) received st'))"

declare ws_loop.simps [simp del]

text \<open>The loop from the bytes behind the handshake.\<close>

definition ws_receive_all :: "nat \<Rightarrow> nat \<Rightarrow> nat \<Rightarrow> buffer list \<Rightarrow> read_end \<Rightarrow> buffer \<Rightarrow> ws_error + ws_state" where
  "ws_receive_all maxMessages maxBytes turns chunks ending initial =
     (if length initial > maxBytes then Inl WEBSOCKET_RESPONSE_LIMIT_EXCEEDED
      else ws_loop maxMessages maxBytes turns chunks ending initial (length initial)
             \<lparr>ws_messages = [], ws_fragmented = None, ws_pongs = []\<rparr>)"

end
