(* ===== verification/RC_FramesFacts.thy ===== *)
theory RC_FramesFacts
  imports RC_Frames
begin

unbundle bit_operations_syntax

text \<open>
  The framings lose and invent nothing: gRPC decoding is exact, and the WebSocket loop delivers the messages a peer sent whatever
  the fragmentation of the messages and the chunks of the stream.
\<close>

section \<open>gRPC\<close>

lemma write_read: "writeUIntBE (length xs) (be_value 0 xs) = xs"
proof (induction xs rule: rev_induct)
  case (snoc x xs)
  have x: "0 \<le> uint x" "uint x < 256" using unsigned_less [of x, where ?'a = int] by simp_all
  then have "(256 * be_value 0 xs + uint x) div 256 = be_value 0 xs" by simp
  moreover have "(word_of_int (256 * be_value 0 xs + uint x) :: 8 word) = x"
  proof -
    have "uint (word_of_int (256 * be_value 0 xs + uint x) :: 8 word) = uint x" using x by (simp only: uint_word_of_int) simp
    then show ?thesis by (simp only: word_uint_eq_iff)
  qed
  ultimately show ?case using snoc by (simp add: be_value_append)
qed simp

definition grpc_fits :: "buffer \<Rightarrow> bool" where
  "grpc_fits p \<longleftrightarrow> int (length p) < 4294967296"

lemma grpc_frame_at:
  assumes "grpc_fits p" "body = pre @ grpc_frame p @ rest"
  shows "length pre + 5 \<le> length body" "body ! length pre = 0" "readUInt32BE body (length pre + 1) = int (length p)"
    "length pre + 5 + length p \<le> length body" "subarray body (length pre + 5) (length pre + 5 + length p) = p"
proof -
  show "length pre + 5 \<le> length body" "body ! length pre = 0" "length pre + 5 + length p \<le> length body"
    by (simp_all add: assms(2) grpc_frame_def)
  show "readUInt32BE body (length pre + 1) = int (length p)"
    using uint_be.get_field [of "int (length p)" 4 "pre @ [0]" "length pre + 1" "p @ rest"] assms by (simp add: grpc_frame_def grpc_fits_def)
  show "subarray body (length pre + 5) (length pre + 5 + length p) = p"
    using subarray_middle [of "pre @ 0 # writeUIntBE 4 (int (length p))" "length pre + 5" p "length p" rest]
    by (simp add: assms(2) grpc_frame_def)
qed

lemma grpc_loop_frames:
  "list_all grpc_fits ps \<Longrightarrow> length fs + length ps \<le> n \<Longrightarrow> grpc_loop (pre @ concat (map grpc_frame ps)) n (length pre) fs = Inr (fs @ ps)"
proof (induction ps arbitrary: pre fs)
  case Nil
  show ?case by (subst grpc_loop.simps) simp
next
  case (Cons p ps)
  let ?b = "pre @ concat (map grpc_frame (p # ps))"
  have p: "grpc_fits p" using Cons.prems by simp
  note at = grpc_frame_at [OF p, of ?b pre "concat (map grpc_frame ps)"]
  have IH: "grpc_loop ((pre @ grpc_frame p) @ concat (map grpc_frame ps)) n (length (pre @ grpc_frame p)) (fs @ [p]) = Inr ((fs @ [p]) @ ps)"
    by (rule Cons.IH) (use Cons.prems in simp_all)
  have len: "length (pre @ grpc_frame p) = length pre + 5 + length p" and ne: "grpc_frame p \<noteq> []" by (simp_all add: grpc_frame_def)
  have "grpc_loop ?b n (length pre) fs = grpc_loop ?b n (length pre + 5 + length p) (fs @ [p])"
    by (subst grpc_loop.simps) (use at ne Cons.prems in \<open>simp add: Let_def\<close>)
  then show ?case using IH len by (simp add: add.assoc)
qed

lemma grpc_loop_exact:
  "grpc_loop body n off fs = Inr out \<Longrightarrow> off \<le> length body \<Longrightarrow> length fs \<le> n \<Longrightarrow>
    \<exists>ps. out = fs @ ps \<and> drop off body = concat (map grpc_frame ps) \<and> length out \<le> n \<and> list_all grpc_fits ps"
proof (induction body n off fs rule: grpc_loop.induct)
  case (1 body n off fs)
  show ?case
  proof (cases "off < length body")
    case False
    then have "out = fs" using "1.prems"(1) by (subst (asm) grpc_loop.simps) simp
    then show ?thesis using False "1.prems"(2,3) by (intro exI [of _ "[]"]) simp
  next
    case True
    define len where "len = readUInt32BE body (off + 1)"
    have c: "length fs < n" "off + 5 \<le> length body" "body ! off = 0" "int (off + 5) + len \<le> int (length body)"
      and r: "grpc_loop body n (off + 5 + nat len) (fs @ [subarray body (off + 5) (off + 5 + nat len)]) = Inr out"
      using "1.prems"(1) True by (auto simp: grpc_loop.simps [of body n off fs] Let_def len_def split: if_splits)
    have len0: "0 \<le> len" "len < 4294967296" using readUIntBE_range [of 4 body "off + 1"] by (simp_all add: len_def)
    let ?p = "subarray body (off + 5) (off + 5 + nat len)"
    have pl: "length ?p = nat len" using c(4) len0 by simp
    obtain ps where ps: "out = (fs @ [?p]) @ ps" "drop (off + 5 + nat len) body = concat (map grpc_frame ps)" "length out \<le> n" "list_all grpc_fits ps"
    proof -
      have "off + 5 + nat len \<le> length body" using c(4) len0 by linarith
      then show ?thesis using that "1.IH" [OF True _ _ _ len_def] c r by auto
    qed
    have "take 4 (drop (off + 1) body) = writeUIntBE 4 len"
      using write_read [of "take 4 (drop (off + 1) body)"] c(2) by (simp add: len_def readUIntBE_def)
    then have "drop (off + 1) body = writeUIntBE 4 len @ drop (off + 5) body"
      using append_take_drop_id [of 4 "drop (off + 1) body"] by (simp add: add.commute)
    moreover have "drop off body = 0 # drop (off + 1) body" using Cons_nth_drop_Suc [OF True] c(3) by simp
    moreover have "drop (off + 5) body = ?p @ drop (off + 5 + nat len) body"
      using append_take_drop_id [of "nat len" "drop (off + 5) body"] by (simp add: subarray_def add.commute)
    ultimately have "drop off body = grpc_frame ?p @ concat (map grpc_frame ps)"
      using pl len0 ps(2) by (simp add: grpc_frame_def)
    moreover have "grpc_fits ?p" using len0 unfolding grpc_fits_def pl by simp
    ultimately show ?thesis using ps by (intro exI [of _ "?p # ps"]) simp
  qed
qed

section \<open>WebSocket frames\<close>

text \<open>A frame as RFC 6455 has a server send it: not masked.\<close>

type_synonym server_frame = "bool \<times> int \<times> buffer"

definition server_wire :: "server_frame \<Rightarrow> buffer" where
  "server_wire f = (case f of (fin, opcode, payload) \<Rightarrow>
     ((if fin then 0x80 else 0) OR word_of_int opcode) # ws_length 0 (length payload) @ payload)"

definition server_frame_ok :: "server_frame \<Rightarrow> bool" where
  "server_frame_ok f = (case f of (fin, opcode, payload) \<Rightarrow>
     0 \<le> opcode \<and> opcode < 16 \<and> int (length payload) \<le> 9007199254740991 \<and> (8 \<le> opcode \<longrightarrow> fin \<and> length payload \<le> 125))"

definition frame_of :: "server_frame \<Rightarrow> ws_frame" where
  "frame_of f = (case f of (fin, opcode, payload) \<Rightarrow>
     \<lparr>wf_fin = fin, wf_opcode = opcode, wf_payload = payload, wf_bytes = length (server_wire f)\<rparr>)"

lemma first_byte_table:
  "list_all (\<lambda>n. (word_of_int n :: 8 word) AND 0x70 = 0 \<and> (word_of_int n :: 8 word) AND 0x80 = 0 \<and> uint ((word_of_int n :: 8 word) AND 0x0f) = n
     \<and> (0x80 OR word_of_int n :: 8 word) AND 0x70 = 0 \<and> (0x80 OR word_of_int n :: 8 word) AND 0x80 \<noteq> 0
     \<and> uint ((0x80 OR word_of_int n :: 8 word) AND 0x0f) = n) [0..15]"
  by code_simp

lemma first_byte:
  assumes "0 \<le> opcode" "opcode < 16" and w: "w = (if fin then 0x80 else 0) OR (word_of_int opcode :: 8 word)"
  shows "w AND 0x70 = 0" "w AND 0x80 \<noteq> 0 \<longleftrightarrow> fin" "uint (w AND 0x0f) = opcode"
proof -
  have "opcode \<in> set [0..15]" using assms by simp
  then show "w AND 0x70 = 0" "w AND 0x80 \<noteq> 0 \<longleftrightarrow> fin" "uint (w AND 0x0f) = opcode"
    using first_byte_table w unfolding list_all_iff by auto
qed

lemma length_byte_table:
  "list_all (\<lambda>n. (word_of_int n :: 8 word) AND 0x80 = 0 \<and> uint ((word_of_int n :: 8 word) AND 0x7f) = n) [0..127]"
  by code_simp

lemma length_byte: assumes "n < 128" shows "(word_of_int (int n) :: 8 word) AND 0x80 = 0" "uint ((word_of_int (int n) :: 8 word) AND 0x7f) = int n"
proof -
  have "int n \<in> set [0..127]" using assms by simp
  then show "(word_of_int (int n) :: 8 word) AND 0x80 = 0" "uint ((word_of_int (int n) :: 8 word) AND 0x7f) = int n"
    using length_byte_table unfolding list_all_iff by blast+
qed

definition ws_offset :: "nat \<Rightarrow> nat" where
  "ws_offset n = (if n < 126 then 2 else if int n \<le> 0xffff then 4 else 10)"

lemma length_server_wire: "length (server_wire (fin, opcode, p)) = ws_offset (length p) + length p"
  by (simp add: server_wire_def ws_length_def ws_offset_def)

text \<open>What the parser sees in a buffer that is a beginning of the stream.\<close>

lemma wire_prefix:
  assumes "b @ t = server_wire (fin, opcode, p) @ rest" "2 \<le> length b"
  shows "b ! 0 = (if fin then 0x80 else 0) OR word_of_int opcode"
    "b ! 1 = word_of_int (if length p < 126 then int (length p) else if int (length p) \<le> 0xffff then 126 else 127)"
proof -
  have "b ! 0 = (b @ t) ! 0" "b ! 1 = (b @ t) ! 1" using assms(2) by (auto simp: nth_append)
  then show "b ! 0 = (if fin then 0x80 else 0) OR word_of_int opcode"
    "b ! 1 = word_of_int (if length p < 126 then int (length p) else if int (length p) \<le> 0xffff then 126 else 127)"
    unfolding assms(1) by (simp_all add: server_wire_def ws_length_def)
qed

lemma wire_extent:
  assumes b: "b @ t = server_wire (fin, opcode, p) @ rest" "2 \<le> length b" and p: "int (length p) \<le> 9007199254740991"
  shows "ws_extent b = (if length b < ws_offset (length p) then Inr None else Inr (Some (int (length p), ws_offset (length p))))"
proof -
  have l: "uint (b ! 1 AND 0x7f) = (if length p < 126 then int (length p) else if int (length p) \<le> 0xffff then 126 else 127)"
    using wire_prefix(2) [OF b] length_byte(2) [of "length p"] length_byte(2) [of 126] length_byte(2) [of 127] by auto
  have rd: "readUIntBE n b 2 = readUIntBE n (server_wire (fin, opcode, p) @ rest) 2" if "n + 2 \<le> length b" for n
    using uint_be.get_local [of 2 n b t] that b(1) by simp
  have w: "readUIntBE n (x # y # writeUIntBE n v @ zs) 2 = v" if "0 \<le> v" "v < 256 ^ n" for n x y v zs
    using uint_be.get_field [of v n "[x, y]" 2 zs] that by simp
  consider "length p < 126" | "\<not> length p < 126" "int (length p) \<le> 0xffff" | "\<not> length p < 126" "\<not> int (length p) \<le> 0xffff" by blast
  then show ?thesis
  proof cases
    case 1
    then show ?thesis using l b(2) by (simp add: ws_extent_def ws_offset_def)
  next
    case 2
    then have "length b \<ge> 4 \<Longrightarrow> readUInt16BE b 2 = int (length p)" using rd [of 2] w [of "int (length p)" 2] by (simp add: server_wire_def ws_length_def)
    then show ?thesis using 2 l by (simp add: ws_extent_def ws_offset_def)
  next
    case 3
    then have "length b \<ge> 10 \<Longrightarrow> readBigUInt64BE b 2 = int (length p)" using rd [of 8] w [of "int (length p)" 8] p by (simp add: server_wire_def ws_length_def)
    then show ?thesis using 3 l p by (simp add: ws_extent_def ws_offset_def Let_def)
  qed
qed

lemma parse_wire:
  assumes ok: "server_frame_ok f" and b: "b @ t = server_wire f @ rest"
  shows "parseFrame b = Inr (if length b < length (server_wire f) then None else Some (frame_of f))"
proof -
  obtain fin opcode p where f: "f = (fin, opcode, p)" by (metis prod.exhaust)
  have o: "0 \<le> opcode" "opcode < 16" "int (length p) \<le> 9007199254740991" "8 \<le> opcode \<longrightarrow> fin \<and> length p \<le> 125"
    using ok by (auto simp: server_frame_ok_def f)
  have len: "length (server_wire f) = ws_offset (length p) + length p" by (simp add: f length_server_wire)
  have off: "2 \<le> ws_offset (length p)" by (simp add: ws_offset_def)
  show ?thesis
  proof (cases "length b < 2")
    case True
    then show ?thesis using len off by (simp add: parseFrame_def)
  next
    case False
    then have b2: "2 \<le> length b" by simp
    note w = wire_prefix [OF b [unfolded f] b2]
    note fb = first_byte [OF o(1,2) w(1)]
    have m: "b ! 1 AND 0x80 = 0" using w(2) length_byte(1) [of "length p"] length_byte(1) [of 126] length_byte(1) [of 127] by auto
    note e = wire_extent [OF b [unfolded f] b2 o(3)]
    have sub: "subarray b (ws_offset (length p)) (ws_offset (length p) + length p) = p" if "\<not> length b < length (server_wire f)"
    proof -
      have h: "server_wire f = take (ws_offset (length p)) (server_wire f) @ p"
        by (simp add: f server_wire_def ws_length_def ws_offset_def)
      have "subarray b (ws_offset (length p)) (ws_offset (length p) + length p) = subarray (b @ t) (ws_offset (length p)) (ws_offset (length p) + length p)"
        using subarray_prefix [of "ws_offset (length p) + length p" b t] that len by simp
      also have "\<dots> = p" unfolding b
        by (subst h) (use subarray_middle [of "take (ws_offset (length p)) (server_wire f)" "ws_offset (length p)" p "length p" rest] len in simp)
      finally show ?thesis .
    qed
    show ?thesis using b2 fb m e sub o(4) len
      by (auto simp: parseFrame_def Let_def frame_of_def f)
  qed
qed

section \<open>The receive loop\<close>

text \<open>The loop on frames instead of bytes.\<close>

fun ws_reference :: "nat \<Rightarrow> server_frame list \<Rightarrow> ws_state \<Rightarrow> ws_state" where
  "ws_reference n [] st = st"
| "ws_reference n (f # fs) st =
     (if \<not> length (ws_messages st) < n then st
      else case ws_receive (frame_of f) st of None \<Rightarrow> st | Some st' \<Rightarrow> ws_reference n fs st')"

lemma ws_reference_full: "\<not> length (ws_messages st) < n \<Longrightarrow> ws_reference n fs st = st"
  by (cases fs) simp_all

text \<open>Whether the loop ends by itself on these frames, on a close frame or with the last message it may have.\<close>

fun ws_stops :: "nat \<Rightarrow> server_frame list \<Rightarrow> ws_state \<Rightarrow> bool" where
  "ws_stops n [] st \<longleftrightarrow> \<not> length (ws_messages st) < n"
| "ws_stops n (f # fs) st \<longleftrightarrow>
     \<not> length (ws_messages st) < n \<or> (case ws_receive (frame_of f) st of None \<Rightarrow> True | Some st' \<Rightarrow> ws_stops n fs st')"

lemma ws_stops_full: "\<not> length (ws_messages st) < n \<Longrightarrow> ws_stops n fs st"
  by (cases fs) simp_all

definition ws_answer :: "nat \<Rightarrow> server_frame list \<Rightarrow> ws_state \<Rightarrow> bool \<Rightarrow> read_end \<Rightarrow> ws_error + ws_state" where
  "ws_answer n fs st late ending =
     (if ws_stops n fs st \<or> late then Inr (ws_reference n fs st) else ws_read_failed ending (ws_reference n fs st))"

lemma ws_loop_reference:
  "pending @ concat chunks = concat (map server_wire fs) \<Longrightarrow> received + length (concat chunks) \<le> maxBytes \<Longrightarrow> list_all server_frame_ok fs
    \<Longrightarrow> length fs + length chunks \<le> turns
    \<Longrightarrow> ws_loop n maxBytes turns chunks ending pending received st = ws_answer n fs st (turns = length fs + length chunks) ending"
proof (induction turns arbitrary: chunks pending received st fs)
  case 0
  then show ?case by (simp add: ws_loop.simps ws_answer_def)
next
  case (Suc turns)
  let ?late = "Suc turns = length fs + length chunks"
  show ?case
  proof (cases "length (ws_messages st) < n")
    case False
    then show ?thesis by (simp add: ws_loop.simps ws_reference_full ws_stops_full ws_answer_def)
  next
    case open': True
    have more: "ws_loop n maxBytes (Suc turns) chunks ending pending received st = ws_answer n fs st ?late ending"
      if none: "parseFrame pending = Inr None" and "chunks = [] \<Longrightarrow> fs = []"
    proof (cases chunks)
      case Nil
      then show ?thesis using none that(2) open' by (simp add: ws_loop.simps ws_answer_def)
    next
      case (Cons c cs)
      have "ws_loop n maxBytes turns cs ending (pending @ c) (received + length c) st = ws_answer n fs st (turns = length fs + length cs) ending"
        by (rule Suc.IH) (use Suc.prems Cons in auto)
      then show ?thesis using none Cons open' Suc.prems(2) by (simp add: ws_loop.simps)
    qed
    show ?thesis
    proof (cases fs)
      case Nil
      then have "parseFrame pending = Inr None" using Suc.prems(1) by (simp add: parseFrame_def)
      then show ?thesis using more Nil by simp
    next
      case (Cons f fs')
      have f: "server_frame_ok f" "list_all server_frame_ok fs'" using Suc.prems(3) Cons by simp_all
      have b: "pending @ concat chunks = server_wire f @ concat (map server_wire fs')" using Suc.prems(1) Cons by simp
      note parse = parse_wire [OF f(1) b]
      show ?thesis
      proof (cases "length pending < length (server_wire f)")
        case True
        have "chunks \<noteq> []" using b True by (auto dest: arg_cong [where f = length])
        then show ?thesis using more parse True by simp
      next
        case False
        then have p: "parseFrame pending = Inr (Some (frame_of f))" using parse by simp
        have len: "wf_bytes (frame_of f) = length (server_wire f)" by (simp add: frame_of_def split: prod.splits)
        have d: "drop (wf_bytes (frame_of f)) pending @ concat chunks = concat (map server_wire fs')"
          using arg_cong [OF b, of "drop (length (server_wire f))"] False len by simp
        show ?thesis
        proof (cases "ws_receive (frame_of f) st")
          case None
          then show ?thesis using p open' Cons by (simp add: ws_loop.simps ws_answer_def)
        next
          case (Some st')
          have "ws_loop n maxBytes turns chunks ending (drop (wf_bytes (frame_of f)) pending) received st'
              = ws_answer n fs' st' (turns = length fs' + length chunks) ending"
            by (rule Suc.IH) (use Suc.prems d f Cons in auto)
          then show ?thesis using p open' Cons Some by (simp add: ws_loop.simps ws_answer_def)
        qed
      qed
    qed
  qed
qed

text \<open>A close frame ends the loop with what the frames before it gave; without one it ends when it has its messages.\<close>

lemma ws_receive_close: "ws_receive (frame_of f) st = None \<longleftrightarrow> fst (snd f) = 8"
  by (auto simp: ws_receive_def frame_of_def split: option.splits prod.splits if_splits)

lemma reference_close:
  assumes "fst (snd c) = 8"
  shows "ws_stops n (fs @ c # gs) st \<and> ws_reference n (fs @ c # gs) st = ws_reference n fs st"
proof (induction fs arbitrary: st)
  case Nil
  then show ?case using ws_receive_close [of c] assms by simp
next
  case (Cons f fs)
  then show ?case by (simp split: option.split)
qed

lemma reference_runs:
  "list_all (\<lambda>f. fst (snd f) \<noteq> 8) fs \<Longrightarrow> length (ws_messages (ws_reference n fs st)) < n \<Longrightarrow> \<not> ws_stops n fs st"
proof (induction fs arbitrary: st)
  case (Cons f fs)
  then show ?case using ws_receive_close [of f st] by (auto split: option.splits if_splits)
qed simp

text \<open>A frame of the client as its server reads it: the four key bytes behind the length field undo the masking.\<close>

definition unmask :: "nat \<Rightarrow> buffer \<Rightarrow> buffer" where
  "unmask n frame = (let key = take 4 (drop (ws_offset n) frame); xs = drop (ws_offset n + 4) frame in
     map (\<lambda>i. xs ! i XOR key ! (i mod 4)) [0..<length xs])"

lemma ws_length_offset: "Suc (length (ws_length mbit n)) = ws_offset n"
  by (simp add: ws_length_def ws_offset_def)

lemma unmask_encodeFrame:
  assumes "length key = 4"
  shows "unmask (length payload) (encodeFrame payload opcode key) = payload"
proof -
  let ?xs = "map (\<lambda>i. payload ! i XOR key ! (i mod 4)) [0..<length payload]"
  let ?h = "(0x80 OR word_of_int opcode) # ws_length 0x80 (length payload)"
  have e: "encodeFrame payload opcode key = ?h @ key @ ?xs" by (simp add: encodeFrame_def)
  have h: "length ?h = ws_offset (length payload)" by (simp add: ws_length_offset)
  have "take 4 (drop (ws_offset (length payload)) (?h @ key @ ?xs)) = key" "drop (ws_offset (length payload) + 4) (?h @ key @ ?xs) = ?xs"
    using assms by (simp_all add: h [symmetric] drop_Cons')
  then show ?thesis unfolding unmask_def e by (auto simp: Let_def xor.assoc intro: nth_equalityI)
qed

section \<open>Messages\<close>

text \<open>The frames of a message that is sent in the given parts.\<close>

fun continuation :: "buffer list \<Rightarrow> server_frame list" where
  "continuation [] = []"
| "continuation (p # ps) = (ps = [], 0, p) # continuation ps"

fun message_frames :: "int \<times> buffer list \<Rightarrow> server_frame list" where
  "message_frames (opcode, []) = []"
| "message_frames (opcode, p # ps) = (ps = [], opcode, p) # continuation ps"

definition is_ping_pong :: "server_frame \<Rightarrow> bool" where
  "is_ping_pong f = (fst (snd f) = 9 \<or> fst (snd f) = 10)"

abbreviation data_frames :: "server_frame list \<Rightarrow> server_frame list" where
  "data_frames \<equiv> filter (\<lambda>f. \<not> is_ping_pong f)"

definition pings :: "server_frame list \<Rightarrow> buffer list" where
  "pings fs = map (\<lambda>(_, _, p). p) (filter (\<lambda>(_, opcode, _). opcode = 9) fs)"

text \<open>Control frames between data frames only add pongs.\<close>

lemma receive_pongs:
  assumes "\<not> is_ping_pong f"
  shows "ws_receive (frame_of f) (st\<lparr>ws_pongs := x\<rparr>) = map_option (\<lambda>s. s\<lparr>ws_pongs := x\<rparr>) (ws_receive (frame_of f) st)"
  using assms by (auto simp: ws_receive_def frame_of_def is_ping_pong_def split: option.splits prod.splits)

lemma reference_pongs:
  "list_all (\<lambda>f. \<not> is_ping_pong f) ds \<Longrightarrow> ws_reference n ds (st\<lparr>ws_pongs := x\<rparr>) = (ws_reference n ds st)\<lparr>ws_pongs := x\<rparr>"
proof (induction ds arbitrary: st)
  case (Cons d ds)
  then show ?case by (cases "ws_receive (frame_of d) st") (simp_all add: receive_pongs)
qed simp

lemma receive_pings:
  assumes "\<not> is_ping_pong f" "ws_receive (frame_of f) st = Some st'" shows "ws_pongs st' = ws_pongs st" "length (ws_messages st) \<le> length (ws_messages st')"
  using assms by (auto simp: ws_receive_def frame_of_def is_ping_pong_def split: option.splits prod.splits if_splits)

lemma reference_grows: "list_all (\<lambda>f. \<not> is_ping_pong f) ds \<Longrightarrow> length (ws_messages st) \<le> length (ws_messages (ws_reference n ds st))"
proof (induction ds arbitrary: st)
  case (Cons d ds)
  then show ?case using receive_pings(2) [of d st] by (auto split: option.splits intro: le_trans)
qed simp

lemma pings_simps: "pings [] = []" "pings (f # fs) = (if fst (snd f) = 9 then [snd (snd f)] else []) @ pings fs"
  by (simp_all add: pings_def case_prod_beta)

lemma reference_control:
  assumes "length (ws_messages (ws_reference n (data_frames fs) st)) < n" "list_all (\<lambda>f. fst (snd f) \<noteq> 8) fs"
  shows "ws_reference n fs st = (ws_reference n (data_frames fs) st)\<lparr>ws_pongs := ws_pongs st @ pings fs\<rparr>"
  using assms
proof (induction fs arbitrary: st)
  case Nil
  then show ?case by (simp add: pings_simps)
next
  case (Cons f fs)
  have dl: "list_all (\<lambda>f. \<not> is_ping_pong f) (data_frames fs)" for fs by (simp add: list_all_iff)
  have lt: "length (ws_messages st) < n"
    using Cons.prems(1) reference_grows [OF dl, of st n "f # fs"] by linarith
  show ?case
  proof (cases "is_ping_pong f")
    case True
    let ?x = "ws_pongs st @ (if fst (snd f) = 9 then [snd (snd f)] else [])"
    have r: "ws_receive (frame_of f) st = Some (st\<lparr>ws_pongs := ?x\<rparr>)"
      using True by (auto simp: ws_receive_def frame_of_def is_ping_pong_def split: prod.splits)
    have d: "ws_reference n (data_frames fs) (st\<lparr>ws_pongs := ?x\<rparr>) = (ws_reference n (data_frames fs) st)\<lparr>ws_pongs := ?x\<rparr>"
      by (rule reference_pongs [OF dl])
    have "ws_reference n fs (st\<lparr>ws_pongs := ?x\<rparr>) = (ws_reference n (data_frames fs) (st\<lparr>ws_pongs := ?x\<rparr>))\<lparr>ws_pongs := ?x @ pings fs\<rparr>"
      using Cons.IH [of "st\<lparr>ws_pongs := ?x\<rparr>"] Cons.prems True d by simp
    then show ?thesis using r lt True d by (simp add: pings_simps)
  next
    case False
    show ?thesis
    proof (cases "ws_receive (frame_of f) st")
      case None
      then show ?thesis using Cons.prems(2) by (auto simp: ws_receive_def frame_of_def split: if_splits option.splits prod.splits)
    next
      case (Some st')
      have "fst (snd f) \<noteq> 9" using False by (simp add: is_ping_pong_def)
      then show ?thesis using Cons.IH [of st'] Cons.prems Some False lt receive_pings(1) [OF False Some] by (simp add: pings_simps)
    qed
  qed
qed

lemma reference_continuation:
  assumes "ws_fragmented st = Some (opcode, cs)" "length (ws_messages st) < n" "ps \<noteq> []"
  shows "ws_reference n (continuation ps @ rest) st
    = ws_reference n rest (st\<lparr>ws_fragmented := None, ws_messages := ws_messages st @ [concat (cs @ ps)]\<rparr>)"
  using assms
proof (induction ps arbitrary: st cs)
  case (Cons p ps)
  show ?case
  proof (cases "ps = []")
    case True
    then show ?thesis using Cons.prems by (simp add: ws_receive_def frame_of_def)
  next
    case False
    let ?st = "st\<lparr>ws_fragmented := Some (opcode, cs @ [p])\<rparr>"
    have "ws_reference n (continuation ps @ rest) ?st
        = ws_reference n rest (?st\<lparr>ws_fragmented := None, ws_messages := ws_messages ?st @ [concat ((cs @ [p]) @ ps)]\<rparr>)"
      by (rule Cons.IH) (use Cons.prems False in simp_all)
    then show ?thesis using Cons.prems False by (simp add: ws_receive_def frame_of_def)
  qed
qed simp

definition message_ok :: "int \<times> buffer list \<Rightarrow> bool" where
  "message_ok m \<longleftrightarrow> (fst m = 1 \<or> fst m = 2) \<and> snd m \<noteq> []"

lemma reference_message:
  assumes "ws_fragmented st = None" "length (ws_messages st) < n" "message_ok m"
  shows "ws_reference n (message_frames m @ rest) st = ws_reference n rest (st\<lparr>ws_messages := ws_messages st @ [concat (snd m)]\<rparr>)"
proof -
  obtain opcode p ps where m: "m = (opcode, p # ps)" "opcode = 1 \<or> opcode = 2"
    using assms(3) unfolding message_ok_def by (metis fst_conv list.exhaust prod.exhaust snd_conv)
  show ?thesis
  proof (cases "ps = []")
    case True
    then show ?thesis using assms(1,2) m by (auto simp: ws_receive_def frame_of_def)
  next
    case False
    let ?st = "st\<lparr>ws_fragmented := Some (opcode, [p])\<rparr>"
    have "ws_reference n (continuation ps @ rest) ?st
        = ws_reference n rest (?st\<lparr>ws_fragmented := None, ws_messages := ws_messages ?st @ [concat ([p] @ ps)]\<rparr>)"
      by (rule reference_continuation) (use assms False in simp_all)
    moreover have "st\<lparr>ws_fragmented := None, ws_messages := ms\<rparr> = st\<lparr>ws_messages := ms\<rparr>" for ms using assms(1) by (cases st) simp
    ultimately have "ws_reference n (continuation ps @ rest) ?st = ws_reference n rest (st\<lparr>ws_messages := ws_messages st @ [concat (snd m)]\<rparr>)"
      using m by simp
    then show ?thesis using assms(1,2) m False by (auto simp: ws_receive_def frame_of_def)
  qed
qed

lemma reference_messages:
  "ws_fragmented st = None \<Longrightarrow> length (ws_messages st) + length ms < n \<Longrightarrow> list_all message_ok ms
    \<Longrightarrow> ws_reference n (concat (map message_frames ms)) st = st\<lparr>ws_messages := ws_messages st @ map (\<lambda>m. concat (snd m)) ms\<rparr>"
proof (induction ms arbitrary: st)
  case (Cons m ms)
  have "ws_reference n (concat (map message_frames (m # ms))) st
      = ws_reference n (concat (map message_frames ms)) (st\<lparr>ws_messages := ws_messages st @ [concat (snd m)]\<rparr>)"
    using reference_message [of st n m "concat (map message_frames ms)"] Cons.prems by simp
  then show ?case using Cons.IH [of "st\<lparr>ws_messages := ws_messages st @ [concat (snd m)]\<rparr>"] Cons.prems by simp
qed simp

lemma continuation_opcodes: "f \<in> set (continuation ps) \<Longrightarrow> fst (snd f) = 0"
  by (induction ps) auto

lemma message_opcodes: "message_ok m \<Longrightarrow> f \<in> set (message_frames m) \<Longrightarrow> fst (snd f) \<in> {0, 1, 2}"
  by (cases m rule: message_frames.cases) (auto simp: message_ok_def dest: continuation_opcodes)

section \<open>Properties\<close>

text \<open>
  C30: gRPC framing is exact. A body decodes to a list of messages if and only if it is the concatenation of the frames the program
  writes for them, there are no more of them than allowed, and each length fits its field; a truncated, compressed or
  oversized body gives an error and never a part of the messages.
\<close>

theorem grpc_decoding_exact:
  "decodeGrpcFrames body n = Inr ps \<longleftrightarrow>
     body = concat (map grpc_frame ps) \<and> length ps \<le> n \<and> list_all (\<lambda>p. int (length p) < 4294967296) ps"
proof
  assume "decodeGrpcFrames body n = Inr ps"
  then show "body = concat (map grpc_frame ps) \<and> length ps \<le> n \<and> list_all (\<lambda>p. int (length p) < 4294967296) ps"
    using grpc_loop_exact [of body n 0 "[]" ps] by (simp add: decodeGrpcFrames_def grpc_fits_def [abs_def])
next
  assume "body = concat (map grpc_frame ps) \<and> length ps \<le> n \<and> list_all (\<lambda>p. int (length p) < 4294967296) ps"
  then show "decodeGrpcFrames body n = Inr ps"
    using grpc_loop_frames [of ps "[]" n "[]"] by (simp add: decodeGrpcFrames_def grpc_fits_def [abs_def])
qed

text \<open>
  C32: WebSocket messages arrive whole. Let a server send messages, each cut into any number of fragments, with pings and pongs between
  any two frames, and after them nothing or a close frame (and whatever frames behind it); let the bytes arrive in any chunks,
  part of them already behind the handshake, and let the loop have a turn for each frame and chunk before its deadline. Below
  the message and the byte limit the loop then answers exactly the pings, with their payloads, and delivers exactly the messages
  in order, if the server closed, if the read behind the last chunk times out, or if the deadline has passed before it. Where the
  stream ends otherwise without a close frame (closed by the peer, aborted or in error) the loop throws the error of that
  read instead and delivers none of the messages.
\<close>

theorem ws_messages_delivered:
  assumes "list_all server_frame_ok (fs @ closing)" "data_frames fs = concat (map message_frames ms)"
    and "closing = [] \<or> fst (snd (hd closing)) = 8"
    and "list_all (\<lambda>m. (fst m = 1 \<or> fst m = 2) \<and> snd m \<noteq> []) ms" "length ms < n"
    and "concat (initial # chunks) = concat (map server_wire (fs @ closing))" "length (concat (initial # chunks)) \<le> maxBytes"
    and "length (fs @ closing) + length chunks \<le> turns"
  shows "ws_receive_all n maxBytes turns chunks ending initial =
    (if closing \<noteq> [] \<or> ending = ReadTimeout \<or> turns = length fs + length chunks
     then Inr \<lparr>ws_messages = map (\<lambda>m. concat (snd m)) ms, ws_fragmented = None, ws_pongs = pings fs\<rparr>
     else Inl (case ending of ReadFailed e \<Rightarrow> ReadError e))"
proof -
  let ?st = "\<lparr>ws_messages = [], ws_fragmented = None, ws_pongs = []\<rparr>"
  let ?all = "\<lparr>ws_messages = map (\<lambda>m. concat (snd m)) ms, ws_fragmented = None, ws_pongs = pings fs\<rparr>"
  have ms: "list_all message_ok ms" using assms(4) by (simp add: message_ok_def [abs_def])
  have data: "ws_reference n (data_frames fs) ?st = ?st\<lparr>ws_messages := map (\<lambda>m. concat (snd m)) ms\<rparr>"
    using reference_messages [of ?st ms n] ms assms(2,5) by simp
  have "fst (snd f) \<noteq> 8" if "f \<in> set fs" for f
  proof (cases "is_ping_pong f")
    case False
    then have "f \<in> set (concat (map message_frames ms))" using that by (simp flip: assms(2))
    then obtain m where "m \<in> set ms" "f \<in> set (message_frames m)" by auto
    then show ?thesis using message_opcodes [of m f] ms by (auto simp: list_all_iff)
  qed (auto simp: is_ping_pong_def)
  then have no_close: "list_all (\<lambda>f. fst (snd f) \<noteq> 8) fs" by (simp add: list_all_iff)
  then have all: "ws_reference n fs ?st = ?all"
    by (subst reference_control) (use data assms(5) in simp_all)
  have runs: "\<not> ws_stops n fs ?st" by (rule reference_runs [OF no_close]) (use all assms(5) in simp)
  have bytes: "length initial + length (concat chunks) \<le> maxBytes" using assms(7) by simp
  have "ws_loop n maxBytes turns chunks ending initial (length initial) ?st
      = ws_answer n (fs @ closing) ?st (turns = length (fs @ closing) + length chunks) ending"
    by (rule ws_loop_reference) (use assms(1,6,8) bytes in simp_all)
  moreover have "ws_stops n (fs @ closing) ?st \<and> ws_reference n (fs @ closing) ?st = ?all" if "closing \<noteq> []"
    using reference_close [of "hd closing" n fs "tl closing" ?st] assms(3) that all by simp
  ultimately show ?thesis using bytes all runs
    by (cases "closing = []") (simp_all add: ws_receive_all_def ws_answer_def ws_read_failed_def split: read_end.split)
qed

theorem ws_messages_delivered_witness:
  "ws_receive_all 3 64 9 [[1, 1, 104], [137, 1, 7, 128], [2, 105, 33]] ReadTimeout []
    = Inr \<lparr>ws_messages = [[104, 105, 33]], ws_fragmented = None, ws_pongs = [[7]]\<rparr> \<and>
   ws_receive_all 3 64 9 [[1, 1, 104], [137, 1, 7, 128], [2, 105, 33]] (ReadFailed ''PROTOCOL_SOCKET_CLOSED'') []
    = Inl (ReadError ''PROTOCOL_SOCKET_CLOSED'') \<and>
   ws_receive_all 3 64 9 [[1, 1, 104], [137, 1, 7, 128], [2, 105, 33, 136, 0]] (ReadFailed ''PROTOCOL_SOCKET_CLOSED'') []
    = Inr \<lparr>ws_messages = [[104, 105, 33]], ws_fragmented = None, ws_pongs = [[7]]\<rparr>"
proof -
  let ?fs = "[(False, 1, [104]), (True, 9, [7]), (True, 0, [105, 33])] :: server_frame list"
  let ?ms = "[(1, [[104], [105, 33]])] :: (int \<times> buffer list) list"
  have f: "list_all server_frame_ok (?fs @ [])" "data_frames ?fs = concat (map message_frames ?ms)"
    "concat ([] # [[1, 1, 104], [137, 1, 7, 128], [2, 105, 33]]) = concat (map server_wire (?fs @ []))" by code_simp+
  have c: "list_all server_frame_ok (?fs @ [(True, 8, [])])"
    "concat ([] # [[1, 1, 104], [137, 1, 7, 128], [2, 105, 33, 136, 0]]) = concat (map server_wire (?fs @ [(True, 8, [])]))" by code_simp+
  have p: "pings ?fs = [[7]]" by code_simp
  show ?thesis
    using ws_messages_delivered [OF f(1,2) _ _ _ f(3), of 3 64 9 ReadTimeout]
      ws_messages_delivered [OF f(1,2) _ _ _ f(3), of 3 64 9 "ReadFailed ''PROTOCOL_SOCKET_CLOSED''"]
      ws_messages_delivered [OF c(1) f(2) _ _ _ c(2), of 3 64 9 "ReadFailed ''PROTOCOL_SOCKET_CLOSED''"] p by simp
qed

end
