(* ===== verification/RC_RawHttp.thy ===== *)
theory RC_RawHttp
  imports RC_Bytes RC_Scope
begin

text \<open>
  The raw HTTP/1 transport, \<^verbatim>\<open>core/http/RawHttp1Transport.ts\<close>: a request whose body length is ambiguous and a sentinel request behind
  it, written as one buffer to one connection, and the responses that come back. DNS answers and socket events are inputs
  in the order in which they happen; the \<^verbatim>\<open>begin\<close> callback of the caller acts on a state of its own. The digest and the time of an
  answer are left out, and the preview is the bytes that the code decodes.
\<close>

section \<open>Requests and responses\<close>

datatype raw_variant = CL_TE | TE_CL

record raw_http_request =
  ra_url :: string
  ra_headers :: "(string \<times> string) list"
  ra_body :: string
  ra_sentinelPath :: string
  ra_marker :: "string option"
  ra_variant :: raw_variant
  ra_maxResponseBytes :: nat
  ra_userAgent :: string
  ra_targetOrigin :: string

datatype raw_error = ScanCancelledError | ErrorValue string string

record raw_response =
  rh_statusCodes :: "int list"
  rh_body :: buffer
  rh_transmittedRequests :: nat
  rh_markerObserved :: bool
  rh_error :: "(string \<times> string) option"

abbreviation crlf :: string where
  "crlf \<equiv> [CHR 0x0D, CHR 0x0A]"

section \<open>Addresses\<close>

datatype raw_answer = PlainAddress string | FamilyAddress string nat

definition answer_address :: "raw_answer \<Rightarrow> string \<times> nat" where
  "answer_address a = (case a of
     PlainAddress s \<Rightarrow> (s, if CHR '':'' \<in> set s then 6 else 4)
   | FamilyAddress s family \<Rightarrow> (s, family))"

text \<open>What can settle the wait for an answer; the timer is always armed, so that it fires when nothing else happens.\<close>

datatype dns_event = DnsAbort | DnsTimeout | DnsAnswered "raw_answer list" | DnsFailed raw_error

definition boundedDnsWait :: "bool \<Rightarrow> dns_event list \<Rightarrow> raw_error + raw_answer list" where
  "boundedDnsWait aborted events =
     (if aborted then Inl ScanCancelledError
      else case events of
        [] \<Rightarrow> Inl (ErrorValue ''Error'' ''RAW_HTTP1_DNS_TIMEOUT'')
      | DnsAbort # _ \<Rightarrow> Inl ScanCancelledError
      | DnsTimeout # _ \<Rightarrow> Inl (ErrorValue ''Error'' ''RAW_HTTP1_DNS_TIMEOUT'')
      | DnsAnswered answers # _ \<Rightarrow> Inr answers
      | DnsFailed e # _ \<Rightarrow> Inl e)"

definition selectAddress ::
  "url_runtime \<Rightarrow> raw_http_request \<Rightarrow> string \<Rightarrow> bool \<Rightarrow> dns_event list \<Rightarrow> raw_error + string \<times> nat" where
  "selectAddress rt req hostname aborted events =
     ebind (boundedDnsWait aborted events) (\<lambda>answers.
       let normalized = filter (\<lambda>a. fst a \<noteq> []) (map answer_address answers) in
       if normalized = [] then Inl (ErrorValue ''Error'' ''RAW_HTTP1_DNS_EMPTY'')
       else case (rt_newURL rt (ra_targetOrigin req), rt_newURL rt (ra_url req)) of
         (Some target, Some u) \<Rightarrow>
           let exactPrivateOrigin = (to_lower (u_hostname target) = to_lower hostname \<and> u_port target = u_port u);
               safe = filter (\<lambda>a. \<not> isProhibitedAddress (fst a) \<or> exactPrivateOrigin) normalized in
           if length safe \<noteq> length normalized then Inl (ErrorValue ''Error'' ''RAW_HTTP1_DNS_PROHIBITED_ADDRESS'')
           else if safe = [] then Inl (ErrorValue ''Error'' ''RAW_HTTP1_DNS_PROHIBITED_ADDRESS'')
           else Inr (hd safe)
       | _ \<Rightarrow> Inl (ErrorValue ''TypeError'' ''Invalid URL''))"

section \<open>The bytes on the wire\<close>

definition transport_framing :: "string list" where
  "transport_framing =
     [''host'', ''content-length'', ''transfer-encoding'', ''connection'', ''proxy-connection'', ''expect'', ''upgrade'', ''trailer'']"

definition safe_body :: "string \<Rightarrow> string" where
  "safe_body body = take 4096 (map (\<lambda>c. if c \<in> {CHR 0x0D, CHR 0x0A, CHR 0x00} then CHR '' '' else c) body)"

definition chunked_body :: "string \<Rightarrow> string" where
  "chunked_body body =
     (if utf8_bytes body \<noteq> []
      then show_base 16 (int (length (utf8_bytes body))) @ crlf @ body @ crlf @ ''0'' @ crlf @ crlf
      else ''0'' @ crlf @ crlf)"

definition path_or_root :: "url \<Rightarrow> string" where
  "path_or_root u = (if u_pathname u = [] then ''/'' else u_pathname u) @ u_search u"

definition smuggled_request :: "raw_http_request \<Rightarrow> url \<Rightarrow> url \<Rightarrow> string" where
  "smuggled_request req parsed sentinel =
     ''GET '' @ path_or_root sentinel @ '' HTTP/1.1'' @ crlf @ ''Host: '' @ url_host parsed @ crlf @ ''Connection: close'' @ crlf
     @ (case ra_marker req of None \<Rightarrow> [] | Some m \<Rightarrow> if m = [] then [] else ''X-RouteCairn-Sentinel: '' @ m @ crlf) @ crlf"

definition ambiguous_length :: "raw_http_request \<Rightarrow> nat" where
  "ambiguous_length req = length (utf8_bytes (chunked_body (safe_body (ra_body req)))) + (if ra_variant req = TE_CL then 1 else 0)"

definition wire_lines :: "raw_http_request \<Rightarrow> url \<Rightarrow> string list" where
  "wire_lines req parsed =
     (let n = show_base 10 (int (ambiguous_length req));
          framing = (if ra_variant req = CL_TE
                     then ''Content-Length: '' @ n @ crlf @ ''Transfer-Encoding: chunked''
                     else ''Transfer-Encoding: chunked'' @ crlf @ ''Content-Length: '' @ n);
          customHeaders = join_with crlf (map (\<lambda>(name, value). name @ '': '' @ value)
                            (filter (\<lambda>(name, value). to_lower name \<notin> set transport_framing) (ra_headers req))) in
      filter (\<lambda>s. s \<noteq> [])
        [''POST '' @ path_or_root parsed @ '' HTTP/1.1'', ''Host: '' @ url_host parsed, ''User-Agent: '' @ ra_userAgent req,
         ''Connection: close'', framing, customHeaders])"

definition buildWireRequest :: "raw_http_request \<Rightarrow> url \<Rightarrow> url \<Rightarrow> buffer" where
  "buildWireRequest req parsed sentinel =
     utf8_bytes (join_with crlf (wire_lines req parsed) @ crlf @ crlf
       @ chunked_body (safe_body (ra_body req)) @ smuggled_request req parsed sentinel)"

section \<open>Parsing responses\<close>

text \<open>\<^verbatim>\<open>b.indexOf(needle, i)\<close> for a needle that is not empty.\<close>

fun find_sub :: "'a list \<Rightarrow> 'a list \<Rightarrow> nat \<Rightarrow> nat option" where
  "find_sub needle [] i = (if needle = [] then Some i else None)"
| "find_sub needle (x # xs) i = (if take (length needle) (x # xs) = needle then Some i else find_sub needle xs (Suc i))"

definition buffer_indexOf :: "buffer \<Rightarrow> buffer \<Rightarrow> nat \<Rightarrow> nat option" where
  "buffer_indexOf b needle i = find_sub needle (drop i b) i"

definition latin1_bytes :: "string \<Rightarrow> buffer" where
  "latin1_bytes = map (\<lambda>c. word_of_int (of_char c))"

definition status_marker :: buffer where
  "status_marker = latin1_bytes ''HTTP/1.''"

definition header_break :: buffer where
  "header_break = latin1_bytes (crlf @ crlf)"

lemma markers [simp]: "length status_marker = 7" "length header_break = 4" "status_marker \<noteq> []" "header_break \<noteq> []"
  by (simp_all add: status_marker_def header_break_def latin1_bytes_def)

definition latin1_text :: "buffer \<Rightarrow> string" where
  "latin1_text = map (\<lambda>w. char_of (uint w))"

text \<open>The first position of a text at which a pattern matches.\<close>

fun first_match :: "(string \<Rightarrow> 'a option) \<Rightarrow> string \<Rightarrow> 'a option" where
  "first_match f [] = f []"
| "first_match f (c # cs) = (case f (c # cs) of Some v \<Rightarrow> Some v | None \<Rightarrow> first_match f cs)"

definition is_word_char :: "char \<Rightarrow> bool" where
  "is_word_char c \<longleftrightarrow> c \<in> set ''ABCDEFGHIJKLMNOPQRSTUVWXYZabcdefghijklmnopqrstuvwxyz0123456789_''"

text \<open>\<^verbatim>\<open>/HTTP\/1\.[01]\s+(\d{3})\b/\<close> and \<^verbatim>\<open>/(?:^|\r\n)content-length:\s*(\d+)/i\<close>.\<close>

definition status_here :: "string \<Rightarrow> int option" where
  "status_here s =
     (let r = drop 8 s; t = dropWhile is_space r; ds = take 3 t in
      if starts_with s ''HTTP/1.'' \<and> 7 < length s \<and> s ! 7 \<in> {CHR ''0'', CHR ''1''} \<and> length t < length r
         \<and> length ds = 3 \<and> list_all is_digit ds \<and> (case drop 3 t of [] \<Rightarrow> True | c # _ \<Rightarrow> \<not> is_word_char c)
      then Some (digits_value 10 0 ds) else None)"

definition response_status :: "string \<Rightarrow> int option" where
  "response_status = first_match status_here"

definition length_here :: "string \<Rightarrow> int option" where
  "length_here s =
     (if to_lower (take 15 s) = ''content-length:''
      then let ds = takeWhile is_digit (dropWhile is_space (drop 15 s)) in if ds = [] then None else Some (digits_value 10 0 ds)
      else None)"

definition line_length_here :: "string \<Rightarrow> int option" where
  "line_length_here s = (if starts_with s crlf then length_here (drop 2 s) else None)"

definition response_length :: "string \<Rightarrow> int option" where
  "response_length header = (case length_here header of Some n \<Rightarrow> Some n | None \<Rightarrow> first_match line_length_here header)"

lemma find_sub_range: "find_sub needle b i = Some j \<Longrightarrow> i \<le> j \<and> j + length needle \<le> i + length b \<and> take (length needle) (drop (j - i) b) = needle"
proof (induction needle b i rule: find_sub.induct)
  case (2 needle x xs i)
  show ?case
  proof (cases "take (length needle) (x # xs) = needle")
    case True
    then have "length needle \<le> length (x # xs)" by (metis length_take min.cobounded1)
    then show ?thesis using 2 True by auto
  next
    case False
    then have "Suc i \<le> j \<and> j + length needle \<le> Suc i + length xs \<and> take (length needle) (drop (j - Suc i) xs) = needle" using 2 by simp
    moreover have "j - i = Suc (j - Suc i)" if "Suc i \<le> j" using that by simp
    ultimately show ?thesis by auto
  qed
qed (auto split: if_splits)

lemma buffer_indexOf_range: "buffer_indexOf b needle i = Some j \<Longrightarrow> needle \<noteq> [] \<Longrightarrow> i \<le> j \<and> j + length needle \<le> length b"
  unfolding buffer_indexOf_def by (drule find_sub_range) (cases "i \<le> length b"; auto)

function parse_loop :: "buffer \<Rightarrow> nat \<Rightarrow> int list \<Rightarrow> buffer list \<Rightarrow> int list \<times> buffer list" where
  "parse_loop bounded cursor statusCodes bodyParts =
     (if \<not> cursor < length bounded then (statusCodes, bodyParts)
      else case buffer_indexOf bounded status_marker cursor of
        None \<Rightarrow> (statusCodes, bodyParts)
      | Some start \<Rightarrow>
        (case buffer_indexOf bounded header_break start of
           None \<Rightarrow> (statusCodes, bodyParts)
         | Some headerEnd \<Rightarrow>
             let header = latin1_text (subarray bounded start headerEnd);
                 statusCodes' = (case response_status header of None \<Rightarrow> statusCodes | Some s \<Rightarrow> statusCodes @ [s]);
                 bodyStart = headerEnd + 4; contentLength = response_length header;
                 bodyEnd = (case contentLength of None \<Rightarrow> length bounded | Some n \<Rightarrow> min (length bounded) (bodyStart + nat n));
                 bodyParts' = (if bodyEnd > bodyStart then bodyParts @ [subarray bounded bodyStart bodyEnd] else bodyParts) in
             if contentLength = None then (statusCodes', bodyParts')
             else parse_loop bounded (max bodyEnd (bodyStart + 1)) statusCodes' bodyParts'))"
  by pat_completeness auto

termination parse_loop
  by (relation "measure (\<lambda>(b, cursor, s, p). length b - cursor)") (auto simp: Let_def dest!: buffer_indexOf_range)

declare parse_loop.simps [simp del]

definition parseResponses :: "buffer \<Rightarrow> nat \<Rightarrow> int list \<times> buffer" where
  "parseResponses b maxBytes =
     (case parse_loop (take maxBytes b) 0 [] [] of (statusCodes, bodyParts) \<Rightarrow> (statusCodes, take maxBytes (concat bodyParts)))"

section \<open>The exchange\<close>

text \<open>
  Events of the socket and of the signal in the order in which their handlers run. The socket is destroyed before it
  reports an error or its close; once the exchange is settled the signal has no listener. \<open>SockConnected\<close> says whether the signal has fired; its handler runs once.
\<close>

datatype sock_event = SockConnected bool | SockData buffer | SockEnd | SockClose | SockError raw_error | SockTimeout | SockAbort

record 'b exchange_state =
  xs_chunks :: "buffer list"
  xs_bytes :: nat
  xs_settled :: "(raw_error + buffer) option"
  xs_destroyed :: bool
  xs_connecting :: bool
  xs_writes :: "buffer list"
  xs_initiated :: bool
  xs_caller :: 'b

definition exchange_start :: "'b \<Rightarrow> 'b exchange_state" where
  "exchange_start b = \<lparr>xs_chunks = [], xs_bytes = 0, xs_settled = None, xs_destroyed = False, xs_connecting = True,
     xs_writes = [], xs_initiated = False, xs_caller = b\<rparr>"

definition exchange_finish :: "raw_error option \<Rightarrow> 'b exchange_state \<Rightarrow> 'b exchange_state" where
  "exchange_finish e x =
     (if xs_settled x \<noteq> None then x
      else x\<lparr>xs_settled := Some (case e of Some err \<Rightarrow> Inl err | None \<Rightarrow> Inr (concat (xs_chunks x)))\<rparr>)"

text \<open>The handler of the connection: the caller's \<^verbatim>\<open>begin\<close> may refuse by an error.\<close>

definition exchange_write :: "('b \<Rightarrow> raw_error option \<times> 'b) \<Rightarrow> buffer \<Rightarrow> bool \<Rightarrow> 'b exchange_state \<Rightarrow> 'b exchange_state" where
  "exchange_write begin_pair wire aborted x =
     (if aborted \<or> xs_destroyed x
      then exchange_finish (Some (ErrorValue ''Error'' ''RAW_HTTP1_ABORTED'')) (x\<lparr>xs_destroyed := True\<rparr>)
      else case begin_pair (xs_caller x) of
        (Some e, b) \<Rightarrow> exchange_finish (Some e) (x\<lparr>xs_destroyed := True, xs_caller := b\<rparr>)
      | (None, b) \<Rightarrow> x\<lparr>xs_writes := xs_writes x @ [wire], xs_initiated := True, xs_caller := b\<rparr>)"

fun exchange_event :: "('b \<Rightarrow> raw_error option \<times> 'b) \<Rightarrow> buffer \<Rightarrow> nat \<Rightarrow> sock_event \<Rightarrow> 'b exchange_state \<Rightarrow> 'b exchange_state" where
  "exchange_event bg wire maxBytes (SockConnected aborted) x =
     (if xs_connecting x then exchange_write bg wire aborted (x\<lparr>xs_connecting := False\<rparr>) else x)"
| "exchange_event bg wire maxBytes (SockData chunk) x =
     (let x1 = x\<lparr>xs_bytes := xs_bytes x + length chunk\<rparr> in
      if xs_bytes x1 > maxBytes
      then (exchange_finish (Some (ErrorValue ''Error'' ''RAW_HTTP1_RESPONSE_LIMIT'')) x1)\<lparr>xs_destroyed := True\<rparr>
      else x1\<lparr>xs_chunks := xs_chunks x1 @ [chunk]\<rparr>)"
| "exchange_event bg wire maxBytes SockEnd x = exchange_finish None x"
| "exchange_event bg wire maxBytes SockClose x = exchange_finish None (x\<lparr>xs_destroyed := True\<rparr>)"
| "exchange_event bg wire maxBytes (SockError e) x = exchange_finish (Some e) (x\<lparr>xs_destroyed := True\<rparr>)"
| "exchange_event bg wire maxBytes SockTimeout x =
     exchange_finish (Some (ErrorValue ''Error'' ''RAW_HTTP1_TIMEOUT'')) (x\<lparr>xs_destroyed := True\<rparr>)"
| "exchange_event bg wire maxBytes SockAbort x =
     (if xs_settled x \<noteq> None then x
      else exchange_finish (Some (ErrorValue ''Error'' ''RAW_HTTP1_ABORTED'')) (x\<lparr>xs_destroyed := True\<rparr>))"

definition exchange :: "('b \<Rightarrow> raw_error option \<times> 'b) \<Rightarrow> buffer \<Rightarrow> nat \<Rightarrow> sock_event list \<Rightarrow> 'b \<Rightarrow> 'b exchange_state" where
  "exchange bg wire maxBytes events b = fold (exchange_event bg wire maxBytes) events (exchange_start b)"

section \<open>Sending\<close>

text \<open>What the environment does to a call: whether the signal has fired at each point where the code looks, and the events.\<close>

record raw_env =
  re_abortedBefore :: bool
  re_dns :: "dns_event list"
  re_abortedResolved :: bool
  re_events :: "sock_event list"
  re_abortedAfter :: bool

datatype raw_result = RawHttpThrew raw_error | RawHttpReturned raw_response

definition raw_error_text :: "string \<Rightarrow> string" where
  "raw_error_text m =
     (if m = ''authorization-budget-exhausted'' then m
      else if starts_with m ''RAW_HTTP1_'' \<and> 10 < length m \<and> list_all (\<lambda>c. c \<in> set ''ABCDEFGHIJKLMNOPQRSTUVWXYZ_'') (drop 10 m) then m
      else ''RAW_HTTP1_OPERATION_DENIED'')"

definition raw_failed :: "raw_env \<Rightarrow> bool \<Rightarrow> raw_error \<Rightarrow> raw_result" where
  "raw_failed env initiated e =
     (case (re_abortedAfter env, e) of
        (False, ErrorValue name message) \<Rightarrow>
          RawHttpReturned \<lparr>rh_statusCodes = [], rh_body = [], rh_transmittedRequests = (if initiated then 2 else 0), rh_markerObserved = False,
                       rh_error = Some (name, raw_error_text message)\<rparr>
      | _ \<Rightarrow> RawHttpThrew ScanCancelledError)"

definition raw_answered :: "raw_http_request \<Rightarrow> bool \<Rightarrow> buffer \<Rightarrow> raw_response" where
  "raw_answered req initiated b =
     (case parseResponses b (ra_maxResponseBytes req) of (statusCodes, body) \<Rightarrow>
        \<lparr>rh_statusCodes = statusCodes, rh_body = body, rh_transmittedRequests = (if initiated then 2 else 0),
         rh_markerObserved = (case ra_marker req of None \<Rightarrow> False | Some m \<Rightarrow> m \<noteq> [] \<and> buffer_indexOf body (utf8_bytes m) 0 \<noteq> None),
         rh_error = None\<rparr>)"

text \<open>
  \<open>None\<close> is a promise that the listed events do not settle. The result comes with what was written to the socket, where it
  connected to, and the state of the caller.
\<close>

definition sendRawHttp1 ::
  "url_runtime \<Rightarrow> ('b \<Rightarrow> raw_error option \<times> 'b) \<Rightarrow> raw_http_request \<Rightarrow> raw_env \<Rightarrow> 'b
   \<Rightarrow> (raw_result \<times> (string \<times> nat) option \<times> buffer list \<times> 'b) option" where
  "sendRawHttp1 rt bg req env b =
     (case Option.bind (rt_newURL rt (ra_url req)) (\<lambda>parsed. Option.bind (rt_newURL rt (url_origin parsed)) (\<lambda>base.
             map_option (\<lambda>sentinel. (parsed, sentinel)) (ur_resolve rt (ra_sentinelPath req) base))) of
        None \<Rightarrow> Some (RawHttpThrew (ErrorValue ''TypeError'' ''Invalid URL''), None, [], b)
      | Some (parsed, sentinel) \<Rightarrow>
        (case selectAddress rt req (u_hostname parsed) (re_abortedBefore env) (re_dns env) of
           Inl e \<Rightarrow> Some (raw_failed env False e, None, [], b)
         | Inr address \<Rightarrow>
             if re_abortedResolved env then Some (raw_failed env False (ErrorValue ''Error'' ''RAW_HTTP1_ABORTED''), None, [], b)
             else let x = exchange bg (buildWireRequest req parsed sentinel) (ra_maxResponseBytes req) (re_events env) b in
               (case xs_settled x of
                  None \<Rightarrow> None
                | Some (Inl e) \<Rightarrow> Some (raw_failed env (xs_initiated x) e, Some address, xs_writes x, xs_caller x)
                | Some (Inr bytes) \<Rightarrow>
                    Some (RawHttpReturned (raw_answered req (xs_initiated x) bytes), Some address, xs_writes x, xs_caller x))))"

end
