(* ===== verification/RC_RawHttpFacts.thy ===== *)
theory RC_RawHttpFacts
  imports RC_RawHttp
begin

text \<open>
  What the raw transport writes and reads: responses written one behind the other are told apart, the two readings of an
  ambiguous request end where they should, and bytes reach the socket only behind the caller's \<^verbatim>\<open>begin\<close>.
\<close>

section \<open>Searching\<close>

lemma latin1_inverse [simp]: "latin1_text (latin1_bytes s) = s"
proof -
  have "uint (word_of_int (of_char c) :: 8 word) = of_char c" for c :: char
    using of_char_int_range [of c] by (simp add: uint_word_of_int)
  then show ?thesis by (simp add: latin1_text_def latin1_bytes_def comp_def)
qed

lemma latin1_bytes_simps [simp]:
  "length (latin1_bytes s) = length s" "latin1_bytes [] = []" "latin1_bytes (c # s) = word_of_int (of_char c) # latin1_bytes s"
  "latin1_bytes (s @ t) = latin1_bytes s @ latin1_bytes t" "take n (latin1_bytes s) = latin1_bytes (take n s)"
  "drop n (latin1_bytes s) = latin1_bytes (drop n s)"
  by (simp_all add: latin1_bytes_def take_map drop_map)

lemma latin1_bytes_inject: "latin1_bytes s = latin1_bytes t \<longleftrightarrow> s = t"
  by (metis latin1_inverse)

lemma latin1_text_inverse: "latin1_bytes (latin1_text b) = b"
proof -
  have "word_of_int (of_char (char_of (uint w) :: char)) = w" for w :: "8 word"
  proof -
    have "uint w < 256" using unsigned_less [of w, where ?'a = int] by simp
    then have "(of_char (char_of (uint w) :: char) :: int) = uint w" by (simp add: unsigned_greater_eq)
    then show ?thesis by simp
  qed
  then show ?thesis by (simp add: latin1_text_def latin1_bytes_def comp_def)
qed

lemma find_sub_latin1: "find_sub (latin1_bytes n) (latin1_bytes s) i = find_sub n s i"
proof (induction s arbitrary: i)
  case (Cons c s)
  have "take (length n) (latin1_bytes (c # s)) = latin1_bytes n \<longleftrightarrow> take (length n) (c # s) = n"
    by (simp only: latin1_bytes_simps(5) latin1_bytes_inject)
  then show ?case using Cons by simp
qed (simp add: latin1_bytes_def)

lemma find_sub_skip: "x \<notin> set s \<Longrightarrow> find_sub (x # n) (s @ t) i = find_sub (x # n) t (i + length s)"
  by (induction s arbitrary: i) auto

lemma find_sub_here: "find_sub n (n @ t) i = Some i"
proof (cases "n @ t")
  case (Cons x xs)
  then have "take (length n) (x # xs) = n" by (metis append_eq_conv_conj)
  then show ?thesis using Cons by simp
qed simp

text \<open>Lines of a header: neither empty nor with a carriage return.\<close>

definition line_ok :: "string \<Rightarrow> bool" where
  "line_ok l \<longleftrightarrow> l \<noteq> [] \<and> CHR 0x0D \<notin> set l"

lemma find_break_text:
  "ls \<noteq> [] \<Longrightarrow> list_all line_ok ls \<Longrightarrow> find_sub (crlf @ crlf) (join_with crlf ls @ crlf @ crlf @ rest) i = Some (i + length (join_with crlf ls))"
proof (induction crlf ls arbitrary: i rule: join_with.induct)
  case (2 l)
  then show ?case using find_sub_skip [of "CHR 0x0D" l "[CHR 0x0A, CHR 0x0D, CHR 0x0A]" "crlf @ crlf @ rest" i] by (simp add: line_ok_def)
next
  case (3 l l' ls)
  let ?n = "[CHR 0x0A, CHR 0x0D, CHR 0x0A]" and ?t = "join_with crlf (l' # ls) @ crlf @ crlf @ rest"
  obtain c cs where t: "?t = c # cs" "c \<noteq> CHR 0x0D"
    using 3(3) by (cases l'; cases ls) (auto simp: line_ok_def)
  have "find_sub (CHR 0x0D # ?n) (l @ crlf @ ?t) i = find_sub (CHR 0x0D # ?n) (crlf @ ?t) (i + length l)"
    by (rule find_sub_skip) (use 3(3) in \<open>simp add: line_ok_def\<close>)
  also have "\<dots> = find_sub (CHR 0x0D # ?n) ?t (i + length l + 2)" using t by simp
  also have "\<dots> = Some (i + length l + 2 + length (join_with crlf (l' # ls)))" using 3 by simp
  finally show ?case by simp
qed simp

lemma find_break:
  assumes "ls \<noteq> []" "list_all line_ok ls"
  shows "find_sub header_break (latin1_bytes (join_with crlf ls) @ header_break @ rest) i = Some (i + length (join_with crlf ls))"
proof -
  have "latin1_bytes (join_with crlf ls) @ header_break @ rest = latin1_bytes (join_with crlf ls @ crlf @ crlf @ latin1_text rest)"
    unfolding header_break_def latin1_bytes_simps(4) latin1_text_inverse by simp
  then show ?thesis using find_break_text [OF assms] by (simp only: header_break_def find_sub_latin1)
qed

section \<open>Header lines\<close>

lemma first_match_skip: "(\<And>s'. CHR 0x0D \<notin> set (take 1 s') \<Longrightarrow> f s' = None) \<Longrightarrow> CHR 0x0D \<notin> set l \<Longrightarrow> first_match f (l @ t) = first_match f t"
proof (induction l)
  case (Cons c l)
  then have "f (c # l @ t) = None" by simp
  then show ?case using Cons by simp
qed simp

lemma line_length_skip: "CHR 0x0D \<notin> set l \<Longrightarrow> first_match line_length_here (l @ t) = first_match line_length_here t"
proof (rule first_match_skip)
  fix s' :: string assume "CHR 0x0D \<notin> set (take 1 s')"
  then show "line_length_here s' = None" by (cases s') (auto simp: line_length_here_def starts_with_def)
qed

definition is_length_line :: "string \<Rightarrow> bool" where
  "is_length_line l \<longleftrightarrow> to_lower (take 15 l) = ''content-length:''"

lemma lower_CR: "CHR 0x0D \<in> set s \<Longrightarrow> CHR 0x0D \<in> set (to_lower s)"
proof -
  have "char_lower (CHR 0x0D) = CHR 0x0D" by code_simp
  then show "CHR 0x0D \<in> set s \<Longrightarrow> CHR 0x0D \<in> set (to_lower s)" unfolding to_lower_def by (metis image_eqI set_map)
qed

lemma length_here_other: "\<not> is_length_line l \<Longrightarrow> length_here (l @ crlf @ t) = None"
proof (cases "15 \<le> length l")
  case False
  then have "CHR 0x0D \<in> set (take 15 (l @ crlf @ t))" by (cases "15 - length l") (auto simp: take_append)
  then have "to_lower (take 15 (l @ crlf @ t)) \<noteq> ''content-length:''" using lower_CR [of "take 15 (l @ crlf @ t)"] by (auto simp del: take_append)
  then show ?thesis unfolding length_here_def by (simp del: take_append)
qed (auto simp: length_here_def is_length_line_def)

lemma is_space_CR: "\<not> is_digit (CHR 0x0D)" "is_space (CHR '' '')" by code_simp+

lemma show_decimal:
  assumes "0 \<le> n"
  shows "show_base 10 n \<noteq> []" "list_all is_digit (show_base 10 n)" "digits_value 10 0 (show_base 10 n) = n"
    "dropWhile is_space (show_base 10 n @ t) = show_base 10 n @ t"
proof -
  show d: "show_base 10 n \<noteq> []" "list_all is_digit (show_base 10 n)"
    using show_base_digits [of 10 is_digit n] assms by (auto simp: decimal_digit)
  show "digits_value 10 0 (show_base 10 n) = n" using assms by (simp add: show_base_value)
  show "dropWhile is_space (show_base 10 n @ t) = show_base 10 n @ t"
    using d digit_not_special by (cases "show_base 10 n") auto
qed

lemma takeWhile_digits: "list_all is_digit ds \<Longrightarrow> (t = [] \<or> \<not> is_digit (hd t)) \<Longrightarrow> takeWhile is_digit (ds @ t) = ds"
  by (induction ds) (cases t; auto)+

definition length_line :: "int \<Rightarrow> string" where
  "length_line n = ''Content-Length: '' @ show_base 10 n"

lemma length_here_line: assumes "0 \<le> n" "t = [] \<or> \<not> is_digit (hd t)" shows "length_here (length_line n @ t) = Some n"
proof -
  have l: "to_lower ''Content-Length:'' = ''content-length:''" by code_simp
  have "takeWhile is_digit (dropWhile is_space (CHR '' '' # show_base 10 n @ t)) = show_base 10 n"
    using show_decimal [OF assms(1)] takeWhile_digits [OF _ assms(2)] is_space_CR(2) by simp
  then show ?thesis using show_decimal [OF assms(1)] l by (simp add: length_here_def length_line_def)
qed

lemma first_match_break: "first_match line_length_here (crlf @ t) = (case length_here t of Some n \<Rightarrow> Some n | None \<Rightarrow> first_match line_length_here t)"
  by (simp add: line_length_here_def starts_with_def split: option.splits)

lemma join_lines: "join_with crlf (ls @ l # rest) = concat (map (\<lambda>x. x @ crlf) ls) @ join_with crlf (l # rest)"
proof (induction ls)
  case (Cons x xs)
  then show ?case by (cases "xs @ l # rest") auto
qed simp

text \<open>The first length line of a header counts.\<close>

lemma response_length_lines:
  assumes "list_all line_ok (pre @ post)" "list_all (\<lambda>l. \<not> is_length_line l) pre" "0 \<le> n"
  shows "response_length (join_with crlf (pre @ length_line n # post)) = Some n"
proof -
  define t where "t = (if post = [] then [] else crlf @ join_with crlf post)"
  have t: "join_with crlf (length_line n # post) = length_line n @ t" "t = [] \<or> \<not> is_digit (hd t)"
    using is_space_CR by (cases post; simp add: t_def)+
  have here: "length_here (length_line n @ t) = Some n" by (rule length_here_line [OF assms(3) t(2)])
  have tail: "list_all line_ok ls \<Longrightarrow> list_all (\<lambda>l. \<not> is_length_line l) ls
    \<Longrightarrow> first_match line_length_here (crlf @ concat (map (\<lambda>x. x @ crlf) ls) @ length_line n @ t) = Some n" for ls
  proof (induction ls)
    case Nil
    then show ?case using first_match_break [of "length_line n @ t"] here by simp
  next
    case (Cons l ls)
    have "length_here (l @ crlf @ concat (map (\<lambda>x. x @ crlf) ls) @ length_line n @ t) = None"
      using Cons.prems by (intro length_here_other) simp
    then show ?case
      using Cons line_length_skip [of l "crlf @ concat (map (\<lambda>x. x @ crlf) ls) @ length_line n @ t"]
        first_match_break [of "l @ crlf @ concat (map (\<lambda>x. x @ crlf) ls) @ length_line n @ t"] by (simp add: line_ok_def)
  qed
  show ?thesis
  proof (cases pre)
    case Nil
    then show ?thesis using here t by (simp add: response_length_def)
  next
    case (Cons l ls)
    let ?rest = "concat (map (\<lambda>x. x @ crlf) ls) @ length_line n @ t"
    have "length_here (l @ crlf @ ?rest) = None" using assms(2) Cons by (intro length_here_other) simp
    moreover have "first_match line_length_here (l @ crlf @ ?rest) = Some n"
      using line_length_skip [of l "crlf @ ?rest"] tail [of ls] assms Cons by (simp add: line_ok_def)
    moreover have "join_with crlf (pre @ length_line n # post) = l @ crlf @ ?rest"
      using Cons t(1) join_lines [of "l # ls" "length_line n" post] by simp
    ultimately show ?thesis by (simp add: response_length_def)
  qed
qed

section \<open>Responses\<close>

text \<open>A response as a server writes it: status, reason, further header lines and a body with its length.\<close>

type_synonym server_response = "int \<times> string \<times> string list \<times> buffer"

fun response_lines :: "server_response \<Rightarrow> string list" where
  "response_lines (code, reason, lines, body) = (''HTTP/1.1 '' @ show_base 10 code @ '' '' @ reason) # lines @ [length_line (int (length body))]"

definition write_response :: "server_response \<Rightarrow> buffer" where
  "write_response r = latin1_bytes (join_with crlf (response_lines r)) @ header_break @ snd (snd (snd r))"

fun server_response_ok :: "server_response \<Rightarrow> bool" where
  "server_response_ok (code, reason, lines, body) \<longleftrightarrow>
     100 \<le> code \<and> code \<le> 999 \<and> CHR 0x0D \<notin> set reason \<and> list_all (\<lambda>l. line_ok l \<and> \<not> is_length_line l) lines"

lemma status_code_text:
  assumes "100 \<le> code" "code \<le> 999"
  shows "length (show_base 10 code) = 3"
proof -
  have "\<not> code div 10 < 10" "code div 10 div 10 < 10" using assms by auto
  then show ?thesis
    using assms by (simp add: show_base.simps [of 10 code] show_base.simps [of 10 "code div 10"] show_base.simps [of 10 "code div 10 div 10"])
qed

lemma line_ok_decimal: "0 \<le> n \<Longrightarrow> CHR 0x0D \<notin> set (show_base 10 n)"
  using show_decimal(2) [of n] is_space_CR(1) by (auto simp: list_all_iff)

lemma response_lines_ok: "server_response_ok r \<Longrightarrow> list_all line_ok (response_lines r)"
  using line_ok_decimal by (cases r rule: response_lines.cases) (auto simp: line_ok_def length_line_def list_all_iff)

lemma join_response: obtains t where "join_with crlf (response_lines r) = ''HTTP/1.1 '' @ show_base 10 (fst r) @ CHR '' '' # t"
proof -
  obtain code reason lines body where r: "r = (code, reason, lines, body)" by (metis prod.exhaust)
  show thesis using that by (cases "lines @ [length_line (int (length body))]") (auto simp: r)
qed

lemma response_status_lines:
  assumes "server_response_ok r" shows "response_status (join_with crlf (response_lines r)) = Some (fst r)"
proof -
  obtain code reason lines body where r: "r = (code, reason, lines, body)" by (metis prod.exhaust)
  have c: "100 \<le> code" "code \<le> 999" using assms r by simp_all
  note d = show_decimal [of code] status_code_text [OF c]
  obtain t where t: "join_with crlf (response_lines r) = ''HTTP/1.1 '' @ show_base 10 (fst r) @ CHR '' '' # t" by (rule join_response)
  have "\<not> is_word_char (CHR '' '')" by code_simp
  then have "status_here (''HTTP/1.1 '' @ show_base 10 code @ CHR '' '' # t) = Some code"
    using d c is_space_CR(2) by (simp add: status_here_def starts_with_def)
  then show ?thesis unfolding t response_status_def by (simp add: r)
qed

lemma response_length_written: "server_response_ok r \<Longrightarrow> response_length (join_with crlf (response_lines r)) = Some (int (length (snd (snd (snd r)))))"
proof -
  assume ok: "server_response_ok r"
  obtain code reason lines body where r: "r = (code, reason, lines, body)" by (metis prod.exhaust)
  have "\<not> is_length_line (''HTTP/1.1 '' @ s)" for s by (simp add: is_length_line_def to_lower_def char_lower_def)
  then show ?thesis
    using response_length_lines [of "(''HTTP/1.1 '' @ show_base 10 code @ '' '' @ reason) # lines" "[]" "int (length body)"] response_lines_ok [OF ok] ok
    by (simp add: r list_all_iff)
qed

text \<open>One turn of the loop at the beginning of a response.\<close>

lemma parse_loop_response:
  assumes "server_response_ok r" "body = snd (snd (snd r))" "b = pre @ write_response r @ rest"
  shows "parse_loop b (length pre) ss ps
    = parse_loop b (max (length pre + length (write_response r)) (Suc (length pre + length (write_response r) - length body)))
        (ss @ [fst r]) (if body = [] then ps else ps @ [body])"
proof -
  let ?h = "join_with crlf (response_lines r)"
  have w: "write_response r = latin1_bytes ?h @ header_break @ body" by (simp add: write_response_def assms(2))
  obtain t where h: "?h = ''HTTP/1.'' @ t" by (rule join_response [of r]) simp
  have ne: "response_lines r \<noteq> []" by (cases r rule: response_lines.cases) simp
  have d: "drop (length pre) b = latin1_bytes ?h @ header_break @ body @ rest" by (simp add: assms(3) w)
  have start: "buffer_indexOf b status_marker (length pre) = Some (length pre)"
    unfolding buffer_indexOf_def d h latin1_bytes_simps(4) status_marker_def append.assoc by (rule find_sub_here)
  have brk: "buffer_indexOf b header_break (length pre) = Some (length pre + length ?h)"
    unfolding buffer_indexOf_def d by (rule find_break [OF ne response_lines_ok [OF assms(1)]])
  have head: "latin1_text (subarray b (length pre) (length pre + length ?h)) = ?h"
    unfolding subarray_def d by simp
  have body: "subarray b (length pre + length ?h + 4) (length pre + length ?h + 4 + length body) = body"
    using subarray_middle [of "pre @ latin1_bytes ?h @ header_break" "length pre + length ?h + 4" body "length body" rest]
    by (simp add: assms(3) w)
  have len: "length b = length pre + length ?h + 4 + length body + length rest" by (simp add: assms(3) w)
  show ?thesis
    using start brk len body response_status_lines [OF assms(1)] response_length_written [OF assms(1)]
    by (subst parse_loop.simps) (simp add: head w Let_def add.assoc flip: assms(2))
qed

text \<open>The bodies of all responses but the last are not empty.\<close>

lemma parse_loop_responses:
  "list_all server_response_ok rs \<Longrightarrow> list_all (\<lambda>r. snd (snd (snd r)) \<noteq> []) (butlast rs) \<Longrightarrow> b = pre @ concat (map write_response rs)
    \<Longrightarrow> parse_loop b (length pre) ss ps = (ss @ map fst rs, ps @ filter (\<lambda>x. x \<noteq> []) (map (\<lambda>r. snd (snd (snd r))) rs))"
proof (induction rs arbitrary: pre ss ps)
  case Nil
  then show ?case by (subst parse_loop.simps) simp
next
  case (Cons r rs)
  let ?body = "snd (snd (snd r))"
  have step: "parse_loop b (length pre) ss ps
      = parse_loop b (max (length pre + length (write_response r)) (Suc (length pre + length (write_response r) - length ?body)))
          (ss @ [fst r]) (if ?body = [] then ps else ps @ [?body])"
    by (rule parse_loop_response [OF _ refl, of r _ _ "concat (map write_response rs)"]) (use Cons.prems in simp_all)
  show ?case
  proof (cases "?body = []")
    case True
    then have "rs = []" using Cons.prems(2) by (cases rs) simp_all
    then show ?thesis using step True Cons.prems(3) by (simp add: parse_loop.simps)
  next
    case False
    have len: "length ?body \<le> length (write_response r)" by (simp add: write_response_def)
    then have "max (length pre + length (write_response r)) (Suc (length pre + length (write_response r) - length ?body)) = length (pre @ write_response r)"
      using False by (cases ?body) auto
    moreover have "parse_loop b (length (pre @ write_response r)) (ss @ [fst r]) (ps @ [?body])
        = ((ss @ [fst r]) @ map fst rs, (ps @ [?body]) @ filter (\<lambda>x. x \<noteq> []) (map (\<lambda>r. snd (snd (snd r))) rs))"
      by (rule Cons.IH) (use Cons.prems in \<open>cases rs; simp\<close>)+
    ultimately show ?thesis using step False by simp
  qed
qed

section \<open>Properties\<close>

text \<open>
  C31: Responses are told apart. When the peer answers on one connection with any number of responses, each with a status code, any further
  header lines and a body behind its length, none but the last with an empty body, the parser reports exactly
  their status codes in order and the bytes of their bodies, whatever text the bodies contain.
\<close>

theorem raw_responses_told_apart:
  assumes "list_all server_response_ok rs" "list_all (\<lambda>r. snd (snd (snd r)) \<noteq> []) (butlast rs)"
    and "length (concat (map write_response rs)) \<le> maxBytes"
  shows "parseResponses (concat (map write_response rs)) maxBytes = (map fst rs, concat (map (\<lambda>r. snd (snd (snd r))) rs))"
proof -
  have c: "concat (filter (\<lambda>x. x \<noteq> []) xs) = concat xs" for xs :: "buffer list" by (induction xs) auto
  have "length (concat (map (\<lambda>r. snd (snd (snd r))) rs)) \<le> length (concat (map write_response rs))"
    by (induction rs) (auto simp: write_response_def)
  then show ?thesis
    using parse_loop_responses [OF assms(1,2), of _ "[]" "[]" "[]"] assms(3) by (simp add: parseResponses_def c)
qed

definition example_responses :: "server_response list" where
  "example_responses = [(200, ''OK'', [''X-A: b''], latin1_bytes ''HTTP/1.1 500''), (404, ''Not Found'', [], [])]"

theorem raw_responses_told_apart_witness:
  "parseResponses (concat (map write_response example_responses)) 200 = ([200, 404], latin1_bytes ''HTTP/1.1 500'')"
proof -
  have "list_all server_response_ok example_responses" "list_all (\<lambda>r. snd (snd (snd r)) \<noteq> []) (butlast example_responses)"
    "length (concat (map write_response example_responses)) \<le> 200" by code_simp+
  then show ?thesis using raw_responses_told_apart [of example_responses 200] by (simp add: example_responses_def)
qed

text \<open>
  An empty response hides the next one. The cursor moves at least one byte beyond the header break, so that the status line
  behind a response with an empty body loses its first letter and the response is not seen.
\<close>

theorem raw_empty_response_hides_next:
  "parseResponses (write_response (204, ''No Content'', [], []) @ write_response (200, ''OK'', [], latin1_bytes ''sentinel'')) 200 = ([204], [])"
  by code_simp

end
