(* ===== verification/RC_RawWire.thy ===== *)
theory RC_RawWire
  imports RC_RawHttpFacts
begin

text \<open>
  What the peers of the raw transport make of its bytes: reference readers of a request by its length field and by its chunks, and
  where both stop in a request that \<^verbatim>\<open>buildWireRequest\<close> wrote.
\<close>

section \<open>The two readings of a request\<close>

text \<open>A reader of a request by its header: what is before the first empty line, and what follows.\<close>

definition split_head :: "buffer \<Rightarrow> (string \<times> buffer) option" where
  "split_head b = (case buffer_indexOf b header_break 0 of None \<Rightarrow> None | Some i \<Rightarrow> Some (latin1_text (take i b), drop (i + 4) b))"

text \<open>A reader of a chunked body (RFC 9112, 7.1, without extensions and trailers): the data, and what follows the last chunk.\<close>

function read_chunked :: "buffer \<Rightarrow> (buffer \<times> buffer) option" where
  "read_chunked b =
     (case find_sub (latin1_bytes crlf) b 0 of
        None \<Rightarrow> None
      | Some i \<Rightarrow>
          let ds = latin1_text (take i b); n = nat (digits_value 16 0 ds); t = drop (i + 2) b in
          if ds = [] \<or> \<not> list_all is_hex ds then None
          else if n = 0 then (if take 2 t = latin1_bytes crlf then Some ([], drop 2 t) else None)
          else if take 2 (drop n t) = latin1_bytes crlf
          then map_option (\<lambda>(x, r). (take n t @ x, r)) (read_chunked (drop (n + 2) t)) else None)"
  by pat_completeness auto

termination read_chunked
proof (relation "measure length")
  fix b i ds n t
  assume *: "find_sub (latin1_bytes crlf) b 0 = Some i"  "t = drop (i + 2) b" 
  have "i + 2 \<le> length b" using find_sub_range [OF *(1)] by simp
  then show "(drop (n + 2) t, b) \<in> measure length" using *(2) by simp
qed simp

declare read_chunked.simps [simp del]

lemma find_crlf: assumes "CHR 0x0D \<notin> set s" shows "find_sub (latin1_bytes crlf) (latin1_bytes s @ latin1_bytes crlf @ t) 0 = Some (length s)"
proof -
  have "latin1_bytes s @ latin1_bytes crlf @ t = latin1_bytes (s @ crlf @ latin1_text t)" by (simp add: latin1_text_inverse)
  moreover have "find_sub crlf (s @ crlf @ latin1_text t) 0 = Some (length s)"
    using find_sub_skip [OF assms, of "[CHR 0x0A]" "crlf @ latin1_text t" 0] find_sub_here [of crlf "latin1_text t" "length s"] by simp
  ultimately show ?thesis by (simp only: find_sub_latin1)
qed

lemma utf8_latin1: "list_all is_ascii s \<Longrightarrow> utf8_bytes s = latin1_bytes s"
  by (induction s) (simp_all add: utf8_ascii)

lemma hex_ascii: "is_hex c \<Longrightarrow> is_ascii c \<and> c \<noteq> CHR 0x0D"
  by (auto simp: is_hex_def is_ascii_def)

lemma show_hex:
  assumes "0 \<le> n" shows "show_base 16 n \<noteq> []" "list_all is_hex (show_base 16 n)" "digits_value 16 0 (show_base 16 n) = n"
    "CHR 0x0D \<notin> set (show_base 16 n)" "utf8_bytes (show_base 16 n) = latin1_bytes (show_base 16 n)"
proof -
  show h: "show_base 16 n \<noteq> []" "list_all is_hex (show_base 16 n)" using show_base_digits [of 16 is_hex n] assms by (auto simp: decimal_digit)
  show "digits_value 16 0 (show_base 16 n) = n" using assms by (simp add: show_base_value)
  show "CHR 0x0D \<notin> set (show_base 16 n)" using h(2) hex_ascii by (auto simp: list_all_iff)
  show "utf8_bytes (show_base 16 n) = latin1_bytes (show_base 16 n)" using h(2) hex_ascii by (intro utf8_latin1) (auto simp: list_all_iff)
qed

lemma crlf_bytes: "utf8_bytes crlf = latin1_bytes crlf"
  by (rule utf8_latin1) code_simp

lemma read_last_chunk: "read_chunked (latin1_bytes (''0'' @ crlf @ crlf) @ t) = Some ([], t)"
proof -
  have "find_sub (latin1_bytes crlf) (latin1_bytes ''0'' @ latin1_bytes crlf @ latin1_bytes crlf @ t) 0 = Some 1"
    using find_crlf [of "''0''" "latin1_bytes crlf @ t"] by simp
  moreover have "is_hex (CHR ''0'')" "digit_value (CHR ''0'') = 0" "char_of (48 :: int) = CHR ''0''" by code_simp+
  ultimately show ?thesis by (subst read_chunked.simps) (simp add: latin1_text_def Let_def)
qed

lemma read_chunked_body: "read_chunked (utf8_bytes (chunked_body body) @ t) = Some (utf8_bytes body, t)"
proof (cases "utf8_bytes body = []")
  case True
  have "utf8_bytes (''0'' @ crlf @ crlf) = latin1_bytes (''0'' @ crlf @ crlf)" by (rule utf8_latin1) code_simp
  then show ?thesis using True read_last_chunk by (simp add: chunked_body_def)
next
  case False
  let ?n = "int (length (utf8_bytes body))"
  let ?last = "latin1_bytes (''0'' @ crlf @ crlf) @ t"
  note h = show_hex [of ?n]
  have last: "utf8_bytes (''0'' @ crlf @ crlf) = latin1_bytes (''0'' @ crlf @ crlf)" by (rule utf8_latin1) code_simp
  have b: "utf8_bytes (chunked_body body) @ t = latin1_bytes (show_base 16 ?n) @ latin1_bytes crlf @ utf8_bytes body @ latin1_bytes crlf @ ?last"
    using False h(5) last crlf_bytes by (simp add: chunked_body_def)
  have i: "find_sub (latin1_bytes crlf) (utf8_bytes (chunked_body body) @ t) 0 = Some (length (show_base 16 ?n))"
    unfolding b by (rule find_crlf [OF h(4)]) simp
  have ds: "latin1_text (take (length (show_base 16 ?n)) (utf8_bytes (chunked_body body) @ t)) = show_base 16 ?n"
    and rest: "drop (length (show_base 16 ?n) + 2) (utf8_bytes (chunked_body body) @ t) = utf8_bytes body @ latin1_bytes crlf @ ?last"
    unfolding b by simp_all
  show ?thesis
    using False h(1-3) read_last_chunk [of t]
    by (subst read_chunked.simps, unfold i, unfold option.case Let_def ds rest) simp
qed

definition custom_lines :: "raw_http_request \<Rightarrow> string list" where
  "custom_lines req = map (\<lambda>(name, value). name @ '': '' @ value) (filter (\<lambda>(name, value). to_lower name \<notin> set transport_framing) (ra_headers req))"

definition lines_before :: "raw_http_request \<Rightarrow> url \<Rightarrow> string list" where
  "lines_before req parsed =
     [''POST '' @ path_or_root parsed @ '' HTTP/1.1'', ''Host: '' @ url_host parsed, ''User-Agent: '' @ ra_userAgent req, ''Connection: close'']
     @ (if ra_variant req = CL_TE then [] else [''Transfer-Encoding: chunked''])"

definition lines_after :: "raw_http_request \<Rightarrow> string list" where
  "lines_after req = (if ra_variant req = CL_TE then [''Transfer-Encoding: chunked''] else []) @ custom_lines req"

lemma join_nested: "ys \<noteq> [] \<Longrightarrow> join_with sep (xs @ [join_with sep ys]) = join_with sep (xs @ ys)"
proof (induction xs)
  case (Cons x xs)
  then show ?case by (cases "xs @ [join_with sep ys]"; cases "xs @ ys") auto
qed simp

lemma join_Nil_iff: "join_with crlf ls = [] \<longleftrightarrow> ls = [] \<or> ls = [[]]"
proof (cases ls)
  case (Cons l ls')
  then show ?thesis by (cases ls') auto
qed simp

lemma wire_lines_flat:
  "join_with crlf (wire_lines req parsed)
    = join_with crlf (lines_before req parsed @ length_line (int (ambiguous_length req)) # lines_after req)"
proof -
  let ?n = "length_line (int (ambiguous_length req))"
  define first where "first = [''POST '' @ path_or_root parsed @ '' HTTP/1.1'', ''Host: '' @ url_host parsed, ''User-Agent: '' @ ra_userAgent req, ''Connection: close'']"
  let ?te = "''Transfer-Encoding: chunked''"
  define fr where "fr = (if ra_variant req = CL_TE then [?n, ?te] else [?te, ?n])"
  have fr: "join_with crlf fr \<noteq> []" "fr \<noteq> []" by (auto simp: fr_def length_line_def)
  have "[] \<notin> set (custom_lines req)" by (auto simp: custom_lines_def)
  then have c: "join_with crlf (custom_lines req) = [] \<longleftrightarrow> custom_lines req = []" by (auto simp: join_Nil_iff)
  have w: "wire_lines req parsed = first @ [join_with crlf fr] @ (if custom_lines req = [] then [] else [join_with crlf (custom_lines req)])"
    using c fr by (auto simp: wire_lines_def Let_def fr_def custom_lines_def length_line_def first_def)
  have mid: "join_with crlf (xs @ [join_with crlf fr] @ ys) = join_with crlf (xs @ fr @ ys)" for xs ys
  proof (induction xs)
    case Nil
    then show ?case by (cases ys) (auto simp: fr_def)
  next
    case (Cons x xs)
    then show ?case by (cases "xs @ [join_with crlf fr] @ ys"; cases "xs @ fr @ ys") (auto simp: fr(2))
  qed
  have "join_with crlf (wire_lines req parsed) = join_with crlf (first @ [join_with crlf fr] @ custom_lines req)"
    unfolding w using join_nested [of "custom_lines req" crlf "first @ [join_with crlf fr]"] by simp
  also have "\<dots> = join_with crlf (first @ fr @ custom_lines req)" by (rule mid)
  also have "first @ fr @ custom_lines req = lines_before req parsed @ ?n # lines_after req"
    by (simp add: lines_before_def lines_after_def fr_def first_def)
  finally show ?thesis .
qed

text \<open>Text that stays on its line: ASCII without a carriage return.\<close>

definition line_text :: "string \<Rightarrow> bool" where
  "line_text s \<longleftrightarrow> list_all (\<lambda>c. is_ascii c \<and> c \<noteq> CHR 0x0D) s"

definition wire_head_ok :: "raw_http_request \<Rightarrow> url \<Rightarrow> bool" where
  "wire_head_ok req parsed \<longleftrightarrow> line_text (path_or_root parsed) \<and> line_text (url_host parsed) \<and> line_text (ra_userAgent req)
     \<and> list_all (\<lambda>(name, value). line_text name \<and> line_text value) (ra_headers req)"

lemma line_text_simps [simp]: "line_text []" "line_text (c # s) \<longleftrightarrow> is_ascii c \<and> c \<noteq> CHR 0x0D \<and> line_text s" "line_text (s @ t) \<longleftrightarrow> line_text s \<and> line_text t"
  by (simp_all add: line_text_def)

lemma digit_ascii: "is_digit c \<Longrightarrow> is_ascii c \<and> c \<noteq> CHR 0x0D"
  by (auto simp: is_digit_def is_ascii_def)

lemma digit_text: "0 \<le> n \<Longrightarrow> line_text (show_base 10 n)"
  using show_decimal(2) [of n] digit_ascii by (auto simp: line_text_def list_all_iff)

lemma flat_lines_ok:
  assumes "wire_head_ok req parsed" "ls = lines_before req parsed @ length_line (int (ambiguous_length req)) # lines_after req"
  shows "list_all line_text ls" "[] \<notin> set ls"
proof -
  have "list_all line_text (custom_lines req)"
    using assms(1) by (auto simp: custom_lines_def wire_head_ok_def list_all_iff is_ascii_def)
  then show "list_all line_text ls"
    using assms(1) digit_text [of "int (ambiguous_length req)"]
    unfolding assms(2) lines_before_def lines_after_def length_line_def wire_head_ok_def by (simp add: is_ascii_def)
  show "[] \<notin> set ls" unfolding assms(2) lines_before_def lines_after_def by (auto simp: length_line_def custom_lines_def)
qed

lemma lines_before_other: "list_all (\<lambda>l. \<not> is_length_line l) (lines_before req parsed)"
  by (simp add: lines_before_def is_length_line_def to_lower_def char_lower_def)

lemma join_text: "list_all line_text ls \<Longrightarrow> list_all is_ascii (join_with crlf ls)"
  by (induction crlf ls rule: join_with.induct) (auto simp: line_text_def list_all_iff is_ascii_def)

section \<open>Properties\<close>

text \<open>
  Both readings of a raw request end at the sentinel. A reader that decodes the chunks finds the body without carriage returns, line feeds
  and zero bytes, and behind it exactly the sentinel request. A reader that trusts the first length field of the header stops in front of
  the sentinel in the first variant and one byte into it in the second, whatever headers the caller supplied.
\<close>

theorem raw_pair_boundaries:
  assumes "wire_head_ok req parsed"
  shows "\<exists>head payload n. split_head (buildWireRequest req parsed sentinel) = Some (head, payload) \<and> response_length head = Some (int n)
    \<and> read_chunked payload = Some (utf8_bytes (safe_body (ra_body req)), utf8_bytes (smuggled_request req parsed sentinel))
    \<and> drop n payload = drop (if ra_variant req = CL_TE then 0 else 1) (utf8_bytes (smuggled_request req parsed sentinel))"
proof -
  let ?n = "ambiguous_length req" and ?smug = "utf8_bytes (smuggled_request req parsed sentinel)" and ?body = "safe_body (ra_body req)"
  define ls where "ls = lines_before req parsed @ length_line (int ?n) # lines_after req"
  note flat = flat_lines_ok [OF assms ls_def]
  have ls: "ls \<noteq> []" by (simp add: ls_def)
  have lines: "list_all line_ok ls" using flat unfolding line_ok_def line_text_def list_all_iff by blast
  have head: "utf8_bytes (join_with crlf (wire_lines req parsed)) = latin1_bytes (join_with crlf ls)"
    unfolding wire_lines_flat ls_def [symmetric] by (rule utf8_latin1 [OF join_text [OF flat(1)]])
  have wire: "buildWireRequest req parsed sentinel = latin1_bytes (join_with crlf ls) @ header_break @ utf8_bytes (chunked_body ?body) @ ?smug"
    unfolding buildWireRequest_def utf8_bytes_simps(3) head header_break_def crlf_bytes latin1_bytes_simps(4) by simp
  have "buffer_indexOf (buildWireRequest req parsed sentinel) header_break 0 = Some (length (join_with crlf ls))"
    using find_break [OF ls lines, of "utf8_bytes (chunked_body ?body) @ ?smug" 0] by (simp add: buffer_indexOf_def wire)
  then have split: "split_head (buildWireRequest req parsed sentinel) = Some (join_with crlf ls, utf8_bytes (chunked_body ?body) @ ?smug)"
    by (simp add: split_head_def wire)
  have "response_length (join_with crlf ls) = Some (int ?n)"
    using response_length_lines [of "lines_before req parsed" "lines_after req" "int ?n"] lines lines_before_other by (simp add: ls_def)
  moreover have "drop ?n (utf8_bytes (chunked_body ?body) @ ?smug) = drop (if ra_variant req = CL_TE then 0 else 1) ?smug"
    by (cases "ra_variant req") (simp_all add: ambiguous_length_def)
  ultimately show ?thesis using split read_chunked_body [of ?body ?smug] by blast
qed

end
