(* ===== verification/RC_RawSend.thy ===== *)
theory RC_RawSend
  imports RC_RawWire RC_BrokerSendFacts
begin

text \<open>
  The raw lane of the broker, \<^verbatim>\<open>sendRawHttp1\<close> of \<^verbatim>\<open>core/http/RequestSafetyBroker.ts\<close>, on top of the raw transport: preparation, the waits for
  the queue, the contract's rate, a slot and the rate limiter, the transport with the commit of the pair as its \<^verbatim>\<open>begin\<close>, and
  the audit. At every wait the environment lists the operations that run meanwhile.
\<close>

section \<open>Definitions\<close>

record raw_send_env =
  rse_start :: tick
  rse_queue :: "broker_op list"
  rse_rate :: "broker_op list"
  rse_rateAborted :: bool
  rse_task :: nat
  rse_acquireAborted :: bool
  rse_slot :: "broker_op list"
  rse_slotAborted :: bool
  rse_admitAborted :: bool
  rse_pace :: "broker_op list"
  rse_paceAborted :: bool
  rse_connect :: "broker_op list"
  rse_begin :: tick
  rse_transport :: raw_env
  rse_after :: "broker_op list"

record raw_settings =
  rst_variant :: raw_variant
  rst_maxResponseBytes :: nat
  rst_userAgent :: string

datatype raw_send_result = RawSendCancelled | RawSendThrew string | RawSendReturned raw_response

definition blockedRawResponse :: "string \<Rightarrow> raw_response" where
  "blockedRawResponse reason =
     \<lparr>rh_statusCodes = [], rh_body = [], rh_transmittedRequests = 0, rh_markerObserved = False,
      rh_error = Some (if reason = ''RequestBudgetExceeded'' then ''RequestBudgetExceeded'' else ''RawHttp1PolicyBlocked'', reason)\<rparr>"

text \<open>The callback \<^verbatim>\<open>begin\<close>, when the connection is open.\<close>

definition raw_begin :: "url_runtime \<Rightarrow> tick \<Rightarrow> broker_op list \<Rightarrow> http_request \<Rightarrow> string \<Rightarrow> broker \<Rightarrow> raw_error option \<times> broker" where
  "raw_begin rt tk ops post surl b =
     (case commitRawPair rt tk post surl (broker_run rt ops b) of
        (Committed, b1) \<Rightarrow> (None, b1)
      | (CommitCancelled, b1) \<Rightarrow> (Some ScanCancelledError, b1)
      | (CommitBudgetExceeded, b1) \<Rightarrow> (Some (ErrorValue ''RequestBudgetExceeded'' ''RAW_HTTP1_BUDGET_EXHAUSTED''), b1)
      | (CommitDenied message, b1) \<Rightarrow> (Some (ErrorValue ''TargetAuthorizationDenied'' message), b1))"

definition transport_request :: "raw_settings \<Rightarrow> raw_request \<Rightarrow> http_request \<Rightarrow> string \<Rightarrow> broker \<Rightarrow> raw_http_request" where
  "transport_request s r post surl b =
     \<lparr>ra_url = rq_url post, ra_headers = rq_headers post, ra_body = raw_body (rw_body r), ra_sentinelPath = surl, ra_marker = rw_marker r,
      ra_variant = rst_variant s, ra_maxResponseBytes = rst_maxResponseBytes s, ra_userAgent = rst_userAgent s,
      ra_targetOrigin = targetOrigin (bk_matcher b)\<rparr>"

type_synonym raw_outcome = "raw_send_result \<times> (string \<times> nat) option \<times> buffer list \<times> broker"

definition raw_operation ::
    "url_runtime \<Rightarrow> raw_settings \<Rightarrow> raw_send_env \<Rightarrow> raw_request \<Rightarrow> http_request \<Rightarrow> string \<Rightarrow> broker \<Rightarrow> raw_outcome option" where
  "raw_operation rt s e r post surl b =
     map_option (\<lambda>(res, address, writes, b1).
         (case res of
            RawHttpThrew ScanCancelledError \<Rightarrow> RawSendCancelled
          | RawHttpThrew (ErrorValue name message) \<Rightarrow> RawSendThrew message
          | RawHttpReturned resp \<Rightarrow> RawSendReturned resp, address, writes, b1))
       (sendRawHttp1 rt (raw_begin rt (rse_begin e) (rse_connect e) post surl) (transport_request s r post surl b) (rse_transport e) b)"

definition raw_options :: tx_options where
  "raw_options = \<lparr>rateAlreadyReserved = False, beforeTransmit = None, reserveAtInitiation = True, reservationCount = jsint 2\<rparr>"

text \<open>\<^verbatim>\<open>ledger.transmit\<close> from the granted slot on.\<close>

definition raw_transmit ::
    "url_runtime \<Rightarrow> raw_settings \<Rightarrow> raw_send_env \<Rightarrow> raw_request \<Rightarrow> http_request \<Rightarrow> string \<Rightarrow> broker \<Rightarrow> raw_outcome option" where
  "raw_transmit rt s e r post surl b =
     (let refused = RawSendReturned (blockedRawResponse ''RequestBudgetExceeded'') in
      case bk_ledger b of
        None \<Rightarrow> Some (RawSendCancelled, None, [], b)
      | Some l \<Rightarrow>
         (case transmit_admit l (bk_lane b) raw_options (rse_admitAborted e) of
            (l1, Some t) \<Rightarrow> Some (if t = TxCancelled then RawSendCancelled else refused, None, [], b\<lparr>bk_ledger := Some l1\<rparr>)
          | (l1, None) \<Rightarrow>
             (let b1 = broker_run rt (rse_pace e) (b\<lparr>bk_ledger := Some l1\<rparr>) in
              case bk_ledger b1 of
                None \<Rightarrow> Some (RawSendCancelled, None, [], b1)
              | Some l2 \<Rightarrow>
                 (case snd (transmit_commit l2 (bk_lane b1) raw_options (rse_paceAborted e) (rse_paceAborted e)) of
                    Some t \<Rightarrow> Some (if t = TxCancelled then RawSendCancelled else refused, None, [], b1)
                  | None \<Rightarrow> raw_operation rt s e r post surl b1))))"

text \<open>The task of the queue: the contract's rate, then the ledger or the rate limiter of the broker.\<close>

definition raw_task ::
    "url_runtime \<Rightarrow> raw_settings \<Rightarrow> raw_send_env \<Rightarrow> raw_request \<Rightarrow> http_request \<Rightarrow> string \<Rightarrow> broker \<Rightarrow> raw_outcome option" where
  "raw_task rt s e r post surl b =
     (if (case bk_policy b of None \<Rightarrow> False | Some p \<Rightarrow> pr_rateLimitPerSecond p < 2)
      then Some (RawSendThrew ''TARGET_AUTHORIZATION_RACE_EXCEEDS_RATE_LIMIT'', None, [], b)
      else let b1 = broker_run rt (rse_rate e) b in
        if bk_policy b \<noteq> None \<and> rse_rateAborted e then Some (RawSendThrew ''AbortError'', None, [], b1)
        else if bk_ledger b1 = None then
          (let b2 = broker_run rt (rse_pace e) b1 in
           if rse_paceAborted e then Some (RawSendCancelled, None, [], b2) else raw_operation rt s e r post surl b2)
        else
          (let queued = (case bk_ledger b1 of None \<Rightarrow> False | Some l \<Rightarrow> \<not> snd (ledger_acquire l (rse_task e, bk_lane b1)));
               b2 = broker_run rt (rse_slot e) (broker_exec rt (PeerAcquire (rse_task e) (bk_lane b1)) b1) in
           if rse_acquireAborted e then Some (RawSendCancelled, None, [], b1)
           else if queued \<and> rse_slotAborted e
           then Some (RawSendCancelled, None, [], broker_exec rt (PeerAbortWait (rse_task e) (bk_lane b1)) b2)
           else map_option (\<lambda>(res, address, writes, b3). (res, address, writes, broker_exec rt PeerRelease b3))
                  (raw_transmit rt s e r post surl b2)))"

definition raw_audit :: "raw_request \<Rightarrow> raw_response \<Rightarrow> audit_entry" where
  "raw_audit r resp =
     \<lparr>au_method = rw_method r,
      au_outcome = (if rh_transmittedRequests resp \<noteq> 0 then AuditSent
                    else if map_option fst (rh_error resp) = Some ''RequestBudgetExceeded'' then AuditBudgetSkipped else AuditScopeSkipped),
      au_reason = None, au_transmittedRequests = Some (int (rh_transmittedRequests resp))\<rparr>"

text \<open>\<open>None\<close> is a connection on which nothing happens any more within the listed events.\<close>

definition broker_sendRawHttp1 ::
    "url_runtime \<Rightarrow> raw_settings \<Rightarrow> raw_send_env \<Rightarrow> raw_request \<Rightarrow> broker \<Rightarrow> raw_outcome option" where
  "broker_sendRawHttp1 rt s e r b =
     (case plan_raw rt (rse_start e) r b of
        RawCancelled \<Rightarrow> Some (RawSendCancelled, None, [], b)
      | RawThrew \<Rightarrow> Some (RawSendThrew ''Invalid URL'', None, [], b)
      | RawBlocked reason \<Rightarrow> Some (RawSendReturned (blockedRawResponse reason), None, [], b)
      | RawPlanned post surl \<Rightarrow>
          map_option (\<lambda>(res, address, writes, b1).
              let b2 = broker_run rt (rse_after e) b1 in
              (res, address, writes, (case res of RawSendReturned resp \<Rightarrow> recordAudit (raw_audit r resp) b2 | _ \<Rightarrow> b2)))
            (raw_task rt s e r post surl (broker_run rt (rse_queue e) b)))"

section \<open>The exchange\<close>

text \<open>Either nothing was written and the caller's \<^verbatim>\<open>begin\<close> was not called or refused, or it agreed and the request was written once.\<close>

definition exchange_inv :: "('b \<Rightarrow> raw_error option \<times> 'b) \<Rightarrow> buffer \<Rightarrow> 'b \<Rightarrow> 'b exchange_state \<Rightarrow> bool" where
  "exchange_inv bg wire b x \<longleftrightarrow>
     xs_writes x = [] \<and> \<not> xs_initiated x \<and> (xs_caller x = b \<or> \<not> xs_connecting x \<and> fst (bg b) \<noteq> None \<and> xs_caller x = snd (bg b))
     \<or> xs_writes x = [wire] \<and> xs_initiated x \<and> \<not> xs_connecting x \<and> bg b = (None, xs_caller x)"

lemma finish_frame [simp]:
  "xs_writes (exchange_finish e x) = xs_writes x" "xs_initiated (exchange_finish e x) = xs_initiated x" "xs_caller (exchange_finish e x) = xs_caller x"
  "xs_connecting (exchange_finish e x) = xs_connecting x"
  by (simp_all add: exchange_finish_def)

lemma exchange_event_inv: "exchange_inv bg wire b x \<Longrightarrow> exchange_inv bg wire b (exchange_event bg wire n ev x)"
proof (cases ev)
  case (SockConnected aborted)
  assume inv: "exchange_inv bg wire b x"
  show ?thesis
  proof (cases "xs_connecting x \<and> \<not> aborted \<and> \<not> xs_destroyed x")
    case True
    then have "xs_caller x = b" "xs_writes x = []" "\<not> xs_initiated x" using inv by (auto simp: exchange_inv_def)
    then show ?thesis using True SockConnected by (cases "bg b"; cases "fst (bg b)") (simp_all add: exchange_write_def exchange_inv_def)
  next
    case False
    then show ?thesis using inv SockConnected by (auto simp: exchange_write_def exchange_inv_def)
  qed
qed (auto simp: exchange_inv_def Let_def)

lemma exchange_ok: "exchange_inv bg wire b (exchange bg wire n events b)"
proof -
  have "exchange_inv bg wire b x \<Longrightarrow> exchange_inv bg wire b (fold (exchange_event bg wire n) events x)" for x
    by (induction events arbitrary: x) (simp_all add: exchange_event_inv)
  then show ?thesis by (simp add: exchange_def exchange_start_def exchange_inv_def)
qed

text \<open>An address that may be dialled.\<close>

definition address_admitted :: "url_runtime \<Rightarrow> raw_http_request \<Rightarrow> string \<Rightarrow> bool" where
  "address_admitted rt req address \<longleftrightarrow> \<not> isProhibitedAddress address
     \<or> (\<exists>target u. rt_newURL rt (ra_targetOrigin req) = Some target \<and> rt_newURL rt (ra_url req) = Some u
         \<and> to_lower (u_hostname target) = to_lower (u_hostname u) \<and> u_port target = u_port u)"

lemma selectAddress_admitted:
  assumes "selectAddress rt req (u_hostname u) aborted events = Inr a" "rt_newURL rt (ra_url req) = Some u"
  shows "address_admitted rt req (fst a)"
proof -
  obtain answers where w: "boundedDnsWait aborted events = Inr answers"
    using assms(1) by (cases "boundedDnsWait aborted events") (simp_all add: selectAddress_def)
  obtain target where t: "rt_newURL rt (ra_targetOrigin req) = Some target"
    using assms(1) w by (cases "rt_newURL rt (ra_targetOrigin req)") (simp_all add: selectAddress_def Let_def split: if_splits)
  define e where "e \<longleftrightarrow> to_lower (u_hostname target) = to_lower (u_hostname u) \<and> u_port target = u_port u"
  define xs where "xs = filter (\<lambda>a. fst a \<noteq> []) (map answer_address answers)"
  have "filter (\<lambda>a. \<not> isProhibitedAddress (fst a) \<or> e) xs \<noteq> []" "a = hd (filter (\<lambda>a. \<not> isProhibitedAddress (fst a) \<or> e) xs)"
    using assms w t unfolding selectAddress_def xs_def e_def Let_def by (simp_all del: filter_filter split: if_splits)
  then have "a \<in> set (filter (\<lambda>a. \<not> isProhibitedAddress (fst a) \<or> e) xs)" using hd_in_set by blast
  then have "\<not> isProhibitedAddress (fst a) \<or> e" by simp
  then show ?thesis using t assms(2) by (auto simp: address_admitted_def e_def)
qed

text \<open>What one call of the transport did.\<close>

definition raw_done :: "url_runtime \<Rightarrow> ('b \<Rightarrow> raw_error option \<times> 'b) \<Rightarrow> raw_http_request \<Rightarrow> 'b \<Rightarrow> (string \<times> nat) option \<Rightarrow> buffer list \<Rightarrow> 'b \<Rightarrow> bool" where
  "raw_done rt bg req b address writes b' \<longleftrightarrow>
     writes = [] \<and> (b' = b \<or> fst (bg b) \<noteq> None \<and> b' = snd (bg b))
     \<or> bg b = (None, b') \<and> (\<exists>a parsed base sentinel. address = Some a \<and> address_admitted rt req (fst a) \<and> rt_newURL rt (ra_url req) = Some parsed
         \<and> rt_newURL rt (url_origin parsed) = Some base \<and> ur_resolve rt (ra_sentinelPath req) base = Some sentinel
         \<and> writes = [buildWireRequest req parsed sentinel])"

lemma sendRawHttp1_done:
  assumes "sendRawHttp1 rt bg req env b = Some (res, address, writes, b')"
  shows "raw_done rt bg req b address writes b'" "res = RawHttpReturned resp \<Longrightarrow> rh_transmittedRequests resp = 2 * length writes"
proof -
  let ?bind = "Option.bind (rt_newURL rt (ra_url req)) (\<lambda>parsed. Option.bind (rt_newURL rt (url_origin parsed)) (\<lambda>base.
             map_option (\<lambda>sentinel. (parsed, sentinel)) (ur_resolve rt (ra_sentinelPath req) base)))"
  have both: "raw_done rt bg req b address writes b' \<and> (\<forall>resp. res = RawHttpReturned resp \<longrightarrow> rh_transmittedRequests resp = 2 * length writes)"
  proof (cases "?bind")
    case None
    then show ?thesis using assms by (auto simp: sendRawHttp1_def raw_done_def)
  next
    case (Some ps)
    then obtain parsed base sentinel where u: "rt_newURL rt (ra_url req) = Some parsed" "rt_newURL rt (url_origin parsed) = Some base"
      "ur_resolve rt (ra_sentinelPath req) base = Some sentinel" "ps = (parsed, sentinel)"
      by (auto simp: Option.bind_eq_Some_conv)
    show ?thesis
    proof (cases "selectAddress rt req (u_hostname parsed) (re_abortedBefore env) (re_dns env)")
      case (Inl e)
      then show ?thesis using assms Some u by (auto simp: sendRawHttp1_def raw_done_def raw_failed_def split: bool.splits raw_error.splits)
    next
      case (Inr a)
      let ?x = "exchange bg (buildWireRequest req parsed sentinel) (ra_maxResponseBytes req) (re_events env) b"
      have adm: "address_admitted rt req (fst a)" by (rule selectAddress_admitted [OF Inr u(1)])
      show ?thesis
      proof (cases "re_abortedResolved env")
        case True
        then show ?thesis using assms Some u Inr by (auto simp: sendRawHttp1_def raw_done_def raw_failed_def split: bool.splits)
      next
        case False
        then have o: "address = Some a" "writes = xs_writes ?x" "b' = xs_caller ?x"
          "\<And>resp. res = RawHttpReturned resp \<Longrightarrow> rh_transmittedRequests resp = (if xs_initiated ?x then 2 else 0)"
          using assms Some u Inr
          by (auto simp: sendRawHttp1_def Let_def raw_failed_def raw_answered_def split: option.splits sum.splits bool.splits raw_error.splits prod.splits)
        show ?thesis
          using exchange_ok [of bg "buildWireRequest req parsed sentinel" b "ra_maxResponseBytes req" "re_events env"] o u adm
          unfolding exchange_inv_def raw_done_def by auto
      qed
    qed
  qed
  then show "raw_done rt bg req b address writes b'" "res = RawHttpReturned resp \<Longrightarrow> rh_transmittedRequests resp = 2 * length writes" by blast+
qed

section \<open>The raw lane\<close>

text \<open>A pair that went out: committed by the broker as it then was, and written once to an admitted address.\<close>

definition raw_written ::
    "url_runtime \<Rightarrow> raw_settings \<Rightarrow> tick \<Rightarrow> raw_request \<Rightarrow> http_request \<Rightarrow> string \<Rightarrow> broker \<Rightarrow> (string \<times> nat) option \<Rightarrow> buffer list \<Rightarrow> broker \<Rightarrow> bool" where
  "raw_written rt s tk r post surl b address writes b' \<longleftrightarrow>
     (\<exists>b0 b1 b2 a parsed base sentinel. reaches rt b b0 \<and> reaches rt b b1 \<and> commitRawPair rt tk post surl b1 = (Committed, b2) \<and> reaches rt b2 b'
       \<and> address = Some a \<and> address_admitted rt (transport_request s r post surl b0) (fst a) \<and> rt_newURL rt (rq_url post) = Some parsed
       \<and> rt_newURL rt (url_origin parsed) = Some base \<and> ur_resolve rt surl base = Some sentinel
       \<and> writes = [buildWireRequest (transport_request s r post surl b0) parsed sentinel])"

fun raw_effect :: "url_runtime \<Rightarrow> raw_settings \<Rightarrow> tick \<Rightarrow> raw_request \<Rightarrow> http_request \<Rightarrow> string \<Rightarrow> broker \<Rightarrow> raw_outcome \<Rightarrow> bool" where
  "raw_effect rt s tk r post surl b (res, address, writes, b') \<longleftrightarrow>
     reaches rt b b' \<and> (writes = [] \<or> raw_written rt s tk r post surl b address writes b')
     \<and> (case res of RawSendReturned resp \<Rightarrow> rh_transmittedRequests resp = 2 * length writes | _ \<Rightarrow> True)"

lemma effect_before: "raw_effect rt s tk r post surl b out \<Longrightarrow> reaches rt a b \<Longrightarrow> raw_effect rt s tk r post surl a out"
  by (cases out) (auto simp: raw_written_def intro: reaches_trans, (blast intro: reaches_trans)+)

lemma effect_after:
  "raw_effect rt s tk r post surl b (res, address, writes, b') \<Longrightarrow> reaches rt b' c \<Longrightarrow> raw_effect rt s tk r post surl b (res, address, writes, c)"
  by (auto simp: raw_written_def intro: reaches_trans, (blast intro: reaches_trans)+)

lemma effect_none:
  "reaches rt b b' \<Longrightarrow> res = RawSendCancelled \<or> (\<exists>m. res = RawSendThrew m) \<or> res = RawSendReturned (blockedRawResponse reason)
    \<Longrightarrow> raw_effect rt s tk r post surl b (res, None, [], b')"
  by (auto simp: blockedRawResponse_def)

lemma raw_begin_commit:
  "fst (raw_begin rt tk ops post surl b) = None \<Longrightarrow> commitRawPair rt tk post surl (broker_run rt ops b) = (Committed, snd (raw_begin rt tk ops post surl b))"
  "reaches rt b (snd (raw_begin rt tk ops post surl b))"
proof -
  obtain c b1 where c: "commitRawPair rt tk post surl (broker_run rt ops b) = (c, b1)" by (rule prod.exhaust)
  have "reaches rt b b1" using reaches_trans [OF reaches_run reaches_exec [of rt _ "OpRawPair tk post surl"]] c by (metis broker_exec.simps(2) snd_conv)
  then show "fst (raw_begin rt tk ops post surl b) = None \<Longrightarrow> commitRawPair rt tk post surl (broker_run rt ops b) = (Committed, snd (raw_begin rt tk ops post surl b))"
    "reaches rt b (snd (raw_begin rt tk ops post surl b))" using c by (cases c; simp add: raw_begin_def)+
qed

lemma raw_operation_effect:
  assumes "raw_operation rt s e r post surl b = Some out" shows "raw_effect rt s (rse_begin e) r post surl b out"
proof -
  let ?bg = "raw_begin rt (rse_begin e) (rse_connect e) post surl" and ?req = "transport_request s r post surl b"
  obtain hr address writes b' where h: "sendRawHttp1 rt ?bg ?req (rse_transport e) b = Some (hr, address, writes, b')"
    "out = (case hr of RawHttpThrew ScanCancelledError \<Rightarrow> RawSendCancelled | RawHttpThrew (ErrorValue name message) \<Rightarrow> RawSendThrew message
              | RawHttpReturned resp \<Rightarrow> RawSendReturned resp, address, writes, b')"
    using assms by (auto simp: raw_operation_def)
  note d = sendRawHttp1_done [OF h(1)]
  note bg = raw_begin_commit [where rt = rt and tk = "rse_begin e" and ops = "rse_connect e" and post = post and surl = surl and b = b]
  have req: "ra_url ?req = rq_url post" "ra_sentinelPath ?req = surl" by (simp_all add: transport_request_def)
  have effect: "reaches rt b b' \<and> (writes = [] \<or> raw_written rt s (rse_begin e) r post surl b address writes b')"
  proof (cases "writes = []")
    case True
    then show ?thesis using d(1) bg(2) by (auto simp: raw_done_def)
  next
    case False
    then have w: "?bg b = (None, b')" using d(1) by (simp add: raw_done_def)
    have c: "commitRawPair rt (rse_begin e) post surl (broker_run rt (rse_connect e) b) = (Committed, b')" using bg(1) w by simp
    have "raw_written rt s (rse_begin e) r post surl b address writes b'"
      using d(1) False reaches_refl [of rt b] reaches_refl [of rt b'] reaches_run [of rt b "rse_connect e"] c
      unfolding raw_done_def raw_written_def req by blast
    then show ?thesis using bg(2) w by simp
  qed
  show ?thesis using effect d(2) h(2) by (auto split: raw_result.splits raw_error.splits)
qed

lemma raw_transmit_effect:
  assumes "raw_transmit rt s e r post surl b = Some out" shows "raw_effect rt s (rse_begin e) r post surl b out"
proof (cases "bk_ledger b")
  case None
  then show ?thesis using assms by (auto simp: raw_transmit_def)
next
  case (Some l)
  obtain l1 x where x: "transmit_admit l (bk_lane b) raw_options (rse_admitAborted e) = (l1, x)" by (rule prod.exhaust)
  let ?b1 = "broker_run rt (rse_pace e) (b\<lparr>bk_ledger := Some l1\<rparr>)"
  have q0: "reaches rt b (b\<lparr>bk_ledger := Some l1\<rparr>)" by (rule transmit_admit_reaches [OF Some x])
  have q1: "reaches rt b ?b1" by (rule reaches_trans [OF q0 reaches_run])
  have "(\<exists>res b'. out = (res, None, [], b') \<and> reaches rt b b' \<and> (res = RawSendCancelled \<or> res = RawSendReturned (blockedRawResponse ''RequestBudgetExceeded'')))
      \<or> raw_operation rt s e r post surl ?b1 = Some out"
    using assms x Some q0 q1 unfolding raw_transmit_def Let_def by (auto split: option.splits if_splits)
  then show ?thesis using effect_none effect_before [OF raw_operation_effect q1] by blast
qed

lemma raw_task_effect:
  assumes "raw_task rt s e r post surl b = Some out" shows "raw_effect rt s (rse_begin e) r post surl b out"
proof -
  let ?b1 = "broker_run rt (rse_rate e) b"
  let ?b2 = "broker_run rt (rse_slot e) (broker_exec rt (PeerAcquire (rse_task e) (bk_lane ?b1)) ?b1)"
  let ?b3 = "broker_run rt (rse_pace e) ?b1"
  have q: "reaches rt b ?b1" "reaches rt b ?b2" "reaches rt b ?b3" "reaches rt b (broker_exec rt (PeerAbortWait (rse_task e) (bk_lane ?b1)) ?b2)"
    by (meson reaches_run reaches_exec reaches_trans)+
  consider res b' where "out = (res, None, [], b')" "reaches rt b b'" "res = RawSendCancelled \<or> (\<exists>m. res = RawSendThrew m)"
    | "raw_operation rt s e r post surl ?b3 = Some out"
    | res address writes b4 where "raw_transmit rt s e r post surl ?b2 = Some (res, address, writes, b4)" "out = (res, address, writes, broker_exec rt PeerRelease b4)"
    using assms q unfolding raw_task_def Let_def
    by (auto simp del: broker_exec.simps split: if_splits option.splits)
  then show ?thesis
  proof cases
    case 1
    then show ?thesis using effect_none by blast
  next
    case 2
    then show ?thesis using effect_before [OF raw_operation_effect q(3)] by blast
  next
    case 3
    then show ?thesis using effect_after [OF effect_before [OF raw_transmit_effect q(2)] reaches_exec] by blast
  qed
qed

section \<open>Property\<close>

text \<open>
  C13: Raw bytes leave only behind a commit. Whatever runs while the call waits and however the connection behaves, the raw lane leads
  from one state of the broker to the next by its operations. It writes to the socket at most once, and only when the broker has
  committed the prepared pair at that moment, to an address that is not reserved unless the target itself is the private
  origin; what it writes is the wire form of that pair, and the response says truthfully whether two requests or none went out.
\<close>

theorem raw_bytes_only_behind_commit:
  assumes "broker_sendRawHttp1 rt s e r b = Some (res, address, writes, b')"
  shows "reaches rt b b' \<and> (case res of RawSendReturned resp \<Rightarrow> rh_transmittedRequests resp = 2 * length writes | _ \<Rightarrow> True)
    \<and> (writes = [] \<or> (\<exists>post surl. plan_raw rt (rse_start e) r b = RawPlanned post surl
                         \<and> raw_written rt s (rse_begin e) r post surl b address writes b'))"
proof (cases "plan_raw rt (rse_start e) r b")
  case (RawPlanned post surl)
  let ?b1 = "broker_run rt (rse_queue e) b"
  obtain b2 where t: "raw_task rt s e r post surl ?b1 = Some (res, address, writes, b2)"
    and b': "b' = (case res of RawSendReturned resp \<Rightarrow> recordAudit (raw_audit r resp) (broker_run rt (rse_after e) b2) | _ \<Rightarrow> broker_run rt (rse_after e) b2)"
    using assms RawPlanned by (auto simp: broker_sendRawHttp1_def Let_def)
  have "reaches rt b2 b'"
    unfolding b' using reaches_trans [OF reaches_run reaches_exec [of rt _ "OpAudit x" for x]] by (cases res) simp_all
  then have "raw_effect rt s (rse_begin e) r post surl b (res, address, writes, b')"
    using effect_after [OF effect_before [OF raw_task_effect [OF t] reaches_run]] by blast
  then show ?thesis using RawPlanned by auto
qed (use assms in \<open>auto simp: broker_sendRawHttp1_def blockedRawResponse_def\<close>)

definition example_raw_env :: raw_send_env where
  "example_raw_env = \<lparr>rse_start = example_tick 20, rse_queue = [], rse_rate = [], rse_rateAborted = False, rse_task = 1, rse_acquireAborted = False,
     rse_slot = [], rse_slotAborted = False, rse_admitAborted = False, rse_pace = [], rse_paceAborted = False, rse_connect = [],
     rse_begin = example_tick 21,
     rse_transport = \<lparr>re_abortedBefore = False, re_dns = [DnsAnswered [PlainAddress ''93.184.216.34'']], re_abortedResolved = False,
       re_events = [SockConnected False, SockData (latin1_bytes ''HTTP/1.1 200 OK''), SockEnd], re_abortedAfter = False\<rparr>,
     rse_after = []\<rparr>"

definition raw_broker :: broker where
  "raw_broker = new_broker (jsint 2) False False False id (example_matcher\<lparr>sm_scope := example_scope\<lparr>sc_allowedMethods := [''GET'', ''POST'']\<rparr>\<rparr>)
     (Some (example_ledger, Scan))"

definition example_raw :: raw_request where
  "example_raw = \<lparr>rw_url = ''https://a.io/p'', rw_method = ''POST'', rw_headers = [(''X-A'', ''b'')], rw_body = ''x=1'', rw_sentinelPath = ''https://a.io/s'', rw_marker = None\<rparr>"

definition example_raw_settings :: raw_settings where
  "example_raw_settings = \<lparr>rst_variant = CL_TE, rst_maxResponseBytes = 40, rst_userAgent = ''RouteCairn''\<rparr>"

theorem raw_bytes_only_behind_commit_witness:
  "\<exists>res address writes b' post surl. broker_sendRawHttp1 example_url_runtime example_raw_settings example_raw_env example_raw raw_broker = Some (res, address, writes, b')
     \<and> length writes = 1 \<and> raw_written example_url_runtime example_raw_settings (rse_begin example_raw_env) example_raw post surl raw_broker address writes b'"
proof -
  have "map_option (\<lambda>(res, address, writes, b'). length writes)
      (broker_sendRawHttp1 example_url_runtime example_raw_settings example_raw_env example_raw raw_broker) = Some 1" by code_simp
  then obtain res address writes b' where r: "broker_sendRawHttp1 example_url_runtime example_raw_settings example_raw_env example_raw raw_broker
      = Some (res, address, writes, b')" "length writes = 1" by auto
  then show ?thesis using raw_bytes_only_behind_commit [OF r(1)] by (metis length_0_conv zero_neq_one)
qed

end
