(* ===== verification/RC_Coordinator.thy ===== *)
theory RC_Coordinator
  imports RC_Bytes RC_MutationPolicy
begin

text \<open>
  The coordinator of mutations across hosts, \<^verbatim>\<open>dashboard/operations/DistributedMutationCoordinatorService.ts\<close> with its routes in
  \<^verbatim>\<open>dashboard/server/DashboardServer.ts\<close>, and its client \<^verbatim>\<open>core/offensive/DistributedMutationCoordinator.ts\<close>. The three tables are lists; instants are
  milliseconds, and the readings of the clock within one call are one value except in \<^verbatim>\<open>authenticate\<close>. HMAC, base64url, \<^verbatim>\<open>localeCompare\<close> and
  \<^verbatim>\<open>Date.parse\<close> are parameters.
\<close>

section \<open>State\<close>

datatype coord_status = LeaseActive | LeaseReleased | LeaseOrphaned

record coord_lease =
  cl_id :: string
  cl_namespace :: string
  cl_caseId :: string
  cl_holderId :: string
  cl_tokenHash :: "string option"
  cl_recovery :: bool
  cl_status :: coord_status
  cl_acquiredAt :: int
  cl_heartbeatAt :: int
  cl_expiresAt :: int
  cl_releasedAt :: "int option"

datatype obligation_state = ObUnresolved | ObUnknown | ObOrphaned

record coord_obligation =
  ob_namespace :: string
  ob_caseId :: string
  ob_state :: obligation_state
  ob_stage :: string
  ob_firstSeenAt :: int
  ob_updatedAt :: int

record coord_db =
  cd_leases :: "coord_lease list"
  cd_obligations :: "coord_obligation list"
  cd_nonces :: "(string \<times> string \<times> int) list"

text \<open>An error of the service with its status code.\<close>

type_synonym coord_error = "string \<times> int"

definition authError :: "string \<Rightarrow> coord_error" where
  "authError code = (code, 401)"

definition conflict :: "string \<Rightarrow> coord_error" where
  "conflict code = (code, 409)"

definition invalid :: "string \<Rightarrow> coord_error" where
  "invalid code = (code, 400)"

record coord_runtime = json_runtime +
  cr_localeCompare :: "string \<Rightarrow> string \<Rightarrow> int"
  cr_hmac :: "string \<Rightarrow> string \<Rightarrow> string"
  cr_toBase64url :: "string \<Rightarrow> string"
  cr_fromBase64url :: "string \<Rightarrow> string"
  cr_dateParse :: "string \<Rightarrow> int option"

definition protocol :: string where
  "protocol = ''routecairn-mutation-coordinator-v1''"

definition leaseDurationMs :: int where
  "leaseDurationMs = 120000"

section \<open>Canonical JSON\<close>

fun sort_json :: "coord_runtime \<Rightarrow> json \<Rightarrow> json" where
  "sort_json rt (JArray xs) = JArray (map (sort_json rt) xs)"
| "sort_json rt (JObject kvs) = JObject (map (\<lambda>(k, v). (k, sort_json rt v)) (sort_by (\<lambda>(k, _) (k', _). cr_localeCompare rt k k') kvs))"
| "sort_json rt v = v"

definition canonical :: "coord_runtime \<Rightarrow> json \<Rightarrow> string" where
  "canonical rt v = jr_stringify rt (sort_json rt v)"

section \<open>Input\<close>

definition name_chars :: string where
  "name_chars = ''ABCDEFGHIJKLMNOPQRSTUVWXYZabcdefghijklmnopqrstuvwxyz0123456789''"

text \<open>\<^verbatim>\<open>namespacePattern\<close> and \<^verbatim>\<open>casePattern\<close>.\<close>

definition namespacePattern :: "string \<Rightarrow> bool" where
  "namespacePattern s \<longleftrightarrow> len_between 1 200 s \<and> hd s \<in> set name_chars \<and> list_all (\<lambda>c. c \<in> set (name_chars @ ''._:-'')) s"

definition casePattern :: "string \<Rightarrow> bool" where
  "casePattern s \<longleftrightarrow> len_between 1 200 s \<and> list_all (\<lambda>c. c \<in> set (name_chars @ ''._-'')) s"

definition stagePattern :: "string \<Rightarrow> bool" where
  "stagePattern s \<longleftrightarrow> len_between 2 100 s \<and> hd s \<in> set ''ABCDEFGHIJKLMNOPQRSTUVWXYZ''
     \<and> list_all (\<lambda>c. c \<in> set ''ABCDEFGHIJKLMNOPQRSTUVWXYZ0123456789_'') s"

definition leaseIdPattern :: "string \<Rightarrow> bool" where
  "leaseIdPattern s \<longleftrightarrow> length s = 36 \<and> list_all (\<lambda>c. c \<in> set ''0123456789abcdefABCDEF-'') s"

definition leaseTokenPattern :: "string \<Rightarrow> bool" where
  "leaseTokenPattern s \<longleftrightarrow> len_between 32 200 s \<and> list_all (\<lambda>c. c \<in> set (name_chars @ ''_-'')) s"

definition json_record :: "json option \<Rightarrow> coord_error + (string \<times> json) list" where
  "json_record v = (case v of Some (JObject kvs) \<Rightarrow> Inr kvs | _ \<Rightarrow> Inl (invalid ''MUTATION_COORDINATOR_REQUEST_INVALID''))"

definition json_text :: "json option \<Rightarrow> (string \<Rightarrow> bool) \<Rightarrow> string \<Rightarrow> coord_error + string" where
  "json_text v pattern code = (case v of Some (JString s) \<Rightarrow> if pattern s then Inr s else Inl (invalid code) | _ \<Rightarrow> Inl (invalid code))"

text \<open>\<^verbatim>\<open>String(value ?? "")\<close>.\<close>

fun js_string :: "json \<Rightarrow> string" where
  "js_string JNull = ''null''"
| "js_string (JBool b) = (if b then ''true'' else ''false'')"
| "js_string (JNumber t) = t"
| "js_string (JString s) = s"
| "js_string (JArray xs) = join_with '','' (map (\<lambda>x. if x = JNull then [] else js_string x) xs)"
| "js_string (JObject kvs) = ''[object Object]''"

definition string_or_empty :: "json option \<Rightarrow> string" where
  "string_or_empty v = (case v of None \<Rightarrow> [] | Some x \<Rightarrow> if x = JNull then [] else js_string x)"

definition ensureNamespace :: "string \<Rightarrow> coord_error + string" where
  "ensureNamespace s = (if namespacePattern s then Inr s else Inl (invalid ''MUTATION_COORDINATOR_NAMESPACE_INVALID''))"

record acquire_input =
  ai_namespace :: string
  ai_caseId :: string
  ai_holderId :: string
  ai_recovery :: bool

definition acquireInput :: "json option \<Rightarrow> coord_error + acquire_input" where
  "acquireInput input =
     ebind (json_record input) (\<lambda>kvs.
       case map_of kvs ''recovery'' of
         Some (JBool recovery) \<Rightarrow>
           ebind (ensureNamespace (string_or_empty (map_of kvs ''namespace''))) (\<lambda>ns.
           ebind (json_text (map_of kvs ''caseId'') casePattern ''MUTATION_COORDINATOR_CASE_INVALID'') (\<lambda>caseId.
           ebind (json_text (map_of kvs ''holderId'') namespacePattern ''MUTATION_COORDINATOR_HOLDER_INVALID'') (\<lambda>holderId.
             Inr \<lparr>ai_namespace = ns, ai_caseId = caseId, ai_holderId = holderId, ai_recovery = recovery\<rparr>)))
       | _ \<Rightarrow> Inl (invalid ''MUTATION_COORDINATOR_REQUEST_INVALID''))"

record lease_input =
  lx_namespace :: string
  lx_leaseId :: string
  lx_leaseToken :: string
  lx_holderId :: string

definition leaseInput :: "json option \<Rightarrow> coord_error + lease_input" where
  "leaseInput input =
     ebind (json_record input) (\<lambda>kvs.
       ebind (ensureNamespace (string_or_empty (map_of kvs ''namespace''))) (\<lambda>ns.
       ebind (json_text (map_of kvs ''leaseId'') leaseIdPattern ''MUTATION_COORDINATOR_LEASE_INVALID'') (\<lambda>leaseId.
       ebind (json_text (map_of kvs ''leaseToken'') leaseTokenPattern ''MUTATION_COORDINATOR_LEASE_INVALID'') (\<lambda>token.
       ebind (json_text (map_of kvs ''holderId'') namespacePattern ''MUTATION_COORDINATOR_HOLDER_INVALID'') (\<lambda>holderId.
         Inr \<lparr>lx_namespace = ns, lx_leaseId = leaseId, lx_leaseToken = token, lx_holderId = holderId\<rparr>)))))"

text \<open>The state is the value of the body itself: the check reads its text, the branches of \<^verbatim>\<open>release\<close> the value.\<close>

record cleanup_report =
  cu_state :: json
  cu_stage :: "string option"
  cu_obligations :: "(string \<times> string) list"

fun obligation_entries :: "json list \<Rightarrow> coord_error + (string \<times> string) list" where
  "obligation_entries [] = Inr []"
| "obligation_entries (x # xs) =
     ebind (json_record (Some x)) (\<lambda>kvs.
     ebind (json_text (map_of kvs ''caseId'') casePattern ''MUTATION_COORDINATOR_CASE_INVALID'') (\<lambda>caseId.
     ebind (json_text (map_of kvs ''stage'') stagePattern ''MUTATION_COORDINATOR_STAGE_INVALID'') (\<lambda>stage.
     ebind (obligation_entries xs) (\<lambda>rest. Inr ((caseId, stage) # rest)))))"

definition cleanupInput :: "json option \<Rightarrow> coord_error + cleanup_report" where
  "cleanupInput v =
     (let bad = invalid ''MUTATION_COORDINATOR_OBLIGATIONS_INVALID'' in
      ebind (json_record v) (\<lambda>kvs.
        case map_of kvs ''state'' of
          None \<Rightarrow> Inl (invalid ''MUTATION_COORDINATOR_CLEANUP_STATE_INVALID'')
        | Some state \<Rightarrow>
            if js_string state \<notin> {''CLEAN'', ''UNRESOLVED'', ''UNKNOWN''} then Inl (invalid ''MUTATION_COORDINATOR_CLEANUP_STATE_INVALID'')
            else ebind (case map_of kvs ''stage'' of
                     None \<Rightarrow> Inr None
                   | Some s \<Rightarrow> ebind (json_text (Some s) stagePattern ''MUTATION_COORDINATOR_STAGE_INVALID'') (\<lambda>t. Inr (Some t))) (\<lambda>stage.
            ebind (case map_of kvs ''obligations'' of None \<Rightarrow> Inr [] | Some (JArray xs) \<Rightarrow> Inr xs | Some _ \<Rightarrow> Inl bad) (\<lambda>raw.
              if length raw > 1000 then Inl bad
              else ebind (obligation_entries raw) (\<lambda>obligations.
                if \<not> distinct (map fst obligations) then Inl bad
                else Inr \<lparr>cu_state = state, cu_stage = stage, cu_obligations = obligations\<rparr>)))))"

definition releaseInput :: "json option \<Rightarrow> coord_error + lease_input \<times> cleanup_report" where
  "releaseInput input =
     ebind (json_record input) (\<lambda>kvs.
     ebind (leaseInput input) (\<lambda>lease.
     ebind (cleanupInput (map_of kvs ''cleanup'')) (\<lambda>cleanup. Inr (lease, cleanup))))"

definition operatorInput :: "json option \<Rightarrow> string \<Rightarrow> coord_error + string" where
  "operatorInput input confirmation =
     ebind (json_record input) (\<lambda>kvs.
       if map_of kvs ''confirmation'' \<noteq> Some (JString confirmation) then Inl (invalid ''MUTATION_COORDINATOR_CONFIRMATION_REQUIRED'')
       else ensureNamespace (string_or_empty (map_of kvs ''namespace'')))"

definition resolveInput :: "json option \<Rightarrow> coord_error + string \<times> string" where
  "resolveInput input =
     ebind (operatorInput input ''I_VERIFIED_NO_MUTATION_WAS_TRANSMITTED_OR_TARGET_STATE_IS_RESTORED'') (\<lambda>ns.
     ebind (json_record input) (\<lambda>kvs.
     ebind (json_text (map_of kvs ''caseId'') casePattern ''MUTATION_COORDINATOR_CASE_INVALID'') (\<lambda>caseId. Inr (ns, caseId))))"

section \<open>Authentication\<close>

text \<open>
  The table of nonces: rows that have expired at the reading \<open>now\<close> go, then the new key comes unless a row has it.
\<close>

type_synonym nonce_table = "(string \<times> string \<times> int) list"

definition use_nonce :: "int \<Rightarrow> int \<Rightarrow> string \<times> string \<Rightarrow> nonce_table \<Rightarrow> nonce_table \<times> bool" where
  "use_nonce now expiresAt key nonces =
     (let live = filter (\<lambda>(_, _, t). \<not> t \<le> now) nonces in
      if list_ex (\<lambda>(c, n, _). (c, n) = key) live then (live, False) else (live @ [(fst key, snd key, expiresAt)], True))"

text \<open>
  The readings of the clock: for the age of the call, for the purge of nonces, for the new nonce. Headers are the first value of
  each name. Behind the checks the nonces that have expired go before the new one comes.
\<close>

definition authenticate ::
  "coord_runtime \<Rightarrow> string \<Rightarrow> int \<times> int \<times> int \<Rightarrow> string \<Rightarrow> string \<Rightarrow> json \<Rightarrow> (string \<times> string) list \<Rightarrow> coord_db \<Rightarrow> coord_db \<times> coord_error option" where
  "authenticate rt secret clock verb path body headers db =
     (case (map_of headers ''x-routecairn-coordinator-client'', map_of headers ''x-routecairn-timestamp'',
            map_of headers ''x-routecairn-nonce'', map_of headers ''x-routecairn-signature'') of
        (Some clientId, Some timestamp, Some nonce, Some signature) \<Rightarrow>
          if \<not> namespacePattern clientId \<or> timestamp = [] \<or> length nonce < 24 \<or> length nonce > 200 \<or> signature = []
          then (db, Some (authError ''MUTATION_COORDINATOR_SIGNATURE_REQUIRED''))
          else (case cr_dateParse rt timestamp of
              None \<Rightarrow> (db, Some (authError ''MUTATION_COORDINATOR_TIMESTAMP_REJECTED''))
            | Some time \<Rightarrow>
                if \<bar>fst clock - time\<bar> > 5 * 60000 then (db, Some (authError ''MUTATION_COORDINATOR_TIMESTAMP_REJECTED''))
                else let bodyHash = rt_sha256 rt (canonical rt body);
                         expected = cr_hmac rt secret (join_with [CHR 0x0A] [protocol, to_upper verb, path, timestamp, nonce, bodyHash]) in
                  if cr_fromBase64url rt signature \<noteq> expected then (db, Some (authError ''MUTATION_COORDINATOR_SIGNATURE_REJECTED''))
                  else let (nonces, fresh) = use_nonce (fst (snd clock)) (snd (snd clock) + 10 * 60000) (clientId, nonce) (cd_nonces db) in
                    (db\<lparr>cd_nonces := nonces\<rparr>, if fresh then None else Some (authError ''MUTATION_COORDINATOR_REPLAY_REJECTED'')))
      | _ \<Rightarrow> (db, Some (authError ''MUTATION_COORDINATOR_SIGNATURE_REQUIRED'')))"

section \<open>Operations\<close>

definition tokenHash :: "coord_runtime \<Rightarrow> string \<Rightarrow> string" where
  "tokenHash rt token = rt_sha256 rt (protocol @ [CHR 0x00] @ token)"

definition active_lease :: "coord_db \<Rightarrow> string \<Rightarrow> coord_lease option" where
  "active_lease db ns = find (\<lambda>l. cl_namespace l = ns \<and> cl_status l = LeaseActive) (cd_leases db)"

definition obligations_in_namespace :: "coord_db \<Rightarrow> string \<Rightarrow> coord_obligation list" where
  "obligations_in_namespace db ns = filter (\<lambda>o'. ob_namespace o' = ns) (cd_obligations db)"

text \<open>The answer to \<^verbatim>\<open>acquire\<close>. \<open>leaseId\<close> and \<open>token\<close> are random; a taken identifier violates the primary key.\<close>

record coord_grant =
  cg_leaseId :: string
  cg_leaseToken :: string
  cg_expiresAt :: int
  cg_caseId :: string
  cg_recovery :: bool

definition coord_acquire :: "coord_runtime \<Rightarrow> int \<Rightarrow> string \<Rightarrow> string \<Rightarrow> json option \<Rightarrow> coord_db \<Rightarrow> coord_db \<times> (coord_error + coord_grant)" where
  "coord_acquire rt now leaseId token input db =
     (case acquireInput input of
        Inl e \<Rightarrow> (db, Inl e)
      | Inr v \<Rightarrow>
         (case active_lease db (ai_namespace v) of
            Some l \<Rightarrow> (db, Inl (conflict (if cl_expiresAt l \<le> now then ''MUTATION_LOCK_STALE_OPERATOR_ACTION_REQUIRED'' else ''MUTATION_LOCK_HELD'')))
          | None \<Rightarrow>
              let obligations = obligations_in_namespace db (ai_namespace v) in
              if obligations \<noteq> [] \<and> \<not> (ai_recovery v \<and> list_all (\<lambda>x. ob_caseId x = ai_caseId v) obligations)
              then (db, Inl (conflict ''UNRESOLVED_PRIOR_CLEANUP''))
              else if leaseId \<in> cl_id ` set (cd_leases db) then (db, Inl (''SQLITE_CONSTRAINT'', 500))
              else (db\<lparr>cd_leases := cd_leases db @ [\<lparr>cl_id = leaseId, cl_namespace = ai_namespace v, cl_caseId = ai_caseId v, cl_holderId = ai_holderId v,
                        cl_tokenHash = Some (tokenHash rt token), cl_recovery = ai_recovery v, cl_status = LeaseActive, cl_acquiredAt = now,
                        cl_heartbeatAt = now, cl_expiresAt = now + leaseDurationMs, cl_releasedAt = None\<rparr>]\<rparr>,
                    Inr \<lparr>cg_leaseId = leaseId, cg_leaseToken = token, cg_expiresAt = now + leaseDurationMs, cg_caseId = ai_caseId v,
                         cg_recovery = ai_recovery v\<rparr>)))"

text \<open>The row an active lease is addressed by: identifier, namespace, holder and the hash of the token.\<close>

definition lease_matches :: "coord_runtime \<Rightarrow> lease_input \<Rightarrow> coord_lease \<Rightarrow> bool" where
  "lease_matches rt v l \<longleftrightarrow> cl_id l = lx_leaseId v \<and> cl_namespace l = lx_namespace v \<and> cl_holderId l = lx_holderId v
     \<and> cl_tokenHash l = Some (tokenHash rt (lx_leaseToken v)) \<and> cl_status l = LeaseActive"

definition coord_renew :: "coord_runtime \<Rightarrow> int \<Rightarrow> json option \<Rightarrow> coord_db \<Rightarrow> coord_db \<times> (coord_error + int)" where
  "coord_renew rt now input db =
     (case leaseInput input of
        Inl e \<Rightarrow> (db, Inl e)
      | Inr v \<Rightarrow>
          let db' = db\<lparr>cd_leases := map (\<lambda>l. if lease_matches rt v l then l\<lparr>cl_heartbeatAt := now, cl_expiresAt := now + leaseDurationMs\<rparr> else l) (cd_leases db)\<rparr> in
          if length (filter (lease_matches rt v) (cd_leases db)) \<noteq> 1 then (db', Inl (conflict ''MUTATION_COORDINATOR_LEASE_REJECTED''))
          else (db', Inr (now + leaseDurationMs)))"

definition delete_obligation :: "string \<Rightarrow> string \<Rightarrow> coord_db \<Rightarrow> coord_db" where
  "delete_obligation ns caseId db = db\<lparr>cd_obligations := filter (\<lambda>x. \<not> (ob_namespace x = ns \<and> ob_caseId x = caseId)) (cd_obligations db)\<rparr>"

definition upsertObligation :: "string \<Rightarrow> string \<Rightarrow> obligation_state \<Rightarrow> string \<Rightarrow> int \<Rightarrow> coord_db \<Rightarrow> coord_db" where
  "upsertObligation ns caseId state stage now db =
     (if list_ex (\<lambda>x. ob_namespace x = ns \<and> ob_caseId x = caseId) (cd_obligations db)
      then db\<lparr>cd_obligations := map (\<lambda>x. if ob_namespace x = ns \<and> ob_caseId x = caseId
                                        then x\<lparr>ob_state := state, ob_stage := stage, ob_updatedAt := now\<rparr> else x) (cd_obligations db)\<rparr>
      else db\<lparr>cd_obligations := cd_obligations db @ [\<lparr>ob_namespace = ns, ob_caseId = caseId, ob_state = state, ob_stage = stage,
                                                    ob_firstSeenAt = now, ob_updatedAt = now\<rparr>]\<rparr>)"

definition record_cleanup :: "string \<Rightarrow> string \<Rightarrow> cleanup_report \<Rightarrow> int \<Rightarrow> coord_db \<Rightarrow> coord_db" where
  "record_cleanup ns caseId c now db =
     (let stage = or_else (cu_stage c) ''MUTATION_STATE_UNCERTAIN'' in
      if cu_state c = JString ''CLEAN'' then delete_obligation ns caseId db
      else if cu_state c = JString ''UNKNOWN'' then upsertObligation ns caseId ObUnknown stage now db
      else
          let obligations = (if cu_obligations c \<noteq> [] then cu_obligations c else [(caseId, stage)]);
              db1 = (if caseId \<notin> fst ` set obligations then delete_obligation ns caseId db else db) in
          fold (\<lambda>(c', st). upsertObligation ns c' ObUnresolved st now) obligations db1)"

definition set_lease :: "(coord_lease \<Rightarrow> coord_lease) \<Rightarrow> string \<Rightarrow> coord_db \<Rightarrow> coord_db" where
  "set_lease f leaseId db = db\<lparr>cd_leases := map (\<lambda>l. if cl_id l = leaseId then f l else l) (cd_leases db)\<rparr>"

definition coord_release :: "coord_runtime \<Rightarrow> int \<Rightarrow> json option \<Rightarrow> coord_db \<Rightarrow> coord_db \<times> (coord_error + json)" where
  "coord_release rt now input db =
     (case releaseInput input of
        Inl e \<Rightarrow> (db, Inl e)
      | Inr (v, c) \<Rightarrow>
         (case find (lease_matches rt v) (cd_leases db) of
            None \<Rightarrow> (db, Inl (conflict ''MUTATION_COORDINATOR_LEASE_REJECTED''))
          | Some l \<Rightarrow>
              (set_lease (\<lambda>l. l\<lparr>cl_status := LeaseReleased, cl_tokenHash := None, cl_releasedAt := Some now, cl_heartbeatAt := now\<rparr>) (lx_leaseId v)
                 (record_cleanup (lx_namespace v) (cl_caseId l) c now db), Inr (cu_state c))))"

definition coord_orphan :: "int \<Rightarrow> json option \<Rightarrow> coord_db \<Rightarrow> coord_db \<times> (coord_error + string)" where
  "coord_orphan now input db =
     (case operatorInput input ''MARK_STALE_LEASE_STATE_UNCERTAIN'' of
        Inl e \<Rightarrow> (db, Inl e)
      | Inr ns \<Rightarrow>
         (case active_lease db ns of
            None \<Rightarrow> (db, Inl (conflict ''MUTATION_COORDINATOR_ACTIVE_LEASE_NOT_FOUND''))
          | Some l \<Rightarrow>
              if cl_expiresAt l > now then (db, Inl (conflict ''MUTATION_COORDINATOR_LEASE_NOT_STALE''))
              else (upsertObligation ns (cl_caseId l) ObOrphaned ''MUTATION_STATE_UNCERTAIN'' now
                      (set_lease (\<lambda>l. l\<lparr>cl_status := LeaseOrphaned, cl_tokenHash := None, cl_releasedAt := Some now\<rparr>) (cl_id l) db),
                    Inr (cl_caseId l))))"

definition coord_resolve :: "json option \<Rightarrow> coord_db \<Rightarrow> coord_db \<times> (coord_error + string)" where
  "coord_resolve input db =
     (case resolveInput input of
        Inl e \<Rightarrow> (db, Inl e)
      | Inr (ns, caseId) \<Rightarrow>
          if active_lease db ns \<noteq> None then (db, Inl (conflict ''MUTATION_LOCK_HELD''))
          else if length (filter (\<lambda>x. ob_namespace x = ns \<and> ob_caseId x = caseId) (cd_obligations db)) \<noteq> 1
          then (db, Inl (conflict ''MUTATION_COORDINATOR_OBLIGATION_NOT_FOUND''))
          else (delete_obligation ns caseId db, Inr caseId))"

text \<open>The status an operator reads: the active lease and whether it is stale, and the obligations.\<close>

definition coord_status_of :: "int \<Rightarrow> string \<Rightarrow> coord_db \<Rightarrow> coord_error + (coord_lease \<times> bool) option \<times> coord_obligation list" where
  "coord_status_of now ns db =
     ebind (ensureNamespace ns) (\<lambda>n. Inr (map_option (\<lambda>l. (l, cl_expiresAt l \<le> now)) (active_lease db n), obligations_in_namespace db n))"

section \<open>Routes and runs\<close>

datatype coord_output = CoordGranted coord_grant | CoordRenewed int | CoordReleased json | CoordFailed coord_error | CoordDone string

definition coord_answer :: "('a \<Rightarrow> coord_output) \<Rightarrow> coord_db \<times> (coord_error + 'a) \<Rightarrow> coord_db \<times> coord_output" where
  "coord_answer f r = (fst r, case snd r of Inl e \<Rightarrow> CoordFailed e | Inr x \<Rightarrow> f x)"

text \<open>A call of a client, and what an operator does.\<close>

datatype coord_op =
    CoordCall "int \<times> int \<times> int" int string string string json "(string \<times> string) list"
  | CoordOrphan int json
  | CoordResolve json

fun coord_exec :: "coord_runtime \<Rightarrow> string \<Rightarrow> coord_op \<Rightarrow> coord_db \<Rightarrow> coord_db \<times> coord_output" where
  "coord_exec rt secret (CoordCall clock now leaseId token path body headers) db =
     (case authenticate rt secret clock ''POST'' path body headers db of
        (db1, Some e) \<Rightarrow> (db1, CoordFailed e)
      | (db1, None) \<Rightarrow>
          if ends_with path ''/acquire'' then coord_answer CoordGranted (coord_acquire rt now leaseId token (Some body) db1)
          else if ends_with path ''/renew'' then coord_answer CoordRenewed (coord_renew rt now (Some body) db1)
          else if ends_with path ''/release'' then coord_answer CoordReleased (coord_release rt now (Some body) db1)
          else (db1, CoordFailed (''Mutation coordination operation not found.'', 404)))"
| "coord_exec rt secret (CoordOrphan now body) db = coord_answer CoordDone (coord_orphan now (Some body) db)"
| "coord_exec rt secret (CoordResolve body) db = coord_answer CoordDone (coord_resolve (Some body) db)"

text \<open>\<^verbatim>\<open>readJson\<close> and the branch of the server for a request of a host; a fault that is not the service's own has status 500.\<close>

definition readJson :: "coord_runtime \<Rightarrow> nat \<Rightarrow> string \<Rightarrow> coord_error + json" where
  "readJson rt limit raw =
     (if length (utf8_bytes raw) > limit then Inl (''JSON body too large.'', 413)
      else case jr_parse rt (if raw = [] then ''{}'' else raw) of None \<Rightarrow> Inl (''SyntaxError'', 500) | Some body \<Rightarrow> Inr body)"

definition coord_serve :: "coord_runtime \<Rightarrow> string \<Rightarrow> nat \<Rightarrow> int \<times> int \<times> int \<Rightarrow> int \<Rightarrow> string \<Rightarrow> string \<Rightarrow>
    string \<times> (string \<times> string) list \<times> string \<Rightarrow> coord_db \<Rightarrow> coord_db \<times> coord_output" where
  "coord_serve rt secret limit clock now leaseId token request db =
     (case request of (path, headers, raw) \<Rightarrow>
        (case readJson rt limit raw of
           Inl e \<Rightarrow> (db, CoordFailed e)
         | Inr body \<Rightarrow> coord_exec rt secret (CoordCall clock now leaseId token path body headers) db))"

section \<open>The client\<close>

record coord_client =
  cc_endpoint :: url
  cc_namespace :: string
  cc_sharedSecret :: string
  cc_clientId :: string

definition validateEndpoint :: "coord_runtime \<Rightarrow> string \<Rightarrow> string + url" where
  "validateEndpoint rt value =
     (case rt_newURL rt value of
        None \<Rightarrow> Inl ''MUTATION_COORDINATOR_URL_INVALID''
      | Some u \<Rightarrow>
          let loopback = u_hostname u \<in> {''localhost'', ''127.0.0.1'', ''::1'', ''[::1]''} in
          if u_protocol u \<noteq> ''https:'' \<and> \<not> (u_protocol u = ''http:'' \<and> loopback) then Inl ''MUTATION_COORDINATOR_HTTPS_REQUIRED''
          else if u_username u \<noteq> [] \<or> u_password u \<noteq> [] \<or> u_search u \<noteq> [] \<or> u_hash u \<noteq> [] \<or> u_pathname u \<notin> {[], ''/''}
          then Inl ''MUTATION_COORDINATOR_URL_INVALID''
          else case rt_newURL rt (url_origin u) of None \<Rightarrow> Inl ''TypeError'' | Some origin \<Rightarrow> Inr origin)"

text \<open>The constructor; \<open>fresh\<close> is the identifier it draws where none is configured.\<close>

definition new_coord_client :: "coord_runtime \<Rightarrow> string \<Rightarrow> string \<Rightarrow> string \<Rightarrow> string option \<Rightarrow> string \<Rightarrow> string + coord_client" where
  "new_coord_client rt endpoint ns sharedSecret clientId fresh =
     ebind (validateEndpoint rt endpoint) (\<lambda>u.
       if \<not> namespacePattern ns then Inl ''MUTATION_COORDINATOR_NAMESPACE_INVALID''
       else if length (utf8_bytes sharedSecret) < 32 then Inl ''MUTATION_COORDINATOR_SECRET_INVALID''
       else if \<not> namespacePattern (or_else clientId fresh) then Inl ''MUTATION_COORDINATOR_CLIENT_ID_INVALID''
       else Inr \<lparr>cc_endpoint = u, cc_namespace = ns, cc_sharedSecret = sharedSecret, cc_clientId = or_else clientId fresh\<rparr>)"

definition acquire_body :: "coord_client \<Rightarrow> string \<Rightarrow> string \<Rightarrow> bool \<Rightarrow> json" where
  "acquire_body c caseId holderId recovery =
     JObject [(''namespace'', JString (cc_namespace c)), (''caseId'', JString caseId), (''holderId'', JString holderId), (''recovery'', JBool recovery)]"

definition lease_fields :: "coord_client \<Rightarrow> coord_grant \<Rightarrow> string \<Rightarrow> (string \<times> json) list" where
  "lease_fields c lease holderId =
     [(''namespace'', JString (cc_namespace c)), (''leaseId'', JString (cg_leaseId lease)), (''leaseToken'', JString (cg_leaseToken lease)),
      (''holderId'', JString holderId)]"

definition renew_body :: "coord_client \<Rightarrow> coord_grant \<Rightarrow> string \<Rightarrow> json" where
  "renew_body c lease holderId = JObject (lease_fields c lease holderId)"

definition release_body :: "coord_client \<Rightarrow> coord_grant \<Rightarrow> string \<Rightarrow> json \<Rightarrow> json" where
  "release_body c lease holderId cleanup = JObject (lease_fields c lease holderId @ [(''cleanup'', cleanup)])"

text \<open>What \<^verbatim>\<open>call\<close> puts into its request: the path, the headers the service reads, and the text of the body.\<close>

definition coord_call :: "coord_runtime \<Rightarrow> coord_client \<Rightarrow> string \<Rightarrow> json \<Rightarrow> int \<Rightarrow> string \<Rightarrow> string \<times> (string \<times> string) list \<times> string" where
  "coord_call rt c operation body now nonce =
     (let path = ''/api/mutation-coordination/'' @ operation; raw = canonical rt body; timestamp = toISOString now;
          signature = cr_toBase64url rt (cr_hmac rt (cc_sharedSecret c)
            (join_with [CHR 0x0A] [''routecairn-mutation-coordinator-v1'', ''POST'', path, timestamp, nonce, rt_sha256 rt raw])) in
      (path, [(''x-routecairn-coordinator-client'', cc_clientId c), (''x-routecairn-timestamp'', timestamp), (''x-routecairn-nonce'', nonce),
              (''x-routecairn-signature'', signature)], raw))"

text \<open>What \<^verbatim>\<open>call\<close> makes of the answer: \<open>failed\<close> is a transport error, \<open>preview\<close> the text of the body where there is one.\<close>

definition coord_response :: "coord_runtime \<Rightarrow> bool \<Rightarrow> int option \<Rightarrow> string option \<Rightarrow> string + json" where
  "coord_response rt failed status preview =
     (if failed then Inl ''MUTATION_COORDINATOR_UNAVAILABLE''
      else case jr_parse rt (or_else preview ''{}'') of
          None \<Rightarrow> Inl ''MUTATION_COORDINATOR_INVALID_RESPONSE''
        | Some parsed \<Rightarrow>
            if case status of None \<Rightarrow> True | Some s \<Rightarrow> s = 0 \<or> s < 200 \<or> s \<ge> 300
            then Inl (case parsed of JObject kvs \<Rightarrow> (case map_of kvs ''code'' of Some (JString code) \<Rightarrow> code | _ \<Rightarrow> ''MUTATION_COORDINATOR_REJECTED'')
                        | _ \<Rightarrow> ''MUTATION_COORDINATOR_REJECTED'')
            else Inr parsed)"

end
