(* ===== verification/RC_CoordinatorFacts.thy ===== *)
theory RC_CoordinatorFacts
  imports RC_Coordinator
begin

text \<open>
  What the coordinator promises to the hosts. Each namespace is a small machine: it is held by at most one lease and has a set of open
  cases. The tables refine this machine in every step; from the machine follows that a case whose holder vanished blocks its namespace
  until a release in that namespace or an operator settles it. Replays and the calls of the client come behind it.
\<close>

section \<open>The machine of a namespace\<close>

record ns_view =
  nv_active :: "(string \<times> string) option"
  nv_open :: "string set"

datatype ns_report = ReportClean | ReportUnknown | ReportUnresolved "string set"

datatype ns_event =
    NsIdle
  | NsGranted string string bool
  | NsReleased string ns_report
  | NsOrphaned string
  | NsResolved string

fun left_open :: "string \<Rightarrow> ns_report \<Rightarrow> string set" where
  "left_open c ReportClean = {}"
| "left_open c ReportUnknown = {c}"
| "left_open c (ReportUnresolved S) = (if S = {} then {c} else S)"

inductive ns_step :: "ns_view \<Rightarrow> ns_event \<Rightarrow> ns_view \<Rightarrow> bool" where
  idle: "ns_step v NsIdle v"
| granted: "nv_active v = None \<Longrightarrow> nv_open v \<subseteq> (if recovery then {c} else {}) \<Longrightarrow>
    ns_step v (NsGranted i c recovery) (v\<lparr>nv_active := Some (i, c)\<rparr>)"
| released: "nv_active v = Some (i, c) \<Longrightarrow>
    ns_step v (NsReleased i rep) \<lparr>nv_active = None, nv_open = nv_open v - {c} \<union> left_open c rep\<rparr>"
| orphaned: "nv_active v = Some (i, c) \<Longrightarrow>
    ns_step v (NsOrphaned c) \<lparr>nv_active = None, nv_open = insert c (nv_open v)\<rparr>"
| resolved: "nv_active v = None \<Longrightarrow> c \<in> nv_open v \<Longrightarrow>
    ns_step v (NsResolved c) (v\<lparr>nv_open := nv_open v - {c}\<rparr>)"

inductive_cases ns_grantedE: "ns_step v (NsGranted i c r) v'"
inductive_cases ns_releasedE: "ns_step v (NsReleased i r) v'"
inductive_cases ns_orphanedE: "ns_step v (NsOrphaned c) v'"
inductive_cases ns_resolvedE: "ns_step v (NsResolved c) v'"
inductive_cases ns_idleE: "ns_step v NsIdle v'"

inductive ns_run :: "ns_view \<Rightarrow> ns_event list \<Rightarrow> ns_view \<Rightarrow> bool" where
  nil: "ns_run v [] v"
| cons: "ns_step v e v' \<Longrightarrow> ns_run v' es v'' \<Longrightarrow> ns_run v (e # es) v''"

text \<open>A case is pending while a lease for it is active or its cleanup is open.\<close>

definition case_pending :: "string \<Rightarrow> ns_view \<Rightarrow> bool" where
  "case_pending c v \<longleftrightarrow> c \<in> nv_open v \<or> c \<in> snd ` set_option (nv_active v)"

fun settles :: "string \<Rightarrow> ns_event \<Rightarrow> bool" where
  "settles c (NsReleased i rep) = True"
| "settles c (NsResolved c') = (c' = c)"
| "settles c _ = False"

fun recovers_only :: "string \<Rightarrow> ns_event \<Rightarrow> bool" where
  "recovers_only c (NsGranted i c' recovery) \<longleftrightarrow> recovery \<and> c' = c"
| "recovers_only c _ \<longleftrightarrow> True"

lemma case_pending_step:
  assumes "ns_step v e v'" "case_pending c v" "\<not> settles c e"
  shows "case_pending c v' \<and> recovers_only c e"
  using assms by cases (auto simp: case_pending_def split: if_splits)

lemma case_pending_run:
  assumes "ns_run v es v'" "case_pending c v" "list_all (\<lambda>e. \<not> settles c e) es"
  shows "case_pending c v' \<and> list_all (recovers_only c) es"
  using assms by (induction rule: ns_run.induct) (use case_pending_step in auto)

section \<open>The invariant of the tables\<close>

definition obligation_key :: "coord_obligation \<Rightarrow> string \<times> string" where
  "obligation_key x = (ob_namespace x, ob_caseId x)"

definition active_leases :: "coord_lease list \<Rightarrow> coord_lease list" where
  "active_leases ls = filter (\<lambda>l. cl_status l = LeaseActive) ls"

definition lease_row_ok :: "coord_lease \<Rightarrow> bool" where
  "lease_row_ok l \<longleftrightarrow> (cl_status l = LeaseActive \<longleftrightarrow> cl_tokenHash l \<noteq> None) \<and> (cl_status l = LeaseActive \<longleftrightarrow> cl_releasedAt l = None)"

definition coord_ok :: "coord_db \<Rightarrow> bool" where
  "coord_ok db \<longleftrightarrow> distinct (map cl_id (cd_leases db)) \<and> distinct (map cl_namespace (active_leases (cd_leases db)))
     \<and> list_all lease_row_ok (cd_leases db) \<and> distinct (map obligation_key (cd_obligations db))
     \<and> distinct (map (\<lambda>(c, n, _). (c, n)) (cd_nonces db))"

definition empty_coord :: coord_db where
  "empty_coord = \<lparr>cd_leases = [], cd_obligations = [], cd_nonces = []\<rparr>"

inductive coord_reach :: "coord_runtime \<Rightarrow> string \<Rightarrow> coord_db \<Rightarrow> bool" for rt secret where
  start: "coord_reach rt secret empty_coord"
| step: "coord_reach rt secret db \<Longrightarrow> coord_reach rt secret (fst (coord_exec rt secret op db))"

text \<open>The view of a namespace.\<close>

definition view :: "coord_db \<Rightarrow> string \<Rightarrow> ns_view" where
  "view db ns = \<lparr>nv_active = map_option (\<lambda>l. (cl_id l, cl_caseId l)) (active_lease db ns),
     nv_open = {c. (ns, c) \<in> obligation_key ` set (cd_obligations db)}\<rparr>"

lemma view_cong:
  "cd_leases db' = cd_leases db \<Longrightarrow> cd_obligations db' = cd_obligations db \<Longrightarrow> view db' = view db"
  by (simp add: view_def active_lease_def fun_eq_iff)

lemma active_lease_SomeD:
  "active_lease db ns = Some l \<Longrightarrow> l \<in> set (cd_leases db) \<and> cl_namespace l = ns \<and> cl_status l = LeaseActive"
  unfolding active_lease_def find_Some_iff by auto

lemma active_lease_None_iff:
  "active_lease db ns = None \<longleftrightarrow> (\<forall>l\<in>set (cd_leases db). cl_status l = LeaseActive \<longrightarrow> cl_namespace l \<noteq> ns)"
  unfolding active_lease_def find_None_iff by auto

lemma distinct_map_same:
  "distinct (map f xs) \<Longrightarrow> x \<in> set xs \<Longrightarrow> y \<in> set xs \<Longrightarrow> f x = f y \<Longrightarrow> x = y"
  by (auto simp: distinct_map inj_on_def)

lemma active_lease_unique:
  assumes "coord_ok db" "l \<in> set (cd_leases db)" "cl_status l = LeaseActive"
  shows "active_lease db (cl_namespace l) = Some l"
proof -
  obtain m where m: "active_lease db (cl_namespace l) = Some m"
    using assms active_lease_None_iff [of db "cl_namespace l"] by (cases "active_lease db (cl_namespace l)") auto
  have "m = l"
    using distinct_map_same [of cl_namespace "active_leases (cd_leases db)" m l] active_lease_SomeD [OF m] assms
    by (auto simp: coord_ok_def active_leases_def)
  then show ?thesis using m by simp
qed

lemma active_lease_iff:
  assumes "coord_ok db"
  shows "active_lease db ns = Some l \<longleftrightarrow> l \<in> set (cd_leases db) \<and> cl_namespace l = ns \<and> cl_status l = LeaseActive"
  using active_lease_SomeD active_lease_unique [OF assms] by blast

section \<open>Effects on the tables\<close>

text \<open>Keys of the open obligations.\<close>

definition obligation_keys :: "coord_db \<Rightarrow> (string \<times> string) set" where
  "obligation_keys db = obligation_key ` set (cd_obligations db)"

lemma obligation_table_leases [simp]:
  "cd_leases (delete_obligation ns c db) = cd_leases db"
  "cd_leases (upsertObligation ns c s st now db) = cd_leases db"
  "cd_nonces (delete_obligation ns c db) = cd_nonces db"
  "cd_nonces (upsertObligation ns c s st now db) = cd_nonces db"
  by (simp_all add: delete_obligation_def upsertObligation_def)

lemma fold_upsert_leases [simp]:
  "cd_leases (fold (\<lambda>(c, st). upsertObligation ns c s st now) xs db) = cd_leases db"
  "cd_nonces (fold (\<lambda>(c, st). upsertObligation ns c s st now) xs db) = cd_nonces db"
  by (induction xs arbitrary: db) auto

lemma record_cleanup_leases [simp]:
  "cd_leases (record_cleanup ns c r now db) = cd_leases db"
  "cd_nonces (record_cleanup ns c r now db) = cd_nonces db"
  by (simp_all add: record_cleanup_def Let_def)

lemma set_lease_tables [simp]:
  "cd_obligations (set_lease f i db) = cd_obligations db"
  "cd_nonces (set_lease f i db) = cd_nonces db"
  by (simp_all add: set_lease_def)

lemma keys_delete [simp]: "obligation_keys (delete_obligation ns c db) = obligation_keys db - {(ns, c)}"
  by (auto simp: obligation_keys_def delete_obligation_def obligation_key_def)

lemma upsert_key_list:
  "map obligation_key (cd_obligations (upsertObligation ns c s st now db)) =
     (if (ns, c) \<in> obligation_keys db then map obligation_key (cd_obligations db) else map obligation_key (cd_obligations db) @ [(ns, c)])"
  by (auto simp: upsertObligation_def obligation_keys_def obligation_key_def list_ex_iff image_iff)

lemma keys_upsert [simp]: "obligation_keys (upsertObligation ns c s st now db) = insert (ns, c) (obligation_keys db)"
  using arg_cong [OF upsert_key_list, of set ns c s st now db] by (auto simp: obligation_keys_def split: if_splits)

lemma keys_fold_upsert [simp]:
  "obligation_keys (fold (\<lambda>(c, st). upsertObligation ns c s st now) xs db) = obligation_keys db \<union> Pair ns ` fst ` set xs"
  by (induction xs arbitrary: db) auto

definition report_of :: "cleanup_report \<Rightarrow> ns_report" where
  "report_of r = (if cu_state r = JString ''CLEAN'' then ReportClean else if cu_state r = JString ''UNKNOWN'' then ReportUnknown
     else ReportUnresolved (fst ` set (cu_obligations r)))"

lemma keys_record_cleanup:
  "obligation_keys (record_cleanup ns c r now db) = obligation_keys db - {(ns, c)} \<union> Pair ns ` left_open c (report_of r)"
  by (auto simp: record_cleanup_def report_of_def Let_def image_iff)

definition obligations_distinct :: "coord_db \<Rightarrow> bool" where
  "obligations_distinct db \<longleftrightarrow> distinct (map obligation_key (cd_obligations db))"

lemma distinct_delete: "obligations_distinct db \<Longrightarrow> obligations_distinct (delete_obligation ns c db)"
  by (simp add: obligations_distinct_def delete_obligation_def distinct_map inj_on_def)

lemma distinct_upsert: "obligations_distinct db \<Longrightarrow> obligations_distinct (upsertObligation ns c s st now db)"
  unfolding obligations_distinct_def upsert_key_list by (auto simp: obligation_keys_def)

lemma distinct_fold_upsert:
  "obligations_distinct db \<Longrightarrow> obligations_distinct (fold (\<lambda>(c, st). upsertObligation ns c s st now) xs db)"
  by (induction xs arbitrary: db) (auto simp: distinct_upsert)

lemma distinct_record_cleanup: "obligations_distinct db \<Longrightarrow> obligations_distinct (record_cleanup ns c r now db)"
  by (auto simp: record_cleanup_def Let_def intro!: distinct_fold_upsert distinct_upsert distinct_delete)

text \<open>Leases.\<close>

definition leases_ok :: "coord_lease list \<Rightarrow> bool" where
  "leases_ok ls \<longleftrightarrow> distinct (map cl_id ls) \<and> distinct (map cl_namespace (active_leases ls)) \<and> list_all lease_row_ok ls"

lemma coord_ok_split:
  "coord_ok db \<longleftrightarrow> leases_ok (cd_leases db) \<and> obligations_distinct db \<and> distinct (map (\<lambda>(c, n, _). (c, n)) (cd_nonces db))"
  by (auto simp: coord_ok_def leases_ok_def obligations_distinct_def)

lemma leases_ok_renewed:
  assumes "leases_ok ls" "\<And>l. cl_id (g l) = cl_id l \<and> cl_namespace (g l) = cl_namespace l \<and> cl_status (g l) = cl_status l
     \<and> cl_tokenHash (g l) = cl_tokenHash l \<and> cl_releasedAt (g l) = cl_releasedAt l"
  shows "leases_ok (map g ls)"
proof -
  have "map cl_id (map g ls) = map cl_id ls" "map cl_namespace (active_leases (map g ls)) = map cl_namespace (active_leases ls)"
    "list_all lease_row_ok (map g ls) = list_all lease_row_ok ls"
    using assms(2) by (induction ls) (auto simp: active_leases_def lease_row_ok_def)
  then show ?thesis using assms(1) by (simp only: leases_ok_def)
qed

text \<open>An update that ends a lease: it keeps the identifier and leaves the row without token and with an instant of release.\<close>

definition ends_lease :: "(coord_lease \<Rightarrow> coord_lease) \<Rightarrow> bool" where
  "ends_lease f \<longleftrightarrow> (\<forall>l. cl_id (f l) = cl_id l \<and> cl_status (f l) \<noteq> LeaseActive \<and> cl_tokenHash (f l) = None \<and> cl_releasedAt (f l) \<noteq> None)"

lemma active_leases_ended:
  "ends_lease f \<Longrightarrow> active_leases (map (\<lambda>l. if cl_id l = i then f l else l) ls) = filter (\<lambda>l. cl_id l \<noteq> i) (active_leases ls)"
  by (induction ls) (auto simp: active_leases_def ends_lease_def)

lemma lease_row_ended: "ends_lease f \<Longrightarrow> lease_row_ok (f l)"
  unfolding ends_lease_def lease_row_ok_def by (drule spec [of _ l]) simp

lemma leases_ok_ended:
  assumes "leases_ok ls" "ends_lease f"
  shows "leases_ok (map (\<lambda>l. if cl_id l = i then f l else l) ls)"
proof -
  have "map cl_id (map (\<lambda>l. if cl_id l = i then f l else l) ls) = map cl_id ls"
    using assms(2) by (simp add: ends_lease_def)
  moreover have "list_all lease_row_ok (map (\<lambda>l. if cl_id l = i then f l else l) ls)"
    using assms(1) lease_row_ended [OF assms(2)] by (auto simp: leases_ok_def list_all_iff)
  ultimately show ?thesis
    using assms(1) by (simp only: leases_ok_def active_leases_ended [OF assms(2)]) (simp add: distinct_map inj_on_def)
qed

lemma active_lease_ended:
  assumes ok: "coord_ok db" and l: "active_lease db n = Some l" and f: "ends_lease f"
  shows "active_lease (set_lease f (cl_id l) db) ns = (if ns = n then None else active_lease db ns)"
proof -
  let ?db = "set_lease f (cl_id l) db"
  have ok': "leases_ok (cd_leases ?db)"
    using leases_ok_ended [OF _ f] ok by (simp add: set_lease_def coord_ok_split)
  have mem: "m \<in> set (cd_leases ?db) \<and> cl_status m = LeaseActive \<longleftrightarrow> m \<in> set (cd_leases db) \<and> cl_status m = LeaseActive \<and> m \<noteq> l" for m
    using active_lease_SomeD [OF l] f ok distinct_map_same [of cl_id "cd_leases db" _ l]
    by (auto simp: set_lease_def ends_lease_def coord_ok_def)
  have coord': "coord_ok ?db" using ok ok' by (simp add: coord_ok_split obligations_distinct_def)
  have iff: "active_lease ?db ns = Some m \<longleftrightarrow> active_lease db ns = Some m \<and> m \<noteq> l" for m
    unfolding active_lease_iff [OF ok] active_lease_iff [OF coord'] using mem [of m] by blast
  show ?thesis
  proof (cases "ns = n")
    case True
    then show ?thesis using iff l by (cases "active_lease ?db ns") simp_all
  next
    case False
    then have "active_lease db ns \<noteq> Some l" using active_lease_SomeD [OF l] active_lease_SomeD [of db ns l] by blast
    then have "active_lease ?db ns = Some m \<longleftrightarrow> active_lease db ns = Some m" for m using iff [of m] by blast
    then have "active_lease ?db ns = active_lease db ns"
      by (metis option.exhaust)
    then show ?thesis using False by simp
  qed
qed

section \<open>The operations on the tables\<close>

definition granted_lease :: "coord_runtime \<Rightarrow> int \<Rightarrow> string \<Rightarrow> string \<Rightarrow> acquire_input \<Rightarrow> coord_lease" where
  "granted_lease rt now i tok v = \<lparr>cl_id = i, cl_namespace = ai_namespace v, cl_caseId = ai_caseId v, cl_holderId = ai_holderId v,
     cl_tokenHash = Some (tokenHash rt tok), cl_recovery = ai_recovery v, cl_status = LeaseActive, cl_acquiredAt = now,
     cl_heartbeatAt = now, cl_expiresAt = now + leaseDurationMs, cl_releasedAt = None\<rparr>"

lemma coord_acquire_cases:
  assumes "coord_acquire rt now i tok input db = (db', r)"
  obtains (refused) "isl r" "db' = db"
  | (granted) v g where "acquireInput input = Inr v" "active_lease db (ai_namespace v) = None"
      "obligations_in_namespace db (ai_namespace v) = []
         \<or> ai_recovery v \<and> list_all (\<lambda>x. ob_caseId x = ai_caseId v) (obligations_in_namespace db (ai_namespace v))"
      "i \<notin> cl_id ` set (cd_leases db)" "db' = db\<lparr>cd_leases := cd_leases db @ [granted_lease rt now i tok v]\<rparr>" "r = Inr g"
      "cg_leaseId g = i" "cg_leaseToken g = tok" "cg_caseId g = ai_caseId v" "cg_recovery g = ai_recovery v"
proof (cases "acquireInput input")
  case (Inl e)
  then show ?thesis using assms by (intro refused) (auto simp: coord_acquire_def)
next
  case (Inr v)
  show ?thesis
  proof (cases "active_lease db (ai_namespace v)")
    case (Some l)
    then show ?thesis using assms Inr by (intro refused) (auto simp: coord_acquire_def)
  next
    case None
    let ?obs = "obligations_in_namespace db (ai_namespace v)"
    show ?thesis
    proof (cases "?obs \<noteq> [] \<and> \<not> (ai_recovery v \<and> list_all (\<lambda>x. ob_caseId x = ai_caseId v) ?obs) \<or> i \<in> cl_id ` set (cd_leases db)")
      case True
      then show ?thesis using assms Inr None by (intro refused) (auto simp: coord_acquire_def Let_def split: if_splits)
    next
      case False
      then show ?thesis
        using assms Inr None
        by (intro granted [of v "\<lparr>cg_leaseId = i, cg_leaseToken = tok, cg_expiresAt = now + leaseDurationMs, cg_caseId = ai_caseId v,
              cg_recovery = ai_recovery v\<rparr>"]) (auto simp: coord_acquire_def Let_def granted_lease_def)
    qed
  qed
qed

lemma coord_renew_cases:
  assumes "coord_renew rt now input db = (db', r)"
  obtains (unread) "isl r" "db' = db"
  | (read) v where "leaseInput input = Inr v"
      "db' = db\<lparr>cd_leases := map (\<lambda>l. if lease_matches rt v l then l\<lparr>cl_heartbeatAt := now, cl_expiresAt := now + leaseDurationMs\<rparr> else l) (cd_leases db)\<rparr>"
  using assms that by (cases "leaseInput input") (auto simp: coord_renew_def Let_def split: if_splits)

lemma coord_release_cases:
  assumes "coord_release rt now input db = (db', r)"
  obtains (refused) "isl r" "db' = db"
  | (released) v c l f where "releaseInput input = Inr (v, c)" "l \<in> set (cd_leases db)" "lease_matches rt v l" "ends_lease f"
      "db' = set_lease f (cl_id l) (record_cleanup (lx_namespace v) (cl_caseId l) c now db)" "r = Inr (cu_state c)"
proof (cases "releaseInput input")
  case (Inl e)
  then show ?thesis using assms by (intro refused) (auto simp: coord_release_def)
next
  case (Inr p)
  obtain v c where p: "p = (v, c)" by (cases p)
  show ?thesis
  proof (cases "find (lease_matches rt v) (cd_leases db)")
    case None
    then show ?thesis using assms Inr p by (intro refused) (auto simp: coord_release_def)
  next
    case (Some l)
    then have "lease_matches rt v l" "l \<in> set (cd_leases db)" unfolding find_Some_iff by auto
    moreover from this have "cl_id l = lx_leaseId v" by (simp add: lease_matches_def)
    ultimately show ?thesis
      using assms Some Inr p
      by (intro released [of v c l "\<lambda>l. l\<lparr>cl_status := LeaseReleased, cl_tokenHash := None, cl_releasedAt := Some now, cl_heartbeatAt := now\<rparr>"])
        (auto simp: coord_release_def ends_lease_def)
  qed
qed

lemma coord_orphan_cases:
  assumes "coord_orphan now input db = (db', r)"
  obtains (refused) "isl r" "db' = db"
  | (orphaned) ns l f where "operatorInput input ''MARK_STALE_LEASE_STATE_UNCERTAIN'' = Inr ns" "active_lease db ns = Some l"
      "cl_expiresAt l \<le> now" "ends_lease f"
      "db' = upsertObligation ns (cl_caseId l) ObOrphaned ''MUTATION_STATE_UNCERTAIN'' now (set_lease f (cl_id l) db)" "r = Inr (cl_caseId l)"
proof (cases "operatorInput input ''MARK_STALE_LEASE_STATE_UNCERTAIN''")
  case (Inl e)
  then have "db' = db" "r = Inl e" using assms by (simp_all add: coord_orphan_def)
  then show ?thesis by (intro refused) simp_all
next
  case (Inr ns)
  show ?thesis
  proof (cases "active_lease db ns")
    case None
    then show ?thesis using assms Inr by (intro refused) (auto simp: coord_orphan_def)
  next
    case (Some l)
    show ?thesis
    proof (cases "cl_expiresAt l > now")
      case True
      then show ?thesis using assms Inr Some by (intro refused) (auto simp: coord_orphan_def)
    next
      case False
      then show ?thesis
        using assms Inr Some
        by (intro orphaned [of ns l "\<lambda>l. l\<lparr>cl_status := LeaseOrphaned, cl_tokenHash := None, cl_releasedAt := Some now\<rparr>"])
          (simp_all add: coord_orphan_def ends_lease_def)
    qed
  qed
qed

lemma coord_resolve_cases:
  assumes "coord_resolve input db = (db', r)"
  obtains (refused) "isl r" "db' = db"
  | (resolved) ns c where "resolveInput input = Inr (ns, c)" "active_lease db ns = None" "(ns, c) \<in> obligation_keys db"
      "db' = delete_obligation ns c db" "r = Inr c"
proof (cases "resolveInput input")
  case (Inl e)
  then show ?thesis using assms by (intro refused) (auto simp: coord_resolve_def)
next
  case (Inr p)
  obtain ns c where p: "p = (ns, c)" by (cases p)
  let ?hits = "filter (\<lambda>x. ob_namespace x = ns \<and> ob_caseId x = c) (cd_obligations db)"
  show ?thesis
  proof (cases "active_lease db ns \<noteq> None \<or> length ?hits \<noteq> 1")
    case True
    then show ?thesis using assms Inr p by (intro refused) (auto simp: coord_resolve_def split: if_splits)
  next
    case False
    then have "?hits \<noteq> []" by auto
    then have "(ns, c) \<in> obligation_keys db" by (auto simp: filter_empty_conv obligation_keys_def obligation_key_def)
    then show ?thesis using assms False Inr p by (intro resolved [of ns c]) (auto simp: coord_resolve_def)
  qed
qed

section \<open>Every step refines the machine of every namespace\<close>

fun ns_event_of :: "coord_op \<Rightarrow> coord_output \<Rightarrow> string \<Rightarrow> ns_event" where
  "ns_event_of (CoordCall clock now i tok path body headers) (CoordGranted g) ns =
     (case acquireInput (Some body) of Inl e \<Rightarrow> NsIdle
      | Inr v \<Rightarrow> if ai_namespace v = ns then NsGranted (cg_leaseId g) (cg_caseId g) (cg_recovery g) else NsIdle)"
| "ns_event_of (CoordCall clock now i tok path body headers) (CoordReleased st) ns =
     (case releaseInput (Some body) of Inl e \<Rightarrow> NsIdle
      | Inr (v, c) \<Rightarrow> if lx_namespace v = ns then NsReleased (lx_leaseId v) (report_of c) else NsIdle)"
| "ns_event_of (CoordOrphan now body) (CoordDone c) ns =
     (if operatorInput (Some body) ''MARK_STALE_LEASE_STATE_UNCERTAIN'' = Inr ns then NsOrphaned c else NsIdle)"
| "ns_event_of (CoordResolve body) (CoordDone c) ns =
     (if resolveInput (Some body) = Inr (ns, c) then NsResolved c else NsIdle)"
| "ns_event_of _ _ ns = NsIdle"

lemma view_alt:
  "view db ns = \<lparr>nv_active = map_option (\<lambda>l. (cl_id l, cl_caseId l)) (active_lease db ns), nv_open = {c. (ns, c) \<in> obligation_keys db}\<rparr>"
  by (simp add: view_def obligation_keys_def)

lemma active_lease_cong: "cd_leases db' = cd_leases db \<Longrightarrow> active_lease db' = active_lease db"
  by (simp add: active_lease_def fun_eq_iff)

lemma obligation_keys_cong: "cd_obligations db' = cd_obligations db \<Longrightarrow> obligation_keys db' = obligation_keys db"
  by (simp add: obligation_keys_def)

lemma active_lease_append:
  assumes "active_lease db (cl_namespace l) = None" "cl_status l = LeaseActive"
  shows "active_lease (db\<lparr>cd_leases := cd_leases db @ [l]\<rparr>) ns = (if ns = cl_namespace l then Some l else active_lease db ns)"
proof -
  have app: "find P (xs @ [l]) = (case find P xs of None \<Rightarrow> if P l then Some l else None | Some y \<Rightarrow> Some y)" for P and xs :: "coord_lease list"
    by (induction xs) auto
  show ?thesis using assms by (auto simp: active_lease_def app split: option.splits)
qed

lemma active_lease_renewed:
  assumes "\<And>l. cl_id (g l) = cl_id l \<and> cl_namespace (g l) = cl_namespace l \<and> cl_status (g l) = cl_status l"
  shows "active_lease (db\<lparr>cd_leases := map g (cd_leases db)\<rparr>) ns = map_option g (active_lease db ns)"
proof -
  have "find (\<lambda>l. cl_namespace l = ns \<and> cl_status l = LeaseActive) (map g ls)
      = map_option g (find (\<lambda>l. cl_namespace l = ns \<and> cl_status l = LeaseActive) ls)" for ls
    using assms by (induction ls) auto
  then show ?thesis by (simp add: active_lease_def)
qed

lemma acquire_refines:
  assumes "coord_ok db" "coord_acquire rt now i tok (Some body) db = (db', r)"
  shows "coord_ok db' \<and> ns_step (view db ns)
           (ns_event_of (CoordCall clock now i tok path body headers) (case r of Inl e \<Rightarrow> CoordFailed e | Inr g \<Rightarrow> CoordGranted g) ns) (view db' ns)"
  using assms(2)
proof (cases rule: coord_acquire_cases)
  case refused
  then show ?thesis using assms(1) by (cases r) (auto intro: ns_step.idle)
next
  case (granted v g)
  let ?l = "granted_lease rt now i tok v"
  have l: "cl_namespace ?l = ai_namespace v" "cl_status ?l = LeaseActive" "cl_id ?l = i" "cl_caseId ?l = ai_caseId v" "lease_row_ok ?l"
    by (simp_all add: granted_lease_def lease_row_ok_def)
  have free: "ai_namespace v \<notin> cl_namespace ` set (active_leases (cd_leases db))"
    using granted(2) by (auto simp: active_lease_None_iff active_leases_def)
  have "coord_ok db'"
    using assms(1) granted(4) free l by (auto simp: granted(5) coord_ok_def active_leases_def)
  moreover have act: "active_lease db' n = (if n = ai_namespace v then Some ?l else active_lease db n)" for n
    using active_lease_append [of db ?l n] granted(2,5) l by simp
  moreover have keys: "obligation_keys db' = obligation_keys db" by (simp add: granted(5) obligation_keys_def)
  moreover have "{c. (ai_namespace v, c) \<in> obligation_keys db} \<subseteq> (if ai_recovery v then {ai_caseId v} else {})"
    using granted(3) by (auto simp: obligations_in_namespace_def obligation_keys_def obligation_key_def filter_empty_conv list_all_iff)
  ultimately show ?thesis
    using ns_step.granted [of "view db (ai_namespace v)" "ai_recovery v" "ai_caseId v" i] granted(1,2,6-10) l
    by (auto simp: view_alt intro: ns_step.idle)
qed

lemma renew_refines:
  assumes "coord_ok db" "coord_renew rt now input db = (db', r)"
  shows "coord_ok db' \<and> view db' ns = view db ns"
  using assms(2)
proof (cases rule: coord_renew_cases)
  case unread
  then show ?thesis using assms(1) by simp
next
  case (read v)
  define g where "g = (\<lambda>l. if lease_matches rt v l then l\<lparr>cl_heartbeatAt := now, cl_expiresAt := now + leaseDurationMs\<rparr> else l)"
  have g: "cl_id (g l) = cl_id l \<and> cl_namespace (g l) = cl_namespace l \<and> cl_status (g l) = cl_status l
     \<and> cl_tokenHash (g l) = cl_tokenHash l \<and> cl_releasedAt (g l) = cl_releasedAt l" "cl_caseId (g l) = cl_caseId l" for l
    by (simp_all add: g_def)
  have db': "db' = db\<lparr>cd_leases := map g (cd_leases db)\<rparr>" using read(2) by (simp add: g_def)
  have "active_lease db' ns = map_option g (active_lease db ns)" unfolding db' using g(1) by (intro active_lease_renewed) blast
  then have "view db' ns = view db ns"
    by (simp add: view_def option.map_comp comp_def g) (simp add: db')
  moreover have "coord_ok db'"
    using assms(1) leases_ok_renewed [of "cd_leases db" g] g(1) by (simp add: coord_ok_split db' obligations_distinct_def)
  ultimately show ?thesis by simp
qed

lemma ended_table:
  assumes ok: "coord_ok db" and l: "active_lease db n = Some l" and f: "ends_lease f"
    and tables: "cd_leases db1 = cd_leases db" "cd_nonces db1 = cd_nonces db" "obligations_distinct db1"
  shows "coord_ok (set_lease f (cl_id l) db1)"
    "view (set_lease f (cl_id l) db1) ns = \<lparr>nv_active = (if ns = n then None else nv_active (view db ns)), nv_open = nv_open (view db1 ns)\<rparr>"
proof -
  have "leases_ok (cd_leases (set_lease f (cl_id l) db1))"
    using leases_ok_ended [OF _ f] ok tables(1) by (simp add: set_lease_def coord_ok_split)
  then show "coord_ok (set_lease f (cl_id l) db1)" using ok tables by (simp add: coord_ok_split obligations_distinct_def)
  have "active_lease (set_lease f (cl_id l) db1) = active_lease (set_lease f (cl_id l) db)"
    by (rule active_lease_cong) (simp add: set_lease_def tables)
  then show "view (set_lease f (cl_id l) db1) ns = \<lparr>nv_active = (if ns = n then None else nv_active (view db ns)), nv_open = nv_open (view db1 ns)\<rparr>"
    using active_lease_ended [OF ok l f, of ns] by (simp add: view_def)
qed

lemma release_refines:
  assumes "coord_ok db" "coord_release rt now (Some body) db = (db', r)"
  shows "coord_ok db' \<and> ns_step (view db ns)
           (ns_event_of (CoordCall clock now i tok path body headers) (case r of Inl e \<Rightarrow> CoordFailed e | Inr g \<Rightarrow> CoordReleased g) ns) (view db' ns)"
  using assms(2)
proof (cases rule: coord_release_cases)
  case refused
  then show ?thesis using assms(1) by (cases r) (auto intro: ns_step.idle)
next
  case (released v c l f)
  let ?n = "lx_namespace v" and ?db1 = "record_cleanup (lx_namespace v) (cl_caseId l) c now db"
  have l: "cl_namespace l = ?n" "cl_id l = lx_leaseId v" "active_lease db ?n = Some l"
    using released(2,3) active_lease_unique [OF assms(1), of l] by (auto simp: lease_matches_def)
  have dis: "obligations_distinct ?db1" using assms(1) distinct_record_cleanup by (auto simp: coord_ok_split)
  note t = ended_table [OF assms(1) l(3) released(4), of ?db1]
  have view': "view db' ns = (if ns = ?n then \<lparr>nv_active = None, nv_open = nv_open (view db ?n) - {cl_caseId l} \<union> left_open (cl_caseId l) (report_of c)\<rparr>
     else view db ns)"
    using t(2) [of ns] dis unfolding released(5) by (auto simp: view_alt keys_record_cleanup)
  have "nv_active (view db ?n) = Some (lx_leaseId v, cl_caseId l)" using l by (simp add: view_def)
  then show ?thesis
    using t(1) dis released(1,5,6) view' ns_step.released [of "view db ?n" "lx_leaseId v" "cl_caseId l" "report_of c"]
    by (auto intro: ns_step.idle)
qed

lemma orphan_refines:
  assumes "coord_ok db" "coord_orphan now (Some body) db = (db', r)"
  shows "coord_ok db' \<and> ns_step (view db ns)
           (ns_event_of (CoordOrphan now body) (case r of Inl e \<Rightarrow> CoordFailed e | Inr c \<Rightarrow> CoordDone c) ns) (view db' ns)"
  using assms(2)
proof (cases rule: coord_orphan_cases)
  case refused
  then show ?thesis using assms(1) by (cases r) (auto intro: ns_step.idle)
next
  case (orphaned n l f)
  let ?u = "upsertObligation n (cl_caseId l) ObOrphaned ''MUTATION_STATE_UNCERTAIN'' now db"
  have db': "db' = set_lease f (cl_id l) ?u"
    unfolding orphaned(5) by (simp add: set_lease_def upsertObligation_def)
  have dis: "obligations_distinct ?u" using assms(1) distinct_upsert by (auto simp: coord_ok_split)
  note t = ended_table [OF assms(1) orphaned(2,4), of ?u]
  have view': "view db' ns = (if ns = n then \<lparr>nv_active = None, nv_open = insert (cl_caseId l) (nv_open (view db n))\<rparr> else view db ns)"
    using t(2) [of ns] dis unfolding db' by (auto simp: view_alt)
  have "nv_active (view db n) = Some (cl_id l, cl_caseId l)" using orphaned(2) by (simp add: view_def)
  then show ?thesis
    using t(1) dis orphaned(1,6) view' ns_step.orphaned [of "view db n" "cl_id l" "cl_caseId l"]
    by (auto simp: db' intro: ns_step.idle)
qed

lemma resolve_refines:
  assumes "coord_ok db" "coord_resolve (Some body) db = (db', r)"
  shows "coord_ok db' \<and> ns_step (view db ns)
           (ns_event_of (CoordResolve body) (case r of Inl e \<Rightarrow> CoordFailed e | Inr c \<Rightarrow> CoordDone c) ns) (view db' ns)"
  using assms(2)
proof (cases rule: coord_resolve_cases)
  case refused
  then show ?thesis using assms(1) by (cases r) (auto intro: ns_step.idle)
next
  case (resolved n c)
  have act: "active_lease (delete_obligation n c db) = active_lease db" by (rule active_lease_cong) simp
  have "coord_ok db'"
    using assms(1) distinct_delete [of db n c] by (simp add: coord_ok_split resolved(4))
  moreover have "view db' ns = (if ns = n then (view db n)\<lparr>nv_open := nv_open (view db n) - {c}\<rparr> else view db ns)"
    by (auto simp: view_alt act resolved(4))
  moreover have "nv_active (view db n) = None" "c \<in> nv_open (view db n)" using resolved(2,3) by (simp_all add: view_alt)
  ultimately show ?thesis
    using resolved(1,5) ns_step.resolved [of "view db n" c] by (auto intro: ns_step.idle)
qed

section \<open>Nonces\<close>

text \<open>
  The contract of a table of nonces: \<open>admit\<close> takes the reading of the clock, the expiry of the new row and the key; \<open>holds s k x\<close> says
  that the key is held until \<open>x\<close>.
\<close>

locale single_use =
  fixes admit :: "int \<Rightarrow> int \<Rightarrow> 'k \<Rightarrow> 's \<Rightarrow> 's \<times> bool" and holds :: "'s \<Rightarrow> 'k \<Rightarrow> int \<Rightarrow> bool"
  assumes admitted_held: "admit now x k s = (s', True) \<Longrightarrow> holds s' k x"
    and held_refused: "holds s k x \<Longrightarrow> now < x \<Longrightarrow> \<not> snd (admit now y k s)"
    and held_kept: "holds s k x \<Longrightarrow> now < x \<Longrightarrow> holds (fst (admit now y k' s)) k x"
begin

text \<open>Readings, expiries and keys of later calls.\<close>

lemma kept_through: "holds s k x \<Longrightarrow> list_all (\<lambda>(now, y, k'). now < x) calls \<Longrightarrow> holds (fold (\<lambda>(now, y, k') s. fst (admit now y k' s)) calls s) k x"
  by (induction calls arbitrary: s) (auto simp: held_kept)

lemma refused_through:
  assumes "admit now x k s = (s', True)" "list_all (\<lambda>(now, y, k'). now < x) calls" "later < x"
  shows "\<not> snd (admit later y k (fold (\<lambda>(now, y, k') s. fst (admit now y k' s)) calls s'))"
  using kept_through [OF admitted_held [OF assms(1)] assms(2)] held_refused assms(3) by blast

end

lemma use_nonce_admitted: "use_nonce now x k s = (s', True) \<longleftrightarrow>
    (\<forall>t. (fst k, snd k, t) \<in> set s \<longrightarrow> t \<le> now) \<and> s' = filter (\<lambda>(_, _, t). \<not> t \<le> now) s @ [(fst k, snd k, x)]"
  by (cases k) (auto simp: use_nonce_def Let_def list_ex_iff)

interpretation nonces: single_use use_nonce "\<lambda>s k x. (fst k, snd k, x) \<in> set s"
proof
  fix now x :: int and k :: "string \<times> string" and s s' assume "use_nonce now x k s = (s', True)"
  then show "(fst k, snd k, x) \<in> set s'" by (simp add: use_nonce_admitted)
next
  fix now x y :: int and k :: "string \<times> string" and s assume a: "(fst k, snd k, x) \<in> set s" "now < x"
  show "\<not> snd (use_nonce now y k s)"
  proof
    assume "snd (use_nonce now y k s)"
    then have "use_nonce now y k s = (fst (use_nonce now y k s), True)" by (metis prod.collapse)
    then have "x \<le> now" using a(1) unfolding use_nonce_admitted by blast
    then show False using a(2) by simp
  qed
next
  fix now x y :: int and k k' :: "string \<times> string" and s assume "(fst k, snd k, x) \<in> set s" "now < x"
  then show "(fst k, snd k, x) \<in> set (fst (use_nonce now y k' s))" by (simp add: use_nonce_def Let_def)
qed

lemma distinct_use_nonce:
  "distinct (map (\<lambda>(c, n, _). (c, n)) s) \<Longrightarrow> distinct (map (\<lambda>(c, n, _). (c, n)) (fst (use_nonce now x k s)))"
  by (cases k) (auto simp: use_nonce_def Let_def list_ex_iff distinct_map inj_on_def)

text \<open>Authentication touches the nonces only and keeps them distinct.\<close>

lemma authenticate_tables:
  assumes "authenticate rt secret clock verb path body headers db = (db', e)"
  shows "cd_leases db' = cd_leases db \<and> cd_obligations db' = cd_obligations db
    \<and> (distinct (map (\<lambda>(c, n, _). (c, n)) (cd_nonces db)) \<longrightarrow> distinct (map (\<lambda>(c, n, _). (c, n)) (cd_nonces db')))"
  using assms distinct_use_nonce [of "cd_nonces db"]
  by (auto simp: authenticate_def Let_def case_prod_unfold split: option.splits if_splits)

lemma coord_exec_refines:
  assumes "coord_ok db" "coord_exec rt secret op db = (db', out)"
  shows "coord_ok db' \<and> ns_step (view db ns) (ns_event_of op out ns) (view db' ns)"
proof (cases op)
  case (CoordOrphan now body)
  obtain db1 r where r: "coord_orphan now (Some body) db = (db1, r)" by (cases "coord_orphan now (Some body) db")
  show ?thesis using orphan_refines [OF assms(1) r, of ns] assms(2) r by (simp add: CoordOrphan coord_answer_def)
next
  case (CoordResolve body)
  obtain db1 r where r: "coord_resolve (Some body) db = (db1, r)" by (cases "coord_resolve (Some body) db")
  show ?thesis using resolve_refines [OF assms(1) r, of ns] assms(2) r by (simp add: CoordResolve coord_answer_def)
next
  case (CoordCall clock now i tok path body headers)
  obtain db1 e where a: "authenticate rt secret clock ''POST'' path body headers db = (db1, e)"
    by (cases "authenticate rt secret clock ''POST'' path body headers db")
  have same: "view db1 = view db" "coord_ok db1"
    using authenticate_tables [OF a] assms(1) view_cong [of db1 db] by (auto simp: coord_ok_split obligations_distinct_def)
  show ?thesis
  proof (cases e)
    case (Some x)
    then show ?thesis using assms(2) a same by (auto simp: CoordCall intro: ns_step.idle)
  next
    case None
    consider "ends_with path ''/acquire''" | "\<not> ends_with path ''/acquire''" "ends_with path ''/renew''"
      | "\<not> ends_with path ''/acquire''" "\<not> ends_with path ''/renew''" "ends_with path ''/release''"
      | "\<not> ends_with path ''/acquire''" "\<not> ends_with path ''/renew''" "\<not> ends_with path ''/release''" by blast
    then show ?thesis
    proof cases
      case 1
      obtain db2 r where r: "coord_acquire rt now i tok (Some body) db1 = (db2, r)" by (cases "coord_acquire rt now i tok (Some body) db1")
      show ?thesis using acquire_refines [OF same(2) r, of ns clock path headers] assms(2) a r 1 None same(1) by (simp add: CoordCall coord_answer_def)
    next
      case 2
      obtain db2 r where r: "coord_renew rt now (Some body) db1 = (db2, r)" by (cases "coord_renew rt now (Some body) db1")
      show ?thesis using renew_refines [OF same(2) r, of ns] assms(2) a r 2 None same(1)
        by (cases r) (auto simp: CoordCall coord_answer_def intro: ns_step.idle)
    next
      case 3
      obtain db2 r where r: "coord_release rt now (Some body) db1 = (db2, r)" by (cases "coord_release rt now (Some body) db1")
      show ?thesis using release_refines [OF same(2) r, of ns clock i tok path headers] assms(2) a r 3 None same(1) by (simp add: CoordCall coord_answer_def)
    next
      case 4
      then show ?thesis using assms(2) a None same by (auto simp: CoordCall intro: ns_step.idle)
    qed
  qed
qed

end
