(* ===== verification/RC_CoordinatorRuns.thy ===== *)
theory RC_CoordinatorRuns
  imports RC_CoordinatorFacts
begin

text \<open>
  Sequences of calls to the coordinator: what a namespace goes through, replayed calls, and the calls the client makes.
\<close>

section \<open>Runs\<close>

fun coord_run :: "coord_runtime \<Rightarrow> string \<Rightarrow> coord_op list \<Rightarrow> coord_db \<Rightarrow> coord_db \<times> coord_output list" where
  "coord_run rt secret [] db = (db, [])"
| "coord_run rt secret (op # ops) db =
     (let (db1, out) = coord_exec rt secret op db; (db2, outs) = coord_run rt secret ops db1 in (db2, out # outs))"

text \<open>What a namespace sees of a run.\<close>

definition ns_trace :: "string \<Rightarrow> coord_op list \<Rightarrow> coord_output list \<Rightarrow> ns_event list" where
  "ns_trace ns ops outs = map2 (\<lambda>op out. ns_event_of op out ns) ops outs"

lemma coord_run_refines:
  assumes "coord_ok db" "coord_run rt secret ops db = (db', outs)"
  shows "coord_ok db' \<and> ns_run (view db ns) (ns_trace ns ops outs) (view db' ns)"
  using assms
proof (induction ops arbitrary: db outs)
  case Nil
  then show ?case by (auto simp: ns_trace_def intro: ns_run.nil)
next
  case (Cons op ops)
  obtain db1 x where e: "coord_exec rt secret op db = (db1, x)" by (cases "coord_exec rt secret op db")
  obtain db2 xs where r: "coord_run rt secret ops db1 = (db2, xs)" by (cases "coord_run rt secret ops db1")
  have out: "db' = db2" "outs = x # xs" using Cons.prems(2) e r by simp_all
  have s: "coord_ok db1" "ns_step (view db ns) (ns_event_of op x ns) (view db1 ns)" using coord_exec_refines [OF Cons.prems(1) e] by auto
  show ?case using Cons.IH [OF s(1) r [folded out(1)]] s(2) ns_run.cons unfolding out(2) by (auto simp: ns_trace_def)
qed

lemma empty_coord_ok: "coord_ok empty_coord"
  by (simp add: empty_coord_def coord_ok_def active_leases_def)

lemma coord_reach_ok: "coord_reach rt secret db \<Longrightarrow> coord_ok db"
proof (induction rule: coord_reach.induct)
  case start
  show ?case by (rule empty_coord_ok)
next
  case (step db op)
  obtain db1 x where e: "coord_exec rt secret op db = (db1, x)" by (cases "coord_exec rt secret op db")
  show ?case using coord_exec_refines [OF step.IH e] e by simp
qed

lemma ns_step_deterministic: "ns_step v e v1 \<Longrightarrow> ns_step v e v2 \<Longrightarrow> v1 = v2"
  by (induction rule: ns_step.induct)
    (auto elim: ns_idleE ns_grantedE ns_releasedE ns_orphanedE ns_resolvedE)

section \<open>Authentication\<close>

text \<open>The headers a call is signed with.\<close>

definition signed_headers :: "string \<Rightarrow> string \<Rightarrow> string \<Rightarrow> string \<Rightarrow> (string \<times> string) list \<Rightarrow> bool" where
  "signed_headers clientId timestamp nonce signature headers \<longleftrightarrow>
     map_of headers ''x-routecairn-coordinator-client'' = Some clientId \<and> map_of headers ''x-routecairn-timestamp'' = Some timestamp
     \<and> map_of headers ''x-routecairn-nonce'' = Some nonce \<and> map_of headers ''x-routecairn-signature'' = Some signature"

definition signature_input :: "coord_runtime \<Rightarrow> string \<Rightarrow> string \<Rightarrow> json \<Rightarrow> string \<Rightarrow> string \<Rightarrow> string" where
  "signature_input rt verb path body timestamp nonce =
     join_with [CHR 0x0A] [protocol, to_upper verb, path, timestamp, nonce, rt_sha256 rt (canonical rt body)]"

definition live_nonces :: "int \<Rightarrow> coord_db \<Rightarrow> (string \<times> string \<times> int) list" where
  "live_nonces now db = filter (\<lambda>(_, _, expiresAt). \<not> expiresAt \<le> now) (cd_nonces db)"

text \<open>The conditions of an accepted call that do not depend on the database.\<close>

definition signed_call :: "coord_runtime \<Rightarrow> string \<Rightarrow> int \<Rightarrow> string \<Rightarrow> string \<Rightarrow> json \<Rightarrow> string \<Rightarrow> string \<Rightarrow> string \<Rightarrow> string \<Rightarrow> bool" where
  "signed_call rt secret now verb path body clientId timestamp nonce signature \<longleftrightarrow>
     namespacePattern clientId \<and> timestamp \<noteq> [] \<and> 24 \<le> length nonce \<and> length nonce \<le> 200 \<and> signature \<noteq> []
     \<and> (\<exists>time. cr_dateParse rt timestamp = Some time \<and> \<bar>now - time\<bar> \<le> 300000)
     \<and> cr_fromBase64url rt signature = cr_hmac rt secret (signature_input rt verb path body timestamp nonce)"

lemma authenticate_None_iff:
  "authenticate rt secret clock verb path body headers db = (db1, None) \<longleftrightarrow>
     (\<exists>clientId timestamp nonce signature. signed_headers clientId timestamp nonce signature headers
       \<and> signed_call rt secret (fst clock) verb path body clientId timestamp nonce signature
       \<and> (\<forall>x. (clientId, nonce, x) \<notin> set (live_nonces (fst (snd clock)) db))
       \<and> db1 = db\<lparr>cd_nonces := live_nonces (fst (snd clock)) db @ [(clientId, nonce, snd (snd clock) + 600000)]\<rparr>)"
  unfolding authenticate_def signed_headers_def signed_call_def signature_input_def live_nonces_def
  by (auto simp: Let_def use_nonce_def list_ex_iff not_less split: option.split if_splits)

text \<open>An accepted nonce stays until it has expired at the reading a later call purges with.\<close>

lemma nonce_kept:
  assumes "(c, n, x) \<in> set (cd_nonces db)" "fst (snd clock) < x"
  shows "(c, n, x) \<in> set (cd_nonces (fst (authenticate rt secret clock verb path body headers db)))"
  using assms nonces.held_kept [where k = "(c, n)"]
  unfolding authenticate_def by (auto simp: Let_def case_prod_unfold split: option.splits if_splits)

lemma op_nonces [simp]:
  "cd_nonces (fst (coord_acquire rt now i tok input db)) = cd_nonces db"
  "cd_nonces (fst (coord_renew rt now input db)) = cd_nonces db"
  "cd_nonces (fst (coord_release rt now input db)) = cd_nonces db"
  "cd_nonces (fst (coord_orphan now input db)) = cd_nonces db"
  "cd_nonces (fst (coord_resolve input db)) = cd_nonces db"
  by (auto simp: coord_acquire_def coord_renew_def coord_release_def coord_orphan_def coord_resolve_def Let_def
      split: sum.split option.split prod.split)

lemma coord_answer_fst [simp]: "fst (coord_answer f r) = fst r"
  by (simp add: coord_answer_def)

text \<open>The reading of the clock an operation purges the nonces with is before \<open>limit\<close>.\<close>

fun purges_before :: "int \<Rightarrow> coord_op \<Rightarrow> bool" where
  "purges_before limit (CoordCall clock now i tok path body headers) = (fst (snd clock) < limit)"
| "purges_before limit _ = True"

lemma exec_nonce_kept:
  assumes "(c, n, x) \<in> set (cd_nonces db)" "purges_before x op"
  shows "(c, n, x) \<in> set (cd_nonces (fst (coord_exec rt secret op db)))"
proof (cases op)
  case (CoordCall clock now i tok path body headers)
  obtain db1 e where a: "authenticate rt secret clock ''POST'' path body headers db = (db1, e)"
    by (cases "authenticate rt secret clock ''POST'' path body headers db")
  have "(c, n, x) \<in> set (cd_nonces db1)"
    using nonce_kept [OF assms(1), of clock rt secret "''POST''" path body headers] assms(2) a by (simp add: CoordCall)
  then show ?thesis using a by (cases e) (simp_all add: CoordCall)
qed (use assms in simp_all)

lemma run_nonce_kept:
  "(c, n, x) \<in> set (cd_nonces db) \<Longrightarrow> list_all (purges_before x) ops \<Longrightarrow> (c, n, x) \<in> set (cd_nonces (fst (coord_run rt secret ops db)))"
  by (induction ops arbitrary: db) (auto simp: Let_def case_prod_unfold exec_nonce_kept)

section \<open>A concrete host\<close>

text \<open>A runtime that knows the bodies of one host, the host, and its first request.\<close>

definition example_secret :: string where
  "example_secret = replicate 32 (CHR ''k'')"

definition example_nonce :: string where
  "example_nonce = replicate 24 (CHR ''n'')"

definition example_coord_lease_id :: string where
  "example_coord_lease_id = replicate 36 (CHR ''a'')"

definition example_lease_token :: string where
  "example_lease_token = replicate 40 (CHR ''t'')"

definition example_coord_client :: coord_client where
  "example_coord_client = \<lparr>cc_endpoint = the (split_https ''https://a.io''), cc_namespace = ''prod'', cc_sharedSecret = example_secret, cc_clientId = ''host-a''\<rparr>"

definition example_acquire_body :: json where
  "example_acquire_body = acquire_body example_coord_client ''c1'' ''h1'' False"

definition example_coord_runtime :: coord_runtime where
  "example_coord_runtime =
     \<lparr>rt_newURL = split_https, rt_sha256 = (\<lambda>s. s),
      jr_parse = (\<lambda>s. if s = ''caseIdholderIdnamespacerecovery''
                      then Some (JObject [(''caseId'', JString ''c1''), (''holderId'', JString ''h1''), (''namespace'', JString ''prod''), (''recovery'', JBool False)])
                      else if s = ''cleanupholderIdleaseIdleaseTokennamespace''
                      then Some (JObject [(''cleanup'', JObject [(''state'', JString ''CLEAN'')]), (''holderId'', JString ''h1''),
                        (''leaseId'', JString example_coord_lease_id), (''leaseToken'', JString example_lease_token), (''namespace'', JString ''prod'')])
                      else None),
      jr_stringify = (\<lambda>j. case j of JObject kvs \<Rightarrow> concat (map fst kvs) | _ \<Rightarrow> ''other''),
      jr_property = (\<lambda>j k. None), cr_localeCompare = locale_compare, cr_hmac = (\<lambda>k m. CHR ''h'' # k @ m),
      cr_toBase64url = (\<lambda>s. s), cr_fromBase64url = (\<lambda>s. s),
      cr_dateParse = (\<lambda>s. if s = ''1970-01-01T00:00:00.000Z'' then Some 0 else None)\<rparr>"

definition example_request :: "string \<times> (string \<times> string) list \<times> string" where
  "example_request = coord_call example_coord_runtime example_coord_client ''acquire'' example_acquire_body 0 example_nonce"

definition example_op :: coord_op where
  "example_op = CoordCall (0, 0, 0) 0 example_coord_lease_id example_lease_token (fst example_request) (sort_json example_coord_runtime example_acquire_body)
     (fst (snd example_request))"

section \<open>Promises of the coordinator\<close>

text \<open>
  C11: In every reachable state of the coordinator, whatever operation comes next with whatever input, clock, and random values: the
  tables stay well formed (unique identifiers, at most one active lease per namespace, a token exactly at active leases, one row per open
  case), and every namespace makes the step of the abstract machine that belongs to the answer. So a lease is granted only where none is
  active and no case is open, or for the recovery of the only open one; it ends only by its release or by an operator; a release leaves
  open what it reports, an orphaned lease its case; and an operator settles a case only while no lease is active.
\<close>

theorem coordinator_refines_namespaces:
  assumes "coord_reach rt secret db" "coord_exec rt secret op db = (db', out)"
  shows "coord_ok db' \<and> ns_step (view db ns) (ns_event_of op out ns) (view db' ns)"
  using coord_exec_refines [OF coord_reach_ok [OF assms(1)] assms(2)] .

text \<open>
  C12: From the moment a lease for a case was granted, through any later operations of any hosts and operators with any clock readings, and
  whatever becomes of the holder: until a lease of the namespace is released or an operator settles the case, the case stays pending and
  whoever is granted a lease of the namespace gets it for the recovery of that very case.
\<close>

theorem uncleaned_case_blocks_namespace:
  assumes "coord_reach rt secret db" "coord_run rt secret (op # ops) db = (db', out # outs)"
    and "ns_event_of op out ns = NsGranted i c recovery" "list_all (\<lambda>e. \<not> settles c e) (ns_trace ns ops outs)"
  shows "list_all (recovers_only c) (ns_trace ns ops outs) \<and> case_pending c (view db' ns)"
proof -
  obtain db1 where e: "coord_exec rt secret op db = (db1, out)" and r: "coord_run rt secret ops db1 = (db', outs)"
    using assms(2) by (auto simp: Let_def split: prod.splits)
  have s: "coord_ok db1" "ns_step (view db ns) (NsGranted i c recovery) (view db1 ns)"
    using coord_exec_refines [OF coord_reach_ok [OF assms(1)] e, of ns] assms(3) by simp_all
  have "case_pending c (view db1 ns)" using s(2) by cases (simp add: case_pending_def)
  then show ?thesis using case_pending_run [OF _ _ assms(4)] coord_run_refines [OF s(1) r, of ns] by blast
qed

text \<open>
  C19: After a call was accepted, and through any operations whose purges of the nonces lie within ten minutes of it, no call with the same client
  header and nonce is accepted, whatever its path, body and signature; it fails with an error of status 401 and changes no lease and no
  open case.
\<close>

theorem same_client_replay_rejected:
  assumes "authenticate rt secret clock verb path body headers db = (db1, None)" "signed_headers c t n s headers"
    and "list_all (purges_before (snd (snd clock) + 600000)) ops" "signed_headers c t' n s' headers'"
    and "fst (snd clock') < snd (snd clock) + 600000" "coord_run rt secret ops db1 = (db2, outs)"
  shows "\<exists>db3 code. coord_exec rt secret (CoordCall clock' now i tok path' body' headers') db2 = (db3, CoordFailed (code, 401))
    \<and> cd_leases db3 = cd_leases db2 \<and> cd_obligations db3 = cd_obligations db2"
proof -
  have "(c, n, snd (snd clock) + 600000) \<in> set (cd_nonces db1)"
    using assms(1,2) unfolding authenticate_None_iff by (auto simp: signed_headers_def)
  then have mem: "(c, n, snd (snd clock) + 600000) \<in> set (cd_nonces db2)"
    using run_nonce_kept [OF _ assms(3)] assms(6) by (metis fst_conv)
  obtain db3 e where a: "authenticate rt secret clock' ''POST'' path' body' headers' db2 = (db3, e)"
    by (cases "authenticate rt secret clock' ''POST'' path' body' headers' db2")
  have "e \<noteq> None"
  proof
    assume "e = None"
    then have "(c, n, snd (snd clock) + 600000) \<notin> set (live_nonces (fst (snd clock')) db2)"
      using a assms(4) by (auto simp: authenticate_None_iff signed_headers_def)
    then show False using mem assms(5) by (simp add: live_nonces_def)
  qed
  moreover have "e = None \<or> (\<exists>code. e = Some (code, 401))"
    using a by (auto simp: authenticate_def authError_def Let_def case_prod_unfold split: option.splits if_splits)
  ultimately show ?thesis using authenticate_tables [OF a] a by auto
qed

text \<open>
  C38: The signature does not cover the client header and nonces are told apart by client: the request of an accepted call, sent again with nothing
  but that header changed to any other well-formed name, is accepted once more, at every moment within the five minutes around its timestamp.
\<close>

theorem replay_accepted_for_other_client:
  assumes "authenticate rt secret clock verb path body headers db = (db1, None)" "signed_headers c t n s headers"
    and "cr_dateParse rt t = Some time" "\<bar>fst clock' - time\<bar> \<le> 300000"
    and "namespacePattern c'" "c' \<notin> fst ` set (cd_nonces db1)"
  shows "snd (authenticate rt secret clock' verb path body ((''x-routecairn-coordinator-client'', c') # headers) db1) = None"
proof -
  let ?h = "(''x-routecairn-coordinator-client'', c') # headers"
  have call: "signed_call rt secret (fst clock) verb path body c t n s"
    using assms(1,2) unfolding authenticate_None_iff by (auto simp: signed_headers_def)
  have "signed_headers c' t n s ?h" using assms(2) by (simp add: signed_headers_def)
  moreover have "signed_call rt secret (fst clock') verb path body c' t n s"
    using call assms(3-5) by (simp add: signed_call_def)
  moreover have "\<forall>x. (c', n, x) \<notin> set (live_nonces (fst (snd clock')) db1)"
    using assms(6) by (force simp: live_nonces_def)
  ultimately have "authenticate rt secret clock' verb path body ?h db1 = (db1\<lparr>cd_nonces := live_nonces (fst (snd clock')) db1 @ [(c', n, snd (snd clock') + 600000)]\<rparr>, None)"
    unfolding authenticate_None_iff by blast
  then show ?thesis by simp
qed

section \<open>Witnesses\<close>

definition example_db :: coord_db where
  "example_db = fst (coord_exec example_coord_runtime example_secret example_op empty_coord)"

text \<open>After the lease has expired an operator marks it and another host asks for the namespace.\<close>

definition example_orphan :: coord_op where
  "example_orphan = CoordOrphan 200000 (JObject [(''namespace'', JString ''prod''), (''confirmation'', JString ''MARK_STALE_LEASE_STATE_UNCERTAIN'')])"

lemma example_grant:
  "ns_event_of example_op (snd (coord_exec example_coord_runtime example_secret example_op empty_coord)) ''prod'' = NsGranted example_coord_lease_id ''c1'' False"
  by code_simp

theorem coordinator_refines_namespaces_witness:
  "ns_step (view empty_coord ''prod'') (NsGranted example_coord_lease_id ''c1'' False) (view example_db ''prod'')"
  using coordinator_refines_namespaces [OF coord_reach.start, of example_coord_runtime example_secret example_op _ _ "''prod''"] example_grant
  by (metis example_db_def prod.collapse)

theorem uncleaned_case_blocks_namespace_witness:
  "case_pending ''c1'' (view (fst (coord_run example_coord_runtime example_secret [example_op, example_orphan] empty_coord)) ''prod'')"
proof -
  let ?x = "snd (coord_exec example_coord_runtime example_secret example_op empty_coord)"
  let ?y = "snd (coord_exec example_coord_runtime example_secret example_orphan example_db)"
  have run: "coord_run example_coord_runtime example_secret [example_op, example_orphan] empty_coord
      = (fst (coord_run example_coord_runtime example_secret [example_op, example_orphan] empty_coord), ?x # [?y])"
    by (simp add: Let_def case_prod_unfold example_db_def)
  have "list_all (\<lambda>e. \<not> settles ''c1'' e) (ns_trace ''prod'' [example_orphan] [?y])" by code_simp
  from uncleaned_case_blocks_namespace [OF coord_reach.start run example_grant this] show ?thesis by blast
qed

lemma example_accepted:
  "authenticate example_coord_runtime example_secret (0, 0, 0) ''POST'' (fst example_request) (sort_json example_coord_runtime example_acquire_body)
     (fst (snd example_request)) empty_coord = (empty_coord\<lparr>cd_nonces := [(''host-a'', example_nonce, 600000)]\<rparr>, None)"
  by code_simp

lemma example_signed:
  "signed_headers ''host-a'' ''1970-01-01T00:00:00.000Z'' example_nonce (the (map_of (fst (snd example_request)) ''x-routecairn-signature'')) (fst (snd example_request))"
  by code_simp

theorem same_client_replay_rejected_witness:
  "\<exists>db code. coord_exec example_coord_runtime example_secret example_op (empty_coord\<lparr>cd_nonces := [(''host-a'', example_nonce, 600000)]\<rparr>)
     = (db, CoordFailed (code, 401))"
proof -
  have purges: "list_all (purges_before (snd (snd (0::int, 0::int, 0::int)) + 600000)) []" "fst (snd (0::int, 0::int, 0::int)) < snd (snd (0::int, 0::int, 0::int)) + 600000"
    by simp_all
  from same_client_replay_rejected [OF example_accepted example_signed purges(1) example_signed purges(2) coord_run.simps(1)]
  show ?thesis unfolding example_op_def by blast
qed

theorem replay_accepted_for_other_client_witness:
  "snd (authenticate example_coord_runtime example_secret (200000, 200000, 200000) ''POST'' (fst example_request)
     (sort_json example_coord_runtime example_acquire_body) ((''x-routecairn-coordinator-client'', ''mallory'') # fst (snd example_request))
     (empty_coord\<lparr>cd_nonces := [(''host-a'', example_nonce, 600000)]\<rparr>)) = None"
proof -
  have t: "cr_dateParse example_coord_runtime ''1970-01-01T00:00:00.000Z'' = Some 0" by code_simp
  have w: "\<bar>fst (200000::int, 200000::int, 200000::int) - 0\<bar> \<le> 300000" "namespacePattern ''mallory''" by code_simp+
  have f: "''mallory'' \<notin> fst ` set (cd_nonces (empty_coord\<lparr>cd_nonces := [(''host-a'', example_nonce, 600000)]\<rparr>))" by (simp add: empty_coord_def)
  show ?thesis using replay_accepted_for_other_client [OF example_accepted example_signed t w f] .
qed

end
