(* ===== verification/RC_Sorting.thy ===== *)
theory RC_Sorting
  imports RC_Prelude
begin

text \<open>Facts on the stable sort of the prelude, for any comparator that is a total preorder.\<close>

definition comparator :: "('a \<Rightarrow> 'a \<Rightarrow> int) \<Rightarrow> bool" where
  "comparator cmp \<longleftrightarrow> (\<forall>a b. cmp a b \<le> 0 \<or> cmp b a \<le> 0) \<and> (\<forall>a b c. cmp a b \<le> 0 \<longrightarrow> cmp b c \<le> 0 \<longrightarrow> cmp a c \<le> 0)"

abbreviation ordered_by :: "('a \<Rightarrow> 'a \<Rightarrow> int) \<Rightarrow> 'a list \<Rightarrow> bool" where
  "ordered_by cmp \<equiv> sorted_wrt (\<lambda>x y. cmp x y \<le> 0)"

lemma ordered_insert_by: "comparator cmp \<Longrightarrow> ordered_by cmp xs \<Longrightarrow> ordered_by cmp (insert_by cmp x xs)"
  by (induction xs) (auto simp: comparator_def; blast)+

lemma ordered_sort_by: "comparator cmp \<Longrightarrow> ordered_by cmp (sort_by cmp xs)"
  by (induction xs) (auto simp: ordered_insert_by)

lemma insert_by_front: "(\<And>y. y \<in> set xs \<Longrightarrow> cmp x y \<le> 0) \<Longrightarrow> insert_by cmp x xs = x # xs"
  by (cases xs) auto

lemma sort_by_ordered: "ordered_by cmp xs \<Longrightarrow> sort_by cmp xs = xs"
  by (induction xs) (auto simp: insert_by_front)

lemma sort_by_map: "(\<And>x y. cmp (f x) (f y) = cmp x y) \<Longrightarrow> sort_by cmp (map f xs) = map f (sort_by cmp xs)"
proof (induction xs)
  case (Cons x xs)
  have ins: "insert_by cmp (f x) (map f ys) = map f (insert_by cmp x ys)" for x ys
    using Cons.prems by (induction ys) auto
  show ?case using Cons ins by simp
qed simp

lemma distinct_keys_insert_by: "distinct (map fst (insert_by cmp x xs)) \<longleftrightarrow> distinct (map fst (x # xs))"
  by (induction xs) auto

lemma distinct_keys_sort_by [simp]: "distinct (map fst (sort_by cmp xs)) \<longleftrightarrow> distinct (map fst xs)"
  by (induction xs) (auto simp: distinct_keys_insert_by)

lemma map_of_sort_by: "distinct (map fst xs) \<Longrightarrow> map_of (sort_by cmp xs) = map_of xs"
  by (intro map_of_inject_set [THEN iffD2]) simp_all

text \<open>Of an ordered list the elements that no other element may precede come first.\<close>

lemma take_upper:
  assumes "ordered_by cmp xs" "\<And>x y. x \<in> set xs \<Longrightarrow> y \<in> set xs \<Longrightarrow> Q y \<Longrightarrow> cmp x y \<le> 0 \<Longrightarrow> Q x" "n \<le> length (filter Q xs)"
  shows "list_all Q (take n xs)"
  using assms
proof (induction xs arbitrary: n)
  case (Cons x xs)
  show ?case
  proof (cases n)
    case (Suc m)
    have "Q x"
    proof (cases "Q x")
      case False
      then have "filter Q xs \<noteq> []" using Cons.prems(3) Suc by auto
      then obtain y where "y \<in> set xs" "Q y" by (auto simp: filter_empty_conv)
      then show ?thesis using Cons.prems(1,2) by auto
    qed
    moreover have "list_all Q (take m xs)" using Cons.prems Suc \<open>Q x\<close> by (intro Cons.IH) auto
    ultimately show ?thesis using Suc by simp
  qed simp
qed simp

end
