(* ===== verification/RC_CoordinatorClient.thy ===== *)
theory RC_CoordinatorClient
  imports RC_CoordinatorRuns RC_Sorting
begin

text \<open>
  The client against the service: its canonical JSON is a normal form that both sides hash alike, its calls authenticate, and a
  namespace goes from free to held and back by a client's acquire and release.
\<close>

section \<open>Canonical JSON is a normal form\<close>

definition by_key :: "coord_runtime \<Rightarrow> string \<times> json \<Rightarrow> string \<times> json \<Rightarrow> int" where
  "by_key rt = (\<lambda>(k, _) (k', _). cr_localeCompare rt k k')"

lemma sort_json_object: "sort_json rt (JObject kvs) = JObject (map (\<lambda>(k, v). (k, sort_json rt v)) (sort_by (by_key rt) kvs))"
  by (simp add: by_key_def)

lemma sort_json_idem:
  assumes "comparator (cr_localeCompare rt)"
  shows "sort_json rt (sort_json rt v) = sort_json rt v"
  using assms
proof (induction rt v rule: sort_json.induct)
  case (1 rt xs)
  then show ?case by simp
next
  case (2 rt kvs)
  let ?s = "sort_by (by_key rt) kvs" and ?f = "\<lambda>(k, v). (k, sort_json rt v)"
  have c: "comparator (by_key rt)" using 2(2) unfolding comparator_def by_key_def by (auto; blast)
  have keep: "by_key rt (?f x) (?f y) = by_key rt x y" for x y by (cases x; cases y) (simp add: by_key_def)
  have "sort_by (by_key rt) (map ?f ?s) = map ?f (sort_by (by_key rt) ?s)" using keep by (intro sort_by_map)
  then have sorted: "sort_by (by_key rt) (map ?f ?s) = map ?f ?s" using sort_by_ordered [OF ordered_sort_by [OF c]] by simp
  have "?f (?f x) = ?f x" if "x \<in> set ?s" for x using 2 that by (cases x) (auto simp: by_key_def)
  then show ?case by (simp add: sort_json_object sorted del: sort_json.simps)
qed simp_all

text \<open>The fields of a sorted object.\<close>

lemma map_of_sorted_object:
  assumes "distinct (map fst kvs)" "sort_json rt (JObject kvs) = JObject kvs'"
  shows "map_of kvs' k = map_option (sort_json rt) (map_of kvs k)"
  using assms map_of_sort_by [OF assms(1), of "by_key rt"]
  by (auto simp: sort_json_object map_of_map simp del: sort_json.simps)

section \<open>The service reads what the client writes\<close>

lemma sorted_object: obtains kvs' where "sort_json rt (JObject kvs) = JObject kvs'"
  by simp

lemma acquireInput_client:
  assumes "namespacePattern (cc_namespace c)" "casePattern caseId" "namespacePattern holderId"
  shows "acquireInput (Some (sort_json rt (acquire_body c caseId holderId recovery)))
    = Inr \<lparr>ai_namespace = cc_namespace c, ai_caseId = caseId, ai_holderId = holderId, ai_recovery = recovery\<rparr>"
proof -
  let ?kvs = "[(''namespace'', JString (cc_namespace c)), (''caseId'', JString caseId), (''holderId'', JString holderId), (''recovery'', JBool recovery)]"
  obtain kvs' where s: "sort_json rt (JObject ?kvs) = JObject kvs'" by (rule sorted_object)
  have "map_of kvs' k = map_option (sort_json rt) (map_of ?kvs k)" for k by (rule map_of_sorted_object [OF _ s]) simp
  then show ?thesis using assms unfolding acquire_body_def s
    by (simp add: acquireInput_def json_record_def json_text_def ensureNamespace_def string_or_empty_def)
qed

lemma releaseInput_client:
  assumes "namespacePattern (cc_namespace c)" "leaseIdPattern (cg_leaseId g)" "leaseTokenPattern (cg_leaseToken g)" "namespacePattern holderId"
  shows "releaseInput (Some (sort_json rt (release_body c g holderId (JObject [(''state'', JString ''CLEAN'')]))))
    = Inr (\<lparr>lx_namespace = cc_namespace c, lx_leaseId = cg_leaseId g, lx_leaseToken = cg_leaseToken g, lx_holderId = holderId\<rparr>,
           \<lparr>cu_state = JString ''CLEAN'', cu_stage = None, cu_obligations = []\<rparr>)"
proof -
  let ?kvs = "lease_fields c g holderId @ [(''cleanup'', JObject [(''state'', JString ''CLEAN'')])]"
  obtain kvs' where s: "sort_json rt (JObject ?kvs) = JObject kvs'" by (rule sorted_object)
  have m: "map_of kvs' k = map_option (sort_json rt) (map_of ?kvs k)" for k
    by (rule map_of_sorted_object [OF _ s]) (simp add: lease_fields_def)
  have cleanup: "sort_json rt (JObject [(''state'', JString ''CLEAN'')]) = JObject [(''state'', JString ''CLEAN'')]" by simp
  have "leaseInput (Some (JObject kvs')) = Inr \<lparr>lx_namespace = cc_namespace c, lx_leaseId = cg_leaseId g, lx_leaseToken = cg_leaseToken g, lx_holderId = holderId\<rparr>"
    using assms by (simp add: leaseInput_def json_record_def json_text_def ensureNamespace_def string_or_empty_def m lease_fields_def)
  moreover have "map_of kvs' ''cleanup'' = Some (JObject [(''state'', JString ''CLEAN'')])" by (simp add: m lease_fields_def)
  moreover have "cleanupInput (Some (JObject [(''state'', JString ''CLEAN'')])) = Inr \<lparr>cu_state = JString ''CLEAN'', cu_stage = None, cu_obligations = []\<rparr>"
    by (simp add: cleanupInput_def json_record_def)
  ultimately show ?thesis unfolding release_body_def s by (simp add: releaseInput_def json_record_def)
qed

section \<open>Calls of the client authenticate\<close>

text \<open>What the client relies on: base64url decodes what it encoded, a digest is not empty, keys are compared by a total preorder.\<close>

definition codec_laws :: "coord_runtime \<Rightarrow> bool" where
  "codec_laws rt \<longleftrightarrow> (\<forall>s. cr_fromBase64url rt (cr_toBase64url rt s) = s) \<and> (\<forall>k m. cr_hmac rt k m \<noteq> []) \<and> cr_fromBase64url rt [] = []
     \<and> comparator (cr_localeCompare rt)"

lemma toISOString_nonempty: "toISOString ms \<noteq> []"
  by (simp add: toISOString_def Let_def split: prod.split)

lemma post_upper: "to_upper ''POST'' = ''POST''"
  by code_simp

lemma call_authenticates:
  assumes laws: "codec_laws rt" and client: "namespacePattern (cc_clientId c)"
    and call: "coord_call rt c operation body now nonce = (path, headers, raw)"
    and date: "cr_dateParse rt (toISOString now) = Some now" and len: "24 \<le> length nonce" "length nonce \<le> 200"
    and clock: "\<bar>fst clock - now\<bar> \<le> 300000" and unused: "\<forall>x. (cc_clientId c, nonce, x) \<notin> set (cd_nonces db)"
  shows "authenticate rt (cc_sharedSecret c) clock ''POST'' path (sort_json rt body) headers db =
    (db\<lparr>cd_nonces := live_nonces (fst (snd clock)) db @ [(cc_clientId c, nonce, snd (snd clock) + 600000)]\<rparr>, None)"
proof -
  have canon: "canonical rt (sort_json rt body) = canonical rt body"
    using laws sort_json_idem by (simp add: canonical_def codec_laws_def)
  let ?mac = "cr_hmac rt (cc_sharedSecret c) (signature_input rt ''POST'' path (sort_json rt body) (toISOString now) nonce)"
  have headers: "signed_headers (cc_clientId c) (toISOString now) nonce (cr_toBase64url rt ?mac) headers"
    using call post_upper by (auto simp: coord_call_def Let_def signed_headers_def signature_input_def canon protocol_def canonical_def [symmetric])
  have "cr_toBase64url rt ?mac \<noteq> []" using laws unfolding codec_laws_def by metis
  then have "signed_call rt (cc_sharedSecret c) (fst clock) ''POST'' path (sort_json rt body) (cc_clientId c) (toISOString now) nonce (cr_toBase64url rt ?mac)"
    using client len date clock laws toISOString_nonempty by (simp add: signed_call_def codec_laws_def)
  moreover have "\<forall>x. (cc_clientId c, nonce, x) \<notin> set (live_nonces (fst (snd clock)) db)" using unused by (simp add: live_nonces_def)
  ultimately show ?thesis using headers unfolding authenticate_None_iff by blast
qed

text \<open>A call is timely: its timestamp parses back, the service reads it within five minutes of it, and its nonce is fresh and well formed.\<close>

definition timely :: "coord_runtime \<Rightarrow> coord_client \<Rightarrow> int \<times> int \<times> int \<Rightarrow> int \<Rightarrow> string \<Rightarrow> coord_db \<Rightarrow> bool" where
  "timely rt c clock now nonce db \<longleftrightarrow> cr_dateParse rt (toISOString now) = Some now \<and> 24 \<le> length nonce \<and> length nonce \<le> 200
     \<and> \<bar>fst clock - now\<bar> \<le> 300000 \<and> (cc_clientId c, nonce) \<notin> (\<lambda>(a, b, _). (a, b)) ` set (cd_nonces db)"

lemma nonce_image: "(a, b) \<notin> (\<lambda>(a, b, _). (a, b)) ` S \<longleftrightarrow> (\<forall>x. (a, b, x) \<notin> S)"
  by force

text \<open>A body arrives: its canonical text parses back to the sorted value and keeps the limit of the server.\<close>

definition body_arrives :: "coord_runtime \<Rightarrow> nat \<Rightarrow> json \<Rightarrow> bool" where
  "body_arrives rt limit body \<longleftrightarrow> jr_parse rt (canonical rt body) = Some (sort_json rt body) \<and> canonical rt body \<noteq> []
     \<and> length (utf8_bytes (canonical rt body)) \<le> limit"

definition call_path :: "string \<Rightarrow> string" where
  "call_path operation = ''/api/mutation-coordination/'' @ operation"

lemma client_of:
  "new_coord_client rt endpoint ns secret cid fresh = Inr c \<Longrightarrow>
     namespacePattern (cc_clientId c) \<and> namespacePattern (cc_namespace c) \<and> cc_sharedSecret c = secret \<and> cc_namespace c = ns"
  by (auto simp: new_coord_client_def result_split split: if_splits)

lemma serve_client:
  assumes "codec_laws rt" "namespacePattern (cc_clientId c)" "timely rt c clock t nonce db" "body_arrives rt limit body"
  obtains headers where
    "coord_serve rt (cc_sharedSecret c) limit clock now i tok (coord_call rt c operation body t nonce) db =
       coord_exec rt (cc_sharedSecret c) (CoordCall clock now i tok (call_path operation) (sort_json rt body) headers) db"
    "authenticate rt (cc_sharedSecret c) clock ''POST'' (call_path operation) (sort_json rt body) headers db =
       (db\<lparr>cd_nonces := live_nonces (fst (snd clock)) db @ [(cc_clientId c, nonce, snd (snd clock) + 600000)]\<rparr>, None)"
proof -
  obtain headers where call: "coord_call rt c operation body t nonce = (call_path operation, headers, canonical rt body)"
    by (simp add: coord_call_def call_path_def Let_def)
  have "authenticate rt (cc_sharedSecret c) clock ''POST'' (call_path operation) (sort_json rt body) headers db =
       (db\<lparr>cd_nonces := live_nonces (fst (snd clock)) db @ [(cc_clientId c, nonce, snd (snd clock) + 600000)]\<rparr>, None)"
    using assms(3) by (intro call_authenticates [OF assms(1,2) call]) (force simp: timely_def)+
  moreover have "readJson rt limit (canonical rt body) = Inr (sort_json rt body)"
    using assms(4) by (simp add: body_arrives_def readJson_def)
  ultimately show ?thesis using that call by (simp add: coord_serve_def)
qed

text \<open>
  C99: Every timely call of a client that its constructor admitted is accepted by a service with the same secret, although the service hashes the
  parsed body and the client the text it wrote.
\<close>

theorem client_calls_authenticated:
  assumes "codec_laws rt" "new_coord_client rt endpoint ns secret cid fresh = Inr c" "timely rt c clock now nonce db"
    and "body_arrives rt limit body" "coord_call rt c operation body now nonce = (path, headers, raw)"
  shows "case readJson rt limit raw of Inl e \<Rightarrow> False | Inr body' \<Rightarrow> snd (authenticate rt secret clock ''POST'' path body' headers db) = None"
proof -
  note c = client_of [OF assms(2)]
  have raw: "raw = canonical rt body" using assms(5) by (simp add: coord_call_def Let_def)
  have "readJson rt limit raw = Inr (sort_json rt body)" using assms(4) by (simp add: raw body_arrives_def readJson_def)
  moreover have "snd (authenticate rt (cc_sharedSecret c) clock ''POST'' path (sort_json rt body) headers db) = None"
    using assms(3) c by (subst call_authenticates [OF assms(1) _ assms(5)]) (force simp: timely_def)+
  ultimately show ?thesis using c by simp
qed

text \<open>Path suffixes the server tells operations apart by.\<close>

lemma call_paths [simp]:
  "ends_with (call_path ''acquire'') ''/acquire''" "\<not> ends_with (call_path ''release'') ''/acquire''"
  "\<not> ends_with (call_path ''release'') ''/renew''" "ends_with (call_path ''release'') ''/release''"
  by code_simp+

definition client_grant :: "string \<Rightarrow> string \<Rightarrow> int \<Rightarrow> string \<Rightarrow> coord_grant" where
  "client_grant i tok now caseId =
     \<lparr>cg_leaseId = i, cg_leaseToken = tok, cg_expiresAt = now + leaseDurationMs, cg_caseId = caseId, cg_recovery = False\<rparr>"

definition clean_report :: json where
  "clean_report = JObject [(''state'', JString ''CLEAN'')]"

lemma acquire_free:
  assumes "acquireInput (Some body) = Inr v" "view db (ai_namespace v) = \<lparr>nv_active = None, nv_open = {}\<rparr>"
    and "i \<notin> cl_id ` set (cd_leases db)" "\<not> ai_recovery v"
  shows "coord_acquire rt now i tok (Some body) db =
    (db\<lparr>cd_leases := cd_leases db @ [granted_lease rt now i tok v]\<rparr>, Inr (client_grant i tok now (ai_caseId v)))"
proof -
  have "active_lease db (ai_namespace v) = None" using assms(2) by (simp add: view_alt)
  moreover have "obligations_in_namespace db (ai_namespace v) = []"
    using assms(2) by (force simp: view_alt obligations_in_namespace_def obligation_keys_def obligation_key_def filter_empty_conv)
  ultimately show ?thesis using assms by (simp add: coord_acquire_def Let_def granted_lease_def client_grant_def)
qed

lemma release_held:
  assumes "releaseInput (Some body) = Inr (v, r)" "l \<in> set (cd_leases db)" "lease_matches rt v l"
  shows "\<exists>db'. coord_release rt now (Some body) db = (db', Inr (cu_state r))"
  using assms by (cases "find (lease_matches rt v) (cd_leases db)") (auto simp: coord_release_def find_None_iff)

lemma client_pattern: "new_coord_client rt endpoint ns secret cid fresh = Inr c \<Longrightarrow> namespacePattern ns"
  using client_of by metis

definition client_lease :: "coord_runtime \<Rightarrow> int \<Rightarrow> string \<Rightarrow> string \<Rightarrow> string \<Rightarrow> string \<Rightarrow> string \<Rightarrow> coord_lease" where
  "client_lease rt now i tok ns caseId holderId =
     granted_lease rt now i tok \<lparr>ai_namespace = ns, ai_caseId = caseId, ai_holderId = holderId, ai_recovery = False\<rparr>"

lemma served_acquire:
  assumes laws: "codec_laws rt" and client: "new_coord_client rt endpoint ns secret cid fresh = Inr c" and ok: "coord_ok db"
    and free: "view db ns = \<lparr>nv_active = None, nv_open = {}\<rparr>" and new: "i \<notin> cl_id ` set (cd_leases db)"
    and patterns: "casePattern caseId" "namespacePattern holderId"
    and time: "timely rt c clock t n db" and body: "body_arrives rt limit (acquire_body c caseId holderId False)"
  obtains db1 where
    "coord_serve rt secret limit clock now i tok (coord_call rt c ''acquire'' (acquire_body c caseId holderId False) t n) db
      = (db1, CoordGranted (client_grant i tok now caseId))"
    "view db1 ns = \<lparr>nv_active = Some (i, caseId), nv_open = {}\<rparr>" "coord_ok db1"
    "client_lease rt now i tok ns caseId holderId \<in> set (cd_leases db1)"
    "\<And>a b x. (a, b, x) \<in> set (cd_nonces db1) \<Longrightarrow> (a, b, x) \<in> set (cd_nonces db) \<or> b = n"
proof -
  note c = client_of [OF client] client_pattern [OF client]
  let ?a = "sort_json rt (acquire_body c caseId holderId False)"
  let ?v = "\<lparr>ai_namespace = ns, ai_caseId = caseId, ai_holderId = holderId, ai_recovery = False\<rparr>"
  let ?dba = "db\<lparr>cd_nonces := live_nonces (fst (snd clock)) db @ [(cc_clientId c, n, snd (snd clock) + 600000)]\<rparr>"
  let ?db1 = "?dba\<lparr>cd_leases := cd_leases db @ [client_lease rt now i tok ns caseId holderId]\<rparr>"
  have inA: "acquireInput (Some ?a) = Inr ?v" using acquireInput_client [of c caseId holderId rt False] c patterns by simp
  obtain h where h: "coord_serve rt secret limit clock now i tok (coord_call rt c ''acquire'' (acquire_body c caseId holderId False) t n) db
      = coord_exec rt secret (CoordCall clock now i tok (call_path ''acquire'') ?a h) db"
    and au: "authenticate rt secret clock ''POST'' (call_path ''acquire'') ?a h db = (?dba, None)"
    using serve_client [OF laws _ time body] c by metis
  have "view ?dba = view db" by (rule view_cong) simp_all
  then have "coord_acquire rt now i tok (Some ?a) ?dba = (?db1, Inr (client_grant i tok now caseId))"
    using acquire_free [OF inA, of ?dba i rt now tok] free new by (simp add: client_lease_def)
  then have e: "coord_exec rt secret (CoordCall clock now i tok (call_path ''acquire'') ?a h) db = (?db1, CoordGranted (client_grant i tok now caseId))"
    using au by (simp add: coord_answer_def)
  have r: "coord_ok ?db1" "ns_step (view db ns) (NsGranted i caseId False) (view ?db1 ns)"
    using coord_exec_refines [OF ok e, of ns] inA by (simp_all add: client_grant_def)
  have "view ?db1 ns = \<lparr>nv_active = Some (i, caseId), nv_open = {}\<rparr>" using r(2) free by (auto elim: ns_grantedE)
  then show ?thesis using that [of ?db1] h e r(1) by (auto simp: live_nonces_def)
qed

lemma served_release:
  assumes laws: "codec_laws rt" and client: "new_coord_client rt endpoint ns secret cid fresh = Inr c" and ok: "coord_ok db"
    and held: "view db ns = \<lparr>nv_active = Some (i, caseId), nv_open = {}\<rparr>" "client_lease rt now i tok ns caseId holderId \<in> set (cd_leases db)"
    and patterns: "leaseIdPattern i" "leaseTokenPattern tok" "namespacePattern holderId"
    and time: "timely rt c clock t n db" and body: "body_arrives rt limit (release_body c (client_grant i tok now caseId) holderId clean_report)"
  shows "\<exists>db2. coord_serve rt secret limit clock now2 i' tok' (coord_call rt c ''release'' (release_body c (client_grant i tok now caseId) holderId clean_report) t n) db
      = (db2, CoordReleased (JString ''CLEAN'')) \<and> view db2 ns = \<lparr>nv_active = None, nv_open = {}\<rparr>"
proof -
  note c = client_of [OF client] client_pattern [OF client]
  let ?g = "client_grant i tok now caseId" let ?r = "sort_json rt (release_body c ?g holderId clean_report)"
  let ?dbr = "db\<lparr>cd_nonces := live_nonces (fst (snd clock)) db @ [(cc_clientId c, n, snd (snd clock) + 600000)]\<rparr>"
  have inR: "releaseInput (Some ?r) = Inr (\<lparr>lx_namespace = ns, lx_leaseId = i, lx_leaseToken = tok, lx_holderId = holderId\<rparr>,
      \<lparr>cu_state = JString ''CLEAN'', cu_stage = None, cu_obligations = []\<rparr>)" (is "_ = Inr (?lv, ?rep)")
    using releaseInput_client [of c ?g holderId rt] c patterns by (simp add: client_grant_def clean_report_def)
  obtain h where h: "coord_serve rt secret limit clock now2 i' tok' (coord_call rt c ''release'' (release_body c ?g holderId clean_report) t n) db
      = coord_exec rt secret (CoordCall clock now2 i' tok' (call_path ''release'') ?r h) db"
    and au: "authenticate rt secret clock ''POST'' (call_path ''release'') ?r h db = (?dbr, None)"
    using serve_client [OF laws _ time body] c by metis
  have match: "lease_matches rt ?lv (client_lease rt now i tok ns caseId holderId)" by (simp add: lease_matches_def client_lease_def granted_lease_def)
  have "client_lease rt now i tok ns caseId holderId \<in> set (cd_leases ?dbr)" using held(2) by simp
  then obtain db2 where "coord_release rt now2 (Some ?r) ?dbr = (db2, Inr (cu_state ?rep))" using release_held [OF inR _ match] by blast
  then have e: "coord_exec rt secret (CoordCall clock now2 i' tok' (call_path ''release'') ?r h) db = (db2, CoordReleased (JString ''CLEAN''))"
    using au by (simp add: coord_answer_def)
  have "ns_step (view db ns) (NsReleased i ReportClean) (view db2 ns)"
    using coord_exec_refines [OF ok e, of ns] inR by (simp add: report_of_def)
  then have "view db2 ns = \<lparr>nv_active = None, nv_open = {}\<rparr>" using held(1) by (auto elim: ns_releasedE)
  then show ?thesis using h e by auto
qed

text \<open>
  C26: A client takes a free namespace and gives it back: its acquire is answered with a lease of the drawn identifier and token and from then
  on the namespace is held by it for the case, and its release with a clean report is answered and leaves the namespace free as before.
\<close>

theorem client_lease_lifecycle:
  assumes laws: "codec_laws rt" and client: "new_coord_client rt endpoint ns secret cid fresh = Inr c" and ok: "coord_reach rt secret db"
    and free: "view db ns = \<lparr>nv_active = None, nv_open = {}\<rparr>" and new: "i \<notin> cl_id ` set (cd_leases db)"
    and patterns: "leaseIdPattern i" "leaseTokenPattern tok" "casePattern caseId" "namespacePattern holderId"
    and times: "timely rt c clock1 t1 n1 db" "timely rt c clock2 t2 n2 db" "n1 \<noteq> n2"
    and bodies: "body_arrives rt limit (acquire_body c caseId holderId False)"
      "body_arrives rt limit (release_body c (client_grant i tok now1 caseId) holderId clean_report)"
  shows "\<exists>db1 db2.
    coord_serve rt secret limit clock1 now1 i tok (coord_call rt c ''acquire'' (acquire_body c caseId holderId False) t1 n1) db
      = (db1, CoordGranted (client_grant i tok now1 caseId))
    \<and> view db1 ns = \<lparr>nv_active = Some (i, caseId), nv_open = {}\<rparr>
    \<and> coord_serve rt secret limit clock2 now2 i' tok' (coord_call rt c ''release'' (release_body c (client_grant i tok now1 caseId) holderId clean_report) t2 n2) db1
      = (db2, CoordReleased (JString ''CLEAN''))
    \<and> view db2 ns = view db ns"
proof -
  obtain db1 where a: "coord_serve rt secret limit clock1 now1 i tok (coord_call rt c ''acquire'' (acquire_body c caseId holderId False) t1 n1) db
      = (db1, CoordGranted (client_grant i tok now1 caseId))" "view db1 ns = \<lparr>nv_active = Some (i, caseId), nv_open = {}\<rparr>" "coord_ok db1"
      "client_lease rt now1 i tok ns caseId holderId \<in> set (cd_leases db1)"
    and nonces: "\<And>a b x. (a, b, x) \<in> set (cd_nonces db1) \<Longrightarrow> (a, b, x) \<in> set (cd_nonces db) \<or> b = n1"
    using served_acquire [OF laws client coord_reach_ok [OF ok] free new patterns(3,4) times(1) bodies(1), of now1 tok] by metis
  have "timely rt c clock2 t2 n2 db1" using times nonces unfolding timely_def nonce_image by blast
  from served_release [OF laws client a(3,2,4) patterns(1,2,4) this bodies(2), of now2 i' tok'] a(1,2) free show ?thesis by auto
qed

section \<open>Examples\<close>

lemma locale_compare_total: "locale_compare a b \<le> 0 \<or> locale_compare b a \<le> 0"
  by (induction a b rule: locale_compare.induct) auto

lemma locale_compare_Cons:
  "locale_compare (x # xs) (y # ys) \<le> 0 \<longleftrightarrow> (of_char x :: nat) < of_char y \<or> (of_char x :: nat) = of_char y \<and> locale_compare xs ys \<le> 0"
  by auto

lemma locale_compare_trans: "locale_compare a b \<le> 0 \<Longrightarrow> locale_compare b c \<le> 0 \<Longrightarrow> locale_compare a c \<le> 0"
proof (induction a b arbitrary: c rule: locale_compare.induct)
  case (4 x xs y ys)
  show ?case
  proof (cases c)
    case Nil
    then show ?thesis using 4 by simp
  next
    case (Cons z zs)
    have "locale_compare xs ys \<le> 0 \<Longrightarrow> locale_compare ys zs \<le> 0 \<Longrightarrow> locale_compare xs zs \<le> 0" if "(of_char x :: nat) = of_char y"
      using 4(1) that by (simp del: of_char_eq_iff)
    then show ?thesis using 4(2,3) unfolding Cons locale_compare_Cons by fastforce
  qed
next
  case 1 then show ?case by simp
next
  case 2 then show ?case by (cases c) auto
next
  case 3 then show ?case by simp
qed

lemma example_codec_laws: "codec_laws example_coord_runtime"
  using locale_compare_total locale_compare_trans by (auto simp: codec_laws_def comparator_def example_coord_runtime_def)

theorem client_calls_authenticated_witness:
  "readJson example_coord_runtime 1000 (snd (snd example_request)) = Inr (sort_json example_coord_runtime example_acquire_body)
   \<and> snd (authenticate example_coord_runtime example_secret (0, 0, 0) ''POST'' (fst example_request) (sort_json example_coord_runtime example_acquire_body)
       (fst (snd example_request)) empty_coord) = None"
proof -
  have client: "new_coord_client example_coord_runtime ''https://a.io'' ''prod'' example_secret (Some ''host-a'') [] = Inr example_coord_client"
    by code_simp
  have time: "timely example_coord_runtime example_coord_client (0, 0, 0) 0 example_nonce empty_coord" by code_simp
  have body: "body_arrives example_coord_runtime 1000 example_acquire_body" by code_simp
  have call: "coord_call example_coord_runtime example_coord_client ''acquire'' example_acquire_body 0 example_nonce
      = (fst example_request, fst (snd example_request), snd (snd example_request))"
    by (simp add: example_request_def)
  have read: "readJson example_coord_runtime 1000 (snd (snd example_request)) = Inr (sort_json example_coord_runtime example_acquire_body)" by code_simp
  from client_calls_authenticated [OF example_codec_laws client time body call] read show ?thesis by simp
qed

theorem client_lease_lifecycle_witness:
  "\<exists>db1 db2.
    coord_serve example_coord_runtime example_secret 1000 (0, 0, 0) 0 example_coord_lease_id example_lease_token example_request empty_coord
      = (db1, CoordGranted (client_grant example_coord_lease_id example_lease_token 0 ''c1''))
    \<and> view db1 ''prod'' = \<lparr>nv_active = Some (example_coord_lease_id, ''c1''), nv_open = {}\<rparr>
    \<and> coord_serve example_coord_runtime example_secret 1000 (0, 0, 0) 0 [] []
        (coord_call example_coord_runtime example_coord_client ''release''
          (release_body example_coord_client (client_grant example_coord_lease_id example_lease_token 0 ''c1'') ''h1'' clean_report) 0 (CHR ''m'' # example_nonce)) db1
      = (db2, CoordReleased (JString ''CLEAN''))
    \<and> view db2 ''prod'' = view empty_coord ''prod''"
proof -
  have client: "new_coord_client example_coord_runtime ''https://a.io'' ''prod'' example_secret (Some ''host-a'') [] = Inr example_coord_client"
    by code_simp
  have free: "view empty_coord ''prod'' = \<lparr>nv_active = None, nv_open = {}\<rparr>"
    by (simp add: view_def empty_coord_def active_lease_def)
  have new: "example_coord_lease_id \<notin> cl_id ` set (cd_leases empty_coord)" by (simp add: empty_coord_def)
  have patterns: "leaseIdPattern example_coord_lease_id" "leaseTokenPattern example_lease_token" "casePattern ''c1''" "namespacePattern ''h1''" by code_simp+
  have times: "timely example_coord_runtime example_coord_client (0, 0, 0) 0 example_nonce empty_coord"
    "timely example_coord_runtime example_coord_client (0, 0, 0) 0 (CHR ''m'' # example_nonce) empty_coord" "example_nonce \<noteq> CHR ''m'' # example_nonce"
    by code_simp+
  have bodies: "body_arrives example_coord_runtime 1000 (acquire_body example_coord_client ''c1'' ''h1'' False)"
    "body_arrives example_coord_runtime 1000 (release_body example_coord_client (client_grant example_coord_lease_id example_lease_token 0 ''c1'') ''h1'' clean_report)"
    by code_simp+
  have "example_request = coord_call example_coord_runtime example_coord_client ''acquire'' (acquire_body example_coord_client ''c1'' ''h1'' False) 0 example_nonce"
    by (simp add: example_request_def example_acquire_body_def)
  then show ?thesis
    using client_lease_lifecycle [OF example_codec_laws client coord_reach.start free new patterns times bodies] by simp
qed

end
