(* ===== verification/RC_RemoteWorkers.thy ===== *)
theory RC_RemoteWorkers
  imports RC_CoordinatorFacts
begin

text \<open>
  The fleet of remote workers, \<^verbatim>\<open>dashboard/operations/RemoteWorkerService.ts\<close>, with its routes in \<^verbatim>\<open>dashboard/server/DashboardServer.ts\<close>
  and its body schemas in \<^verbatim>\<open>dashboard/contracts/OperationalScaleSchemas.ts\<close>. Tables are lists in insertion order, JSON columns the values they
  encode, instants milliseconds; the readings of the clock within one operation are one value except in \<^verbatim>\<open>authenticate\<close>. Key import
  and signature verification are parameters, and so is the value of a number literal of a body.
\<close>

section \<open>State\<close>

datatype worker_status = WorkerOnline | WorkerDraining | WorkerQuarantined | WorkerRevoked

record enrollment_row =
  en_id :: string
  en_organization :: string
  en_tokenHash :: string
  en_nameHint :: "string option"
  en_expiresAt :: int
  en_createdBy :: string
  en_createdAt :: int
  en_consumedAt :: "int option"

record worker_row =
  wk_id :: string
  wk_organization :: string
  wk_name :: string
  wk_publicKey :: string
  wk_fingerprint :: string
  wk_capabilities :: "string list"
  wk_labels :: "(string \<times> string) list"
  wk_resources :: "string option"
  wk_status :: worker_status
  wk_generation :: int
  wk_lastSeenAt :: int
  wk_createdAt :: int
  wk_updatedAt :: int

datatype job_status = JobQueued | JobLeased | JobRunning | JobCompleted | JobFailed

record job_row =
  jb_id :: string
  jb_organization :: string
  jb_kind :: string
  jb_payload :: string
  jb_required :: "string list"
  jb_zone :: "string option"
  jb_status :: job_status
  jb_priority :: int
  jb_worker :: "string option"
  jb_leaseHash :: "string option"
  jb_leaseExpires :: "int option"
  jb_attempts :: nat
  jb_maxAttempts :: nat
  jb_result :: "string option"
  jb_error :: "string option"
  jb_createdBy :: string
  jb_createdAt :: int
  jb_startedAt :: "int option"
  jb_completedAt :: "int option"

record fleet_db =
  fd_enrollments :: "enrollment_row list"
  fd_workers :: "worker_row list"
  fd_jobs :: "job_row list"
  fd_nonces :: nonce_table

type_synonym fleet_error = "string \<times> int"

definition workerAuthError :: "string \<Rightarrow> fleet_error" where
  "workerAuthError code = (code, 401)"

definition fleetError :: "string \<Rightarrow> fleet_error" where
  "fleetError code = (code, 500)"

text \<open>\<open>fr_createPublicKey\<close>: the type, the SPKI PEM and the SPKI DER of a key, or \<open>None\<close> where it does not parse.\<close>

record fleet_runtime = coord_runtime +
  fr_createPublicKey :: "string \<Rightarrow> (string \<times> string \<times> string) option"
  fr_verify :: "string \<Rightarrow> string \<Rightarrow> string \<Rightarrow> bool"
  fr_numberValue :: "string \<Rightarrow> jsnum"

definition fleet_digest :: "fleet_runtime \<Rightarrow> string \<Rightarrow> string" where
  "fleet_digest rt v = rt_sha256 rt (''routecairn-remote-v1'' @ [CHR 0x00] @ v)"

definition fleet_canonical :: "fleet_runtime \<Rightarrow> json \<Rightarrow> string" where
  "fleet_canonical rt v = canonical (coord_runtime.truncate rt) v"

section \<open>Helpers\<close>

fun has_infix :: "string \<Rightarrow> string \<Rightarrow> bool" where
  "has_infix w [] \<longleftrightarrow> w = []"
| "has_infix w (c # s) \<longleftrightarrow> starts_with (c # s) w \<or> has_infix w s"

text \<open>\<^verbatim>\<open>[...new Set(xs)].sort()\<close>: by code units.\<close>

definition unique_sorted :: "string list \<Rightarrow> string list" where
  "unique_sorted xs = sort_by locale_compare (remdups xs)"

definition validateEd25519 :: "fleet_runtime \<Rightarrow> string \<Rightarrow> fleet_error + string \<times> string" where
  "validateEd25519 rt pem =
     (case fr_createPublicKey rt pem of
        None \<Rightarrow> Inl (workerAuthError ''REMOTE_WORKER_KEY_REJECTED'')
      | Some (kind, spki, der) \<Rightarrow> if kind \<noteq> ''ed25519'' then Inl (workerAuthError ''REMOTE_WORKER_KEY_TYPE_REJECTED'') else Inr (spki, der))"

definition secret_words :: "string list" where
  "secret_words = [''password'', ''passwd'', ''secret'', ''token'', ''cookie'', ''authorization'', ''privatekey'', ''private_key'', ''private-key'',
     ''apikey'', ''api_key'', ''api-key'', ''credential'', ''session'', ''jwt'', ''signature'', ''signed'']"

definition secret_key :: "string \<Rightarrow> bool" where
  "secret_key key \<longleftrightarrow> list_ex (\<lambda>w. has_infix w (to_lower key)) secret_words
     \<and> \<not> list_ex (ends_with (to_lower key)) [''path'', ''ref'', ''env'']"

text \<open>The walk of \<^verbatim>\<open>inspect\<close>: the first error it throws.\<close>

fun inspect_json :: "nat \<Rightarrow> json \<Rightarrow> string option" and inspect_items :: "nat \<Rightarrow> json list \<Rightarrow> string option"
  and inspect_fields :: "nat \<Rightarrow> (string \<times> json) list \<Rightarrow> string option" where
  "inspect_json depth v =
     (if depth > 12 then Some ''REMOTE_JOB_PAYLOAD_TOO_DEEP''
      else case v of JArray xs \<Rightarrow> inspect_items (depth + 1) xs | JObject kvs \<Rightarrow> inspect_fields (depth + 1) kvs | _ \<Rightarrow> None)"
| "inspect_items depth [] = None"
| "inspect_items depth (x # xs) = (case inspect_json depth x of None \<Rightarrow> inspect_items depth xs | Some e \<Rightarrow> Some e)"
| "inspect_fields depth [] = None"
| "inspect_fields depth ((k, x) # kvs) =
     (if secret_key k then Some ''REMOTE_JOB_SECRET_FIELD_REJECTED''
      else case inspect_json depth x of None \<Rightarrow> inspect_fields depth kvs | Some e \<Rightarrow> Some e)"

definition ensureSafeObject :: "fleet_runtime \<Rightarrow> (string \<times> json) list \<Rightarrow> fleet_error + unit" where
  "ensureSafeObject rt kvs =
     (if int (length (utf8_bytes (fleet_canonical rt (JObject kvs)))) > 256 * 1024 then Inl (fleetError ''REMOTE_JOB_PAYLOAD_TOO_LARGE'')
      else case inspect_json 0 (JObject kvs) of Some e \<Rightarrow> Inl (fleetError e) | None \<Rightarrow> Inr ())"

definition zone_char :: "char \<Rightarrow> bool" where
  "zone_char c \<longleftrightarrow> c \<in> set ''abcdefghijklmnopqrstuvwxyz0123456789''"

definition normalizeZone :: "string option \<Rightarrow> fleet_error + string" where
  "normalizeZone v =
     (let zone = to_lower (or_else v ''default'') in
      if len_between 1 64 zone \<and> zone_char (hd zone) \<and> list_all (\<lambda>c. zone_char c \<or> c \<in> set ''._-'') zone
      then Inr zone else Inl (fleetError ''REMOTE_WORKER_NETWORK_ZONE_INVALID''))"

subsection \<open>Texts of failures\<close>

definition word_char :: "char \<Rightarrow> bool" where
  "word_char c \<longleftrightarrow> c \<in> set name_chars \<or> c = CHR ''_''"

lemma length_dropWhile_le_Suc: "length (dropWhile P s) < Suc (length s)"
  by (simp add: le_imp_less_Suc length_dropWhile_le)

text \<open>\<^verbatim>\<open>/https?:\/\/[^\s]+/gi\<close> becomes \<^verbatim>\<open><endpoint>\<close>: the length of the scheme at the front of a text, where a URL starts there.\<close>

definition url_scheme :: "string \<Rightarrow> nat option" where
  "url_scheme s =
     (let n = (if to_lower (take 7 s) = ''http://'' then 7 else if to_lower (take 8 s) = ''https://'' then 8 else 0) in
      if n = 0 \<or> drop n s = [] \<or> is_space (hd (drop n s)) then None else Some n)"

function scrub_urls :: "string \<Rightarrow> string" where
  "scrub_urls [] = []"
| "scrub_urls (c # s) =
     (case url_scheme (c # s) of
        Some n \<Rightarrow> ''<endpoint>'' @ scrub_urls (dropWhile (\<lambda>x. \<not> is_space x) s)
      | None \<Rightarrow> c # scrub_urls s)"
  by pat_completeness auto
termination by (relation "measure length") (simp_all add: length_dropWhile_le_Suc)

text \<open>
  \<^verbatim>\<open>/\b(password|...)\s*[:=]\s*[^\s,;]+/gi\<close>: the word and the rest behind the value, where one starts at the front of a text.
\<close>

definition leading_word :: "string \<Rightarrow> string option" where
  "leading_word s = find (\<lambda>w. starts_with (to_lower s) w)
     [''password'', ''secret'', ''token'', ''cookie'', ''authorization'', ''private_key'', ''private-key'', ''privatekey'']"

definition value_char :: "char \<Rightarrow> bool" where
  "value_char c \<longleftrightarrow> \<not> is_space c \<and> c \<notin> {CHR '','', CHR '';''}"

definition assignment :: "string \<Rightarrow> (string \<times> string) option" where
  "assignment s =
     (case leading_word s of
        None \<Rightarrow> None
      | Some w \<Rightarrow>
          (case dropWhile is_space (drop (length w) s) of
             [] \<Rightarrow> None
           | c # t \<Rightarrow>
               let v = dropWhile is_space t in
               if c \<in> {CHR '':'', CHR ''=''} \<and> v \<noteq> [] \<and> value_char (hd v) then Some (take (length w) s, dropWhile value_char v) else None))"

lemma assignment_shorter: "assignment (c # s) = Some (w, r) \<Longrightarrow> length r < Suc (length s)"
proof -
  assume a: "assignment (c # s) = Some (w, r)"
  obtain x d t where w: "leading_word (c # s) = Some x" and d: "dropWhile is_space (drop (length x) (c # s)) = d # t"
    and r: "r = dropWhile value_char (dropWhile is_space t)"
    using a by (auto simp: assignment_def Let_def split: option.splits list.splits if_splits)
  have "length (d # t) \<le> length (c # s)"
    using d length_dropWhile_le [of is_space "drop (length x) (c # s)"] by simp
  moreover have "length r \<le> length t" unfolding r by (meson length_dropWhile_le le_trans)
  ultimately show ?thesis by simp
qed

function scrub_secrets :: "bool \<Rightarrow> string \<Rightarrow> string" where
  "scrub_secrets inWord [] = []"
| "scrub_secrets inWord (c # s) =
     (case (if inWord then None else assignment (c # s)) of
        Some (w, r) \<Rightarrow> w @ ''=<redacted>'' @ scrub_secrets True r
      | None \<Rightarrow> c # scrub_secrets (word_char c) s)"
  by pat_completeness auto
termination by (relation "measure (\<lambda>(b, s). length s)") (auto simp: assignment_shorter split: if_splits)

text \<open>\<^verbatim>\<open>/[\r\n]+/g\<close> becomes a space.\<close>

fun flatten_lines :: "bool \<Rightarrow> string \<Rightarrow> string" where
  "flatten_lines _ [] = []"
| "flatten_lines inBreak (c # s) =
     (if c \<in> {CHR 0x0A, CHR 0x0D} then (if inBreak then flatten_lines True s else CHR 0x20 # flatten_lines True s) else c # flatten_lines False s)"

definition safeRemoteError :: "string \<Rightarrow> string" where
  "safeRemoteError v = take 1000 (flatten_lines False (scrub_secrets False (scrub_urls v)))"

section \<open>Enrollment\<close>

record enrollment_input =
  ei_organization :: string
  ei_nameHint :: "string option"
  ei_minutes :: int
  ei_workloadIdentity :: bool

text \<open>\<open>enrollmentId\<close> and \<open>token\<close> are drawn at random; taken ones violate the constraints of the table.\<close>

definition createEnrollment :: "fleet_runtime \<Rightarrow> int \<Rightarrow> string \<Rightarrow> string \<Rightarrow> enrollment_input \<Rightarrow> string \<Rightarrow> fleet_db \<Rightarrow> fleet_db \<times> (fleet_error + int)" where
  "createEnrollment rt now enrollmentId token input actor db =
     (let expiresAt = now + ei_minutes input * 60000 in
      if ei_workloadIdentity input then (db, Inl (fleetError ''WORKLOAD_BINDING_REQUIRES_DISTRIBUTED_MODE''))
      else if list_ex (\<lambda>r. en_id r = enrollmentId \<or> en_tokenHash r = fleet_digest rt token) (fd_enrollments db)
      then (db, Inl (fleetError ''SQLITE_CONSTRAINT''))
      else (db\<lparr>fd_enrollments := fd_enrollments db @ [\<lparr>en_id = enrollmentId, en_organization = ei_organization input,
               en_tokenHash = fleet_digest rt token, en_nameHint = ei_nameHint input, en_expiresAt = expiresAt, en_createdBy = actor,
               en_createdAt = now, en_consumedAt = None\<rparr>]\<rparr>, Inr expiresAt))"

record enroll_input =
  el_token :: string
  el_name :: string
  el_publicKeyPem :: string
  el_capabilities :: "string list"
  el_labels :: "(string \<times> string) list"

text \<open>The transaction rolls back where the insertion of the worker violates a constraint.\<close>

definition new_worker :: "fleet_runtime \<Rightarrow> int \<Rightarrow> string \<Rightarrow> enroll_input \<Rightarrow> string \<Rightarrow> string \<Rightarrow> string \<Rightarrow> string \<Rightarrow> worker_row" where
  "new_worker rt now workerId input org spki der zone =
     \<lparr>wk_id = workerId, wk_organization = org, wk_name = el_name input, wk_publicKey = spki, wk_fingerprint = rt_sha256 rt der,
      wk_capabilities = unique_sorted (el_capabilities input), wk_labels = js_map_set ''networkZone'' zone (el_labels input), wk_resources = None,
      wk_status = WorkerOnline, wk_generation = 1, wk_lastSeenAt = now, wk_createdAt = now, wk_updatedAt = now\<rparr>"

definition enroll :: "fleet_runtime \<Rightarrow> int \<Rightarrow> string \<Rightarrow> enroll_input \<Rightarrow> fleet_db \<Rightarrow> fleet_db \<times> (fleet_error + string)" where
  "enroll rt now workerId input db =
     (case validateEd25519 rt (el_publicKeyPem input) of
        Inl e \<Rightarrow> (db, Inl e)
      | Inr (spki, der) \<Rightarrow>
         (case find (\<lambda>r. en_tokenHash r = fleet_digest rt (el_token input)) (fd_enrollments db) of
            None \<Rightarrow> (db, Inl (workerAuthError ''REMOTE_ENROLLMENT_REJECTED''))
          | Some row \<Rightarrow>
              if en_consumedAt row \<noteq> None \<or> en_expiresAt row \<le> now then (db, Inl (workerAuthError ''REMOTE_ENROLLMENT_REJECTED''))
              else (case normalizeZone (map_of (el_labels input) ''networkZone'') of
                  Inl e \<Rightarrow> (db, Inl e)
                | Inr zone \<Rightarrow>
                    let w = new_worker rt now workerId input (en_organization row) spki der zone;
                        consume = (\<lambda>r. en_id r = en_id row \<and> en_consumedAt r = None \<and> en_expiresAt r > now) in
                    if length (filter consume (fd_enrollments db)) \<noteq> 1 then (db, Inl (workerAuthError ''REMOTE_ENROLLMENT_REJECTED''))
                    else if list_ex (\<lambda>x. wk_id x = workerId \<or> wk_fingerprint x = wk_fingerprint w) (fd_workers db)
                    then (db, Inl (fleetError ''SQLITE_CONSTRAINT''))
                    else (db\<lparr>fd_enrollments := map (\<lambda>r. if consume r then r\<lparr>en_consumedAt := Some now\<rparr> else r) (fd_enrollments db),
                             fd_workers := fd_workers db @ [w]\<rparr>, Inr workerId))))"

section \<open>Authentication\<close>

text \<open>The readings of the clock: for the age of the call, for the purge of nonces, for the new nonce. The answer is the row of the worker.\<close>

definition fleet_authenticate ::
  "fleet_runtime \<Rightarrow> int \<times> int \<times> int \<Rightarrow> string \<Rightarrow> string \<Rightarrow> json \<Rightarrow> (string \<times> string) list \<Rightarrow> fleet_db \<Rightarrow> fleet_db \<times> (fleet_error + worker_row)" where
  "fleet_authenticate rt clock verb path body headers db =
     (case (map_of headers ''x-routecairn-worker-id'', map_of headers ''x-routecairn-timestamp'', map_of headers ''x-routecairn-nonce'',
            map_of headers ''x-routecairn-signature'') of
        (Some workerId, Some timestamp, Some nonce, Some sig) \<Rightarrow>
          if workerId = [] \<or> timestamp = [] \<or> sig = [] \<or> length nonce < 16 \<or> length nonce > 200
          then (db, Inl (workerAuthError ''REMOTE_WORKER_SIGNATURE_REQUIRED''))
          else (case cr_dateParse rt timestamp of
              None \<Rightarrow> (db, Inl (workerAuthError ''REMOTE_WORKER_TIMESTAMP_REJECTED''))
            | Some time \<Rightarrow>
                if \<bar>fst clock - time\<bar> > 5 * 60000 then (db, Inl (workerAuthError ''REMOTE_WORKER_TIMESTAMP_REJECTED''))
                else (case find (\<lambda>w. wk_id w = workerId) (fd_workers db) of
                    None \<Rightarrow> (db, Inl (workerAuthError ''REMOTE_WORKER_REJECTED''))
                  | Some worker \<Rightarrow>
                      if wk_status worker \<in> {WorkerQuarantined, WorkerRevoked} then (db, Inl (workerAuthError ''REMOTE_WORKER_REJECTED''))
                      else let bodyHash = rt_sha256 rt (fleet_canonical rt body);
                               signed = join_with [CHR 0x0A] [''routecairn-agent-ed25519-v1'', to_upper verb, path, timestamp, nonce, bodyHash] in
                        if \<not> fr_verify rt (wk_publicKey worker) signed sig then (db, Inl (workerAuthError ''REMOTE_WORKER_SIGNATURE_REJECTED''))
                        else let (nonces, fresh) = use_nonce (fst (snd clock)) (snd (snd clock) + 10 * 60000) (workerId, nonce) (fd_nonces db) in
                          (db\<lparr>fd_nonces := nonces\<rparr>, if fresh then Inr worker else Inl (workerAuthError ''REMOTE_WORKER_REPLAY_REJECTED''))))
      | _ \<Rightarrow> (db, Inl (workerAuthError ''REMOTE_WORKER_SIGNATURE_REQUIRED'')))"

section \<open>Jobs\<close>

definition activeWorker :: "bool \<Rightarrow> worker_row \<Rightarrow> fleet_db \<Rightarrow> fleet_error + worker_row" where
  "activeWorker allowDraining worker db =
     (case find (\<lambda>w. wk_id w = wk_id worker \<and> wk_generation w = wk_generation worker) (fd_workers db) of
        None \<Rightarrow> Inl (workerAuthError ''REMOTE_WORKER_REJECTED'')
      | Some current \<Rightarrow>
          if wk_status current = WorkerOnline \<or> allowDraining \<and> wk_status current = WorkerDraining then Inr current
          else Inl (workerAuthError ''REMOTE_WORKER_REJECTED''))"

definition heartbeat :: "int \<Rightarrow> worker_row \<Rightarrow> worker_status \<Rightarrow> string \<Rightarrow> fleet_db \<Rightarrow> fleet_db \<times> (fleet_error + unit)" where
  "heartbeat now worker status resources db =
     (case activeWorker True worker db of
        Inl e \<Rightarrow> (db, Inl e)
      | Inr current \<Rightarrow>
          (db\<lparr>fd_workers := map (\<lambda>w. if wk_id w = wk_id worker
                 then w\<lparr>wk_status := (if wk_status current = WorkerDraining then WorkerDraining else status), wk_resources := Some resources,
                        wk_lastSeenAt := now, wk_updatedAt := now\<rparr> else w) (fd_workers db)\<rparr>, Inr ()))"

record enqueue_input =
  qi_organization :: string
  qi_kind :: string
  qi_payload :: "(string \<times> json) list"
  qi_required :: "string list"
  qi_priority :: int
  qi_maxAttempts :: nat
  qi_zone :: "string option"

definition enqueue_job :: "fleet_runtime \<Rightarrow> int \<Rightarrow> string \<Rightarrow> enqueue_input \<Rightarrow> string \<Rightarrow> fleet_db \<Rightarrow> fleet_db \<times> (fleet_error + string)" where
  "enqueue_job rt now jobId input actor db =
     (case ensureSafeObject rt (qi_payload input) of
        Inl e \<Rightarrow> (db, Inl e)
      | Inr _ \<Rightarrow>
          if jobId \<in> jb_id ` set (fd_jobs db) then (db, Inl (fleetError ''SQLITE_CONSTRAINT''))
          else (db\<lparr>fd_jobs := fd_jobs db @ [\<lparr>jb_id = jobId, jb_organization = qi_organization input, jb_kind = qi_kind input,
                    jb_payload = fleet_canonical rt (JObject (qi_payload input)), jb_required = unique_sorted (to_lower (qi_kind input) # qi_required input),
                    jb_zone = qi_zone input, jb_status = JobQueued, jb_priority = qi_priority input, jb_worker = None, jb_leaseHash = None,
                    jb_leaseExpires = None, jb_attempts = 0, jb_maxAttempts = qi_maxAttempts input, jb_result = None, jb_error = None,
                    jb_createdBy = actor, jb_createdAt = now, jb_startedAt = None, jb_completedAt = None\<rparr>]\<rparr>, Inr jobId))"

definition leased :: "job_row \<Rightarrow> bool" where
  "leased j \<longleftrightarrow> jb_status j = JobLeased \<or> jb_status j = JobRunning"

definition lease_expired :: "int \<Rightarrow> job_row \<Rightarrow> bool" where
  "lease_expired now j \<longleftrightarrow> leased j \<and> (case jb_leaseExpires j of None \<Rightarrow> False | Some t \<Rightarrow> t \<le> now)"

definition requeue_job :: "int \<Rightarrow> job_row \<Rightarrow> job_row" where
  "requeue_job now j =
     (if lease_expired now j
      then j\<lparr>jb_status := (if jb_attempts j \<ge> jb_maxAttempts j then JobFailed else JobQueued), jb_worker := None, jb_leaseHash := None, jb_leaseExpires := None,
             jb_completedAt := (if jb_attempts j \<ge> jb_maxAttempts j then Some now else None),
             jb_error := (if jb_attempts j \<ge> jb_maxAttempts j then Some ''Lease expired after maximum attempts.'' else jb_error j)\<rparr>
      else j)"

definition requeueExpired :: "int \<Rightarrow> fleet_db \<Rightarrow> fleet_db" where
  "requeueExpired now db = db\<lparr>fd_jobs := map (requeue_job now) (fd_jobs db)\<rparr>"

text \<open>\<^verbatim>\<open>ORDER BY priority DESC, created_at LIMIT 100\<close>; ties keep the order of insertion.\<close>

definition job_order :: "job_row \<Rightarrow> job_row \<Rightarrow> int" where
  "job_order a b = (if jb_priority a \<noteq> jb_priority b then jb_priority b - jb_priority a else jb_createdAt a - jb_createdAt b)"

definition claimable :: "worker_row \<Rightarrow> job_row \<Rightarrow> bool" where
  "claimable w j \<longleftrightarrow> jb_organization j = wk_organization w \<and> jb_status j = JobQueued \<and> jb_attempts j < jb_maxAttempts j
     \<and> (jb_zone j = None \<or> jb_zone j = Some (or_else (map_of (wk_labels w) ''networkZone'') ''default''))"

definition candidates :: "worker_row \<Rightarrow> fleet_db \<Rightarrow> job_row list" where
  "candidates w db = take 100 (sort_by job_order (filter (claimable w) (fd_jobs db)))"

definition capable :: "worker_row \<Rightarrow> job_row \<Rightarrow> bool" where
  "capable w j \<longleftrightarrow> list_all (\<lambda>c. c \<in> set (wk_capabilities w)) (jb_required j)"

record claimed_job =
  cj_id :: string
  cj_kind :: string
  cj_payload :: string
  cj_leaseToken :: string
  cj_leaseExpiresAt :: int

definition set_job :: "(job_row \<Rightarrow> job_row) \<Rightarrow> string \<Rightarrow> fleet_db \<Rightarrow> fleet_db" where
  "set_job f jobId db = db\<lparr>fd_jobs := map (\<lambda>j. if jb_id j = jobId then f j else j) (fd_jobs db)\<rparr>"

definition claim_job :: "fleet_runtime \<Rightarrow> int \<Rightarrow> string \<Rightarrow> worker_row \<Rightarrow> fleet_db \<Rightarrow> fleet_db \<times> claimed_job option" where
  "claim_job rt now token worker db =
     (let db1 = requeueExpired now db in
      case activeWorker False worker db1 of
        Inl e \<Rightarrow> (db1, None)
      | Inr w \<Rightarrow>
         (case find (capable w) (candidates w db1) of
            None \<Rightarrow> (db1, None)
          | Some job \<Rightarrow>
              (set_job (\<lambda>j. j\<lparr>jb_status := JobLeased, jb_worker := Some (wk_id w), jb_leaseHash := Some (fleet_digest rt token),
                              jb_leaseExpires := Some (now + 60000), jb_attempts := jb_attempts j + 1,
                              jb_startedAt := Some (or_else (jb_startedAt j) now)\<rparr>) (jb_id job) db1,
               Some \<lparr>cj_id = jb_id job, cj_kind = jb_kind job, cj_payload = jb_payload job, cj_leaseToken = token, cj_leaseExpiresAt = now + 60000\<rparr>)))"

record completion_input =
  ci_leaseToken :: string
  ci_status :: job_status
  ci_result :: "(string \<times> json) list option"
  ci_error :: "string option"

definition complete_job :: "fleet_runtime \<Rightarrow> int \<Rightarrow> worker_row \<Rightarrow> string \<Rightarrow> completion_input \<Rightarrow> fleet_db \<Rightarrow> fleet_db \<times> (fleet_error + unit)" where
  "complete_job rt now worker jobId input db =
     (case activeWorker True worker db of
        Inl e \<Rightarrow> (db, Inl e)
      | Inr _ \<Rightarrow>
         (case (case ci_result input of None \<Rightarrow> Inr () | Some r \<Rightarrow> ensureSafeObject rt r) of
            Inl e \<Rightarrow> (db, Inl e)
          | Inr _ \<Rightarrow>
             (case find (\<lambda>j. jb_id j = jobId) (fd_jobs db) of
                None \<Rightarrow> (db, Inl (workerAuthError ''REMOTE_JOB_LEASE_REJECTED''))
              | Some job \<Rightarrow>
                  if \<not> leased job \<or> jb_worker job \<noteq> Some (wk_id worker) \<or> jb_leaseHash job \<noteq> Some (fleet_digest rt (ci_leaseToken input))
                    \<or> (case jb_leaseExpires job of None \<Rightarrow> True | Some t \<Rightarrow> t \<le> now)
                  then (db, Inl (workerAuthError ''REMOTE_JOB_LEASE_REJECTED''))
                  else (set_job (\<lambda>j. j\<lparr>jb_status := ci_status input, jb_result := map_option (\<lambda>r. fleet_canonical rt (JObject r)) (ci_result input),
                                       jb_error := (case ci_error input of Some e \<Rightarrow> if e = [] then None else Some (safeRemoteError e) | None \<Rightarrow> None),
                                       jb_completedAt := Some now, jb_leaseHash := None, jb_leaseExpires := None\<rparr>) jobId db, Inr ()))))"

definition renewable :: "fleet_runtime \<Rightarrow> int \<Rightarrow> worker_row \<Rightarrow> string \<Rightarrow> string \<Rightarrow> job_row \<Rightarrow> bool" where
  "renewable rt now worker jobId leaseToken j \<longleftrightarrow> jb_id j = jobId \<and> jb_worker j = Some (wk_id worker) \<and> jb_leaseHash j = Some (fleet_digest rt leaseToken)
     \<and> leased j \<and> (case jb_leaseExpires j of None \<Rightarrow> False | Some t \<Rightarrow> t > now)"

definition renew_job :: "fleet_runtime \<Rightarrow> int \<Rightarrow> worker_row \<Rightarrow> string \<Rightarrow> string \<Rightarrow> fleet_db \<Rightarrow> fleet_db \<times> (fleet_error + int)" where
  "renew_job rt now worker jobId leaseToken db =
     (case activeWorker True worker db of
        Inl e \<Rightarrow> (db, Inl e)
      | Inr _ \<Rightarrow>
          let hit = renewable rt now worker jobId leaseToken;
              db1 = db\<lparr>fd_jobs := map (\<lambda>j. if hit j then j\<lparr>jb_status := JobRunning, jb_leaseExpires := Some (now + 60000)\<rparr> else j) (fd_jobs db)\<rparr> in
          if length (filter hit (fd_jobs db)) \<noteq> 1 then (db1, Inl (workerAuthError ''REMOTE_JOB_LEASE_REJECTED''))
          else (db1, Inr (now + 60000)))"

section \<open>Operators\<close>

definition setStatus :: "int \<Rightarrow> string \<Rightarrow> worker_status \<Rightarrow> fleet_db \<Rightarrow> fleet_db \<times> (fleet_error + unit)" where
  "setStatus now workerId status db =
     (if length (filter (\<lambda>w. wk_id w = workerId) (fd_workers db)) \<noteq> 1 then (db, Inl (fleetError ''REMOTE_WORKER_NOT_FOUND''))
      else (db\<lparr>fd_workers := map (\<lambda>w. if wk_id w = workerId
                   then w\<lparr>wk_status := status, wk_generation := wk_generation w + (if status = WorkerDraining then 0 else 1), wk_updatedAt := now\<rparr> else w)
                 (fd_workers db),
               fd_jobs := (if status \<in> {WorkerQuarantined, WorkerRevoked}
                   then map (\<lambda>j. if jb_worker j = Some workerId \<and> leased j then j\<lparr>jb_leaseExpires := Some now\<rparr> else j) (fd_jobs db)
                   else fd_jobs db)\<rparr>, Inr ()))"

definition organizationForWorker :: "string \<Rightarrow> fleet_db \<Rightarrow> fleet_error + string" where
  "organizationForWorker workerId db =
     (case find (\<lambda>w. wk_id w = workerId) (fd_workers db) of None \<Rightarrow> Inl (fleetError ''REMOTE_WORKER_NOT_FOUND'') | Some w \<Rightarrow> Inr (wk_organization w))"

text \<open>The status shown to operators; \<open>None\<close> is \<^verbatim>\<open>OFFLINE\<close>.\<close>

definition effectiveStatus :: "int \<Rightarrow> worker_row \<Rightarrow> worker_status option" where
  "effectiveStatus now w = (if wk_status w = WorkerOnline \<and> wk_lastSeenAt w < now - 90000 then None else Some (wk_status w))"

text \<open>\<^verbatim>\<open>list\<close>: what operators see of an organization, newest first; hashes of leases and keys are not part of it.\<close>

record worker_summary =
  ws_id :: string
  ws_name :: string
  ws_fingerprint :: string
  ws_capabilities :: "string list"
  ws_labels :: "(string \<times> string) list"
  ws_resources :: "string option"
  ws_status :: "worker_status option"
  ws_generation :: int
  ws_lastSeenAt :: int
  ws_createdAt :: int

record job_summary =
  js_id :: string
  js_kind :: string
  js_status :: job_status
  js_priority :: int
  js_worker :: "string option"
  js_attempts :: nat
  js_maxAttempts :: nat
  js_result :: "string option"
  js_error :: "string option"
  js_createdAt :: int
  js_startedAt :: "int option"
  js_completedAt :: "int option"

definition worker_summary_of :: "int \<Rightarrow> worker_row \<Rightarrow> worker_summary" where
  "worker_summary_of now w = \<lparr>ws_id = wk_id w, ws_name = wk_name w, ws_fingerprint = wk_fingerprint w, ws_capabilities = wk_capabilities w,
     ws_labels = wk_labels w, ws_resources = wk_resources w, ws_status = effectiveStatus now w, ws_generation = wk_generation w,
     ws_lastSeenAt = wk_lastSeenAt w, ws_createdAt = wk_createdAt w\<rparr>"

definition job_summary_of :: "job_row \<Rightarrow> job_summary" where
  "job_summary_of j = \<lparr>js_id = jb_id j, js_kind = jb_kind j, js_status = jb_status j, js_priority = jb_priority j, js_worker = jb_worker j,
     js_attempts = jb_attempts j, js_maxAttempts = jb_maxAttempts j, js_result = jb_result j, js_error = jb_error j, js_createdAt = jb_createdAt j,
     js_startedAt = jb_startedAt j, js_completedAt = jb_completedAt j\<rparr>"

definition fleet_list :: "int \<Rightarrow> string \<Rightarrow> fleet_db \<Rightarrow> worker_summary list \<times> job_summary list" where
  "fleet_list now organizationId db =
     (map (worker_summary_of now) (sort_by (\<lambda>a b. wk_createdAt b - wk_createdAt a) (filter (\<lambda>w. wk_organization w = organizationId) (fd_workers db))),
      map job_summary_of (take 200 (sort_by (\<lambda>a b. jb_createdAt b - jb_createdAt a) (filter (\<lambda>j. jb_organization j = organizationId) (fd_jobs db)))))"

section \<open>Bodies and routes\<close>

definition strict_fields :: "string list \<Rightarrow> json \<Rightarrow> (string \<times> json) list option" where
  "strict_fields keys v = (case v of JObject kvs \<Rightarrow> if set (map fst kvs) \<subseteq> set keys then Some kvs else None | _ \<Rightarrow> None)"

definition number_field :: "fleet_runtime \<Rightarrow> (string \<times> json) list \<Rightarrow> string \<Rightarrow> jsnum option" where
  "number_field rt kvs k = (case map_of kvs k of Some (JNumber t) \<Rightarrow> Some (fr_numberValue rt t) | _ \<Rightarrow> None)"

definition number_ok :: "(jsnum \<Rightarrow> bool) \<Rightarrow> jsnum option \<Rightarrow> bool" where
  "number_ok P v = (case v of None \<Rightarrow> False | Some x \<Rightarrow> x \<noteq> JNaN \<and> P x)"

text \<open>\<^verbatim>\<open>remoteHeartbeatSchema\<close>: the status and the canonical text of the resources.\<close>

definition heartbeat_body :: "fleet_runtime \<Rightarrow> json \<Rightarrow> (worker_status \<times> string) option" where
  "heartbeat_body rt body =
     (case strict_fields [''status'', ''resources''] body of
        None \<Rightarrow> None
      | Some kvs \<Rightarrow>
         (case (map_of kvs ''status'', map_of kvs ''resources'') of
            (Some (JString st), Some res) \<Rightarrow>
              (case strict_fields [''cpuPercent'', ''memoryBytes'', ''activeJobs''] res of
                 None \<Rightarrow> None
               | Some rs \<Rightarrow>
                   if st \<in> {''ONLINE'', ''DRAINING''}
                     \<and> number_ok (\<lambda>x. js_leq (jsint 0) x \<and> js_leq x (jsint 100)) (number_field rt rs ''cpuPercent'')
                     \<and> number_ok (\<lambda>x. js_isInteger x \<and> js_leq (jsint 0) x) (number_field rt rs ''memoryBytes'')
                     \<and> number_ok (\<lambda>x. js_isInteger x \<and> js_leq (jsint 0) x \<and> js_leq x (jsint 100)) (number_field rt rs ''activeJobs'')
                   then Some (if st = ''ONLINE'' then WorkerOnline else WorkerDraining, fleet_canonical rt res) else None)
          | _ \<Rightarrow> None))"

definition lease_token_field :: "(string \<times> json) list \<Rightarrow> string option" where
  "lease_token_field kvs = (case map_of kvs ''leaseToken'' of Some (JString t) \<Rightarrow> if len_between 32 300 t then Some t else None | _ \<Rightarrow> None)"

definition renew_request :: "json \<Rightarrow> string option" where
  "renew_request body = Option.bind (strict_fields [''leaseToken''] body) lease_token_field"

definition completion_body :: "json \<Rightarrow> completion_input option" where
  "completion_body body =
     (case strict_fields [''leaseToken'', ''status'', ''result'', ''error''] body of
        None \<Rightarrow> None
      | Some kvs \<Rightarrow>
         (case (lease_token_field kvs, map_of kvs ''status'') of
            (Some token, Some (JString st)) \<Rightarrow>
              let result = (case map_of kvs ''result'' of None \<Rightarrow> Some None | Some (JObject r) \<Rightarrow> Some (Some r) | Some _ \<Rightarrow> None);
                  err = (case map_of kvs ''error'' of None \<Rightarrow> Some None | Some (JString e) \<Rightarrow> if length e \<le> 1000 then Some (Some e) else None | Some _ \<Rightarrow> None) in
              (case (result, err) of
                 (Some r, Some e) \<Rightarrow>
                   if st \<notin> {''COMPLETED'', ''FAILED''} \<or> st = ''FAILED'' \<and> e \<in> {None, Some []} then None
                   else Some \<lparr>ci_leaseToken = token, ci_status = (if st = ''COMPLETED'' then JobCompleted else JobFailed), ci_result = r, ci_error = e\<rparr>
               | _ \<Rightarrow> None)
          | _ \<Rightarrow> None))"

definition job_path :: "string \<Rightarrow> string \<Rightarrow> string option" where
  "job_path suffix path =
     (let p = ''/api/remote-agents/worker/jobs/'' in
      if starts_with path p \<and> ends_with path suffix \<and> length p + length suffix < length path
      then let i = take (length path - length p - length suffix) (drop (length p) path) in
        if list_all (\<lambda>c. c \<in> set ''0123456789abcdef-'') i then Some i else None
      else None)"

text \<open>A call between its authentication and its operation: the row the service read, the path, the body.\<close>

record fleet_state =
  fs_db :: fleet_db
  fs_pending :: "(worker_row \<times> string \<times> json) list"

datatype fleet_output =
    FleetFailed fleet_error | FleetEnrollment int | FleetEnrolled string | FleetAdmitted worker_row | FleetDone
  | FleetClaimed "claimed_job option" | FleetRenewed int | FleetQueued string

definition fleet_answer :: "('a \<Rightarrow> fleet_output) \<Rightarrow> fleet_db \<times> (fleet_error + 'a) \<Rightarrow> fleet_db \<times> fleet_output" where
  "fleet_answer f r = (fst r, case snd r of Inl e \<Rightarrow> FleetFailed e | Inr x \<Rightarrow> f x)"

text \<open>
  The schemas of what operators and enrolling workers send, on the parsed values. That an organization identifier is a UUID is left
  out: no decision reads its form.
\<close>

definition capability_name :: "string \<Rightarrow> bool" where
  "capability_name s \<longleftrightarrow> len_between 1 100 s \<and> zone_char (hd s) \<and> list_all (\<lambda>c. zone_char c \<or> c \<in> set '':._-'') s"

definition job_schema :: "enqueue_input \<Rightarrow> bool" where
  "job_schema input \<longleftrightarrow> qi_kind input \<in> {''SCAN'', ''EXPORT'', ''MODULE'', ''PING''} \<and> list_all capability_name (qi_required input)
     \<and> length (qi_required input) \<le> 100 \<and> -100 \<le> qi_priority input \<and> qi_priority input \<le> 100 \<and> 1 \<le> qi_maxAttempts input \<and> qi_maxAttempts input \<le> 10
     \<and> (case qi_zone input of None \<Rightarrow> True
           | Some z \<Rightarrow> len_between 1 64 z \<and> zone_char (hd z) \<and> list_all (\<lambda>c. zone_char c \<or> c \<in> set ''._-'') z)"

definition enroll_schema :: "enroll_input \<Rightarrow> bool" where
  "enroll_schema input \<longleftrightarrow> len_between 32 300 (el_token input) \<and> len_between 1 160 (el_name input) \<and> len_between 100 4000 (el_publicKeyPem input)
     \<and> list_all capability_name (el_capabilities input) \<and> 1 \<le> length (el_capabilities input) \<and> length (el_capabilities input) \<le> 100
     \<and> list_all (\<lambda>(k, v). length v \<le> 100) (el_labels input)"

definition zodError :: fleet_error where
  "zodError = (''REQUEST_VALIDATION_FAILED'', 400)"

definition fleet_route :: "fleet_runtime \<Rightarrow> int \<Rightarrow> string \<Rightarrow> worker_row \<Rightarrow> string \<Rightarrow> json \<Rightarrow> fleet_db \<Rightarrow> fleet_db \<times> fleet_output" where
  "fleet_route rt now token worker path body db =
     (if ends_with path ''/heartbeat''
      then (case heartbeat_body rt body of None \<Rightarrow> (db, FleetFailed zodError)
              | Some (status, resources) \<Rightarrow> fleet_answer (\<lambda>_. FleetDone) (heartbeat now worker status resources db))
      else if ends_with path ''/claim''
      then (let (db1, job) = claim_job rt now token worker db in (db1, FleetClaimed job))
      else (case job_path ''/renew'' path of
          Some jobId \<Rightarrow>
            (case renew_request body of None \<Rightarrow> (db, FleetFailed zodError)
               | Some leaseToken \<Rightarrow> fleet_answer FleetRenewed (renew_job rt now worker jobId leaseToken db))
        | None \<Rightarrow>
           (case job_path ''/complete'' path of
              Some jobId \<Rightarrow>
                (case completion_body body of None \<Rightarrow> (db, FleetFailed zodError)
                   | Some input \<Rightarrow> fleet_answer (\<lambda>_. FleetDone) (complete_job rt now worker jobId input db))
            | None \<Rightarrow> (db, FleetFailed (''Remote agent operation not found.'', 404)))))"

datatype fleet_op =
    FleetCreateEnrollment int string string enrollment_input string
  | FleetEnroll int string enroll_input
  | FleetAuthenticate "int \<times> int \<times> int" string json "(string \<times> string) list"
  | FleetDispatch nat bool int string
  | FleetEnqueue int string enqueue_input string
  | FleetSetStatus int string worker_status

text \<open>
  One operation. Between authentication and dispatch the server waits for the workload identity of the caller, so other operations
  come between; \<open>FleetDispatch n ok\<close> goes on with the nth waiting call, \<open>ok\<close> tells whether its identity was verified.
\<close>

fun fleet_exec :: "fleet_runtime \<Rightarrow> fleet_op \<Rightarrow> fleet_state \<Rightarrow> fleet_state \<times> fleet_output" where
  "fleet_exec rt (FleetCreateEnrollment now i token input actor) st =
     (if ei_minutes input < 5 \<or> ei_minutes input > 10080 then (st, FleetFailed zodError)
      else let (db, out) = fleet_answer FleetEnrollment (createEnrollment rt now i token input actor (fs_db st)) in (st\<lparr>fs_db := db\<rparr>, out))"
| "fleet_exec rt (FleetEnroll now i input) st =
     (if \<not> enroll_schema input then (st, FleetFailed zodError)
      else let (db, out) = fleet_answer FleetEnrolled (enroll rt now i input (fs_db st)) in (st\<lparr>fs_db := db\<rparr>, out))"
| "fleet_exec rt (FleetAuthenticate clock path body headers) st =
     (case fleet_authenticate rt clock ''POST'' path body headers (fs_db st) of
        (db, Inl e) \<Rightarrow> (st\<lparr>fs_db := db\<rparr>, FleetFailed e)
      | (db, Inr worker) \<Rightarrow> (st\<lparr>fs_db := db, fs_pending := fs_pending st @ [(worker, path, body)]\<rparr>, FleetAdmitted worker))"
| "fleet_exec rt (FleetDispatch n ok now token) st =
     (if n \<ge> length (fs_pending st) then (st, FleetFailed (''no such call'', 404))
      else let (worker, path, body) = fs_pending st ! n; st1 = st\<lparr>fs_pending := take n (fs_pending st) @ drop (n + 1) (fs_pending st)\<rparr> in
        if \<not> ok then (st1, FleetFailed (''WorkloadIdentityError'', 401))
        else let (db, out) = fleet_route rt now token worker path body (fs_db st1) in (st1\<lparr>fs_db := db\<rparr>, out))"
| "fleet_exec rt (FleetEnqueue now i input actor) st =
     (if \<not> job_schema input then (st, FleetFailed zodError)
      else let (db, out) = fleet_answer FleetQueued (enqueue_job rt now i input actor (fs_db st)) in (st\<lparr>fs_db := db\<rparr>, out))"
| "fleet_exec rt (FleetSetStatus now workerId status) st =
     (let (db, out) = fleet_answer (\<lambda>_. FleetDone) (setStatus now workerId status (fs_db st)) in (st\<lparr>fs_db := db\<rparr>, out))"

end
