(* ===== verification/RC_RemoteWorkersFacts.thy ===== *)
theory RC_RemoteWorkersFacts
  imports RC_RemoteWorkers
begin

text \<open>
  What happens to the jobs of the fleet. A job is a small machine: queued, leased to one worker until an instant, or finished; every
  operation moves each job by one of the rules below, and the operations that move it are tied to the calls that caused them.
\<close>

section \<open>Moves of a job\<close>

definition granted_job :: "fleet_runtime \<Rightarrow> int \<Rightarrow> string \<Rightarrow> worker_row \<Rightarrow> job_row \<Rightarrow> job_row" where
  "granted_job rt now token w j = j\<lparr>jb_status := JobLeased, jb_worker := Some (wk_id w), jb_leaseHash := Some (fleet_digest rt token),
     jb_leaseExpires := Some (now + 60000), jb_attempts := jb_attempts j + 1, jb_startedAt := Some (or_else (jb_startedAt j) now)\<rparr>"

definition finished_job :: "fleet_runtime \<Rightarrow> int \<Rightarrow> completion_input \<Rightarrow> job_row \<Rightarrow> job_row" where
  "finished_job rt now input j = j\<lparr>jb_status := ci_status input, jb_result := map_option (\<lambda>r. fleet_canonical rt (JObject r)) (ci_result input),
     jb_error := (case ci_error input of Some e \<Rightarrow> if e = [] then None else Some (safeRemoteError e) | None \<Rightarrow> None),
     jb_completedAt := Some now, jb_leaseHash := None, jb_leaseExpires := None\<rparr>"

datatype job_event = JobKept | JobExpired | JobGranted string | JobRenewed string | JobFinished completion_input | JobCut

inductive job_move :: "fleet_runtime \<Rightarrow> int \<Rightarrow> worker_row \<Rightarrow> job_row \<Rightarrow> job_event \<Rightarrow> job_row \<Rightarrow> bool" for rt now w where
  kept: "job_move rt now w j JobKept j"
| expired: "lease_expired now j \<Longrightarrow> job_move rt now w j JobExpired (requeue_job now j)"
| granted: "claimable w (requeue_job now j) \<Longrightarrow> capable w j \<Longrightarrow> wk_status w = WorkerOnline \<Longrightarrow>
    job_move rt now w j (JobGranted token) (granted_job rt now token w (requeue_job now j))"
| renewed: "renewable rt now w (jb_id j) token j \<Longrightarrow>
    job_move rt now w j (JobRenewed token) (j\<lparr>jb_status := JobRunning, jb_leaseExpires := Some (now + 60000)\<rparr>)"
| finished: "renewable rt now w (jb_id j) (ci_leaseToken input) j \<Longrightarrow> ci_status input = JobCompleted \<or> ci_status input = JobFailed \<Longrightarrow>
    job_move rt now w j (JobFinished input) (finished_job rt now input j)"
| cut: "leased j \<Longrightarrow> job_move rt now w j JobCut (j\<lparr>jb_leaseExpires := Some now\<rparr>)"

inductive_cases move_keptE: "job_move rt now w j JobKept j'"
inductive_cases move_expiredE: "job_move rt now w j JobExpired j'"
inductive_cases move_grantedE: "job_move rt now w j (JobGranted token) j'"
inductive_cases move_renewedE: "job_move rt now w j (JobRenewed token) j'"
inductive_cases move_finishedE: "job_move rt now w j (JobFinished input) j'"

definition job_finished :: "job_row \<Rightarrow> bool" where
  "job_finished j \<longleftrightarrow> jb_status j = JobCompleted \<or> jb_status j = JobFailed"

definition job_row_ok :: "job_row \<Rightarrow> bool" where
  "job_row_ok j \<longleftrightarrow> (leased j \<longleftrightarrow> jb_leaseHash j \<noteq> None) \<and> (leased j \<longleftrightarrow> jb_leaseExpires j \<noteq> None) \<and> (leased j \<longrightarrow> jb_worker j \<noteq> None \<and> 0 < jb_attempts j)
     \<and> jb_attempts j \<le> jb_maxAttempts j \<and> (jb_status j = JobQueued \<longrightarrow> jb_worker j = None \<and> jb_attempts j < jb_maxAttempts j)
     \<and> (job_finished j \<longleftrightarrow> jb_completedAt j \<noteq> None)"

lemma requeue_fixed [simp]:
  "jb_id (requeue_job now j) = jb_id j" "jb_maxAttempts (requeue_job now j) = jb_maxAttempts j" "jb_attempts (requeue_job now j) = jb_attempts j"
  "jb_required (requeue_job now j) = jb_required j" "jb_organization (requeue_job now j) = jb_organization j" "jb_zone (requeue_job now j) = jb_zone j"
  by (simp_all add: requeue_job_def)

lemma capable_requeue [simp]: "capable w (requeue_job now j) = capable w j"
  by (simp add: capable_def)

lemma requeue_row_ok: "job_row_ok j \<Longrightarrow> job_row_ok (requeue_job now j)"
  by (auto simp: requeue_job_def job_row_ok_def job_finished_def leased_def lease_expired_def)

lemma move_row_ok: "job_move rt now w j e j' \<Longrightarrow> job_row_ok j \<Longrightarrow> job_row_ok j'"
proof (induction rule: job_move.induct)
  case (granted j token)
  from requeue_row_ok [OF granted(4), of now] granted(1) show ?case
    by (auto simp: granted_job_def job_row_ok_def job_finished_def leased_def claimable_def)
next
  case (finished j input)
  then show ?case
    by (cases "jb_status j"; cases "ci_status input") (simp_all add: finished_job_def job_row_ok_def job_finished_def leased_def renewable_def)
next
  case (kept j)
  then show ?case by simp
next
  case (expired j)
  then show ?case using requeue_row_ok by blast
next
  case (renewed j token)
  then show ?case by (cases "jb_status j") (simp_all add: job_row_ok_def job_finished_def leased_def renewable_def)
next
  case (cut j)
  then show ?case by (cases "jb_status j") (simp_all add: job_row_ok_def job_finished_def leased_def)
qed

lemma move_id: "job_move rt now w j e j' \<Longrightarrow> jb_id j' = jb_id j \<and> jb_maxAttempts j' = jb_maxAttempts j"
  by (induction rule: job_move.induct) (auto simp: granted_job_def finished_job_def)

text \<open>Finished jobs do not move; attempts count the grants.\<close>

lemma move_finished: "job_move rt now w j e j' \<Longrightarrow> job_finished j \<Longrightarrow> j' = j"
  by (induction rule: job_move.induct)
    (auto simp: job_finished_def lease_expired_def leased_def claimable_def renewable_def requeue_job_def split: if_splits)

definition grant_count :: "job_event \<Rightarrow> nat" where
  "grant_count e = (case e of JobGranted _ \<Rightarrow> 1 | _ \<Rightarrow> 0)"

lemma move_attempts: "job_move rt now w j e j' \<Longrightarrow> jb_attempts j' = jb_attempts j + grant_count e"
  by (induction rule: job_move.induct) (auto simp: grant_count_def granted_job_def finished_job_def)

section \<open>Moves of the table\<close>

text \<open>The events a call of a worker may cause, by the route and the answer.\<close>

definition call_event :: "string \<Rightarrow> json \<Rightarrow> fleet_output \<Rightarrow> string \<Rightarrow> job_event \<Rightarrow> bool" where
  "call_event path body out i e \<longleftrightarrow>
     (case out of
        FleetClaimed (Some c) \<Rightarrow> if cj_id c = i then e = JobGranted (cj_leaseToken c) else e = JobKept \<or> e = JobExpired
      | FleetClaimed None \<Rightarrow> e = JobKept \<or> e = JobExpired
      | FleetRenewed t \<Rightarrow> e = JobKept \<or> (\<exists>tok. e = JobRenewed tok \<and> job_path ''/renew'' path = Some i \<and> renew_request body = Some tok)
      | FleetDone \<Rightarrow> e = JobKept \<or> (\<exists>input. e = JobFinished input \<and> job_path ''/complete'' path = Some i \<and> completion_body body = Some input)
      | _ \<Rightarrow> e = JobKept)"

definition moved :: "fleet_runtime \<Rightarrow> int \<Rightarrow> worker_row \<Rightarrow> (string \<Rightarrow> job_event \<Rightarrow> bool) \<Rightarrow> job_row list \<Rightarrow> job_row list \<Rightarrow> bool" where
  "moved rt now w Q js js' \<longleftrightarrow> list_all2 (\<lambda>j j'. \<exists>e. job_move rt now w j e j' \<and> Q (jb_id j) e) js js'"

lemma moved_map:
  "(\<And>j. j \<in> set js \<Longrightarrow> \<exists>e. job_move rt now w j e (f j) \<and> Q (jb_id j) e) \<Longrightarrow> moved rt now w Q js (map f js)"
  by (simp add: moved_def list_all2_conv_all_nth)

lemma moved_kept: "(\<And>i. Q i JobKept) \<Longrightarrow> moved rt now w Q js js"
  using moved_map [of js rt now w "\<lambda>j. j" Q] job_move.kept by (metis list.map_ident)

lemma activeWorker_cases:
  assumes "activeWorker d worker db = Inr w"
  shows "w \<in> set (fd_workers db) \<and> wk_id w = wk_id worker \<and> wk_generation w = wk_generation worker
    \<and> (wk_status w = WorkerOnline \<or> d \<and> wk_status w = WorkerDraining)"
  using assms by (auto simp: activeWorker_def find_Some_iff split: option.splits if_splits)

lemma requeue_event: "\<exists>e. job_move rt now w j e (requeue_job now j) \<and> (e = JobKept \<or> e = JobExpired)"
  using job_move.kept [of rt now w j] job_move.expired [of now j rt w] by (cases "lease_expired now j") (auto simp: requeue_job_def)

lemma find_SomeD: "find P xs = Some x \<Longrightarrow> P x \<and> x \<in> set xs"
  by (auto simp: find_Some_iff)

lemma candidates_mem: "j \<in> set (candidates w db) \<Longrightarrow> j \<in> set (fd_jobs db) \<and> claimable w j"
  by (auto simp: candidates_def dest!: in_set_takeD)

lemma claim_moves:
  assumes ids: "distinct (map jb_id (fd_jobs db))" and claim: "claim_job rt now token worker db = (db', r)"
  shows "\<exists>w. wk_id w = wk_id worker \<and> moved rt now w (call_event path body (FleetClaimed r)) (fd_jobs db) (fd_jobs db') \<and> fd_workers db' = fd_workers db"
proof -
  let ?db1 = "requeueExpired now db"
  have workers: "fd_workers ?db1 = fd_workers db" by (simp add: requeueExpired_def)
  have requeued: "\<exists>w. wk_id w = wk_id worker \<and> moved rt now w (call_event path body (FleetClaimed None)) (fd_jobs db) (fd_jobs ?db1)"
    using requeue_event moved_map [of "fd_jobs db" rt now worker "requeue_job now" "call_event path body (FleetClaimed None)"]
    by (auto simp: requeueExpired_def call_event_def)
  show ?thesis
  proof (cases "\<exists>w job. activeWorker False worker ?db1 = Inr w \<and> find (capable w) (candidates w ?db1) = Some job")
    case False
    then have "db' = ?db1" "r = None" using claim by (auto simp: claim_job_def Let_def split: sum.splits option.splits)
    then show ?thesis using requeued workers by auto
  next
    case True
    then obtain w job where w: "activeWorker False worker ?db1 = Inr w" and job: "find (capable w) (candidates w ?db1) = Some job" by blast
    have mem: "job \<in> set (fd_jobs ?db1)" "claimable w job" "capable w job"
      using find_SomeD [OF job] candidates_mem [of job w ?db1] by blast+
    define f where "f = (\<lambda>j. if jb_id j = jb_id job then granted_job rt now token w (requeue_job now j) else requeue_job now j)"
    have jobs': "fd_jobs db' = map f (fd_jobs db)" and r: "r = Some \<lparr>cj_id = jb_id job, cj_kind = jb_kind job, cj_payload = jb_payload job, cj_leaseToken = token, cj_leaseExpiresAt = now + 60000\<rparr>"
      and wk: "fd_workers db' = fd_workers db"
      using claim w job by (auto simp: claim_job_def Let_def set_job_def requeueExpired_def f_def granted_job_def comp_def)
    have "\<exists>e. job_move rt now w j e (f j) \<and> call_event path body (FleetClaimed r) (jb_id j) e" if j: "j \<in> set (fd_jobs db)" for j
    proof (cases "jb_id j = jb_id job")
      case True
      have "requeue_job now j = job"
        using distinct_map_same [of jb_id "fd_jobs ?db1" "requeue_job now j" job] ids mem(1) j True by (auto simp: requeueExpired_def comp_def)
      then have "job_move rt now w j (JobGranted token) (f j)"
        using job_move.granted [of w now j rt token] mem activeWorker_cases [OF w] True capable_requeue [of w now j] by (simp add: f_def)
      then show ?thesis using True by (auto simp: r call_event_def)
    next
      case False
      then show ?thesis using requeue_event [of rt now w j] by (auto simp: f_def r call_event_def)
    qed
    then show ?thesis using moved_map [of "fd_jobs db" rt now w f] wk activeWorker_cases [OF w] jobs' by metis
  qed
qed

lemma renew_moves:
  assumes "distinct (map jb_id (fd_jobs db))" "renew_job rt now worker jobId tok db = (db', r)"
    and "job_path ''/renew'' path = Some jobId" "renew_request body = Some tok"
  shows "moved rt now worker (call_event path body (case r of Inl e \<Rightarrow> FleetFailed e | Inr x \<Rightarrow> FleetRenewed x)) (fd_jobs db) (fd_jobs db')"
proof (cases "activeWorker True worker db")
  case (Inl e)
  then show ?thesis using assms(2) by (auto simp: renew_job_def intro: moved_kept simp: call_event_def)
next
  case (Inr w)
  let ?hit = "renewable rt now worker jobId tok"
  define f where "f = (\<lambda>j. if ?hit j then j\<lparr>jb_status := JobRunning, jb_leaseExpires := Some (now + 60000)\<rparr> else j)"
  have jobs': "fd_jobs db' = map f (fd_jobs db)" using assms(2) Inr by (auto simp: renew_job_def Let_def f_def split: if_splits)
  show ?thesis
  proof (cases "length (filter ?hit (fd_jobs db)) = 1")
    case True
    then have r: "r = Inr (now + 60000)" using assms(2) Inr by (simp add: renew_job_def Let_def)
    have "\<exists>e. job_move rt now worker j e (f j) \<and> call_event path body (FleetRenewed (now + 60000)) (jb_id j) e" for j
    proof (cases "?hit j")
      case True
      then have "jb_id j = jobId" by (simp add: renewable_def)
      then have "job_move rt now worker j (JobRenewed tok) (f j)" using job_move.renewed [of rt now worker j tok] True by (simp add: f_def)
      then show ?thesis using assms(3,4) \<open>jb_id j = jobId\<close> by (auto simp: call_event_def)
    next
      case False
      then show ?thesis using job_move.kept [of rt now worker j] by (auto simp: f_def call_event_def)
    qed
    then show ?thesis unfolding jobs' r by (auto intro: moved_map)
  next
    case False
    then have r: "r = Inl (workerAuthError ''REMOTE_JOB_LEASE_REJECTED'')" using assms(2) Inr by (auto simp: renew_job_def Let_def)
    have "length (filter ?hit (fd_jobs db)) \<le> 1"
    proof (rule ccontr)
      assume "\<not> length (filter ?hit (fd_jobs db)) \<le> 1"
      then obtain a b xs where h: "filter ?hit (fd_jobs db) = a # b # xs" by (metis One_nat_def Suc_le_length_iff not_less_eq_eq)
      then have "?hit a" "?hit b" by (metis filter_eq_ConsD list.set_intros mem_Collect_eq set_filter)+
      then have "jb_id a = jb_id b" by (simp add: renewable_def)
      moreover have "distinct (map jb_id (filter ?hit (fd_jobs db)))" using assms(1) by (simp add: distinct_map_filter)
      ultimately show False using h by simp
    qed
    then have "filter ?hit (fd_jobs db) = []" using False by (cases "filter ?hit (fd_jobs db)") auto
    then have "map f (fd_jobs db) = fd_jobs db" by (intro map_idI) (auto simp: f_def filter_empty_conv)
    then show ?thesis unfolding jobs' r by (auto intro!: moved_kept simp: call_event_def)
  qed
qed

lemma complete_moves:
  assumes "distinct (map jb_id (fd_jobs db))" "complete_job rt now worker jobId input db = (db', r)"
    and "job_path ''/complete'' path = Some jobId" "completion_body body = Some input"
  shows "moved rt now worker (call_event path body (case r of Inl e \<Rightarrow> FleetFailed e | Inr x \<Rightarrow> FleetDone)) (fd_jobs db) (fd_jobs db')"
proof (cases r)
  case (Inl e)
  then have "db' = db" using assms(2) by (auto simp: complete_job_def split: sum.splits option.splits if_splits)
  then show ?thesis using Inl by (auto intro: moved_kept simp: call_event_def)
next
  case (Inr u)
  have status: "ci_status input = JobCompleted \<or> ci_status input = JobFailed"
    using assms(4) by (auto simp: completion_body_def Let_def split: option.splits json.splits if_splits)
  obtain job where job: "find (\<lambda>j. jb_id j = jobId) (fd_jobs db) = Some job" and ren: "renewable rt now worker jobId (ci_leaseToken input) job"
    and db': "fd_jobs db' = map (\<lambda>j. if jb_id j = jobId then finished_job rt now input j else j) (fd_jobs db)"
  proof (cases "find (\<lambda>j. jb_id j = jobId) (fd_jobs db)")
    case None
    then show ?thesis using assms(2) Inr by (auto simp: complete_job_def split: sum.splits)
  next
    case (Some job)
    then have "jb_id job = jobId" using find_SomeD by fastforce
    moreover have "leased job" "jb_worker job = Some (wk_id worker)" "jb_leaseHash job = Some (fleet_digest rt (ci_leaseToken input))"
      "\<exists>t. jb_leaseExpires job = Some t \<and> now < t"
      using assms(2) Inr Some by (auto simp: complete_job_def split: sum.splits option.splits if_splits)
    moreover have "fd_jobs db' = map (\<lambda>j. if jb_id j = jobId then finished_job rt now input j else j) (fd_jobs db)"
      using assms(2) Inr Some by (auto simp: complete_job_def set_job_def finished_job_def split: sum.splits option.splits if_splits)
    ultimately show ?thesis using Some by (intro that [of job]) (auto simp: renewable_def)
  qed
  have "job \<in> set (fd_jobs db)" "jb_id job = jobId" using find_SomeD [OF job] by auto
  then have one: "j = job" if "j \<in> set (fd_jobs db)" "jb_id j = jobId" for j using distinct_map_same [OF assms(1)] that by metis
  show ?thesis unfolding db'
  proof (rule moved_map)
    fix j assume j: "j \<in> set (fd_jobs db)"
    show "\<exists>e. job_move rt now worker j e (if jb_id j = jobId then finished_job rt now input j else j)
        \<and> call_event path body (case r of Inl e \<Rightarrow> FleetFailed e | Inr x \<Rightarrow> FleetDone) (jb_id j) e"
    proof (cases "jb_id j = jobId")
      case True
      then have "job_move rt now worker j (JobFinished input) (finished_job rt now input j)"
        using one [OF j] ren status job_move.finished [of rt now worker j input] by simp
      then show ?thesis using True assms(3,4) Inr by (auto simp: call_event_def)
    next
      case False
      then show ?thesis using job_move.kept [of rt now worker j] Inr by (auto simp: call_event_def)
    qed
  qed
qed

lemma heartbeat_jobs: "fd_jobs (fst (heartbeat now worker st res db)) = fd_jobs db"
  by (auto simp: heartbeat_def split: sum.splits)

lemma route_moves:
  assumes ids: "distinct (map jb_id (fd_jobs db))" and route: "fleet_route rt now token worker path body db = (db', out)"
  shows "\<exists>w. wk_id w = wk_id worker \<and> moved rt now w (call_event path body out) (fd_jobs db) (fd_jobs db')"
proof -
  have refused: ?thesis if "db' = db" "out = FleetFailed x" for x
    using that moved_kept [of "call_event path body out" rt now worker] by (auto simp: call_event_def)
  consider (hb) "ends_with path ''/heartbeat''" | (cl) "\<not> ends_with path ''/heartbeat''" "ends_with path ''/claim''"
    | (rn) i where "\<not> ends_with path ''/heartbeat''" "\<not> ends_with path ''/claim''" "job_path ''/renew'' path = Some i"
    | (co) i where "\<not> ends_with path ''/heartbeat''" "\<not> ends_with path ''/claim''" "job_path ''/renew'' path = None" "job_path ''/complete'' path = Some i"
    | (no) "\<not> ends_with path ''/heartbeat''" "\<not> ends_with path ''/claim''" "job_path ''/renew'' path = None" "job_path ''/complete'' path = None"
    by (cases "job_path ''/renew'' path"; cases "job_path ''/complete'' path") auto
  then show ?thesis
  proof cases
    case hb
    show ?thesis
    proof (cases "heartbeat_body rt body")
      case None
      then show ?thesis using hb route by (intro refused [of zodError]) (simp_all add: fleet_route_def)
    next
      case (Some p)
      obtain st res where p: "p = (st, res)" by (cases p)
      have "fd_jobs db' = fd_jobs db" "call_event path body out i JobKept" for i
        using route hb Some p heartbeat_jobs [of now worker st res db] by (auto simp: fleet_route_def fleet_answer_def call_event_def split: sum.splits)
      then show ?thesis using moved_kept [of "call_event path body out" rt now worker "fd_jobs db"] by metis
    qed
  next
    case cl
    obtain db1 r where c: "claim_job rt now token worker db = (db1, r)" by (cases "claim_job rt now token worker db")
    then have "db' = db1" "out = FleetClaimed r" using route cl by (simp_all add: fleet_route_def)
    then show ?thesis using claim_moves [OF ids c] by blast
  next
    case (rn i)
    show ?thesis
    proof (cases "renew_request body")
      case None
      then show ?thesis using rn route by (intro refused [of zodError]) (simp_all add: fleet_route_def)
    next
      case (Some tok)
      obtain db1 r where c: "renew_job rt now worker i tok db = (db1, r)" by (cases "renew_job rt now worker i tok db")
      then have "db' = db1" "out = (case r of Inl e \<Rightarrow> FleetFailed e | Inr x \<Rightarrow> FleetRenewed x)"
        using route rn Some by (simp_all add: fleet_route_def fleet_answer_def)
      then show ?thesis using renew_moves [OF ids c rn(3) Some] by blast
    qed
  next
    case (co i)
    show ?thesis
    proof (cases "completion_body body")
      case None
      then show ?thesis using co route by (intro refused [of zodError]) (simp_all add: fleet_route_def)
    next
      case (Some input)
      obtain db1 r where c: "complete_job rt now worker i input db = (db1, r)" by (cases "complete_job rt now worker i input db")
      then have "db' = db1" "out = (case r of Inl e \<Rightarrow> FleetFailed e | Inr x \<Rightarrow> FleetDone)"
        using route co Some by (simp_all add: fleet_route_def fleet_answer_def)
      then show ?thesis using complete_moves [OF ids c co(4) Some] by blast
    qed
  next
    case no
    then show ?thesis using route by (intro refused [of "(''Remote agent operation not found.'', 404)"]) (simp_all add: fleet_route_def)
  qed
qed

section \<open>One operation\<close>

text \<open>The events an operation may cause, and the job it may add.\<close>

fun op_event :: "fleet_op \<Rightarrow> fleet_state \<Rightarrow> fleet_output \<Rightarrow> int \<Rightarrow> worker_row \<Rightarrow> string \<Rightarrow> job_event \<Rightarrow> bool" where
  "op_event (FleetDispatch n ok now token) st out now' w i e \<longleftrightarrow>
     (if ok \<and> n < length (fs_pending st)
      then now' = now \<and> (case fs_pending st ! n of (worker, path, body) \<Rightarrow> wk_id w = wk_id worker \<and> call_event path body out i e) else e = JobKept)"
| "op_event (FleetSetStatus now workerId status) st out now' w i e \<longleftrightarrow> e = JobKept \<or> e = JobCut"
| "op_event _ st out now' w i e \<longleftrightarrow> e = JobKept"

definition new_job_ok :: "job_row list \<Rightarrow> job_row \<Rightarrow> bool" where
  "new_job_ok js j \<longleftrightarrow> jb_id j \<notin> jb_id ` set js \<and> jb_status j = JobQueued \<and> jb_attempts j = 0 \<and> 0 < jb_maxAttempts j \<and> jb_maxAttempts j \<le> 10
     \<and> job_row_ok j \<and> jb_result j = None"

definition jobs_step :: "fleet_runtime \<Rightarrow> (int \<Rightarrow> worker_row \<Rightarrow> string \<Rightarrow> job_event \<Rightarrow> bool) \<Rightarrow> job_row list \<Rightarrow> job_row list \<Rightarrow> bool" where
  "jobs_step rt Q js js' \<longleftrightarrow> (\<exists>w now js1. moved rt now w (Q now w) js js1 \<and> (js' = js1 \<or> (\<exists>j. js' = js1 @ [j] \<and> new_job_ok js j)))"

lemma jobs_step_kept: "(\<And>i. Q now w i JobKept) \<Longrightarrow> jobs_step rt Q js js"
  using moved_kept [of "Q now w" rt now w js] unfolding jobs_step_def by blast

lemma enqueue_step:
  assumes "job_schema input" "enqueue_job rt now i input actor db = (db', r)"
  shows "jobs_step rt (\<lambda>_ _ _ e. e = JobKept) (fd_jobs db) (fd_jobs db')"
proof (cases "fd_jobs db' = fd_jobs db")
  case True
  then show ?thesis using jobs_step_kept [of "\<lambda>_ _ _ e. e = JobKept" _ _ rt "fd_jobs db"] by simp
next
  case False
  then obtain j where j: "fd_jobs db' = fd_jobs db @ [j]" "new_job_ok (fd_jobs db) j"
    using assms by (auto simp: enqueue_job_def job_schema_def new_job_ok_def job_row_ok_def leased_def job_finished_def split: sum.splits if_splits)
  then show ?thesis using moved_kept [of "\<lambda>_ e. e = JobKept" rt _ _ "fd_jobs db"] unfolding jobs_step_def by blast
qed

lemma setStatus_step:
  assumes "setStatus now workerId status db = (db', r)"
  shows "jobs_step rt (\<lambda>_ _ _ e. e = JobKept \<or> e = JobCut) (fd_jobs db) (fd_jobs db')"
proof -
  let ?f = "\<lambda>j. if jb_worker j = Some workerId \<and> leased j then j\<lparr>jb_leaseExpires := Some now\<rparr> else j"
  have m: "moved rt now w (\<lambda>_ e. e = JobKept \<or> e = JobCut) (fd_jobs db) (map ?f (fd_jobs db))" for w
  proof (rule moved_map)
    fix j
    show "\<exists>e. job_move rt now w j e (?f j) \<and> (e = JobKept \<or> e = JobCut)"
      using job_move.kept [of rt now w j] job_move.cut [of j rt now w] by (cases "jb_worker j = Some workerId \<and> leased j") auto
  qed
  have "fd_jobs db' = fd_jobs db \<or> fd_jobs db' = map ?f (fd_jobs db)"
    using assms by (auto simp: setStatus_def split: if_splits)
  then show ?thesis
  proof
    assume "fd_jobs db' = fd_jobs db"
    then show ?thesis using jobs_step_kept [of "\<lambda>_ _ _ e. e = JobKept \<or> e = JobCut" _ _ rt "fd_jobs db"] by simp
  next
    assume "fd_jobs db' = map ?f (fd_jobs db)"
    then show ?thesis unfolding jobs_step_def using m by blast
  qed
qed

lemma authenticate_jobs:
  "fd_jobs (fst (fleet_authenticate rt clock verb path body headers db)) = fd_jobs db
   \<and> fd_workers (fst (fleet_authenticate rt clock verb path body headers db)) = fd_workers db
   \<and> fd_enrollments (fst (fleet_authenticate rt clock verb path body headers db)) = fd_enrollments db"
  by (auto simp: fleet_authenticate_def Let_def case_prod_unfold split: option.splits)

lemma enroll_jobs:
  "fd_jobs (fst (enroll rt now i input db)) = fd_jobs db" "fd_jobs (fst (createEnrollment rt now i token input2 actor db)) = fd_jobs db"
  by (auto simp: enroll_def createEnrollment_def Let_def split: sum.splits option.splits)

lemma exec_jobs:
  assumes ids: "distinct (map jb_id (fd_jobs (fs_db st)))" and exec: "fleet_exec rt op st = (st', out)"
  shows "jobs_step rt (op_event op st out) (fd_jobs (fs_db st)) (fd_jobs (fs_db st'))"
proof -
  have same: ?thesis if "fd_jobs (fs_db st') = fd_jobs (fs_db st)" "\<And>now w i. op_event op st out now w i JobKept"
    using jobs_step_kept [of "op_event op st out" _ _ rt "fd_jobs (fs_db st)"] that by simp
  show ?thesis
  proof (cases op)
    case (FleetCreateEnrollment now i token input actor)
    then show ?thesis using exec enroll_jobs(2) [of rt now i token input actor "fs_db st"]
      by (intro same) (auto simp: fleet_answer_def split: if_splits)
  next
    case (FleetEnroll now i input)
    then show ?thesis using exec enroll_jobs(1) [of rt now i input "fs_db st"] by (intro same) (auto simp: fleet_answer_def split: if_splits)
  next
    case (FleetAuthenticate clock path body headers)
    then show ?thesis using exec authenticate_jobs [of rt clock "''POST''" path body headers "fs_db st"]
      by (intro same) (auto split: prod.splits sum.splits)
  next
    case (FleetEnqueue now i input actor)
    show ?thesis
    proof (cases "job_schema input")
      case True
      obtain db r where q: "enqueue_job rt now i input actor (fs_db st) = (db, r)" by (cases "enqueue_job rt now i input actor (fs_db st)")
      then have "fs_db st' = db" using exec FleetEnqueue True by (auto simp: fleet_answer_def)
      moreover have "op_event op st out = (\<lambda>_ _ _ e. e = JobKept)" by (simp add: FleetEnqueue fun_eq_iff)
      ultimately show ?thesis using enqueue_step [OF True q] by simp
    next
      case False
      then show ?thesis using exec FleetEnqueue by (intro same) auto
    qed
  next
    case (FleetSetStatus now workerId status)
    obtain db r where q: "setStatus now workerId status (fs_db st) = (db, r)" by (cases "setStatus now workerId status (fs_db st)")
    then have "fs_db st' = db" using exec FleetSetStatus by (auto simp: fleet_answer_def)
    moreover have "op_event op st out = (\<lambda>_ _ _ e. e = JobKept \<or> e = JobCut)" by (simp add: FleetSetStatus fun_eq_iff)
    ultimately show ?thesis using setStatus_step [OF q, of rt] by simp
  next
    case (FleetDispatch n ok now token)
    show ?thesis
    proof (cases "ok \<and> n < length (fs_pending st)")
      case False
      then show ?thesis using exec FleetDispatch by (intro same) (auto simp: Let_def split: if_splits prod.splits)
    next
      case True
      obtain worker path body where p: "fs_pending st ! n = (worker, path, body)" by (metis prod.exhaust)
      obtain db r where q: "fleet_route rt now token worker path body (fs_db st) = (db, r)" by (cases "fleet_route rt now token worker path body (fs_db st)")
      then have "fs_db st' = db" "out = r" using exec FleetDispatch True p by (auto simp: Let_def)
      moreover have "op_event op st out = (\<lambda>now' w i e. now' = now \<and> wk_id w = wk_id worker \<and> call_event path body out i e)"
        using FleetDispatch True p by (simp add: fun_eq_iff)
      moreover obtain w where "wk_id w = wk_id worker" "moved rt now w (call_event path body r) (fd_jobs (fs_db st)) (fd_jobs db)"
        using route_moves [OF ids q] by blast
      ultimately have "moved rt now w (op_event op st out now w) (fd_jobs (fs_db st)) (fd_jobs (fs_db st'))"
        using \<open>out = r\<close> \<open>fs_db st' = db\<close> by simp
      then show ?thesis unfolding jobs_step_def by blast
    qed
  qed
qed

section \<open>Invariants\<close>

definition jobs_ok :: "job_row list \<Rightarrow> bool" where
  "jobs_ok js \<longleftrightarrow> distinct (map jb_id js) \<and> list_all job_row_ok js \<and> list_all (\<lambda>j. jb_maxAttempts j \<le> 10) js"

lemma moved_facts:
  assumes "moved rt now w Q js js'"
  shows "map jb_id js' = map jb_id js \<and> map jb_maxAttempts js' = map jb_maxAttempts js \<and> (list_all job_row_ok js \<longrightarrow> list_all job_row_ok js')"
  using assms unfolding moved_def by (induction rule: list_all2_induct) (auto simp: move_id move_row_ok dest: move_id intro: move_row_ok)

lemma jobs_step_ok:
  assumes "jobs_step rt Q js js'" "jobs_ok js"
  shows "jobs_ok js'"
proof -
  obtain w now js1 where m: "moved rt now w (Q now w) js js1" and js': "js' = js1 \<or> (\<exists>j. js' = js1 @ [j] \<and> new_job_ok js j)"
    using assms(1) by (auto simp: jobs_step_def)
  note f = moved_facts [OF m]
  have "list_all (\<lambda>n. n \<le> 10) (map jb_maxAttempts js)" using assms(2) by (simp add: jobs_ok_def list.pred_map comp_def)
  then have "list_all (\<lambda>n. n \<le> 10) (map jb_maxAttempts js1)" using f by simp
  then have "list_all (\<lambda>j. jb_maxAttempts j \<le> 10) js1" by (simp add: list.pred_map comp_def)
  then have js1: "jobs_ok js1" using f assms(2) by (simp add: jobs_ok_def)
  have "jb_id ` set js1 = jb_id ` set js" using f by (metis list.set_map)
  then show ?thesis using js' js1 by (auto simp: jobs_ok_def new_job_ok_def)
qed

text \<open>A job of the table before an operation is there after it, moved by an event the operation may cause.\<close>

lemma jobs_step_job:
  assumes "jobs_step rt Q js js'" "j \<in> set js"
  obtains w now e j' where "job_move rt now w j e j'" "Q now w (jb_id j) e" "j' \<in> set js'"
proof -
  obtain w now js1 where m: "moved rt now w (Q now w) js js1" and "js' = js1 \<or> (\<exists>j. js' = js1 @ [j] \<and> new_job_ok js j)"
    using assms(1) by (auto simp: jobs_step_def)
  then have js': "set js1 \<subseteq> set js'" by auto
  obtain n where n: "n < length js" "js ! n = j" using assms(2) by (auto simp: in_set_conv_nth)
  have len: "length js1 = length js" using m by (auto simp: moved_def dest: list_all2_lengthD)
  obtain e where "job_move rt now w j e (js1 ! n)" "Q now w (jb_id j) e" using m n by (auto simp: moved_def dest: list_all2_nthD)
  then show ?thesis using that js' n len by (metis nth_mem subsetD)
qed

end
