(* ===== verification/RC_RemoteWorkersRuns.thy ===== *)
theory RC_RemoteWorkersRuns
  imports RC_RemoteWorkersFacts RC_Sorting
begin

text \<open>Runs of the fleet: what its tables keep, who ends a job, how often a job is leased, and what a revoked worker can still do.\<close>

section \<open>Runs\<close>

fun fleet_run :: "fleet_runtime \<Rightarrow> fleet_op list \<Rightarrow> fleet_state \<Rightarrow> fleet_state \<times> fleet_output list" where
  "fleet_run rt [] st = (st, [])"
| "fleet_run rt (op # ops) st =
     (let (st1, out) = fleet_exec rt op st; (st2, outs) = fleet_run rt ops st1 in (st2, out # outs))"

definition fleet_start :: fleet_state where
  "fleet_start = \<lparr>fs_db = \<lparr>fd_enrollments = [], fd_workers = [], fd_jobs = [], fd_nonces = []\<rparr>, fs_pending = []\<rparr>"

inductive fleet_reach :: "fleet_runtime \<Rightarrow> fleet_state \<Rightarrow> bool" for rt where
  start: "fleet_reach rt fleet_start"
| step: "fleet_reach rt st \<Longrightarrow> fleet_exec rt op st = (st', out) \<Longrightarrow> fleet_reach rt st'"

lemma reach_run: "fleet_reach rt st \<Longrightarrow> fleet_run rt ops st = (st', outs) \<Longrightarrow> fleet_reach rt st'"
  by (induction ops arbitrary: st outs) (auto simp: Let_def split: prod.splits intro: fleet_reach.step)

section \<open>Tables\<close>

lemma exec_jobs_ok: "fleet_exec rt op st = (st', out) \<Longrightarrow> jobs_ok (fd_jobs (fs_db st)) \<Longrightarrow> jobs_ok (fd_jobs (fs_db st'))"
  using exec_jobs jobs_step_ok unfolding jobs_ok_def by blast

text \<open>Workers: identifiers and keys are unique; only an enrollment adds one.\<close>

definition workers_ok :: "fleet_db \<Rightarrow> bool" where
  "workers_ok db \<longleftrightarrow> distinct (map wk_id (fd_workers db)) \<and> distinct (map wk_fingerprint (fd_workers db))
     \<and> distinct (map en_id (fd_enrollments db)) \<and> distinct (map en_tokenHash (fd_enrollments db))"

text \<open>How an operation changes the table of workers.\<close>

definition workers_step :: "string set \<Rightarrow> fleet_db \<Rightarrow> fleet_db \<Rightarrow> bool" where
  "workers_step touched db db' \<longleftrightarrow>
     (\<exists>f. fd_workers db' = map f (fd_workers db) \<and> (\<forall>w. wk_id (f w) = wk_id w \<and> wk_fingerprint (f w) = wk_fingerprint w)
        \<and> (\<forall>w\<in>set (fd_workers db). wk_id w \<notin> touched \<longrightarrow> f w = w) \<and> fd_enrollments db' = fd_enrollments db)
     \<or> (\<exists>w e. fd_workers db' = fd_workers db @ [w] \<and> wk_id w \<notin> wk_id ` set (fd_workers db) \<and> wk_fingerprint w \<notin> wk_fingerprint ` set (fd_workers db)
        \<and> e \<in> set (fd_enrollments db) \<and> en_consumedAt e = None \<and> en_organization e = wk_organization w
        \<and> map (\<lambda>r. (en_id r, en_tokenHash r)) (fd_enrollments db') = map (\<lambda>r. (en_id r, en_tokenHash r)) (fd_enrollments db)
        \<and> (\<exists>t. e\<lparr>en_consumedAt := Some t\<rparr> \<in> set (fd_enrollments db')))
     \<or> (\<exists>e. fd_workers db' = fd_workers db \<and> fd_enrollments db' = fd_enrollments db @ [e]
        \<and> en_id e \<notin> en_id ` set (fd_enrollments db) \<and> en_tokenHash e \<notin> en_tokenHash ` set (fd_enrollments db))"

lemma workers_step_same: "fd_workers db' = fd_workers db \<Longrightarrow> fd_enrollments db' = fd_enrollments db \<Longrightarrow> workers_step T db db'"
  unfolding workers_step_def by (intro disjI1 exI [of _ "\<lambda>w. w"]) simp

lemma workers_step_ok: "workers_step T db db' \<Longrightarrow> workers_ok db \<Longrightarrow> workers_ok db'"
  unfolding workers_step_def
proof (elim disjE exE conjE)
  fix f assume f: "fd_workers db' = map f (fd_workers db)" "\<forall>w. wk_id (f w) = wk_id w \<and> wk_fingerprint (f w) = wk_fingerprint w"
    "fd_enrollments db' = fd_enrollments db" and ok: "workers_ok db"
  then have "map wk_id (fd_workers db') = map wk_id (fd_workers db)" "map wk_fingerprint (fd_workers db') = map wk_fingerprint (fd_workers db)" by simp_all
  then show "workers_ok db'" using ok f(3) by (simp only: workers_ok_def)
next
  fix w e assume a: "fd_workers db' = fd_workers db @ [w]" "wk_id w \<notin> wk_id ` set (fd_workers db)" "wk_fingerprint w \<notin> wk_fingerprint ` set (fd_workers db)"
    "map (\<lambda>r. (en_id r, en_tokenHash r)) (fd_enrollments db') = map (\<lambda>r. (en_id r, en_tokenHash r)) (fd_enrollments db)" and ok: "workers_ok db"
  from a(4) have "map fst (map (\<lambda>r. (en_id r, en_tokenHash r)) (fd_enrollments db')) = map fst (map (\<lambda>r. (en_id r, en_tokenHash r)) (fd_enrollments db))"
    "map snd (map (\<lambda>r. (en_id r, en_tokenHash r)) (fd_enrollments db')) = map snd (map (\<lambda>r. (en_id r, en_tokenHash r)) (fd_enrollments db))" by simp_all
  then have "map en_id (fd_enrollments db') = map en_id (fd_enrollments db)" "map en_tokenHash (fd_enrollments db') = map en_tokenHash (fd_enrollments db)"
    by (simp_all add: comp_def)
  then show "workers_ok db'" using ok a(1-3) by (simp add: workers_ok_def)
next
  fix e assume "fd_workers db' = fd_workers db" "fd_enrollments db' = fd_enrollments db @ [e]"
    "en_id e \<notin> en_id ` set (fd_enrollments db)" "en_tokenHash e \<notin> en_tokenHash ` set (fd_enrollments db)" "workers_ok db"
  then show "workers_ok db'" by (simp add: workers_ok_def)
qed

lemma enroll_step:
  assumes "enroll rt now i input db = (db', r)"
  shows "workers_step T db db'"
proof (cases "db' = db")
  case True
  then show ?thesis by (simp add: workers_step_same)
next
  case False
  obtain spki der row zone where v: "validateEd25519 rt (el_publicKeyPem input) = Inr (spki, der)"
    and row: "find (\<lambda>r. en_tokenHash r = fleet_digest rt (el_token input)) (fd_enrollments db) = Some row"
    and live: "en_consumedAt row = None" "now < en_expiresAt row"
    and zone: "normalizeZone (map_of (el_labels input) ''networkZone'') = Inr zone"
    using assms False by (auto simp: enroll_def Let_def not_le split: sum.splits option.splits if_splits)
  let ?w = "new_worker rt now i input (en_organization row) spki der zone"
  let ?c = "\<lambda>r. en_id r = en_id row \<and> en_consumedAt r = None \<and> en_expiresAt r > now"
  have w: "fd_workers db' = fd_workers db @ [?w]" and e: "fd_enrollments db' = map (\<lambda>r. if ?c r then r\<lparr>en_consumedAt := Some now\<rparr> else r) (fd_enrollments db)"
    and fresh: "\<not> list_ex (\<lambda>x. wk_id x = i \<or> wk_fingerprint x = wk_fingerprint ?w) (fd_workers db)"
    and one: "length (filter ?c (fd_enrollments db)) = 1"
    using assms False v row live zone by (auto simp: enroll_def Let_def split: if_splits)
  have row': "row \<in> set (fd_enrollments db)" "?c row" using find_SomeD [OF row] live by auto
  then have "row\<lparr>en_consumedAt := Some now\<rparr> \<in> set (fd_enrollments db')" unfolding e by force
  moreover have "map (\<lambda>r. (en_id r, en_tokenHash r)) (fd_enrollments db') = map (\<lambda>r. (en_id r, en_tokenHash r)) (fd_enrollments db)" by (simp add: e)
  moreover have "wk_id ?w \<notin> wk_id ` set (fd_workers db)" "wk_fingerprint ?w \<notin> wk_fingerprint ` set (fd_workers db)"
    using fresh by (auto simp: list_ex_iff new_worker_def)
  moreover have "en_organization row = wk_organization ?w" by (simp add: new_worker_def)
  ultimately show ?thesis unfolding workers_step_def using w row' live(1) by blast
qed

lemma createEnrollment_step:
  assumes "createEnrollment rt now i token input actor db = (db', r)"
  shows "workers_step T db db'"
proof (cases "db' = db")
  case True
  then show ?thesis by (simp add: workers_step_same)
next
  case False
  obtain e where "fd_enrollments db' = fd_enrollments db @ [e]" "fd_workers db' = fd_workers db"
      "\<forall>x\<in>set (fd_enrollments db). en_id x \<noteq> en_id e \<and> en_tokenHash x \<noteq> en_tokenHash e"
    using assms False by (auto simp: createEnrollment_def Let_def list_ex_iff split: if_splits)
  moreover from this(3) have "en_id e \<notin> en_id ` set (fd_enrollments db)" "en_tokenHash e \<notin> en_tokenHash ` set (fd_enrollments db)"
    by (metis imageE)+
  ultimately show ?thesis unfolding workers_step_def by blast
qed

lemma map_workers_step:
  assumes "fd_workers db' = map (\<lambda>w. if wk_id w = i then g w else w) (fd_workers db)" "fd_enrollments db' = fd_enrollments db"
    and "\<And>w. wk_id (g w) = wk_id w \<and> wk_fingerprint (g w) = wk_fingerprint w" "i \<in> T"
  shows "workers_step T db db'"
  unfolding workers_step_def by (intro disjI1 exI [of _ "\<lambda>w. if wk_id w = i then g w else w"]) (use assms in auto)

lemma heartbeat_step:
  assumes "heartbeat now worker st res db = (db', r)"
  shows "workers_step {i. \<exists>w\<in>set (fd_workers db). wk_id w = i \<and> wk_status w \<in> {WorkerOnline, WorkerDraining}} db db'"
proof (cases "activeWorker True worker db")
  case (Inl e)
  then show ?thesis using assms by (auto simp: heartbeat_def intro: workers_step_same)
next
  case (Inr w)
  then show ?thesis using assms activeWorker_cases [OF Inr]
    by (intro map_workers_step [where i = "wk_id worker" and g = "\<lambda>x. x\<lparr>wk_status := (if wk_status w = WorkerDraining then WorkerDraining else st),
          wk_resources := Some res, wk_lastSeenAt := now, wk_updatedAt := now\<rparr>"]) (auto simp: heartbeat_def)
qed

lemma job_operations_workers:
  "fd_workers (fst (claim_job rt now token worker db)) = fd_workers db" "fd_enrollments (fst (claim_job rt now token worker db)) = fd_enrollments db"
  "fd_workers (fst (renew_job rt now worker i tok db)) = fd_workers db" "fd_enrollments (fst (renew_job rt now worker i tok db)) = fd_enrollments db"
  "fd_workers (fst (complete_job rt now worker i input db)) = fd_workers db" "fd_enrollments (fst (complete_job rt now worker i input db)) = fd_enrollments db"
  by (auto simp: claim_job_def renew_job_def complete_job_def requeueExpired_def set_job_def Let_def split: sum.splits option.splits)

definition lively :: "fleet_db \<Rightarrow> string set" where
  "lively db = {i. \<exists>w\<in>set (fd_workers db). wk_id w = i \<and> wk_status w \<in> {WorkerOnline, WorkerDraining}}"

lemma route_step:
  assumes "fleet_route rt now token worker path body db = (db', out)"
  shows "workers_step (lively db) db db'"
proof -
  have jobs: ?thesis if "fd_workers db' = fd_workers db \<and> fd_enrollments db' = fd_enrollments db"
    using that by (simp add: workers_step_same)
  show ?thesis
  proof (cases "ends_with path ''/heartbeat''")
    case True
    show ?thesis
    proof (cases "heartbeat_body rt body")
      case (Some p)
      obtain st res where p: "p = (st, res)" by (cases p)
      obtain db1 r where h: "heartbeat now worker st res db = (db1, r)" by (cases "heartbeat now worker st res db")
      then have "db' = db1" using assms True Some p by (simp add: fleet_route_def fleet_answer_def)
      then show ?thesis using heartbeat_step [OF h] by (simp add: lively_def)
    qed (use assms True jobs in \<open>simp add: fleet_route_def\<close>)
  next
    case False
    have "db' = db \<or> (\<exists>x. db' = fst (claim_job rt now token worker db)) \<or> (\<exists>i tok. db' = fst (renew_job rt now worker i tok db))
        \<or> (\<exists>i input. db' = fst (complete_job rt now worker i input db))"
      using assms False by (auto simp: fleet_route_def fleet_answer_def Let_def case_prod_unfold split: if_splits option.splits)
    then show ?thesis using job_operations_workers by (intro jobs) metis
  qed
qed

fun sets_status :: "string \<Rightarrow> fleet_op \<Rightarrow> bool" where
  "sets_status i (FleetSetStatus now workerId status) = (workerId = i)"
| "sets_status i _ = False"

lemma setStatus_workers:
  assumes "setStatus now workerId status db = (db', r)"
  shows "workers_step {workerId} db db'"
proof (cases "db' = db")
  case True
  then show ?thesis by (simp add: workers_step_same)
next
  case False
  then show ?thesis using assms
    by (intro map_workers_step [where i = workerId and g = "\<lambda>w. w\<lparr>wk_status := status,
          wk_generation := wk_generation w + (if status = WorkerDraining then 0 else 1), wk_updatedAt := now\<rparr>"]) (auto simp: setStatus_def split: if_splits)
qed

lemma exec_workers:
  assumes "fleet_exec rt op st = (st', out)"
  shows "workers_step (lively (fs_db st) \<union> {i. sets_status i op}) (fs_db st) (fs_db st')"
proof -
  let ?T = "lively (fs_db st) \<union> {i. sets_status i op}"
  have same: ?thesis if "fs_db st' = fs_db st" using that by (simp add: workers_step_same)
  have weaken: "workers_step S db db' \<Longrightarrow> S \<subseteq> S' \<Longrightarrow> workers_step S' db db'" for S S' db db'
    unfolding workers_step_def by blast
  show ?thesis
  proof (cases op)
    case (FleetCreateEnrollment now i token input actor)
    obtain db r where q: "createEnrollment rt now i token input actor (fs_db st) = (db, r)" by (cases "createEnrollment rt now i token input actor (fs_db st)")
    have "fs_db st' = fs_db st \<or> fs_db st' = db" using assms q FleetCreateEnrollment by (auto simp: fleet_answer_def split: if_splits)
    then show ?thesis using same createEnrollment_step [OF q] by metis
  next
    case (FleetEnroll now i input)
    obtain db r where q: "enroll rt now i input (fs_db st) = (db, r)" by (cases "enroll rt now i input (fs_db st)")
    have "fs_db st' = fs_db st \<or> fs_db st' = db" using assms q FleetEnroll by (auto simp: fleet_answer_def split: if_splits)
    then show ?thesis using same enroll_step [OF q] by metis
  next
    case (FleetAuthenticate clock path body headers)
    have "fs_db st' = fst (fleet_authenticate rt clock ''POST'' path body headers (fs_db st))"
      using assms FleetAuthenticate by (auto split: prod.splits sum.splits)
    then show ?thesis using authenticate_jobs [of rt clock "''POST''" path body headers "fs_db st"] by (auto intro: workers_step_same)
  next
    case (FleetEnqueue now i input actor)
    have "fs_db st' = fs_db st \<or> fs_db st' = fst (enqueue_job rt now i input actor (fs_db st))"
      using assms FleetEnqueue by (auto simp: fleet_answer_def split: if_splits)
    then show ?thesis by (auto simp: enqueue_job_def split: sum.splits intro!: workers_step_same)
  next
    case (FleetSetStatus now workerId status)
    obtain db r where q: "setStatus now workerId status (fs_db st) = (db, r)" by (cases "setStatus now workerId status (fs_db st)")
    then have "fs_db st' = db" using assms FleetSetStatus by (auto simp: fleet_answer_def)
    then show ?thesis using weaken [OF setStatus_workers [OF q], of ?T] FleetSetStatus by auto
  next
    case (FleetDispatch n ok now token)
    show ?thesis
    proof (cases "ok \<and> n < length (fs_pending st)")
      case False
      then show ?thesis using assms FleetDispatch by (intro same) (auto simp: Let_def split: if_splits prod.splits)
    next
      case True
      obtain worker path body where p: "fs_pending st ! n = (worker, path, body)" by (metis prod.exhaust)
      obtain db r where q: "fleet_route rt now token worker path body (fs_db st) = (db, r)" by (cases "fleet_route rt now token worker path body (fs_db st)")
      then have "fs_db st' = db" using assms FleetDispatch True p by (auto simp: Let_def)
      then show ?thesis using weaken [OF route_step [OF q], of ?T] by auto
    qed
  qed
qed

end
