(* ===== verification/RC_RemoteWorkersPromises.thy ===== *)
theory RC_RemoteWorkersPromises
  imports RC_RemoteWorkersRuns
begin

text \<open>The promises of the fleet service over every run, and where its queue stalls.\<close>

section \<open>The invariant\<close>

definition fleet_ok :: "fleet_db \<Rightarrow> bool" where
  "fleet_ok db \<longleftrightarrow> jobs_ok (fd_jobs db) \<and> workers_ok db \<and> distinct (map (\<lambda>(c, n, _). (c, n)) (fd_nonces db))"

lemma job_operations_nonces:
  "fd_nonces (fst (claim_job rt now token worker db)) = fd_nonces db" "fd_nonces (fst (renew_job rt now worker i tok db)) = fd_nonces db"
  "fd_nonces (fst (complete_job rt now worker i input db)) = fd_nonces db" "fd_nonces (fst (heartbeat now worker status res db)) = fd_nonces db"
  by (auto simp: claim_job_def renew_job_def complete_job_def heartbeat_def requeueExpired_def set_job_def Let_def split: sum.splits option.splits)

lemma route_nonces: "fd_nonces (fst (fleet_route rt now token worker path body db)) = fd_nonces db"
  using job_operations_nonces
  by (simp add: fleet_route_def fleet_answer_def case_prod_unfold Let_def split: option.split)

lemma authenticate_nonces:
  "fd_nonces (fst (fleet_authenticate rt clock verb path body headers db)) \<in> {fd_nonces db, fst (use_nonce (fst (snd clock)) (snd (snd clock) + 600000)
     (the (map_of headers ''x-routecairn-worker-id''), the (map_of headers ''x-routecairn-nonce'')) (fd_nonces db))}"
  by (simp add: fleet_authenticate_def Let_def case_prod_unfold split: option.split)

lemma exec_nonces:
  assumes "fleet_exec rt op st = (st', out)"
  shows "fd_nonces (fs_db st') = fd_nonces (fs_db st) \<or> (\<exists>now x k. fd_nonces (fs_db st') = fst (use_nonce now x k (fd_nonces (fs_db st))))"
proof (cases op)
  case (FleetCreateEnrollment now i token input actor)
  then show ?thesis using assms by (auto simp: fleet_answer_def createEnrollment_def Let_def split: if_splits)
next
  case (FleetEnroll now i input)
  then show ?thesis using assms by (auto simp: fleet_answer_def enroll_def Let_def split: if_splits sum.splits option.splits)
next
  case (FleetAuthenticate clock path body headers)
  have "fs_db st' = fst (fleet_authenticate rt clock ''POST'' path body headers (fs_db st))"
    using assms FleetAuthenticate by (auto split: prod.splits sum.splits)
  then show ?thesis using authenticate_nonces [of rt clock "''POST''" path body headers "fs_db st"] by (simp only: insert_iff empty_iff) blast
next
  case (FleetEnqueue now i input actor)
  then show ?thesis using assms by (auto simp: fleet_answer_def enqueue_job_def split: if_splits sum.splits)
next
  case (FleetSetStatus now workerId status)
  then show ?thesis using assms by (auto simp: fleet_answer_def setStatus_def split: if_splits)
next
  case (FleetDispatch n ok now token)
  show ?thesis using assms FleetDispatch route_nonces by (auto simp: Let_def case_prod_unfold split: if_splits)
qed

lemma reach_ok: "fleet_reach rt st \<Longrightarrow> fleet_ok (fs_db st)"
proof (induction rule: fleet_reach.induct)
  case start
  show ?case by (simp add: fleet_start_def fleet_ok_def jobs_ok_def workers_ok_def)
next
  case (step st op st' out)
  have "distinct (map (\<lambda>(c, n, _). (c, n)) (fd_nonces (fs_db st')))"
    using exec_nonces [OF step(2)] step.IH distinct_use_nonce by (auto simp: fleet_ok_def)
  then show ?case
    using step.IH exec_jobs_ok [OF step(2)] workers_step_ok [OF exec_workers [OF step(2)]] by (simp add: fleet_ok_def)
qed

text \<open>Every waiting call was signed with the key of the row it carries.\<close>

definition call_signed :: "fleet_runtime \<Rightarrow> worker_row \<Rightarrow> string \<Rightarrow> json \<Rightarrow> bool" where
  "call_signed rt worker path body \<longleftrightarrow> (\<exists>timestamp nonce sig. fr_verify rt (wk_publicKey worker)
     (join_with [CHR 0x0A] [''routecairn-agent-ed25519-v1'', to_upper ''POST'', path, timestamp, nonce, rt_sha256 rt (fleet_canonical rt body)]) sig)"

lemma authenticate_signed:
  assumes "fleet_authenticate rt clock ''POST'' path body headers db = (db', Inr worker)"
  shows "call_signed rt worker path body \<and> map_of headers ''x-routecairn-worker-id'' = Some (wk_id worker) \<and> worker \<in> set (fd_workers db)
    \<and> wk_status worker \<notin> {WorkerQuarantined, WorkerRevoked}"
proof -
  obtain i t n sig w where "map_of headers ''x-routecairn-worker-id'' = Some i" "find (\<lambda>w. wk_id w = i) (fd_workers db) = Some w"
    "wk_status w \<notin> {WorkerQuarantined, WorkerRevoked}" "worker = w"
    "fr_verify rt (wk_publicKey w) (join_with [CHR 0x0A] [''routecairn-agent-ed25519-v1'', to_upper ''POST'', path, t, n, rt_sha256 rt (fleet_canonical rt body)]) sig"
    using assms by (auto simp: fleet_authenticate_def Let_def case_prod_unfold split: option.splits if_splits)
  then show ?thesis using find_SomeD [of "\<lambda>w. wk_id w = i" "fd_workers db" w] by (auto simp: call_signed_def)
qed

lemma exec_pending:
  assumes "fleet_exec rt op st = (st', out)" "x \<in> set (fs_pending st')"
  shows "x \<in> set (fs_pending st) \<or> (\<exists>clock path body headers db' worker. x = (worker, path, body)
     \<and> fleet_authenticate rt clock ''POST'' path body headers (fs_db st) = (db', Inr worker))"
proof (cases op)
  case (FleetAuthenticate clock path body headers)
  then show ?thesis using assms by (cases clock) (auto split: prod.splits sum.splits)
next
  case (FleetDispatch n ok now token)
  then show ?thesis using assms by (auto simp: Let_def case_prod_unfold split: if_splits dest: in_set_takeD in_set_dropD)
qed (use assms in \<open>auto simp: Let_def case_prod_unfold split: if_splits\<close>)

lemma reach_signed: "fleet_reach rt st \<Longrightarrow> (worker, path, body) \<in> set (fs_pending st) \<Longrightarrow> call_signed rt worker path body"
proof (induction arbitrary: worker path body rule: fleet_reach.induct)
  case start
  then show ?case by (simp add: fleet_start_def)
next
  case (step st op st' out)
  then show ?case using exec_pending [OF step(2,4)] authenticate_signed by blast
qed

lemma move_unfinished:
  "job_move rt now w j e j' \<Longrightarrow> \<nexists>input. e = JobFinished input \<Longrightarrow> jb_result j' = jb_result j \<and> (jb_status j' = JobCompleted \<longrightarrow> jb_status j = JobCompleted)"
  by (induction rule: job_move.induct) (simp_all add: requeue_job_def granted_job_def)

section \<open>Promises\<close>

text \<open>
  C25: In every reachable state of the fleet service the tables are well formed: jobs, workers and enrollments have unique identifiers, keys and tokens;
  exactly the leased jobs have a token hash and an expiry, and a worker; queued jobs have attempts left and finished ones an end; no
  job exceeds its attempts; a nonce is held once per worker.
\<close>

theorem fleet_tables_well_formed: "fleet_reach rt st \<Longrightarrow> fleet_ok (fs_db st)"
  by (rule reach_ok)

text \<open>
  C16: In every reachable state whatever operation comes next, a finished job keeps its row; and a job that becomes completed, or gets a result, does so by
  a waiting call for that very job whose signature verified with the key of its worker: the worker the job is leased to, with the token of the
  lease, before it expired.
\<close>

theorem job_ended_by_lease_holder:
  assumes "fleet_reach rt st" "fleet_exec rt op st = (st', out)" "j \<in> set (fd_jobs (fs_db st))"
  shows "\<exists>j'\<in>set (fd_jobs (fs_db st')). jb_id j' = jb_id j \<and> (job_finished j \<longrightarrow> j' = j)
    \<and> (jb_result j' \<noteq> jb_result j \<or> jb_status j' = JobCompleted \<and> jb_status j \<noteq> JobCompleted \<longrightarrow>
        (\<exists>n now token worker path body input. op = FleetDispatch n True now token \<and> n < length (fs_pending st)
          \<and> fs_pending st ! n = (worker, path, body) \<and> call_signed rt worker path body
          \<and> job_path ''/complete'' path = Some (jb_id j) \<and> completion_body body = Some input
          \<and> renewable rt now worker (jb_id j) (ci_leaseToken input) j))"
proof -
  have ids: "distinct (map jb_id (fd_jobs (fs_db st)))" using reach_ok [OF assms(1)] by (simp add: fleet_ok_def jobs_ok_def)
  obtain w now e j' where m: "job_move rt now w j e j'" "op_event op st out now w (jb_id j) e" "j' \<in> set (fd_jobs (fs_db st'))"
    by (rule jobs_step_job [OF exec_jobs [OF ids assms(2)] assms(3)])
  have plain: "jb_result j' = jb_result j \<and> (jb_status j' = JobCompleted \<longrightarrow> jb_status j = JobCompleted)" if "\<nexists>input. e = JobFinished input"
    using move_unfinished [OF m(1)] that by blast
  have call: "\<exists>n token worker path body. op = FleetDispatch n True now token \<and> n < length (fs_pending st) \<and> fs_pending st ! n = (worker, path, body)
      \<and> call_signed rt worker path body \<and> job_path ''/complete'' path = Some (jb_id j) \<and> completion_body body = Some input
      \<and> renewable rt now worker (jb_id j) (ci_leaseToken input) j" if e: "e = JobFinished input" for input
  proof (cases op)
    case (FleetDispatch n ok now' token)
    obtain worker path body where p: "fs_pending st ! n = (worker, path, body)" by (metis prod.exhaust)
    have d: "ok" "n < length (fs_pending st)" "now' = now" "wk_id w = wk_id worker" "call_event path body out (jb_id j) (JobFinished input)"
      using m(2) e FleetDispatch p by (auto split: if_splits)
    have "(worker, path, body) \<in> set (fs_pending st)" using d(2) p by (metis nth_mem)
    then have "call_signed rt worker path body" by (rule reach_signed [OF assms(1)])
    moreover have "job_path ''/complete'' path = Some (jb_id j)" "completion_body body = Some input"
      using d(5) by (auto simp: call_event_def split: fleet_output.splits option.splits if_splits)
    moreover have "renewable rt now worker (jb_id j) (ci_leaseToken input) j"
      using m(1) d(4) unfolding e by (auto elim!: move_finishedE simp: renewable_def)
    ultimately show ?thesis using FleetDispatch d p by auto
  qed (use m(2) e in auto)
  show ?thesis
  proof (intro bexI [OF _ m(3)] conjI impI)
    show "jb_id j' = jb_id j" using move_id [OF m(1)] by simp
    show "j' = j" if "job_finished j" using move_finished [OF m(1) that] .
    assume "jb_result j' \<noteq> jb_result j \<or> jb_status j' = JobCompleted \<and> jb_status j \<noteq> JobCompleted"
    then obtain input where "e = JobFinished input" using plain by blast
    from call [OF this] show "\<exists>n now token worker path body input. op = FleetDispatch n True now token \<and> n < length (fs_pending st)
          \<and> fs_pending st ! n = (worker, path, body) \<and> call_signed rt worker path body
          \<and> job_path ''/complete'' path = Some (jb_id j) \<and> completion_body body = Some input
          \<and> renewable rt now worker (jb_id j) (ci_leaseToken input) j" by blast
  qed
qed

subsection \<open>Leases\<close>

text \<open>How often a job was handed out.\<close>

definition claims :: "string \<Rightarrow> fleet_output \<Rightarrow> nat" where
  "claims i out = (case out of FleetClaimed (Some c) \<Rightarrow> if cj_id c = i then 1 else 0 | _ \<Rightarrow> 0)"

definition attempts_of :: "string \<Rightarrow> job_row list \<Rightarrow> nat" where
  "attempts_of i js = (case find (\<lambda>j. jb_id j = i) js of None \<Rightarrow> 0 | Some j \<Rightarrow> jb_attempts j)"

lemma attempts_of_mem: "distinct (map jb_id js) \<Longrightarrow> j \<in> set js \<Longrightarrow> attempts_of (jb_id j) js = jb_attempts j"
proof -
  assume a: "distinct (map jb_id js)" "j \<in> set js"
  then obtain k where k: "find (\<lambda>x. jb_id x = jb_id j) js = Some k" by (cases "find (\<lambda>x. jb_id x = jb_id j) js") (auto simp: find_None_iff)
  then have "k = j" using find_SomeD [OF k] distinct_map_same [OF a(1)] a(2) by metis
  then show ?thesis using k by (simp add: attempts_of_def)
qed

lemma attempts_of_fresh: "i \<notin> jb_id ` set js \<Longrightarrow> attempts_of i js = 0"
  by (auto simp: attempts_of_def dest: find_SomeD split: option.split)

lemma op_event_claims: "op_event op st out now w i e \<Longrightarrow> fleet_exec rt op st = (st', out) \<Longrightarrow> grant_count e = claims i out"
proof (cases op)
  case (FleetDispatch n ok now' token)
  assume a: "op_event op st out now w i e" "fleet_exec rt op st = (st', out)"
  show ?thesis
  proof (cases "ok \<and> n < length (fs_pending st)")
    case True
    then show ?thesis using a(1) FleetDispatch
      by (auto simp: call_event_def grant_count_def claims_def split: prod.splits fleet_output.splits option.splits if_splits)
  next
    case False
    then show ?thesis using a FleetDispatch by (auto simp: grant_count_def claims_def Let_def split: prod.splits if_splits)
  qed
qed (auto simp: grant_count_def claims_def fleet_answer_def split: if_splits sum.splits prod.splits)

lemma claimed_known:
  assumes "fleet_exec rt op st = (st', FleetClaimed (Some c))"
  shows "cj_id c \<in> jb_id ` set (fd_jobs (fs_db st))"
proof (cases op)
  case (FleetDispatch n ok now token)
  have claim: "j \<in> jb_id ` set (fd_jobs db)" if c: "claim_job rt now token worker db = (db', Some c')" "cj_id c' = j" for worker db db' c' j
  proof -
    obtain w job where "find (capable w) (candidates w (requeueExpired now db)) = Some job" "cj_id c' = jb_id job"
      using c(1) by (auto simp: claim_job_def Let_def split: sum.splits option.splits)
    then have "jb_id job \<in> jb_id ` set (fd_jobs (requeueExpired now db))" using find_SomeD candidates_mem by (metis imageI)
    moreover have "jb_id ` set (fd_jobs (requeueExpired now db)) = jb_id ` set (fd_jobs db)" by (auto simp: requeueExpired_def image_image)
    ultimately show ?thesis using c(2) \<open>cj_id c' = jb_id job\<close> by simp
  qed
  obtain worker path body where p: "fs_pending st ! n = (worker, path, body)" by (metis prod.exhaust)
  have "fleet_route rt now token worker path body (fs_db st) = (fs_db st', FleetClaimed (Some c))"
    using assms FleetDispatch p by (auto simp: Let_def split: if_splits prod.splits)
  then have "claim_job rt now token worker (fs_db st) = (fs_db st', Some c)"
    by (auto simp: fleet_route_def fleet_answer_def Let_def split: if_splits option.splits prod.splits sum.splits)
  then show ?thesis using claim by blast
qed (use assms in \<open>auto simp: fleet_answer_def split: if_splits sum.splits prod.splits\<close>)

lemma exec_attempts:
  assumes ok: "jobs_ok (fd_jobs (fs_db st))" and exec: "fleet_exec rt op st = (st', out)"
  shows "attempts_of i (fd_jobs (fs_db st')) = attempts_of i (fd_jobs (fs_db st)) + claims i out"
proof -
  let ?js = "fd_jobs (fs_db st)" and ?js' = "fd_jobs (fs_db st')"
  have ids: "distinct (map jb_id ?js)" "distinct (map jb_id ?js')" using ok exec_jobs_ok [OF exec ok] by (simp_all add: jobs_ok_def)
  note step = exec_jobs [OF ids(1) exec]
  show ?thesis
  proof (cases "i \<in> jb_id ` set ?js")
    case True
    then obtain j where j: "j \<in> set ?js" "jb_id j = i" by auto
    obtain w now e j' where m: "job_move rt now w j e j'" "op_event op st out now w (jb_id j) e" "j' \<in> set ?js'"
      by (rule jobs_step_job [OF step j(1)])
    have "attempts_of i ?js' = jb_attempts j'" "attempts_of i ?js = jb_attempts j"
      using attempts_of_mem [OF ids(2) m(3)] attempts_of_mem [OF ids(1) j(1)] move_id [OF m(1)] j(2) by simp_all
    then show ?thesis using move_attempts [OF m(1)] op_event_claims [OF m(2) exec] j(2) by simp
  next
    case False
    have "claims i out = 0"
      using claimed_known [of rt op st st'] exec False by (auto simp: claims_def split: fleet_output.splits option.splits)
    moreover have "attempts_of i ?js' = 0"
    proof -
      obtain w now js1 where m: "moved rt now w (op_event op st out now w) ?js js1"
        and js': "?js' = js1 \<or> (\<exists>j. ?js' = js1 @ [j] \<and> new_job_ok ?js j)"
        using step by (auto simp: jobs_step_def)
      have old: "i \<notin> jb_id ` set js1" using moved_facts [OF m] False by (metis list.set_map)
      from js' show ?thesis
      proof
        assume "?js' = js1"
        then show ?thesis using old attempts_of_fresh by simp
      next
        assume "\<exists>j. ?js' = js1 @ [j] \<and> new_job_ok ?js j"
        then obtain j where j: "?js' = js1 @ [j]" "jb_attempts j = 0" by (auto simp: new_job_ok_def)
        show ?thesis
        proof (cases "jb_id j = i")
          case True
          then show ?thesis using attempts_of_mem [OF ids(2), of j] j by simp
        next
          case False
          then show ?thesis using old j by (intro attempts_of_fresh) auto
        qed
      qed
    qed
    ultimately show ?thesis using attempts_of_fresh [OF False] by simp
  qed
qed

lemma run_attempts:
  assumes "jobs_ok (fd_jobs (fs_db st))" "fleet_run rt ops st = (st', outs)"
  shows "jobs_ok (fd_jobs (fs_db st')) \<and> attempts_of i (fd_jobs (fs_db st')) = attempts_of i (fd_jobs (fs_db st)) + sum_list (map (claims i) outs)"
  using assms
proof (induction ops arbitrary: st outs)
  case (Cons op ops)
  obtain st1 out where e: "fleet_exec rt op st = (st1, out)" by (cases "fleet_exec rt op st")
  obtain st2 outs1 where r: "fleet_run rt ops st1 = (st2, outs1)" by (cases "fleet_run rt ops st1")
  have o: "st' = st2" "outs = out # outs1" using Cons.prems(2) e r by simp_all
  show ?case using Cons.IH [OF exec_jobs_ok [OF e Cons.prems(1)] r [folded o(1)]] exec_attempts [OF Cons.prems(1) e, of i] by (simp add: o(2))
qed simp

text \<open>
  C18: Over any run of the service, with workers that answer, vanish or are revoked at any moment, a job is handed out exactly as often as its row counts,
  which is at most the attempts it was queued with, and those are at most ten.
\<close>

theorem leases_within_attempts:
  assumes "fleet_run rt ops fleet_start = (st, outs)" "j \<in> set (fd_jobs (fs_db st))"
  shows "sum_list (map (claims (jb_id j)) outs) = jb_attempts j \<and> jb_attempts j \<le> jb_maxAttempts j \<and> jb_maxAttempts j \<le> 10"
proof -
  have "jobs_ok (fd_jobs (fs_db fleet_start))" "attempts_of (jb_id j) (fd_jobs (fs_db fleet_start)) = 0"
    by (simp_all add: fleet_start_def jobs_ok_def attempts_of_def)
  then have r: "jobs_ok (fd_jobs (fs_db st))" "attempts_of (jb_id j) (fd_jobs (fs_db st)) = sum_list (map (claims (jb_id j)) outs)"
    using run_attempts [OF _ assms(1), of "jb_id j"] by simp_all
  then show ?thesis using attempts_of_mem [OF _ assms(2)] assms(2) by (auto simp: jobs_ok_def list_all_iff job_row_ok_def)
qed

end
