(* ===== verification/RC_RemoteWorkersGates.thy ===== *)
theory RC_RemoteWorkersGates
  imports RC_RemoteWorkersPromises
begin

text \<open>Who the fleet service lets act: workers an operator revoked, the jobs a worker is given, and jobs that nobody is given.\<close>

section \<open>Revoked workers\<close>

definition blocked :: "string \<Rightarrow> fleet_db \<Rightarrow> bool" where
  "blocked i db \<longleftrightarrow> i \<in> wk_id ` set (fd_workers db) \<and> (\<forall>w\<in>set (fd_workers db). wk_id w = i \<longrightarrow> wk_status w \<in> {WorkerQuarantined, WorkerRevoked})"

lemma blocked_step:
  assumes "blocked i db" "workers_step T db db'" "i \<notin> T"
  shows "blocked i db'"
  using assms(2) unfolding workers_step_def
proof (elim disjE exE conjE)
  fix f assume f: "fd_workers db' = map f (fd_workers db)" "\<forall>w. wk_id (f w) = wk_id w \<and> wk_fingerprint (f w) = wk_fingerprint w"
    "\<forall>w\<in>set (fd_workers db). wk_id w \<notin> T \<longrightarrow> f w = w"
  have "wk_id ` set (fd_workers db') = wk_id ` set (fd_workers db)" using f(1,2) by (simp add: image_image)
  moreover have "wk_status w \<in> {WorkerQuarantined, WorkerRevoked}" if w: "w \<in> set (fd_workers db')" "wk_id w = i" for w
  proof -
    obtain x where x: "x \<in> set (fd_workers db)" "w = f x" using w(1) f(1) by auto
    then have "wk_id x = i" "f x = x" using f(2,3) w(2) assms(3) by auto
    then show ?thesis using assms(1) x by (simp add: blocked_def)
  qed
  ultimately show ?thesis using assms(1) by (simp add: blocked_def)
next
  fix w assume "fd_workers db' = fd_workers db @ [w]" "wk_id w \<notin> wk_id ` set (fd_workers db)"
  then show ?thesis using assms(1) by (auto simp: blocked_def)
next
  fix e assume "fd_workers db' = fd_workers db"
  then show ?thesis using assms(1) by (simp add: blocked_def)
qed

lemma blocked_exec:
  assumes "blocked i (fs_db st)" "fleet_exec rt op st = (st', out)" "\<not> sets_status i op"
  shows "blocked i (fs_db st')"
proof -
  have "i \<notin> lively (fs_db st)" using assms(1) by (auto simp: lively_def blocked_def)
  then show ?thesis using blocked_step [OF assms(1) exec_workers [OF assms(2)]] assms(3) by simp
qed

lemma blocked_run:
  "blocked i (fs_db st) \<Longrightarrow> fleet_run rt ops st = (st', outs) \<Longrightarrow> list_all (\<lambda>op. \<not> sets_status i op) ops \<Longrightarrow> blocked i (fs_db st')"
proof (induction ops arbitrary: st outs)
  case (Cons op ops)
  obtain st1 out where e: "fleet_exec rt op st = (st1, out)" by (cases "fleet_exec rt op st")
  obtain st2 outs1 where r: "fleet_run rt ops st1 = (st2, outs1)" by (cases "fleet_run rt ops st1")
  have "st' = st2" using Cons.prems(2) e r by simp
  then show ?case using Cons.IH [of st1 outs1] blocked_exec [OF Cons.prems(1) e] Cons.prems(3) r by simp
qed simp

lemma blocked_by_map:
  assumes "fd_workers db' = map g (fd_workers db)" "i \<in> wk_id ` set (fd_workers db)" "\<And>w. wk_id (g w) = wk_id w"
    "\<And>w. wk_id w = i \<Longrightarrow> wk_status (g w) \<in> {WorkerQuarantined, WorkerRevoked}"
  shows "blocked i db'"
proof -
  have "wk_id ` set (fd_workers db') = wk_id ` set (fd_workers db)" using assms(1,3) by (simp add: image_image)
  then show ?thesis using assms by (auto simp: blocked_def)
qed

lemma blocked_inactive: "blocked i db \<Longrightarrow> wk_id worker = i \<Longrightarrow> \<exists>e. activeWorker d worker db = Inl e"
proof (cases "activeWorker d worker db")
  case (Inr w)
  note a = activeWorker_cases [OF Inr]
  assume b: "blocked i db" "wk_id worker = i"
  then have "wk_status w \<in> {WorkerQuarantined, WorkerRevoked}" using a by (simp add: blocked_def)
  then show ?thesis using a by auto
qed simp

text \<open>The calls of a worker: its authentication, and the dispatch of a call that waits under a row of it.\<close>

fun acts_for :: "string \<Rightarrow> fleet_state \<Rightarrow> fleet_op \<Rightarrow> bool" where
  "acts_for i st (FleetAuthenticate clock path body headers) \<longleftrightarrow> map_of headers ''x-routecairn-worker-id'' = Some i"
| "acts_for i st (FleetDispatch n ok now token) \<longleftrightarrow> n < length (fs_pending st) \<and> wk_id (fst (fs_pending st ! n)) = i"
| "acts_for i st _ \<longleftrightarrow> False"

fun refused :: "fleet_output \<Rightarrow> bool" where
  "refused (FleetFailed e) \<longleftrightarrow> True"
| "refused (FleetClaimed job) \<longleftrightarrow> job = None"
| "refused _ \<longleftrightarrow> False"

lemma blocked_route:
  assumes "blocked (wk_id worker) db" "fleet_route rt now token worker path body db = (db', out)"
  shows "refused out"
proof -
  have "blocked (wk_id worker) (requeueExpired now db)" using assms(1) by (simp add: blocked_def requeueExpired_def)
  then obtain e where e: "activeWorker False worker (requeueExpired now db) = Inl e" using blocked_inactive by blast
  obtain e' where e': "activeWorker True worker db = Inl e'" using blocked_inactive [OF assms(1)] by blast
  show ?thesis using assms(2) e e'
    by (auto simp: fleet_route_def fleet_answer_def claim_job_def heartbeat_def renew_job_def complete_job_def Let_def split: if_splits option.splits prod.splits)
qed

lemma blocked_refused:
  assumes "blocked i (fs_db st)" "acts_for i st op" "fleet_exec rt op st = (st', out)"
  shows "refused out"
proof (cases op)
  case (FleetAuthenticate clock path body headers)
  show ?thesis
  proof (cases "snd (fleet_authenticate rt clock ''POST'' path body headers (fs_db st))")
    case (Inr worker)
    then have "fleet_authenticate rt clock ''POST'' path body headers (fs_db st) = (fst (fleet_authenticate rt clock ''POST'' path body headers (fs_db st)), Inr worker)"
      by (metis prod.collapse)
    from authenticate_signed [OF this] show ?thesis using assms(1,2) FleetAuthenticate by (auto simp: blocked_def)
  qed (use assms(3) FleetAuthenticate in \<open>auto split: prod.splits sum.splits\<close>)
next
  case (FleetDispatch n ok now token)
  obtain worker path body where p: "fs_pending st ! n = (worker, path, body)" by (metis prod.exhaust)
  then have "wk_id worker = i" "n < length (fs_pending st)" using assms(2) FleetDispatch by simp_all
  then show ?thesis using assms(1,3) FleetDispatch p blocked_route [of worker "fs_db st" rt now token path body]
    by (auto simp: Let_def split: if_splits prod.splits)
qed (use assms(2) in simp_all)

text \<open>
  C17: Once an operator has quarantined or revoked a worker, and until an operator sets its status again, everything it does is refused, through any other operations:
  it cannot authenticate, and calls that had authenticated before neither get a job nor renew, complete or report.
\<close>

theorem revoked_worker_powerless:
  assumes "fleet_exec rt (FleetSetStatus now i status) st = (st1, FleetDone)" "status \<in> {WorkerQuarantined, WorkerRevoked}"
    and "fleet_run rt ops st1 = (st2, outs)" "list_all (\<lambda>op. \<not> sets_status i op) ops"
    and "acts_for i st2 op" "fleet_exec rt op st2 = (st3, out)"
  shows "refused out"
proof -
  obtain db where s: "setStatus now i status (fs_db st) = (db, Inr ())" "fs_db st1 = db"
    using assms(1) by (cases "setStatus now i status (fs_db st)") (auto simp: fleet_answer_def split: sum.splits)
  then have one: "length (filter (\<lambda>w. wk_id w = i) (fd_workers (fs_db st))) = 1" by (auto simp: setStatus_def split: if_splits)
  then have "filter (\<lambda>w. wk_id w = i) (fd_workers (fs_db st)) \<noteq> []" by (cases "filter (\<lambda>w. wk_id w = i) (fd_workers (fs_db st))") auto
  then have mem: "i \<in> wk_id ` set (fd_workers (fs_db st))" by (auto simp: filter_empty_conv)
  have ws: "fd_workers (fs_db st1) = map (\<lambda>w. if wk_id w = i then w\<lparr>wk_status := status,
      wk_generation := wk_generation w + (if status = WorkerDraining then 0 else 1), wk_updatedAt := now\<rparr> else w) (fd_workers (fs_db st))"
    using s one by (auto simp: setStatus_def)
  have "blocked i (fs_db st1)" by (rule blocked_by_map [OF ws mem]) (use assms(2) in auto)
  from blocked_refused [OF blocked_run [OF this assms(3,4)] assms(5,6)] show ?thesis .
qed

section \<open>Who is given a job\<close>

lemma claim_grants:
  assumes "claim_job rt now token worker db = (db', Some c)"
  obtains w job where "activeWorker False worker (requeueExpired now db) = Inr w" "find (capable w) (candidates w (requeueExpired now db)) = Some job"
    "cj_id c = jb_id job" "cj_leaseToken c = token" "db' = set_job (granted_job rt now token w) (jb_id job) (requeueExpired now db)"
proof (cases "activeWorker False worker (requeueExpired now db)")
  case (Inl e)
  then show ?thesis using assms by (simp add: claim_job_def Let_def)
next
  case (Inr w)
  show ?thesis
  proof (cases "find (capable w) (candidates w (requeueExpired now db))")
    case None
    then show ?thesis using assms Inr by (simp add: claim_job_def Let_def)
  next
    case (Some job)
    show ?thesis
    proof (rule that [OF Inr Some])
      show "cj_id c = jb_id job" "cj_leaseToken c = token" using assms Inr Some by (auto simp: claim_job_def Let_def)
      show "db' = set_job (granted_job rt now token w) (jb_id job) (requeueExpired now db)"
        using assms Inr Some by (simp add: claim_job_def Let_def granted_job_def [abs_def])
    qed
  qed
qed

text \<open>
  C99: A job is handed out only by a dispatched claim, to a worker that is online at that moment in its current generation, of the job's
  organization and network zone and with all the capabilities the job requires, and only while the job is queued or its last lease has
  expired; the answer carries the token whose hash the row then holds.
\<close>

theorem leases_go_to_entitled_workers:
  assumes "fleet_reach rt st" "fleet_exec rt op st = (st', FleetClaimed (Some c))"
  shows "\<exists>n now token worker path body w j. op = FleetDispatch n True now token \<and> fs_pending st ! n = (worker, path, body)
    \<and> w \<in> set (fd_workers (fs_db st)) \<and> wk_id w = wk_id worker \<and> wk_generation w = wk_generation worker \<and> wk_status w = WorkerOnline
    \<and> j \<in> set (fd_jobs (fs_db st)) \<and> jb_id j = cj_id c \<and> jb_organization j = wk_organization w \<and> set (jb_required j) \<subseteq> set (wk_capabilities w)
    \<and> (jb_zone j = None \<or> jb_zone j = Some (or_else (map_of (wk_labels w) ''networkZone'') ''default''))
    \<and> (jb_status j = JobQueued \<or> lease_expired now j)
    \<and> granted_job rt now token w (requeue_job now j) \<in> set (fd_jobs (fs_db st')) \<and> cj_leaseToken c = token"
proof -
  obtain n ok now token where op: "op = FleetDispatch n ok now token"
    using assms(2) by (cases op) (auto simp: fleet_answer_def split: if_splits sum.splits prod.splits)
  obtain worker path body where p: "fs_pending st ! n = (worker, path, body)" by (metis prod.exhaust)
  have ok: "ok" and "fleet_route rt now token worker path body (fs_db st) = (fs_db st', FleetClaimed (Some c))"
    using assms(2) op p by (auto simp: Let_def split: if_splits prod.splits)
  then have claim: "claim_job rt now token worker (fs_db st) = (fs_db st', Some c)"
    by (auto simp: fleet_route_def fleet_answer_def Let_def split: if_splits option.splits prod.splits sum.splits)
  let ?db1 = "requeueExpired now (fs_db st)"
  obtain w job where w: "activeWorker False worker ?db1 = Inr w" and job: "find (capable w) (candidates w ?db1) = Some job"
    and c: "cj_id c = jb_id job" "cj_leaseToken c = token" and st': "fs_db st' = set_job (granted_job rt now token w) (jb_id job) ?db1"
    by (rule claim_grants [OF claim])
  have mem: "job \<in> set (fd_jobs ?db1)" "claimable w job" "capable w job" using find_SomeD [OF job] candidates_mem by blast+
  then obtain j where j: "j \<in> set (fd_jobs (fs_db st))" "job = requeue_job now j" by (auto simp: requeueExpired_def)
  have "jb_status j = JobQueued \<or> lease_expired now j" using mem(2) j(2) by (auto simp: claimable_def requeue_job_def split: if_splits)
  moreover have "granted_job rt now token w (requeue_job now j) \<in> set (fd_jobs (fs_db st'))" using mem(1) j(2) st' by (force simp: set_job_def)
  moreover have "w \<in> set (fd_workers (fs_db st))" "wk_id w = wk_id worker" "wk_generation w = wk_generation worker" "wk_status w = WorkerOnline"
    using activeWorker_cases [OF w] by (auto simp: requeueExpired_def)
  moreover have "jb_organization j = wk_organization w" "jb_zone j = None \<or> jb_zone j = Some (or_else (map_of (wk_labels w) ''networkZone'') ''default'')"
    using mem(2) j(2) by (auto simp: claimable_def)
  moreover have "set (jb_required j) \<subseteq> set (wk_capabilities w)" using mem(3) j(2) by (auto simp: capable_def list_all_iff)
  ultimately show ?thesis using op ok p j c by auto
qed

section \<open>Stalled jobs\<close>

lemma job_order_comparator: "comparator job_order"
  by (auto simp: comparator_def job_order_def)

text \<open>
  C39: The claim looks at the hundred queued jobs of highest priority only: where at least a hundred of the worker's organization and zone come before and require a
  capability it lacks, it is given nothing, although jobs it could run are queued, however often it asks.
\<close>

theorem claims_starved:
  assumes "activeWorker False worker (requeueExpired now db) = Inr w"
    and "100 \<le> length (filter (\<lambda>j. claimable w j \<and> \<not> capable w j \<and> p < jb_priority j) (fd_jobs (requeueExpired now db)))"
    and "list_all (\<lambda>j. claimable w j \<and> capable w j \<longrightarrow> jb_priority j \<le> p) (fd_jobs (requeueExpired now db))"
  shows "claim_job rt now token worker db = (requeueExpired now db, None)"
proof -
  let ?js = "filter (claimable w) (fd_jobs (requeueExpired now db))"
  have count: "100 \<le> length (filter (\<lambda>j. p < jb_priority j) (sort_by job_order ?js))"
  proof -
    have less: "length (filter (\<lambda>j. claimable w j \<and> \<not> capable w j \<and> p < jb_priority j) xs) \<le> length (filter (\<lambda>j. p < jb_priority j) (filter (claimable w) xs))" for xs
      by (induction xs) auto
    have sorted: "length (filter Q (sort_by job_order xs)) = length (filter Q xs)" for Q and xs :: "job_row list"
    proof (induction xs)
      case (Cons x xs)
      have "length (filter Q (insert_by job_order x ys)) = length (filter Q (x # ys))" for ys by (induction ys) auto
      then show ?case using Cons by simp
    qed simp
    show ?thesis unfolding sorted using order_trans [OF assms(2) less] .
  qed
  have "list_all (\<lambda>j. p < jb_priority j) (candidates w (requeueExpired now db))"
    unfolding candidates_def
    by (rule take_upper [OF ordered_sort_by [OF job_order_comparator] _ count]) (auto simp: job_order_def split: if_splits)
  then have "find (capable w) (candidates w (requeueExpired now db)) = None"
    using assms(3) candidates_mem [of _ w "requeueExpired now db"] unfolding find_None_iff list_all_iff by (metis not_le)
  then show ?thesis using assms(1) by (simp add: claim_job_def Let_def)
qed

section \<open>A concrete fleet\<close>

text \<open>One worker enrolls, claims a queued job and reports it done; the runtime knows its signature and one instant.\<close>

definition example_fleet_runtime :: fleet_runtime where
  "example_fleet_runtime =
     \<lparr>rt_newURL = split_https, rt_sha256 = (\<lambda>s. s), jr_parse = (\<lambda>s. None), jr_stringify = (\<lambda>j. ''body''), jr_property = (\<lambda>j k. None),
      cr_localeCompare = locale_compare, cr_hmac = (\<lambda>k m. k), cr_toBase64url = (\<lambda>s. s), cr_fromBase64url = (\<lambda>s. s),
      cr_dateParse = (\<lambda>s. if s = ''now'' then Some 0 else None), fr_createPublicKey = (\<lambda>pem. Some (''ed25519'', pem, pem)),
      fr_verify = (\<lambda>key signed sig. sig = ''signed''), fr_numberValue = (\<lambda>t. jsint 0)\<rparr>"

definition example_headers :: "string \<Rightarrow> (string \<times> string) list" where
  "example_headers nonce = [(''x-routecairn-worker-id'', ''w1''), (''x-routecairn-timestamp'', ''now''), (''x-routecairn-nonce'', nonce),
     (''x-routecairn-signature'', ''signed'')]"

definition example_fleet_token :: string where
  "example_fleet_token = replicate 32 (CHR ''t'')"

definition fleet_setup :: "fleet_op list" where
  "fleet_setup =
     [FleetCreateEnrollment 0 ''e1'' example_fleet_token \<lparr>ei_organization = ''acme'', ei_nameHint = None, ei_minutes = 60, ei_workloadIdentity = False\<rparr> ''admin'',
      FleetEnroll 1 ''w1'' \<lparr>el_token = example_fleet_token, el_name = ''one'', el_publicKeyPem = replicate 100 (CHR ''p''), el_capabilities = [''ping''], el_labels = []\<rparr>,
      FleetEnqueue 2 ''a1'' \<lparr>qi_organization = ''acme'', qi_kind = ''PING'', qi_payload = [], qi_required = [], qi_priority = 0, qi_maxAttempts = 2, qi_zone = None\<rparr> ''admin'',
      FleetAuthenticate (3, 3, 3) ''/api/remote-agents/worker/claim'' (JObject []) (example_headers (replicate 16 (CHR ''a'')))]"

definition example_claim :: fleet_op where
  "example_claim = FleetDispatch 0 True 4 example_fleet_token"

definition example_report :: fleet_op where
  "example_report = FleetAuthenticate (5, 5, 5) ''/api/remote-agents/worker/jobs/a1/complete''
     (JObject [(''leaseToken'', JString example_fleet_token), (''status'', JString ''COMPLETED'')]) (example_headers (replicate 16 (CHR ''b'')))"

definition example_finish :: fleet_op where
  "example_finish = FleetDispatch 0 True 6 []"

definition example_job :: "job_status \<Rightarrow> job_row" where
  "example_job st = \<lparr>jb_id = ''a1'', jb_organization = ''acme'', jb_kind = ''PING'', jb_payload = ''body'', jb_required = [''ping''], jb_zone = None,
     jb_status = st, jb_priority = 0, jb_worker = Some ''w1'', jb_leaseHash = (if st = JobLeased then Some (fleet_digest example_fleet_runtime example_fleet_token) else None),
     jb_leaseExpires = (if st = JobLeased then Some 60004 else None), jb_attempts = 1, jb_maxAttempts = 2, jb_result = None, jb_error = None,
     jb_createdBy = ''admin'', jb_createdAt = 2, jb_startedAt = Some 4, jb_completedAt = (if st = JobCompleted then Some 6 else None)\<rparr>"

definition fleet_ready :: fleet_state where
  "fleet_ready = fst (fleet_run example_fleet_runtime fleet_setup fleet_start)"

definition fleet_reporting :: fleet_state where
  "fleet_reporting = fst (fleet_run example_fleet_runtime [example_claim, example_report] fleet_ready)"

lemma ready_reached: "fleet_reach example_fleet_runtime fleet_ready"
  using reach_run [OF fleet_reach.start] unfolding fleet_ready_def by (metis prod.collapse)

lemma reporting_reached: "fleet_reach example_fleet_runtime fleet_reporting"
  using reach_run [OF ready_reached] unfolding fleet_reporting_def by (metis prod.collapse)

lemma reporting_jobs: "fd_jobs (fs_db fleet_reporting) = [example_job JobLeased]"
  by code_simp

lemma finished_jobs: "fd_jobs (fs_db (fst (fleet_exec example_fleet_runtime example_finish fleet_reporting))) = [example_job JobCompleted]"
  by code_simp

theorem fleet_tables_well_formed_witness: "fleet_ok (fs_db fleet_reporting)"
  by (rule fleet_tables_well_formed [OF reporting_reached])

theorem job_ended_by_lease_holder_witness:
  "\<exists>worker path body (input :: completion_input). fs_pending fleet_reporting ! 0 = (worker, path, body) \<and> call_signed example_fleet_runtime worker path body
     \<and> renewable example_fleet_runtime 6 worker ''a1'' (ci_leaseToken input) (example_job JobLeased)"
proof -
  have exec: "fleet_exec example_fleet_runtime example_finish fleet_reporting = (fst (fleet_exec example_fleet_runtime example_finish fleet_reporting),
      snd (fleet_exec example_fleet_runtime example_finish fleet_reporting))" by simp
  have j: "example_job JobLeased \<in> set (fd_jobs (fs_db fleet_reporting))" by (simp add: reporting_jobs)
  have ended: "jb_status (example_job JobCompleted) = JobCompleted" "jb_status (example_job JobLeased) \<noteq> JobCompleted" "jb_id (example_job JobLeased) = ''a1''"
    by (simp_all add: example_job_def)
  from job_ended_by_lease_holder [OF reporting_reached exec j] obtain j' where j': "j' \<in> set (fd_jobs (fs_db (fst (fleet_exec example_fleet_runtime example_finish fleet_reporting))))"
    and moved: "jb_result j' \<noteq> jb_result (example_job JobLeased) \<or> jb_status j' = JobCompleted \<and> jb_status (example_job JobLeased) \<noteq> JobCompleted \<longrightarrow>
      (\<exists>n now token worker path body input. example_finish = FleetDispatch n True now token \<and> n < length (fs_pending fleet_reporting)
        \<and> fs_pending fleet_reporting ! n = (worker, path, body) \<and> call_signed example_fleet_runtime worker path body
        \<and> job_path ''/complete'' path = Some (jb_id (example_job JobLeased)) \<and> completion_body body = Some input
        \<and> renewable example_fleet_runtime now worker (jb_id (example_job JobLeased)) (ci_leaseToken input) (example_job JobLeased))"
    by (elim bexE conjE) (rule that)
  have "j' = example_job JobCompleted" using j' unfolding finished_jobs by simp
  then have finished: "jb_status j' = JobCompleted \<and> jb_status (example_job JobLeased) \<noteq> JobCompleted" using ended by simp
  obtain n now token worker path body and input :: completion_input where op: "example_finish = FleetDispatch n True now token"
    and call: "fs_pending fleet_reporting ! n = (worker, path, body)" "call_signed example_fleet_runtime worker path body"
      "renewable example_fleet_runtime now worker (jb_id (example_job JobLeased)) (ci_leaseToken input) (example_job JobLeased)"
    using mp [OF moved disjI2 [OF finished]] by (elim exE conjE) (rule that)
  from op have "n = 0" "now = 6" by (simp_all add: example_finish_def)
  with call have "fs_pending fleet_reporting ! 0 = (worker, path, body) \<and> call_signed example_fleet_runtime worker path body
     \<and> renewable example_fleet_runtime 6 worker ''a1'' (ci_leaseToken input) (example_job JobLeased)" unfolding ended(3) by simp
  then show ?thesis by (intro exI)
qed

theorem leases_within_attempts_witness:
  "sum_list (map (claims ''a1'') (snd (fleet_run example_fleet_runtime (fleet_setup @ [example_claim, example_report, example_finish]) fleet_start))) = 1"
proof -
  let ?r = "fleet_run example_fleet_runtime (fleet_setup @ [example_claim, example_report, example_finish]) fleet_start"
  have run: "?r = (fst ?r, snd ?r)" by simp
  have "fd_jobs (fs_db (fst ?r)) = [example_job JobCompleted]" by code_simp
  then have j: "example_job JobCompleted \<in> set (fd_jobs (fs_db (fst ?r)))" by simp
  from leases_within_attempts [OF run j] show ?thesis by (simp add: example_job_def)
qed

theorem revoked_worker_powerless_witness:
  "refused (snd (fleet_exec example_fleet_runtime example_finish (fst (fleet_exec example_fleet_runtime (FleetSetStatus 5 ''w1'' WorkerRevoked) fleet_reporting))))"
proof -
  let ?s = "fleet_exec example_fleet_runtime (FleetSetStatus 5 ''w1'' WorkerRevoked) fleet_reporting"
  have set: "?s = (fst ?s, FleetDone)"
  proof -
    have "snd ?s = FleetDone" by code_simp
    then show ?thesis by (metis prod.collapse)
  qed
  have acts: "acts_for ''w1'' (fst ?s) example_finish" by code_simp
  have none: "list_all (\<lambda>op. \<not> sets_status ''w1'' op) []" by simp
  have run: "fleet_run example_fleet_runtime [] (fst ?s) = (fst ?s, [])" by simp
  show ?thesis using revoked_worker_powerless [OF set _ run none acts] by (metis insertCI prod.collapse)
qed

theorem leases_go_to_entitled_workers_witness:
  "\<exists>w\<in>set (fd_workers (fs_db fleet_ready)). wk_status w = WorkerOnline \<and> wk_organization w = ''acme''"
proof -
  let ?e = "fleet_exec example_fleet_runtime example_claim fleet_ready"
  obtain c where c: "snd ?e = FleetClaimed (Some c)" "cj_id c = ''a1''"
  proof -
    have "snd ?e = FleetClaimed (Some \<lparr>cj_id = ''a1'', cj_kind = ''PING'', cj_payload = ''body'', cj_leaseToken = example_fleet_token, cj_leaseExpiresAt = 60004\<rparr>)" by code_simp
    then show ?thesis by (rule that) simp
  qed
  then have e: "?e = (fst ?e, FleetClaimed (Some c))" by (metis prod.collapse)
  have "list_all (\<lambda>j. jb_organization j = ''acme'') (fd_jobs (fs_db fleet_ready))" by code_simp
  then show ?thesis using leases_go_to_entitled_workers [OF ready_reached e] unfolding list_all_iff by metis
qed

definition blocking_job :: job_row where
  "blocking_job = \<lparr>jb_id = ''b'', jb_organization = ''acme'', jb_kind = ''SCAN'', jb_payload = ''body'', jb_required = [''scan''], jb_zone = None,
     jb_status = JobQueued, jb_priority = 1, jb_worker = None, jb_leaseHash = None, jb_leaseExpires = None, jb_attempts = 0, jb_maxAttempts = 3,
     jb_result = None, jb_error = None, jb_createdBy = ''admin'', jb_createdAt = 0, jb_startedAt = None, jb_completedAt = None\<rparr>"

theorem claims_starved_witness:
  "snd (claim_job example_fleet_runtime 4 example_fleet_token (fst (fs_pending fleet_ready ! 0))
     ((fs_db fleet_ready)\<lparr>fd_jobs := replicate 100 blocking_job @ fd_jobs (fs_db fleet_ready)\<rparr>)) = None"
proof -
  let ?db = "(fs_db fleet_ready)\<lparr>fd_jobs := replicate 100 blocking_job @ fd_jobs (fs_db fleet_ready)\<rparr>"
  let ?w = "fst (fs_pending fleet_ready ! 0)"
  have w: "activeWorker False ?w (fs_db fleet_ready) = Inr ?w" by code_simp
  have "activeWorker False ?w (requeueExpired 4 ?db) = activeWorker False ?w (fs_db fleet_ready)" by (simp add: activeWorker_def requeueExpired_def)
  then have active: "activeWorker False ?w (requeueExpired 4 ?db) = Inr ?w" using w by simp
  have b: "requeue_job 4 blocking_job = blocking_job" "claimable ?w blocking_job" "\<not> capable ?w blocking_job" "jb_priority blocking_job = 1" by code_simp+
  have old: "list_all (\<lambda>j. jb_priority (requeue_job 4 j) \<le> 0) (fd_jobs (fs_db fleet_ready))" by code_simp
  have jobs: "fd_jobs (requeueExpired 4 ?db) = replicate 100 blocking_job @ map (requeue_job 4) (fd_jobs (fs_db fleet_ready))"
    using b(1) by (simp add: requeueExpired_def)
  have many: "100 \<le> length (filter (\<lambda>j. claimable ?w j \<and> \<not> capable ?w j \<and> 0 < jb_priority j) (fd_jobs (requeueExpired 4 ?db)))"
    unfolding jobs filter_append length_append filter_replicate using b(2-4) by simp
  have "list_all (\<lambda>j. claimable ?w j \<and> capable ?w j \<longrightarrow> jb_priority j \<le> 0) (fd_jobs (requeueExpired 4 ?db))"
    unfolding jobs using b(3) old by (auto simp: list_all_iff)
  from claims_starved [OF active many this] show ?thesis by simp
qed

end
