(* ===== verification/Spec2Isabelle.thy ===== *)
theory Spec2Isabelle
  imports RC_BuiltinPlans RC_MutationRuns RC_BrokerSendFacts RC_OastRuns RC_FramesFacts RC_RawSend RC_CoordinatorClient
    RC_RemoteWorkersGates
begin

text \<open>
  \<^bold>\<open>RouteCairn: the safety kernel of a security assessment tool.\<close>

  RouteCairn scans web applications under an explicit authorization. What it may send, how fast, how much and under which
  recovery obligations is decided by a small set of components of \<^verbatim>\<open>src/src/core\<close>, which the modules, the dashboard and the
  command line all use. This development models those components and proves what they promise.

  \<^bold>\<open>Parts and how they interact.\<close> The scan planner resolves a profile, the declared scope, the
  target authorization and the overrides of a run into a plan with limits and an ordered list of modules. While the plan runs, each
  request goes through the request safety broker. The broker asks the scope matcher and the authorization guard, which charges
  the request against the program's budget and rate, and the scan ledger, which splits the plan's budget into an ordinary lane and a cleanup
  lane and bounds concurrency, with the rate limiter and the retry policy; it follows redirects itself and binds browser traffic to
  single decisions. The client below it resolves and pins the destination and connects only to the pinned address. A controlled mutation is authorized by the mutation policy and executed with a
  durable journal and a sealed recovery bundle, so that a crash leaves an obligation that blocks new work until the target is restored.
  Blind vulnerabilities show by callbacks of the target to the callback service (\<^verbatim>\<open>src/src/oast\<close>), a DNS and HTTP server that leases signed
  names to a tenant, records the callbacks that carry them, and lets the tenant poll the evidence. The streaming modules speak
  gRPC and WebSocket with framings of their own. Where several hosts test the same target, a coordination service of the dashboard leases
  the right to mutate it to one of them and remembers cases that were not cleaned up; another service leases jobs to a fleet of enrolled workers.

  \<^bold>\<open>Theories and sources.\<close>
  \<^item> \<open>RC_Prelude\<close>: results as sums (\<open>ebind\<close>, \<open>guard_err\<close>, \<open>each_err\<close>), JavaScript numbers with NaN and infinities, strings, insertion sort, insertion-ordered maps.
  \<^item> \<open>RC_Rate\<close>: \<^verbatim>\<open>http/RateLimiter.ts\<close>, \<^verbatim>\<open>RetryPolicy.ts\<close>, \<^verbatim>\<open>RequestQueue.ts\<close>. The locale \<open>slot_gate\<close> states what a gate with a
    FIFO queue promises; the request queue and (in \<open>RC_Ledger\<close>) the ledger's gate are its interpretations.
  \<^item> \<open>RC_Ledger\<close>: \<^verbatim>\<open>http/ScanRequestLedger.ts\<close>; the calls in flight are a step relation. The locale \<open>request_budget\<close> is the
    contract of a counter with a limit; both lanes and the authorization guard interpret it.
  \<^item> \<open>RC_Url\<close>: parsed URLs and the runtime record. \<^verbatim>\<open>new URL\<close>, SHA-256 and (in \<open>RC_MutationPolicy\<close>) JSON are parameters.
  \<^item> \<open>RC_Authorization\<close>, \<open>RC_Guard\<close>: \<^verbatim>\<open>authorization/TargetAuthorization.ts\<close>, the schemas of \<^verbatim>\<open>ProductionCampaign.ts\<close> and the workflow part of
    \<^verbatim>\<open>auth/ActorRegistry.ts\<close>; the guard's state is the record \<open>auth_guard\<close>, its methods are state-passing functions.
  \<^item> \<open>RC_Scope\<close>: \<^verbatim>\<open>urls/UrlNormalizer.ts\<close>, \<^verbatim>\<open>scope/ScopeMatcher.ts\<close>, the scope schema and \<^verbatim>\<open>http/RedirectSafety.ts\<close>.
  \<^item> \<open>RC_Net\<close>: \<^verbatim>\<open>net/AddressClassifier.ts\<close> over 32 bit words, with Node's \<^verbatim>\<open>isIP\<close> and \<^verbatim>\<open>parseInt\<close>.
  \<^item> \<open>RC_Pinned\<close>: \<^verbatim>\<open>http/PinnedHttpTransport.ts\<close>, \<^verbatim>\<open>PinnedOriginPool.ts\<close> and the DNS cache of \<^verbatim>\<open>HttpClient.ts\<close>. The resolver and what a dialled socket
    reports are parameters; connection pools are numbers.
  \<^item> \<open>RC_Broker\<close>: \<^verbatim>\<open>http/RequestSafetyBroker.ts\<close>, the operations that run without interruption, as functions on the record \<open>broker\<close>, which holds the
    matcher with its guard, the ledger, the counters, the browser bindings, the audit and the log of initiated requests.
    \<open>RC_BrokerFacts\<close> shows of each operation whether it is quiet, charges, approves or initiates; \<open>RC_BrokerRuns\<close> has runs of operations of the
    broker and its peers and their invariant.
  \<^item> \<open>RC_BrokerSend\<close>, \<open>RC_BrokerSendFacts\<close>: \<^verbatim>\<open>send\<close>, \<^verbatim>\<open>sendRequest\<close> and \<^verbatim>\<open>sendWithRedirects\<close> of the broker and \<^verbatim>\<open>send\<close> of \<^verbatim>\<open>HttpClient.ts\<close>. At every await an
    environment lists the operations that ran meanwhile, the state of the signal and what the network answered.
  \<^item> \<open>RC_RawHttp\<close>, \<open>RC_RawHttpFacts\<close>, \<open>RC_RawWire\<close>: \<^verbatim>\<open>http/RawHttp1Transport.ts\<close>, with the events of the socket as an input list and the caller's
    \<^verbatim>\<open>begin\<close> as a function on a state of its own; \<open>RC_RawSend\<close>: \<^verbatim>\<open>sendRawHttp1\<close> of the broker on top of it.
  \<^item> \<open>RC_Catalog\<close>, \<open>RC_Profiles\<close>: \<^verbatim>\<open>planning/ModuleCatalog.ts\<close>, \<^verbatim>\<open>ProfileDefinitions.ts\<close>, the plugin registry and the default registry of
    \<^verbatim>\<open>engine/ScanOrchestrator.ts\<close>.
  \<^item> \<open>RC_Planner\<close>, \<open>RC_PlanFacts\<close>, \<open>RC_BuiltinPlans\<close>: \<^verbatim>\<open>planning/ScanPlanner.ts\<close> with the bindings of \<^verbatim>\<open>PreHandoverPlanner.ts\<close>. The locale
    \<open>ready_scheduler\<close> is the ordering loop over any notion of readiness; the planner's modules interpret it.
  \<^item> \<open>RC_MutationPolicy\<close>: \<^verbatim>\<open>offensive/ControlledMutationTypes.ts\<close> and \<^verbatim>\<open>MutationPolicy.ts\<close>.
  \<^item> \<open>RC_Mutation\<close>, \<open>RC_MutationFacts\<close>, \<open>RC_MutationRuns\<close>: \<^verbatim>\<open>offensive/MutationJournal.ts\<close>, \<^verbatim>\<open>ControlledMutationExecutor.ts\<close>, the interface of
    \<^verbatim>\<open>MutationRecoveryVault.ts\<close> and \<^verbatim>\<open>MutationCleanupStatus.ts\<close>. An execution is a function of a world with the journal directory, a list of
    answers and a trace; each operation takes one answer, which can be success, a failure before or after the
    effect, or, when the list ends, a crash. The locale \<open>stable_under\<close> carries invariants through an execution, its extensions
    \<open>kept_by_recovery\<close> and \<open>kept_by_all\<close> through whole recoveries and executions.
  \<^item> \<open>RC_Bytes\<close>: Node's \<^verbatim>\<open>Buffer\<close> as a list of 8 bit words, its big-endian integers (the locale \<open>wire_int\<close> is the contract of a fixed-width field),
    UTF-8 and ASCII, and \<^verbatim>\<open>toISOString\<close>.
  \<^item> \<open>RC_OastDns\<close>, \<open>RC_OastDnsFacts\<close>: \<^verbatim>\<open>oast/OastDns.ts\<close>, the inspection of answers in \<^verbatim>\<open>OastDnsTransport.ts\<close> and the schema of \<^verbatim>\<open>OastConfig.ts\<close>.
  \<^item> \<open>RC_OastStore\<close>, \<open>RC_OastStoreFacts\<close>: \<^verbatim>\<open>oast/OastStore.ts\<close> over the record \<open>oast_db\<close> with one list per table; instants are milliseconds and become
    text where the code signs them. The locale \<open>evidence_store\<close> is the contract of a store that keeps at most one event of a kind.
  \<^item> \<open>RC_OastService\<close>, \<open>RC_OastFacts\<close>, \<open>RC_OastRuns\<close>: \<^verbatim>\<open>oast/OastService.ts\<close>. A request that waits for its body is an entry of \<open>sv_pending\<close>, so that
    other operations run between its two halves; \<open>oast_exec\<close> is one operation and \<open>oast_reachable\<close> the states of a run.
  \<^item> \<open>RC_Frames\<close>, \<open>RC_FramesFacts\<close>: \<^verbatim>\<open>modules/protocolSecurity/ProtocolGrpcFrames.ts\<close>, and of \<^verbatim>\<open>ProtocolTransports.ts\<close> the frames of gRPC and WebSocket
    and the loop that receives WebSocket messages. Its inputs are the chunks its reads return, how the read behind them ends (timeout or
    another failure, which it throws on) and how many turns it begins before its deadline.
  \<^item> \<open>RC_Coordinator\<close>: the coordination of mutations across hosts, \<^verbatim>\<open>dashboard/operations/DistributedMutationCoordinatorService.ts\<close> with its routes and
    tables, and its client \<^verbatim>\<open>offensive/DistributedMutationCoordinator.ts\<close>. \<open>RC_CoordinatorFacts\<close> describes each operation, with the locale
    \<open>single_use\<close> for a table of nonces; \<open>RC_CoordinatorRuns\<close> has the abstract machine of a namespace (free, held for a case, open cases) and the runs that refine it;
    \<open>RC_CoordinatorClient\<close> puts client and service together, with the sorting facts of \<open>RC_Sorting\<close> for canonical JSON.
  \<^item> \<open>RC_RemoteWorkers\<close>, \<open>RC_RemoteWorkersFacts\<close>, \<open>RC_RemoteWorkersRuns\<close>, \<open>RC_RemoteWorkersPromises\<close>, \<open>RC_RemoteWorkersGates\<close>:
    \<^verbatim>\<open>dashboard/operations/RemoteWorkerService.ts\<close>, enrollment, authentication, the queue of jobs and their leases, with the routes of
    \<^verbatim>\<open>DashboardServer.ts\<close>. A call that has authenticated and waits for its workload identity is an entry of \<open>fs_pending\<close>; \<open>fleet_exec\<close> is one operation.

  \<^bold>\<open>What the lemmas show.\<close> Rate: windows of one second, bounded concurrency, bounded retries. Ledger: lane budgets and slots in every
  reachable state, cleanup first. Guard: budget and rate over every history, only approved requests are charged, with the bodies
  their rules list, permits are single use, campaigns are read-only. Scope: normal forms and soundness of the matcher. Transport: reserved addresses are recognised in every
  spelling, sockets reach only admitted destinations, pools are bound to one origin. Broker: whatever the interleaving, only authorized requests are initiated, each
  charged before at every counter that governs it, a browser decision lets out at most one; a send is a sequence of
  such operations, ends, and keeps supplied headers and bodies with their origin; the raw lane writes only behind a commit, its requests
  read as intended both ways, and the responses are told apart. Planner: limits below every ceiling, sound
  module order, success of the built-in profiles on every valid scope. Mutation: the exact-body rule (scalars under empty keys alone escape it, a finding), arming before the attack, no
  changed target is forgotten, no two outstanding mutations, recovery only on targets that the answers it got
  confirm, agreement of the readers of an obligation.
  Callback service: questions and answers survive the wire, answers over UDP are bounded, no evidence without a signed name, no
  lease without a tenant's token, no callback counted twice, a well-formed database in every reachable state, and a lease
  that is called back shows exactly that event. Framings: exact decoding, messages delivered whole however they are cut,
  unless the stream fails before a close frame.
  Coordinator: every operation is a step of the abstract machine, an uncleaned case blocks its namespace, calls of the client
  authenticate and nonces are single use per client. Fleet: jobs end only by the holder of their lease, are leased at most as often as
  allowed, and a revoked worker gets and changes nothing; two theorems show where the services fall short, replays under another client name
  and claims that jobs of higher priority starve.

  \<^bold>\<open>Bounds and fuel.\<close> The loops of the program are total functions here with termination proofs, except the retry loop, which has the number
  of attempts as its measure, the polling loop of a verification, which has the attempts left, and \<^verbatim>\<open>waitForRate\<close>, whose
  wake-ups are an input list, with a theorem that the list suffices. The WebSocket loop has its turns before the deadline as an argument; a turn
  for each frame and chunk suffices. An execution of a mutation takes at most 138 operations when
  each verification has at most the 10 attempts the schema allows. A send consumes one environment for each hop and
  attempt; six hops for each attempt suffice, since at most five redirects are followed.

  \<^bold>\<open>Not modelled.\<close> Of the callback service the listeners, certificates, shutdown, secrets and the client; of the streams the handshakes,
  scripted sending and the HTTP/2 and HTTP/3 sessions. Sockets, TLS, DNS and browsers themselves, reading, redacting and attesting response bodies, trusted discovery requests,
  the joint dispatch of synchronized groups (its checks are modelled), the detectors under
  \<^verbatim>\<open>src/src/modules\<close>, reports, the user interface of the dashboard, the command line, the control plane and the benchmark
  harness: they are I/O around the decisions above. Text of error messages, notes and audit fields of journal entries is left
  out where no decision reads it. Locale-sensitive comparison is comparison of code units, which agrees on the identifiers compared.
\<close>

end
